(* ===== verification/GoPrelude.thy ===== *)
theory GoPrelude
  imports Main "HOL-Library.Sublist" "HOL-Library.Char_ord" "HOL-Library.List_Lexorder"
begin

text \<open>
  What every component of the control plane uses of Go and of its standard library:
  results of fallible calls, the byte-string operations of package \<open>strings\<close>, the lexical
  cleaning of package \<open>path\<close>, and 64-bit two's complement integers.

  A Go \<open>string\<close> is a sequence of bytes, which is what a \<^typ>\<open>string\<close> (a list of 8-bit
  characters) is here.  A Go \<open>error\<close> result is an \<open>'e option\<close> (\<open>None\<close> is \<open>nil\<close>), and a
  pair of a value and an error is a sum \<open>'e + 'a\<close> with \<open>Inl\<close> for the error.  A Go \<open>int\<close> or
  \<open>int64\<close> is an \<^typ>\<open>int\<close>, with \<open>i64\<close> applied wherever the code's arithmetic can wrap.
\<close>

named_theorems go_string "facts about Go strings and repository paths"

section \<open>Fallible computations\<close>

text \<open>A validation loop: the error of the first element that has one.\<close>

fun first_err :: "('a \<Rightarrow> 'e option) \<Rightarrow> 'a list \<Rightarrow> 'e option" where
  "first_err f [] = None"
| "first_err f (x # xs) = (case f x of Some e \<Rightarrow> Some e | None \<Rightarrow> first_err f xs)"

lemma first_err_None [simp]: "first_err f xs = None \<longleftrightarrow> (\<forall>x \<in> set xs. f x = None)"
  by (induction xs) (auto split: option.splits)

lemma first_err_Some: "first_err f xs = Some e \<Longrightarrow> \<exists>x \<in> set xs. f x = Some e"
  by (induction xs) (auto split: option.splits)

text \<open>The same loop with the index of the element, counted from a start value.\<close>

fun first_err_idx :: "(nat \<Rightarrow> 'a \<Rightarrow> 'e option) \<Rightarrow> nat \<Rightarrow> 'a list \<Rightarrow> 'e option" where
  "first_err_idx f i [] = None"
| "first_err_idx f i (x # xs) =
     (case f i x of Some e \<Rightarrow> Some e | None \<Rightarrow> first_err_idx f (Suc i) xs)"

lemma first_err_idx_None:
  "first_err_idx f i xs = None \<longleftrightarrow> (\<forall>j < length xs. f (i + j) (xs ! j) = None)"
proof (induction xs arbitrary: i)
  case Nil
  then show ?case by simp
next
  case (Cons x xs)
  have "(\<forall>j < length (x # xs). f (i + j) ((x # xs) ! j) = None) \<longleftrightarrow>
      f i x = None \<and> (\<forall>j < length xs. f (Suc i + j) (xs ! j) = None)"
    by (simp add: All_less_Suc2)
  with Cons.IH [of "Suc i"] show ?case
    by (simp split: option.splits)
qed

text \<open>Two checks in sequence: the second runs when the first gave no error.\<close>

definition err_then :: "'e option \<Rightarrow> 'e option \<Rightarrow> 'e option" where
  "err_then a b = (case a of Some e \<Rightarrow> Some e | None \<Rightarrow> b)"

definition err_if :: "bool \<Rightarrow> 'e \<Rightarrow> 'e option" where
  "err_if c e = (if c then Some e else None)"

lemma err_then_None [simp]: "err_then a b = None \<longleftrightarrow> a = None \<and> b = None"
  by (simp add: err_then_def split: option.splits)

lemma err_then_Some [simp]:
  "err_then a b = Some e \<longleftrightarrow> a = Some e \<or> a = None \<and> b = Some e"
  by (auto simp: err_then_def split: option.splits)

lemma err_then_neq: "a \<noteq> Some e \<Longrightarrow> b \<noteq> Some e \<Longrightarrow> err_then a b \<noteq> Some e"
  by (auto simp: err_then_def split: option.splits)

lemma err_then_simps [simp]: "err_then None b = b" "err_then (Some x) b = Some x"
  by (simp_all add: err_then_def)

lemma err_if_simps [simp]:
  "err_if c e = None \<longleftrightarrow> \<not> c" "err_if c e = Some e' \<longleftrightarrow> c \<and> e = e'"
  "err_if True e = Some e" "err_if False e = None"
  by (auto simp: err_if_def)

lemma sum_not_Inl: "(\<forall>x. s \<noteq> Inl x) \<longleftrightarrow> (\<exists>y. s = Inr y)"
  by (cases s) auto

text \<open>A loop whose body updates a state and may stop the loop with an error.\<close>

fun fold_res :: "('s \<Rightarrow> 'a \<Rightarrow> 'e + 's) \<Rightarrow> 'a list \<Rightarrow> 's \<Rightarrow> 'e + 's" where
  "fold_res f [] s = Inr s"
| "fold_res f (x # xs) s = (case f s x of Inl e \<Rightarrow> Inl e | Inr s' \<Rightarrow> fold_res f xs s')"

lemma fold_res_append:
  "fold_res f (xs @ ys) s = (case fold_res f xs s of Inl e \<Rightarrow> Inl e | Inr t \<Rightarrow> fold_res f ys t)"
  by (induction xs arbitrary: s) (auto split: sum.splits)

lemma fold_res_Inl: "fold_res f xs s = Inl e \<Longrightarrow> \<exists>x \<in> set xs. \<exists>u. f u x = Inl e"
  by (induction xs arbitrary: s) (force split: sum.splits)+

text \<open>The loop rule: what every successful step keeps holds at the end.\<close>

lemma fold_res_invariant:
  assumes "fold_res f xs s = Inr t" and "P s"
    and "\<And>u x v. x \<in> set xs \<Longrightarrow> P u \<Longrightarrow> f u x = Inr v \<Longrightarrow> P v"
  shows "P t"
  using assms
proof (induction xs arbitrary: s)
  case Nil
  then show ?case by simp
next
  case (Cons x xs)
  then obtain u where u: "f s x = Inr u" "fold_res f xs u = Inr t"
    by (auto split: sum.splits)
  then have "P u" using Cons.prems by auto
  with u show ?case using Cons.IH Cons.prems(3) by auto
qed

section \<open>64-bit integers\<close>

text \<open>Go's \<open>int\<close> and \<open>int64\<close> addition keeps the low 64 bits, read as two's complement.\<close>

definition i64 :: "int \<Rightarrow> int" where
  "i64 x = (x + 2 ^ 63) mod 2 ^ 64 - 2 ^ 63"

definition is_i64 :: "int \<Rightarrow> bool" where
  "is_i64 x \<longleftrightarrow> - (2 ^ 63) \<le> x \<and> x < 2 ^ 63"

lemma i64_id: "is_i64 x \<Longrightarrow> i64 x = x"
  by (simp add: i64_def is_i64_def)

lemma i64_range: "is_i64 (i64 x)"
  by (simp add: i64_def is_i64_def)

lemma i64_idem [simp]: "i64 (i64 x) = i64 x"
  by (simp add: i64_id i64_range)

end
