(* ===== verification/GoStrings.thy ===== *)
theory GoStrings
  imports GoPrelude
begin

text \<open>
  The functions of Go's packages \<open>strings\<close> and \<open>path\<close> that the control plane calls, on byte
  strings: \<open>TrimSpace\<close> with the white space of Unicode in its UTF-8 encoding, prefixes and
  suffixes, splitting and joining, and the lexical \<open>path.Clean\<close>.
\<close>

section \<open>Prefixes and suffixes\<close>

definition HasPrefix :: "string \<Rightarrow> string \<Rightarrow> bool" where
  "HasPrefix s p \<longleftrightarrow> take (length p) s = p"

definition HasSuffix :: "string \<Rightarrow> string \<Rightarrow> bool" where
  "HasSuffix s p \<longleftrightarrow> HasPrefix (rev s) (rev p)"

definition TrimPrefix :: "string \<Rightarrow> string \<Rightarrow> string" where
  "TrimPrefix s p = (if HasPrefix s p then drop (length p) s else s)"

definition TrimSuffix :: "string \<Rightarrow> string \<Rightarrow> string" where
  "TrimSuffix s p = (if HasSuffix s p then take (length s - length p) s else s)"

lemma HasPrefix_prefix [go_string]: "HasPrefix s p \<longleftrightarrow> prefix p s"
  by (auto simp: HasPrefix_def prefix_def) (metis append_take_drop_id)

lemma HasSuffix_suffix [go_string]: "HasSuffix s p \<longleftrightarrow> suffix p s"
  by (simp add: HasSuffix_def HasPrefix_prefix suffix_to_prefix)

lemma HasPrefix_append [simp]: "HasPrefix (p @ s) p"
  by (simp add: go_string)

lemma HasSuffix_append [simp]: "HasSuffix (s @ p) p"
  by (simp add: go_string suffix_def)

lemma TrimPrefix_append [simp]: "TrimPrefix (p @ s) p = s"
  by (simp add: TrimPrefix_def)

lemma TrimSuffix_append [simp]: "TrimSuffix (s @ p) p = s"
  by (simp add: TrimSuffix_def)

lemma TrimSuffix_eq: "TrimSuffix s p @ (if HasSuffix s p then p else []) = s"
  by (auto simp: TrimSuffix_def go_string suffix_def)

section \<open>TrimSpace\<close>

text \<open>
  The UTF-8 encodings of the code points for which \<open>unicode.IsSpace\<close> holds: the ASCII spaces,
  U+0085, U+00A0, U+1680, U+2000 to U+200A, U+2028, U+2029, U+202F, U+205F and U+3000.
  No encoding is a proper part of another code point's encoding, so trimming whole encodings
  from either end is trimming code points.
\<close>

definition space_codes :: "string list" where
  "space_codes =
     [[CHR 0x20], [CHR 0x09], [CHR 0x0A], [CHR 0x0B], [CHR 0x0C], [CHR 0x0D],
      [CHR 0xC2, CHR 0x85], [CHR 0xC2, CHR 0xA0], [CHR 0xE1, CHR 0x9A, CHR 0x80]] @
     map (\<lambda>c. [CHR 0xE2, CHR 0x80, c])
       [CHR 0x80, CHR 0x81, CHR 0x82, CHR 0x83, CHR 0x84, CHR 0x85, CHR 0x86, CHR 0x87,
        CHR 0x88, CHR 0x89, CHR 0x8A, CHR 0xA8, CHR 0xA9, CHR 0xAF] @
     [[CHR 0xE2, CHR 0x81, CHR 0x9F], [CHR 0xE3, CHR 0x80, CHR 0x80]]"

function strip_front :: "string list \<Rightarrow> string \<Rightarrow> string" where
  "strip_front cs s =
     (case find (\<lambda>c. c \<noteq> [] \<and> HasPrefix s c) cs of
        None \<Rightarrow> s
      | Some c \<Rightarrow> strip_front cs (drop (length c) s))"
  by pat_completeness auto
termination
proof (relation "measure (\<lambda>(cs, s). length s)", simp)
  fix cs s c
  assume "find (\<lambda>c. c \<noteq> [] \<and> HasPrefix s c) cs = Some c"
  then have "c \<noteq> []" "prefix c s" by (auto simp: find_Some_iff go_string)
  then show "((cs, drop (length c) s), cs, s) \<in> measure (\<lambda>(cs, s). length s)"
    by (auto simp: prefix_def)
qed

declare strip_front.simps [simp del]

definition TrimSpace :: "string \<Rightarrow> string" where
  "TrimSpace s = rev (strip_front (map rev space_codes) (rev (strip_front space_codes s)))"

definition blank :: "string \<Rightarrow> bool" where
  "blank s \<longleftrightarrow> TrimSpace s = []"

lemma strip_front_suffix: "suffix (strip_front cs s) s"
proof (induction cs s rule: strip_front.induct)
  case (1 cs s)
  show ?case
  proof (cases "find (\<lambda>c. c \<noteq> [] \<and> HasPrefix s c) cs")
    case None
    then show ?thesis by (subst strip_front.simps) simp
  next
    case (Some c)
    with 1 have "suffix (strip_front cs (drop (length c) s)) (drop (length c) s)" by simp
    with Some show ?thesis
      by (subst strip_front.simps) (auto intro: suffix_order.trans suffix_drop)
  qed
qed

lemma strip_front_clean: "c \<in> set cs \<Longrightarrow> c \<noteq> [] \<Longrightarrow> \<not> prefix c (strip_front cs s)"
proof (induction cs s rule: strip_front.induct)
  case (1 cs s)
  then show ?case
    by (subst strip_front.simps)
      (auto simp: go_string find_None_iff split: option.splits)
qed

lemma strip_front_fix:
  assumes "\<And>c. c \<in> set cs \<Longrightarrow> c \<noteq> [] \<Longrightarrow> \<not> prefix c s"
  shows "strip_front cs s = s"
proof -
  have "find (\<lambda>c. c \<noteq> [] \<and> HasPrefix s c) cs = None"
    using assms by (auto simp: find_None_iff go_string)
  then show ?thesis by (subst strip_front.simps) simp
qed

lemma space_codes_nonempty: "c \<in> set space_codes \<Longrightarrow> c \<noteq> []"
  by (auto simp: space_codes_def)

lemma TrimSpace_no_space_front:
  assumes "c \<in> set space_codes"
  shows "\<not> prefix c (TrimSpace s)"
proof
  assume p: "prefix c (TrimSpace s)"
  let ?l = "strip_front space_codes s"
  have "suffix (strip_front (map rev space_codes) (rev ?l)) (rev ?l)"
    by (rule strip_front_suffix)
  then have "prefix (TrimSpace s) ?l"
    by (simp add: TrimSpace_def suffix_to_prefix)
  with p have "prefix c ?l" using prefix_order.trans by blast
  with assms show False
    using strip_front_clean space_codes_nonempty by blast
qed

lemma TrimSpace_no_space_back:
  assumes "c \<in> set space_codes"
  shows "\<not> suffix c (TrimSpace s)"
proof -
  have "rev c \<in> set (map rev space_codes)" "rev c \<noteq> []"
    using assms space_codes_nonempty by auto
  then have "\<not> prefix (rev c) (strip_front (map rev space_codes) (rev (strip_front space_codes s)))"
    by (rule strip_front_clean)
  then show ?thesis by (simp add: TrimSpace_def suffix_to_prefix)
qed

lemma TrimSpace_fix:
  assumes "\<And>c. c \<in> set space_codes \<Longrightarrow> \<not> prefix c s"
    and "\<And>c. c \<in> set space_codes \<Longrightarrow> \<not> suffix c s"
  shows "TrimSpace s = s"
proof -
  have "strip_front space_codes s = s"
    using assms(1) by (intro strip_front_fix) auto
  moreover have "strip_front (map rev space_codes) (rev s) = rev s"
    using assms(2) by (intro strip_front_fix) (auto simp: suffix_to_prefix)
  ultimately show ?thesis by (simp add: TrimSpace_def)
qed

lemma TrimSpace_idem [simp]: "TrimSpace (TrimSpace s) = TrimSpace s"
  by (rule TrimSpace_fix) (auto simp: TrimSpace_no_space_front TrimSpace_no_space_back)

lemma TrimSpace_Nil [simp]: "TrimSpace [] = []"
  using space_codes_nonempty by (intro TrimSpace_fix) auto

text \<open>
  A string that starts and ends with a visible ASCII character is left alone; this is also the
  equation concrete strings are evaluated with.
\<close>

fun is_plain :: "char \<Rightarrow> bool" where
  "is_plain (Char b0 b1 b2 b3 b4 b5 b6 b7) =
     (\<not> b7 \<and> (b6 \<or> b5 \<and> (b0 \<or> b1 \<or> b2 \<or> b3 \<or> b4)))"

lemma space_codes_not_plain:
  "c \<in> set space_codes \<Longrightarrow> \<not> is_plain (hd c) \<and> \<not> is_plain (last c)"
  by (auto simp: space_codes_def)

lemma TrimSpace_plain:
  assumes "s \<noteq> []" and "is_plain (hd s)" and "is_plain (last s)"
  shows "TrimSpace s = s"
proof (rule TrimSpace_fix)
  fix c assume c: "c \<in> set space_codes"
  note n = space_codes_nonempty [OF c] space_codes_not_plain [OF c]
  show "\<not> prefix c s"
  proof
    assume "prefix c s"
    with n assms show False by (auto simp: prefix_def)
  qed
  show "\<not> suffix c s"
  proof
    assume "suffix c s"
    with n assms show False by (auto simp: suffix_def)
  qed
qed

lemma TrimSpace_plain_Cons [simp]:
  "is_plain c \<Longrightarrow> is_plain (last (c # s)) \<Longrightarrow> TrimSpace (c # s) = c # s"
  by (rule TrimSpace_plain) simp_all

lemma TrimSpace_code [code]:
  "TrimSpace s =
     (if s \<noteq> [] \<and> is_plain (hd s) \<and> is_plain (last s) then s
      else rev (strip_front (map rev space_codes) (rev (strip_front space_codes s))))"
proof (cases "s \<noteq> [] \<and> is_plain (hd s) \<and> is_plain (last s)")
  case True
  then have "TrimSpace s = s" using TrimSpace_plain [of s] by blast
  then show ?thesis by (simp only: if_P [OF True])
next
  case False
  show ?thesis by (simp only: if_not_P [OF False] TrimSpace_def)
qed

lemma blank_TrimSpace [simp]: "blank (TrimSpace s) = blank s"
  by (simp add: blank_def)

lemma blank_Nil [simp]: "blank []"
  by (simp add: blank_def)

section \<open>Searching, splitting and joining\<close>

definition slash :: string where
  "slash = [CHR 0x2F]"

definition Contains :: "string \<Rightarrow> string \<Rightarrow> bool" where
  "Contains s p \<longleftrightarrow> (\<exists>i \<in> set [0..<Suc (length s)]. HasPrefix (drop i s) p)"

definition ContainsChar :: "string \<Rightarrow> char \<Rightarrow> bool" where
  "ContainsChar s c \<longleftrightarrow> List.member s c"

definition ReplaceBackslash :: "string \<Rightarrow> string" where
  \<comment> \<open>\<open>strings.ReplaceAll(value, "\\", "/")\<close>\<close>
  "ReplaceBackslash s = map (\<lambda>c. if c = CHR 0x5C then CHR 0x2F else c) s"

fun split_on :: "char \<Rightarrow> string \<Rightarrow> string list" where
  "split_on d [] = [[]]"
| "split_on d (c # cs) =
     (if c = d then [] # split_on d cs
      else (case split_on d cs of [] \<Rightarrow> [[c]] | w # ws \<Rightarrow> (c # w) # ws))"

fun join_with :: "string \<Rightarrow> string list \<Rightarrow> string" where
  "join_with sep [] = []"
| "join_with sep [w] = w"
| "join_with sep (w # v # ws) = w @ sep @ join_with sep (v # ws)"

lemma split_on_nonempty [simp]: "split_on d s \<noteq> []"
  by (induction s) (auto split: list.splits)

lemma split_on_no_sep: "d \<notin> set s \<Longrightarrow> split_on d s = [s]"
  by (induction s) auto

lemma split_on_append_sep: "split_on d (s @ d # t) = split_on d s @ split_on d t"
proof (induction s)
  case Nil
  then show ?case by simp
next
  case (Cons c s)
  then show ?case
    by (cases "split_on d s") auto
qed

lemma split_on_words: "w \<in> set (split_on d s) \<Longrightarrow> d \<notin> set w"
proof (induction s arbitrary: w)
  case Nil
  then show ?case by simp
next
  case (Cons c s)
  then show ?case
    by (cases "split_on d s") (auto split: if_splits)
qed

lemma join_with_append:
  "xs \<noteq> [] \<Longrightarrow> ys \<noteq> [] \<Longrightarrow> join_with sep (xs @ ys) = join_with sep xs @ sep @ join_with sep ys"
proof (induction sep xs rule: join_with.induct)
  case (2 sep w)
  then show ?case by (cases ys) auto
qed auto

lemma split_join:
  assumes "ws \<noteq> []" and "\<And>w. w \<in> set ws \<Longrightarrow> d \<notin> set w"
  shows "split_on d (join_with [d] ws) = ws"
  using assms
proof (induction "[d]" ws rule: join_with.induct)
  case (3 w v ws)
  then have "split_on d (w @ d # join_with [d] (v # ws)) = [w] @ v # ws"
    by (simp add: split_on_append_sep split_on_no_sep del: join_with.simps)
  then show ?case by simp
qed (auto simp: split_on_no_sep)

lemma join_split: "join_with [d] (split_on d s) = s"
proof (induction s)
  case Nil
  then show ?case by simp
next
  case (Cons c s)
  obtain w ws where "split_on d s = w # ws"
    by (cases "split_on d s") auto
  with Cons show ?case by (cases ws) auto
qed

text \<open>
  On joined component lists, "equal, or a prefix followed by a separator" is the prefix order of
  the component lists.  This is what makes a textual test on paths a test on directories.
\<close>

lemma join_prefix_iff:
  assumes "xs \<noteq> []" "ys \<noteq> []"
    and "\<And>w. w \<in> set xs \<Longrightarrow> d \<notin> set w" and "\<And>w. w \<in> set ys \<Longrightarrow> d \<notin> set w"
  shows "join_with [d] xs = join_with [d] ys \<or> prefix (join_with [d] xs @ [d]) (join_with [d] ys)
    \<longleftrightarrow> prefix xs ys"
proof
  assume "join_with [d] xs = join_with [d] ys \<or> prefix (join_with [d] xs @ [d]) (join_with [d] ys)"
  then show "prefix xs ys"
  proof
    assume "join_with [d] xs = join_with [d] ys"
    then have "split_on d (join_with [d] xs) = split_on d (join_with [d] ys)" by simp
    then show ?thesis using assms by (simp add: split_join)
  next
    assume "prefix (join_with [d] xs @ [d]) (join_with [d] ys)"
    then obtain r where "join_with [d] ys = join_with [d] xs @ d # r" by (auto simp: prefix_def)
    then have "ys = split_on d (join_with [d] xs @ d # r)" using assms by (metis split_join)
    then have "ys = xs @ split_on d r" using assms by (simp add: split_on_append_sep split_join)
    then show ?thesis by (simp add: prefix_def)
  qed
next
  assume "prefix xs ys"
  then obtain zs where zs: "ys = xs @ zs" by (auto simp: prefix_def)
  show "join_with [d] xs = join_with [d] ys \<or> prefix (join_with [d] xs @ [d]) (join_with [d] ys)"
  proof (cases "zs = []")
    case False
    with zs assms(1) show ?thesis by (simp add: join_with_append)
  qed (simp add: zs)
qed

section \<open>path.Clean\<close>

text \<open>
  The path is cleaned component by component; the components kept so far are a stack.  A \<open>..\<close>
  removes the last kept component, is kept itself where there is none to remove, and is dropped
  at the root of a rooted path.
\<close>

fun clean_step :: "bool \<Rightarrow> string list \<Rightarrow> string \<Rightarrow> string list" where
  "clean_step rooted st c =
     (if c = [] \<or> c = ''.'' then st
      else if c = ''..'' then
        (case st of
           [] \<Rightarrow> if rooted then [] else [''..'']
         | x # xs \<Rightarrow> if x = ''..'' then ''..'' # st else xs)
      else c # st)"

definition path_Clean :: "string \<Rightarrow> string" where
  "path_Clean p =
     (let rooted = HasPrefix p slash;
          out = join_with slash (rev (foldl (clean_step rooted) [] (split_on CHR 0x2F p)))
      in if rooted then slash @ out else if out = [] then ''.'' else out)"

definition components :: "string \<Rightarrow> string list" where
  "components p = split_on CHR 0x2F p"

text \<open>A path of a repository: relative, with no empty, \<open>.\<close> or \<open>..\<close> component.\<close>

definition repo_path :: "string \<Rightarrow> bool" where
  "repo_path p \<longleftrightarrow> (\<forall>c \<in> set (components p). c \<noteq> [] \<and> c \<noteq> ''.'' \<and> c \<noteq> ''..'')"

text \<open>The stack is names on top of \<open>..\<close> components.\<close>

definition clean_stack :: "string list \<Rightarrow> bool" where
  "clean_stack st \<longleftrightarrow> (\<exists>ns k. st = ns @ replicate k ''..'' \<and>
     (\<forall>c \<in> set ns. c \<noteq> [] \<and> c \<noteq> ''.'' \<and> c \<noteq> ''..'' \<and> CHR 0x2F \<notin> set c))"

lemma clean_step_stack:
  assumes "clean_stack st" and "CHR 0x2F \<notin> set c"
  shows "clean_stack (clean_step False st c)"
proof -
  from assms(1) obtain ns k where st: "st = ns @ replicate k ''..''"
    and ns: "\<forall>c \<in> set ns. c \<noteq> [] \<and> c \<noteq> ''.'' \<and> c \<noteq> ''..'' \<and> CHR 0x2F \<notin> set c"
    by (auto simp: clean_stack_def)
  consider "c = [] \<or> c = ''.''" | "c = ''..''" | "c \<noteq> []" "c \<noteq> ''.''" "c \<noteq> ''..''" by blast
  then show ?thesis
  proof cases
    case 1
    then show ?thesis using assms(1) by auto
  next
    case 2
    show ?thesis
    proof (cases ns)
      case Nil
      with 2 st have "clean_step False st c = [] @ replicate (Suc k) ''..''"
        by (cases k) auto
      then show ?thesis by (metis clean_stack_def empty_iff empty_set)
    next
      case (Cons n ns')
      with ns have "n \<noteq> ''..''" by auto
      with 2 st Cons have "clean_step False st c = ns' @ replicate k ''..''" by auto
      with ns Cons show ?thesis by (auto simp: clean_stack_def)
    qed
  next
    case 3
    with st have "clean_step False st c = (c # ns) @ replicate k ''..''" by auto
    moreover have "\<forall>x \<in> set (c # ns). x \<noteq> [] \<and> x \<noteq> ''.'' \<and> x \<noteq> ''..'' \<and> CHR 0x2F \<notin> set x"
      using 3 ns assms(2) by auto
    ultimately show ?thesis unfolding clean_stack_def by blast
  qed
qed

lemma clean_fold_stack:
  "clean_stack st \<Longrightarrow> \<forall>c \<in> set cs. CHR 0x2F \<notin> set c \<Longrightarrow> clean_stack (foldl (clean_step False) st cs)"
  by (induction cs arbitrary: st) (auto simp: clean_step_stack simp del: clean_step.simps)

text \<open>
  A relative path whose cleaned form is neither \<open>.\<close> nor \<open>..\<close> nor below \<open>..\<close> stays inside the
  directory it is relative to.
\<close>

lemma path_Clean_repo_path:
  assumes "\<not> HasPrefix p slash" and "path_Clean p \<noteq> ''.''" and "path_Clean p \<noteq> ''..''"
    and "\<not> HasPrefix (path_Clean p) ''../''"
  shows "repo_path (path_Clean p)"
proof -
  define st where "st = foldl (clean_step False) [] (split_on CHR 0x2F p)"
  have "clean_stack []" by (simp add: clean_stack_def)
  then have "clean_stack st"
    unfolding st_def using split_on_words by (intro clean_fold_stack) blast+
  then obtain ns k where st: "st = ns @ replicate k ''..''"
    and ns: "\<forall>c \<in> set ns. c \<noteq> [] \<and> c \<noteq> ''.'' \<and> c \<noteq> ''..'' \<and> CHR 0x2F \<notin> set c"
    by (auto simp: clean_stack_def)
  have clean: "path_Clean p = (if join_with slash (rev st) = [] then ''.'' else join_with slash (rev st))"
    using assms(1) by (simp add: path_Clean_def st_def Let_def)
  with assms(2) have out: "path_Clean p = join_with slash (rev st)" "join_with slash (rev st) \<noteq> []"
    by (auto split: if_splits)
  then have "st \<noteq> []" by auto
  have rest: "rev st = replicate k ''..'' @ rev ns" using st by simp
  have "k = 0"
  proof (rule ccontr)
    assume "k \<noteq> 0"
    then obtain j where "k = Suc j" using not0_implies_Suc by blast
    then have r: "rev st = ''..'' # (replicate j ''..'' @ rev ns)" using rest by simp
    show False
    proof (cases "replicate j ''..'' @ rev ns")
      case Nil
      with r out(1) assms(3) show False by simp
    next
      case (Cons v vs)
      with r out(1) have "path_Clean p = ''../'' @ join_with slash (v # vs)"
        by (simp add: slash_def)
      with assms(4) show False by (simp add: HasPrefix_def)
    qed
  qed
  with rest have "rev st = rev ns" by simp
  moreover from this \<open>st \<noteq> []\<close> have "rev ns \<noteq> []" by (metis rev_is_Nil_conv)
  ultimately have "components (path_Clean p) = rev ns"
    using ns out(1) split_join [of "rev ns" "CHR 0x2F"] by (simp add: components_def slash_def)
  with ns show ?thesis by (simp add: repo_path_def)
qed

lemma repo_path_components:
  assumes "repo_path p"
  shows "components p \<noteq> []" "\<And>w. w \<in> set (components p) \<Longrightarrow> CHR 0x2F \<notin> set w"
    "join_with slash (components p) = p"
  using split_on_words by (auto simp: components_def slash_def join_split)

lemma components_prefix_iff:
  "a = b \<or> HasPrefix b (a @ slash) \<longleftrightarrow> prefix (components a) (components b)"
  using join_prefix_iff [of "components a" "components b" "CHR 0x2F"] split_on_words
  by (simp add: components_def go_string slash_def join_split)

end
