(* ===== verification/RepoPath.thy ===== *)
theory RepoPath
  imports GoStrings
begin

text \<open>
  The interface of a path normaliser.  The scheduler and the repository protocol each have one
  (\<open>normalizeOwnership\<close>, \<open>normalizeRepositoryPath\<close>); both promise that what they accept is a
  path inside the repository, and every client compares normalised paths as texts.
\<close>

definition covers :: "string \<Rightarrow> string \<Rightarrow> bool" where
  \<comment> \<open>the directory (or file) \<open>a\<close> holds \<open>b\<close>\<close>
  "covers a b \<longleftrightarrow> prefix (components a) (components b)"

text \<open>The repository files at or below a path, as component lists.\<close>

definition subtree :: "string \<Rightarrow> string list set" where
  "subtree a = {f. prefix (components a) f}"

lemma covers_text: "a = b \<or> HasPrefix b (a @ slash) \<longleftrightarrow> covers a b"
  by (simp add: covers_def components_prefix_iff)

lemma covers_refl [simp]: "covers a a"
  by (simp add: covers_def)

lemma covers_trans: "covers a b \<Longrightarrow> covers b c \<Longrightarrow> covers a c"
  unfolding covers_def by (rule prefix_order.trans)

lemma subtree_disjoint_iff:
  "subtree a \<inter> subtree b = {} \<longleftrightarrow> \<not> covers a b \<and> \<not> covers b a"
proof
  assume "subtree a \<inter> subtree b = {}"
  then show "\<not> covers a b \<and> \<not> covers b a"
    by (auto simp: subtree_def covers_def)
next
  assume "\<not> covers a b \<and> \<not> covers b a"
  then show "subtree a \<inter> subtree b = {}"
    using prefix_same_cases by (auto simp: subtree_def covers_def)
qed

lemma repo_path_component:
  assumes "repo_path p" and "c \<in> set (components p)"
  shows "c \<noteq> [] \<and> c \<noteq> ''.'' \<and> c \<noteq> ''..''"
  using assms unfolding repo_path_def by (rule bspec)

lemma repo_path_nonempty: "repo_path p \<Longrightarrow> p \<noteq> []"
  by (cases p) (simp_all add: repo_path_def components_def)

lemma repo_path_relative:
  assumes "repo_path p"
  shows "\<not> HasPrefix p slash"
proof
  assume "HasPrefix p slash"
  then obtain r where "p = CHR 0x2F # r" by (auto simp: HasPrefix_prefix slash_def prefix_def)
  then have "[] \<in> set (components p)" by (simp add: components_def)
  with repo_path_component [OF assms] show False by blast
qed

text \<open>The last checks both normalisers make, on a value that is already trimmed.\<close>

definition escapes :: "string \<Rightarrow> bool" where
  "escapes c \<longleftrightarrow> c = ''.'' \<or> c = ''..'' \<or> HasPrefix c ''../''"

lemma escapes_Clean: "\<not> HasPrefix v slash \<Longrightarrow> \<not> escapes (path_Clean v) \<Longrightarrow> repo_path (path_Clean v)"
  using path_Clean_repo_path unfolding escapes_def by blast

locale path_normaliser =
  fixes norm :: "string \<Rightarrow> 'e + string"
  assumes norm_repo: "norm s = Inr p \<Longrightarrow> repo_path p"
begin

lemma norm_inside:
  assumes "norm s = Inr p"
  shows "p \<noteq> [] \<and> \<not> HasPrefix p slash \<and> ''..'' \<notin> set (components p)"
proof -
  have r: "repo_path p" using assms by (rule norm_repo)
  have "''..'' \<notin> set (components p)"
  proof
    assume "''..'' \<in> set (components p)"
    from repo_path_component [OF r this] show False by simp
  qed
  with repo_path_nonempty [OF r] repo_path_relative [OF r] show ?thesis by simp
qed

text \<open>Two accepted paths clash as texts exactly when they share a file.\<close>

lemma norm_clash:
  assumes "norm s = Inr a" and "norm t = Inr b"
  shows "a = b \<or> HasPrefix a (b @ slash) \<or> HasPrefix b (a @ slash)
    \<longleftrightarrow> subtree a \<inter> subtree b \<noteq> {}"
  unfolding subtree_disjoint_iff covers_text [symmetric] by argo

end

end
