(* ===== verification/GoFloat.thy ===== *)
theory GoFloat
  imports GoPrelude
begin

text \<open>
  Go's \<open>float64\<close>: IEEE 754 binary64 with round to nearest, ties to even, for the operations
  the control plane performs on costs and CPU shares (the four arithmetic operations,
  comparison and the conversions from and to integers).

  A finite number is an integer mantissa and an exponent, for \<open>v * 2^e\<close>.  The two zeros are one
  value here: no modelled operation tells them apart.  Comparisons are numeric, as Go's are.
\<close>

datatype f64 = FNaN | FInf bool | FNum int int

text \<open>The number of binary digits, and \<open>m / 2^k\<close> rounded to nearest, ties to even.\<close>

function bit_len :: "int \<Rightarrow> int" where
  "bit_len n = (if n \<le> 0 then 0 else 1 + bit_len (n div 2))"
  by pat_completeness auto
termination
  by (relation "measure nat") auto

declare bit_len.simps [simp del]

definition round_even :: "int \<Rightarrow> nat \<Rightarrow> int" where
  "round_even m k =
     (let q = m div 2 ^ k; r = m mod 2 ^ k in
      if 2 * r < 2 ^ k then q
      else if 2 * r > 2 ^ k then q + 1
      else if even q then q else q + 1)"

definition f64_pack :: "int \<Rightarrow> int \<Rightarrow> f64" where
  "f64_pack v e =
     (if v = 0 then FNum 0 0
      else if bit_len \<bar>v\<bar> + e > 1024 then FInf (v < 0)
      else FNum v e)"

text \<open>
  The float nearest to \<open>v * 2^e\<close>: 53 bits of mantissa, exponents from -1074.  \<^const>\<open>FInf\<close>
  carries the sign of the infinity, \<^const>\<open>True\<close> for the negative one.
\<close>

definition f64_round :: "int \<Rightarrow> int \<Rightarrow> f64" where
  "f64_round v e =
     (let t = max (e + bit_len \<bar>v\<bar> - 53) (-1074) in
      if t \<le> e then f64_pack v e
      else f64_pack (sgn v * round_even \<bar>v\<bar> (nat (t - e))) t)"

definition f64_zero :: f64 where
  "f64_zero = FNum 0 0"

definition f64_of_int :: "int \<Rightarrow> f64" where
  "f64_of_int i = f64_round i 0"

fun f64_neg :: "f64 \<Rightarrow> f64" where
  "f64_neg FNaN = FNaN"
| "f64_neg (FInf s) = FInf (\<not> s)"
| "f64_neg (FNum v e) = FNum (- v) e"

fun f64_add :: "f64 \<Rightarrow> f64 \<Rightarrow> f64" where
  "f64_add FNaN y = FNaN"
| "f64_add x FNaN = FNaN"
| "f64_add (FInf s) (FInf t) = (if s = t then FInf s else FNaN)"
| "f64_add (FInf s) y = FInf s"
| "f64_add x (FInf t) = FInf t"
| "f64_add (FNum v e) (FNum w f) =
     (if v = 0 then FNum w f
      else if w = 0 then FNum v e
      else (let k = min e f in f64_round (v * 2 ^ nat (e - k) + w * 2 ^ nat (f - k)) k))"

definition f64_sub :: "f64 \<Rightarrow> f64 \<Rightarrow> f64" where
  "f64_sub x y = f64_add x (f64_neg y)"

text \<open>
  The quotient of two numbers: the integer quotient with at least 55 significant bits, and a last
  bit that tells whether the division was inexact, which the rounding then needs.
\<close>

definition f64_quot :: "int \<Rightarrow> int \<Rightarrow> int \<Rightarrow> int \<Rightarrow> f64" where
  "f64_quot v e w f =
     (let s = max 0 (56 + bit_len \<bar>w\<bar> - bit_len \<bar>v\<bar>); n = \<bar>v\<bar> * 2 ^ nat s;
          q = n div \<bar>w\<bar>; sticky = (if n mod \<bar>w\<bar> = 0 then 0 else 1)
      in f64_round (sgn v * sgn w * (2 * q + sticky)) (e - f - s - 1))"

fun f64_div :: "f64 \<Rightarrow> f64 \<Rightarrow> f64" where
  "f64_div FNaN y = FNaN"
| "f64_div x FNaN = FNaN"
| "f64_div (FInf s) (FInf t) = FNaN"
| "f64_div (FInf s) (FNum w f) = FInf (if w < 0 then \<not> s else s)"
| "f64_div (FNum v e) (FInf t) = FNum 0 0"
| "f64_div (FNum v e) (FNum w f) =
     (if w = 0 then (if v = 0 then FNaN else FInf (v < 0)) else f64_quot v e w f)"

text \<open>The product.  It is rounded before it is added to anything: no fused operation, as on amd64.\<close>

fun f64_mul :: "f64 \<Rightarrow> f64 \<Rightarrow> f64" where
  "f64_mul FNaN y = FNaN"
| "f64_mul x FNaN = FNaN"
| "f64_mul (FInf s) (FInf t) = FInf (s \<noteq> t)"
| "f64_mul (FInf s) (FNum w f) = (if w = 0 then FNaN else FInf (if w < 0 then \<not> s else s))"
| "f64_mul (FNum v e) (FInf t) = (if v = 0 then FNaN else FInf (if v < 0 then \<not> t else t))"
| "f64_mul (FNum v e) (FNum w f) = f64_round (v * w) (e + f)"

text \<open>\<open>x < y\<close> and \<open>x == y\<close>; both are false where an operand is NaN.\<close>

fun f64_less :: "f64 \<Rightarrow> f64 \<Rightarrow> bool" where
  "f64_less FNaN y = False"
| "f64_less x FNaN = False"
| "f64_less (FInf s) (FInf t) = (s \<and> \<not> t)"
| "f64_less (FInf s) (FNum w f) = s"
| "f64_less (FNum v e) (FInf t) = (\<not> t)"
| "f64_less (FNum v e) (FNum w f) =
     (let k = min e f in v * 2 ^ nat (e - k) < w * 2 ^ nat (f - k))"

fun f64_eq :: "f64 \<Rightarrow> f64 \<Rightarrow> bool" where
  "f64_eq FNaN y = False"
| "f64_eq x FNaN = False"
| "f64_eq (FInf s) (FInf t) = (s = t)"
| "f64_eq (FInf s) (FNum w f) = False"
| "f64_eq (FNum v e) (FInf t) = False"
| "f64_eq (FNum v e) (FNum w f) =
     (let k = min e f in v * 2 ^ nat (e - k) = w * 2 ^ nat (f - k))"

definition f64_le :: "f64 \<Rightarrow> f64 \<Rightarrow> bool" where
  "f64_le x y \<longleftrightarrow> f64_less x y \<or> f64_eq x y"

text \<open>
  Conversion to \<open>int\<close> drops the fraction.  Go leaves a NaN, an infinity or a value that does not
  fit to the implementation; the result here is the one of amd64, the least integer.
\<close>

fun f64_trunc :: "f64 \<Rightarrow> int" where
  "f64_trunc FNaN = - (2 ^ 63)"
| "f64_trunc (FInf s) = - (2 ^ 63)"
| "f64_trunc (FNum v e) =
     (let w = (if 0 \<le> e then v * 2 ^ nat e else sgn v * (\<bar>v\<bar> div 2 ^ nat (- e)))
      in if is_i64 w then w else - (2 ^ 63))"

section \<open>Facts\<close>

lemma f64_less_irrefl [simp]: "\<not> f64_less x x"
  by (cases x) auto

lemma f64_less_asym: "f64_less x y \<Longrightarrow> \<not> f64_less y x"
  by (cases x; cases y) (auto simp: Let_def min.commute)

lemma f64_eq_sym: "f64_eq x y \<Longrightarrow> f64_eq y x"
  by (cases x; cases y) (auto simp: Let_def min.commute)

lemma f64_eq_not_less: "f64_eq x y \<Longrightarrow> \<not> f64_less x y"
  by (cases x; cases y) (auto simp: Let_def)

text \<open>For numbers the order is total: \<open>x > y\<close> is the negation of \<open>x <= y\<close>; for NaN it is not.\<close>

lemma f64_not_less:
  "x \<noteq> FNaN \<Longrightarrow> y \<noteq> FNaN \<Longrightarrow> \<not> f64_less y x \<longleftrightarrow> f64_le x y"
  by (cases x; cases y) (auto simp: f64_le_def Let_def min.commute)

lemma f64_zero_add: "f64_add f64_zero x = x"
  by (cases x) (auto simp: f64_zero_def)

lemma bit_len_le: "n < 2 ^ k \<Longrightarrow> bit_len n \<le> int k"
proof (induction n arbitrary: k rule: bit_len.induct)
  case (1 n)
  show ?case
  proof (cases "n \<le> 0")
    case True
    then show ?thesis by (simp add: bit_len.simps)
  next
    case False
    with "1.prems" obtain j where k: "k = Suc j" by (cases k) auto
    with "1.prems" have "n div 2 < 2 ^ j" by auto
    with "1.IH" False have "bit_len (n div 2) \<le> int j" by auto
    with False k show ?thesis by (simp add: bit_len.simps [of n])
  qed
qed

text \<open>Integers below \<open>2^53\<close> are floats, and sums of them are exact.\<close>

lemma f64_of_int_small:
  assumes "\<bar>i\<bar> < 2 ^ 53"
  shows "f64_of_int i = FNum i 0"
proof -
  have "bit_len \<bar>i\<bar> \<le> 53" using bit_len_le [OF assms] by simp
  then show ?thesis
    by (auto simp: f64_of_int_def f64_round_def f64_pack_def Let_def)
qed

lemma f64_of_int_less:
  assumes "\<bar>i\<bar> < 2 ^ 53" "\<bar>j\<bar> < 2 ^ 53"
  shows "f64_less (f64_of_int i) (f64_of_int j) \<longleftrightarrow> i < j"
  by (simp only: f64_of_int_small [OF assms(1)] f64_of_int_small [OF assms(2)]) simp

lemma f64_of_int_0 [simp]: "f64_of_int 0 = f64_zero"
  by (simp add: f64_of_int_small f64_zero_def)

lemma f64_of_int_add:
  assumes "\<bar>i\<bar> < 2 ^ 53" "\<bar>j\<bar> < 2 ^ 53" "\<bar>i + j\<bar> < 2 ^ 53"
  shows "f64_add (f64_of_int i) (f64_of_int j) = f64_of_int (i + j)"
proof -
  have "f64_round (i + j) 0 = FNum (i + j) 0"
    using f64_of_int_small [OF assms(3)] by (simp only: f64_of_int_def)
  then show ?thesis
    by (simp only: f64_of_int_small [OF assms(1)] f64_of_int_small [OF assms(2)]
        f64_of_int_small [OF assms(3)]) simp
qed

end
