(* ===== verification/Scheduler.thy ===== *)
theory Scheduler
  imports RepoPath GoFloat "HOL-Library.AList"
begin

text \<open>
  The scheduler (\<open>packages/scheduler/scheduler.go\<close>): validation of a manifest of tasks with
  dependencies, resources and owned paths, the next scheduling decision for a state, and the
  plan of waves.  A Go map from names to statuses is a partial function; the map of skipped tasks
  is the association list of its entries.
\<close>

section \<open>Data\<close>

datatype Status = StatusPending | StatusRunning | StatusSuccess | StatusFailed | StatusSkipped
  | StatusOther string

record Resources =
  r_CPU :: f64
  r_MemoryMB :: int

record Capacity =
  cap_CPU :: f64
  cap_MemoryMB :: int

record Task =
  t_ID :: string
  t_Owns :: "string list"
  t_DependsOn :: "string list"
  t_Resources :: Resources

record Manifest =
  m_MaxParallel :: int
  m_Capacity :: Capacity
  m_Tasks :: "Task list"

type_synonym State = "string \<rightharpoonup> Status"

record Decision =
  d_Ready :: "string list"
  d_Skipped :: "(string \<times> string) list"

text \<open>
  The messages of the package; \<open>VisitDiverges\<close> stands for a cycle search that does not return
  (proved below never to be the case).
\<close>

datatype sched_error =
    MaxParallelNotPositive
  | CapacityCPUNotPositive
  | CapacityMemoryNotPositive
  | NoTasks
  | TaskIDRequired nat
  | DuplicateTaskID string
  | TaskResourcesNotPositive string
  | TaskExceedsCapacity string
  | TaskNoOwnership string
  | TaskOwnership string sched_error
  | CycleAt string
  | UnknownDependency string string
  | OwnershipNotRelative
  | OwnershipEscapes
  | Deadlocked
  | VisitDiverges

section \<open>Ownership\<close>

definition normalizeOwnership :: "string \<Rightarrow> sched_error + string" where
  "normalizeOwnership value0 =
     (let v1 = TrimSpace (ReplaceBackslash value0);
          v2 = TrimPrefix v1 ''./'';
          v3 = TrimSuffix v2 ''/**'';
          v4 = TrimSuffix v3 ''/*'';
          v5 = TrimSuffix v4 ''/''
      in if v5 = [] \<or> HasPrefix v5 ''/'' then Inl OwnershipNotRelative
         else (let cleaned = path_Clean v5 in
           if cleaned = ''.'' \<or> cleaned = ''..'' \<or> HasPrefix cleaned ''../'' then Inl OwnershipEscapes
           else Inr cleaned))"

fun conflictsRight :: "string \<Rightarrow> string list \<Rightarrow> bool" where
  "conflictsRight a [] = False"
| "conflictsRight a (rawRight # right) =
     (case normalizeOwnership rawRight of
        Inl _ \<Rightarrow> True
      | Inr b \<Rightarrow>
        if a = b \<or> HasPrefix a (b @ ''/'') \<or> HasPrefix b (a @ ''/'') then True
        else conflictsRight a right)"

fun OwnershipConflict :: "string list \<Rightarrow> string list \<Rightarrow> bool" where
  "OwnershipConflict [] right = False"
| "OwnershipConflict (rawLeft # left) right =
     (case normalizeOwnership rawLeft of
        Inl _ \<Rightarrow> True
      | Inr a \<Rightarrow> if conflictsRight a right then True else OwnershipConflict left right)"

section \<open>Validation\<close>

definition validateOwnership :: "string \<Rightarrow> string list \<Rightarrow> sched_error option" where
  "validateOwnership tid owns =
     first_err (\<lambda>ownership. case normalizeOwnership ownership of
         Inl e \<Rightarrow> Some (TaskOwnership tid e) | Inr _ \<Rightarrow> None) owns"

text \<open>One round of the loop that checks the tasks and files them under their trimmed names.\<close>

definition registerTask ::
    "Capacity \<Rightarrow> (string \<rightharpoonup> Task) \<Rightarrow> nat \<times> Task \<Rightarrow> sched_error + (string \<rightharpoonup> Task)" where
  "registerTask cap tasks it =
     (let i = fst it; tid = TrimSpace (t_ID (snd it)); task = (snd it)\<lparr>t_ID := tid\<rparr>;
          res = t_Resources task in
      if tid = [] then Inl (TaskIDRequired i)
      else if tasks tid \<noteq> None then Inl (DuplicateTaskID tid)
      else if f64_le (r_CPU res) f64_zero \<or> r_MemoryMB res \<le> 0 then Inl (TaskResourcesNotPositive tid)
      else if f64_less (cap_CPU cap) (r_CPU res) \<or> cap_MemoryMB cap < r_MemoryMB res
      then Inl (TaskExceedsCapacity tid)
      else if t_Owns task = [] then Inl (TaskNoOwnership tid)
      else (case validateOwnership tid (t_Owns task) of
          Some e \<Rightarrow> Inl e
        | None \<Rightarrow> Inr (tasks(tid \<mapsto> task))))"

definition validateDependencies :: "(string \<rightharpoonup> Task) \<Rightarrow> Task \<Rightarrow> sched_error option" where
  "validateDependencies tasks task =
     first_err (\<lambda>dependency.
       if dependency = t_ID task then Some (CycleAt (t_ID task))
       else if tasks dependency = None then Some (UnknownDependency (t_ID task) dependency)
       else None) (t_DependsOn task)"

definition depsOf :: "(string \<rightharpoonup> Task) \<Rightarrow> string \<Rightarrow> string list" where
  \<comment> \<open>\<open>tasks[id].DependsOn\<close>; a missing key reads as the zero task\<close>
  "depsOf tasks tid = (case tasks tid of None \<Rightarrow> [] | Some t \<Rightarrow> t_DependsOn t)"

text \<open>
  The recursive closure \<open>visit\<close> over the two maps \<open>visiting\<close> and \<open>visited\<close>, with the depth of
  recursion as fuel; \<open>None\<close> is running out of it.
\<close>

type_synonym marks = "(string \<Rightarrow> bool) \<times> (string \<Rightarrow> bool)"

function (sequential) visit ::
    "nat \<Rightarrow> (string \<rightharpoonup> Task) \<Rightarrow> string \<Rightarrow> marks \<Rightarrow> (sched_error + marks) option"
  and visitAll ::
    "nat \<Rightarrow> (string \<rightharpoonup> Task) \<Rightarrow> string list \<Rightarrow> marks \<Rightarrow> (sched_error + marks) option" where
  "visit 0 tasks tid m = None"
| "visit (Suc n) tasks tid (visiting, visited) =
     (if visited tid then Some (Inr (visiting, visited))
      else if visiting tid then Some (Inl (CycleAt tid))
      else (case visitAll n tasks (depsOf tasks tid) (visiting(tid := True), visited) of
          None \<Rightarrow> None
        | Some (Inl e) \<Rightarrow> Some (Inl e)
        | Some (Inr (visiting', visited')) \<Rightarrow>
            Some (Inr (visiting'(tid := False), visited'(tid := True)))))"
| "visitAll n tasks [] m = Some (Inr m)"
| "visitAll n tasks (d # ds) m =
     (case visit n tasks d m of
        None \<Rightarrow> None
      | Some (Inl e) \<Rightarrow> Some (Inl e)
      | Some (Inr m') \<Rightarrow> visitAll n tasks ds m')"
  by pat_completeness auto
termination
  by (relation "measures [case_sum (\<lambda>(n, _). n) (\<lambda>(n, _). n),
      case_sum (\<lambda>_. 0) (\<lambda>(_, _, ds, _). Suc (length ds))]") auto

definition visitFuel :: "Task list \<Rightarrow> nat" where
  "visitFuel tasks = Suc (Suc (length tasks))"

definition Validate :: "Manifest \<Rightarrow> sched_error option" where
  "Validate manifest =
     err_then (err_if (m_MaxParallel manifest \<le> 0) MaxParallelNotPositive)
     (err_then (err_if (f64_le (cap_CPU (m_Capacity manifest)) f64_zero) CapacityCPUNotPositive)
     (err_then (err_if (cap_MemoryMB (m_Capacity manifest) \<le> 0) CapacityMemoryNotPositive)
     (err_then (err_if (m_Tasks manifest = []) NoTasks)
       (case fold_res (registerTask (m_Capacity manifest)) (List.enumerate 0 (m_Tasks manifest)) Map.empty of
          Inl e \<Rightarrow> Some e
        | Inr tasks \<Rightarrow>
          err_then (first_err (validateDependencies tasks) (m_Tasks manifest))
            (case visitAll (visitFuel (m_Tasks manifest)) tasks (map t_ID (m_Tasks manifest))
                (\<lambda>_. False, \<lambda>_. False) of
               None \<Rightarrow> Some VisitDiverges
             | Some (Inl e) \<Rightarrow> Some e
             | Some (Inr _) \<Rightarrow> None)))))"

section \<open>The next decision\<close>

definition statusOf :: "State \<Rightarrow> string \<Rightarrow> Status" where
  "statusOf state tid =
     (case state tid of
        Some status \<Rightarrow> if status = StatusOther [] then StatusPending else status
      | None \<Rightarrow> StatusPending)"

definition dependencyFailed :: "Task \<Rightarrow> State \<Rightarrow> bool" where
  "dependencyFailed task state \<longleftrightarrow>
     (\<exists>dependency \<in> set (t_DependsOn task).
        statusOf state dependency = StatusFailed \<or> statusOf state dependency = StatusSkipped)"

definition dependenciesSucceeded :: "Task \<Rightarrow> State \<Rightarrow> bool" where
  "dependenciesSucceeded task state \<longleftrightarrow>
     (\<forall>dependency \<in> set (t_DependsOn task). statusOf state dependency = StatusSuccess)"

definition conflictsAny :: "Task \<Rightarrow> Task list \<Rightarrow> bool" where
  "conflictsAny task others \<longleftrightarrow> (\<exists>other \<in> set others. OwnershipConflict (t_Owns task) (t_Owns other))"

text \<open>The tasks the state calls running, and the resources they use.\<close>

definition runningTasks :: "State \<Rightarrow> Task list \<Rightarrow> Task list" where
  "runningTasks state tasks = filter (\<lambda>t. state (t_ID t) = Some StatusRunning) tasks"

definition addUsed :: "Resources \<Rightarrow> Task \<Rightarrow> Resources" where
  "addUsed used task =
     \<lparr>r_CPU = f64_add (r_CPU used) (r_CPU (t_Resources task)),
      r_MemoryMB = i64 (r_MemoryMB used + r_MemoryMB (t_Resources task))\<rparr>"

definition noResources :: Resources where
  "noResources = \<lparr>r_CPU = f64_zero, r_MemoryMB = 0\<rparr>"

fun skipLoop :: "State \<Rightarrow> Task list \<Rightarrow> (string \<times> string) list \<Rightarrow> (string \<times> string) list" where
  "skipLoop state [] skipped = skipped"
| "skipLoop state (task # tasks) skipped =
     (if statusOf state (t_ID task) \<noteq> StatusPending then skipLoop state tasks skipped
      else if dependencyFailed task state
      then skipLoop state tasks (AList.update (t_ID task) ''dependency-failed'' skipped)
      else skipLoop state tasks skipped)"

record Selection =
  s_Ready :: "string list"
  s_Selected :: "Task list"
  s_Used :: Resources

definition exceeds :: "Capacity \<Rightarrow> Resources \<Rightarrow> bool" where
  "exceeds cap used \<longleftrightarrow> f64_less (cap_CPU cap) (r_CPU used) \<or> cap_MemoryMB cap < r_MemoryMB used"

fun selectLoop ::
    "Manifest \<Rightarrow> State \<Rightarrow> (string \<times> string) list \<Rightarrow> int \<Rightarrow> Task list \<Rightarrow> Selection \<Rightarrow> Selection" where
  "selectLoop manifest state skipped runningCount [] s = s"
| "selectLoop manifest state skipped runningCount (task # tasks) s =
     (if statusOf state (t_ID task) \<noteq> StatusPending
      then selectLoop manifest state skipped runningCount tasks s
      else if map_of skipped (t_ID task) \<noteq> None
      then selectLoop manifest state skipped runningCount tasks s
      else if \<not> dependenciesSucceeded task state
      then selectLoop manifest state skipped runningCount tasks s
      else if m_MaxParallel manifest \<le> runningCount + int (length (s_Ready s)) then s
      else if exceeds (m_Capacity manifest) (addUsed (s_Used s) task)
      then selectLoop manifest state skipped runningCount tasks s
      else if conflictsAny task (s_Selected s)
      then selectLoop manifest state skipped runningCount tasks s
      else selectLoop manifest state skipped runningCount tasks
        \<lparr>s_Ready = s_Ready s @ [t_ID task], s_Selected = s_Selected s @ [task],
         s_Used = addUsed (s_Used s) task\<rparr>)"

definition decide :: "Manifest \<Rightarrow> State \<Rightarrow> Decision" where
  "decide manifest state =
     (let running = runningTasks state (m_Tasks manifest);
          used = foldl addUsed noResources running;
          skipped = skipLoop state (m_Tasks manifest) [];
          s = selectLoop manifest state skipped (int (length running)) (m_Tasks manifest)
                \<lparr>s_Ready = [], s_Selected = running, s_Used = used\<rparr>
      in \<lparr>d_Ready = s_Ready s, d_Skipped = skipped\<rparr>)"

definition Next :: "Manifest \<Rightarrow> State \<Rightarrow> sched_error + Decision" where
  "Next manifest state =
     (case Validate manifest of Some e \<Rightarrow> Inl e | None \<Rightarrow> Inr (decide manifest state))"

section \<open>Plans\<close>

definition setAll :: "Status \<Rightarrow> State \<Rightarrow> string list \<Rightarrow> State" where
  "setAll status state ids = foldl (\<lambda>st tid. st(tid \<mapsto> status)) state ids"

function planLoop :: "Manifest \<Rightarrow> State \<Rightarrow> int \<Rightarrow> string list list \<Rightarrow> sched_error + string list list" where
  "planLoop manifest state remaining waves =
     (if 0 < remaining then
        (case Next manifest state of
           Inl e \<Rightarrow> Inl e
         | Inr decision \<Rightarrow>
           (let skipped = map fst (d_Skipped decision);
                state1 = setAll StatusSkipped state skipped;
                remaining1 = remaining - int (length skipped);
                wave = d_Ready decision
            in if wave = [] then (if remaining1 = 0 then Inr waves else Inl Deadlocked)
               else planLoop manifest (setAll StatusSuccess state1 wave)
                      (remaining1 - int (length wave)) (waves @ [wave])))
      else Inr waves)"
  by pat_completeness auto
termination
  by (relation "measure (\<lambda>(manifest, state, remaining, waves). nat remaining)")
    (auto simp: neq_Nil_conv)

declare planLoop.simps [simp del]

definition PlanWaves :: "Manifest \<Rightarrow> sched_error + string list list" where
  "PlanWaves manifest =
     (case Validate manifest of
        Some e \<Rightarrow> Inl e
      | None \<Rightarrow>
        planLoop manifest (setAll StatusPending Map.empty (map t_ID (m_Tasks manifest)))
          (int (length (m_Tasks manifest))) [])"

definition SortedSkipped :: "Decision \<Rightarrow> string list" where
  "SortedSkipped decision = sort (map fst (d_Skipped decision))"

section \<open>Ownership: facts\<close>

lemma normalizeOwnership_repo_path:
  assumes "normalizeOwnership s = Inr p"
  shows "repo_path p"
proof -
  define v where "v = TrimSuffix (TrimSuffix (TrimSuffix
    (TrimPrefix (TrimSpace (ReplaceBackslash s)) ''./'') ''/**'') ''/*'') ''/''"
  have sl: "''/'' = slash" by (simp add: slash_def)
  have n: "normalizeOwnership s =
      (if v = [] \<or> HasPrefix v slash then Inl OwnershipNotRelative
       else if escapes (path_Clean v) then Inl OwnershipEscapes else Inr (path_Clean v))"
    unfolding normalizeOwnership_def escapes_def v_def Let_def sl ..
  with assms have "\<not> HasPrefix v slash" "\<not> escapes (path_Clean v)" "p = path_Clean v"
    by (auto split: if_splits)
  then show ?thesis using escapes_Clean by simp
qed

interpretation schedPath: path_normaliser normalizeOwnership
  by unfold_locales (rule normalizeOwnership_repo_path)

text \<open>The repository files a list of ownership paths covers.\<close>

definition owned :: "string list \<Rightarrow> string list set" where
  "owned owns = (\<Union>s \<in> set owns. case normalizeOwnership s of Inl _ \<Rightarrow> {} | Inr p \<Rightarrow> subtree p)"

definition ownable :: "string \<Rightarrow> bool" where
  "ownable s \<longleftrightarrow> (case normalizeOwnership s of Inl _ \<Rightarrow> False | Inr _ \<Rightarrow> True)"

lemma conflictsRight_iff:
  assumes "normalizeOwnership s = Inr a"
  shows "conflictsRight a right \<longleftrightarrow> (\<exists>y \<in> set right. \<not> ownable y) \<or> subtree a \<inter> owned right \<noteq> {}"
proof (induction right)
  case Nil
  then show ?case by (simp add: owned_def)
next
  case (Cons y right)
  show ?case
  proof (cases "normalizeOwnership y")
    case (Inl e)
    then show ?thesis by (simp add: ownable_def)
  next
    case (Inr b)
    have "a = b \<or> HasPrefix a (b @ ''/'') \<or> HasPrefix b (a @ ''/'') \<longleftrightarrow> subtree a \<inter> subtree b \<noteq> {}"
      using schedPath.norm_clash [OF assms Inr] by (simp add: slash_def)
    moreover have "owned (y # right) = subtree b \<union> owned right"
      using Inr by (simp add: owned_def)
    moreover have "ownable y" using Inr by (simp add: ownable_def)
    ultimately show ?thesis using Cons.IH Inr by (auto simp del: append.simps)
  qed
qed

lemma OwnershipConflict_spec:
  "OwnershipConflict left right \<longleftrightarrow>
     (\<exists>x \<in> set left. \<not> ownable x) \<or> (left \<noteq> [] \<and> (\<exists>y \<in> set right. \<not> ownable y)) \<or>
     owned left \<inter> owned right \<noteq> {}"
proof (induction left)
  case Nil
  then show ?case by (simp add: owned_def)
next
  case (Cons x left)
  show ?case
  proof (cases "normalizeOwnership x")
    case (Inl e)
    then show ?thesis by (simp add: ownable_def)
  next
    case (Inr a)
    have "owned (x # left) = subtree a \<union> owned left" using Inr by (simp add: owned_def)
    moreover have "ownable x" using Inr by (simp add: ownable_def)
    ultimately show ?thesis
      using Cons.IH Inr conflictsRight_iff [OF Inr, of right] by auto
  qed
qed

text \<open>
  Two lists of ownership paths do not conflict exactly when every path of both is acceptable
  (the right ones are looked at only if the left list is not empty) and no file of the repository
  lies under a path of each.
\<close>

theorem OwnershipConflict_iff:
  "(OwnershipConflict left right = False) =
     (set left \<subseteq> {x. ownable x} \<and> (left = [] \<or> set right \<subseteq> {y. ownable y}) \<and>
      owned left \<inter> owned right = {})"
  unfolding OwnershipConflict_spec by auto

section \<open>The cycle search: facts\<close>

definition depRel :: "(string \<rightharpoonup> Task) \<Rightarrow> (string \<times> string) set" where
  "depRel tasks = {(d, x). d \<in> set (depsOf tasks x)}"

lemma visitAll_Cons_Inr:
  assumes "visitAll n tasks (d # ds) m = Some (Inr r)"
  obtains m' where "visit n tasks d m = Some (Inr m')" "visitAll n tasks ds m' = Some (Inr r)"
  using assms by (auto split: option.splits sum.splits)

lemma visit_Suc_Inr:
  assumes "visit (Suc n) tasks x (visiting, visited) = Some (Inr r)" and "\<not> visited x"
  obtains vg vd where "\<not> visiting x"
    "visitAll n tasks (depsOf tasks x) (visiting(x := True), visited) = Some (Inr (vg, vd))"
    "r = (vg(x := False), vd(x := True))"
  using assms by (auto split: option.splits sum.splits if_splits)

lemma visit_frame:
  "\<forall>r. visit n tasks x m = Some (Inr r) \<longrightarrow>
     fst r = fst m \<and> (\<forall>y. snd m y \<longrightarrow> snd r y) \<and> snd r x"
  "\<forall>r. visitAll n tasks ds m = Some (Inr r) \<longrightarrow>
     fst r = fst m \<and> (\<forall>y. snd m y \<longrightarrow> snd r y) \<and> (\<forall>d \<in> set ds. snd r d)"
proof (induction n tasks x m and n tasks ds m rule: visit_visitAll.induct)
  case (2 n tasks x visiting visited)
  show ?case
  proof (intro allI impI)
    fix r assume r: "visit (Suc n) tasks x (visiting, visited) = Some (Inr r)"
    show "fst r = fst (visiting, visited) \<and> (\<forall>y. snd (visiting, visited) y \<longrightarrow> snd r y) \<and> snd r x"
    proof (cases "visited x")
      case True
      with r show ?thesis by auto
    next
      case False
      with r obtain vg vd where nv: "\<not> visiting x"
        and a: "visitAll n tasks (depsOf tasks x) (visiting(x := True), visited) = Some (Inr (vg, vd))"
        and e: "r = (vg(x := False), vd(x := True))"
        by (rule visit_Suc_Inr)
      from "2.IH" [OF False nv] a have "vg = visiting(x := True)" "\<forall>y. visited y \<longrightarrow> vd y" by auto
      then show ?thesis using e nv by (auto simp: fun_eq_iff)
    qed
  qed
next
  case (4 n tasks d ds m)
  show ?case
  proof (intro allI impI)
    fix r assume "visitAll n tasks (d # ds) m = Some (Inr r)"
    then obtain m' where v: "visit n tasks d m = Some (Inr m')"
      and a: "visitAll n tasks ds m' = Some (Inr r)" by (rule visitAll_Cons_Inr)
    from "4.IH"(1) v have 1: "fst m' = fst m \<and> (\<forall>y. snd m y \<longrightarrow> snd m' y) \<and> snd m' d" by simp
    from "4.IH"(2) [OF v refl] a
    have "fst r = fst m' \<and> (\<forall>y. snd m' y \<longrightarrow> snd r y) \<and> (\<forall>d \<in> set ds. snd r d)" by simp
    with 1 show "fst r = fst m \<and> (\<forall>y. snd m y \<longrightarrow> snd r y) \<and> (\<forall>d \<in> set (d # ds). snd r d)"
      by simp
  qed
qed auto

text \<open>Everything visited is grounded: no infinite descent along dependencies starts from it.\<close>

lemma visit_grounded:
  "\<forall>r. visit n tasks x m = Some (Inr r) \<longrightarrow> {y. snd m y} \<subseteq> Wellfounded.acc (depRel tasks) \<longrightarrow>
     {y. snd r y} \<subseteq> Wellfounded.acc (depRel tasks)"
  "\<forall>r. visitAll n tasks ds m = Some (Inr r) \<longrightarrow> {y. snd m y} \<subseteq> Wellfounded.acc (depRel tasks) \<longrightarrow>
     {y. snd r y} \<subseteq> Wellfounded.acc (depRel tasks)"
proof (induction n tasks x m and n tasks ds m rule: visit_visitAll.induct)
  case (2 n tasks x visiting visited)
  show ?case
  proof (intro allI impI)
    fix r assume r: "visit (Suc n) tasks x (visiting, visited) = Some (Inr r)"
      and g: "{y. snd (visiting, visited) y} \<subseteq> Wellfounded.acc (depRel tasks)"
    show "{y. snd r y} \<subseteq> Wellfounded.acc (depRel tasks)"
    proof (cases "visited x")
      case True
      with r g show ?thesis by auto
    next
      case False
      with r obtain vg vd where nv: "\<not> visiting x"
        and a: "visitAll n tasks (depsOf tasks x) (visiting(x := True), visited) = Some (Inr (vg, vd))"
        and e: "r = (vg(x := False), vd(x := True))"
        by (rule visit_Suc_Inr)
      have vd: "{y. vd y} \<subseteq> Wellfounded.acc (depRel tasks)"
        using "2.IH" [OF False nv] a g by auto
      have "\<forall>d \<in> set (depsOf tasks x). vd d"
        using visit_frame(2) [of n tasks "depsOf tasks x" "(visiting(x := True), visited)"] a by auto
      then have "y \<in> Wellfounded.acc (depRel tasks)" if "(y, x) \<in> depRel tasks" for y
        using that vd by (auto simp: depRel_def)
      then have "x \<in> Wellfounded.acc (depRel tasks)" by (rule accI)
      with vd e show ?thesis by auto
    qed
  qed
next
  case (4 n tasks d ds m)
  then show ?case by (auto split: option.splits sum.splits)
qed auto

lemma acc_no_cycle: "x \<in> Wellfounded.acc r \<Longrightarrow> (x, x) \<notin> r\<^sup>+"
proof (induction rule: acc_induct_rule)
  case (1 x)
  show ?case
  proof
    assume "(x, x) \<in> r\<^sup>+"
    then obtain y where "(x, y) \<in> r\<^sup>*" "(y, x) \<in> r" by (metis tranclD2)
    then have "(y, y) \<in> r\<^sup>+" by (meson rtrancl_into_trancl2)
    with 1 \<open>(y, x) \<in> r\<close> show False by blast
  qed
qed

text \<open>A reported cycle is one: the open visits lie on a path of dependencies to the node.\<close>

lemma visit_cycle:
  "\<forall>e. visit n tasks x m = Some (Inl e) \<longrightarrow> (\<forall>v. fst m v \<longrightarrow> (x, v) \<in> (depRel tasks)\<^sup>+) \<longrightarrow>
     (\<exists>c. e = CycleAt c \<and> (c, c) \<in> (depRel tasks)\<^sup>+)"
  "\<forall>e. visitAll n tasks ds m = Some (Inl e) \<longrightarrow>
     (\<forall>d \<in> set ds. \<forall>v. fst m v \<longrightarrow> (d, v) \<in> (depRel tasks)\<^sup>+) \<longrightarrow>
     (\<exists>c. e = CycleAt c \<and> (c, c) \<in> (depRel tasks)\<^sup>+)"
proof (induction n tasks x m and n tasks ds m rule: visit_visitAll.induct)
  case (2 n tasks x visiting visited)
  show ?case
  proof (intro allI impI)
    fix e assume r: "visit (Suc n) tasks x (visiting, visited) = Some (Inl e)"
      and g: "\<forall>v. fst (visiting, visited) v \<longrightarrow> (x, v) \<in> (depRel tasks)\<^sup>+"
    from r have nv: "\<not> visited x" by (auto split: if_splits)
    show "\<exists>c. e = CycleAt c \<and> (c, c) \<in> (depRel tasks)\<^sup>+"
    proof (cases "visiting x")
      case True
      with r nv g show ?thesis by auto
    next
      case False
      with r nv have a: "visitAll n tasks (depsOf tasks x) (visiting(x := True), visited) = Some (Inl e)"
        by (auto split: option.splits sum.splits)
      have "(d, v) \<in> (depRel tasks)\<^sup>+"
        if "d \<in> set (depsOf tasks x)" "(visiting(x := True)) v" for d v
      proof -
        have dx: "(d, x) \<in> depRel tasks" using that by (simp add: depRel_def)
        show ?thesis
        proof (cases "v = x")
          case True
          with dx show ?thesis by auto
        next
          case False
          with that g have "(x, v) \<in> (depRel tasks)\<^sup>+" by auto
          with dx show ?thesis by (meson trancl_into_trancl2)
        qed
      qed
      with "2.IH" [OF nv False] a show ?thesis by auto
    qed
  qed
next
  case (4 n tasks d ds m)
  show ?case
  proof (intro allI impI)
    fix e assume r: "visitAll n tasks (d # ds) m = Some (Inl e)"
      and g: "\<forall>d \<in> set (d # ds). \<forall>v. fst m v \<longrightarrow> (d, v) \<in> (depRel tasks)\<^sup>+"
    show "\<exists>c. e = CycleAt c \<and> (c, c) \<in> (depRel tasks)\<^sup>+"
    proof (cases "visit n tasks d m")
      case None
      with r show ?thesis by simp
    next
      case (Some s)
      show ?thesis
      proof (cases s)
        case (Inl e')
        with Some r have "e' = e" by simp
        with Some Inl "4.IH"(1) g show ?thesis by auto
      next
        case (Inr m')
        with Some have "fst m' = fst m" using visit_frame(1) by blast
        moreover have "visitAll n tasks ds m' = Some (Inl e)" using Some Inr r by simp
        ultimately show ?thesis using "4.IH"(2) [OF Some Inr] g by auto
      qed
    qed
  qed
qed auto

text \<open>
  The recursion is no deeper than there are tasks that are not being visited, plus one: only a
  known task has dependencies to descend into, and it is marked while it is open.
\<close>

lemma visit_enough:
  assumes "finite (dom tasks)"
  shows "card {y \<in> dom tasks. \<not> fst m y} + 1 \<le> n \<Longrightarrow> visit n tasks x m \<noteq> None"
    and "card {y \<in> dom tasks. \<not> fst m y} + 1 \<le> n \<or> ds = [] \<Longrightarrow> visitAll n tasks ds m \<noteq> None"
  using assms
proof (induction n tasks x m and n tasks ds m rule: visit_visitAll.induct)
  case (2 n tasks x visiting visited)
  show ?case
  proof (cases "visited x \<or> visiting x")
    case True
    then show ?thesis by auto
  next
    case False
    let ?open = "visiting(x := True)"
    have "visitAll n tasks (depsOf tasks x) (?open, visited) \<noteq> None"
    proof (cases "x \<in> dom tasks")
      case True
      with False have "{y \<in> dom tasks. \<not> ?open y} \<subset> {y \<in> dom tasks. \<not> visiting y}" by auto
      then have "card {y \<in> dom tasks. \<not> ?open y} < card {y \<in> dom tasks. \<not> visiting y}"
        using "2.prems"(2) by (intro psubset_card_mono) auto
      with "2.prems"(1) have "card {y \<in> dom tasks. \<not> fst (?open, visited) y} + 1 \<le> n" by simp
      then show ?thesis using "2.IH" False "2.prems"(2) by blast
    next
      case not_task: False
      then have "depsOf tasks x = []" by (simp add: depsOf_def domIff)
      then show ?thesis by simp
    qed
    with False show ?thesis by (auto split: sum.splits)
  qed
next
  case (4 n tasks d ds m)
  then have v: "visit n tasks d m \<noteq> None" by auto
  then obtain s where s: "visit n tasks d m = Some s" by auto
  show ?case
  proof (cases s)
    case (Inl e)
    with s show ?thesis by simp
  next
    case (Inr m')
    with s have "fst m' = fst m" using visit_frame(1) by blast
    with "4.IH"(2) [OF s Inr] "4.prems" have "visitAll n tasks ds m' \<noteq> None" by simp
    with s Inr show ?thesis by simp
  qed
qed auto

section \<open>Validation: facts\<close>

text \<open>The checks on one task, and the dependency relation of a manifest.\<close>

definition taskOk :: "Capacity \<Rightarrow> Task \<Rightarrow> bool" where
  "taskOk cap t \<longleftrightarrow>
     \<not> blank (t_ID t) \<and>
     \<not> f64_le (r_CPU (t_Resources t)) f64_zero \<and> 0 < r_MemoryMB (t_Resources t) \<and>
     \<not> f64_less (cap_CPU cap) (r_CPU (t_Resources t)) \<and>
     r_MemoryMB (t_Resources t) \<le> cap_MemoryMB cap \<and>
     t_Owns t \<noteq> [] \<and> (\<forall>s \<in> set (t_Owns t). ownable s)"

definition depends :: "Task list \<Rightarrow> (string \<times> string) set" where
  "depends ts = {(d, t_ID t) | d t. t \<in> set ts \<and> d \<in> set (t_DependsOn t)}"

definition trimmed :: "Task list \<Rightarrow> bool" where
  "trimmed ts \<longleftrightarrow> (\<forall>t \<in> set ts. TrimSpace (t_ID t) = t_ID t)"

lemma validateOwnership_None:
  "validateOwnership tid owns = None \<longleftrightarrow> (\<forall>s \<in> set owns. ownable s)"
  by (auto simp: validateOwnership_def ownable_def split: sum.splits)

lemma registerTask_Inr:
  "registerTask cap tasks (i, t) = Inr tasks' \<longleftrightarrow>
     taskOk cap t \<and> tasks (TrimSpace (t_ID t)) = None \<and>
     tasks' = tasks(TrimSpace (t_ID t) \<mapsto> t\<lparr>t_ID := TrimSpace (t_ID t)\<rparr>)"
  using validateOwnership_None [of "TrimSpace (t_ID t)" "t_Owns t"]
  by (auto simp: registerTask_def Let_def taskOk_def blank_def not_le
      split: option.splits if_splits)

lemma registerTask_no_diverge: "registerTask cap tasks it \<noteq> Inl VisitDiverges"
  by (auto simp: registerTask_def Let_def validateOwnership_def
      dest!: first_err_Some split: option.splits sum.splits if_splits)

definition keyOf :: "Task \<Rightarrow> string" where
  "keyOf t = TrimSpace (t_ID t)"

lemma register_all:
  "fold_res (registerTask cap) (List.enumerate k ts) m0 = Inr m \<longleftrightarrow>
     (\<forall>t \<in> set ts. taskOk cap t \<and> m0 (keyOf t) = None) \<and> distinct (map keyOf ts) \<and>
     m = m0 ++ map_of (map (\<lambda>t. (keyOf t, t\<lparr>t_ID := keyOf t\<rparr>)) ts)"
proof (induction ts arbitrary: k m0)
  case Nil
  then show ?case by auto
next
  case (Cons t ts)
  show ?case
  proof (cases "taskOk cap t \<and> m0 (keyOf t) = None")
    case False
    then have "\<nexists>m'. registerTask cap m0 (k, t) = Inr m'"
      by (auto simp: registerTask_Inr keyOf_def)
    then obtain e where "registerTask cap m0 (k, t) = Inl e"
      by (cases "registerTask cap m0 (k, t)") auto
    with False show ?thesis by auto
  next
    case True
    let ?m1 = "m0(keyOf t \<mapsto> t\<lparr>t_ID := keyOf t\<rparr>)"
    have r: "registerTask cap m0 (k, t) = Inr ?m1"
      using True by (simp add: registerTask_Inr keyOf_def)
    let ?kv = "\<lambda>t. (keyOf t, t\<lparr>t_ID := keyOf t\<rparr>)"
    have eq: "?m1 ++ map_of (map ?kv ts) = m0 ++ map_of (map ?kv (t # ts))"
      if "keyOf t \<notin> set (map keyOf ts)"
    proof
      fix x
      have "map_of (map ?kv ts) (keyOf t) = None"
        using that by (auto simp: map_of_eq_None_iff)
      then show "(?m1 ++ map_of (map ?kv ts)) x = (m0 ++ map_of (map ?kv (t # ts))) x"
        by (auto simp: map_add_def split: option.splits)
    qed
    have iff: "(\<forall>u \<in> set ts. taskOk cap u \<and> ?m1 (keyOf u) = None) \<longleftrightarrow>
        (\<forall>u \<in> set ts. taskOk cap u \<and> m0 (keyOf u) = None) \<and> keyOf t \<notin> set (map keyOf ts)"
    proof -
      have "(\<forall>u \<in> set ts. taskOk cap u \<and> ?m1 (keyOf u) = None) \<longleftrightarrow>
          (\<forall>u \<in> set ts. taskOk cap u \<and> keyOf u \<noteq> keyOf t \<and> m0 (keyOf u) = None)" by auto
      then show ?thesis by (simp add: image_iff) metis
    qed
    have l: "fold_res (registerTask cap) (List.enumerate k (t # ts)) m0 = Inr m \<longleftrightarrow>
        fold_res (registerTask cap) (List.enumerate (Suc k) ts) ?m1 = Inr m" by (simp add: r)
    have d: "distinct (map keyOf (t # ts)) \<longleftrightarrow>
        keyOf t \<notin> set (map keyOf ts) \<and> distinct (map keyOf ts)" by simp
    have a: "(\<forall>u \<in> set (t # ts). taskOk cap u \<and> m0 (keyOf u) = None) \<longleftrightarrow>
        (\<forall>u \<in> set ts. taskOk cap u \<and> m0 (keyOf u) = None)" using True by simp
    show ?thesis
    proof (cases "keyOf t \<in> set (map keyOf ts)")
      case dup: True
      show ?thesis unfolding l Cons.IH iff d using dup by blast
    next
      case new: False
      show ?thesis unfolding l Cons.IH iff d a eq [OF new] using new by blast
    qed
  qed
qed

text \<open>The map of tasks that a successful first loop builds.\<close>

definition taskMap :: "Task list \<Rightarrow> (string \<rightharpoonup> Task)" where
  "taskMap ts = map_of (map (\<lambda>t. (keyOf t, t\<lparr>t_ID := keyOf t\<rparr>)) ts)"

lemma dom_taskMap: "dom (taskMap ts) = keyOf ` set ts"
  by (auto simp: taskMap_def dom_map_of_conv_image_fst image_image)

lemma card_taskMap: "card (dom (taskMap ts)) \<le> length ts"
  unfolding dom_taskMap by (metis card_image_le card_length finite_set le_trans)

lemma Validate_None:
  "Validate m = None \<longleftrightarrow>
     0 < m_MaxParallel m \<and> \<not> f64_le (cap_CPU (m_Capacity m)) f64_zero \<and>
     0 < cap_MemoryMB (m_Capacity m) \<and> m_Tasks m \<noteq> [] \<and>
     (\<forall>t \<in> set (m_Tasks m). taskOk (m_Capacity m) t) \<and> distinct (map keyOf (m_Tasks m)) \<and>
     (\<forall>t \<in> set (m_Tasks m). \<forall>d \<in> set (t_DependsOn t). d \<noteq> t_ID t \<and> d \<in> dom (taskMap (m_Tasks m))) \<and>
     (\<exists>r. visitAll (visitFuel (m_Tasks m)) (taskMap (m_Tasks m)) (map t_ID (m_Tasks m))
        (\<lambda>_. False, \<lambda>_. False) = Some (Inr r))"
proof (cases "fold_res (registerTask (m_Capacity m)) (List.enumerate 0 (m_Tasks m)) Map.empty")
  case (Inl e)
  then have "\<not> ((\<forall>t \<in> set (m_Tasks m). taskOk (m_Capacity m) t) \<and> distinct (map keyOf (m_Tasks m)))"
    using register_all [of "m_Capacity m" 0 "m_Tasks m" Map.empty] by auto
  with Inl show ?thesis by (auto simp: Validate_def)
next
  case (Inr tasks)
  then have "\<forall>t \<in> set (m_Tasks m). taskOk (m_Capacity m) t" "distinct (map keyOf (m_Tasks m))"
    and t: "tasks = taskMap (m_Tasks m)"
    using register_all [of "m_Capacity m" 0 "m_Tasks m" Map.empty tasks] by (auto simp: taskMap_def)
  moreover have "first_err (validateDependencies tasks) (m_Tasks m) = None \<longleftrightarrow>
      (\<forall>t \<in> set (m_Tasks m). \<forall>d \<in> set (t_DependsOn t). d \<noteq> t_ID t \<and> d \<in> dom tasks)"
    by (auto simp: validateDependencies_def domIff)
  ultimately show ?thesis
    using Inr by (auto simp: Validate_def not_le split: option.splits sum.splits)
qed

text \<open>
  Validation always returns: the depth of the cycle search never exceeds the number of tasks
  plus two, which is the fuel it is given.
\<close>

theorem Validate_returns: "Validate m \<noteq> Some VisitDiverges"
proof (cases "fold_res (registerTask (m_Capacity m)) (List.enumerate 0 (m_Tasks m)) Map.empty")
  case (Inl e)
  then have "e \<noteq> VisitDiverges" using fold_res_Inl registerTask_no_diverge by metis
  with Inl show ?thesis by (auto simp: Validate_def)
next
  case (Inr tasks)
  then have t: "tasks = taskMap (m_Tasks m)"
    using register_all [of "m_Capacity m" 0 "m_Tasks m" Map.empty tasks] by (auto simp: taskMap_def)
  let ?v = "visitAll (visitFuel (m_Tasks m)) tasks (map t_ID (m_Tasks m)) (\<lambda>_. False, \<lambda>_. False)"
  have "card {y \<in> dom tasks. \<not> fst (\<lambda>_. False, \<lambda>_. False) y} + 1 \<le> visitFuel (m_Tasks m)"
    using card_taskMap [of "m_Tasks m"] by (simp add: t visitFuel_def)
  then have "?v \<noteq> None" by (intro visit_enough(2)) (simp_all add: t dom_taskMap)
  moreover have "?v \<noteq> Some (Inl VisitDiverges)"
    using visit_cycle(2) [of "visitFuel (m_Tasks m)" tasks "map t_ID (m_Tasks m)"
        "(\<lambda>_. False, \<lambda>_. False)"] by auto
  moreover have "first_err (validateDependencies tasks) (m_Tasks m) \<noteq> Some VisitDiverges"
    by (auto simp: validateDependencies_def dest!: first_err_Some split: if_splits)
  ultimately show ?thesis
    unfolding Validate_def Inr sum.case
    by (intro err_then_neq) (auto split: option.splits sum.splits)
qed

lemma depRel_trimmed:
  assumes "trimmed ts" and "distinct (map keyOf ts)"
  shows "depRel (taskMap ts) = depends ts"
proof -
  have k: "keyOf t = t_ID t" if "t \<in> set ts" for t using assms(1) that by (simp add: trimmed_def keyOf_def)
  have "taskMap ts (t_ID t) = Some t" if "t \<in> set ts" for t
  proof -
    have "map_of (map (\<lambda>t. (keyOf t, t\<lparr>t_ID := keyOf t\<rparr>)) ts) (keyOf t) = Some (t\<lparr>t_ID := keyOf t\<rparr>)"
      using that assms(2) by (intro map_of_is_SomeI) (auto simp: comp_def)
    then show ?thesis using k [OF that] by (simp add: taskMap_def)
  qed
  moreover have "\<exists>t \<in> set ts. x = t_ID t" if "taskMap ts x \<noteq> None" for x
    using that k dom_taskMap [of ts] by (auto simp: domIff)
  ultimately have deps: "d \<in> set (depsOf (taskMap ts) x) \<longleftrightarrow>
      (\<exists>t \<in> set ts. x = t_ID t \<and> d \<in> set (t_DependsOn t))" for d x
    by (cases "taskMap ts x") (fastforce simp: depsOf_def)+
  show ?thesis by (auto simp: depRel_def depends_def deps)
qed

lemma trimmed_keys: "trimmed ts \<Longrightarrow> map keyOf ts = map t_ID ts"
  by (simp add: trimmed_def keyOf_def)

text \<open>
  C1. For a manifest whose task names carry no surrounding white space, validation accepts
  exactly the well-formed ones: positive limits, at least one task, each task within the capacity
  and owning valid paths, distinct names, every dependency a task of the manifest, and no cycle
  of dependencies.
\<close>

theorem Validate_iff:
  assumes "trimmed (m_Tasks m)"
  shows "Validate m = None \<longleftrightarrow>
    0 < m_MaxParallel m \<and> \<not> f64_le (cap_CPU (m_Capacity m)) f64_zero \<and>
    0 < cap_MemoryMB (m_Capacity m) \<and> m_Tasks m \<noteq> [] \<and>
    (\<forall>t \<in> set (m_Tasks m). taskOk (m_Capacity m) t) \<and> distinct (map t_ID (m_Tasks m)) \<and>
    (\<forall>t \<in> set (m_Tasks m). set (t_DependsOn t) \<subseteq> t_ID ` set (m_Tasks m)) \<and>
    acyclic (depends (m_Tasks m))"
proof -
  let ?ts = "m_Tasks m" and ?M = "taskMap (m_Tasks m)"
  let ?v = "visitAll (visitFuel ?ts) ?M (map t_ID ?ts) (\<lambda>_. False, \<lambda>_. False)"
  have keys: "map keyOf ?ts = map t_ID ?ts" using assms by (rule trimmed_keys)
  have dom: "dom ?M = t_ID ` set ?ts"
    using keys unfolding dom_taskMap by (metis list.set_map)
  have graph: "(\<exists>r. ?v = Some (Inr r)) \<longleftrightarrow> acyclic (depends ?ts)"
    if d: "distinct (map t_ID ?ts)" and kn: "\<forall>t \<in> set ?ts. set (t_DependsOn t) \<subseteq> t_ID ` set ?ts"
  proof -
    have rel: "depRel ?M = depends ?ts" using assms by (rule depRel_trimmed) (simp only: keys d)
    have v: "?v \<noteq> None"
      using card_taskMap [of ?ts] by (intro visit_enough(2)) (simp_all add: dom_taskMap visitFuel_def)
    show ?thesis
    proof
      assume "\<exists>r. ?v = Some (Inr r)"
      then obtain r where r: "?v = Some (Inr r)" by blast
      have "{y. snd r y} \<subseteq> Wellfounded.acc (depends ?ts)"
        using visit_grounded(2) [of "visitFuel ?ts" ?M "map t_ID ?ts" "(\<lambda>_. False, \<lambda>_. False)"] r rel
        by auto
      moreover have "\<forall>t \<in> set ?ts. snd r (t_ID t)"
        using visit_frame(2) [of "visitFuel ?ts" ?M "map t_ID ?ts" "(\<lambda>_. False, \<lambda>_. False)"] r by auto
      ultimately have "\<forall>t \<in> set ?ts. (t_ID t, t_ID t) \<notin> (depends ?ts)\<^sup>+"
        by (simp add: acc_no_cycle subset_iff)
      moreover have "\<exists>t \<in> set ?ts. x = t_ID t" if "(x, x) \<in> (depends ?ts)\<^sup>+" for x
        using tranclD2 [OF that] by (auto simp: depends_def)
      ultimately show "acyclic (depends ?ts)" unfolding acyclic_def by blast
    next
      assume "acyclic (depends ?ts)"
      then have "?v \<noteq> Some (Inl e)" for e
        using visit_cycle(2) [of "visitFuel ?ts" ?M "map t_ID ?ts" "(\<lambda>_. False, \<lambda>_. False)"] rel
        by (auto simp: acyclic_def)
      with v show "\<exists>r. ?v = Some (Inr r)" by (metis not_None_eq old.sum.exhaust)
    qed
  qed
  have "d \<noteq> t_ID t" if "acyclic (depends ?ts)" "t \<in> set ?ts" "d \<in> set (t_DependsOn t)" for t d
  proof
    assume "d = t_ID t"
    with that have "(d, d) \<in> depends ?ts" by (auto simp: depends_def)
    with that(1) show False by (auto simp: acyclic_def)
  qed
  then show ?thesis
    unfolding Validate_None keys dom using graph by blast
qed

definition sample_task :: "string \<Rightarrow> string \<Rightarrow> string list \<Rightarrow> int \<Rightarrow> Task" where
  "sample_task name path deps mem =
     \<lparr>t_ID = name, t_Owns = [path], t_DependsOn = deps,
      t_Resources = \<lparr>r_CPU = f64_of_int 1, r_MemoryMB = mem\<rparr>\<rparr>"

definition sample_manifest :: Manifest where
  "sample_manifest =
     \<lparr>m_MaxParallel = 2, m_Capacity = \<lparr>cap_CPU = f64_of_int 4, cap_MemoryMB = 4096\<rparr>,
      m_Tasks = [sample_task ''api'' ''src/api/**'' [] 512, sample_task ''web'' ''src/web'' [] 512,
                 sample_task ''docs'' ''docs'' [''api'', ''web''] 256]\<rparr>"

lemma sample_manifest_valid: "Validate sample_manifest = None" "trimmed (m_Tasks sample_manifest)"
  by code_simp+

theorem Validate_iff_witness:
  "Validate sample_manifest = None \<and> acyclic (depends (m_Tasks sample_manifest))"
  using Validate_iff [OF sample_manifest_valid(2)] sample_manifest_valid(1) by simp

definition padded_cycle :: Manifest where
  "padded_cycle =
     \<lparr>m_MaxParallel = 1, m_Capacity = \<lparr>cap_CPU = f64_of_int 4, cap_MemoryMB = 4096\<rparr>,
      m_Tasks = [sample_task '' a'' ''src'' [''a''] 512]\<rparr>"

text \<open>
  A task name with surrounding white space defeats the cycle search, because the search
  looks tasks up under their trimmed names but starts from the names as written: this manifest,
  whose one task depends on itself, is accepted, and its plan then fails with the error that
  claims a valid dependency graph.
\<close>

theorem padded_cycle_accepted:
  "Validate padded_cycle = None \<and> (''a'', ''a'') \<in> depRel (taskMap (m_Tasks padded_cycle)) \<and>
   PlanWaves padded_cycle = Inl Deadlocked"
proof -
  have "''a'' \<in> set (depsOf (taskMap (m_Tasks padded_cycle)) ''a'')" by code_simp
  then have "(''a'', ''a'') \<in> depRel (taskMap (m_Tasks padded_cycle))" by (simp add: depRel_def)
  moreover have "Validate padded_cycle = None" "PlanWaves padded_cycle = Inl Deadlocked" by code_simp+
  ultimately show ?thesis by simp
qed

section \<open>The next decision: facts\<close>

text \<open>One selection of the loop, and what it has checked.\<close>

definition picks :: "Manifest \<Rightarrow> State \<Rightarrow> (string \<times> string) list \<Rightarrow> int \<Rightarrow> Selection \<Rightarrow> Task \<Rightarrow> bool" where
  "picks m state skipped rc s t \<longleftrightarrow>
     statusOf state (t_ID t) = StatusPending \<and> map_of skipped (t_ID t) = None \<and>
     dependenciesSucceeded t state \<and> rc + int (length (s_Ready s)) < m_MaxParallel m \<and>
     \<not> exceeds (m_Capacity m) (addUsed (s_Used s) t) \<and> \<not> conflictsAny t (s_Selected s)"

definition extendSel :: "Selection \<Rightarrow> Task \<Rightarrow> Selection" where
  "extendSel s t = \<lparr>s_Ready = s_Ready s @ [t_ID t], s_Selected = s_Selected s @ [t],
     s_Used = addUsed (s_Used s) t\<rparr>"

fun chain ::
    "Manifest \<Rightarrow> State \<Rightarrow> (string \<times> string) list \<Rightarrow> int \<Rightarrow> Selection \<Rightarrow> Task list \<Rightarrow> bool" where
  "chain m state skipped rc s [] \<longleftrightarrow> True"
| "chain m state skipped rc s (t # ts) \<longleftrightarrow>
     picks m state skipped rc s t \<and> chain m state skipped rc (extendSel s t) ts"

lemma selectLoop_chain:
  "\<exists>ps. subseq ps tasks \<and> chain m state skipped rc s ps \<and>
     selectLoop m state skipped rc tasks s = foldl extendSel s ps"
proof (induction tasks arbitrary: s)
  case Nil
  then show ?case by auto
next
  case (Cons t ts)
  have skip: "\<exists>ps. subseq ps (t # ts) \<and> chain m state skipped rc s ps \<and>
      selectLoop m state skipped rc ts s = foldl extendSel s ps"
    using Cons.IH [of s] by blast
  show ?case
  proof (cases "picks m state skipped rc s t")
    case True
    from Cons.IH [of "extendSel s t"] obtain ps where "subseq ps ts"
      "chain m state skipped rc (extendSel s t) ps"
      "selectLoop m state skipped rc ts (extendSel s t) = foldl extendSel (extendSel s t) ps" by blast
    moreover have "selectLoop m state skipped rc (t # ts) s = selectLoop m state skipped rc ts (extendSel s t)"
      using True by (simp add: picks_def extendSel_def not_le)
    ultimately have "subseq (t # ps) (t # ts) \<and> chain m state skipped rc s (t # ps) \<and>
        selectLoop m state skipped rc (t # ts) s = foldl extendSel s (t # ps)"
      using True by simp
    then show ?thesis by blast
  next
    case False
    then have "selectLoop m state skipped rc (t # ts) s = selectLoop m state skipped rc ts s \<or>
        selectLoop m state skipped rc (t # ts) s = s"
      using picks_def [of m state skipped rc s t] by (auto simp del: foldl_Cons split: if_splits)
    then consider "selectLoop m state skipped rc (t # ts) s = selectLoop m state skipped rc ts s"
      | "selectLoop m state skipped rc (t # ts) s = s" by blast
    then show ?thesis
    proof cases
      case 1
      with skip show ?thesis by simp
    next
      case 2
      then have "subseq [] (t # ts) \<and> chain m state skipped rc s [] \<and>
          selectLoop m state skipped rc (t # ts) s = foldl extendSel s []" by simp
      then show ?thesis by blast
    qed
  qed
qed

lemma foldl_extendSel:
  "s_Ready (foldl extendSel s ps) = s_Ready s @ map t_ID ps"
  "s_Selected (foldl extendSel s ps) = s_Selected s @ ps"
  "s_Used (foldl extendSel s ps) = foldl addUsed (s_Used s) ps"
  by (induction ps arbitrary: s) (simp_all add: extendSel_def)

lemma chain_at:
  "chain m state skipped rc s (xs @ p # ys) \<Longrightarrow> picks m state skipped rc (foldl extendSel s xs) p"
  by (induction xs arbitrary: s) auto

text \<open>The tasks of a decision, in the order of the manifest.\<close>

definition chosen :: "Manifest \<Rightarrow> Decision \<Rightarrow> Task list" where
  "chosen m d = filter (\<lambda>t. t_ID t \<in> set (d_Ready d)) (m_Tasks m)"

definition startSel :: "Manifest \<Rightarrow> State \<Rightarrow> Selection" where
  "startSel m state =
     \<lparr>s_Ready = [], s_Selected = runningTasks state (m_Tasks m),
      s_Used = foldl addUsed noResources (runningTasks state (m_Tasks m))\<rparr>"

lemma subseq_filter_ids:
  assumes "subseq ps ts" and "distinct (map t_ID ts)"
  shows "filter (\<lambda>t. t_ID t \<in> set (map t_ID ps)) ts = ps"
  using assms
proof (induction rule: list_emb.induct)
  case (list_emb_Nil ts)
  then show ?case by simp
next
  case (list_emb_Cons ps ts t)
  then have "t_ID t \<notin> set (map t_ID ps)"
    using list_emb_set [OF list_emb_Cons.hyps(1)] by auto
  with list_emb_Cons show ?case by simp
next
  case (list_emb_Cons2 t t' ps ts)
  then have t: "t = t'" by simp
  have "t_ID u \<noteq> t_ID t'" if "u \<in> set ts" for u
    using list_emb_Cons2.prems imageI [OF that, of t_ID] by auto
  then have "filter (\<lambda>u. t_ID u \<in> set (map t_ID (t # ps))) ts
      = filter (\<lambda>u. t_ID u \<in> set (map t_ID ps)) ts"
    by (intro filter_cong) (auto simp: t)
  with list_emb_Cons2 t show ?case by simp
qed

lemma Validate_distinct: "Validate m = None \<Longrightarrow> distinct (map t_ID (m_Tasks m))"
proof -
  assume "Validate m = None"
  then have "distinct (map TrimSpace (map t_ID (m_Tasks m)))"
    by (simp add: Validate_None keyOf_def [abs_def] comp_def)
  then show ?thesis using distinct_map by blast
qed

lemma Next_Inr:
  assumes "Next m state = Inr d"
  shows "Validate m = None" "d = decide m state" "d_Ready d = map t_ID (chosen m d)"
    "chain m state (d_Skipped d) (int (length (runningTasks state (m_Tasks m)))) (startSel m state) (chosen m d)"
proof -
  show v: "Validate m = None" and d: "d = decide m state"
    using assms by (auto simp: Next_def split: option.splits)
  obtain ps where ps: "subseq ps (m_Tasks m)"
    "chain m state (d_Skipped d) (int (length (runningTasks state (m_Tasks m)))) (startSel m state) ps"
    and r: "d_Ready d = map t_ID ps"
    using selectLoop_chain [of "m_Tasks m" m state "d_Skipped d"
        "int (length (runningTasks state (m_Tasks m)))" "startSel m state"]
    by (auto simp: d decide_def Let_def startSel_def foldl_extendSel)
  have "chosen m d = ps"
    using subseq_filter_ids [OF ps(1) Validate_distinct [OF v]] by (simp add: chosen_def r)
  with ps r show "d_Ready d = map t_ID (chosen m d)"
    "chain m state (d_Skipped d) (int (length (runningTasks state (m_Tasks m)))) (startSel m state) (chosen m d)"
    by simp_all
qed

lemma not_conflict_disjoint: "\<not> OwnershipConflict l r \<Longrightarrow> owned l \<inter> owned r = {}"
  by (simp add: OwnershipConflict_spec)

text \<open>The selected tasks own disjoint files, pairwise and against every running task.\<close>

lemma chain_disjoint:
  assumes c: "chain m state skipped rc s ps" and t: "t \<in> set ps"
    and u: "u \<in> set (s_Selected s) \<union> set ps" and ne: "u \<noteq> t"
  shows "owned (t_Owns t) \<inter> owned (t_Owns u) = {}"
proof -
  obtain xs ys where ps: "ps = xs @ t # ys" using split_list [OF t] by blast
  consider (before) "u \<in> set (s_Selected s) \<union> set xs" | (after) "u \<in> set ys"
    using u ne ps by auto
  then show ?thesis
  proof cases
    case before
    have "\<not> conflictsAny t (s_Selected s @ xs)"
      using chain_at [OF c [unfolded ps]] by (simp add: picks_def foldl_extendSel)
    with before have "\<not> OwnershipConflict (t_Owns t) (t_Owns u)" by (auto simp: conflictsAny_def)
    then show ?thesis by (rule not_conflict_disjoint)
  next
    case after
    obtain as bs where ys: "ys = as @ u # bs" using split_list [OF after] by blast
    have "chain m state skipped rc s ((xs @ t # as) @ u # bs)" using c by (simp add: ps ys)
    then have "\<not> conflictsAny u (s_Selected s @ xs @ t # as)"
      using chain_at [of m state skipped rc s "xs @ t # as" u bs]
      by (simp add: picks_def foldl_extendSel extendSel_def)
    then have "\<not> OwnershipConflict (t_Owns u) (t_Owns t)" by (auto simp: conflictsAny_def)
    then have "owned (t_Owns u) \<inter> owned (t_Owns t) = {}" by (rule not_conflict_disjoint)
    then show ?thesis by blast
  qed
qed

lemma Next_safe_core:
  assumes "Next m state = Inr d"
  shows "distinct (d_Ready d) \<and>
    (\<forall>t \<in> set (m_Tasks m). t_ID t \<in> set (d_Ready d) \<longrightarrow>
       statusOf state (t_ID t) = StatusPending \<and> dependenciesSucceeded t state \<and>
       (\<forall>u \<in> set (m_Tasks m). u \<noteq> t \<and>
          (state (t_ID u) = Some StatusRunning \<or> t_ID u \<in> set (d_Ready d)) \<longrightarrow>
          owned (t_Owns t) \<inter> owned (t_Owns u) = {}))"
proof -
  note n = Next_Inr [OF assms]
  have dist: "distinct (map t_ID (m_Tasks m))" using n(1) by (rule Validate_distinct)
  have "distinct (map t_ID (chosen m d))" using dist by (simp add: chosen_def distinct_map_filter)
  then have "distinct (d_Ready d)" by (subst n(3))
  moreover have "statusOf state (t_ID t) = StatusPending \<and> dependenciesSucceeded t state"
    if mem: "t \<in> set (chosen m d)" for t
  proof -
    obtain xs ys where c: "chosen m d = xs @ t # ys" using split_list [OF mem] by blast
    show ?thesis using chain_at [OF n(4) [unfolded c]] by (simp add: picks_def)
  qed
  moreover have "owned (t_Owns t) \<inter> owned (t_Owns u) = {}"
    if "t \<in> set (chosen m d)" "u \<in> set (m_Tasks m)" "u \<noteq> t"
      "state (t_ID u) = Some StatusRunning \<or> t_ID u \<in> set (d_Ready d)" for t u
    using that by (intro chain_disjoint [OF n(4)]) (auto simp: startSel_def runningTasks_def chosen_def)
  ultimately show ?thesis by (simp add: chosen_def)
qed

text \<open>
  C2. Every task the scheduler calls ready is pending with all its dependencies succeeded, is
  listed once, and owns no file that a running task or another ready task owns.
\<close>

theorem Next_safe:
  assumes "Next m state = Inr d"
  shows "distinct (d_Ready d) \<and>
    (\<forall>t \<in> set (m_Tasks m). t_ID t \<in> set (d_Ready d) \<longrightarrow>
       statusOf state (t_ID t) = StatusPending \<and> dependenciesSucceeded t state \<and>
       (\<forall>u \<in> set (m_Tasks m). u \<noteq> t \<and>
          (state (t_ID u) = Some StatusRunning \<or> t_ID u \<in> set (d_Ready d)) \<longrightarrow>
          owned (t_Owns t) \<inter> owned (t_Owns u) = {}))"
  using assms by (rule Next_safe_core)

definition sample_state :: State where
  "sample_state = [''api'' \<mapsto> StatusRunning, ''web'' \<mapsto> StatusPending]"

lemma sample_next: "Next sample_manifest sample_state = Inr \<lparr>d_Ready = [''web''], d_Skipped = []\<rparr>"
  by code_simp

theorem Next_safe_witness:
  "owned [''src/web''] \<inter> owned [''src/api/**''] = {}"
  using Next_safe [OF sample_next] by (simp add: sample_manifest_def sample_task_def sample_state_def)

text \<open>What the loop keeps of the limits.\<close>

lemma chain_parallel:
  "chain m state skipped rc s ps \<Longrightarrow> ps \<noteq> [] \<Longrightarrow>
     rc + int (length (s_Ready s) + length ps) \<le> m_MaxParallel m"
proof -
  assume c: "chain m state skipped rc s ps" and ne: "ps \<noteq> []"
  then obtain xs p where ps: "ps = xs @ [p]" by (metis append_butlast_last_id)
  have "picks m state skipped rc (foldl extendSel s xs) p"
    using chain_at [of m state skipped rc s xs p "[]"] c ps by simp
  then show ?thesis by (simp add: picks_def foldl_extendSel ps)
qed

lemma chain_capacity:
  "chain m state skipped rc s ps \<Longrightarrow> ps \<noteq> [] \<Longrightarrow>
     \<not> exceeds (m_Capacity m) (foldl addUsed (s_Used s) ps)"
proof -
  assume c: "chain m state skipped rc s ps" and ne: "ps \<noteq> []"
  then obtain xs p where ps: "ps = xs @ [p]" by (metis append_butlast_last_id)
  have "picks m state skipped rc (foldl extendSel s xs) p"
    using chain_at [of m state skipped rc s xs p "[]"] c ps by simp
  then show ?thesis by (simp add: picks_def foldl_extendSel ps)
qed

definition memoryOf :: "Task list \<Rightarrow> int" where
  "memoryOf ts = sum_list (map (\<lambda>t. r_MemoryMB (t_Resources t)) ts)"

lemma memoryOf_nonneg: "\<forall>t \<in> set ts. 0 < r_MemoryMB (t_Resources t) \<Longrightarrow> 0 \<le> memoryOf ts"
  by (induction ts) (auto simp: memoryOf_def)

lemma addUsed_exact:
  assumes "\<forall>t \<in> set ts. 0 < r_MemoryMB (t_Resources t)" and "0 \<le> r_MemoryMB u"
    and "r_MemoryMB u + memoryOf ts < 2 ^ 63"
  shows "r_MemoryMB (foldl addUsed u ts) = r_MemoryMB u + memoryOf ts"
  using assms
proof (induction ts arbitrary: u)
  case Nil
  then show ?case by (simp add: memoryOf_def)
next
  case (Cons t ts)
  have "0 \<le> memoryOf ts" using Cons.prems(1) by (intro memoryOf_nonneg) simp
  then have "r_MemoryMB (addUsed u t) = r_MemoryMB u + r_MemoryMB (t_Resources t)"
    using Cons.prems unfolding addUsed_def by (simp add: memoryOf_def i64_id is_i64_def)
  then show ?case using Cons.IH [of "addUsed u t"] Cons.prems by (simp add: memoryOf_def algebra_simps)
qed

lemma chain_memory:
  assumes "chain m state skipped rc s ps" and "cap_MemoryMB (m_Capacity m) < 2 ^ 62"
    and "\<forall>t \<in> set ps. 0 < r_MemoryMB (t_Resources t) \<and> r_MemoryMB (t_Resources t) \<le> cap_MemoryMB (m_Capacity m)"
    and "0 \<le> r_MemoryMB (s_Used s)" and "r_MemoryMB (s_Used s) \<le> cap_MemoryMB (m_Capacity m)"
  shows "r_MemoryMB (s_Used s) + memoryOf ps \<le> cap_MemoryMB (m_Capacity m)"
  using assms
proof (induction ps arbitrary: s)
  case Nil
  then show ?case by (simp add: memoryOf_def)
next
  case (Cons t ps)
  have u: "r_MemoryMB (s_Used (extendSel s t)) = r_MemoryMB (s_Used s) + r_MemoryMB (t_Resources t)"
    using Cons.prems unfolding extendSel_def addUsed_def by (simp add: i64_id is_i64_def)
  have "\<not> exceeds (m_Capacity m) (s_Used (extendSel s t))"
    using Cons.prems(1) by (simp add: picks_def extendSel_def)
  then have "r_MemoryMB (s_Used (extendSel s t)) \<le> cap_MemoryMB (m_Capacity m)"
    by (simp add: exceeds_def)
  then show ?case
    using Cons.IH [of "extendSel s t"] Cons.prems u by (simp add: memoryOf_def algebra_simps)
qed

lemma Next_parallel:
  assumes "Next m state = Inr d" and "d_Ready d \<noteq> []"
  shows "int (length (runningTasks state (m_Tasks m)) + length (d_Ready d)) \<le> m_MaxParallel m"
proof -
  note n = Next_Inr [OF assms(1)]
  have ready: "length (d_Ready d) = length (chosen m d)" by (subst n(3)) simp
  with assms(2) have "chosen m d \<noteq> []" by auto
  from chain_parallel [OF n(4) this] show ?thesis by (simp add: startSel_def ready)
qed

text \<open>
  C4. A decision that starts tasks respects the limits: with the tasks already running it stays
  within the parallelism limit, the computed CPU total is not above the capacity, and below a
  capacity of \<open>2 ^ 62\<close> the exact memory total is within the capacity when the running tasks were.
\<close>

theorem Next_bounds:
  assumes "Next m state = Inr d" and "d_Ready d \<noteq> []"
  shows "int (length (runningTasks state (m_Tasks m)) + length (d_Ready d)) \<le> m_MaxParallel m \<and>
    \<not> f64_less (cap_CPU (m_Capacity m))
       (r_CPU (foldl addUsed noResources (runningTasks state (m_Tasks m) @ chosen m d))) \<and>
    (cap_MemoryMB (m_Capacity m) < 2 ^ 62 \<and>
     memoryOf (runningTasks state (m_Tasks m)) \<le> cap_MemoryMB (m_Capacity m) \<longrightarrow>
     memoryOf (runningTasks state (m_Tasks m) @ chosen m d) \<le> cap_MemoryMB (m_Capacity m))"
proof -
  let ?run = "runningTasks state (m_Tasks m)" and ?cap = "m_Capacity m"
  note n = Next_Inr [OF assms(1)]
  have ready: "length (d_Ready d) = length (chosen m d)" by (subst n(3)) simp
  with assms(2) have ne: "chosen m d \<noteq> []" by auto
  have "int (length ?run + length (d_Ready d)) \<le> m_MaxParallel m"
    using assms by (rule Next_parallel)
  moreover have "\<not> f64_less (cap_CPU ?cap) (r_CPU (foldl addUsed noResources (?run @ chosen m d)))"
    using chain_capacity [OF n(4) ne] by (simp add: startSel_def exceeds_def)
  moreover have "memoryOf (?run @ chosen m d) \<le> cap_MemoryMB ?cap"
    if cap: "cap_MemoryMB ?cap < 2 ^ 62" and run: "memoryOf ?run \<le> cap_MemoryMB ?cap"
  proof -
    have ok: "0 < r_MemoryMB (t_Resources t) \<and> r_MemoryMB (t_Resources t) \<le> cap_MemoryMB ?cap"
      if "t \<in> set (m_Tasks m)" for t
      using n(1) that by (simp add: Validate_None taskOk_def)
    have pos: "\<forall>t \<in> set ?run. 0 < r_MemoryMB (t_Resources t)"
      using ok by (simp add: runningTasks_def)
    have u: "r_MemoryMB (s_Used (startSel m state)) = memoryOf ?run"
      using addUsed_exact [OF pos, of noResources] cap run
      by (simp add: startSel_def noResources_def)
    have "memoryOf ?run + memoryOf (chosen m d) \<le> cap_MemoryMB ?cap"
      unfolding u [symmetric]
    proof (rule chain_memory [OF n(4) cap])
      show "\<forall>t \<in> set (chosen m d). 0 < r_MemoryMB (t_Resources t) \<and>
          r_MemoryMB (t_Resources t) \<le> cap_MemoryMB ?cap"
        using ok by (simp add: chosen_def)
      show "0 \<le> r_MemoryMB (s_Used (startSel m state))" unfolding u by (rule memoryOf_nonneg [OF pos])
      show "r_MemoryMB (s_Used (startSel m state)) \<le> cap_MemoryMB ?cap" unfolding u by (rule run)
    qed
    then show ?thesis by (simp add: memoryOf_def)
  qed
  ultimately show ?thesis by blast
qed

theorem Next_bounds_witness:
  "memoryOf (runningTasks sample_state (m_Tasks sample_manifest)) = 512 \<and>
   memoryOf (runningTasks sample_state (m_Tasks sample_manifest) @
     chosen sample_manifest \<lparr>d_Ready = [''web''], d_Skipped = []\<rparr>) \<le> 4096"
proof -
  have r: "memoryOf (runningTasks sample_state (m_Tasks sample_manifest)) = 512"
    and c: "cap_MemoryMB (m_Capacity sample_manifest) = 4096" by code_simp+
  show ?thesis using Next_bounds [OF sample_next] r c by simp
qed

definition wrap_manifest :: Manifest where
  "wrap_manifest =
     \<lparr>m_MaxParallel = 4, m_Capacity = \<lparr>cap_CPU = f64_of_int 4, cap_MemoryMB = 2 ^ 62\<rparr>,
      m_Tasks = [sample_task ''a'' ''a'' [] (2 ^ 62), sample_task ''b'' ''b'' [] (2 ^ 62)]\<rparr>"

text \<open>
  From a capacity of \<open>2 ^ 62\<close> megabytes on the total can wrap around, and tasks that together
  exceed the capacity are started together.
\<close>

theorem Next_memory_wraps:
  "Next wrap_manifest Map.empty = Inr \<lparr>d_Ready = [''a'', ''b''], d_Skipped = []\<rparr> \<and>
   memoryOf (m_Tasks wrap_manifest) > cap_MemoryMB (m_Capacity wrap_manifest)"
  by (intro conjI) code_simp+

end
