(* ===== verification/SchedulerPlan.thy ===== *)
theory SchedulerPlan
  imports Scheduler
begin

text \<open>
  The plan of waves (\<open>PlanWaves\<close> of \<open>packages/scheduler/scheduler.go\<close>): for a valid manifest the
  loop never reaches its deadlock error, and the waves it returns are a schedule.
\<close>

section \<open>The states of the loop\<close>

text \<open>Between two rounds every task has either succeeded or is pending.\<close>

definition doneState :: "string set \<Rightarrow> string set \<Rightarrow> State \<Rightarrow> bool" where
  "doneState ids D state \<longleftrightarrow>
     (\<forall>x \<in> ids. state x = Some (if x \<in> D then StatusSuccess else StatusPending))"

lemma setAll_apply: "setAll st state xs y = (if y \<in> set xs then Some st else state y)"
  unfolding setAll_def by (induction xs arbitrary: state) auto

lemma doneState_start: "doneState (set xs) {} (setAll StatusPending Map.empty xs)"
  by (simp add: doneState_def setAll_apply)

lemma doneState_wave:
  "doneState ids D state \<Longrightarrow> doneState ids (D \<union> set wave) (setAll StatusSuccess state wave)"
  by (simp add: doneState_def setAll_apply)

lemma doneState_status:
  assumes "doneState ids D state" and "x \<in> ids"
  shows "statusOf state x = (if x \<in> D then StatusSuccess else StatusPending)"
    and "state x \<noteq> Some StatusRunning"
  using assms by (simp_all add: doneState_def statusOf_def)

lemma doneState_deps:
  assumes "doneState ids D state" and "set (t_DependsOn t) \<subseteq> ids"
  shows "dependenciesSucceeded t state \<longleftrightarrow> set (t_DependsOn t) \<subseteq> D" and "\<not> dependencyFailed t state"
  using assms doneState_status(1) [OF assms(1)]
  by (auto simp: dependenciesSucceeded_def dependencyFailed_def subset_iff split: if_splits)

lemma skipLoop_none:
  "\<forall>t \<in> set ts. \<not> dependencyFailed t state \<Longrightarrow> skipLoop state ts sk = sk"
  by (induction ts) auto

section \<open>A round makes progress\<close>

text \<open>The first task of a wave always fits: nothing runs, so it is weighed alone.\<close>

lemma first_fits:
  assumes "taskOk cap t" and "is_i64 (cap_MemoryMB cap)"
  shows "\<not> exceeds cap (addUsed noResources t)"
proof -
  have "is_i64 (r_MemoryMB (t_Resources t))"
    using assms by (simp add: taskOk_def is_i64_def)
  with assms(1) show ?thesis
    by (simp add: exceeds_def addUsed_def noResources_def f64_zero_add i64_id taskOk_def not_less)
qed

lemma selectLoop_progress:
  assumes "\<exists>t \<in> set ts. statusOf state (t_ID t) = StatusPending \<and> dependenciesSucceeded t state"
    and "\<forall>t \<in> set ts. taskOk (m_Capacity m) t" and "is_i64 (cap_MemoryMB (m_Capacity m))"
    and "0 < m_MaxParallel m"
  shows "s_Ready (selectLoop m state [] 0 ts \<lparr>s_Ready = [], s_Selected = [], s_Used = noResources\<rparr>) \<noteq> []"
  using assms
proof (induction ts)
  case Nil
  then show ?case by simp
next
  case (Cons t ts)
  let ?s = "\<lparr>s_Ready = [], s_Selected = [], s_Used = noResources\<rparr>"
  show ?case
  proof (cases "statusOf state (t_ID t) = StatusPending \<and> dependenciesSucceeded t state")
    case True
    have f: "\<not> exceeds (m_Capacity m) (addUsed noResources t)"
      using Cons.prems by (intro first_fits) simp_all
    have e: "selectLoop m state [] 0 (t # ts) ?s = selectLoop m state [] 0 ts (extendSel ?s t)"
      using True f Cons.prems(4) by (simp add: extendSel_def conflictsAny_def)
    obtain ps where "selectLoop m state [] 0 ts (extendSel ?s t) = foldl extendSel (extendSel ?s t) ps"
      using selectLoop_chain [of ts m state "[]" 0 "extendSel ?s t"] by blast
    then show ?thesis unfolding e by (simp add: foldl_extendSel extendSel_def)
  next
    case False
    then have e: "selectLoop m state [] 0 (t # ts) ?s = selectLoop m state [] 0 ts ?s" by auto
    have "\<exists>t \<in> set ts. statusOf state (t_ID t) = StatusPending \<and> dependenciesSucceeded t state"
      using Cons.prems(1) False by auto
    then show ?thesis unfolding e using Cons.prems by (intro Cons.IH) simp_all
  qed
qed

text \<open>What a valid manifest with trimmed names gives the loop.\<close>

definition plannable :: "Manifest \<Rightarrow> bool" where
  "plannable m \<longleftrightarrow> Validate m = None \<and> trimmed (m_Tasks m) \<and> is_i64 (cap_MemoryMB (m_Capacity m))"

lemma plannable_facts:
  assumes "plannable m"
  shows "0 < m_MaxParallel m" "\<forall>t \<in> set (m_Tasks m). taskOk (m_Capacity m) t"
    "distinct (map t_ID (m_Tasks m))"
    "\<forall>t \<in> set (m_Tasks m). set (t_DependsOn t) \<subseteq> t_ID ` set (m_Tasks m)"
    "acyclic (depends (m_Tasks m))"
  using assms Validate_iff [of m] by (simp_all add: plannable_def)

lemma depends_finite: "finite (depends ts)"
proof -
  have "depends ts = (\<Union>t \<in> set ts. (\<lambda>d. (d, t_ID t)) ` set (t_DependsOn t))"
    by (auto simp: depends_def)
  then show ?thesis by simp
qed

text \<open>Among the tasks not done, one has all its dependencies done.\<close>

lemma next_task:
  assumes p: "plannable m" and u: "u \<in> set (m_Tasks m)" "t_ID u \<notin> D"
  shows "\<exists>t \<in> set (m_Tasks m). t_ID t \<notin> D \<and> set (t_DependsOn t) \<subseteq> D"
proof -
  let ?r = "depends (m_Tasks m)" and ?Q = "t_ID ` set (m_Tasks m) - D"
  have "wf ?r" using plannable_facts(5) [OF p] depends_finite by (rule finite_acyclic_wf [rotated])
  moreover have "t_ID u \<in> ?Q" using u by simp
  ultimately obtain z where z: "z \<in> ?Q" "\<forall>y. (y, z) \<in> ?r \<longrightarrow> y \<notin> ?Q"
    by (rule wfE_min) blast
  then obtain t where t: "t \<in> set (m_Tasks m)" "z = t_ID t" by auto
  have "d \<in> D" if d: "d \<in> set (t_DependsOn t)" for d
  proof -
    have "(d, z) \<in> ?r" using t d by (auto simp: depends_def)
    with z(2) have "d \<notin> ?Q" by blast
    moreover have "d \<in> t_ID ` set (m_Tasks m)" using plannable_facts(4) [OF p] t(1) d by auto
    ultimately show ?thesis by blast
  qed
  with z t show ?thesis by auto
qed

text \<open>One round of the loop on a state of the plan.\<close>

lemma plan_round:
  assumes p: "plannable m" and s: "doneState (t_ID ` set (m_Tasks m)) D state"
    and todo: "\<not> t_ID ` set (m_Tasks m) \<subseteq> D"
  obtains d where "Next m state = Inr d" "d_Skipped d = []" "d_Ready d \<noteq> []"
    "set (d_Ready d) \<subseteq> t_ID ` set (m_Tasks m) - D"
    "\<forall>t \<in> set (m_Tasks m). t_ID t \<in> set (d_Ready d) \<longrightarrow> set (t_DependsOn t) \<subseteq> D"
proof -
  let ?ids = "t_ID ` set (m_Tasks m)"
  note f = plannable_facts [OF p]
  let ?d = "decide m state"
  have n: "Next m state = Inr ?d" using p by (simp add: Next_def plannable_def)
  have run: "runningTasks state (m_Tasks m) = []"
    using doneState_status(2) [OF s] by (simp add: runningTasks_def filter_empty_conv)
  have skip: "skipLoop state (m_Tasks m) [] = []"
    using f(4) doneState_deps(2) [OF s] by (intro skipLoop_none) blast
  obtain u where "u \<in> set (m_Tasks m)" "t_ID u \<notin> D" using todo by auto
  from next_task [OF p this] obtain t where "t \<in> set (m_Tasks m)" "t_ID t \<notin> D" "set (t_DependsOn t) \<subseteq> D"
    by blast
  then have "\<exists>t \<in> set (m_Tasks m). statusOf state (t_ID t) = StatusPending \<and> dependenciesSucceeded t state"
    using doneState_status(1) [OF s] doneState_deps(1) [OF s] f(4) by (metis (full_types) image_eqI)
  then have ne: "d_Ready ?d \<noteq> []"
    using selectLoop_progress [of "m_Tasks m" state m] f(1,2) p
    by (simp add: decide_def Let_def run skip plannable_def)
  have ready: "t_ID t \<notin> D \<and> set (t_DependsOn t) \<subseteq> D"
    if "t \<in> set (m_Tasks m)" "t_ID t \<in> set (d_Ready ?d)" for t
  proof -
    have "statusOf state (t_ID t) = StatusPending \<and> dependenciesSucceeded t state"
      using Next_safe_core [OF n] that by blast
    then show ?thesis
      using that(1) doneState_status(1) [OF s] doneState_deps(1) [OF s, of t] f(4)
      by (metis (full_types) Status.distinct(3) image_eqI)
  qed
  have sub: "set (d_Ready ?d) \<subseteq> ?ids"
    by (subst Next_Inr(3) [OF n]) (auto simp: chosen_def)
  show thesis
  proof (rule that [OF n _ ne])
    show "d_Skipped ?d = []" by (simp add: decide_def Let_def skip)
    show "set (d_Ready ?d) \<subseteq> ?ids - D" using sub ready by fastforce
    show "\<forall>t \<in> set (m_Tasks m). t_ID t \<in> set (d_Ready ?d) \<longrightarrow> set (t_DependsOn t) \<subseteq> D"
      using ready by blast
  qed
qed

section \<open>The plan\<close>

text \<open>A list of waves that is a schedule of the tasks of a manifest.\<close>

definition waveOk :: "Manifest \<Rightarrow> string list \<Rightarrow> bool" where
  "waveOk m w \<longleftrightarrow> w \<noteq> [] \<and> int (length w) \<le> m_MaxParallel m \<and>
     (\<forall>t \<in> set (m_Tasks m). \<forall>u \<in> set (m_Tasks m). t_ID t \<in> set w \<and> t_ID u \<in> set w \<and> u \<noteq> t \<longrightarrow>
        owned (t_Owns t) \<inter> owned (t_Owns u) = {})"

definition schedule :: "Manifest \<Rightarrow> string list list \<Rightarrow> bool" where
  "schedule m ws \<longleftrightarrow> distinct (concat ws) \<and> set (concat ws) \<subseteq> t_ID ` set (m_Tasks m) \<and>
     (\<forall>w \<in> set ws. waveOk m w) \<and>
     (\<forall>us w vs. ws = us @ w # vs \<longrightarrow>
        (\<forall>t \<in> set (m_Tasks m). t_ID t \<in> set w \<longrightarrow> set (t_DependsOn t) \<subseteq> set (concat us)))"

lemma schedule_snoc:
  assumes "schedule m ws" and "waveOk m w" and "distinct w"
    and "set w \<subseteq> t_ID ` set (m_Tasks m) - set (concat ws)"
    and "\<forall>t \<in> set (m_Tasks m). t_ID t \<in> set w \<longrightarrow> set (t_DependsOn t) \<subseteq> set (concat ws)"
  shows "schedule m (ws @ [w])"
proof -
  have "\<forall>t \<in> set (m_Tasks m). t_ID t \<in> set v \<longrightarrow> set (t_DependsOn t) \<subseteq> set (concat us)"
    if e: "ws @ [w] = us @ v # vs" for us v vs
  proof (cases vs rule: rev_cases)
    case Nil
    with e assms(5) show ?thesis by simp
  next
    case (snoc vs' x)
    with e have "ws = us @ v # vs'" by simp
    with assms(1) show ?thesis unfolding schedule_def by blast
  qed
  with assms show ?thesis unfolding schedule_def by (auto simp: disjoint_iff)
qed

lemma round_wave:
  assumes n: "Next m state = Inr d" and ne: "d_Ready d \<noteq> []"
  shows "waveOk m (d_Ready d)" and "distinct (d_Ready d)"
proof -
  have dj: "owned (t_Owns t) \<inter> owned (t_Owns u) = {}"
    if "t \<in> set (m_Tasks m)" "u \<in> set (m_Tasks m)" "t_ID t \<in> set (d_Ready d)" "t_ID u \<in> set (d_Ready d)" "u \<noteq> t"
    for t u
    using Next_safe_core [OF n] that by blast
  have "int (length (d_Ready d)) \<le> m_MaxParallel m"
    using Next_parallel [OF n ne] by simp
  with dj ne show "waveOk m (d_Ready d)" unfolding waveOk_def by blast
  show "distinct (d_Ready d)" using Next_safe_core [OF n] by blast
qed

lemma planLoop_schedule:
  assumes p: "plannable m" and s: "doneState (t_ID ` set (m_Tasks m)) (set (concat ws)) state"
    and ok: "schedule m ws" and r: "r = int (length (m_Tasks m)) - int (length (concat ws))"
  shows "\<exists>out. planLoop m state r ws = Inr out \<and> schedule m out \<and>
    set (concat out) = t_ID ` set (m_Tasks m)"
  using s ok r
proof (induction "nat r" arbitrary: r ws state rule: less_induct)
  case less
  let ?ids = "t_ID ` set (m_Tasks m)"
  have card: "card ?ids = length (m_Tasks m)"
    using distinct_card [OF plannable_facts(3) [OF p]] by simp
  have len: "length (concat ws) = card (set (concat ws))" and sub: "set (concat ws) \<subseteq> ?ids"
    using less.prems(2) distinct_card [of "concat ws"] unfolding schedule_def by simp_all
  show ?case
  proof (cases "?ids \<subseteq> set (concat ws)")
    case True
    with sub have e: "set (concat ws) = ?ids" by blast
    with less.prems(3) len card have "r = 0" by simp
    then have "planLoop m state r ws = Inr ws" by (subst planLoop.simps) simp
    with less.prems(2) e show ?thesis by blast
  next
    case False
    then have "set (concat ws) \<subset> ?ids" using sub by blast
    then have "card (set (concat ws)) < card ?ids" by (rule psubset_card_mono [rotated]) simp
    with less.prems(3) len card have pos: "0 < r" by simp
    from plan_round [OF p less.prems(1) False] obtain d where n: "Next m state = Inr d"
      and sk: "d_Skipped d = []" and ne: "d_Ready d \<noteq> []"
      and new: "set (d_Ready d) \<subseteq> ?ids - set (concat ws)"
      and deps: "\<forall>t \<in> set (m_Tasks m). t_ID t \<in> set (d_Ready d) \<longrightarrow> set (t_DependsOn t) \<subseteq> set (concat ws)"
      by blast
    let ?w = "d_Ready d"
    let ?r = "r - int (length ?w)" and ?st = "setAll StatusSuccess state ?w"
    have step: "planLoop m state r ws = planLoop m ?st ?r (ws @ [?w])"
      using pos ne by (subst planLoop.simps) (simp add: n sk setAll_def Let_def)
    have "doneState ?ids (set (concat (ws @ [?w]))) ?st"
      using doneState_wave [OF less.prems(1), of ?w] by simp
    moreover have "schedule m (ws @ [?w])"
      using less.prems(2) round_wave [OF n ne] new deps by (rule schedule_snoc)
    moreover have "?r = int (length (m_Tasks m)) - int (length (concat (ws @ [?w])))"
      using less.prems(3) by simp
    moreover have "nat ?r < nat r" using pos ne by (cases ?w) simp_all
    ultimately show ?thesis unfolding step by (rule less.hyps [rotated 1])
  qed
qed



end
