(* ===== verification/RepoProtocol.thy ===== *)
theory RepoProtocol
  imports RepoPath
begin

text \<open>
  The repository protocol (\<open>packages/repoprotocol\<close>): the configuration a repository declares,
  the work items with their lease, and the evidence bundles that gate landing.

  Go's named string types are datatypes with the declared constants and one constructor for any
  other string.  A \<open>time.Time\<close> is its number of nanoseconds since Go's zero time; a
  \<open>map\<close> that the code ranges over is the list of its entries in the order of one iteration.
\<close>

section \<open>Data\<close>

type_synonym gotime = int
type_synonym duration = int

datatype Isolation = IsolationNone | IsolationWorktree | IsolationContainer | IsolationOther string

datatype RiskLevel = RiskLow | RiskMedium | RiskHigh | RiskCritical | RiskOther string

datatype WorkState = WorkDraft | WorkReady | WorkClaimed | WorkImplementing | WorkVerifying
  | WorkReviewing | WorkReadyToLand | WorkLanded | WorkFailed | WorkCancelled | WorkOther string

datatype GateStatus = GatePending | GatePassed | GateFailed | GateSkipped | GateOther string

record Commands =
  cm_Doctor :: string
  cm_Dev :: string
  cm_Logs :: string

record ReviewConfig =
  rv_Independent :: bool
  rv_ExactHead :: bool

record VerificationProfile =
  vp_Command :: string
  vp_TimeoutSeconds :: int

record WorkConfig =
  wc_Isolation :: Isolation
  wc_MaxParallelCost :: int
  wc_RequireCleanHandoff :: bool

record RiskRule =
  rr_Paths :: "string list"
  rr_Level :: RiskLevel
  rr_Requires :: "string list"

record Config =
  c_Version :: int
  c_Commands :: Commands
  c_Verification :: "(string \<times> VerificationProfile) list"
  c_Work :: WorkConfig
  c_Review :: ReviewConfig
  c_Risk :: "RiskRule list"

record GateEvidence =
  g_Name :: string
  g_Status :: GateStatus
  g_Command :: string
  g_Output :: string

record EvidenceBundle =
  e_WorkItemID :: string
  e_BaseSHA :: string
  e_HeadSHA :: string
  e_Gates :: "GateEvidence list"

record WorkItem =
  w_ID :: string
  w_Repository :: string
  w_Objective :: string
  w_AcceptanceCriteria :: "string list"
  w_ParentID :: string
  w_DiscoveredFromID :: string
  w_DependsOn :: "string list"
  w_OwnershipPaths :: "string list"
  w_Risk :: RiskLevel
  w_Cost :: int
  w_RequiredGates :: "string list"
  w_BaseSHA :: string
  w_ClaimedBy :: string
  w_LeaseUntil :: "gotime option"
  w_State :: WorkState

definition CurrentVersion :: int where
  "CurrentVersion = 1"

definition GateIndependentReview :: string where
  "GateIndependentReview = ''independent_review''"

definition GateHumanApproval :: string where
  "GateHumanApproval = ''human_approval''"

text \<open>One constructor for each message of the package, with the values the message prints.\<close>

datatype proto_error =
    PathNotRelative
  | PathEscapes
  | UnsupportedVersion int
  | NoVerificationProfile
  | ProfileNameRequired
  | ProfileCommandRequired string
  | ProfileTimeoutNegative string
  | UnsupportedIsolation Isolation
  | MaxParallelCostNotPositive
  | RiskRuleLevel nat RiskLevel
  | RiskRuleNoPath nat
  | RiskRulePath nat string proto_error
  | RiskRuleUnknownGate nat string
  | CandidateHeadRequired
  | EvidenceBaseRequired
  | EvidenceHeadRequired
  | EvidenceHeadMismatch string string
  | EvidenceNoGate
  | EvidenceGateName
  | EvidenceGateNotPassed string GateStatus
  | ItemIDRequired
  | ItemRepositoryRequired
  | ItemObjectiveRequired
  | ItemNoOwnership
  | ItemOwnershipPath string proto_error
  | ItemRisk RiskLevel
  | ItemCostNotPositive
  | ItemBaseRequired
  | ItemState WorkState
  | ClaimedByRequired
  | LeaseUntilRequired

section \<open>Path normalisation and patterns\<close>

definition normalizeRepositoryPath :: "string \<Rightarrow> proto_error + string" where
  "normalizeRepositoryPath value0 =
     (let v1 = TrimSpace (ReplaceBackslash value0);
          v2 = TrimPrefix v1 ''./'';
          v3 = TrimSuffix v2 ''/''
      in if v3 = [] \<or> HasPrefix v3 ''/'' then Inl PathNotRelative
         else (let cleaned = path_Clean v3 in
           if cleaned = ''.'' \<or> cleaned = ''..'' \<or> HasPrefix cleaned ''../'' then Inl PathEscapes
           else Inr cleaned))"

definition normalizePattern :: "string \<Rightarrow> proto_error + string" where
  "normalizePattern value0 =
     (let v1 = TrimSpace (ReplaceBackslash value0);
          v2 = TrimPrefix v1 ''./'';
          (suffix, v3) =
            (if HasSuffix v2 ''/**'' then (''/**'', TrimSuffix v2 ''/**'')
             else if HasSuffix v2 ''/*'' then (''/*'', TrimSuffix v2 ''/*'')
             else ('''', v2))
      in case normalizeRepositoryPath v3 of
           Inl e \<Rightarrow> Inl e
         | Inr normalized \<Rightarrow> Inr (normalized @ suffix))"

definition pathMatches :: "string \<Rightarrow> string \<Rightarrow> bool" where
  "pathMatches pattern changed =
     (case normalizePattern pattern of
        Inl _ \<Rightarrow> False
      | Inr np \<Rightarrow>
        (case normalizeRepositoryPath changed of
           Inl _ \<Rightarrow> False
         | Inr nc \<Rightarrow>
           if HasSuffix np ''/**'' then
             (let base = TrimSuffix np ''/**'' in nc = base \<or> HasPrefix nc (base @ ''/''))
           else if HasSuffix np ''/*'' then
             (let base = TrimSuffix np ''/*'' in
              if \<not> HasPrefix nc (base @ ''/'') then False
              else (let remainder = TrimPrefix nc (base @ ''/'')
                    in remainder \<noteq> [] \<and> \<not> ContainsChar remainder CHR 0x2F))
           else nc = np))"

definition ruleMatches :: "RiskRule \<Rightarrow> string list \<Rightarrow> bool" where
  "ruleMatches rule changedPaths \<longleftrightarrow>
     (\<exists>pattern \<in> set (rr_Paths rule). \<exists>changed \<in> set changedPaths. pathMatches pattern changed)"

section \<open>Configuration\<close>

fun validRisk :: "RiskLevel \<Rightarrow> bool" where
  "validRisk (RiskOther _) = False"
| "validRisk _ = True"

fun validWorkState :: "WorkState \<Rightarrow> bool" where
  "validWorkState (WorkOther _) = False"
| "validWorkState _ = True"

definition knownGate :: "Config \<Rightarrow> string \<Rightarrow> bool" where
  "knownGate c gate0 =
     (let gate = TrimSpace gate0 in
      if gate = GateIndependentReview \<or> gate = GateHumanApproval then True
      else map_of (c_Verification c) gate \<noteq> None)"

definition validateProfile :: "string \<times> VerificationProfile \<Rightarrow> proto_error option" where
  "validateProfile np =
     (let name = TrimSpace (fst np); profile = snd np in
      err_then (err_if (name = []) ProfileNameRequired)
      (err_then (err_if (TrimSpace (vp_Command profile) = []) (ProfileCommandRequired name))
        (err_if (vp_TimeoutSeconds profile < 0) (ProfileTimeoutNegative name))))"

definition validateRiskRule :: "Config \<Rightarrow> nat \<Rightarrow> RiskRule \<Rightarrow> proto_error option" where
  "validateRiskRule c i rule =
     err_then (err_if (\<not> validRisk (rr_Level rule)) (RiskRuleLevel i (rr_Level rule)))
     (err_then (err_if (rr_Paths rule = []) (RiskRuleNoPath i))
     (err_then
       (first_err (\<lambda>raw. case normalizePattern raw of
           Inl e \<Rightarrow> Some (RiskRulePath i raw e) | Inr _ \<Rightarrow> None) (rr_Paths rule))
       (first_err (\<lambda>gate. err_if (\<not> knownGate c gate) (RiskRuleUnknownGate i gate))
         (rr_Requires rule))))"

definition Config_Validate :: "Config \<Rightarrow> proto_error option" where
  "Config_Validate c =
     err_then (err_if (c_Version c \<noteq> CurrentVersion) (UnsupportedVersion (c_Version c)))
     (err_then (err_if (c_Verification c = []) NoVerificationProfile)
     (err_then (first_err validateProfile (c_Verification c))
     (err_then
       (case wc_Isolation (c_Work c) of
          IsolationOther s \<Rightarrow> Some (UnsupportedIsolation (IsolationOther s)) | _ \<Rightarrow> None)
     (err_then (err_if (wc_MaxParallelCost (c_Work c) \<le> 0) MaxParallelCostNotPositive)
       (first_err_idx (validateRiskRule c) 0 (c_Risk c))))))"

text \<open>The inner loop of \<open>RequiredGatesForPaths\<close>: append what was not seen before.\<close>

fun addGates :: "string list \<Rightarrow> string list \<Rightarrow> string list" where
  "addGates result [] = result"
| "addGates result (gate # gates) =
     (if List.member result gate then addGates result gates else addGates (result @ [gate]) gates)"

fun requiredGatesLoop :: "string list \<Rightarrow> string list \<Rightarrow> RiskRule list \<Rightarrow> string list" where
  "requiredGatesLoop changedPaths result [] = result"
| "requiredGatesLoop changedPaths result (rule # rules) =
     (if \<not> ruleMatches rule changedPaths then requiredGatesLoop changedPaths result rules
      else requiredGatesLoop changedPaths (addGates result (rr_Requires rule)) rules)"

definition RequiredGatesForPaths :: "Config \<Rightarrow> string list \<Rightarrow> string list" where
  \<comment> \<open>the keys of the code's map \<open>seen\<close> are the elements of \<open>result\<close>\<close>
  "RequiredGatesForPaths c changedPaths = requiredGatesLoop changedPaths [] (c_Risk c)"

section \<open>Evidence\<close>

definition ValidateHead :: "EvidenceBundle \<Rightarrow> string \<Rightarrow> proto_error option" where
  "ValidateHead e candidateHead0 =
     (let candidateHead = TrimSpace candidateHead0 in
      err_then (err_if (candidateHead = []) CandidateHeadRequired)
      (err_then (err_if (TrimSpace (e_BaseSHA e) = []) EvidenceBaseRequired)
      (err_then (err_if (TrimSpace (e_HeadSHA e) = []) EvidenceHeadRequired)
      (err_then
        (err_if (e_HeadSHA e \<noteq> candidateHead) (EvidenceHeadMismatch (e_HeadSHA e) candidateHead))
      (err_then (err_if (e_Gates e = []) EvidenceNoGate)
        (first_err (\<lambda>gate.
            err_then (err_if (TrimSpace (g_Name gate) = []) EvidenceGateName)
              (err_if (g_Status gate \<noteq> GatePassed)
                (EvidenceGateNotPassed (g_Name gate) (g_Status gate))))
          (e_Gates e)))))))"

section \<open>Work items and leases\<close>

definition WorkItem_Validate :: "WorkItem \<Rightarrow> proto_error option" where
  "WorkItem_Validate w =
     err_then (err_if (TrimSpace (w_ID w) = []) ItemIDRequired)
     (err_then (err_if (TrimSpace (w_Repository w) = []) ItemRepositoryRequired)
     (err_then (err_if (TrimSpace (w_Objective w) = []) ItemObjectiveRequired)
     (err_then (err_if (w_OwnershipPaths w = []) ItemNoOwnership)
     (err_then
       (first_err (\<lambda>raw. case normalizePattern raw of
           Inl e \<Rightarrow> Some (ItemOwnershipPath raw e) | Inr _ \<Rightarrow> None) (w_OwnershipPaths w))
     (err_then (err_if (\<not> validRisk (w_Risk w)) (ItemRisk (w_Risk w)))
     (err_then (err_if (w_Cost w \<le> 0) ItemCostNotPositive)
     (err_then (err_if (TrimSpace (w_BaseSHA w) = []) ItemBaseRequired)
     (err_then (err_if (\<not> validWorkState (w_State w)) (ItemState (w_State w)))
       (if w_State w = WorkClaimed then
          err_then (err_if (TrimSpace (w_ClaimedBy w) = []) ClaimedByRequired)
            (err_if (w_LeaseUntil w = None) LeaseUntilRequired)
        else None)))))))))"

definition CanClaim :: "WorkItem \<Rightarrow> bool" where
  "CanClaim w \<longleftrightarrow> w_State w = WorkReady"

definition HasActiveLease :: "WorkItem \<Rightarrow> gotime \<Rightarrow> bool" where
  "HasActiveLease w now \<longleftrightarrow>
     TrimSpace (w_ClaimedBy w) \<noteq> [] \<and>
     (case w_LeaseUntil w of None \<Rightarrow> False | Some u \<Rightarrow> now < u)"

definition ClaimableAt :: "WorkItem \<Rightarrow> gotime \<Rightarrow> bool" where
  "ClaimableAt w now =
     (case w_State w of
        WorkReady \<Rightarrow> True
      | WorkClaimed \<Rightarrow> \<not> HasActiveLease w now
      | _ \<Rightarrow> False)"

datatype claim_error = ItemIsNil | ClaimHolderRequired | ClaimTTLNotPositive
  | ActiveLeaseHeld string string | NotClaimable string WorkState

text \<open>\<open>Claim\<close> writes through its receiver: the new item is the result of a nil error.\<close>

definition Claim :: "WorkItem option \<Rightarrow> string \<Rightarrow> gotime \<Rightarrow> duration \<Rightarrow> claim_error + WorkItem" where
  "Claim receiver holder0 now ttl =
     (case receiver of
        None \<Rightarrow> Inl ItemIsNil
      | Some w \<Rightarrow>
        (let holder = TrimSpace holder0 in
         if holder = [] then Inl ClaimHolderRequired
         else if ttl \<le> 0 then Inl ClaimTTLNotPositive
         else if w_State w = WorkClaimed \<and> HasActiveLease w now
         then Inl (ActiveLeaseHeld (w_ID w) (w_ClaimedBy w))
         else if \<not> ClaimableAt w now then Inl (NotClaimable (w_ID w) (w_State w))
         else Inr (w\<lparr>w_State := WorkClaimed, w_ClaimedBy := holder,
                     w_LeaseUntil := Some (now + ttl)\<rparr>)))"

section \<open>Paths and patterns: facts\<close>

lemma slash_text: "''/'' = slash"
  by (simp add: slash_def)

lemma normalizeRepositoryPath_repo_path:
  assumes "normalizeRepositoryPath s = Inr p"
  shows "repo_path p"
proof -
  define v where "v = TrimSuffix (TrimPrefix (TrimSpace (ReplaceBackslash s)) ''./'') ''/''"
  have n: "normalizeRepositoryPath s =
      (if v = [] \<or> HasPrefix v slash then Inl PathNotRelative
       else if escapes (path_Clean v) then Inl PathEscapes else Inr (path_Clean v))"
    unfolding normalizeRepositoryPath_def escapes_def v_def Let_def slash_text ..
  with assms have "\<not> HasPrefix v slash" "\<not> escapes (path_Clean v)" "p = path_Clean v"
    by (auto split: if_splits)
  then show ?thesis using escapes_Clean by simp
qed

interpretation protoPath: path_normaliser normalizeRepositoryPath
  by unfold_locales (rule normalizeRepositoryPath_repo_path)

text \<open>
  A repository path that is accepted stays inside the repository: it is not empty, not absolute,
  and none of its components is the parent directory.
\<close>

theorem normalizeRepositoryPath_inside:
  assumes "normalizeRepositoryPath s = Inr p"
  shows "p \<noteq> [] \<and> \<not> HasPrefix p ''/'' \<and> ''..'' \<notin> set (components p)"
  using protoPath.norm_inside [OF assms] by (simp add: slash_def)

theorem normalizeRepositoryPath_inside_witness:
  "normalizeRepositoryPath ''./src//api/../web/'' = Inr ''src/web'' \<and> ''..'' \<notin> set (components ''src/web'')"
proof -
  have n: "normalizeRepositoryPath ''./src//api/../web/'' = Inr ''src/web''" by code_simp
  from normalizeRepositoryPath_inside [OF n] n show ?thesis by blast
qed

lemma suffix_component:
  assumes "CHR 0x2F \<notin> set w"
  shows "HasSuffix s (slash @ w) \<longleftrightarrow> (\<exists>bs. bs \<noteq> [] \<and> components s = bs @ [w])"
proof
  assume "HasSuffix s (slash @ w)"
  then obtain b where "s = b @ CHR 0x2F # w" by (auto simp: go_string suffix_def slash_def)
  with assms have "components s = components b @ [w]"
    by (simp add: components_def split_on_append_sep split_on_no_sep)
  then show "\<exists>bs. bs \<noteq> [] \<and> components s = bs @ [w]" by (auto simp: components_def)
next
  assume "\<exists>bs. bs \<noteq> [] \<and> components s = bs @ [w]"
  then obtain bs where bs: "bs \<noteq> []" "components s = bs @ [w]" by blast
  have "s = join_with slash (components s)" by (simp add: components_def slash_def join_split)
  with bs have "s = join_with slash bs @ slash @ w" by (simp add: join_with_append)
  then show "HasSuffix s (slash @ w)" by (metis HasSuffix_append)
qed

lemma suffix_component_base:
  assumes "CHR 0x2F \<notin> set w" and "HasSuffix s (slash @ w)"
  shows "components s = components (TrimSuffix s (slash @ w)) @ [w]"
proof -
  from assms(2) obtain b where "s = b @ slash @ w" by (auto simp: go_string suffix_def)
  moreover from this have "TrimSuffix s (slash @ w) = b" using TrimSuffix_append by simp
  ultimately show ?thesis
    using assms(1) by (simp add: components_def slash_def split_on_append_sep split_on_no_sep)
qed

text \<open>
  What a pattern means, on components: \<open>d/**\<close> matches \<open>d\<close> and everything below it, \<open>d/*\<close> the
  direct children of \<open>d\<close>, and any other pattern itself.
\<close>

definition glob :: "string list \<Rightarrow> string list \<Rightarrow> bool" where
  "glob ps cs =
     (if 1 < length ps \<and> last ps = ''**'' then prefix (butlast ps) cs
      else if 1 < length ps \<and> last ps = ''*''
      then prefix (butlast ps) cs \<and> length cs = length ps
      else cs = ps)"

lemma glob_suffix_case:
  assumes "CHR 0x2F \<notin> set w"
  shows "HasSuffix s (slash @ w) \<longleftrightarrow> 1 < length (components s) \<and> last (components s) = w"
proof -
  have "(\<exists>bs. bs \<noteq> [] \<and> components s = bs @ [w]) \<longleftrightarrow>
      1 < length (components s) \<and> last (components s) = w"
    by (cases "components s" rule: rev_cases) auto
  then show ?thesis using suffix_component [OF assms] by simp
qed

lemma direct_child:
  assumes "repo_path nc"
  shows "HasPrefix nc (b @ slash) \<and> TrimPrefix nc (b @ slash) \<noteq> [] \<and>
      \<not> ContainsChar (TrimPrefix nc (b @ slash)) CHR 0x2F
    \<longleftrightarrow> prefix (components b) (components nc) \<and> length (components nc) = Suc (length (components b))"
    (is "?l \<longleftrightarrow> ?r")
proof
  assume ?l
  then obtain r where r: "nc = b @ CHR 0x2F # r" by (auto simp: go_string prefix_def slash_def)
  then have "TrimPrefix nc (b @ slash) = r"
    using TrimPrefix_append [of "b @ slash" r] by (simp add: slash_def)
  with \<open>?l\<close> have "CHR 0x2F \<notin> set r" by (simp add: ContainsChar_def)
  with r have "components nc = components b @ [r]"
    by (simp add: components_def split_on_append_sep split_on_no_sep)
  then show ?r by simp
next
  assume ?r
  then obtain zs where zs: "components nc = components b @ zs" "length zs = 1"
    by (auto simp: prefix_def)
  then obtain x where x: "components nc = components b @ [x]"
    by (cases zs) auto
  have "nc = join_with slash (components nc)" "b = join_with slash (components b)"
    by (simp_all add: components_def slash_def join_split)
  moreover have "components b \<noteq> []" by (simp add: components_def)
  ultimately have "nc = b @ slash @ x" using x by (metis join_with.simps(2) join_with_append list.discI)
  moreover have "x \<noteq> []" using repo_path_component [OF assms, of x] x by simp
  moreover have "CHR 0x2F \<notin> set x" using split_on_words [of x "CHR 0x2F" nc] x by (simp add: components_def)
  ultimately show ?l using TrimPrefix_append [of "b @ slash" x] by (simp add: ContainsChar_def go_string)
qed

text \<open>
  C30. A pattern matches a changed path exactly when both normalise and the components of the
  path are matched by the components of the pattern: the textual tests of \<open>pathMatches\<close> (suffix,
  prefix, trimmed remainder) decide containment in the directory tree.
\<close>

theorem pathMatches_glob:
  "pathMatches pattern changed \<longleftrightarrow>
     (\<exists>np nc. normalizePattern pattern = Inr np \<and> normalizeRepositoryPath changed = Inr nc \<and>
        glob (components np) (components nc))"
proof (cases "normalizePattern pattern")
  case (Inl e)
  then show ?thesis by (simp add: pathMatches_def)
next
  case np: (Inr np)
  show ?thesis
  proof (cases "normalizeRepositoryPath changed")
    case (Inl e)
    with np show ?thesis by (simp add: pathMatches_def)
  next
    case nc: (Inr nc)
    have rp: "repo_path nc" using nc by (rule normalizeRepositoryPath_repo_path)
    have texts: "''/**'' = slash @ ''**''" "''/*'' = slash @ ''*''" by (simp_all add: slash_def)
    have pm: "pathMatches pattern changed =
       (if HasSuffix np (slash @ ''**'') then
          (nc = TrimSuffix np (slash @ ''**'') \<or>
           HasPrefix nc (TrimSuffix np (slash @ ''**'') @ slash))
        else if HasSuffix np (slash @ ''*'') then
          HasPrefix nc (TrimSuffix np (slash @ ''*'') @ slash) \<and>
          TrimPrefix nc (TrimSuffix np (slash @ ''*'') @ slash) \<noteq> [] \<and>
          \<not> ContainsChar (TrimPrefix nc (TrimSuffix np (slash @ ''*'') @ slash)) CHR 0x2F
        else nc = np)"
      by (simp add: pathMatches_def np nc Let_def texts slash_text)
    have w: "CHR 0x2F \<notin> set ''**''" "CHR 0x2F \<notin> set ''*''" by simp_all
    consider (deep) "HasSuffix np (slash @ ''**'')"
      | (child) "\<not> HasSuffix np (slash @ ''**'')" "HasSuffix np (slash @ ''*'')"
      | (exact) "\<not> HasSuffix np (slash @ ''**'')" "\<not> HasSuffix np (slash @ ''*'')" by blast
    then have "pathMatches pattern changed \<longleftrightarrow> glob (components np) (components nc)"
    proof cases
      case deep
      note c = suffix_component_base [OF w(1) deep]
      have "glob (components np) (components nc) \<longleftrightarrow>
          prefix (components (TrimSuffix np (slash @ ''**''))) (components nc)"
        using deep glob_suffix_case [OF w(1), of np] c by (simp add: glob_def)
      with deep show ?thesis
        using components_prefix_iff [of "TrimSuffix np (slash @ ''**'')" nc] by (auto simp: pm)
    next
      case child
      note c = suffix_component_base [OF w(2) child(2)]
      have "glob (components np) (components nc) \<longleftrightarrow>
          prefix (components (TrimSuffix np (slash @ ''*''))) (components nc) \<and>
          length (components nc) = Suc (length (components (TrimSuffix np (slash @ ''*''))))"
        using child glob_suffix_case [OF w(1), of np] glob_suffix_case [OF w(2), of np] c
        by (simp add: glob_def)
      with child show ?thesis using direct_child [OF rp] by (simp add: pm)
    next
      case exact
      have "components nc = components np \<longleftrightarrow> nc = np"
        by (metis components_def join_split)
      moreover have "pathMatches pattern changed \<longleftrightarrow> nc = np" using exact by (simp add: pm)
      moreover have "glob (components np) (components nc) \<longleftrightarrow> components nc = components np"
        using exact unfolding glob_suffix_case [OF w(1)] glob_suffix_case [OF w(2)] glob_def
        by argo
      ultimately show ?thesis by simp
    qed
    with np nc show ?thesis by simp
  qed
qed

section \<open>Configuration and evidence: facts\<close>

lemma addGates_spec:
  "distinct result \<Longrightarrow>
     distinct (addGates result gs) \<and> set (addGates result gs) = set result \<union> set gs"
  by (induction gs arbitrary: result) (auto simp: insert_absorb)

lemma requiredGatesLoop_spec:
  "distinct result \<Longrightarrow>
     distinct (requiredGatesLoop paths result rules) \<and>
     set (requiredGatesLoop paths result rules) =
       set result \<union> (\<Union>r \<in> {r \<in> set rules. ruleMatches r paths}. set (rr_Requires r))"
proof (induction rules arbitrary: result)
  case Nil
  then show ?case by simp
next
  case (Cons r rs)
  then show ?case
    using addGates_spec [OF Cons.prems, of "rr_Requires r"] by (auto simp: Collect_disj_eq)
qed

lemma Config_Validate_rule:
  assumes "Config_Validate c = None" and "r \<in> set (c_Risk c)"
  shows "validRisk (rr_Level r) \<and> rr_Paths r \<noteq> [] \<and>
    (\<forall>raw \<in> set (rr_Paths r). \<exists>p. normalizePattern raw = Inr p) \<and>
    (\<forall>g \<in> set (rr_Requires r). knownGate c g)"
proof -
  from assms(2) obtain j where j: "j < length (c_Risk c)" "c_Risk c ! j = r"
    by (auto simp: in_set_conv_nth)
  have "first_err_idx (validateRiskRule c) 0 (c_Risk c) = None"
    using assms(1) by (simp add: Config_Validate_def)
  then have "validateRiskRule c j r = None"
    using j by (force simp: first_err_idx_None)
  then show ?thesis
    by (auto simp: validateRiskRule_def sum_not_Inl split: sum.splits)
qed

text \<open>
  The gates a change needs are listed once each, and they are exactly those that some rule
  with a matching path requires; where the configuration was accepted, each of them is known
  (a verification profile or one of the two built-in gates).
\<close>

theorem RequiredGatesForPaths_spec:
  assumes "Config_Validate c = None"
  shows "distinct (RequiredGatesForPaths c paths) \<and>
    (\<forall>g. g \<in> set (RequiredGatesForPaths c paths) \<longleftrightarrow>
       (\<exists>r \<in> set (c_Risk c). g \<in> set (rr_Requires r) \<and>
          (\<exists>p \<in> set (rr_Paths r). \<exists>f \<in> set paths. pathMatches p f))) \<and>
    (\<forall>g \<in> set (RequiredGatesForPaths c paths). knownGate c g)"
proof -
  have "distinct (RequiredGatesForPaths c paths)"
    and s: "set (RequiredGatesForPaths c paths) =
      (\<Union>r \<in> {r \<in> set (c_Risk c). ruleMatches r paths}. set (rr_Requires r))"
    using requiredGatesLoop_spec [of "[]"] by (auto simp: RequiredGatesForPaths_def)
  moreover have "\<forall>g \<in> set (RequiredGatesForPaths c paths). knownGate c g"
    using Config_Validate_rule [OF assms] s by auto
  ultimately show ?thesis by (auto simp: ruleMatches_def)
qed

definition sample_config :: Config where
  "sample_config =
     \<lparr>c_Version = 1, c_Commands = \<lparr>cm_Doctor = [], cm_Dev = [], cm_Logs = []\<rparr>,
      c_Verification = [(''unit'', \<lparr>vp_Command = ''go test'', vp_TimeoutSeconds = 60\<rparr>)],
      c_Work = \<lparr>wc_Isolation = IsolationWorktree, wc_MaxParallelCost = 4,
                wc_RequireCleanHandoff = True\<rparr>,
      c_Review = \<lparr>rv_Independent = True, rv_ExactHead = True\<rparr>,
      c_Risk = [\<lparr>rr_Paths = [''db/**'', ''infra/*''], rr_Level = RiskHigh,
                 rr_Requires = [''unit'', ''human_approval'']\<rparr>]\<rparr>"

theorem RequiredGatesForPaths_spec_witness:
  "RequiredGatesForPaths sample_config [''db/migrations/1.sql''] = [''unit'', ''human_approval''] \<and>
   distinct (RequiredGatesForPaths sample_config [''db/migrations/1.sql''])"
proof -
  have "Config_Validate sample_config = None" by code_simp
  from RequiredGatesForPaths_spec [OF this]
  have "distinct (RequiredGatesForPaths sample_config [''db/migrations/1.sql''])" by blast
  moreover have "RequiredGatesForPaths sample_config [''db/migrations/1.sql'']
      = [''unit'', ''human_approval'']"
    by code_simp
  ultimately show ?thesis by simp
qed

text \<open>
  Evidence is accepted for a candidate head exactly when it names that head and a base, and
  has at least one gate and no gate that is unnamed or not passed: a failed, pending or skipped
  gate never lets a head through.
\<close>

theorem ValidateHead_iff:
  "ValidateHead e candidate = None \<longleftrightarrow>
     e_HeadSHA e = TrimSpace candidate \<and> \<not> blank candidate \<and>
     \<not> blank (e_BaseSHA e) \<and> e_Gates e \<noteq> [] \<and>
     set (e_Gates e) \<subseteq> {g. \<not> blank (g_Name g) \<and> g_Status g = GatePassed}"
  by (auto simp: ValidateHead_def Let_def blank_def)

section \<open>Work items and leases: facts\<close>

lemma WorkItem_Validate_iff:
  "WorkItem_Validate w = None \<longleftrightarrow>
     \<not> blank (w_ID w) \<and> \<not> blank (w_Repository w) \<and> \<not> blank (w_Objective w) \<and>
     w_OwnershipPaths w \<noteq> [] \<and>
     (\<forall>raw \<in> set (w_OwnershipPaths w). \<exists>p. normalizePattern raw = Inr p) \<and>
     validRisk (w_Risk w) \<and> 0 < w_Cost w \<and> \<not> blank (w_BaseSHA w) \<and> validWorkState (w_State w) \<and>
     (w_State w = WorkClaimed \<longrightarrow> \<not> blank (w_ClaimedBy w) \<and> w_LeaseUntil w \<noteq> None)"
proof -
  have "(\<forall>raw \<in> set (w_OwnershipPaths w). (case normalizePattern raw of
        Inl e \<Rightarrow> Some (ItemOwnershipPath raw e) | Inr _ \<Rightarrow> None) = None) \<longleftrightarrow>
      (\<forall>raw \<in> set (w_OwnershipPaths w). \<exists>p. normalizePattern raw = Inr p)"
    by (auto simp: sum_not_Inl split: sum.splits)
  then show ?thesis
    by (simp add: WorkItem_Validate_def blank_def not_le)
qed

lemma Claim_Inr:
  "Claim (Some w) h now ttl = Inr w' \<longleftrightarrow>
     \<not> blank h \<and> 0 < ttl \<and> ClaimableAt w now \<and>
     w' = w\<lparr>w_State := WorkClaimed, w_ClaimedBy := TrimSpace h, w_LeaseUntil := Some (now + ttl)\<rparr>"
  by (auto simp: Claim_def Let_def blank_def ClaimableAt_def not_le split: WorkState.splits)

text \<open>
  C15. A successful claim keeps a valid work item valid, changes nothing but its state, holder
  and lease, and is exclusive: before the lease runs out every further claim, by any holder, is
  refused with the error that names the holder, and from its end on any well-formed claim is
  granted.
\<close>

theorem Claim_exclusive:
  assumes "WorkItem_Validate w = None" and "Claim (Some w) h now ttl = Inr w'"
  shows "WorkItem_Validate w' = None \<and>
    w' = w\<lparr>w_State := WorkClaimed, w_ClaimedBy := TrimSpace h, w_LeaseUntil := Some (now + ttl)\<rparr> \<and>
    (\<forall>h2 t d. \<not> blank h2 \<and> 0 < d \<longrightarrow>
       (if t < now + ttl then Claim (Some w') h2 t d = Inl (ActiveLeaseHeld (w_ID w) (TrimSpace h))
        else \<exists>w2. Claim (Some w') h2 t d = Inr w2 \<and> w_ClaimedBy w2 = TrimSpace h2))"
proof -
  from assms(2) have c: "\<not> blank h" "0 < ttl"
    and w': "w' = w\<lparr>w_State := WorkClaimed, w_ClaimedBy := TrimSpace h, w_LeaseUntil := Some (now + ttl)\<rparr>"
    by (simp_all add: Claim_Inr)
  have "WorkItem_Validate w' = None"
    using assms(1) c by (simp add: WorkItem_Validate_iff w')
  moreover have "Claim (Some w') h2 t d = Inl (ActiveLeaseHeld (w_ID w) (TrimSpace h))"
    if "\<not> blank h2" "0 < d" "t < now + ttl" for h2 t d
    using that c by (simp add: Claim_def w' HasActiveLease_def blank_def)
  moreover have "\<exists>w2. Claim (Some w') h2 t d = Inr w2 \<and> w_ClaimedBy w2 = TrimSpace h2"
    if "\<not> blank h2" "0 < d" "\<not> t < now + ttl" for h2 t d
    using that by (simp add: Claim_Inr w' ClaimableAt_def HasActiveLease_def)
  ultimately show ?thesis using w' by simp
qed

definition sample_item :: WorkItem where
  "sample_item =
     \<lparr>w_ID = ''w1'', w_Repository = ''repo'', w_Objective = ''fix'', w_AcceptanceCriteria = [],
      w_ParentID = [], w_DiscoveredFromID = [], w_DependsOn = [], w_OwnershipPaths = [''src/**''],
      w_Risk = RiskLow, w_Cost = 2, w_RequiredGates = [], w_BaseSHA = ''abc'', w_ClaimedBy = [],
      w_LeaseUntil = None, w_State = WorkReady\<rparr>"

theorem Claim_exclusive_witness:
  "\<exists>w'. Claim (Some sample_item) ''alice'' 100 60 = Inr w' \<and>
     Claim (Some w') ''bob'' 159 60 = Inl (ActiveLeaseHeld ''w1'' ''alice'')"
proof -
  have v: "WorkItem_Validate sample_item = None" by code_simp
  have h: "\<not> blank ''alice''" "TrimSpace ''alice'' = ''alice''" "\<not> blank ''bob''" by code_simp+
  then obtain w' where c: "Claim (Some sample_item) ''alice'' 100 60 = Inr w'"
    by (auto simp: Claim_Inr ClaimableAt_def sample_item_def)
  from Claim_exclusive [OF v c]
  have "\<not> blank ''bob'' \<and> 0 < (60::int) \<longrightarrow>
      (if 159 < 100 + (60::int)
       then Claim (Some w') ''bob'' 159 60
         = Inl (ActiveLeaseHeld (w_ID sample_item) (TrimSpace ''alice''))
       else \<exists>w2. Claim (Some w') ''bob'' 159 60 = Inr w2 \<and> w_ClaimedBy w2 = TrimSpace ''bob'')"
    by blast
  with h have "Claim (Some w') ''bob'' 159 60 = Inl (ActiveLeaseHeld (w_ID sample_item) ''alice'')"
    by simp
  with c show ?thesis by (simp add: sample_item_def)
qed

text \<open>A history of claims of one item: the leases granted, as holder, start and end.\<close>

fun claim_run :: "WorkItem \<Rightarrow> (string \<times> gotime \<times> duration) list \<Rightarrow> (string \<times> gotime \<times> gotime) list" where
  "claim_run w [] = []"
| "claim_run w ((h, t, d) # rs) =
     (case Claim (Some w) h t d of
        Inl _ \<Rightarrow> claim_run w rs
      | Inr w' \<Rightarrow> (TrimSpace h, t, t + d) # claim_run w' rs)"

lemma claim_run_after_lease:
  assumes "w_State w = WorkClaimed" "\<not> blank (w_ClaimedBy w)" "w_LeaseUntil w = Some u"
    and "(h, s, e) \<in> set (claim_run w rs)"
  shows "u \<le> s"
  using assms
proof (induction rs arbitrary: w u)
  case Nil
  then show ?case by simp
next
  case (Cons r rs)
  obtain h2 t d where r: "r = (h2, t, d)" by (cases r)
  show ?case
  proof (cases "Claim (Some w) h2 t d")
    case (Inl x)
    with Cons r show ?thesis by simp
  next
    case (Inr w')
    then have c: "\<not> blank h2" "0 < d" "ClaimableAt w t"
      and w': "w' = w\<lparr>w_State := WorkClaimed, w_ClaimedBy := TrimSpace h2, w_LeaseUntil := Some (t + d)\<rparr>"
      by (simp_all add: Claim_Inr)
    have "u \<le> t"
      using c(3) Cons.prems(1-3) by (simp add: ClaimableAt_def HasActiveLease_def blank_def)
    moreover have "t + d \<le> s" if "(h, s, e) \<in> set (claim_run w' rs)"
      using that c by (intro Cons.IH [of w']) (simp_all add: w')
    moreover have "(h, s, e) = (TrimSpace h2, t, t + d) \<or> (h, s, e) \<in> set (claim_run w' rs)"
      using Cons.prems(4) r Inr by simp
    ultimately show ?thesis using c(2) by auto
  qed
qed

text \<open>
  C14. Whatever the order of claim attempts and whatever clock readings they carry, the leases
  granted on one work item never overlap: each starts at or after the end of all earlier ones.
\<close>

theorem leases_disjoint:
  "sorted_wrt (\<lambda>(_, _, e1) (_, s2, _). e1 \<le> s2) (claim_run w rs)"
proof (induction rs arbitrary: w)
  case Nil
  then show ?case by simp
next
  case (Cons r rs)
  obtain h t d where r: "r = (h, t, d)" by (cases r)
  show ?case
  proof (cases "Claim (Some w) h t d")
    case (Inl x)
    with Cons.IH r show ?thesis by simp
  next
    case (Inr w')
    then have "\<not> blank h"
      and "w' = w\<lparr>w_State := WorkClaimed, w_ClaimedBy := TrimSpace h, w_LeaseUntil := Some (t + d)\<rparr>"
      by (simp_all add: Claim_Inr)
    then have "t + d \<le> s" if "(g, s, e) \<in> set (claim_run w' rs)" for g s e
      using claim_run_after_lease [of w' "t + d" g s e rs] that by simp
    with Cons.IH [of w'] Inr r show ?thesis by auto
  qed
qed

end
