(* ===== verification/WorkAdapter.thy ===== *)
theory WorkAdapter
  imports RepoProtocol Scheduler
begin

text \<open>
  The adapter from work items of the repository protocol to the scheduler
  (\<open>packages/scheduler/work_adapter.go\<close>): an item becomes a task whose CPU share is its cost, and
  its state and lease give the status of the task.
\<close>

section \<open>The adapter\<close>

record WorkScheduleOptions =
  wo_MaxParallelCost :: int
  wo_Now :: gotime

datatype work_error =
    NoWorkItems
  | MaxCostNotPositive
  | CurrentTimeRequired
  | InvalidItem string proto_error
  | DraftItem string
  | UnsupportedState string WorkState
  | SchedulerError sched_error

text \<open>The \<open>switch\<close> on the state of an item; \<open>None\<close> is its default branch.\<close>

fun workStatus :: "gotime \<Rightarrow> WorkItem \<Rightarrow> Status option" where
  "workStatus now item =
     (case w_State item of
        WorkReady \<Rightarrow> Some StatusPending
      | WorkClaimed \<Rightarrow> Some (if HasActiveLease item now then StatusRunning else StatusPending)
      | WorkImplementing \<Rightarrow> Some StatusRunning
      | WorkVerifying \<Rightarrow> Some StatusRunning
      | WorkReviewing \<Rightarrow> Some StatusRunning
      | WorkReadyToLand \<Rightarrow> Some StatusRunning
      | WorkLanded \<Rightarrow> Some StatusSuccess
      | WorkFailed \<Rightarrow> Some StatusFailed
      | WorkCancelled \<Rightarrow> Some StatusSkipped
      | _ \<Rightarrow> None)"

declare workStatus.simps [simp del]

definition workTask :: "WorkItem \<Rightarrow> Task" where
  "workTask item =
     \<lparr>t_ID = w_ID item, t_Owns = w_OwnershipPaths item, t_DependsOn = w_DependsOn item,
      t_Resources = \<lparr>r_CPU = f64_of_int (w_Cost item), r_MemoryMB = 1\<rparr>\<rparr>"

definition workStep :: "gotime \<Rightarrow> Task list \<times> State \<Rightarrow> WorkItem \<Rightarrow> work_error + Task list \<times> State" where
  "workStep now acc item =
     (case WorkItem_Validate item of
        Some e \<Rightarrow> Inl (InvalidItem (w_ID item) e)
      | None \<Rightarrow>
        if w_State item = WorkDraft then Inl (DraftItem (w_ID item))
        else (case workStatus now item of
            None \<Rightarrow> Inl (UnsupportedState (w_ID item) (w_State item))
          | Some status \<Rightarrow> Inr (fst acc @ [workTask item], (snd acc)(w_ID item \<mapsto> status))))"

definition workManifest :: "WorkItem list \<Rightarrow> WorkScheduleOptions \<Rightarrow> Task list \<Rightarrow> Manifest" where
  "workManifest items options tasks =
     \<lparr>m_MaxParallel = int (length items),
      m_Capacity = \<lparr>cap_CPU = f64_of_int (wo_MaxParallelCost options), cap_MemoryMB = int (length items)\<rparr>,
      m_Tasks = tasks\<rparr>"

definition NextWork :: "WorkItem list \<Rightarrow> WorkScheduleOptions \<Rightarrow> work_error + Decision" where
  "NextWork items options =
     (if items = [] then Inl NoWorkItems
      else if wo_MaxParallelCost options \<le> 0 then Inl MaxCostNotPositive
      else if wo_Now options = 0 then Inl CurrentTimeRequired
      else (case fold_res (workStep (wo_Now options)) items ([], Map.empty) of
          Inl e \<Rightarrow> Inl e
        | Inr (tasks, state) \<Rightarrow>
          (case Next (workManifest items options tasks) state of
             Inl e \<Rightarrow> Inl (SchedulerError e)
           | Inr d \<Rightarrow> Inr d)))"

section \<open>The loop: facts\<close>

lemma workTask_simps [simp]:
  "t_ID (workTask w) = w_ID w" "t_Owns (workTask w) = w_OwnershipPaths w"
  "t_DependsOn (workTask w) = w_DependsOn w" "r_CPU (t_Resources (workTask w)) = f64_of_int (w_Cost w)"
  by (simp_all add: workTask_def)

lemma workStep_Inr:
  "workStep now (ts, st) w = Inr r \<longleftrightarrow>
     WorkItem_Validate w = None \<and> w_State w \<noteq> WorkDraft \<and>
     (\<exists>status. workStatus now w = Some status \<and> r = (ts @ [workTask w], st(w_ID w \<mapsto> status)))"
  by (auto simp: workStep_def split: option.splits)

lemma work_loop:
  "fold_res (workStep now) items (ts, st) = Inr (ts', st') \<Longrightarrow>
     ts' = ts @ map workTask items \<and>
     (\<forall>w \<in> set items. WorkItem_Validate w = None \<and> w_State w \<noteq> WorkDraft) \<and>
     (distinct (map w_ID items) \<longrightarrow> (\<forall>w \<in> set items. st' (w_ID w) = workStatus now w)) \<and>
     (\<forall>x. x \<notin> w_ID ` set items \<longrightarrow> st' x = st x)"
proof (induction items arbitrary: ts st)
  case Nil
  then show ?case by simp
next
  case (Cons w items)
  then obtain r where "workStep now (ts, st) w = Inr r" and r: "fold_res (workStep now) items r = Inr (ts', st')"
    by (auto split: sum.splits)
  then obtain status where w: "WorkItem_Validate w = None" "w_State w \<noteq> WorkDraft"
    "workStatus now w = Some status" and "r = (ts @ [workTask w], st(w_ID w \<mapsto> status))"
    unfolding workStep_Inr by blast
  with r have "fold_res (workStep now) items (ts @ [workTask w], st(w_ID w \<mapsto> status)) = Inr (ts', st')"
    by simp
  note ih = Cons.IH [OF this]
  have "st' (w_ID w) = workStatus now w" if "distinct (map w_ID (w # items))"
  proof -
    have "w_ID w \<notin> w_ID ` set items" using that by simp
    with ih have "st' (w_ID w) = (st(w_ID w \<mapsto> status)) (w_ID w)" by blast
    with w show ?thesis by simp
  qed
  with ih w show ?case by auto
qed

text \<open>A successful call is a successful decision on the adapted manifest and state.\<close>

lemma NextWork_Inr:
  assumes "NextWork items options = Inr d"
  obtains state where "Next (workManifest items options (map workTask items)) state = Inr d"
    "distinct (map w_ID items)" "0 < wo_MaxParallelCost options"
    "\<forall>w \<in> set items. WorkItem_Validate w = None \<and> w_State w \<noteq> WorkDraft \<and>
       state (w_ID w) = workStatus (wo_Now options) w"
    "\<forall>x. x \<notin> w_ID ` set items \<longrightarrow> state x = None"
proof -
  from assms obtain tasks state where
    l: "fold_res (workStep (wo_Now options)) items ([], Map.empty) = Inr (tasks, state)"
    and n: "Next (workManifest items options tasks) state = Inr d" and c: "0 < wo_MaxParallelCost options"
    by (auto simp: NextWork_def split: sum.splits if_splits)
  note w = work_loop [OF l]
  then have t: "tasks = map workTask items" by simp
  have "distinct (map t_ID (map workTask items))"
    using Validate_distinct [OF Next_Inr(1) [OF n]] by (simp add: workManifest_def t)
  then have dist: "distinct (map w_ID items)" by (simp add: comp_def)
  show thesis
    using n dist c w by (intro that [of state]) (simp_all add: t)
qed

lemma claimable_status:
  "workStatus now w = Some StatusPending \<longleftrightarrow> ClaimableAt w now"
  by (auto simp: workStatus.simps ClaimableAt_def split: WorkState.splits)

lemma landed_status:
  "workStatus now w = Some StatusSuccess \<longleftrightarrow> w_State w = WorkLanded"
  by (auto simp: workStatus.simps split: WorkState.splits)

lemma no_other_status: "workStatus now w \<noteq> Some (StatusOther s)"
  by (auto simp: workStatus.simps split: WorkState.splits)

lemma statusOf_Some:
  "st x = Some s \<Longrightarrow> (\<And>y. s \<noteq> StatusOther y) \<Longrightarrow> statusOf st x = s"
  by (simp add: statusOf_def)

text \<open>The items that hold an agent at a time: claimed under a live lease, or further along.\<close>

definition activeItem :: "gotime \<Rightarrow> WorkItem \<Rightarrow> bool" where
  "activeItem now w \<longleftrightarrow> workStatus now w = Some StatusRunning"

definition itemStatus :: "gotime \<Rightarrow> WorkItem list \<Rightarrow> State \<Rightarrow> bool" where
  "itemStatus now items state \<longleftrightarrow>
     (\<forall>w \<in> set items. \<exists>s. workStatus now w = Some s \<and> state (w_ID w) = Some s \<and> statusOf state (w_ID w) = s)"

lemma itemStatus_loop:
  assumes "\<forall>w \<in> set items. WorkItem_Validate w = None \<and> w_State w \<noteq> WorkDraft \<and>
       state (w_ID w) = workStatus now w"
  shows "itemStatus now items state"
  unfolding itemStatus_def
proof
  fix w assume "w \<in> set items"
  with assms have v: "validWorkState (w_State w)" "w_State w \<noteq> WorkDraft"
    and s: "state (w_ID w) = workStatus now w"
    by (auto simp: WorkItem_Validate_iff)
  from v obtain st where st: "workStatus now w = Some st"
    by (cases "w_State w") (auto simp: workStatus.simps)
  moreover have "statusOf state (w_ID w) = st"
    using s st no_other_status [of now w] by (intro statusOf_Some) auto
  ultimately show "\<exists>st. workStatus now w = Some st \<and> state (w_ID w) = Some st \<and> statusOf state (w_ID w) = st"
    using s by simp
qed

text \<open>
  C18. Every work item the adapter calls ready can be claimed by any named holder at that time,
  depends on landed items only, and its ownership paths share no file with those of an item that
  is active or ready beside it.
\<close>

theorem NextWork_claimable:
  assumes "NextWork items options = Inr d" and "w \<in> set items" and "w_ID w \<in> set (d_Ready d)"
  shows "(\<forall>h ttl. \<not> blank h \<and> 0 < ttl \<longrightarrow>
      (\<exists>w'. Claim (Some w) h (wo_Now options) ttl = Inr w' \<and> w_ClaimedBy w' = TrimSpace h)) \<and>
    (\<forall>dep \<in> set (w_DependsOn w). \<exists>v \<in> set items. w_ID v = dep \<and> w_State v = WorkLanded) \<and>
    (\<forall>v \<in> set items. w_ID v \<noteq> w_ID w \<and> (activeItem (wo_Now options) v \<or> w_ID v \<in> set (d_Ready d)) \<longrightarrow>
      owned (w_OwnershipPaths w) \<inter> owned (w_OwnershipPaths v) = {})"
proof -
  from assms(1) obtain state where
    n: "Next (workManifest items options (map workTask items)) state = Inr d"
    and "distinct (map w_ID items)" and "0 < wo_MaxParallelCost options"
    and st: "\<forall>w \<in> set items. WorkItem_Validate w = None \<and> w_State w \<noteq> WorkDraft \<and>
       state (w_ID w) = workStatus (wo_Now options) w"
    and out: "\<forall>x. x \<notin> w_ID ` set items \<longrightarrow> state x = None"
    by (rule NextWork_Inr)
  have sts: "itemStatus (wo_Now options) items state" using st by (rule itemStatus_loop)
  let ?m = "workManifest items options (map workTask items)"
  have tasks: "set (m_Tasks ?m) = workTask ` set items" by (simp add: workManifest_def)
  have mem: "workTask w \<in> set (m_Tasks ?m)" unfolding tasks using assms(2) by simp
  have "t_ID (workTask w) \<in> set (d_Ready d)" using assms(3) by simp
  with Next_safe_core [OF n] mem
  have "statusOf state (t_ID (workTask w)) = StatusPending \<and> dependenciesSucceeded (workTask w) state \<and>
      (\<forall>u \<in> set (m_Tasks ?m). u \<noteq> workTask w \<and>
        (state (t_ID u) = Some StatusRunning \<or> t_ID u \<in> set (d_Ready d)) \<longrightarrow>
        owned (t_Owns (workTask w)) \<inter> owned (t_Owns u) = {})" by blast
  then have ok: "statusOf state (w_ID w) = StatusPending" "dependenciesSucceeded (workTask w) state"
    and dj: "\<forall>u \<in> set (m_Tasks ?m). u \<noteq> workTask w \<and>
        (state (t_ID u) = Some StatusRunning \<or> t_ID u \<in> set (d_Ready d)) \<longrightarrow>
        owned (w_OwnershipPaths w) \<inter> owned (t_Owns u) = {}" by simp_all
  have "ClaimableAt w (wo_Now options)"
    using sts assms(2) ok(1) claimable_status [of "wo_Now options" w] unfolding itemStatus_def by auto
  then have "\<exists>w'. Claim (Some w) h (wo_Now options) ttl = Inr w' \<and> w_ClaimedBy w' = TrimSpace h"
    if "\<not> blank h" "0 < ttl" for h ttl
    using that by (simp add: Claim_Inr)
  moreover have "\<exists>v \<in> set items. w_ID v = dep \<and> w_State v = WorkLanded"
    if d: "dep \<in> set (w_DependsOn w)" for dep
  proof -
    have s: "statusOf state dep = StatusSuccess" using ok(2) d by (simp add: dependenciesSucceeded_def)
    then have "state dep \<noteq> None" by (cases "state dep") (simp_all add: statusOf_def)
    then have "dep \<in> w_ID ` set items" using out [rule_format, of dep] by (rule contrapos_np)
    then obtain v where v: "v \<in> set items" "w_ID v = dep" by auto
    with sts s have "workStatus (wo_Now options) v = Some StatusSuccess" unfolding itemStatus_def by auto
    then show ?thesis using v landed_status by blast
  qed
  moreover have "owned (w_OwnershipPaths w) \<inter> owned (w_OwnershipPaths v) = {}"
    if v: "v \<in> set items" "w_ID v \<noteq> w_ID w" "activeItem (wo_Now options) v \<or> w_ID v \<in> set (d_Ready d)" for v
  proof -
    have "workTask v \<noteq> workTask w" using v(2) workTask_simps(1) by metis
    moreover have "state (w_ID v) = Some StatusRunning \<or> w_ID v \<in> set (d_Ready d)"
      using v(1,3) st by (auto simp: activeItem_def)
    ultimately show ?thesis using dj v(1) unfolding tasks by auto
  qed
  ultimately show ?thesis by blast
qed

text \<open>
  The cost budget.  CPU shares are floats; below \<open>2 ^ 52\<close> sums of costs are exact, so the
  comparison of the scheduler is the comparison of the integer totals.
\<close>

definition costSum :: "(Task \<Rightarrow> int) \<Rightarrow> Task list \<Rightarrow> int" where
  "costSum k ts = sum_list (map k ts)"

definition costed :: "(Task \<Rightarrow> int) \<Rightarrow> Task \<Rightarrow> bool" where
  "costed k t \<longleftrightarrow> r_CPU (t_Resources t) = f64_of_int (k t) \<and> 0 < k t \<and> k t < 2 ^ 52"

lemma costSum_nonneg: "\<forall>t \<in> set ts. costed k t \<Longrightarrow> 0 \<le> costSum k ts"
  by (induction ts) (auto simp: costSum_def costed_def)

lemma addUsed_cost:
  assumes "\<forall>t \<in> set ts. costed k t" and "0 \<le> c" and "c + costSum k ts < 2 ^ 53"
    and "r_CPU u = f64_of_int c"
  shows "r_CPU (foldl addUsed u ts) = f64_of_int (c + costSum k ts)"
  using assms
proof (induction ts arbitrary: u c)
  case Nil
  then show ?case by (simp add: costSum_def)
next
  case (Cons t ts)
  have n: "0 \<le> costSum k ts" using Cons.prems(1) by (intro costSum_nonneg) simp
  have k: "r_CPU (t_Resources t) = f64_of_int (k t)" "0 < k t" using Cons.prems(1) by (simp_all add: costed_def)
  have s: "c + costSum k (t # ts) = (c + k t) + costSum k ts" by (simp add: costSum_def)
  have "r_CPU (addUsed u t) = f64_of_int (c + k t)"
    using Cons.prems(2-4) k n s unfolding addUsed_def by (simp add: f64_of_int_add)
  then have "r_CPU (foldl addUsed (addUsed u t) ts) = f64_of_int ((c + k t) + costSum k ts)"
    using Cons.prems k s by (intro Cons.IH) simp_all
  then show ?case unfolding s by simp
qed

lemma chain_cost:
  assumes "chain m state skipped rc s ps" and "cap_CPU (m_Capacity m) = f64_of_int cap" and "cap < 2 ^ 52"
    and "\<forall>t \<in> set ps. costed k t" and "r_CPU (s_Used s) = f64_of_int c" and "0 \<le> c" and "c \<le> cap"
  shows "c + costSum k ps \<le> cap"
  using assms
proof (induction ps arbitrary: s c)
  case Nil
  then show ?case by (simp add: costSum_def)
next
  case (Cons t ps)
  have k: "r_CPU (t_Resources t) = f64_of_int (k t)" "0 < k t" "k t < 2 ^ 52"
    using Cons.prems(4) by (simp_all add: costed_def)
  have u: "r_CPU (s_Used (extendSel s t)) = f64_of_int (c + k t)"
    using Cons.prems(3,5-7) k unfolding extendSel_def addUsed_def by (simp add: f64_of_int_add)
  have "\<not> exceeds (m_Capacity m) (s_Used (extendSel s t))"
    using Cons.prems(1) by (simp add: picks_def extendSel_def)
  then have "\<not> f64_less (f64_of_int cap) (f64_of_int (c + k t))"
    using Cons.prems(2) u by (simp add: exceeds_def)
  then have "c + k t \<le> cap"
    using Cons.prems(3,6,7) k by (simp add: f64_of_int_less)
  then have "(c + k t) + costSum k ps \<le> cap"
    using Cons.prems u k by (intro Cons.IH [of "extendSel s t"]) simp_all
  then show ?case by (simp add: costSum_def)
qed

lemma sum_split_filter:
  fixes k :: "'a \<Rightarrow> int"
  assumes "\<forall>x \<in> set xs. \<not> (P x \<and> Q x)"
  shows "sum_list (map k (filter P xs)) + sum_list (map k (filter Q xs)) =
    sum_list (map k (filter (\<lambda>x. P x \<or> Q x) xs))"
  using assms by (induction xs) auto

definition costOf :: "WorkItem list \<Rightarrow> Task \<Rightarrow> int" where
  "costOf items t = (case map_of (map (\<lambda>w. (w_ID w, w_Cost w)) items) (t_ID t) of
     None \<Rightarrow> 0 | Some c \<Rightarrow> c)"

lemma costOf_task:
  assumes "distinct (map w_ID items)" and "w \<in> set items"
  shows "costOf items (workTask w) = w_Cost w"
proof -
  have "map_of (map (\<lambda>w. (w_ID w, w_Cost w)) items) (w_ID w) = Some (w_Cost w)"
    using assms by (intro map_of_is_SomeI) (auto simp: comp_def)
  then show ?thesis by (simp add: costOf_def)
qed

text \<open>The total cost of the items that satisfy a condition.\<close>

definition totalCost :: "(WorkItem \<Rightarrow> bool) \<Rightarrow> WorkItem list \<Rightarrow> int" where
  "totalCost P items = sum_list (map w_Cost (filter P items))"

lemma costSum_tasks:
  assumes "distinct (map w_ID items)" and "\<forall>w \<in> set items. Q (workTask w) = P w"
  shows "costSum (costOf items) (filter Q (map workTask items)) = totalCost P items"
proof -
  have "filter (Q \<circ> workTask) items = filter P items"
    using assms(2) by (intro filter_cong) simp_all
  moreover have "map (costOf items \<circ> workTask) (filter P items) = map w_Cost (filter P items)"
    using costOf_task [OF assms(1)] by (intro map_cong) auto
  ultimately show ?thesis by (simp only: costSum_def totalCost_def filter_map map_map)
qed

text \<open>
  The adapter keeps the cost budget: when the active items are within it (and costs are below
  \<open>2 ^ 52\<close>, where floats are exact), the items it starts and the active ones together are within it.
\<close>

theorem NextWork_cost:
  assumes "NextWork items options = Inr d" and "d_Ready d \<noteq> []"
    and "\<forall>w \<in> set items. w_Cost w < 2 ^ 52" and "wo_MaxParallelCost options < 2 ^ 52"
    and "totalCost (activeItem (wo_Now options)) items \<le> wo_MaxParallelCost options"
  shows "totalCost (\<lambda>w. activeItem (wo_Now options) w \<or> w_ID w \<in> set (d_Ready d)) items
    \<le> wo_MaxParallelCost options"
proof -
  let ?m = "workManifest items options (map workTask items)" and ?k = "costOf items"
  let ?A = "activeItem (wo_Now options)" and ?R = "\<lambda>w. w_ID w \<in> set (d_Ready d)"
  from assms(1) obtain state where n: "Next ?m state = Inr d"
    and dist: "distinct (map w_ID items)" and "0 < wo_MaxParallelCost options"
    and st: "\<forall>w \<in> set items. WorkItem_Validate w = None \<and> w_State w \<noteq> WorkDraft \<and>
       state (w_ID w) = workStatus (wo_Now options) w"
    and out: "\<forall>x. x \<notin> w_ID ` set items \<longrightarrow> state x = None"
    by (rule NextWork_Inr)
  have tasks: "m_Tasks ?m = map workTask items" by (simp add: workManifest_def)
  have costed: "\<forall>t \<in> set (map workTask items). costed ?k t"
  proof
    fix t assume "t \<in> set (map workTask items)"
    then obtain w where w: "w \<in> set items" "t = workTask w" by auto
    have "0 < w_Cost w" using st w(1) by (simp add: WorkItem_Validate_iff)
    then show "costed ?k t"
      using costOf_task [OF dist w(1)] assms(3) w by (simp add: costed_def)
  qed
  have run: "runningTasks state (m_Tasks ?m) = filter (\<lambda>t. state (t_ID t) = Some StatusRunning) (map workTask items)"
    by (simp add: runningTasks_def tasks)
  have "costSum ?k (runningTasks state (m_Tasks ?m)) = totalCost ?A items"
    unfolding run by (rule costSum_tasks [OF dist]) (simp add: st activeItem_def)
  moreover have "costSum ?k (chosen ?m d) = totalCost ?R items"
    unfolding chosen_def tasks by (rule costSum_tasks [OF dist]) simp
  moreover have "costSum ?k (runningTasks state (m_Tasks ?m)) + costSum ?k (chosen ?m d) \<le> wo_MaxParallelCost options"
  proof (rule chain_cost [OF Next_Inr(4) [OF n]])
    show "cap_CPU (m_Capacity ?m) = f64_of_int (wo_MaxParallelCost options)" by (simp add: workManifest_def)
    show "\<forall>t \<in> set (chosen ?m d). costed ?k t" using costed unfolding chosen_def tasks by auto
    have c: "\<forall>t \<in> set (runningTasks state (m_Tasks ?m)). costed ?k t" using costed unfolding run by auto
    show "0 \<le> costSum ?k (runningTasks state (m_Tasks ?m))" using c by (rule costSum_nonneg)
    show "costSum ?k (runningTasks state (m_Tasks ?m)) \<le> wo_MaxParallelCost options"
      using assms(5) calculation(1) by simp
    show "r_CPU (s_Used (startSel ?m state)) = f64_of_int (costSum ?k (runningTasks state (m_Tasks ?m)))"
      using addUsed_cost [OF c, of 0 noResources] assms(4,5) calculation(1)
      by (simp add: startSel_def noResources_def)
  qed (rule assms(4))
  moreover have "totalCost ?A items + totalCost ?R items = totalCost (\<lambda>w. ?A w \<or> ?R w) items"
    unfolding totalCost_def
  proof (rule sum_split_filter, intro ballI notI)
    fix w assume w: "w \<in> set items" and b: "?A w \<and> ?R w"
    have mem: "workTask w \<in> set (m_Tasks ?m)" using w by (simp add: tasks)
    have "t_ID (workTask w) \<in> set (d_Ready d)" using b by simp
    with Next_safe_core [OF n] mem have "statusOf state (t_ID (workTask w)) = StatusPending" by blast
    moreover have "state (w_ID w) = Some StatusRunning" using st w b by (simp add: activeItem_def)
    ultimately show False by (simp add: statusOf_def)
  qed
  ultimately show ?thesis by simp
qed

definition sample_items :: "WorkItem list" where
  "sample_items =
     [sample_item\<lparr>w_State := WorkClaimed, w_ClaimedBy := ''alice'', w_LeaseUntil := Some 160\<rparr>,
      sample_item\<lparr>w_ID := ''w2'', w_OwnershipPaths := [''docs/**''], w_Cost := 3\<rparr>]"

definition sample_options :: WorkScheduleOptions where
  "sample_options = \<lparr>wo_MaxParallelCost = 5, wo_Now = 100\<rparr>"

lemma sample_work: "NextWork sample_items sample_options = Inr \<lparr>d_Ready = [''w2''], d_Skipped = []\<rparr>"
  by code_simp

theorem NextWork_claimable_witness:
  "\<exists>w'. Claim (Some (sample_items ! 1)) ''bob'' 100 60 = Inr w' \<and> w_ClaimedBy w' = ''bob''"
proof -
  have "sample_items ! 1 \<in> set sample_items"
    "w_ID (sample_items ! 1) \<in> set (d_Ready \<lparr>d_Ready = [''w2''], d_Skipped = []\<rparr>)"
    by (simp_all add: sample_items_def)
  from NextWork_claimable [OF sample_work this]
  have "\<not> blank ''bob'' \<and> 0 < (60::int) \<longrightarrow>
      (\<exists>w'. Claim (Some (sample_items ! 1)) ''bob'' (wo_Now sample_options) 60 = Inr w' \<and>
        w_ClaimedBy w' = TrimSpace ''bob'')" by blast
  moreover have "\<not> blank ''bob''" "TrimSpace ''bob'' = ''bob''" by code_simp+
  ultimately show ?thesis by (simp add: sample_options_def)
qed

theorem NextWork_cost_witness:
  "totalCost (\<lambda>w. activeItem 100 w \<or> w_ID w \<in> {''w2''}) sample_items \<le> 5"
proof -
  have "totalCost (activeItem (wo_Now sample_options)) sample_items \<le> wo_MaxParallelCost sample_options"
    by code_simp
  then have "totalCost (\<lambda>w. activeItem (wo_Now sample_options) w \<or>
      w_ID w \<in> set (d_Ready \<lparr>d_Ready = [''w2''], d_Skipped = []\<rparr>)) sample_items \<le> wo_MaxParallelCost sample_options"
    by (intro NextWork_cost [OF sample_work]) (simp_all add: sample_items_def sample_item_def sample_options_def)
  then show ?thesis by (simp add: sample_options_def)
qed

end
