(* ===== verification/Models.thy ===== *)
theory Models
  imports GoFloat
begin

text \<open>
  The rows of the data base (\<open>packages/models\<close>): the entities with their validation, and the
  decoding of a scanned row.  A nullable column is an option (\<open>sql.NullString\<close> and the like), a
  pointer field too; a time is its number of nanoseconds since Go's zero time, \<open>json.RawMessage\<close>
  its bytes, and the error of a validation its message.
\<close>

definition nz :: "'a \<Rightarrow> 'a option \<Rightarrow> 'a" where
  \<comment> \<open>the value of a valid column, or the zero value the struct starts with\<close>
  "nz z v = (case v of None \<Rightarrow> z | Some x \<Rightarrow> x)"

lemma nz_Some [simp]: "nz z (Some x) = x"
  by (simp add: nz_def)

section \<open>Entities\<close>

record Organization =
  og_ID :: string
  og_Name :: string
  og_Slug :: string
  og_Plan :: string
  og_Settings :: string
  og_CreatedAt :: int
  og_UpdatedAt :: int
  og_DeletedAt :: "int option"

definition Organization_Validate :: "Organization \<Rightarrow> string option" where
  "Organization_Validate x =
     (if og_Name x = [] then Some ''organization name is required''
      else if og_Slug x = [] then Some ''organization slug is required''
      else None)"

definition NullOrganization ::
  "string option \<Rightarrow> string option \<Rightarrow> string option \<Rightarrow>
   string option \<Rightarrow> string option \<Rightarrow> int option \<Rightarrow>
   int option \<Rightarrow> int option \<Rightarrow> Organization" where
  "NullOrganization rowID name slug plan settings createdAt updatedAt deletedAt
    = \<lparr>og_ID = nz [] rowID, og_Name = nz [] name, og_Slug = nz [] slug, og_Plan = nz [] plan,
       og_Settings = nz [] settings, og_CreatedAt = nz 0 createdAt,
       og_UpdatedAt = nz 0 updatedAt, og_DeletedAt = deletedAt\<rparr>"

record Project =
  pj_ID :: string
  pj_OrganizationID :: string
  pj_Name :: string
  pj_Slug :: string
  pj_Description :: "string option"
  pj_Settings :: string
  pj_CreatedAt :: int
  pj_UpdatedAt :: int
  pj_DeletedAt :: "int option"

definition Project_Validate :: "Project \<Rightarrow> string option" where
  "Project_Validate x =
     (if pj_Name x = [] then Some ''project name is required''
      else if pj_Slug x = [] then Some ''project slug is required''
      else if pj_OrganizationID x = [] then Some ''project organization_id is required''
      else None)"

definition NullProject ::
  "string option \<Rightarrow> string option \<Rightarrow> string option \<Rightarrow>
   string option \<Rightarrow> string option \<Rightarrow> string option \<Rightarrow>
   int option \<Rightarrow> int option \<Rightarrow> int option \<Rightarrow> Project" where
  "NullProject rowID orgID name slug description settings createdAt updatedAt deletedAt
    = \<lparr>pj_ID = nz [] rowID, pj_OrganizationID = nz [] orgID, pj_Name = nz [] name,
       pj_Slug = nz [] slug, pj_Description = description, pj_Settings = nz [] settings,
       pj_CreatedAt = nz 0 createdAt, pj_UpdatedAt = nz 0 updatedAt, pj_DeletedAt = deletedAt\<rparr>"

record User =
  u_ID :: string
  u_OrganizationID :: string
  u_Email :: string
  u_Name :: "string option"
  u_AvatarURL :: "string option"
  u_Role :: string
  u_GitHubID :: "string option"
  u_GitHubUsername :: "string option"
  u_Settings :: string
  u_CreatedAt :: int
  u_UpdatedAt :: int
  u_DeletedAt :: "int option"

definition User_Validate :: "User \<Rightarrow> string option" where
  "User_Validate x =
     (if u_Email x = [] then Some ''user email is required''
      else if u_OrganizationID x = [] then Some ''user organization_id is required''
      else if u_Role x \<noteq> ''owner'' \<and>
        u_Role x \<noteq> ''admin'' \<and>
        u_Role x \<noteq> ''member''
      then Some ''invalid user role''
      else None)"

definition NullUser ::
  "string option \<Rightarrow> string option \<Rightarrow> string option \<Rightarrow>
   string option \<Rightarrow> string option \<Rightarrow> string option \<Rightarrow>
   string option \<Rightarrow> string option \<Rightarrow> string option \<Rightarrow>
   int option \<Rightarrow> int option \<Rightarrow> int option \<Rightarrow> User" where
  "NullUser rowID orgID email name avatarURL role githubID githubUsername settings createdAt
     updatedAt deletedAt
    = \<lparr>u_ID = nz [] rowID, u_OrganizationID = nz [] orgID, u_Email = nz [] email,
       u_Name = name, u_AvatarURL = avatarURL, u_Role = nz [] role, u_GitHubID = githubID,
       u_GitHubUsername = githubUsername, u_Settings = nz [] settings,
       u_CreatedAt = nz 0 createdAt, u_UpdatedAt = nz 0 updatedAt, u_DeletedAt = deletedAt\<rparr>"

record Repository =
  rp_ID :: string
  rp_ProjectID :: string
  rp_GitHubID :: "int option"
  rp_Owner :: string
  rp_Name :: string
  rp_FullName :: string
  rp_CloneURL :: string
  rp_DefaultBranch :: string
  rp_Private :: bool
  rp_ConnectionStatus :: string
  rp_LastSyncedAt :: "int option"
  rp_WebhookSecret :: "string option"
  rp_Settings :: string
  rp_CreatedAt :: int
  rp_UpdatedAt :: int
  rp_DeletedAt :: "int option"

definition Repository_Validate :: "Repository \<Rightarrow> string option" where
  "Repository_Validate x =
     (if rp_Owner x = [] then Some ''repository owner is required''
      else if rp_Name x = [] then Some ''repository name is required''
      else if rp_FullName x = [] then Some ''repository full_name is required''
      else if rp_CloneURL x = [] then Some ''repository clone_url is required''
      else if rp_ProjectID x = [] then Some ''repository project_id is required''
      else None)"

definition NullRepository ::
  "string option \<Rightarrow> string option \<Rightarrow> int option \<Rightarrow>
   string option \<Rightarrow> string option \<Rightarrow> string option \<Rightarrow>
   string option \<Rightarrow> string option \<Rightarrow> bool option \<Rightarrow>
   string option \<Rightarrow> int option \<Rightarrow> string option \<Rightarrow>
   string option \<Rightarrow> int option \<Rightarrow> int option \<Rightarrow>
   int option \<Rightarrow> Repository" where
  "NullRepository rowID projectID githubID owner name fullName cloneURL defaultBranch
     private0 connStatus lastSyncedAt webhookSecret settings createdAt updatedAt deletedAt
    = \<lparr>rp_ID = nz [] rowID, rp_ProjectID = nz [] projectID, rp_GitHubID = githubID,
       rp_Owner = nz [] owner, rp_Name = nz [] name, rp_FullName = nz [] fullName,
       rp_CloneURL = nz [] cloneURL, rp_DefaultBranch = nz [] defaultBranch,
       rp_Private = nz False private0, rp_ConnectionStatus = nz [] connStatus,
       rp_LastSyncedAt = lastSyncedAt, rp_WebhookSecret = webhookSecret,
       rp_Settings = nz [] settings, rp_CreatedAt = nz 0 createdAt,
       rp_UpdatedAt = nz 0 updatedAt, rp_DeletedAt = deletedAt\<rparr>"

record Workspace =
  ws_ID :: string
  ws_RepositoryID :: string
  ws_TaskID :: "string option"
  ws_Name :: string
  ws_Branch :: string
  ws_BaseBranch :: string
  ws_WorktreePath :: "string option"
  ws_RuntimeProvider :: string
  ws_RuntimeSessionID :: "string option"
  ws_Status :: string
  ws_PreviewURL :: "string option"
  ws_Settings :: string
  ws_CreatedAt :: int
  ws_UpdatedAt :: int
  ws_DeletedAt :: "int option"

definition Workspace_Validate :: "Workspace \<Rightarrow> string option" where
  "Workspace_Validate x =
     (if ws_Name x = [] then Some ''workspace name is required''
      else if ws_Branch x = [] then Some ''workspace branch is required''
      else if ws_RepositoryID x = [] then Some ''workspace repository_id is required''
      else None)"

definition NullWorkspace ::
  "string option \<Rightarrow> string option \<Rightarrow> string option \<Rightarrow>
   string option \<Rightarrow> string option \<Rightarrow> string option \<Rightarrow>
   string option \<Rightarrow> string option \<Rightarrow> string option \<Rightarrow>
   string option \<Rightarrow> string option \<Rightarrow> string option \<Rightarrow>
   int option \<Rightarrow> int option \<Rightarrow> int option \<Rightarrow> Workspace" where
  "NullWorkspace rowID repoID taskID name branch baseBranch worktreePath runtimeProvider
     runtimeSessionID status previewURL settings createdAt updatedAt deletedAt
    = \<lparr>ws_ID = nz [] rowID, ws_RepositoryID = nz [] repoID, ws_TaskID = taskID,
       ws_Name = nz [] name, ws_Branch = nz [] branch, ws_BaseBranch = nz [] baseBranch,
       ws_WorktreePath = worktreePath, ws_RuntimeProvider = nz [] runtimeProvider,
       ws_RuntimeSessionID = runtimeSessionID, ws_Status = nz [] status,
       ws_PreviewURL = previewURL, ws_Settings = nz [] settings,
       ws_CreatedAt = nz 0 createdAt, ws_UpdatedAt = nz 0 updatedAt, ws_DeletedAt = deletedAt\<rparr>"

record ModelTask =
  tk_ID :: string
  tk_ProjectID :: string
  tk_RepositoryID :: string
  tk_WorkspaceID :: "string option"
  tk_CreatedBy :: string
  tk_Source :: string
  tk_SourceID :: "string option"
  tk_Title :: string
  tk_Description :: "string option"
  tk_Status :: string
  tk_Priority :: string
  tk_RiskLevel :: string
  tk_TargetBranch :: string
  tk_Spec :: string
  tk_AcceptanceCriteria :: string
  tk_MaxCost :: "f64 option"
  tk_MaxRuntimeMinutes :: int
  tk_ApprovalRequirements :: string
  tk_Metadata :: string
  tk_StartedAt :: "int option"
  tk_CompletedAt :: "int option"
  tk_CreatedAt :: int
  tk_UpdatedAt :: int
  tk_DeletedAt :: "int option"

definition ModelTask_Validate :: "ModelTask \<Rightarrow> string option" where
  "ModelTask_Validate x =
     (if tk_Title x = [] then Some ''task title is required''
      else if tk_ProjectID x = [] then Some ''task project_id is required''
      else if tk_RepositoryID x = [] then Some ''task repository_id is required''
      else if tk_CreatedBy x = [] then Some ''task created_by is required''
      else None)"

definition NullTask ::
  "string option \<Rightarrow> string option \<Rightarrow> string option \<Rightarrow>
   string option \<Rightarrow> string option \<Rightarrow> string option \<Rightarrow>
   string option \<Rightarrow> string option \<Rightarrow> string option \<Rightarrow>
   string option \<Rightarrow> string option \<Rightarrow> string option \<Rightarrow>
   string option \<Rightarrow> string option \<Rightarrow> string option \<Rightarrow>
   f64 option \<Rightarrow> int option \<Rightarrow> string option \<Rightarrow>
   string option \<Rightarrow> int option \<Rightarrow> int option \<Rightarrow>
   int option \<Rightarrow> int option \<Rightarrow> int option \<Rightarrow> ModelTask" where
  "NullTask rowID projectID repoID workspaceID createdBy source sourceID title description
     status priority riskLevel targetBranch spec acceptanceCriteria maxCost maxRuntime
     approvalReqs metadata startedAt completedAt createdAt updatedAt deletedAt
    = \<lparr>tk_ID = nz [] rowID, tk_ProjectID = nz [] projectID, tk_RepositoryID = nz [] repoID,
       tk_WorkspaceID = workspaceID, tk_CreatedBy = nz [] createdBy, tk_Source = nz [] source,
       tk_SourceID = sourceID, tk_Title = nz [] title, tk_Description = description,
       tk_Status = nz [] status, tk_Priority = nz [] priority, tk_RiskLevel = nz [] riskLevel,
       tk_TargetBranch = nz [] targetBranch, tk_Spec = nz [] spec,
       tk_AcceptanceCriteria = nz [] acceptanceCriteria, tk_MaxCost = maxCost,
       tk_MaxRuntimeMinutes = nz 0 maxRuntime, tk_ApprovalRequirements = nz [] approvalReqs,
       tk_Metadata = nz [] metadata, tk_StartedAt = startedAt, tk_CompletedAt = completedAt,
       tk_CreatedAt = nz 0 createdAt, tk_UpdatedAt = nz 0 updatedAt, tk_DeletedAt = deletedAt\<rparr>"

record AgentRun =
  ar_ID :: string
  ar_TaskID :: string
  ar_WorkspaceID :: "string option"
  ar_AgentRole :: string
  ar_Model :: "string option"
  ar_Provider :: "string option"
  ar_Status :: string
  ar_StartedAt :: "int option"
  ar_CompletedAt :: "int option"
  ar_PromptTokens :: int
  ar_CompletionTokens :: int
  ar_TotalCost :: f64
  ar_ErrorMessage :: "string option"
  ar_Summary :: "string option"
  ar_Metadata :: string
  ar_CreatedAt :: int
  ar_UpdatedAt :: int

definition NullAgentRun ::
  "string option \<Rightarrow> string option \<Rightarrow> string option \<Rightarrow>
   string option \<Rightarrow> string option \<Rightarrow> string option \<Rightarrow>
   string option \<Rightarrow> int option \<Rightarrow> int option \<Rightarrow>
   int option \<Rightarrow> int option \<Rightarrow> f64 option \<Rightarrow>
   string option \<Rightarrow> string option \<Rightarrow> string option \<Rightarrow>
   int option \<Rightarrow> int option \<Rightarrow> AgentRun" where
  "NullAgentRun rowID taskID workspaceID agentRole model provider status startedAt
     completedAt promptTokens completionTokens totalCost errorMessage summary metadata
     createdAt updatedAt
    = \<lparr>ar_ID = nz [] rowID, ar_TaskID = nz [] taskID, ar_WorkspaceID = workspaceID,
       ar_AgentRole = nz [] agentRole, ar_Model = model, ar_Provider = provider,
       ar_Status = nz [] status, ar_StartedAt = startedAt, ar_CompletedAt = completedAt,
       ar_PromptTokens = nz 0 promptTokens, ar_CompletionTokens = nz 0 completionTokens,
       ar_TotalCost = nz f64_zero totalCost, ar_ErrorMessage = errorMessage,
       ar_Summary = summary, ar_Metadata = nz [] metadata, ar_CreatedAt = nz 0 createdAt,
       ar_UpdatedAt = nz 0 updatedAt\<rparr>"

record AgentStep =
  as_ID :: string
  as_AgentRunID :: string
  as_StepNumber :: int
  as_StepType :: string
  as_Status :: string
  as_Content :: "string option"
  as_ToolName :: "string option"
  as_ToolInput :: string
  as_ToolOutput :: string
  as_Command :: "string option"
  as_CommandOutput :: "string option"
  as_ExitCode :: "int option"
  as_FilePath :: "string option"
  as_Diff :: "string option"
  as_Cost :: f64
  as_LatencyMs :: int
  as_CreatedAt :: int

definition NullAgentStep ::
  "string option \<Rightarrow> string option \<Rightarrow> int option \<Rightarrow>
   string option \<Rightarrow> string option \<Rightarrow> string option \<Rightarrow>
   string option \<Rightarrow> string option \<Rightarrow> string option \<Rightarrow>
   string option \<Rightarrow> string option \<Rightarrow> int option \<Rightarrow>
   string option \<Rightarrow> string option \<Rightarrow> f64 option \<Rightarrow>
   int option \<Rightarrow> int option \<Rightarrow> AgentStep" where
  "NullAgentStep rowID agentRunID stepNumber stepType status content toolName toolInput
     toolOutput command commandOutput exitCode filePath diff cost latencyMs createdAt
    = \<lparr>as_ID = nz [] rowID, as_AgentRunID = nz [] agentRunID, as_StepNumber = nz 0 stepNumber,
       as_StepType = nz [] stepType, as_Status = nz [] status, as_Content = content,
       as_ToolName = toolName, as_ToolInput = nz [] toolInput,
       as_ToolOutput = nz [] toolOutput, as_Command = command,
       as_CommandOutput = commandOutput, as_ExitCode = exitCode, as_FilePath = filePath,
       as_Diff = diff, as_Cost = nz f64_zero cost, as_LatencyMs = nz 0 latencyMs,
       as_CreatedAt = nz 0 createdAt\<rparr>"

record Approval =
  ap_ID :: string
  ap_TaskID :: string
  ap_AgentRunID :: "string option"
  ap_ApprovalType :: string
  ap_RequestedBy :: string
  ap_RequestedAt :: int
  ap_RespondedBy :: "string option"
  ap_Response :: "string option"
  ap_ResponseNote :: "string option"
  ap_RespondedAt :: "int option"
  ap_ExpiresAt :: "int option"
  ap_Metadata :: string
  ap_CreatedAt :: int
  ap_UpdatedAt :: int

definition Approval_Validate :: "Approval \<Rightarrow> string option" where
  "Approval_Validate x =
     (if ap_TaskID x = [] then Some ''approval task_id is required''
      else if ap_ApprovalType x = [] then Some ''approval approval_type is required''
      else if ap_RequestedBy x = [] then Some ''approval requested_by is required''
      else None)"

definition NullApproval ::
  "string option \<Rightarrow> string option \<Rightarrow> string option \<Rightarrow>
   string option \<Rightarrow> string option \<Rightarrow> int option \<Rightarrow>
   string option \<Rightarrow> string option \<Rightarrow> string option \<Rightarrow>
   int option \<Rightarrow> int option \<Rightarrow> string option \<Rightarrow>
   int option \<Rightarrow> int option \<Rightarrow> Approval" where
  "NullApproval rowID taskID agentRunID approvalType requestedBy requestedAt respondedBy
     response responseNote respondedAt expiresAt metadata createdAt updatedAt
    = \<lparr>ap_ID = nz [] rowID, ap_TaskID = nz [] taskID, ap_AgentRunID = agentRunID,
       ap_ApprovalType = nz [] approvalType, ap_RequestedBy = nz [] requestedBy,
       ap_RequestedAt = nz 0 requestedAt, ap_RespondedBy = respondedBy,
       ap_Response = response, ap_ResponseNote = responseNote, ap_RespondedAt = respondedAt,
       ap_ExpiresAt = expiresAt, ap_Metadata = nz [] metadata, ap_CreatedAt = nz 0 createdAt,
       ap_UpdatedAt = nz 0 updatedAt\<rparr>"

record AuditLog =
  al_ID :: string
  al_OrganizationID :: string
  al_ActorType :: string
  al_ActorID :: "string option"
  al_Action :: string
  al_ResourceType :: string
  al_ResourceID :: "string option"
  al_Details :: string
  al_IPAddress :: "string option"
  al_UserAgent :: "string option"
  al_CreatedAt :: int

definition AuditLog_Validate :: "AuditLog \<Rightarrow> string option" where
  "AuditLog_Validate x =
     (if al_OrganizationID x = [] then Some ''audit log organization_id is required''
      else if al_ActorType x = [] then Some ''audit log actor_type is required''
      else if al_Action x = [] then Some ''audit log action is required''
      else if al_ResourceType x = [] then Some ''audit log resource_type is required''
      else None)"

definition NullAuditLog ::
  "string option \<Rightarrow> string option \<Rightarrow> string option \<Rightarrow>
   string option \<Rightarrow> string option \<Rightarrow> string option \<Rightarrow>
   string option \<Rightarrow> string option \<Rightarrow> string option \<Rightarrow>
   string option \<Rightarrow> int option \<Rightarrow> AuditLog" where
  "NullAuditLog rowID orgID actorType actorID action resourceType resourceID details
     ipAddress userAgent createdAt
    = \<lparr>al_ID = nz [] rowID, al_OrganizationID = nz [] orgID, al_ActorType = nz [] actorType,
       al_ActorID = actorID, al_Action = nz [] action, al_ResourceType = nz [] resourceType,
       al_ResourceID = resourceID, al_Details = nz [] details, al_IPAddress = ipAddress,
       al_UserAgent = userAgent, al_CreatedAt = nz 0 createdAt\<rparr>"

record ModelPolicy =
  mp_ID :: string
  mp_OrganizationID :: string
  mp_ProjectID :: "string option"
  mp_Name :: string
  mp_ResourceType :: string
  mp_Action :: string
  mp_Effect :: string
  mp_Conditions :: string
  mp_Priority :: int
  mp_CreatedAt :: int
  mp_UpdatedAt :: int

definition ModelPolicy_Validate :: "ModelPolicy \<Rightarrow> string option" where
  "ModelPolicy_Validate x =
     (if mp_Name x = [] then Some ''policy name is required''
      else if mp_OrganizationID x = [] then Some ''policy organization_id is required''
      else if mp_ResourceType x = [] then Some ''policy resource_type is required''
      else if mp_Action x = [] then Some ''policy action is required''
      else if mp_Effect x \<noteq> ''allow'' \<and>
        mp_Effect x \<noteq> ''ask'' \<and>
        mp_Effect x \<noteq> ''deny'' \<and>
        mp_Effect x \<noteq> ''admin_only''
      then Some ''invalid policy effect''
      else None)"

definition NullPolicy ::
  "string option \<Rightarrow> string option \<Rightarrow> string option \<Rightarrow>
   string option \<Rightarrow> string option \<Rightarrow> string option \<Rightarrow>
   string option \<Rightarrow> string option \<Rightarrow> int option \<Rightarrow>
   int option \<Rightarrow> int option \<Rightarrow> ModelPolicy" where
  "NullPolicy rowID orgID projectID name resourceType action effect conditions priority
     createdAt updatedAt
    = \<lparr>mp_ID = nz [] rowID, mp_OrganizationID = nz [] orgID, mp_ProjectID = projectID,
       mp_Name = nz [] name, mp_ResourceType = nz [] resourceType, mp_Action = nz [] action,
       mp_Effect = nz [] effect, mp_Conditions = nz [] conditions,
       mp_Priority = nz 0 priority, mp_CreatedAt = nz 0 createdAt,
       mp_UpdatedAt = nz 0 updatedAt\<rparr>"

record Budget =
  b_ID :: string
  b_OrganizationID :: string
  b_ProjectID :: "string option"
  b_TaskID :: "string option"
  b_Type :: string
  b_Period :: string
  b_MaxCost :: "f64 option"
  b_MaxRuntimeMinutes :: int
  b_MaxModelCalls :: int
  b_MaxToolCalls :: int
  b_MaxShellCommands :: int
  b_MaxConcurrentAgents :: int
  b_MaxDailySpend :: "f64 option"
  b_Notifications :: string
  b_CreatedAt :: int
  b_UpdatedAt :: int

definition Budget_Validate :: "Budget \<Rightarrow> string option" where
  "Budget_Validate x =
     (if b_OrganizationID x = [] then Some ''budget organization_id is required''
      else if b_Type x = [] then Some ''budget type is required''
      else if b_Type x \<noteq> ''organization'' \<and>
        b_Type x \<noteq> ''project'' \<and>
        b_Type x \<noteq> ''task''
      then Some ''invalid budget type''
      else if b_Period x = [] then Some ''budget period is required''
      else None)"

definition NullBudget ::
  "string option \<Rightarrow> string option \<Rightarrow> string option \<Rightarrow>
   string option \<Rightarrow> string option \<Rightarrow> string option \<Rightarrow>
   f64 option \<Rightarrow> int option \<Rightarrow> int option \<Rightarrow>
   int option \<Rightarrow> int option \<Rightarrow> int option \<Rightarrow>
   f64 option \<Rightarrow> string option \<Rightarrow> int option \<Rightarrow>
   int option \<Rightarrow> Budget" where
  "NullBudget rowID orgID projectID taskID budgetType period maxCost maxRuntime
     maxModelCalls maxToolCalls maxShellCommands maxConcurrentAgents maxDailySpend
     notifications createdAt updatedAt
    = \<lparr>b_ID = nz [] rowID, b_OrganizationID = nz [] orgID, b_ProjectID = projectID,
       b_TaskID = taskID, b_Type = nz [] budgetType, b_Period = nz [] period,
       b_MaxCost = maxCost, b_MaxRuntimeMinutes = nz 0 maxRuntime,
       b_MaxModelCalls = nz 0 maxModelCalls, b_MaxToolCalls = nz 0 maxToolCalls,
       b_MaxShellCommands = nz 0 maxShellCommands,
       b_MaxConcurrentAgents = nz 0 maxConcurrentAgents, b_MaxDailySpend = maxDailySpend,
       b_Notifications = nz [] notifications, b_CreatedAt = nz 0 createdAt,
       b_UpdatedAt = nz 0 updatedAt\<rparr>"

section \<open>Predicates\<close>

definition IsTerminal :: "ModelTask \<Rightarrow> bool" where
  "IsTerminal x \<longleftrightarrow> tk_Status x = ''done'' \<or> tk_Status x = ''failed'' \<or> tk_Status x = ''cancelled''"

definition IsActive :: "ModelTask \<Rightarrow> bool" where
  "IsActive x \<longleftrightarrow> tk_Status x = ''running'' \<or> tk_Status x = ''reviewing''"

definition IsPending :: "Approval \<Rightarrow> bool" where
  "IsPending x \<longleftrightarrow> ap_Response x = None"

text \<open>The clock reading is an argument.\<close>

definition IsExpired :: "int \<Rightarrow> Approval \<Rightarrow> bool" where
  "IsExpired now x \<longleftrightarrow> (case ap_ExpiresAt x of None \<Rightarrow> False | Some t \<Rightarrow> t < now)"

definition IsUnlimited :: "Budget option \<Rightarrow> bool" where
  "IsUnlimited budget \<longleftrightarrow>
     (case budget of
        None \<Rightarrow> True
      | Some x \<Rightarrow> b_MaxCost x = None \<and> b_MaxDailySpend x = None \<and>
          b_MaxRuntimeMinutes x = 0 \<and> b_MaxModelCalls x = 0 \<and>
          b_MaxToolCalls x = 0 \<and> b_MaxShellCommands x = 0 \<and> b_MaxConcurrentAgents x = 0)"

section \<open>Rows\<close>

text \<open>
  Decoding is lossless: a row with the columns of an entity, null exactly where the entity has
  no value, decodes to the entity, for every entity that is scanned this way.
\<close>

theorem rows_lossless:
  "(\<forall>x. NullOrganization (Some (og_ID x)) (Some (og_Name x)) (Some (og_Slug x))
      (Some (og_Plan x)) (Some (og_Settings x)) (Some (og_CreatedAt x))
      (Some (og_UpdatedAt x)) (og_DeletedAt x) = x) \<and>
   (\<forall>x. NullProject (Some (pj_ID x)) (Some (pj_OrganizationID x)) (Some (pj_Name x))
      (Some (pj_Slug x)) (pj_Description x) (Some (pj_Settings x)) (Some (pj_CreatedAt x))
      (Some (pj_UpdatedAt x)) (pj_DeletedAt x) = x) \<and>
   (\<forall>x. NullUser (Some (u_ID x)) (Some (u_OrganizationID x)) (Some (u_Email x)) (u_Name x)
      (u_AvatarURL x) (Some (u_Role x)) (u_GitHubID x) (u_GitHubUsername x)
      (Some (u_Settings x)) (Some (u_CreatedAt x)) (Some (u_UpdatedAt x)) (u_DeletedAt x) = x) \<and>
   (\<forall>x. NullRepository (Some (rp_ID x)) (Some (rp_ProjectID x)) (rp_GitHubID x)
      (Some (rp_Owner x)) (Some (rp_Name x)) (Some (rp_FullName x)) (Some (rp_CloneURL x))
      (Some (rp_DefaultBranch x)) (Some (rp_Private x)) (Some (rp_ConnectionStatus x))
      (rp_LastSyncedAt x) (rp_WebhookSecret x) (Some (rp_Settings x)) (Some (rp_CreatedAt x))
      (Some (rp_UpdatedAt x)) (rp_DeletedAt x) = x) \<and>
   (\<forall>x. NullWorkspace (Some (ws_ID x)) (Some (ws_RepositoryID x)) (ws_TaskID x)
      (Some (ws_Name x)) (Some (ws_Branch x)) (Some (ws_BaseBranch x)) (ws_WorktreePath x)
      (Some (ws_RuntimeProvider x)) (ws_RuntimeSessionID x) (Some (ws_Status x))
      (ws_PreviewURL x) (Some (ws_Settings x)) (Some (ws_CreatedAt x)) (Some (ws_UpdatedAt x))
      (ws_DeletedAt x) = x) \<and>
   (\<forall>x. NullTask (Some (tk_ID x)) (Some (tk_ProjectID x)) (Some (tk_RepositoryID x))
      (tk_WorkspaceID x) (Some (tk_CreatedBy x)) (Some (tk_Source x)) (tk_SourceID x)
      (Some (tk_Title x)) (tk_Description x) (Some (tk_Status x)) (Some (tk_Priority x))
      (Some (tk_RiskLevel x)) (Some (tk_TargetBranch x)) (Some (tk_Spec x))
      (Some (tk_AcceptanceCriteria x)) (tk_MaxCost x) (Some (tk_MaxRuntimeMinutes x))
      (Some (tk_ApprovalRequirements x)) (Some (tk_Metadata x)) (tk_StartedAt x)
      (tk_CompletedAt x) (Some (tk_CreatedAt x)) (Some (tk_UpdatedAt x)) (tk_DeletedAt x) = x) \<and>
   (\<forall>x. NullAgentRun (Some (ar_ID x)) (Some (ar_TaskID x)) (ar_WorkspaceID x)
      (Some (ar_AgentRole x)) (ar_Model x) (ar_Provider x) (Some (ar_Status x))
      (ar_StartedAt x) (ar_CompletedAt x) (Some (ar_PromptTokens x))
      (Some (ar_CompletionTokens x)) (Some (ar_TotalCost x)) (ar_ErrorMessage x)
      (ar_Summary x) (Some (ar_Metadata x)) (Some (ar_CreatedAt x)) (Some (ar_UpdatedAt x)) = x) \<and>
   (\<forall>x. NullAgentStep (Some (as_ID x)) (Some (as_AgentRunID x)) (Some (as_StepNumber x))
      (Some (as_StepType x)) (Some (as_Status x)) (as_Content x) (as_ToolName x)
      (Some (as_ToolInput x)) (Some (as_ToolOutput x)) (as_Command x) (as_CommandOutput x)
      (as_ExitCode x) (as_FilePath x) (as_Diff x) (Some (as_Cost x)) (Some (as_LatencyMs x))
      (Some (as_CreatedAt x)) = x) \<and>
   (\<forall>x. NullApproval (Some (ap_ID x)) (Some (ap_TaskID x)) (ap_AgentRunID x)
      (Some (ap_ApprovalType x)) (Some (ap_RequestedBy x)) (Some (ap_RequestedAt x))
      (ap_RespondedBy x) (ap_Response x) (ap_ResponseNote x) (ap_RespondedAt x)
      (ap_ExpiresAt x) (Some (ap_Metadata x)) (Some (ap_CreatedAt x)) (Some (ap_UpdatedAt x)) = x) \<and>
   (\<forall>x. NullAuditLog (Some (al_ID x)) (Some (al_OrganizationID x)) (Some (al_ActorType x))
      (al_ActorID x) (Some (al_Action x)) (Some (al_ResourceType x)) (al_ResourceID x)
      (Some (al_Details x)) (al_IPAddress x) (al_UserAgent x) (Some (al_CreatedAt x)) = x) \<and>
   (\<forall>x. NullPolicy (Some (mp_ID x)) (Some (mp_OrganizationID x)) (mp_ProjectID x)
      (Some (mp_Name x)) (Some (mp_ResourceType x)) (Some (mp_Action x)) (Some (mp_Effect x))
      (Some (mp_Conditions x)) (Some (mp_Priority x)) (Some (mp_CreatedAt x))
      (Some (mp_UpdatedAt x)) = x) \<and>
   (\<forall>x. NullBudget (Some (b_ID x)) (Some (b_OrganizationID x)) (b_ProjectID x) (b_TaskID x)
      (Some (b_Type x)) (Some (b_Period x)) (b_MaxCost x) (Some (b_MaxRuntimeMinutes x))
      (Some (b_MaxModelCalls x)) (Some (b_MaxToolCalls x)) (Some (b_MaxShellCommands x))
      (Some (b_MaxConcurrentAgents x)) (b_MaxDailySpend x) (Some (b_Notifications x))
      (Some (b_CreatedAt x)) (Some (b_UpdatedAt x)) = x)"
  by (simp add: NullOrganization_def NullProject_def NullUser_def NullRepository_def NullWorkspace_def NullTask_def NullAgentRun_def NullAgentStep_def NullApproval_def NullAuditLog_def NullPolicy_def NullBudget_def)

end
