(* ===== verification/GoHash.thy ===== *)
theory GoHash
  imports GoStrings "HOL-Library.Word"
begin

unbundle bit_operations_syntax

text \<open>
  The hash, the hexadecimal and the decimal texts the control plane builds identities from:
  \<open>crypto/sha256\<close>, \<open>encoding/hex\<close> and \<open>strconv.FormatUint\<close> of Go's standard library, over byte
  strings.  Nothing here assumes that the hash has no collisions.
\<close>

section \<open>SHA-256\<close>

type_synonym u32 = "32 word"

text \<open>The 64 round constants, as one number in base \<open>2 ^ 32\<close>, the first constant the most significant digit.\<close>

definition sha_table :: int where
  "sha_table =
    8399870144517823301722239222130927227141849779511242471197906795369846673996008864786532278482947930035050432913372875699354429524650716672308175015812472005008943341011247634627600705591103756174659437448007297240981034636327441933849465611186184660803773840414514428031635770391245199770927811112653141372483794982516161135727373084047811483050876080270389320947077305721183235613169389468744126235534648516788175255292025668825020963291224099932572215580391753777671218957634024159536228058522778003881673030597872562207069818177476920296259993961459554031943090626293016819766823808480230688357231269177224952050"

definition sha_k :: "u32 list" where
  "sha_k = map (\<lambda>i. word_of_int (sha_table div 2 ^ (32 * (63 - i)))) [0..<64]"

definition sha_start :: "u32 list" where
  "sha_start =
    [0x6a09e667, 0xbb67ae85, 0x3c6ef372, 0xa54ff53a, 0x510e527f, 0x9b05688c, 0x1f83d9ab, 0x5be0cd19]"

definition rotr32 :: "nat \<Rightarrow> u32 \<Rightarrow> u32" where
  "rotr32 n w = drop_bit n w OR push_bit (32 - n) w"

text \<open>One more word of the message schedule, from the sixteen before it (the newest first).\<close>

definition sha_next :: "u32 list \<Rightarrow> u32" where
  "sha_next ws =
     (let w15 = ws ! 14; w2 = ws ! 1;
          s0 = rotr32 7 w15 XOR rotr32 18 w15 XOR drop_bit 3 w15;
          s1 = rotr32 17 w2 XOR rotr32 19 w2 XOR drop_bit 10 w2
      in (ws ! 15) + s0 + (ws ! 6) + s1)"

fun sha_extend :: "nat \<Rightarrow> u32 list \<Rightarrow> u32 list" where
  "sha_extend 0 ws = ws"
| "sha_extend (Suc n) ws = sha_extend n (sha_next ws # ws)"

fun sha_round :: "u32 list \<Rightarrow> u32 \<times> u32 \<Rightarrow> u32 list" where
  "sha_round [a, b, c, d, e, f, g, h] (k, w) =
     (let s1 = rotr32 6 e XOR rotr32 11 e XOR rotr32 25 e;
          ch = (e AND f) XOR (NOT e AND g);
          t1 = h + s1 + ch + k + w;
          s0 = rotr32 2 a XOR rotr32 13 a XOR rotr32 22 a;
          maj = (a AND b) XOR (a AND c) XOR (b AND c)
      in [t1 + s0 + maj, a, b, c, d + t1, e, f, g])"
| "sha_round _ _ = []"

definition sha_block :: "u32 list \<Rightarrow> u32 list \<Rightarrow> u32 list" where
  "sha_block hs block =
     map2 (+) hs (foldl sha_round hs (zip sha_k (rev (sha_extend 48 (rev block)))))"

fun be_word :: "string \<Rightarrow> u32" where
  "be_word [] = 0"
| "be_word (c # cs) = push_bit (8 * length cs) (of_char c) OR be_word cs"

fun be_bytes :: "nat \<Rightarrow> int \<Rightarrow> string" where
  "be_bytes 0 n = []"
| "be_bytes (Suc k) n = be_bytes k (n div 256) @ [char_of (n mod 256)]"

function chunks :: "nat \<Rightarrow> 'a list \<Rightarrow> 'a list list" where
  "chunks k xs = (if k = 0 \<or> xs = [] then [] else take k xs # chunks k (drop k xs))"
  by pat_completeness auto
termination by (relation "measure (length \<circ> snd)") auto

declare chunks.simps [simp del]

definition sha_pad :: "string \<Rightarrow> string" where
  "sha_pad msg =
     msg @ [CHR 0x80] @ replicate ((119 - length msg mod 64) mod 64) (CHR 0x00) @
     be_bytes 8 (8 * int (length msg) mod 2 ^ 64)"

definition Sum256 :: "string \<Rightarrow> string" where
  "Sum256 msg =
     concat (map (\<lambda>w. be_bytes 4 (uint w))
       (foldl sha_block sha_start (map (\<lambda>b. map be_word (chunks 4 b)) (chunks 64 (sha_pad msg)))))"

section \<open>Hexadecimal and decimal texts\<close>

definition hex_digit :: "nat \<Rightarrow> char" where
  "hex_digit n = ''0123456789abcdef'' ! n"

definition EncodeToString :: "string \<Rightarrow> string" where
  "EncodeToString s = concat (map (\<lambda>c. [hex_digit (of_char c div 16), hex_digit (of_char c mod 16)]) s)"

definition sha256_hex :: "string \<Rightarrow> string" where
  "sha256_hex s = EncodeToString (Sum256 s)"

function FormatUint :: "int \<Rightarrow> string" where
  "FormatUint n =
     (if n < 10 then [char_of (48 + n)] else FormatUint (n div 10) @ [char_of (48 + n mod 10)])"
  by pat_completeness auto
termination by (relation "measure nat") auto

declare FormatUint.simps [simp del]

fun parse_uint :: "int \<Rightarrow> string \<Rightarrow> int" where
  "parse_uint acc [] = acc"
| "parse_uint acc (c # cs) = parse_uint (10 * acc + (of_char c - 48)) cs"

lemma parse_uint_append: "parse_uint acc (s @ t) = parse_uint (parse_uint acc s) t"
  by (induction s arbitrary: acc) auto

lemma parse_FormatUint: "0 \<le> n \<Longrightarrow> parse_uint 0 (FormatUint n) = n"
proof (induction n rule: FormatUint.induct)
  case (1 n)
  show ?case
  proof (cases "n < 10")
    case True
    with 1 show ?thesis by (simp add: FormatUint.simps [of n])
  next
    case False
    with 1 have "parse_uint 0 (FormatUint (n div 10)) = n div 10" by simp
    with False show ?thesis by (simp add: FormatUint.simps [of n] parse_uint_append)
  qed
qed

lemma FormatUint_inj: "0 \<le> m \<Longrightarrow> 0 \<le> n \<Longrightarrow> FormatUint m = FormatUint n \<longleftrightarrow> m = n"
  by (metis parse_FormatUint)

lemma FormatUint_digits:
  "0 \<le> n \<Longrightarrow> c \<in> set (FormatUint n) \<Longrightarrow> 48 \<le> (of_char c :: int) \<and> (of_char c :: int) \<le> 57"
proof (induction n rule: FormatUint.induct)
  case (1 n)
  then show ?case
    by (cases "n < 10") (auto simp: FormatUint.simps [of n])
qed

end
