(* ===== verification/Policies.thy ===== *)
theory Policies
  imports Models GoHash "HOL-Library.Multiset"
begin

text \<open>
  The policy engine (\<open>packages/policies/policy.go\<close>) and role-based access (\<open>rbac.go\<close>).

  A value of type \<open>any\<close> is tagged with its dynamic type; \<open>AOther\<close> carries the text that
  \<open>fmt.Sprint\<close> prints for a value of a type the package does not look into.  The shortest decimal
  text of a float is a parameter \<open>ftext\<close> of the definitions that print one.
\<close>

section \<open>Effects\<close>

datatype Effect = EffectAllow | EffectAsk | EffectDeny | EffectAdminOnly | EffectOther string

text \<open>The order of the table; an effect it does not list reads as 0.\<close>

fun effectOrder :: "Effect \<Rightarrow> int" where
  "effectOrder EffectAllow = 0"
| "effectOrder EffectAsk = 1"
| "effectOrder EffectDeny = 2"
| "effectOrder EffectAdminOnly = 3"
| "effectOrder (EffectOther s) = 0"

definition MoreRestrictiveThan :: "Effect \<Rightarrow> Effect \<Rightarrow> bool" where
  "MoreRestrictiveThan e other \<longleftrightarrow> effectOrder e > effectOrder other"

fun effectText :: "Effect \<Rightarrow> string" where
  "effectText EffectAllow = ''allow''"
| "effectText EffectAsk = ''ask''"
| "effectText EffectDeny = ''deny''"
| "effectText EffectAdminOnly = ''admin_only''"
| "effectText (EffectOther s) = s"

section \<open>Policies and requests\<close>

datatype gany = ANil | ABool bool | AInt int | AInt32 int | AInt64 int | AFloat f64 | AString string
  | AOther string

record Policy =
  p_ID :: string
  p_OrgID :: string
  p_ProjectID :: "string option"
  p_Name :: string
  p_ResourceType :: string
  p_Action :: string
  p_Effect :: Effect
  p_Conditions :: "(string \<times> gany) list"
  p_Priority :: int

definition Match :: "Policy \<Rightarrow> string \<Rightarrow> string \<Rightarrow> bool" where
  "Match p resourceType action =
     (if p_ResourceType p \<noteq> [] \<and> p_ResourceType p \<noteq> ''*'' \<and> p_ResourceType p \<noteq> resourceType then False
      else if p_Action p \<noteq> [] \<and> p_Action p \<noteq> ''*'' \<and> p_Action p \<noteq> action then False
      else True)"

record EvaluationRequest =
  er_User :: "User option"
  er_Task :: "ModelTask option"
  er_Workspace :: "Workspace option"
  er_Action :: string
  er_ResourceType :: string
  er_Resource :: string
  er_Details :: "string \<rightharpoonup> gany"

definition getScope :: "EvaluationRequest \<Rightarrow> string" where
  "getScope req =
     (case er_Workspace req of
        Some w \<Rightarrow> if ws_RuntimeProvider w \<noteq> [] then ws_RuntimeProvider w else []
      | None \<Rightarrow> [])"

definition getBranch :: "EvaluationRequest \<Rightarrow> string" where
  "getBranch req =
     (case er_Workspace req of
        Some w \<Rightarrow> ws_Branch w
      | None \<Rightarrow> (case er_Task req of Some t \<Rightarrow> tk_TargetBranch t | None \<Rightarrow> []))"

definition getEnvironment :: "EvaluationRequest \<Rightarrow> string" where
  "getEnvironment req = (case er_Task req of Some t \<Rightarrow> tk_RiskLevel t | None \<Rightarrow> [])"

fun toInt :: "gany \<Rightarrow> int option" where
  "toInt (AInt n) = Some n"
| "toInt (AInt32 n) = Some n"
| "toInt (AInt64 n) = Some n"
| "toInt (AFloat x) = Some (f64_trunc x)"
| "toInt _ = None"

fun toFloat :: "gany \<Rightarrow> f64 option" where
  "toFloat (AFloat x) = Some x"
| "toFloat (AInt n) = Some (f64_of_int n)"
| "toFloat (AInt32 n) = Some (f64_of_int n)"
| "toFloat (AInt64 n) = Some (f64_of_int n)"
| "toFloat _ = None"

definition FormatInt :: "int \<Rightarrow> string" where
  "FormatInt n = (if n < 0 then CHR ''-'' # FormatUint (- n) else FormatUint n)"

text \<open>\<open>fmt.Sprint\<close> of one value.\<close>

fun Sprint :: "(f64 \<Rightarrow> string) \<Rightarrow> gany \<Rightarrow> string" where
  "Sprint ftext ANil = ''<nil>''"
| "Sprint ftext (ABool b) = (if b then ''true'' else ''false'')"
| "Sprint ftext (AInt n) = FormatInt n"
| "Sprint ftext (AInt32 n) = FormatInt n"
| "Sprint ftext (AInt64 n) = FormatInt n"
| "Sprint ftext (AFloat x) = ftext x"
| "Sprint ftext (AString s) = s"
| "Sprint ftext (AOther s) = s"

definition conditionActual :: "EvaluationRequest \<Rightarrow> string \<Rightarrow> gany option" where
  "conditionActual req key =
     (case er_Details req key of
        Some v \<Rightarrow> Some v
      | None \<Rightarrow>
        if key = ''scope'' then Some (AString (getScope req))
        else if key = ''branch'' then Some (AString (getBranch req))
        else if key = ''environment'' then Some (AString (getEnvironment req))
        else None)"

definition conditionHolds :: "(f64 \<Rightarrow> string) \<Rightarrow> gany \<Rightarrow> gany \<Rightarrow> bool" where
  "conditionHolds ftext actual expected =
     (case expected of
        AInt bound \<Rightarrow> (case toInt actual of None \<Rightarrow> False | Some act \<Rightarrow> \<not> act < bound)
      | AFloat bound \<Rightarrow> (case toFloat actual of None \<Rightarrow> False | Some act \<Rightarrow> \<not> f64_less act bound)
      | _ \<Rightarrow> Sprint ftext actual = Sprint ftext expected)"

fun conditionLoop :: "(f64 \<Rightarrow> string) \<Rightarrow> EvaluationRequest \<Rightarrow> (string \<times> gany) list \<Rightarrow> bool" where
  "conditionLoop ftext req [] = True"
| "conditionLoop ftext req ((key, expected) # conditions) =
     (case conditionActual req key of
        None \<Rightarrow> False
      | Some actual \<Rightarrow>
        if \<not> conditionHolds ftext actual expected then False else conditionLoop ftext req conditions)"

definition checkConditions :: "(f64 \<Rightarrow> string) \<Rightarrow> Policy \<Rightarrow> EvaluationRequest \<Rightarrow> bool" where
  "checkConditions ftext policy req =
     (if p_Conditions policy = [] then True else conditionLoop ftext req (p_Conditions policy))"

section \<open>The engine\<close>

record PolicyEngine =
  pe_policies :: "Policy list"

text \<open>
  \<open>sort.Slice\<close> may order policies of one priority in any way; the stable sort stands for it, and
  the order is proved below to make no difference to a decision.
\<close>

definition sortPoliciesByPriority :: "Policy list \<Rightarrow> Policy list" where
  "sortPoliciesByPriority policies = sort_key (\<lambda>p. - p_Priority p) policies"

definition NewEngine :: "Policy list \<Rightarrow> PolicyEngine" where
  "NewEngine policies = \<lparr>pe_policies = sortPoliciesByPriority policies\<rparr>"

fun evaluateLoop ::
    "(f64 \<Rightarrow> string) \<Rightarrow> EvaluationRequest \<Rightarrow> Policy list \<Rightarrow> Effect \<Rightarrow> bool \<Rightarrow> Effect" where
  "evaluateLoop ftext req [] result matched = result"
| "evaluateLoop ftext req (policy # policies) result matched =
     (if \<not> Match policy (er_ResourceType req) (er_Action req)
      then evaluateLoop ftext req policies result matched
      else if \<not> checkConditions ftext policy req
      then evaluateLoop ftext req policies result matched
      else if \<not> matched then evaluateLoop ftext req policies (p_Effect policy) True
      else if MoreRestrictiveThan (p_Effect policy) result
      then evaluateLoop ftext req policies (p_Effect policy) matched
      else evaluateLoop ftext req policies result matched)"

text \<open>The error of \<open>Evaluate\<close> is always nil.\<close>

definition Evaluate :: "(f64 \<Rightarrow> string) \<Rightarrow> PolicyEngine \<Rightarrow> EvaluationRequest \<Rightarrow> Effect \<Rightarrow> Effect" where
  "Evaluate ftext e req defaultEffect = evaluateLoop ftext req (pe_policies e) defaultEffect False"

record ActionPair =
  apr_ResourceType :: string
  apr_Action :: string

fun evaluateManyLoop ::
    "(f64 \<Rightarrow> string) \<Rightarrow> PolicyEngine \<Rightarrow> EvaluationRequest \<Rightarrow> ActionPair list \<Rightarrow> Effect \<Rightarrow> Effect" where
  "evaluateManyLoop ftext e req [] result = result"
| "evaluateManyLoop ftext e req (a # actions) result =
     (let req1 = req\<lparr>er_ResourceType := apr_ResourceType a, er_Action := apr_Action a\<rparr>;
          effect = Evaluate ftext e req1 EffectAsk
      in evaluateManyLoop ftext e req1 actions
           (if MoreRestrictiveThan effect result then effect else result))"

definition EvaluateMany ::
    "(f64 \<Rightarrow> string) \<Rightarrow> PolicyEngine \<Rightarrow> EvaluationRequest \<Rightarrow> ActionPair list \<Rightarrow> Effect" where
  "EvaluateMany ftext e req actions = evaluateManyLoop ftext e req actions EffectAllow"

fun detailsLoop ::
    "(f64 \<Rightarrow> string) \<Rightarrow> EvaluationRequest \<Rightarrow> Policy list \<Rightarrow> Effect \<Rightarrow> string list \<Rightarrow> Effect \<times> string list" where
  "detailsLoop ftext req [] result matched = (result, matched)"
| "detailsLoop ftext req (policy # policies) result matched =
     (if \<not> Match policy (er_ResourceType req) (er_Action req)
      then detailsLoop ftext req policies result matched
      else if \<not> checkConditions ftext policy req
      then detailsLoop ftext req policies result matched
      else (let matched1 = matched @ [p_Name policy] in
        if length matched1 = 1 then detailsLoop ftext req policies (p_Effect policy) matched1
        else if MoreRestrictiveThan (p_Effect policy) result
        then detailsLoop ftext req policies (p_Effect policy) matched1
        else detailsLoop ftext req policies result matched1))"

definition EvaluateWithDetails ::
    "(f64 \<Rightarrow> string) \<Rightarrow> PolicyEngine \<Rightarrow> EvaluationRequest \<Rightarrow> Effect \<Rightarrow> Effect \<times> string list" where
  "EvaluateWithDetails ftext e req defaultEffect =
     detailsLoop ftext req (pe_policies e) defaultEffect []"

definition AddPolicy :: "PolicyEngine \<Rightarrow> Policy \<Rightarrow> PolicyEngine" where
  "AddPolicy e p = e\<lparr>pe_policies := sortPoliciesByPriority (pe_policies e @ [p])\<rparr>"

definition EnginePolicies :: "PolicyEngine \<Rightarrow> Policy list" where
  "EnginePolicies e = pe_policies e"

definition rule :: "string \<Rightarrow> string \<Rightarrow> string \<Rightarrow> Effect \<Rightarrow> int \<Rightarrow> (string \<times> gany) list \<Rightarrow> Policy" where
  "rule name res act eff prio conds =
     \<lparr>p_ID = [], p_OrgID = [], p_ProjectID = None, p_Name = name, p_ResourceType = res,
      p_Action = act, p_Effect = eff, p_Conditions = conds, p_Priority = prio\<rparr>"

definition defaultPolicies :: "Policy list" where
  "defaultPolicies =
    [rule ''allow_file_reads'' ''file'' ''read'' EffectAllow 100 [],
     rule ''allow_repo_search'' ''command'' ''search'' EffectAllow 100 [],
     rule ''allow_static_analysis'' ''command'' ''analyze'' EffectAllow 100 [],
     rule ''allow_tests'' ''command'' ''test'' EffectAllow 100 [],
     rule ''ask_file_writes'' ''file'' ''write'' EffectAsk 200 [],
     rule ''ask_command_execute'' ''command'' ''execute'' EffectAsk 200 [],
     rule ''ask_dependency_install'' ''command'' ''install'' EffectAsk 200 [],
     rule ''ask_db_migrate'' ''command'' ''migrate'' EffectAsk 200 [],
     rule ''ask_git_commit'' ''git'' ''commit'' EffectAsk 200 [],
     rule ''ask_git_push'' ''git'' ''push'' EffectAsk 200 [],
     rule ''ask_network'' ''network'' ''*'' EffectAsk 200 [],
     rule ''ask_pr_create'' ''git'' ''create_pr'' EffectAsk 200 [],
     rule ''deny_production_secrets'' ''secret'' ''read'' EffectDeny 300 [(''scope'', AString ''production'')],
     rule ''deny_destructive_db'' ''command'' ''destructive_db'' EffectDeny 300 [],
     rule ''deny_large_delete'' ''file'' ''delete'' EffectDeny 300 [(''min_size_mb'', AInt 10)],
     rule ''deny_push_main'' ''git'' ''push'' EffectDeny 300 [(''branch'', AString ''main'')],
     rule ''deny_production_deploy'' ''deploy'' ''*'' EffectDeny 300 [(''environment'', AString ''production'')],
     rule ''admin_deploy_prod'' ''deploy'' ''*'' EffectAdminOnly 400 [(''environment'', AString ''production'')],
     rule ''admin_merge_pr'' ''git'' ''merge'' EffectAdminOnly 400 [],
     rule ''admin_write_secrets'' ''secret'' ''write'' EffectAdminOnly 400 [],
     rule ''admin_rotate_secrets'' ''secret'' ''rotate'' EffectAdminOnly 400 [],
     rule ''admin_modify_policies'' ''policy'' ''*'' EffectAdminOnly 400 []]"

definition DefaultEngine :: PolicyEngine where
  "DefaultEngine = NewEngine defaultPolicies"

section \<open>Roles\<close>

definition RoleHierarchy :: "string list" where
  "RoleHierarchy = [''member'', ''admin'', ''owner'']"

definition RoleRank :: "string \<Rightarrow> int option" where
  "RoleRank role =
     (if role = ''member'' then Some 0 else if role = ''admin'' then Some 1
      else if role = ''owner'' then Some 2 else None)"

type_synonym Permission = "string \<times> string"

definition RBACConfig :: "string \<Rightarrow> Permission list option" where
  "RBACConfig role =
     (if role = ''owner'' then Some [(''*'', ''*'')]
      else if role = ''admin'' then Some
        [(''file'', ''read''), (''file'', ''write''), (''command'', ''read''), (''command'', ''execute''),
         (''git'', ''*''), (''network'', ''read''), (''deploy'', ''read''), (''deploy'', ''execute''),
         (''secret'', ''read''), (''secret'', ''write''), (''organization'', ''read''),
         (''organization'', ''write''), (''project'', ''*''), (''user'', ''*''), (''policy'', ''*''),
         (''audit'', ''read''), (''integration'', ''*'')]
      else if role = ''member'' then Some
        [(''file'', ''read''), (''file'', ''write''), (''command'', ''read''), (''git'', ''read''),
         (''git'', ''write''), (''network'', ''read''), (''project'', ''read''), (''task'', ''*''),
         (''repository'', ''read'')]
      else None)"

definition HasRole :: "User option \<Rightarrow> string \<Rightarrow> bool" where
  "HasRole user minRole =
     (case user of
        None \<Rightarrow> False
      | Some u \<Rightarrow>
        (case (RoleRank (u_Role u), RoleRank minRole) of
           (Some userRank, Some minRank) \<Rightarrow> userRank \<ge> minRank
         | _ \<Rightarrow> False))"

fun permissionLoop :: "Permission list \<Rightarrow> string \<Rightarrow> string \<Rightarrow> bool" where
  "permissionLoop [] resourceType action = False"
| "permissionLoop ((res, act) # perms) resourceType action =
     (if res = ''*'' \<and> (act = ''*'' \<or> act = action) then True
      else if res = resourceType \<and> (act = ''*'' \<or> act = action) then True
      else if res = resourceType \<and> act = action then True
      else permissionLoop perms resourceType action)"

definition Can :: "User option \<Rightarrow> string \<Rightarrow> string \<Rightarrow> bool" where
  "Can user resourceType action =
     (case user of
        None \<Rightarrow> False
      | Some u \<Rightarrow>
        (case RBACConfig (u_Role u) of
           None \<Rightarrow> False
         | Some perms \<Rightarrow> permissionLoop perms resourceType action))"

definition CanAny :: "User option \<Rightarrow> Permission list \<Rightarrow> bool" where
  "CanAny user perms \<longleftrightarrow> (\<exists>p \<in> set perms. Can user (fst p) (snd p))"

definition CanAll :: "User option \<Rightarrow> Permission list \<Rightarrow> bool" where
  "CanAll user perms \<longleftrightarrow> (\<forall>p \<in> set perms. Can user (fst p) (snd p))"

definition IsOwner :: "User option \<Rightarrow> bool" where
  "IsOwner user \<longleftrightarrow> (case user of None \<Rightarrow> False | Some u \<Rightarrow> u_Role u = ''owner'')"

definition IsAdmin :: "User option \<Rightarrow> bool" where
  "IsAdmin user \<longleftrightarrow> HasRole user ''admin''"

definition GetPermissionsForRole :: "string \<Rightarrow> Permission list" where
  "GetPermissionsForRole role = (case RBACConfig role of None \<Rightarrow> [] | Some perms \<Rightarrow> perms)"

definition RoleNames :: "string list" where
  "RoleNames = [''owner'', ''admin'', ''member'']"

section \<open>The most restrictive effect\<close>

text \<open>
  The interface of a strict weak order by which a loop keeps the best value seen: what is kept is
  one of the values, and none of them is better.
\<close>

locale preference =
  fixes better :: "'e \<Rightarrow> 'e \<Rightarrow> bool"
  assumes better_irrefl: "\<not> better x x"
    and better_trans: "better x y \<Longrightarrow> better y z \<Longrightarrow> better x z"
    and better_split: "better x z \<Longrightarrow> better x y \<or> better y z"
begin

definition keep :: "'e \<Rightarrow> 'e \<Rightarrow> 'e" where
  "keep r e = (if better e r then e else r)"

lemma keep_not_worse: "\<not> better r (keep r e)" "\<not> better e (keep r e)"
  using better_irrefl better_trans [of r e r] by (auto simp: keep_def)

lemma foldl_keep_in: "foldl keep r es \<in> insert r (set es)"
proof (induction es arbitrary: r)
  case Nil
  then show ?case by simp
next
  case (Cons e es)
  from Cons.IH [of "keep r e"] show ?case by (auto simp: keep_def split: if_splits)
qed

lemma foldl_keep_start: "\<not> better r (foldl keep r es)"
proof (induction es arbitrary: r)
  case Nil
  then show ?case by (simp add: better_irrefl)
next
  case (Cons e es)
  from Cons.IH [of "keep r e"] keep_not_worse(1) [of r e]
    better_split [of r "foldl keep (keep r e) es" "keep r e"]
  show ?case by auto
qed

lemma foldl_keep_best: "x \<in> set es \<Longrightarrow> \<not> better x (foldl keep r es)"
proof (induction es arbitrary: r)
  case Nil
  then show ?case by simp
next
  case (Cons e es)
  show ?case
  proof (cases "x \<in> set es")
    case True
    with Cons.IH show ?thesis by simp
  next
    case False
    with Cons.prems have "x = e" by simp
    with keep_not_worse(2) [of e r] foldl_keep_start [of "keep r e" es]
      better_split [of x "foldl keep (keep r e) es" "keep r e"]
    show ?thesis by auto
  qed
qed

end

interpretation effects: preference MoreRestrictiveThan
  by unfold_locales (auto simp: MoreRestrictiveThan_def)

text \<open>The policies that apply to a request.\<close>

definition applies :: "(f64 \<Rightarrow> string) \<Rightarrow> EvaluationRequest \<Rightarrow> Policy \<Rightarrow> bool" where
  "applies ftext req p \<longleftrightarrow> Match p (er_ResourceType req) (er_Action req) \<and> checkConditions ftext p req"

definition bestOf :: "Effect list \<Rightarrow> Effect \<Rightarrow> Effect" where
  "bestOf es d = (case es of [] \<Rightarrow> d | e # es' \<Rightarrow> foldl effects.keep e es')"

lemma evaluateLoop_matched:
  "evaluateLoop ftext req ps r True = foldl effects.keep r (map p_Effect (filter (applies ftext req) ps))"
  by (induction ps arbitrary: r) (auto simp: applies_def effects.keep_def)

lemma evaluateLoop_eq:
  "evaluateLoop ftext req ps d False = bestOf (map p_Effect (filter (applies ftext req) ps)) d"
  by (induction ps) (auto simp: applies_def [abs_def] bestOf_def evaluateLoop_matched)

lemma Evaluate_eq:
  "Evaluate ftext e req d = bestOf (map p_Effect (filter (applies ftext req) (pe_policies e))) d"
  by (simp add: Evaluate_def evaluateLoop_eq)

lemma bestOf_in: "es \<noteq> [] \<Longrightarrow> bestOf es d \<in> set es"
  using effects.foldl_keep_in by (cases es) (auto simp: bestOf_def)

lemma bestOf_best: "x \<in> set es \<Longrightarrow> \<not> MoreRestrictiveThan x (bestOf es d)"
  using effects.foldl_keep_start effects.foldl_keep_best by (cases es) (auto simp: bestOf_def)

lemma detailsLoop_eq:
  "detailsLoop ftext req ps r ns =
     (evaluateLoop ftext req ps r (ns \<noteq> []), ns @ map p_Name (filter (applies ftext req) ps))"
proof (induction ps arbitrary: r ns)
  case Nil
  then show ?case by simp
next
  case (Cons p ps)
  then show ?case by (auto simp: applies_def Let_def)
qed

lemma Evaluate_spec:
  "(if \<exists>p. p \<in> set (pe_policies e) \<and> applies ftext req p
    then (\<exists>p. p \<in> set (pe_policies e) \<and> applies ftext req p \<and> Evaluate ftext e req d = p_Effect p) \<and>
      (\<nexists>p. p \<in> set (pe_policies e) \<and> applies ftext req p \<and>
        MoreRestrictiveThan (p_Effect p) (Evaluate ftext e req d))
    else Evaluate ftext e req d = d) \<and>
   EvaluateWithDetails ftext e req d =
     (Evaluate ftext e req d, map p_Name (filter (applies ftext req) (pe_policies e)))"
proof -
  let ?es = "map p_Effect (filter (applies ftext req) (pe_policies e))"
  have "(\<exists>p. p \<in> set (pe_policies e) \<and> applies ftext req p \<and> bestOf ?es d = p_Effect p) \<and>
      (\<nexists>p. p \<in> set (pe_policies e) \<and> applies ftext req p \<and> MoreRestrictiveThan (p_Effect p) (bestOf ?es d))"
    if "\<exists>p. p \<in> set (pe_policies e) \<and> applies ftext req p"
  proof -
    from that have "?es \<noteq> []" by (auto simp: filter_empty_conv)
    then have "bestOf ?es d \<in> set ?es" by (rule bestOf_in)
    moreover have "\<not> MoreRestrictiveThan (p_Effect p) (bestOf ?es d)"
      if "p \<in> set (pe_policies e)" "applies ftext req p" for p
      using that by (intro bestOf_best) simp
    ultimately show ?thesis by auto
  qed
  moreover have "bestOf ?es d = d" if "\<not> (\<exists>p. p \<in> set (pe_policies e) \<and> applies ftext req p)"
  proof -
    from that have "?es = []" by (auto simp: filter_empty_conv)
    then show ?thesis by (simp add: bestOf_def)
  qed
  moreover have "EvaluateWithDetails ftext e req d =
      (Evaluate ftext e req d, map p_Name (filter (applies ftext req) (pe_policies e)))"
    by (simp add: EvaluateWithDetails_def detailsLoop_eq Evaluate_def)
  ultimately show ?thesis by (simp add: Evaluate_eq)
qed

text \<open>
  The engine decides by the most restrictive policy that applies: with none, the result is
  the default; otherwise it is the effect of a policy that applies, and no policy that applies
  is more restrictive.  The diagnostic variant gives the same effect and names those policies.
\<close>

theorem Evaluate_most_restrictive:
  "(if \<exists>p. p \<in> set (pe_policies e) \<and> applies ftext req p
    then (\<exists>p. p \<in> set (pe_policies e) \<and> applies ftext req p \<and> Evaluate ftext e req d = p_Effect p) \<and>
      (\<nexists>p. p \<in> set (pe_policies e) \<and> applies ftext req p \<and>
        MoreRestrictiveThan (p_Effect p) (Evaluate ftext e req d))
    else Evaluate ftext e req d = d) \<and>
   EvaluateWithDetails ftext e req d =
     (Evaluate ftext e req d, map p_Name (filter (applies ftext req) (pe_policies e)))"
  by (rule Evaluate_spec)

definition declared :: "Effect \<Rightarrow> bool" where
  "declared e \<longleftrightarrow> e \<in> {EffectAllow, EffectAsk, EffectDeny, EffectAdminOnly}"

lemma declared_antisym:
  "declared x \<Longrightarrow> declared y \<Longrightarrow> \<not> MoreRestrictiveThan x y \<Longrightarrow> \<not> MoreRestrictiveThan y x \<Longrightarrow> x = y"
  by (auto simp: declared_def MoreRestrictiveThan_def)

lemma bestOf_same:
  assumes "set es = set fs" and "\<forall>e \<in> set es. declared e"
  shows "bestOf es d = bestOf fs d"
proof (cases "es = []")
  case True
  with assms(1) show ?thesis by simp
next
  case False
  with assms(1) have "fs \<noteq> []" by auto
  with False assms(1) have "bestOf es d \<in> set es" "bestOf fs d \<in> set es"
    using bestOf_in [of es d] bestOf_in [of fs d] by simp_all
  then show ?thesis
    using assms bestOf_best [of "bestOf es d" fs d] bestOf_best [of "bestOf fs d" es d]
    by (intro declared_antisym) auto
qed

text \<open>
  The order in which a sort leaves policies of one priority makes no difference: two engines
  with the same policies (of the four declared effects) decide alike.
\<close>

theorem Evaluate_order:
  assumes "mset (pe_policies e) = mset (pe_policies f)" and "\<forall>p \<in> set (pe_policies e). declared (p_Effect p)"
  shows "Evaluate ftext e req d = Evaluate ftext f req d"
proof -
  have "set (pe_policies e) = set (pe_policies f)" using assms(1) by (rule mset_eq_setD)
  then show ?thesis unfolding Evaluate_eq using assms(2) by (intro bestOf_same) auto
qed

text \<open>Adding a policy.\<close>

lemma set_sortPolicies: "set (sortPoliciesByPriority ps) = set ps"
  by (simp add: sortPoliciesByPriority_def)

text \<open>
  Adding a policy never relaxes a decision that some policy already made.
\<close>

theorem AddPolicy_monotone:
  assumes "q \<in> set (pe_policies e)" and "applies ftext req q"
  shows "\<not> MoreRestrictiveThan (Evaluate ftext e req d) (Evaluate ftext (AddPolicy e p) req d)"
proof -
  let ?es = "map p_Effect (filter (applies ftext req) (pe_policies e))"
  let ?fs = "map p_Effect (filter (applies ftext req) (pe_policies (AddPolicy e p)))"
  have "set ?es \<subseteq> set ?fs" by (auto simp: AddPolicy_def set_sortPolicies)
  moreover have "?es \<noteq> []" using assms by (auto simp: filter_empty_conv)
  ultimately have "bestOf ?es d \<in> set ?fs" using bestOf_in by blast
  then show ?thesis unfolding Evaluate_eq by (rule bestOf_best)
qed

lemma default_effects: "\<forall>p \<in> set defaultPolicies. declared (p_Effect p)"
  by (simp add: defaultPolicies_def rule_def declared_def)

lemma DefaultEngine_set: "set (pe_policies DefaultEngine) = set defaultPolicies"
  by (simp add: DefaultEngine_def NewEngine_def set_sortPolicies)

lemma applies_rule:
  "applies ftext req (rule n res act eff prio conds) \<longleftrightarrow>
     (res = [] \<or> res = ''*'' \<or> res = er_ResourceType req) \<and> (act = [] \<or> act = ''*'' \<or> act = er_Action req) \<and>
     (conds = [] \<or> conditionLoop ftext req conds)"
  by (auto simp: applies_def Match_def checkConditions_def rule_def)

lemma default_applies:
  "(\<exists>p. p \<in> set defaultPolicies \<and> applies ftext req p \<and> p_Effect p = EffectAllow) \<longleftrightarrow>
     (er_ResourceType req, er_Action req) \<in>
       {(''file'', ''read''), (''command'', ''search''), (''command'', ''analyze''), (''command'', ''test'')}"
  unfolding defaultPolicies_def
  by (simp add: ex_disj_distrib conj_disj_distribR applies_rule) (auto simp: rule_def)

lemma default_stronger:
  assumes "(er_ResourceType req, er_Action req) \<in>
       {(''file'', ''read''), (''command'', ''search''), (''command'', ''analyze''), (''command'', ''test'')}"
    and "p \<in> set defaultPolicies" and "applies ftext req p"
  shows "p_Effect p = EffectAllow"
  using assms unfolding defaultPolicies_def by (auto simp: applies_rule) (auto simp: rule_def)

lemma default_allows:
  "Evaluate ftext DefaultEngine req EffectAsk = EffectAllow \<longleftrightarrow>
     (er_ResourceType req, er_Action req) \<in>
       {(''file'', ''read''), (''command'', ''search''), (''command'', ''analyze''), (''command'', ''test'')}"
proof -
  note m = Evaluate_spec [of DefaultEngine ftext req EffectAsk, unfolded DefaultEngine_set]
  show ?thesis
  proof
    assume a: "Evaluate ftext DefaultEngine req EffectAsk = EffectAllow"
    with m have "\<exists>p. p \<in> set defaultPolicies \<and> applies ftext req p \<and> p_Effect p = EffectAllow"
      by (auto split: if_splits)
    then show "(er_ResourceType req, er_Action req) \<in>
       {(''file'', ''read''), (''command'', ''search''), (''command'', ''analyze''), (''command'', ''test'')}"
      unfolding default_applies .
  next
    assume a: "(er_ResourceType req, er_Action req) \<in>
       {(''file'', ''read''), (''command'', ''search''), (''command'', ''analyze''), (''command'', ''test'')}"
    then obtain q where "q \<in> set defaultPolicies" "applies ftext req q"
      unfolding default_applies [of ftext, symmetric] by blast
    with m obtain p where "p \<in> set defaultPolicies" "applies ftext req p"
      "Evaluate ftext DefaultEngine req EffectAsk = p_Effect p" by (auto split: if_splits)
    with default_stronger [OF a] show "Evaluate ftext DefaultEngine req EffectAsk = EffectAllow" by simp
  qed
qed

text \<open>
  The default engine allows, without asking, exactly the reading of files and the searching,
  analysing and testing commands, whatever the request carries.
\<close>

theorem DefaultEngine_allows:
  "Evaluate ftext DefaultEngine req EffectAsk = EffectAllow \<longleftrightarrow>
     (er_ResourceType req, er_Action req) \<in>
       {(''file'', ''read''), (''command'', ''search''), (''command'', ''analyze''), (''command'', ''test'')}"
  by (rule default_allows)

definition sample_request :: "string \<Rightarrow> string \<Rightarrow> EvaluationRequest" where
  "sample_request res act =
     \<lparr>er_User = None, er_Task = None, er_Workspace = None, er_Action = act, er_ResourceType = res,
      er_Resource = [], er_Details = Map.empty(''branch'' \<mapsto> AString ''main'')\<rparr>"

theorem Evaluate_order_witness:
  "Evaluate (\<lambda>_. []) \<lparr>pe_policies = rev defaultPolicies\<rparr> (sample_request ''git'' ''push'') EffectAsk = EffectDeny"
proof -
  have "Evaluate (\<lambda>_. []) \<lparr>pe_policies = rev defaultPolicies\<rparr> (sample_request ''git'' ''push'') EffectAsk
      = Evaluate (\<lambda>_. []) \<lparr>pe_policies = defaultPolicies\<rparr> (sample_request ''git'' ''push'') EffectAsk"
    using default_effects by (intro Evaluate_order) simp_all
  also have "\<dots> = EffectDeny" by code_simp
  finally show ?thesis .
qed

theorem AddPolicy_monotone_witness:
  "Evaluate (\<lambda>_. []) (AddPolicy \<lparr>pe_policies = defaultPolicies\<rparr> (rule ''open'' ''git'' ''*'' EffectAllow 900 []))
     (sample_request ''git'' ''push'') EffectAsk \<noteq> EffectAllow"
proof -
  let ?e = "\<lparr>pe_policies = defaultPolicies\<rparr>"
  let ?p = "rule ''open'' ''git'' ''*'' EffectAllow 900 []"
  have "rule ''ask_git_push'' ''git'' ''push'' EffectAsk 200 [] \<in> set (pe_policies ?e)"
    by (simp add: defaultPolicies_def)
  moreover have "applies (\<lambda>_. []) (sample_request ''git'' ''push'')
      (rule ''ask_git_push'' ''git'' ''push'' EffectAsk 200 [])"
    by (simp add: applies_rule sample_request_def)
  ultimately have "\<not> MoreRestrictiveThan (Evaluate (\<lambda>_. []) ?e (sample_request ''git'' ''push'') EffectAsk)
      (Evaluate (\<lambda>_. []) (AddPolicy ?e ?p) (sample_request ''git'' ''push'') EffectAsk)"
    by (rule AddPolicy_monotone)
  moreover have "Evaluate (\<lambda>_. []) ?e (sample_request ''git'' ''push'') EffectAsk = EffectDeny" by code_simp
  ultimately show ?thesis by (auto simp: MoreRestrictiveThan_def)
qed

definition declaredRisks :: "string set" where
  "declaredRisks = {''low'', ''medium'', ''high'', ''critical''}"

lemma deploy_rules:
  assumes "p \<in> set defaultPolicies" and "applies ftext req p" and "er_ResourceType req = ''deploy''"
  shows "conditionLoop ftext req [(''environment'', AString ''production'')]"
  using assms unfolding defaultPolicies_def by (auto simp: applies_rule simp del: conditionLoop.simps)

text \<open>
  The environment of a request is read from the risk level of its task: without an explicit
  environment in the details, the rule that reserves production deployments for administrators
  applies only to a task whose risk level is the text ``production'', which is not a declared risk
  level, so that a deployment of a task of any declared level is decided by the default.
\<close>

theorem deploy_environment:
  assumes "er_ResourceType req = ''deploy''" and "er_Details req ''environment'' = None"
    and "er_Task req = Some t" and "tk_RiskLevel t \<in> declaredRisks"
  shows "Evaluate ftext DefaultEngine req d = d"
proof -
  have "\<not> conditionLoop ftext req [(''environment'', AString ''production'')]"
    using assms(2-4)
    by (auto simp: conditionActual_def conditionHolds_def getEnvironment_def declaredRisks_def)
  then have "\<nexists>p. p \<in> set defaultPolicies \<and> applies ftext req p"
    using deploy_rules assms(1) by blast
  then show ?thesis
    using Evaluate_spec [of DefaultEngine ftext req d] by (simp add: DefaultEngine_set)
qed

definition sample_mtask :: ModelTask where
  "sample_mtask = NullTask (Some ''t1'') (Some ''p1'') (Some ''r1'') None (Some ''u1'') (Some ''web'') None
     (Some ''Fix'') None (Some ''running'') (Some ''high'') (Some ''critical'') (Some ''main'') None None None
     None None None None None None None None"

theorem deploy_environment_witness:
  "Evaluate (\<lambda>_. []) DefaultEngine ((sample_request ''deploy'' ''execute'')\<lparr>er_Task := Some sample_mtask\<rparr>) EffectAsk
     = EffectAsk"
  by (rule deploy_environment [of _ sample_mtask])
    (simp_all add: sample_request_def sample_mtask_def NullTask_def declaredRisks_def)

section \<open>Roles: facts\<close>

lemma permissionLoop_iff:
  "permissionLoop perms res act \<longleftrightarrow>
     (\<exists>p \<in> set perms. (fst p = ''*'' \<or> fst p = res) \<and> (snd p = ''*'' \<or> snd p = act))"
  by (induction perms) auto

text \<open>
  A user can do exactly what some permission of the user's role grants, where a star in a
  permission stands for any resource type or any action.
\<close>

theorem Can_iff:
  "Can (Some u) res act \<longleftrightarrow>
     (\<exists>p. p \<in> set (GetPermissionsForRole (u_Role u)) \<and>
        (fst p = ''*'' \<or> fst p = res) \<and> (snd p = ''*'' \<or> snd p = act))"
  by (simp add: Can_def GetPermissionsForRole_def permissionLoop_iff Bex_def split: option.split)

text \<open>
  Permissions are not inherited along the hierarchy of roles: an administrator, whose rank is
  above that of a member, cannot create a task or read a repository, and a member can.
\<close>

theorem permissions_not_inherited:
  "HasRole (Some (u\<lparr>u_Role := ''admin''\<rparr>)) ''member'' \<and>
   Can (Some (u\<lparr>u_Role := ''member''\<rparr>)) ''task'' ''create'' \<and>
   \<not> Can (Some (u\<lparr>u_Role := ''admin''\<rparr>)) ''task'' ''create'' \<and>
   Can (Some (u\<lparr>u_Role := ''member''\<rparr>)) ''repository'' ''read'' \<and>
   \<not> Can (Some (u\<lparr>u_Role := ''admin''\<rparr>)) ''repository'' ''read''"
  by (simp add: HasRole_def RoleRank_def Can_def RBACConfig_def)

end
