(* ===== verification/Budgets.thy ===== *)
theory Budgets
  imports Models
begin

text \<open>
  The budget engine (\<open>apps/api/internal/budget/engine.go\<close>): the checks of a run against the limits
  of a budget, and the admission check before a run starts.

  The data base is outside the program: its three queries are parameters, each an error or a
  value per organization or project.  A violation is its message with the values it prints.
\<close>

section \<open>Data\<close>

record BudgetDB =
  db_DailySpend :: "string \<Rightarrow> string + f64"
  db_ConcurrentRuns :: "string \<Rightarrow> string + int"
  db_ConcurrentAdmissionRuns :: "string \<Rightarrow> string + int"

record RunState =
  rs_CostSoFar :: f64
  rs_DurationMinutes :: int
  rs_ModelCalls :: int
  rs_ToolCalls :: int
  rs_ShellCommands :: int
  rs_FilesChanged :: int
  rs_DiffSizeKB :: int

datatype Violation =
    CostExceeds f64 f64
  | RuntimeExceeds int int
  | ModelCallsExceed int int
  | ToolCallsExceed int int
  | ShellCommandsExceed int int
  | DailySpendExceeds f64 f64
  | ConcurrentRunsExceed int int
  | ConcurrentAdmittedExceed int int

text \<open>The reason is empty or prints the list of violations.\<close>

record CheckResult =
  cr_Allowed :: bool
  cr_Reason :: "Violation list option"
  cr_Remaining :: f64
  cr_Violations :: "Violation list"

section \<open>The checks of a run\<close>

definition violate :: "Violation \<Rightarrow> CheckResult \<Rightarrow> CheckResult" where
  "violate v result = result\<lparr>cr_Allowed := False, cr_Violations := cr_Violations result @ [v]\<rparr>"

definition checkCost :: "Budget \<Rightarrow> RunState option \<Rightarrow> CheckResult \<Rightarrow> CheckResult" where
  "checkCost budget runState result =
     (case (b_MaxCost budget, runState) of
        (Some maxCost, Some rs) \<Rightarrow>
          if f64_less maxCost (rs_CostSoFar rs)
          then violate (CostExceeds (rs_CostSoFar rs) maxCost) result
          else result\<lparr>cr_Remaining := f64_sub maxCost (rs_CostSoFar rs)\<rparr>
      | _ \<Rightarrow> result)"

text \<open>The four checks of a counter against a positive limit.\<close>

definition checkCounter ::
    "int \<Rightarrow> (RunState \<Rightarrow> int) \<Rightarrow> (int \<Rightarrow> int \<Rightarrow> Violation) \<Rightarrow> RunState option \<Rightarrow> CheckResult \<Rightarrow> CheckResult" where
  "checkCounter limit counter violation runState result =
     (case runState of
        Some rs \<Rightarrow>
          if limit > 0 \<and> counter rs > limit then violate (violation (counter rs) limit) result else result
      | None \<Rightarrow> result)"

definition checkDailySpend :: "BudgetDB \<Rightarrow> Budget \<Rightarrow> CheckResult \<Rightarrow> CheckResult" where
  "checkDailySpend db budget result =
     (case b_MaxDailySpend budget of
        None \<Rightarrow> result
      | Some limit \<Rightarrow>
        (case db_DailySpend db (b_OrganizationID budget) of
           Inl _ \<Rightarrow> result
         | Inr spend \<Rightarrow> if f64_less limit spend then violate (DailySpendExceeds spend limit) result else result))"

definition checkConcurrent :: "BudgetDB \<Rightarrow> Budget \<Rightarrow> CheckResult \<Rightarrow> CheckResult" where
  "checkConcurrent db budget result =
     (case b_ProjectID budget of
        None \<Rightarrow> result
      | Some project \<Rightarrow>
        if b_MaxConcurrentAgents budget > 0 then
          (case db_ConcurrentRuns db project of
             Inl _ \<Rightarrow> result
           | Inr concurrent \<Rightarrow>
             if concurrent > b_MaxConcurrentAgents budget
             then violate (ConcurrentRunsExceed concurrent (b_MaxConcurrentAgents budget)) result
             else result)
        else result)"

text \<open>The error of \<open>CheckRun\<close> is always nil.\<close>

definition CheckRun :: "BudgetDB option \<Rightarrow> Budget option \<Rightarrow> RunState option \<Rightarrow> CheckResult" where
  "CheckRun edb budget runState =
     (case budget of
        None \<Rightarrow> \<lparr>cr_Allowed = True, cr_Reason = None, cr_Remaining = f64_of_int (- 1), cr_Violations = []\<rparr>
      | Some b \<Rightarrow>
        if IsUnlimited budget
        then \<lparr>cr_Allowed = True, cr_Reason = None, cr_Remaining = f64_of_int (- 1), cr_Violations = []\<rparr>
        else (let
            r0 = \<lparr>cr_Allowed = True, cr_Reason = None, cr_Remaining = f64_zero, cr_Violations = []\<rparr>;
            r1 = checkCost b runState r0;
            r2 = checkCounter (b_MaxRuntimeMinutes b) rs_DurationMinutes RuntimeExceeds runState r1;
            r3 = checkCounter (b_MaxModelCalls b) rs_ModelCalls ModelCallsExceed runState r2;
            r4 = checkCounter (b_MaxToolCalls b) rs_ToolCalls ToolCallsExceed runState r3;
            r5 = checkCounter (b_MaxShellCommands b) rs_ShellCommands ShellCommandsExceed runState r4;
            r6 = (case edb of None \<Rightarrow> r5 | Some db \<Rightarrow> checkConcurrent db b (checkDailySpend db b r5))
          in if \<not> cr_Allowed r6 then r6\<lparr>cr_Reason := Some (cr_Violations r6)\<rparr> else r6))"

definition CheckRunStart :: "BudgetDB option \<Rightarrow> Budget option \<Rightarrow> RunState option \<Rightarrow> string + CheckResult" where
  "CheckRunStart edb budget runState =
     (let result = CheckRun edb budget runState in
      case (edb, budget) of
        (Some db, Some b) \<Rightarrow>
          if \<not> cr_Allowed result \<or> IsUnlimited budget then Inr result
          else if b_MaxConcurrentAgents b \<le> 0 then Inr result
          else (case b_ProjectID b of
              None \<Rightarrow> Inr result
            | Some project \<Rightarrow>
              (case db_ConcurrentAdmissionRuns db project of
                 Inl e \<Rightarrow> Inl e
               | Inr concurrent \<Rightarrow>
                 if concurrent > b_MaxConcurrentAgents b
                 then (let r = violate (ConcurrentAdmittedExceed concurrent (b_MaxConcurrentAgents b)) result
                       in Inr (r\<lparr>cr_Reason := Some (cr_Violations r)\<rparr>))
                 else Inr result))
      | _ \<Rightarrow> Inr result)"

section \<open>Facts\<close>

text \<open>The violations a run should have, one per limit, in the order of the checks.\<close>

definition overCost :: "Budget \<Rightarrow> RunState option \<Rightarrow> Violation list" where
  "overCost b runState =
     (case (b_MaxCost b, runState) of
        (Some limit, Some rs) \<Rightarrow> if f64_less limit (rs_CostSoFar rs) then [CostExceeds (rs_CostSoFar rs) limit] else []
      | _ \<Rightarrow> [])"

definition overCounter :: "int \<Rightarrow> (RunState \<Rightarrow> int) \<Rightarrow> (int \<Rightarrow> int \<Rightarrow> Violation) \<Rightarrow> RunState option \<Rightarrow> Violation list" where
  "overCounter limit counter v runState =
     (case runState of None \<Rightarrow> []
      | Some rs \<Rightarrow> if 0 < limit \<and> limit < counter rs then [v (counter rs) limit] else [])"

definition overDaily :: "BudgetDB option \<Rightarrow> Budget \<Rightarrow> Violation list" where
  "overDaily edb b =
     (case (edb, b_MaxDailySpend b) of
        (Some db, Some limit) \<Rightarrow>
          (case db_DailySpend db (b_OrganizationID b) of
             Inr spend \<Rightarrow> if f64_less limit spend then [DailySpendExceeds spend limit] else []
           | Inl _ \<Rightarrow> [])
      | _ \<Rightarrow> [])"

definition overConcurrent :: "BudgetDB option \<Rightarrow> Budget \<Rightarrow> Violation list" where
  "overConcurrent edb b =
     (case (edb, b_ProjectID b) of
        (Some db, Some project) \<Rightarrow>
          (case db_ConcurrentRuns db project of
             Inr n \<Rightarrow> if 0 < b_MaxConcurrentAgents b \<and> b_MaxConcurrentAgents b < n
               then [ConcurrentRunsExceed n (b_MaxConcurrentAgents b)] else []
           | Inl _ \<Rightarrow> [])
      | _ \<Rightarrow> [])"

definition budgetViolations :: "BudgetDB option \<Rightarrow> Budget \<Rightarrow> RunState option \<Rightarrow> Violation list" where
  "budgetViolations edb b rs =
     overCost b rs @ overCounter (b_MaxRuntimeMinutes b) rs_DurationMinutes RuntimeExceeds rs @
     overCounter (b_MaxModelCalls b) rs_ModelCalls ModelCallsExceed rs @
     overCounter (b_MaxToolCalls b) rs_ToolCalls ToolCallsExceed rs @
     overCounter (b_MaxShellCommands b) rs_ShellCommands ShellCommandsExceed rs @
     overDaily edb b @ overConcurrent edb b"

text \<open>A check that appends the violations \<open>vs\<close> and allows as long as there are none.\<close>

definition appends :: "Violation list \<Rightarrow> CheckResult \<Rightarrow> CheckResult \<Rightarrow> bool" where
  "appends vs r r' \<longleftrightarrow> cr_Violations r' = cr_Violations r @ vs \<and> cr_Reason r' = cr_Reason r \<and>
     cr_Allowed r' = (cr_Allowed r \<and> vs = [])"

lemma appends_trans: "appends vs r r' \<Longrightarrow> appends ws r' r'' \<Longrightarrow> appends (vs @ ws) r r''"
  by (auto simp: appends_def)

lemma checks_append:
  "appends (overCost b rs) r (checkCost b rs r)"
  "appends (overCounter n c v rs) r (checkCounter n c v rs r)"
  "appends (overDaily (Some db) b) r (checkDailySpend db b r)"
  "appends (overConcurrent (Some db) b) r (checkConcurrent db b r)"
  by (auto simp: appends_def violate_def overCost_def checkCost_def overCounter_def checkCounter_def
      overDaily_def checkDailySpend_def overConcurrent_def checkConcurrent_def split: option.splits sum.splits)

lemma CheckRun_spec_core:
  assumes "\<not> IsUnlimited (Some b)"
  shows "cr_Allowed (CheckRun edb (Some b) rs) = (budgetViolations edb b rs = []) \<and>
    cr_Violations (CheckRun edb (Some b) rs) = budgetViolations edb b rs \<and>
    cr_Reason (CheckRun edb (Some b) rs) =
      (if budgetViolations edb b rs = [] then None else Some (budgetViolations edb b rs))"
proof -
  let ?r0 = "\<lparr>cr_Allowed = True, cr_Reason = None, cr_Remaining = f64_zero, cr_Violations = []\<rparr>"
  let ?r5 = "checkCounter (b_MaxShellCommands b) rs_ShellCommands ShellCommandsExceed rs
    (checkCounter (b_MaxToolCalls b) rs_ToolCalls ToolCallsExceed rs
    (checkCounter (b_MaxModelCalls b) rs_ModelCalls ModelCallsExceed rs
    (checkCounter (b_MaxRuntimeMinutes b) rs_DurationMinutes RuntimeExceeds rs (checkCost b rs ?r0))))"
  let ?r6 = "case edb of None \<Rightarrow> ?r5 | Some db \<Rightarrow> checkConcurrent db b (checkDailySpend db b ?r5)"
  have five: "appends (overCost b rs @ overCounter (b_MaxRuntimeMinutes b) rs_DurationMinutes RuntimeExceeds rs @
     overCounter (b_MaxModelCalls b) rs_ModelCalls ModelCallsExceed rs @
     overCounter (b_MaxToolCalls b) rs_ToolCalls ToolCallsExceed rs @
     overCounter (b_MaxShellCommands b) rs_ShellCommands ShellCommandsExceed rs) ?r0 ?r5"
    by (rule appends_trans [OF checks_append(1) appends_trans [OF checks_append(2)
      appends_trans [OF checks_append(2) appends_trans [OF checks_append(2) checks_append(2)]]]])
  have "appends (budgetViolations edb b rs) ?r0 ?r6"
  proof (cases edb)
    case None
    with five show ?thesis by (simp add: budgetViolations_def overDaily_def overConcurrent_def)
  next
    case (Some db)
    have "appends (overDaily edb b @ overConcurrent edb b) ?r5 (checkConcurrent db b (checkDailySpend db b ?r5))"
      unfolding Some by (rule appends_trans [OF checks_append(3) checks_append(4)])
    from appends_trans [OF five this] show ?thesis by (simp add: budgetViolations_def Some)
  qed
  moreover have "CheckRun edb (Some b) rs =
      (if \<not> cr_Allowed ?r6 then ?r6\<lparr>cr_Reason := Some (cr_Violations ?r6)\<rparr> else ?r6)"
    using assms by (simp add: CheckRun_def Let_def)
  ultimately show ?thesis by (simp add: appends_def)
qed

text \<open>
  A run under a budget with some limit is allowed exactly when it violates none of them, and
  the result lists exactly the violated limits, in the order of the checks; a query that fails
  counts as no violation.
\<close>

theorem CheckRun_spec:
  assumes "\<not> IsUnlimited (Some b)"
  shows "cr_Allowed (CheckRun edb (Some b) rs) = (budgetViolations edb b rs = []) \<and>
    cr_Violations (CheckRun edb (Some b) rs) = budgetViolations edb b rs \<and>
    cr_Reason (CheckRun edb (Some b) rs) =
      (if budgetViolations edb b rs = [] then None else Some (budgetViolations edb b rs))"
  using assms by (rule CheckRun_spec_core)

definition sample_budget :: Budget where
  "sample_budget = NullBudget (Some ''b1'') (Some ''org'') (Some ''proj'') None (Some ''project'') (Some ''per_run'')
     (Some (f64_of_int 10)) (Some 30) None None None (Some 2) None None None None"

definition sample_db :: BudgetDB where
  "sample_db = \<lparr>db_DailySpend = (\<lambda>_. Inr f64_zero), db_ConcurrentRuns = (\<lambda>_. Inr 2),
     db_ConcurrentAdmissionRuns = (\<lambda>_. Inr 3)\<rparr>"

definition sample_run :: RunState where
  "sample_run = \<lparr>rs_CostSoFar = f64_of_int 12, rs_DurationMinutes = 5, rs_ModelCalls = 0, rs_ToolCalls = 0,
     rs_ShellCommands = 0, rs_FilesChanged = 0, rs_DiffSizeKB = 0\<rparr>"

theorem CheckRun_spec_witness:
  "cr_Violations (CheckRun (Some sample_db) (Some sample_budget) (Some sample_run)) =
     [CostExceeds (f64_of_int 12) (f64_of_int 10)]"
proof -
  have "\<not> IsUnlimited (Some sample_budget)"
    by (simp add: sample_budget_def NullBudget_def IsUnlimited_def)
  moreover have "budgetViolations (Some sample_db) sample_budget (Some sample_run) =
      [CostExceeds (f64_of_int 12) (f64_of_int 10)]" by code_simp
  ultimately show ?thesis using CheckRun_spec [of sample_budget] by simp
qed

text \<open>
  Admission fails closed: when a run is admitted under a limit on concurrent agents of a
  project, the query that counts running and admitting runs, which is made after the candidate was
  counted in, succeeded and gave at most the limit; a failing query is an error, not an admission.
\<close>

theorem CheckRunStart_closed:
  assumes "CheckRunStart (Some db) (Some b) rs = Inr r" and "cr_Allowed r"
    and "b_ProjectID b = Some project" and "0 < b_MaxConcurrentAgents b"
  shows "\<exists>n. db_ConcurrentAdmissionRuns db project = Inr n \<and> n \<le> b_MaxConcurrentAgents b \<and>
    budgetViolations (Some db) b rs = []"
proof -
  have u: "\<not> IsUnlimited (Some b)" using assms(4) by (simp add: IsUnlimited_def)
  have a: "cr_Allowed (CheckRun (Some db) (Some b) rs)"
    by (rule ccontr) (use assms(1,2) in \<open>simp add: CheckRunStart_def Let_def\<close>)
  then have "budgetViolations (Some db) b rs = []" using CheckRun_spec_core [OF u] by simp
  moreover have "\<exists>n. db_ConcurrentAdmissionRuns db project = Inr n \<and> n \<le> b_MaxConcurrentAgents b"
  proof (cases "db_ConcurrentAdmissionRuns db project")
    case (Inl e)
    with assms a u show ?thesis by (simp add: CheckRunStart_def Let_def)
  next
    case (Inr n)
    have "\<not> b_MaxConcurrentAgents b < n"
    proof
      assume "b_MaxConcurrentAgents b < n"
      with assms a u Inr have "\<not> cr_Allowed r" by (auto simp: CheckRunStart_def Let_def violate_def)
      with assms(2) show False by simp
    qed
    with Inr show ?thesis by simp
  qed
  ultimately show ?thesis by blast
qed

theorem CheckRunStart_closed_witness:
  "\<exists>n. db_ConcurrentAdmissionRuns (sample_db\<lparr>db_ConcurrentAdmissionRuns := \<lambda>_. Inr 2\<rparr>) ''proj'' = Inr n \<and>
     n \<le> b_MaxConcurrentAgents sample_budget"
proof -
  let ?db = "sample_db\<lparr>db_ConcurrentAdmissionRuns := \<lambda>_. Inr 2\<rparr>" and ?rs = "sample_run\<lparr>rs_CostSoFar := f64_zero\<rparr>"
  obtain r where r: "CheckRunStart (Some ?db) (Some sample_budget) (Some ?rs) = Inr r"
    by (cases "CheckRunStart (Some ?db) (Some sample_budget) (Some ?rs)")
      (auto simp: CheckRunStart_def Let_def sample_db_def split: option.splits if_splits)
  have "case CheckRunStart (Some ?db) (Some sample_budget) (Some ?rs) of Inl _ \<Rightarrow> False | Inr r \<Rightarrow> cr_Allowed r"
    by code_simp
  then have a: "cr_Allowed r" by (simp add: r)
  have "b_ProjectID sample_budget = Some ''proj''" "0 < b_MaxConcurrentAgents sample_budget"
    by (simp_all add: sample_budget_def NullBudget_def)
  from CheckRunStart_closed [OF r a this] show ?thesis by blast
qed

end
