(* ===== verification/Execution.thy ===== *)
theory Execution
  imports GoHash
begin

text \<open>
  Identity, authority, fencing and effect recovery (\<open>packages/execution/execution.go\<close>).  An epoch
  is a 64-bit word and an ordinal a 32-bit word.  No property assumes that SHA-256 has no
  collisions: where identities agree, either what they name agrees or a collision is exhibited.
\<close>

section \<open>Activations\<close>

datatype exec_error =
    ErrInvalidActivation
  | ErrEpochExhausted
  | ErrInvalidOperation
  | ErrInvalidGrant
  | ErrInvalidManifest nat exec_error
  | ErrAuthorityEscalation string string
  | ErrActivationMismatch
  | ErrStaleEpoch
  | ErrInvalidEffect "exec_error option"
  | ErrOperationIDMismatch
  | ErrIntentConflict
  | ErrReceiptMismatch
  | ErrReceiptConflict

definition NUL :: char where
  "NUL = CHR 0x00"

definition invalidToken :: "string \<Rightarrow> bool" where
  "invalidToken value0 \<longleftrightarrow> TrimSpace value0 = [] \<or> ContainsChar value0 NUL"

type_synonym Epoch = "64 word"

record Activation =
  a_RunID :: string
  a_ID :: string
  a_Epoch :: Epoch

definition Activation_Validate :: "Activation \<Rightarrow> exec_error option" where
  "Activation_Validate a =
     (if invalidToken (a_RunID a) \<or> invalidToken (a_ID a) \<or> a_Epoch a = 0
      then Some ErrInvalidActivation else None)"

definition AdvanceEpoch :: "Activation \<Rightarrow> exec_error + Activation" where
  "AdvanceEpoch a =
     (case Activation_Validate a of
        Some e \<Rightarrow> Inl e
      | None \<Rightarrow>
        if a_Epoch a = 0xFFFFFFFFFFFFFFFF then Inl ErrEpochExhausted
        else Inr (a\<lparr>a_Epoch := a_Epoch a + 1\<rparr>))"

section \<open>Operation identities\<close>

datatype OperationKind = OperationEvent | OperationEffect | OperationOther string

fun kind_text :: "OperationKind \<Rightarrow> string" where
  "kind_text OperationEvent = ''event''"
| "kind_text OperationEffect = ''effect''"
| "kind_text (OperationOther s) = s"

definition operationPayload :: "Activation \<Rightarrow> OperationKind \<Rightarrow> u32 \<Rightarrow> string" where
  "operationPayload activation kind ordinal =
     join_with [NUL] [''dev-plane/execution/v1'', a_RunID activation, a_ID activation,
       kind_text kind, FormatUint (uint ordinal)]"

definition NewOperationID :: "Activation \<Rightarrow> OperationKind \<Rightarrow> u32 \<Rightarrow> exec_error + string" where
  "NewOperationID activation kind ordinal =
     (case Activation_Validate activation of
        Some e \<Rightarrow> Inl e
      | None \<Rightarrow>
        if kind \<noteq> OperationEvent \<and> kind \<noteq> OperationEffect then Inl ErrInvalidOperation
        else Inr (''dp1_'' @ sha256_hex (operationPayload activation kind ordinal)))"

section \<open>Grants and manifests\<close>

record Grant =
  gr_Operation :: string
  gr_Resource :: string
  gr_Revision :: string

definition Grant_Validate :: "Grant \<Rightarrow> exec_error option" where
  "Grant_Validate g =
     (if invalidToken (gr_Operation g) \<or> invalidToken (gr_Resource g) \<or> ContainsChar (gr_Revision g) NUL
      then Some ErrInvalidGrant else None)"

definition canonical :: "Grant \<Rightarrow> string" where
  "canonical g = join_with [NUL] [gr_Operation g, gr_Resource g, gr_Revision g]"

text \<open>\<open>Manifest\<close> holds only its list of grants.\<close>

record AuthManifest =
  am_Grants :: "Grant list"

definition Manifest_Validate :: "AuthManifest \<Rightarrow> exec_error option" where
  "Manifest_Validate m =
     first_err_idx (\<lambda>i grant. case Grant_Validate grant of
         Some e \<Rightarrow> Some (ErrInvalidManifest i e) | None \<Rightarrow> None) 0 (am_Grants m)"

fun dedupLoop :: "Grant list \<Rightarrow> Grant list \<Rightarrow> Grant list" where
  "dedupLoop deduped [] = deduped"
| "dedupLoop deduped (grant # grants) =
     (if deduped = [] \<or> last deduped \<noteq> grant then dedupLoop (deduped @ [grant]) grants
      else dedupLoop deduped grants)"

text \<open>
  \<open>sort.Slice\<close> is not stable, but valid grants with equal texts are equal, so that every sort
  by text gives the list of the stable sort used here.
\<close>

definition NewManifest :: "Grant list \<Rightarrow> exec_error + AuthManifest" where
  "NewManifest grants =
     (case Manifest_Validate \<lparr>am_Grants = grants\<rparr> of
        Some e \<Rightarrow> Inl e
      | None \<Rightarrow>
        (let sorted = sort_key canonical grants in
         if length sorted < 2 then Inr \<lparr>am_Grants = sorted\<rparr>
         else Inr \<lparr>am_Grants = dedupLoop [] sorted\<rparr>))"

definition Allows :: "AuthManifest \<Rightarrow> Grant \<Rightarrow> exec_error + bool" where
  "Allows m grant =
     (case Manifest_Validate m of
        Some e \<Rightarrow> Inl e
      | None \<Rightarrow>
        (case Grant_Validate grant of
           Some e \<Rightarrow> Inl e
         | None \<Rightarrow> Inr (List.member (am_Grants m) grant)))"

fun delegateLoop :: "AuthManifest \<Rightarrow> Grant list \<Rightarrow> exec_error option" where
  "delegateLoop m [] = None"
| "delegateLoop m (grant # grants) =
     (case Allows m grant of
        Inl e \<Rightarrow> Some e
      | Inr allowed \<Rightarrow>
        if \<not> allowed then Some (ErrAuthorityEscalation (gr_Operation grant) (gr_Resource grant))
        else delegateLoop m grants)"

definition Delegate :: "AuthManifest \<Rightarrow> AuthManifest \<Rightarrow> exec_error + AuthManifest" where
  "Delegate m requested =
     (case err_then (Manifest_Validate m)
        (err_then (Manifest_Validate requested) (delegateLoop m (am_Grants requested))) of
        Some e \<Rightarrow> Inl e
      | None \<Rightarrow> NewManifest (am_Grants requested))"

definition digestPayload :: "Grant list \<Rightarrow> string" where
  "digestPayload grants =
     ''dev-plane/authority/v1'' @ [NUL] @ concat (map (\<lambda>g. canonical g @ [CHR 0xFF]) grants)"

definition Digest :: "AuthManifest \<Rightarrow> exec_error + string" where
  "Digest m =
     (case NewManifest (am_Grants m) of
        Inl e \<Rightarrow> Inl e
      | Inr c \<Rightarrow> Inr (sha256_hex (digestPayload (am_Grants c))))"

section \<open>Effects\<close>

definition digestBytes :: "string \<Rightarrow> string \<Rightarrow> string" where
  "digestBytes domain value0 = sha256_hex (domain @ [NUL] @ value0)"

record EffectIntent =
  i_ID :: string
  i_RunID :: string
  i_ActivationID :: string
  i_Epoch :: Epoch
  i_Ordinal :: u32
  i_Grant :: Grant
  i_InputDigest :: string

definition NewEffectIntent :: "Activation \<Rightarrow> u32 \<Rightarrow> Grant \<Rightarrow> string \<Rightarrow> exec_error + EffectIntent" where
  "NewEffectIntent activation ordinal grant input =
     (case err_then (Activation_Validate activation) (Grant_Validate grant) of
        Some e \<Rightarrow> Inl e
      | None \<Rightarrow>
        (case NewOperationID activation OperationEffect ordinal of
           Inl e \<Rightarrow> Inl e
         | Inr oid \<Rightarrow>
           Inr \<lparr>i_ID = oid, i_RunID = a_RunID activation, i_ActivationID = a_ID activation,
             i_Epoch = a_Epoch activation, i_Ordinal = ordinal, i_Grant = grant,
             i_InputDigest = digestBytes ''dev-plane/effect-input/v1'' input\<rparr>))"

definition intentActivation :: "EffectIntent \<Rightarrow> Activation" where
  "intentActivation i = \<lparr>a_RunID = i_RunID i, a_ID = i_ActivationID i, a_Epoch = i_Epoch i\<rparr>"

definition Intent_Validate :: "EffectIntent \<Rightarrow> exec_error option" where
  "Intent_Validate i =
     (case Activation_Validate (intentActivation i) of
        Some e \<Rightarrow> Some (ErrInvalidEffect (Some e))
      | None \<Rightarrow>
        (case Grant_Validate (i_Grant i) of
           Some e \<Rightarrow> Some (ErrInvalidEffect (Some e))
         | None \<Rightarrow>
           if i_InputDigest i = [] then Some (ErrInvalidEffect None)
           else (case NewOperationID (intentActivation i) OperationEffect (i_Ordinal i) of
               Inl e \<Rightarrow> Some (ErrInvalidEffect (Some e))
             | Inr expected \<Rightarrow> if i_ID i \<noteq> expected then Some ErrOperationIDMismatch else None)))"

definition MergeIntent :: "EffectIntent \<Rightarrow> EffectIntent \<Rightarrow> exec_error + EffectIntent" where
  "MergeIntent existing incoming =
     (case err_then (Intent_Validate existing) (Intent_Validate incoming) of
        Some e \<Rightarrow> Inl e
      | None \<Rightarrow> if existing = incoming then Inr existing else Inl ErrIntentConflict)"

definition AuthorizeAgainst :: "EffectIntent \<Rightarrow> Activation \<Rightarrow> exec_error option" where
  "AuthorizeAgainst i current =
     err_then (Intent_Validate i)
     (err_then (Activation_Validate current)
     (err_then (err_if (i_RunID i \<noteq> a_RunID current \<or> i_ActivationID i \<noteq> a_ID current) ErrActivationMismatch)
       (err_if (i_Epoch i \<noteq> a_Epoch current) ErrStaleEpoch)))"

record EffectReceipt =
  rc_EffectID :: string
  rc_Provider :: string
  rc_Reference :: string
  rc_OutputDigest :: string

definition NewEffectReceipt :: "EffectIntent \<Rightarrow> string \<Rightarrow> string \<Rightarrow> string \<Rightarrow> exec_error + EffectReceipt" where
  "NewEffectReceipt intent provider reference output =
     (case Intent_Validate intent of
        Some e \<Rightarrow> Inl e
      | None \<Rightarrow>
        if invalidToken provider then Inl ErrReceiptMismatch
        else Inr \<lparr>rc_EffectID = i_ID intent, rc_Provider = provider, rc_Reference = reference,
          rc_OutputDigest = digestBytes ''dev-plane/effect-output/v1'' output\<rparr>)"

definition Receipt_Validate :: "EffectReceipt \<Rightarrow> exec_error option" where
  "Receipt_Validate r =
     (if rc_EffectID r = [] \<or> invalidToken (rc_Provider r) \<or> rc_OutputDigest r = []
      then Some ErrReceiptMismatch else None)"

datatype EffectRecoveryAction = EffectExecute | EffectReplayRecordedResult

definition RecoverEffect :: "EffectIntent \<Rightarrow> EffectReceipt option \<Rightarrow> exec_error + EffectRecoveryAction" where
  "RecoverEffect intent receipt =
     (case Intent_Validate intent of
        Some e \<Rightarrow> Inl e
      | None \<Rightarrow>
        (case receipt of
           None \<Rightarrow> Inr EffectExecute
         | Some r \<Rightarrow>
           (case Receipt_Validate r of
              Some e \<Rightarrow> Inl e
            | None \<Rightarrow>
              if rc_EffectID r \<noteq> i_ID intent then Inl ErrReceiptMismatch
              else Inr EffectReplayRecordedResult)))"

definition MergeReceipt :: "EffectReceipt \<Rightarrow> EffectReceipt \<Rightarrow> exec_error + EffectReceipt" where
  "MergeReceipt existing incoming =
     (case err_then (Receipt_Validate existing) (Receipt_Validate incoming) of
        Some e \<Rightarrow> Inl e
      | None \<Rightarrow> if existing = incoming then Inr existing else Inl ErrReceiptConflict)"

section \<open>Texts: facts\<close>

lemma length_be_bytes [simp]: "length (be_bytes k n) = k"
  by (induction k arbitrary: n) auto

lemma length_sha_round: "length hs = 8 \<Longrightarrow> length (sha_round hs kw) = 8"
proof -
  assume "length hs = 8"
  then obtain a b c d e f g h where "hs = [a, b, c, d, e, f, g, h]"
    by (auto simp: numeral_eq_Suc length_Suc_conv)
  then show ?thesis by (cases kw) (simp add: Let_def)
qed

lemma length_sha_rounds: "length hs = 8 \<Longrightarrow> length (foldl sha_round hs kws) = 8"
  by (induction kws arbitrary: hs) (simp_all add: length_sha_round)

lemma length_sha_blocks: "length hs = 8 \<Longrightarrow> length (foldl sha_block hs bs) = 8"
  by (induction bs arbitrary: hs) (simp_all add: sha_block_def length_sha_rounds)

lemma length_Sum256: "length (Sum256 msg) = 32"
proof -
  let ?ws = "foldl sha_block sha_start (map (\<lambda>b. map be_word (chunks 4 b)) (chunks 64 (sha_pad msg)))"
  have "length ?ws = 8" by (rule length_sha_blocks) (simp add: sha_start_def)
  then show ?thesis by (simp add: Sum256_def length_concat comp_def sum_list_triv)
qed

lemma length_sha256_hex: "length (sha256_hex s) = 64"
  by (simp add: sha256_hex_def EncodeToString_def length_concat comp_def sum_list_triv length_Sum256)

lemma sha256_hex_nonempty [simp]: "sha256_hex s \<noteq> []"
  using length_sha256_hex [of s] by auto

lemma token_no_NUL: "\<not> invalidToken s \<Longrightarrow> NUL \<notin> set s"
  by (simp add: invalidToken_def ContainsChar_def)

lemma join_NUL_inj:
  assumes "xs \<noteq> []" "ys \<noteq> []" "\<forall>w \<in> set xs. NUL \<notin> set w" "\<forall>w \<in> set ys. NUL \<notin> set w"
  shows "join_with [NUL] xs = join_with [NUL] ys \<longleftrightarrow> xs = ys"
  using split_join [of xs NUL] split_join [of ys NUL] assms by metis

section \<open>Operation identities\<close>

lemma Activation_Validate_None:
  "Activation_Validate a = None \<longleftrightarrow> \<not> invalidToken (a_RunID a) \<and> \<not> invalidToken (a_ID a) \<and> a_Epoch a \<noteq> 0"
  by (simp add: Activation_Validate_def)

lemma FormatUint_no_NUL: "0 \<le> n \<Longrightarrow> NUL \<notin> set (FormatUint n)"
proof
  assume "0 \<le> n" "NUL \<in> set (FormatUint n)"
  from FormatUint_digits [OF this] show False by (simp add: NUL_def)
qed

lemma payload_inj:
  assumes "Activation_Validate a = None" "Activation_Validate b = None"
    and "kind = OperationEvent \<or> kind = OperationEffect" "kind' = OperationEvent \<or> kind' = OperationEffect"
  shows "operationPayload a kind n = operationPayload b kind' n' \<longleftrightarrow>
    a_RunID a = a_RunID b \<and> a_ID a = a_ID b \<and> kind = kind' \<and> n = n'"
proof -
  have k: "NUL \<notin> set (kind_text kind)" "NUL \<notin> set (kind_text kind')"
    "kind_text kind = kind_text kind' \<longleftrightarrow> kind = kind'"
    using assms(3,4) by (auto simp: NUL_def)
  have t: "NUL \<notin> set (a_RunID a)" "NUL \<notin> set (a_ID a)" "NUL \<notin> set (a_RunID b)" "NUL \<notin> set (a_ID b)"
    using assms(1,2) token_no_NUL by (auto simp: Activation_Validate_None)
  have v: "NUL \<notin> set ''dev-plane/execution/v1''" by (simp add: NUL_def)
  have d: "FormatUint (uint n) = FormatUint (uint n') \<longleftrightarrow> n = n'"
    using FormatUint_inj [of "uint n" "uint n'"] by (simp add: word_uint_eq_iff)
  show ?thesis
    unfolding operationPayload_def using k t v d
    by (subst join_NUL_inj) (simp_all add: FormatUint_no_NUL)
qed

lemma NewOperationID_Inr:
  "NewOperationID a kind n = Inr oid \<longleftrightarrow>
     Activation_Validate a = None \<and> (kind = OperationEvent \<or> kind = OperationEffect) \<and>
     oid = ''dp1_'' @ sha256_hex (operationPayload a kind n)"
  by (auto simp: NewOperationID_def split: option.splits)

text \<open>
  An operation identity is the hash of a text that determines the run, the activation, the
  kind and the ordinal and nothing else: two identities are hashes of one text exactly when these
  four agree, whatever the epochs.
\<close>

theorem NewOperationID_identity:
  assumes "NewOperationID a kind n = Inr x" and "NewOperationID b kind' n' = Inr y"
  shows "\<exists>p q. x = ''dp1_'' @ sha256_hex p \<and> y = ''dp1_'' @ sha256_hex q \<and>
    (p = q \<longleftrightarrow> a_RunID a = a_RunID b \<and> a_ID a = a_ID b \<and> kind = kind' \<and> n = n')"
  using assms unfolding NewOperationID_Inr using payload_inj by blast

definition sample_activation :: Activation where
  "sample_activation = \<lparr>a_RunID = ''run-1'', a_ID = ''act-1'', a_Epoch = 7\<rparr>"

lemma sample_activation_valid: "Activation_Validate sample_activation = None"
  by code_simp

theorem NewOperationID_identity_witness:
  "\<exists>x y p q. NewOperationID sample_activation OperationEvent 1 = Inr x \<and>
     NewOperationID (sample_activation\<lparr>a_Epoch := 8\<rparr>) OperationEvent 2 = Inr y \<and>
     x = ''dp1_'' @ sha256_hex p \<and> y = ''dp1_'' @ sha256_hex q \<and> p \<noteq> q"
proof -
  have "Activation_Validate (sample_activation\<lparr>a_Epoch := 8\<rparr>) = None" by code_simp
  then obtain x y where
    x: "NewOperationID sample_activation OperationEvent 1 = Inr x" and
    y: "NewOperationID (sample_activation\<lparr>a_Epoch := 8\<rparr>) OperationEvent 2 = Inr y"
    using sample_activation_valid by (simp add: NewOperationID_Inr)
  from NewOperationID_identity [OF x y] obtain p q where
    "x = ''dp1_'' @ sha256_hex p" "y = ''dp1_'' @ sha256_hex q"
    "p = q \<longleftrightarrow> a_RunID sample_activation = a_RunID (sample_activation\<lparr>a_Epoch := 8\<rparr>) \<and>
       a_ID sample_activation = a_ID (sample_activation\<lparr>a_Epoch := 8\<rparr>) \<and>
       OperationEvent = OperationEvent \<and> (1 :: u32) = 2" by blast
  with x y show ?thesis by auto
qed

section \<open>Canonical manifests\<close>

lemma Grant_Validate_None:
  "Grant_Validate g = None \<longleftrightarrow>
     \<not> invalidToken (gr_Operation g) \<and> \<not> invalidToken (gr_Resource g) \<and> NUL \<notin> set (gr_Revision g)"
  by (simp add: Grant_Validate_def ContainsChar_def)

definition validGrants :: "Grant set" where
  "validGrants = {g. Grant_Validate g = None}"

lemma Manifest_Validate_None: "Manifest_Validate m = None \<longleftrightarrow> set (am_Grants m) \<subseteq> validGrants"
proof -
  have "Manifest_Validate m = None \<longleftrightarrow> (\<forall>i < length (am_Grants m). am_Grants m ! i \<in> validGrants)"
    by (simp add: Manifest_Validate_def first_err_idx_None validGrants_def split: option.splits) fastforce
  also have "\<dots> \<longleftrightarrow> set (am_Grants m) \<subseteq> validGrants"
    by (simp add: subset_code(1) all_set_conv_all_nth)
  finally show ?thesis .
qed

lemma canonical_inj: "inj_on canonical validGrants"
proof (rule inj_onI)
  fix g h assume g: "g \<in> validGrants" and h: "h \<in> validGrants" and e: "canonical g = canonical h"
  have "NUL \<notin> set (gr_Operation g)" "NUL \<notin> set (gr_Resource g)" "NUL \<notin> set (gr_Revision g)"
    "NUL \<notin> set (gr_Operation h)" "NUL \<notin> set (gr_Resource h)" "NUL \<notin> set (gr_Revision h)"
    using g h token_no_NUL by (auto simp: validGrants_def Grant_Validate_None)
  with e have "[gr_Operation g, gr_Resource g, gr_Revision g] = [gr_Operation h, gr_Resource h, gr_Revision h]"
    unfolding canonical_def by (subst (asm) join_NUL_inj) simp_all
  then show "g = h" by simp
qed

lemma dedupLoop_adj: "dedupLoop acc xs = (if acc = [] then remdups_adj xs
    else butlast acc @ remdups_adj (last acc # xs))"
proof (induction xs arbitrary: acc)
  case Nil
  then show ?case by simp
next
  case (Cons x xs)
  then show ?case by (cases "acc = []") auto
qed

lemma remdups_adj_strict:
  assumes "sorted (map k xs)" and "inj_on k (set xs)"
  shows "sorted_wrt (<) (map k (remdups_adj xs))"
  using assms
proof (induction xs rule: remdups_adj.induct)
  case (3 x y xs)
  show ?case
  proof (cases "x = y")
    case True
    with 3 show ?thesis by simp
  next
    case False
    have "k x \<noteq> k y" using 3(4) False by (auto simp: inj_on_def)
    moreover have "k x \<le> k y" using 3(3) by simp
    ultimately have "\<forall>z \<in> set (y # xs). k x < k z" using 3(3) by auto
    moreover have "sorted_wrt (<) (map k (remdups_adj (y # xs)))"
      using 3 False by (simp add: inj_on_def)
    ultimately show ?thesis using False by simp
  qed
qed simp_all

lemma strict_keys_unique:
  fixes k :: "'a \<Rightarrow> 'b::linorder"
  assumes "sorted_wrt (<) (map k xs)" and "sorted_wrt (<) (map k ys)" and "set xs = set ys"
    and "inj_on k (set xs)"
  shows "xs = ys"
proof -
  have "set (map k xs) = set (map k ys)" using assms(3) by simp
  with assms(1,2) have "map k xs = map k ys" by (intro strict_sorted_equal) simp_all
  then show ?thesis using assms(3,4) by (auto intro: map_inj_on)
qed

lemma NewManifest_eq:
  "NewManifest gs =
     (case Manifest_Validate \<lparr>am_Grants = gs\<rparr> of
        Some e \<Rightarrow> Inl e | None \<Rightarrow> Inr \<lparr>am_Grants = remdups_adj (sort_key canonical gs)\<rparr>)"
proof -
  have "remdups_adj xs = xs" if "length xs < 2" for xs :: "Grant list"
    using that by (cases xs rule: remdups_adj.cases) simp_all
  then show ?thesis
    by (auto simp: NewManifest_def Let_def dedupLoop_adj split: option.splits)
qed

lemma NewManifest_Inr:
  "NewManifest gs = Inr m \<longleftrightarrow> set gs \<subseteq> validGrants \<and> set (am_Grants m) = set gs \<and>
     sorted_wrt (<) (map canonical (am_Grants m))"
proof -
  let ?c = "remdups_adj (sort_key canonical gs)"
  have strict: "sorted_wrt (<) (map canonical ?c)" if "set gs \<subseteq> validGrants"
    using that by (intro remdups_adj_strict) (auto intro: inj_on_subset [OF canonical_inj])
  have eq: "am_Grants m = ?c"
    if "set gs \<subseteq> validGrants" "set (am_Grants m) = set gs" "sorted_wrt (<) (map canonical (am_Grants m))"
    using that(3) strict [OF that(1)]
    by (rule strict_keys_unique) (use that in \<open>auto intro: inj_on_subset [OF canonical_inj]\<close>)
  have inr: "NewManifest gs = Inr m \<longleftrightarrow> set gs \<subseteq> validGrants \<and> m = \<lparr>am_Grants = ?c\<rparr>"
    using Manifest_Validate_None [of "\<lparr>am_Grants = gs\<rparr>"]
    by (auto simp: NewManifest_eq split: option.splits)
  have "m = \<lparr>am_Grants = ?c\<rparr> \<longleftrightarrow> am_Grants m = ?c" by (cases m) simp
  with inr eq strict show ?thesis by auto
qed

lemma NewManifest_same:
  "NewManifest gs = Inr m \<Longrightarrow> set hs = set gs \<Longrightarrow> NewManifest hs = Inr m"
  by (simp add: NewManifest_Inr)

text \<open>
  A manifest is canonical: it holds exactly the grants it was made from, each valid and each
  once, in strictly increasing order of their texts; and every list of the same grants, in any
  order and with any repetition, its own list included, gives the same manifest.
\<close>

theorem NewManifest_canonical:
  assumes "NewManifest gs = Inr m"
  shows "set (am_Grants m) = set gs \<and> set gs \<subseteq> validGrants \<and> distinct (am_Grants m) \<and>
    sorted_wrt (<) (map canonical (am_Grants m)) \<and>
    (\<forall>hs. set hs = set gs \<longrightarrow> NewManifest hs = Inr m) \<and> NewManifest (am_Grants m) = Inr m"
proof -
  have "sorted_wrt (<) (map canonical (am_Grants m))" using assms by (simp add: NewManifest_Inr)
  moreover from this have "distinct (am_Grants m)" using strict_sorted_iff distinct_map by blast
  moreover have "\<forall>hs. set hs = set gs \<longrightarrow> NewManifest hs = Inr m"
    using NewManifest_same [OF assms] by blast
  ultimately show ?thesis using assms by (simp add: NewManifest_Inr)
qed

definition sample_grant :: "string \<Rightarrow> Grant" where
  "sample_grant op = \<lparr>gr_Operation = op, gr_Resource = ''repo:1'', gr_Revision = ''r1''\<rparr>"

theorem NewManifest_canonical_witness:
  "NewManifest [sample_grant ''write'', sample_grant ''read'', sample_grant ''write'', sample_grant ''write'']
     = Inr \<lparr>am_Grants = [sample_grant ''read'', sample_grant ''write'']\<rparr>"
proof -
  have n: "NewManifest [sample_grant ''read'', sample_grant ''write'']
      = Inr \<lparr>am_Grants = [sample_grant ''read'', sample_grant ''write'']\<rparr>" by code_simp
  have "set [sample_grant ''write'', sample_grant ''read'', sample_grant ''write'', sample_grant ''write'']
      = set [sample_grant ''read'', sample_grant ''write'']" by auto
  with NewManifest_canonical [OF n] show ?thesis by blast
qed

lemma Allows_Inr_True:
  "Allows m g = Inr True \<longleftrightarrow> set (am_Grants m) \<subseteq> validGrants \<and> g \<in> set (am_Grants m)"
  unfolding Allows_def using Manifest_Validate_None [of m]
  by (auto simp: validGrants_def split: option.splits)

lemma delegateLoop_None:
  "Manifest_Validate m = None \<Longrightarrow> set gs \<subseteq> validGrants \<Longrightarrow>
     delegateLoop m gs = None \<longleftrightarrow> set gs \<subseteq> set (am_Grants m)"
proof (induction gs)
  case Nil
  then show ?case by simp
next
  case (Cons g gs)
  then have "Allows m g = Inr (g \<in> set (am_Grants m))"
    by (simp add: Allows_def validGrants_def)
  with Cons show ?case by simp
qed

lemma Delegate_Inr:
  "Delegate m r = Inr d \<longleftrightarrow> set (am_Grants m) \<subseteq> validGrants \<and>
     set (am_Grants r) \<subseteq> set (am_Grants m) \<and> NewManifest (am_Grants r) = Inr d"
proof -
  have "Delegate m r = Inr d \<longleftrightarrow> Manifest_Validate m = None \<and> Manifest_Validate r = None \<and>
      delegateLoop m (am_Grants r) = None \<and> NewManifest (am_Grants r) = Inr d"
    by (auto simp: Delegate_def split: option.splits)
  also have "\<dots> \<longleftrightarrow> set (am_Grants m) \<subseteq> validGrants \<and>
     set (am_Grants r) \<subseteq> set (am_Grants m) \<and> NewManifest (am_Grants r) = Inr d"
  proof (cases "Manifest_Validate m = None \<and> Manifest_Validate r = None")
    case True
    then show ?thesis
      using delegateLoop_None [of m "am_Grants r"] Manifest_Validate_None [of m]
        Manifest_Validate_None [of r] by simp
  next
    case False
    then show ?thesis
      using Manifest_Validate_None [of m] Manifest_Validate_None [of r] by (auto simp: NewManifest_Inr)
  qed
  finally show ?thesis .
qed

definition delegateChain :: "AuthManifest \<Rightarrow> AuthManifest list \<Rightarrow> exec_error + AuthManifest" where
  "delegateChain m requests = fold_res Delegate requests m"

text \<open>
  C29. Delegation never escalates: along any chain of successful delegations, every grant the last
  manifest allows is allowed by the first.
\<close>

theorem Delegate_no_escalation:
  assumes "delegateChain m requests = Inr d" and "Allows d g = Inr True"
  shows "Allows m g = Inr True"
proof -
  have "set (am_Grants d) \<subseteq> set (am_Grants m) \<and>
      (requests = [] \<or> set (am_Grants m) \<subseteq> validGrants)"
    using assms(1) unfolding delegateChain_def
  proof (induction requests arbitrary: m)
    case Nil
    then show ?case by simp
  next
    case (Cons r rs)
    then obtain m' where m': "Delegate m r = Inr m'" and rs: "fold_res Delegate rs m' = Inr d"
      by (auto split: sum.splits)
    from m' have "set (am_Grants m) \<subseteq> validGrants" "set (am_Grants m') \<subseteq> set (am_Grants m)"
      by (auto simp: Delegate_Inr NewManifest_Inr)
    with Cons.IH [OF rs] show ?case by auto
  qed
  moreover have "requests = [] \<Longrightarrow> d = m" using assms(1) by (simp add: delegateChain_def)
  ultimately show ?thesis using assms(2) by (auto simp: Allows_Inr_True)
qed

theorem Delegate_no_escalation_witness:
  "Allows \<lparr>am_Grants = [sample_grant ''read'', sample_grant ''write'']\<rparr> (sample_grant ''read'') = Inr True"
proof (rule Delegate_no_escalation)
  show "delegateChain \<lparr>am_Grants = [sample_grant ''read'', sample_grant ''write'']\<rparr>
      [\<lparr>am_Grants = [sample_grant ''read'', sample_grant ''read'']\<rparr>]
    = Inr \<lparr>am_Grants = [sample_grant ''read'']\<rparr>"
    by code_simp
  show "Allows \<lparr>am_Grants = [sample_grant ''read'']\<rparr> (sample_grant ''read'') = Inr True"
    by code_simp
qed

section \<open>Digests\<close>

definition noFF :: "Grant \<Rightarrow> bool" where
  "noFF g \<longleftrightarrow> CHR 0xFF \<notin> set (canonical g)"

lemma terminated_inj:
  assumes "\<forall>w \<in> set ws. d \<notin> set w" and "\<forall>w \<in> set vs. d \<notin> set w"
    and "concat (map (\<lambda>w. w @ [d]) ws) = concat (map (\<lambda>w. w @ [d]) vs)"
  shows "ws = (vs :: string list)"
proof -
  have s: "split_on d (concat (map (\<lambda>w. w @ [d]) us)) = us @ [[]]" if "\<forall>w \<in> set us. d \<notin> set w" for us
    using that
  proof (induction us)
    case Nil
    then show ?case by simp
  next
    case (Cons u us)
    let ?rest = "concat (map (\<lambda>w. w @ [d]) us)"
    have "\<forall>w \<in> set us. d \<notin> set w" using Cons.prems by simp
    then have "split_on d ?rest = us @ [[]]" by (rule Cons.IH)
    then have "split_on d (u @ d # ?rest) = split_on d u @ us @ [[]]"
      by (simp only: split_on_append_sep)
    moreover have "split_on d u = [u]" using Cons.prems by (intro split_on_no_sep) simp
    moreover have "concat (map (\<lambda>w. w @ [d]) (u # us)) = u @ d # ?rest" by simp
    ultimately show ?case by (simp only: append.simps)
  qed
  have "ws @ [[]] = vs @ [[]]"
    using s [OF assms(1)] unfolding assms(3) s [OF assms(2)] by (rule sym)
  then show ?thesis by simp
qed

lemma digestPayload_inj:
  assumes "set gs \<subseteq> validGrants" "set hs \<subseteq> validGrants" "\<forall>g \<in> set gs \<union> set hs. noFF g"
  shows "digestPayload gs = digestPayload hs \<longleftrightarrow> gs = hs"
proof
  assume "digestPayload gs = digestPayload hs"
  then have "concat (map (\<lambda>w. w @ [CHR 0xFF]) (map canonical gs)) =
      concat (map (\<lambda>w. w @ [CHR 0xFF]) (map canonical hs))"
    by (simp add: digestPayload_def comp_def)
  then have "map canonical gs = map canonical hs"
    using assms(3) by (intro terminated_inj [of _ "CHR 0xFF"]) (auto simp: noFF_def)
  moreover have "inj_on canonical (set gs \<union> set hs)"
    using assms(1,2) by (intro inj_on_subset [OF canonical_inj]) simp
  ultimately show "gs = hs" by (rule map_inj_on)
qed simp

text \<open>
  The digest of a manifest is a hash of a text that does not depend on the order or the
  repetition of its grants, and, for grants without the byte 255 (which no UTF-8 text has),
  determines them.
\<close>

theorem Digest_identity:
  assumes "set (am_Grants m) \<subseteq> validGrants" and "set (am_Grants n) \<subseteq> validGrants"
    and "\<forall>g \<in> set (am_Grants m) \<union> set (am_Grants n). noFF g"
  shows "\<exists>p q. Digest m = Inr (sha256_hex p) \<and> Digest n = Inr (sha256_hex q) \<and>
    (p = q \<longleftrightarrow> set (am_Grants m) = set (am_Grants n))"
proof -
  obtain c where c: "NewManifest (am_Grants m) = Inr c"
    using assms(1) Manifest_Validate_None [of "\<lparr>am_Grants = am_Grants m\<rparr>"] by (auto simp: NewManifest_eq)
  obtain d where d: "NewManifest (am_Grants n) = Inr d"
    using assms(2) Manifest_Validate_None [of "\<lparr>am_Grants = am_Grants n\<rparr>"] by (auto simp: NewManifest_eq)
  have sets: "set (am_Grants c) = set (am_Grants m)" "set (am_Grants d) = set (am_Grants n)"
    using c d by (simp_all add: NewManifest_Inr)
  have "digestPayload (am_Grants c) = digestPayload (am_Grants d) \<longleftrightarrow> am_Grants c = am_Grants d"
    using assms by (intro digestPayload_inj) (simp_all add: sets)
  also have "\<dots> \<longleftrightarrow> set (am_Grants m) = set (am_Grants n)"
  proof
    assume "am_Grants c = am_Grants d"
    then show "set (am_Grants m) = set (am_Grants n)" using sets by simp
  next
    assume "set (am_Grants m) = set (am_Grants n)"
    then have "NewManifest (am_Grants n) = Inr c" using c NewManifest_same by metis
    with d show "am_Grants c = am_Grants d" by simp
  qed
  finally show ?thesis using c d by (auto simp: Digest_def)
qed

theorem Digest_identity_witness:
  "\<exists>p q. Digest \<lparr>am_Grants = [sample_grant ''read'', sample_grant ''write'']\<rparr> = Inr (sha256_hex p) \<and>
     Digest \<lparr>am_Grants = [sample_grant ''write'', sample_grant ''read'']\<rparr> = Inr (sha256_hex q) \<and> p = q"
proof -
  let ?m = "\<lparr>am_Grants = [sample_grant ''read'', sample_grant ''write'']\<rparr>"
  let ?n = "\<lparr>am_Grants = [sample_grant ''write'', sample_grant ''read'']\<rparr>"
  have "Manifest_Validate ?m = None" "Manifest_Validate ?n = None" by code_simp+
  then have v: "set (am_Grants ?m) \<subseteq> validGrants" "set (am_Grants ?n) \<subseteq> validGrants"
    by (simp_all only: Manifest_Validate_None)
  have "noFF (sample_grant ''read'')" "noFF (sample_grant ''write'')" by code_simp+
  then have "\<forall>g \<in> set (am_Grants ?m) \<union> set (am_Grants ?n). noFF g" by auto
  from Digest_identity [OF v this] show ?thesis by auto
qed

definition ambiguous_left :: AuthManifest where
  "ambiguous_left = \<lparr>am_Grants =
     [\<lparr>gr_Operation = ''a'', gr_Resource = ''b'', gr_Revision = [CHR 0xFF, CHR ''c'']\<rparr>,
      \<lparr>gr_Operation = ''d'', gr_Resource = ''e'', gr_Revision = []\<rparr>]\<rparr>"

definition ambiguous_right :: AuthManifest where
  "ambiguous_right = \<lparr>am_Grants =
     [\<lparr>gr_Operation = ''a'', gr_Resource = ''b'', gr_Revision = []\<rparr>,
      \<lparr>gr_Operation = [CHR ''c'', CHR 0xFF, CHR ''d''], gr_Resource = ''e'', gr_Revision = []\<rparr>]\<rparr>"

text \<open>
  Grants are arbitrary bytes, and the byte 255 that ends a grant in the hashed text may occur
  in one: these two valid, canonical manifests share no grant and have the same digest.
\<close>

theorem Digest_ambiguous:
  "NewManifest (am_Grants ambiguous_left) = Inr ambiguous_left \<and>
   NewManifest (am_Grants ambiguous_right) = Inr ambiguous_right \<and>
   set (am_Grants ambiguous_left) \<inter> set (am_Grants ambiguous_right) = {} \<and>
   Digest ambiguous_left = Digest ambiguous_right"
proof -
  have l: "NewManifest (am_Grants ambiguous_left) = Inr ambiguous_left"
    and r: "NewManifest (am_Grants ambiguous_right) = Inr ambiguous_right" by code_simp+
  have "digestPayload (am_Grants ambiguous_left) = digestPayload (am_Grants ambiguous_right)" by code_simp
  then have "Digest ambiguous_left = Digest ambiguous_right" by (simp add: Digest_def l r)
  moreover have "set (am_Grants ambiguous_left) \<inter> set (am_Grants ambiguous_right) = {}"
    by (simp add: ambiguous_left_def ambiguous_right_def)
  ultimately show ?thesis using l r by simp
qed

section \<open>Epochs and effects\<close>

lemma epoch_max: "(0xFFFFFFFFFFFFFFFF :: Epoch) = - 1"
  by simp

lemma AdvanceEpoch_Inr:
  "AdvanceEpoch a = Inr b \<longleftrightarrow> Activation_Validate a = None \<and> a_Epoch a \<noteq> 0xFFFFFFFFFFFFFFFF \<and>
     b = a\<lparr>a_Epoch := a_Epoch a + 1\<rparr>"
  by (auto simp: AdvanceEpoch_def split: option.splits)

text \<open>The activations that a sequence of successful advances reaches.\<close>

inductive advanced :: "Activation \<Rightarrow> Activation \<Rightarrow> bool" where
  advanced_once: "AdvanceEpoch a = Inr b \<Longrightarrow> advanced a b"
| advanced_more: "advanced a b \<Longrightarrow> AdvanceEpoch b = Inr c \<Longrightarrow> advanced a c"

lemma AdvanceEpoch_step:
  assumes "AdvanceEpoch a = Inr b"
  shows "a_RunID b = a_RunID a" "a_ID b = a_ID a" "a_Epoch a < a_Epoch b" "Activation_Validate b = None"
    "Activation_Validate a = None"
proof -
  have v: "Activation_Validate a = None" and m: "a_Epoch a \<noteq> - 1" and b: "b = a\<lparr>a_Epoch := a_Epoch a + 1\<rparr>"
    using assms unfolding AdvanceEpoch_Inr epoch_max by blast+
  from m have "a_Epoch a + 1 \<noteq> 0" by (metis add_eq_0_iff2)
  then have up: "a_Epoch a < a_Epoch a + 1" using unatSuc [of "a_Epoch a"] by (simp add: word_less_nat_alt add.commute)
  with v b show "a_RunID b = a_RunID a" "a_ID b = a_ID a" "a_Epoch a < a_Epoch b"
    "Activation_Validate b = None" "Activation_Validate a = None"
    using \<open>a_Epoch a + 1 \<noteq> 0\<close> by (simp_all add: Activation_Validate_None)
qed

lemma advanced_facts:
  "advanced a b \<Longrightarrow> a_RunID b = a_RunID a \<and> a_ID b = a_ID a \<and> a_Epoch a < a_Epoch b \<and>
     Activation_Validate a = None \<and> Activation_Validate b = None"
proof (induction rule: advanced.induct)
  case (advanced_once a b)
  then show ?case using AdvanceEpoch_step by blast
next
  case (advanced_more a b c)
  then show ?case using AdvanceEpoch_step [of b c] order.strict_trans by metis
qed

lemma NewEffectIntent_Inr:
  "NewEffectIntent a ord g inp = Inr i \<longleftrightarrow>
     Activation_Validate a = None \<and> Grant_Validate g = None \<and>
     i = \<lparr>i_ID = ''dp1_'' @ sha256_hex (operationPayload a OperationEffect ord),
       i_RunID = a_RunID a, i_ActivationID = a_ID a, i_Epoch = a_Epoch a, i_Ordinal = ord,
       i_Grant = g, i_InputDigest = digestBytes ''dev-plane/effect-input/v1'' inp\<rparr>"
  by (auto simp: NewEffectIntent_def NewOperationID_def split: option.splits)

lemma intentActivation_New:
  "NewEffectIntent a ord g inp = Inr i \<Longrightarrow> intentActivation i = a"
  by (cases a) (auto simp: NewEffectIntent_Inr intentActivation_def)

lemma Intent_Validate_New:
  assumes "NewEffectIntent a ord g inp = Inr i"
  shows "Intent_Validate i = None"
  using assms intentActivation_New [OF assms]
  by (auto simp: NewEffectIntent_Inr Intent_Validate_def NewOperationID_def digestBytes_def)

text \<open>
  C13. Fencing with replay.  Once the epoch of an activation has advanced, by any number of steps,
  an intent made before is refused as stale; the new owner's intent for the same effect has the
  same identity, is authorised, conflicts with the old record, and finds the receipt the old owner
  obtained from any provider.
\<close>

theorem epoch_fencing:
  assumes "NewEffectIntent a ord g inp = Inr i" and "advanced a b"
  shows "AuthorizeAgainst i a = None \<and> AuthorizeAgainst i b = Some ErrStaleEpoch \<and>
    (\<exists>j. NewEffectIntent b ord g inp = Inr j \<and> AuthorizeAgainst j b = None \<and> i_ID j = i_ID i \<and>
       MergeIntent i j = Inl ErrIntentConflict \<and>
       (\<forall>p ref out. \<not> invalidToken p \<longrightarrow>
          (\<exists>r. NewEffectReceipt i p ref out = Inr r \<and>
             RecoverEffect j (Some r) = Inr EffectReplayRecordedResult)))"
proof -
  have b: "a_RunID b = a_RunID a" "a_ID b = a_ID a" "a_Epoch a < a_Epoch b"
    "Activation_Validate a = None" "Activation_Validate b = None"
    using advanced_facts [OF assms(2)] by simp_all
  have vi: "Intent_Validate i = None" using assms(1) by (rule Intent_Validate_New)
  have i: "i_RunID i = a_RunID a" "i_ActivationID i = a_ID a" "i_Epoch i = a_Epoch a"
    "Grant_Validate g = None" "i_ID i = ''dp1_'' @ sha256_hex (operationPayload a OperationEffect ord)"
    using assms(1) by (simp_all add: NewEffectIntent_Inr)
  have au: "AuthorizeAgainst i a = None" "AuthorizeAgainst i b = Some ErrStaleEpoch"
    using vi i b by (auto simp: AuthorizeAgainst_def)
  obtain j where j: "NewEffectIntent b ord g inp = Inr j"
    using b(5) i(4) by (simp add: NewEffectIntent_Inr)
  have vj: "Intent_Validate j = None" using j by (rule Intent_Validate_New)
  have jj: "i_RunID j = a_RunID b" "i_ActivationID j = a_ID b" "i_Epoch j = a_Epoch b"
    using j by (simp_all add: NewEffectIntent_Inr)
  have "operationPayload b OperationEffect ord = operationPayload a OperationEffect ord"
    by (simp add: operationPayload_def b)
  then have same: "i_ID j = i_ID i" using j i(5) by (simp add: NewEffectIntent_Inr)
  have "i \<noteq> j" using i(3) jj(3) b(3) by auto
  then have mc: "MergeIntent i j = Inl ErrIntentConflict" using vi vj by (simp add: MergeIntent_def)
  have "\<exists>r. NewEffectReceipt i p ref out = Inr r \<and> RecoverEffect j (Some r) = Inr EffectReplayRecordedResult"
    if "\<not> invalidToken p" for p ref out
    using that vi vj same i(5)
    by (simp add: NewEffectReceipt_def RecoverEffect_def Receipt_Validate_def digestBytes_def)
  moreover have "AuthorizeAgainst j b = None" using vj jj b by (simp add: AuthorizeAgainst_def)
  ultimately show ?thesis using au j same mc by blast
qed

theorem epoch_fencing_witness:
  "\<exists>i. NewEffectIntent sample_activation 3 (sample_grant ''write'') ''payload'' = Inr i \<and>
     AuthorizeAgainst i (sample_activation\<lparr>a_Epoch := 8\<rparr>) = Some ErrStaleEpoch"
proof -
  have "Grant_Validate (sample_grant ''write'') = None" by code_simp
  then obtain i where i: "NewEffectIntent sample_activation 3 (sample_grant ''write'') ''payload'' = Inr i"
    using sample_activation_valid by (simp add: NewEffectIntent_Inr)
  have "AdvanceEpoch sample_activation = Inr (sample_activation\<lparr>a_Epoch := 8\<rparr>)"
    using sample_activation_valid by (simp add: AdvanceEpoch_Inr sample_activation_def)
  then have "advanced sample_activation (sample_activation\<lparr>a_Epoch := 8\<rparr>)" by (rule advanced_once)
  from epoch_fencing [OF i this] i show ?thesis by blast
qed

text \<open>
  The interface of a record that is written once: a merge returns a value only when the incoming
  record is the one held.
\<close>

locale write_once =
  fixes merge :: "'v \<Rightarrow> 'v \<Rightarrow> 'e + 'v" and ok :: "'v \<Rightarrow> bool"
  assumes merge_same: "ok x \<Longrightarrow> merge x x = Inr x"
    and merge_result: "merge x y = Inr z \<Longrightarrow> ok x \<and> x = y \<and> z = x"
begin

lemma merge_all:
  assumes "ok x"
  shows "fold_res merge ys x = Inr z \<longleftrightarrow> z = x \<and> set ys \<subseteq> {x}"
proof (induction ys)
  case Nil
  then show ?case by auto
next
  case (Cons y ys)
  show ?case
  proof (cases "y = x")
    case True
    with Cons merge_same [OF assms] show ?thesis by simp
  next
    case False
    then have "\<nexists>v. merge x y = Inr v" using merge_result by blast
    then obtain e where "merge x y = Inl e" by (cases "merge x y") auto
    with False show ?thesis by simp
  qed
qed

end

interpretation intents: write_once MergeIntent "\<lambda>i. Intent_Validate i = None"
  by unfold_locales (auto simp: MergeIntent_def split: option.splits if_splits)

interpretation receipts: write_once MergeReceipt "\<lambda>r. Receipt_Validate r = None"
  by unfold_locales (auto simp: MergeReceipt_def split: option.splits if_splits)

text \<open>
  Intents and receipts are written once: merging any sequence of deliveries into a valid
  record succeeds exactly when each delivery is that record, and leaves it unchanged, so the order
  and the number of deliveries do not matter.
\<close>

theorem merge_deliveries:
  assumes "Intent_Validate i = None" and "Receipt_Validate r = None"
  shows "(fold_res MergeIntent is i = Inr j \<longleftrightarrow> j = i \<and> set is \<subseteq> {i}) \<and>
    (fold_res MergeReceipt rs r = Inr s \<longleftrightarrow> s = r \<and> set rs \<subseteq> {r})"
  using intents.merge_all [OF assms(1)] receipts.merge_all [OF assms(2)] by blast

theorem merge_deliveries_witness:
  "\<exists>i r. NewEffectIntent sample_activation 3 (sample_grant ''write'') ''payload'' = Inr i \<and>
     NewEffectReceipt i ''github'' ''pr/1'' ''ok'' = Inr r \<and>
     fold_res MergeIntent [i, i] i = Inr i \<and> fold_res MergeReceipt [r, r, r] r = Inr r"
proof -
  have "Grant_Validate (sample_grant ''write'') = None" by code_simp
  then obtain i where i: "NewEffectIntent sample_activation 3 (sample_grant ''write'') ''payload'' = Inr i"
    using sample_activation_valid by (simp add: NewEffectIntent_Inr)
  then have vi: "Intent_Validate i = None" by (rule Intent_Validate_New)
  have p: "\<not> invalidToken ''github''" by code_simp
  then obtain r where r: "NewEffectReceipt i ''github'' ''pr/1'' ''ok'' = Inr r"
    using vi by (simp add: NewEffectReceipt_def)
  have "i_ID i \<noteq> []" using i by (simp add: NewEffectIntent_Inr)
  then have vr: "Receipt_Validate r = None"
    using r vi p by (auto simp: NewEffectReceipt_def Receipt_Validate_def digestBytes_def)
  from merge_deliveries [OF vi vr, of "[i, i]" i "[r, r, r]" r] i r show ?thesis by auto
qed

end
