(* ===== verification/Capability.thy ===== *)
theory Capability
  imports Policies Budgets Execution
begin

text \<open>
  The capability kernel (\<open>apps/api/internal/capability/kernel.go\<close>, \<open>operations.go\<close>): every
  dangerous operation is decided by role permissions, the policy engine, the budget and the state
  of the sandbox, and the decision is written to the audit log.

  The calls of the audit logger are collected in a list, in the order they are made; a write that
  fails is only logged by the kernel.  The policy engine and the check of a run never return an
  error, so the kernel's branches for their errors are not reached.  Reasons are values that hold what their texts print.
\<close>

section \<open>Operations\<close>

text \<open>The table of operations: resource type and action.\<close>

definition operationResourceMap :: "(string \<times> string \<times> string) list" where
  "operationResourceMap =
    [(''read_file'', ''file'', ''read''), (''write_file'', ''file'', ''write''),
     (''apply_patch'', ''file'', ''write''), (''delete_file'', ''file'', ''delete''),
     (''run_command'', ''command'', ''execute''), (''run_tests'', ''command'', ''test''),
     (''install_dependency'', ''command'', ''install''), (''access_secret'', ''secret'', ''read''),
     (''write_secret'', ''secret'', ''write''), (''rotate_secret'', ''secret'', ''rotate''),
     (''network_request'', ''network'', ''request''), (''call_mcp_tool'', ''command'', ''execute''),
     (''start_preview_server'', ''deploy'', ''execute''), (''stop_preview_server'', ''deploy'', ''execute''),
     (''run_migration'', ''command'', ''migrate''), (''destructive_db'', ''command'', ''destructive_db''),
     (''create_commit'', ''git'', ''commit''), (''push_branch'', ''git'', ''push''),
     (''open_pull_request'', ''git'', ''create_pr''), (''merge_pull_request'', ''git'', ''merge''),
     (''deploy'', ''deploy'', ''execute''), (''delete_workspace'', ''workspace'', ''delete''),
     (''modify_policy'', ''policy'', ''write''), (''modify_budget'', ''budget'', ''write''),
     (''search_repository'', ''command'', ''search''), (''static_analysis'', ''command'', ''analyze'')]"

definition GetResourceAndAction :: "string \<Rightarrow> string \<times> string" where
  "GetResourceAndAction op = (case map_of operationResourceMap op of Some m \<Rightarrow> m | None \<Rightarrow> ([], []))"

definition GetResourceType :: "string \<Rightarrow> string" where
  "GetResourceType op = (case map_of operationResourceMap op of Some m \<Rightarrow> fst m | None \<Rightarrow> [])"

definition GetAction :: "string \<Rightarrow> string" where
  "GetAction op = (case map_of operationResourceMap op of Some m \<Rightarrow> snd m | None \<Rightarrow> [])"

definition isHighRiskOperation :: "string \<Rightarrow> bool" where
  "isHighRiskOperation op \<longleftrightarrow>
     op \<in> {''deploy'', ''destructive_db'', ''merge_pull_request'', ''delete_workspace'', ''modify_policy'',
       ''modify_budget'', ''push_branch'', ''write_secret'', ''rotate_secret''}"

definition isAuditedOperation :: "string \<Rightarrow> bool" where
  "isAuditedOperation op \<longleftrightarrow>
     op \<in> {''deploy'', ''merge_pull_request'', ''access_secret'', ''write_secret'', ''modify_policy'',
       ''modify_budget'', ''rotate_secret'', ''destructive_db'', ''delete_workspace''}"

definition IsAdminOnly :: "string \<Rightarrow> bool" where
  "IsAdminOnly op \<longleftrightarrow>
     op \<in> {''deploy'', ''merge_pull_request'', ''write_secret'', ''rotate_secret'', ''modify_policy'',
       ''modify_budget'', ''destructive_db'', ''delete_workspace''}"

section \<open>Requests and results\<close>

datatype CapRisk = RiskLevelLow | RiskLevelMedium | RiskLevelHigh | RiskLevelCritical

record CapRequest =
  q_ActorType :: string
  q_User :: "User option"
  q_AgentRole :: string
  q_Organization :: "Organization option"
  q_Project :: "Project option"
  q_Repository :: "Repository option"
  q_Workspace :: "Workspace option"
  q_Task :: "ModelTask option"
  q_AgentRun :: "AgentRun option"
  q_Operation :: string
  q_ResourceType :: string
  q_Resource :: string
  q_Revision :: string
  q_Budget :: "Budget option"
  q_SandboxState :: string
  q_Details :: "string \<rightharpoonup> gany"

datatype Reason =
    NoReason
  | RBACReason string string string string
  | BudgetReason "Violation list option"
  | InvalidAuthority exec_error
  | AllowedReason string string
  | ApprovalReason string string CapRisk
  | DeniedReason string string
  | AdminOnlyReason string string
  | UnknownEffectReason string

record CapResult =
  res_Effect :: Effect
  res_RequiredApproval :: bool
  res_AuditRequired :: bool
  res_Reason :: Reason
  res_RiskLevel :: CapRisk
  res_RequestedGrant :: "Grant option"

datatype cap_error = CapabilityUnknown exec_error

text \<open>The arguments of \<open>LogCapabilityCheckForActor\<close>.\<close>

record AuditEntry =
  ae_OrgID :: string
  ae_ActorType :: string
  ae_ActorID :: string
  ae_Operation :: string
  ae_Resource :: string
  ae_Effect :: string
  ae_Allowed :: bool
  ae_Reason :: Reason

text \<open>The kernel, with the data base of its budget engine and whether it has an audit logger.\<close>

record Kernel =
  k_policyEngine :: PolicyEngine
  k_budgetDB :: "BudgetDB option"
  k_auditLogger :: bool

definition NewKernel :: "PolicyEngine option \<Rightarrow> BudgetDB option option \<Rightarrow> bool \<Rightarrow> Kernel" where
  "NewKernel policyEngine budgetEngine auditLogger =
     \<lparr>k_policyEngine = (case policyEngine of None \<Rightarrow> DefaultEngine | Some e \<Rightarrow> e),
      k_budgetDB = (case budgetEngine of None \<Rightarrow> None | Some db \<Rightarrow> db),
      k_auditLogger = auditLogger\<rparr>"

definition WithPolicyEngine :: "Kernel \<Rightarrow> PolicyEngine option \<Rightarrow> Kernel" where
  "WithPolicyEngine k engine = (case engine of None \<Rightarrow> k | Some e \<Rightarrow> k\<lparr>k_policyEngine := e\<rparr>)"

section \<open>The state of a run\<close>

text \<open>Go's integer division truncates.\<close>

definition go_div :: "int \<Rightarrow> int \<Rightarrow> int" where
  "go_div a b = sgn a * sgn b * (\<bar>a\<bar> div \<bar>b\<bar>)"

text \<open>
  \<open>Sub\<close> saturates at the limits of \<open>int64\<close>; \<open>Minutes\<close> is the float sum of the whole minutes and the
  quotient of the remaining nanoseconds.
\<close>

definition timeSub :: "int \<Rightarrow> int \<Rightarrow> int" where
  "timeSub t u = max (- (2 ^ 63)) (min (2 ^ 63 - 1) (t - u))"

definition durationMinutes :: "int \<Rightarrow> f64" where
  "durationMinutes d =
     (let minute = 60000000000; m = go_div d minute; nsec = d - m * minute
      in f64_add (f64_of_int m) (f64_div (f64_of_int nsec) (f64_of_int minute)))"

definition detailInt :: "(string \<rightharpoonup> gany) \<Rightarrow> string \<Rightarrow> int" where
  "detailInt details key = (case details key of Some (AInt n) \<Rightarrow> n | _ \<Rightarrow> 0)"

definition buildRunState :: "CapRequest \<Rightarrow> RunState" where
  "buildRunState req =
     \<lparr>rs_CostSoFar = (case q_AgentRun req of None \<Rightarrow> f64_zero | Some run \<Rightarrow> ar_TotalCost run),
      rs_DurationMinutes =
        (case q_AgentRun req of
           None \<Rightarrow> 0
         | Some run \<Rightarrow>
           (case (ar_StartedAt run, ar_CompletedAt run) of
              (Some started, Some completed) \<Rightarrow> f64_trunc (durationMinutes (timeSub completed started))
            | _ \<Rightarrow> 0)),
      rs_ModelCalls =
        (case q_AgentRun req of
           None \<Rightarrow> 0
         | Some run \<Rightarrow> go_div (ar_PromptTokens run) 1000 + go_div (ar_CompletionTokens run) 1000),
      rs_ToolCalls = detailInt (q_Details req) ''tool_calls'',
      rs_ShellCommands = detailInt (q_Details req) ''shell_commands'',
      rs_FilesChanged = detailInt (q_Details req) ''files_changed'',
      rs_DiffSizeKB = detailInt (q_Details req) ''diff_size_kb''\<rparr>"

section \<open>Evaluation\<close>

definition calculateRiskLevel :: "CapRequest \<Rightarrow> Effect \<Rightarrow> CapRisk" where
  "calculateRiskLevel req effect =
     (if effect = EffectAdminOnly then RiskLevelCritical
      else if effect = EffectDeny then RiskLevelHigh
      else if isHighRiskOperation (q_Operation req) then RiskLevelHigh
      else if effect = EffectAsk then RiskLevelMedium
      else if q_Operation req = ''access_secret'' \<or> q_Operation req = ''write_secret'' \<or>
        q_Operation req = ''network_request'' then RiskLevelMedium
      else RiskLevelLow)"

definition buildReason :: "CapRequest \<Rightarrow> CapResult \<Rightarrow> Reason" where
  "buildReason req result =
     (case res_Effect result of
        EffectAllow \<Rightarrow> AllowedReason (q_Operation req) (q_Resource req)
      | EffectAsk \<Rightarrow> ApprovalReason (q_Operation req) (q_Resource req) (res_RiskLevel result)
      | EffectDeny \<Rightarrow>
          if res_Reason result \<noteq> NoReason then res_Reason result
          else DeniedReason (q_Operation req) (q_Resource req)
      | EffectAdminOnly \<Rightarrow> AdminOnlyReason (q_Operation req) (q_Resource req)
      | EffectOther _ \<Rightarrow> UnknownEffectReason (q_Operation req))"

definition auditOrg :: "CapRequest \<Rightarrow> string" where
  "auditOrg req =
     (let o1 = (case q_Organization req of None \<Rightarrow> [] | Some og \<Rightarrow> og_ID og);
          o2 = (if o1 = [] then (case q_User req of None \<Rightarrow> o1 | Some u \<Rightarrow> u_OrganizationID u) else o1)
      in if o2 = [] then (case q_Details req ''organization_id'' of Some (AString v) \<Rightarrow> v | _ \<Rightarrow> o2) else o2)"

definition auditActor :: "CapRequest \<Rightarrow> string \<times> string" where
  "auditActor req =
     (let t0 = (if q_ActorType req = [] then ''system'' else q_ActorType req);
          (t1, a1) = (case q_User req of
             None \<Rightarrow> (t0, [])
           | Some u \<Rightarrow> (if t0 = ''system'' then ''human'' else t0, u_ID u))
      in if a1 = [] then
           (case q_AgentRun req of
              None \<Rightarrow> (t1, a1)
            | Some run \<Rightarrow> (if t1 = ''system'' then ''agent'' else t1, ar_ID run))
         else (t1, a1))"

definition logAudit :: "Kernel \<Rightarrow> CapRequest \<Rightarrow> CapResult \<Rightarrow> AuditEntry list" where
  "logAudit k req result =
     (if \<not> k_auditLogger k then []
      else [\<lparr>ae_OrgID = auditOrg req, ae_ActorType = fst (auditActor req), ae_ActorID = snd (auditActor req),
             ae_Operation = q_Operation req, ae_Resource = q_Resource req,
             ae_Effect = effectText (res_Effect result), ae_Allowed = (res_Effect result \<noteq> EffectDeny),
             ae_Reason = res_Reason result\<rparr>])"

text \<open>The resource type and the action the kernel derives from a request.\<close>

definition requestTarget :: "CapRequest \<Rightarrow> string \<times> string" where
  "requestTarget req =
     (let (resourceType, action) =
        (if q_ResourceType req = [] \<and> q_Operation req \<noteq> []
         then GetResourceAndAction (q_Operation req) else (q_ResourceType req, []))
      in (if resourceType = [] then ''unknown'' else resourceType, action))"

definition startResult :: CapResult where
  "startResult =
     \<lparr>res_Effect = EffectAllow, res_RequiredApproval = False, res_AuditRequired = False,
      res_Reason = NoReason, res_RiskLevel = RiskLevelLow, res_RequestedGrant = None\<rparr>"

definition policyRequest :: "CapRequest \<Rightarrow> EvaluationRequest" where
  "policyRequest req =
     \<lparr>er_User = q_User req, er_Task = q_Task req, er_Workspace = q_Workspace req,
      er_Action = snd (requestTarget req), er_ResourceType = fst (requestTarget req),
      er_Resource = q_Resource req, er_Details = q_Details req\<rparr>"

text \<open>Steps 6 to 10: the sandbox, the approval, the grant, the risk, the reason and the audit.\<close>

definition finishEvaluation ::
    "Kernel \<Rightarrow> CapRequest \<Rightarrow> CapResult \<Rightarrow> Effect \<Rightarrow> (CapResult \<times> cap_error option) \<times> AuditEntry list" where
  "finishEvaluation k req result0 effect0 =
     (let effect = (if q_SandboxState req = ''isolated'' \<and> isHighRiskOperation (q_Operation req) \<and>
            effect0 = EffectAllow then EffectAsk else effect0);
          result = result0\<lparr>res_Effect := effect,
            res_RequiredApproval := (effect = EffectAsk \<or> effect = EffectAdminOnly)\<rparr>;
          grant = \<lparr>gr_Operation = q_Operation req, gr_Resource = q_Resource req, gr_Revision = q_Revision req\<rparr>;
          binds = (effect \<noteq> EffectDeny \<and> q_Operation req \<noteq> [] \<and> q_Resource req \<noteq> []);
          done = (\<lambda>r. let r1 = r\<lparr>res_RiskLevel := calculateRiskLevel req effect\<rparr>;
                        r2 = r1\<lparr>res_Reason := buildReason req r1\<rparr>;
                        r3 = r2\<lparr>res_AuditRequired := (isAuditedOperation (q_Operation req) \<or>
                               effect = EffectDeny \<or> effect = EffectAdminOnly)\<rparr>
                    in ((r3, None), logAudit k req r3))
      in if binds then
           (case Grant_Validate grant of
              Some e \<Rightarrow>
                (let r = result\<lparr>res_Effect := EffectDeny, res_RequiredApproval := False,
                      res_Reason := InvalidAuthority e, res_RiskLevel := RiskLevelHigh\<rparr>
                 in ((r, Some (CapabilityUnknown e)), logAudit k req r))
            | None \<Rightarrow> done (result\<lparr>res_RequestedGrant := Some grant\<rparr>))
         else done result)"

definition Kernel_Evaluate ::
    "(f64 \<Rightarrow> string) \<Rightarrow> Kernel \<Rightarrow> CapRequest \<Rightarrow> (CapResult \<times> cap_error option) \<times> AuditEntry list" where
  "Kernel_Evaluate ftext k req =
     (let (resourceType, action) = requestTarget req;
          decide =
            (let effect = Evaluate ftext (k_policyEngine k) (policyRequest req) EffectAsk;
                 result = startResult\<lparr>res_Effect := effect\<rparr>
             in if q_Budget req \<noteq> None \<and> \<not> IsUnlimited (q_Budget req) then
                  (let check = CheckRun (k_budgetDB k) (q_Budget req) (Some (buildRunState req)) in
                   if \<not> cr_Allowed check then
                     (let r = result\<lparr>res_Effect := EffectDeny, res_Reason := BudgetReason (cr_Reason check),
                           res_RiskLevel := RiskLevelHigh\<rparr>
                      in ((r, None), logAudit k req r))
                   else finishEvaluation k req result effect)
                else finishEvaluation k req result effect)
      in (case q_User req of
            None \<Rightarrow> decide
          | Some u \<Rightarrow>
            if \<not> Can (Some u) resourceType action then
              (let r = startResult\<lparr>res_Effect := EffectDeny,
                    res_Reason := RBACReason (u_ID u) (u_Role u) resourceType action,
                    res_RiskLevel := RiskLevelHigh\<rparr>
               in ((r, None), logAudit k req r))
            else decide))"

fun batchLoop ::
    "(f64 \<Rightarrow> string) \<Rightarrow> Kernel \<Rightarrow> CapRequest \<Rightarrow> string list \<Rightarrow> CapResult \<Rightarrow> AuditEntry list \<Rightarrow>
     (cap_error + CapResult) \<times> AuditEntry list" where
  "batchLoop ftext k req [] overall log = (Inr overall, log)"
| "batchLoop ftext k req (op # ops) overall log =
     (let req1 = req\<lparr>q_Operation := op\<rparr>;
          ((result, err), entries) = Kernel_Evaluate ftext k req1;
          log1 = log @ entries
      in case err of
           Some e \<Rightarrow> (Inl e, log1)
         | None \<Rightarrow>
           (let overall1 =
              (if MoreRestrictiveThan (res_Effect result) (res_Effect overall)
               then overall\<lparr>res_Effect := res_Effect result,
                 res_RequiredApproval := res_RequiredApproval result,
                 res_Reason := res_Reason result, res_RiskLevel := res_RiskLevel result\<rparr>
               else overall)
            in if res_Effect result = EffectDeny then (Inr overall1, log1)
               else batchLoop ftext k req1 ops overall1 log1))"

definition EvaluateBatch ::
    "(f64 \<Rightarrow> string) \<Rightarrow> Kernel \<Rightarrow> CapRequest \<Rightarrow> string list \<Rightarrow> (cap_error + CapResult) \<times> AuditEntry list" where
  "EvaluateBatch ftext k req operations = batchLoop ftext k req operations startResult []"

section \<open>Facts\<close>

text \<open>The effect after the sandbox was looked at.\<close>

definition sandboxed :: "CapRequest \<Rightarrow> Effect \<Rightarrow> Effect" where
  "sandboxed req effect =
     (if q_SandboxState req = ''isolated'' \<and> isHighRiskOperation (q_Operation req) \<and> effect = EffectAllow
      then EffectAsk else effect)"

definition requestGrant :: "CapRequest \<Rightarrow> Grant" where
  "requestGrant req =
     \<lparr>gr_Operation = q_Operation req, gr_Resource = q_Resource req, gr_Revision = q_Revision req\<rparr>"

definition binds :: "CapRequest \<Rightarrow> Effect \<Rightarrow> bool" where
  "binds req effect \<longleftrightarrow> effect \<noteq> EffectDeny \<and> q_Operation req \<noteq> [] \<and> q_Resource req \<noteq> []"

text \<open>What a decision is, whichever branch made it.\<close>

definition decision_ok :: "Kernel \<Rightarrow> CapRequest \<Rightarrow> (CapResult \<times> cap_error option) \<times> AuditEntry list \<Rightarrow> bool" where
  "decision_ok k req out \<longleftrightarrow>
     (let r = fst (fst out) in
      res_RequiredApproval r = (res_Effect r = EffectAsk \<or> res_Effect r = EffectAdminOnly) \<and>
      (snd (fst out) \<noteq> None \<longrightarrow> res_Effect r = EffectDeny) \<and>
      (res_RequestedGrant r = None \<or>
       res_RequestedGrant r = Some (requestGrant req) \<and> Grant_Validate (requestGrant req) = None \<and>
       res_Effect r \<noteq> EffectDeny) \<and>
      snd out = logAudit k req r)"

lemma finish_cases:
  assumes "res_RequestedGrant result0 = None"
  shows "decision_ok k req (finishEvaluation k req result0 effect)"
    and "res_Effect (fst (fst (finishEvaluation k req result0 effect))) \<in> {EffectDeny, sandboxed req effect}"
proof -
  let ?e = "sandboxed req effect"
  have f: "finishEvaluation k req result0 effect =
    (let result = result0\<lparr>res_Effect := ?e, res_RequiredApproval := (?e = EffectAsk \<or> ?e = EffectAdminOnly)\<rparr>;
         done = (\<lambda>r. let r1 = r\<lparr>res_RiskLevel := calculateRiskLevel req ?e\<rparr>;
                        r2 = r1\<lparr>res_Reason := buildReason req r1\<rparr>;
                        r3 = r2\<lparr>res_AuditRequired := (isAuditedOperation (q_Operation req) \<or>
                               ?e = EffectDeny \<or> ?e = EffectAdminOnly)\<rparr>
                    in ((r3, None), logAudit k req r3))
     in if binds req ?e then
          (case Grant_Validate (requestGrant req) of
             Some e \<Rightarrow>
               (let r = result\<lparr>res_Effect := EffectDeny, res_RequiredApproval := False,
                     res_Reason := InvalidAuthority e, res_RiskLevel := RiskLevelHigh\<rparr>
                in ((r, Some (CapabilityUnknown e)), logAudit k req r))
           | None \<Rightarrow> done (result\<lparr>res_RequestedGrant := Some (requestGrant req)\<rparr>))
        else done result)"
    unfolding finishEvaluation_def sandboxed_def requestGrant_def binds_def Let_def by (rule refl)
  show "decision_ok k req (finishEvaluation k req result0 effect)"
    "res_Effect (fst (fst (finishEvaluation k req result0 effect))) \<in> {EffectDeny, ?e}"
  proof (atomize (full), cases "binds req ?e")
    case False
    then show "decision_ok k req (finishEvaluation k req result0 effect) \<and>
        res_Effect (fst (fst (finishEvaluation k req result0 effect))) \<in> {EffectDeny, ?e}"
      unfolding f using assms by (simp add: Let_def decision_ok_def)
  next
    case True
    then have "?e \<noteq> EffectDeny" by (simp add: binds_def)
    with True show "decision_ok k req (finishEvaluation k req result0 effect) \<and>
        res_Effect (fst (fst (finishEvaluation k req result0 effect))) \<in> {EffectDeny, ?e}"
      unfolding f using assms
      by (cases "Grant_Validate (requestGrant req)") (simp_all add: Let_def decision_ok_def)
  qed
qed

text \<open>The three ways an evaluation goes.\<close>

lemma Kernel_Evaluate_cases:
  obtains (rbac) u where "q_User req = Some u" "\<not> Can (Some u) (fst (requestTarget req)) (snd (requestTarget req))"
      "decision_ok k req (Kernel_Evaluate ftext k req)"
      "res_Effect (fst (fst (Kernel_Evaluate ftext k req))) = EffectDeny"
  | (budget) b where "q_Budget req = Some b" "budgetViolations (k_budgetDB k) b (Some (buildRunState req)) \<noteq> []"
      "decision_ok k req (Kernel_Evaluate ftext k req)"
      "res_Effect (fst (fst (Kernel_Evaluate ftext k req))) = EffectDeny"
  | (decided) result0 where
      "\<forall>u. q_User req = Some u \<longrightarrow> Can (Some u) (fst (requestTarget req)) (snd (requestTarget req))"
      "\<forall>b. q_Budget req = Some b \<and> \<not> IsUnlimited (Some b) \<longrightarrow>
         budgetViolations (k_budgetDB k) b (Some (buildRunState req)) = []"
      "res_RequestedGrant result0 = None"
      "Kernel_Evaluate ftext k req = finishEvaluation k req result0
         (Evaluate ftext (k_policyEngine k) (policyRequest req) EffectAsk)"
proof -
  let ?t = "fst (requestTarget req)" and ?a = "snd (requestTarget req)"
  let ?res = "startResult\<lparr>res_Effect := Evaluate ftext (k_policyEngine k) (policyRequest req) EffectAsk\<rparr>"
  let ?fin = "finishEvaluation k req ?res (Evaluate ftext (k_policyEngine k) (policyRequest req) EffectAsk)"
  let ?chk = "CheckRun (k_budgetDB k) (q_Budget req) (Some (buildRunState req))"
  define dec where "dec = (if q_Budget req \<noteq> None \<and> \<not> IsUnlimited (q_Budget req) then
      (if \<not> cr_Allowed ?chk then
         (let r = ?res\<lparr>res_Effect := EffectDeny, res_Reason := BudgetReason (cr_Reason ?chk),
               res_RiskLevel := RiskLevelHigh\<rparr> in ((r, None), logAudit k req r))
       else ?fin) else ?fin)"
  have k: "Kernel_Evaluate ftext k req = (case q_User req of None \<Rightarrow> dec
      | Some u \<Rightarrow> if \<not> Can (Some u) ?t ?a then
          (let r = startResult\<lparr>res_Effect := EffectDeny, res_Reason := RBACReason (u_ID u) (u_Role u) ?t ?a,
                res_RiskLevel := RiskLevelHigh\<rparr> in ((r, None), logAudit k req r))
          else dec)"
    unfolding Kernel_Evaluate_def dec_def Let_def by (simp add: case_prod_beta)
  show thesis
  proof (cases "\<exists>u. q_User req = Some u \<and> \<not> Can (Some u) ?t ?a")
    case True
    then obtain u where u: "q_User req = Some u" "\<not> Can (Some u) ?t ?a" by blast
    then show thesis using rbac [OF u] by (simp add: k Let_def decision_ok_def startResult_def)
  next
    case False
    then have kd: "Kernel_Evaluate ftext k req = dec" by (auto simp: k split: option.splits)
    have u: "\<forall>u. q_User req = Some u \<longrightarrow> Can (Some u) ?t ?a" using False by blast
    show thesis
    proof (cases "\<exists>b. q_Budget req = Some b \<and> \<not> IsUnlimited (Some b) \<and> \<not> cr_Allowed ?chk")
      case True
      then obtain b where b: "q_Budget req = Some b" "\<not> IsUnlimited (Some b)" "\<not> cr_Allowed ?chk" by blast
      then have "budgetViolations (k_budgetDB k) b (Some (buildRunState req)) \<noteq> []"
        using CheckRun_spec_core [OF b(2)] by simp
      with b show thesis using budget [OF b(1)]
        by (simp add: kd dec_def Let_def decision_ok_def startResult_def)
    next
      case no: False
      then have "dec = ?fin" unfolding dec_def by auto
      moreover have "\<forall>b. q_Budget req = Some b \<and> \<not> IsUnlimited (Some b) \<longrightarrow>
         budgetViolations (k_budgetDB k) b (Some (buildRunState req)) = []"
        using no CheckRun_spec_core by auto
      ultimately show thesis using decided [OF u _ _, of ?res] by (simp add: kd startResult_def)
    qed
  qed
qed

text \<open>
  C5. Every decision of the kernel, on every branch: approval is required exactly for the effects
  that ask or are reserved for administrators; an error comes with a denial; a grant is bound only
  to a decision that does not deny, is valid, and is exactly the operation, resource and revision
  requested; and one audit record of that effect is written when there is an audit logger.
\<close>

theorem Kernel_decision:
  "decision_ok k req (Kernel_Evaluate ftext k req)"
  by (cases rule: Kernel_Evaluate_cases [of req k ftext]) (simp_all add: finish_cases(1))

lemma allows_core:
  assumes "res_Effect (fst (fst (Kernel_Evaluate ftext k req))) = EffectAllow"
  shows "(\<forall>u. q_User req = Some u \<longrightarrow> Can (Some u) (fst (requestTarget req)) (snd (requestTarget req))) \<and>
    Evaluate ftext (k_policyEngine k) (policyRequest req) EffectAsk = EffectAllow \<and>
    (\<forall>b. q_Budget req = Some b \<and> \<not> IsUnlimited (Some b) \<longrightarrow>
       budgetViolations (k_budgetDB k) b (Some (buildRunState req)) = []) \<and>
    \<not> (q_SandboxState req = ''isolated'' \<and> isHighRiskOperation (q_Operation req))"
proof (cases rule: Kernel_Evaluate_cases [of req k ftext])
  case (decided result0)
  let ?e = "Evaluate ftext (k_policyEngine k) (policyRequest req) EffectAsk"
  have "sandboxed req ?e = EffectAllow"
    using finish_cases(2) [OF decided(3), of k req ?e] assms decided(4) by auto
  then have "?e = EffectAllow \<and> \<not> (q_SandboxState req = ''isolated'' \<and> isHighRiskOperation (q_Operation req))"
    by (auto simp: sandboxed_def split: if_splits)
  with decided(1,2) show ?thesis by blast
qed (use assms in auto)

text \<open>
  C6. The kernel allows an operation only when the role of the user, if there is one, permits it,
  the policy engine allows it, no limit of the budget is violated, and it is not a high-risk
  operation in an isolated sandbox.
\<close>

theorem Kernel_allows:
  assumes "res_Effect (fst (fst (Kernel_Evaluate ftext k req))) = EffectAllow"
  shows "(\<forall>u. q_User req = Some u \<longrightarrow> Can (Some u) (fst (requestTarget req)) (snd (requestTarget req))) \<and>
    Evaluate ftext (k_policyEngine k) (policyRequest req) EffectAsk = EffectAllow \<and>
    (\<forall>b. q_Budget req = Some b \<and> \<not> IsUnlimited (Some b) \<longrightarrow>
       budgetViolations (k_budgetDB k) b (Some (buildRunState req)) = []) \<and>
    \<not> (q_SandboxState req = ''isolated'' \<and> isHighRiskOperation (q_Operation req))"
  using assms by (rule allows_core)

definition sample_req :: "string \<Rightarrow> string \<Rightarrow> CapRequest" where
  "sample_req op res =
     \<lparr>q_ActorType = ''agent'', q_User = None, q_AgentRole = [], q_Organization = None, q_Project = None,
      q_Repository = None, q_Workspace = None, q_Task = None, q_AgentRun = None, q_Operation = op,
      q_ResourceType = [], q_Resource = res, q_Revision = [], q_Budget = None, q_SandboxState = ''isolated'',
      q_Details = Map.empty\<rparr>"

definition sample_kernel :: Kernel where
  "sample_kernel = NewKernel None None True"

theorem Kernel_allows_witness:
  "\<not> isHighRiskOperation ''read_file''"
proof -
  have "res_Effect (fst (fst (Kernel_Evaluate (\<lambda>_. []) sample_kernel (sample_req ''read_file'' ''a.go'')))) = EffectAllow"
    by code_simp
  from Kernel_allows [OF this] show ?thesis by (simp add: sample_req_def)
qed

lemma GetResourceAndAction_allowed:
  assumes "GetResourceAndAction op \<in>
     {(''file'', ''read''), (''command'', ''search''), (''command'', ''analyze''), (''command'', ''test'')}"
  shows "op \<in> {''read_file'', ''run_tests'', ''search_repository'', ''static_analysis''}"
proof -
  obtain m where "map_of operationResourceMap op = Some m" "m \<in>
      {(''file'', ''read''), (''command'', ''search''), (''command'', ''analyze''), (''command'', ''test'')}"
    using assms by (auto simp: GetResourceAndAction_def split: option.splits)
  then have "(op, m) \<in> set operationResourceMap \<and> m \<in>
      {(''file'', ''read''), (''command'', ''search''), (''command'', ''analyze''), (''command'', ''test'')}"
    by (simp add: map_of_SomeD)
  then show ?thesis unfolding operationResourceMap_def by auto
qed

text \<open>
  With the default engine, a request that names an operation and no resource type is allowed
  without approval only for reading a file, running the tests, searching the repository and static
  analysis.
\<close>

theorem default_kernel_allows:
  assumes "k_policyEngine k = DefaultEngine" and "q_ResourceType req = []"
    and "res_Effect (fst (fst (Kernel_Evaluate ftext k req))) = EffectAllow"
  shows "q_Operation req \<in> {''read_file'', ''run_tests'', ''search_repository'', ''static_analysis''}"
proof -
  have "Evaluate ftext DefaultEngine (policyRequest req) EffectAsk = EffectAllow"
    using allows_core [OF assms(3)] assms(1) by simp
  then have t: "requestTarget req \<in>
      {(''file'', ''read''), (''command'', ''search''), (''command'', ''analyze''), (''command'', ''test'')}"
    unfolding default_allows by (simp add: policyRequest_def)
  then have "q_Operation req \<noteq> []" using assms(2) by (auto simp: requestTarget_def)
  then have "requestTarget req = (let (r, a) = GetResourceAndAction (q_Operation req) in
      (if r = [] then ''unknown'' else r, a))"
    using assms(2) by (simp add: requestTarget_def)
  with t have "GetResourceAndAction (q_Operation req) \<in>
      {(''file'', ''read''), (''command'', ''search''), (''command'', ''analyze''), (''command'', ''test'')}"
    by (cases "GetResourceAndAction (q_Operation req)") (auto split: if_splits)
  then show ?thesis by (rule GetResourceAndAction_allowed)
qed

theorem default_kernel_allows_witness:
  "''run_tests'' \<in> {''read_file'', ''run_tests'', ''search_repository'', ''static_analysis''}"
proof -
  have e: "k_policyEngine sample_kernel = DefaultEngine" by (simp add: sample_kernel_def NewKernel_def)
  have r: "q_ResourceType (sample_req ''run_tests'' ''.'') = []" by (simp add: sample_req_def)
  have "res_Effect (fst (fst (Kernel_Evaluate (\<lambda>_. []) sample_kernel (sample_req ''run_tests'' ''.'')))) = EffectAllow"
    by code_simp
  from default_kernel_allows [OF e r this] show ?thesis by (simp add: sample_req_def)
qed

text \<open>
  A request that names its resource type keeps an empty action, so that the rules for single
  actions do not apply to it: writing a secret is reserved for administrators, and the same request
  with the resource type the kernel would have derived only asks.
\<close>

theorem explicit_type_weakens:
  "res_Effect (fst (fst (Kernel_Evaluate ftext sample_kernel (sample_req ''write_secret'' ''db'')))) = EffectAdminOnly \<and>
   res_Effect (fst (fst (Kernel_Evaluate ftext sample_kernel
     ((sample_req ''write_secret'' ''db'')\<lparr>q_ResourceType := GetResourceType ''write_secret''\<rparr>)))) = EffectAsk"
  by (intro conjI) code_simp+

text \<open>
  A batch ends at the first denied operation, but its result keeps the more restrictive effect
  of an operation before it: here one operation is denied, and the batch requires an approval.
\<close>

theorem batch_hides_denial:
  "res_Effect (fst (fst (Kernel_Evaluate ftext sample_kernel (sample_req ''destructive_db'' [])))) = EffectDeny \<and>
   (case fst (EvaluateBatch ftext sample_kernel (sample_req [] []) [''modify_policy'', ''destructive_db'']) of
      Inl _ \<Rightarrow> False
    | Inr r \<Rightarrow> res_Effect r = EffectAdminOnly \<and> res_RequiredApproval r)"
  by (intro conjI) code_simp+

end
