(* ===== verification/GoText.thy ===== *)
theory GoText
  imports GoStrings
begin

text \<open>
  More of Go's packages \<open>strings\<close> and \<open>path\<close>: letter case, fields separated by white space, and the
  last element and the directory of a path.
\<close>

section \<open>Letter case\<close>

text \<open>
  \<open>strings.ToLower\<close>: on ASCII text it lowers the letters; for other text the tables of Unicode,
  which are a parameter, decide.
\<close>

definition lowerChar :: "char \<Rightarrow> char" where
  "lowerChar c = (let n = of_char c :: nat in if 65 \<le> n \<and> n \<le> 90 then char_of (n + 32) else c)"

definition isASCII :: "string \<Rightarrow> bool" where
  "isASCII s \<longleftrightarrow> (\<forall>c \<in> set s. (of_char c :: nat) < 128)"

definition ToLower :: "(string \<Rightarrow> string) \<Rightarrow> string \<Rightarrow> string" where
  "ToLower ulower s = (if isASCII s then map lowerChar s else ulower s)"

text \<open>\<open>strings.EqualFold\<close>, with the folding of other text as a parameter.\<close>

definition EqualFold :: "(string \<Rightarrow> string \<Rightarrow> bool) \<Rightarrow> string \<Rightarrow> string \<Rightarrow> bool" where
  "EqualFold ufold s t = (if isASCII s \<and> isASCII t then map lowerChar s = map lowerChar t else ufold s t)"

lemma EqualFold_refl: "isASCII s \<Longrightarrow> EqualFold ufold s s"
  by (simp add: EqualFold_def)

section \<open>Fields\<close>

text \<open>\<open>strings.Fields\<close>: the pieces between runs of white space; \<open>acc\<close> is the piece being read.\<close>

function fieldsFrom :: "string \<Rightarrow> string \<Rightarrow> string list" where
  "fieldsFrom acc s =
     (let done = (if acc = [] then [] else [acc]) in
      case find (\<lambda>c. c \<noteq> [] \<and> HasPrefix s c) space_codes of
        Some c \<Rightarrow> done @ fieldsFrom [] (drop (length c) s)
      | None \<Rightarrow> (case s of [] \<Rightarrow> done | b # rest \<Rightarrow> fieldsFrom (acc @ [b]) rest))"
  by pat_completeness auto
termination
proof (relation "measure (\<lambda>(acc, s). length s)", simp_all)
  fix s :: string and c
  assume "find (\<lambda>c. c \<noteq> [] \<and> HasPrefix s c) space_codes = Some c"
  then have "c \<noteq> []" "prefix c s" by (auto simp: find_Some_iff go_string)
  then show "length s - length c < length s" by (auto simp: prefix_def)
qed

declare fieldsFrom.simps [simp del]

definition Fields :: "string \<Rightarrow> string list" where
  "Fields s = fieldsFrom [] s"

section \<open>Paths\<close>

definition path_Base :: "string \<Rightarrow> string" where
  "path_Base p =
     (if p = [] then ''.''
      else let b = last (split_on CHR ''/'' (rev (dropWhile (\<lambda>c. c = CHR ''/'') (rev p))))
           in if b = [] then ''/'' else b)"

definition path_Dir :: "string \<Rightarrow> string" where
  "path_Dir p = path_Clean (rev (dropWhile (\<lambda>c. c \<noteq> CHR ''/'') (rev p)))"

lemma path_Base_examples:
  "path_Base ''a/b/go.mod'' = ''go.mod''" "path_Base ''go.mod'' = ''go.mod''" "path_Base ''/'' = ''/''"
  "path_Base ''a/b/'' = ''b''" "path_Base [] = ''.''"
  by code_simp+

lemma path_Dir_examples:
  "path_Dir ''a/b/go.mod'' = ''a/b''" "path_Dir ''go.mod'' = ''.''" "path_Dir ''/x'' = ''/''"
  by code_simp+

lemma Fields_examples:
  "Fields '' test  lint '' = [''test'', ''lint'']" "Fields [] = []"
  by code_simp+

end
