(* ===== verification/AgentProtocol.thy ===== *)
theory AgentProtocol
  imports GoText "HOL-Library.Word" "HOL-Library.AList"
begin

unbundle bit_operations_syntax

text \<open>
  The provider-neutral protocol of agent runtimes (\<open>packages/agent-runtime/protocol.go\<close>) and the
  registry of providers (\<open>registry.go\<close>).

  A provider is outside the program: it is a record of its name, the capabilities it advertises and
  its methods, where an optional interface it does not implement is \<^const>\<open>None\<close>.  A stream of events
  is the list of events it delivers.
\<close>

section \<open>Capabilities\<close>

type_synonym Capability = "8 word"
type_synonym CapabilitySet = "64 word"

definition CapabilityResumeThread :: Capability where "CapabilityResumeThread = 1"
definition CapabilityInterruptTurn :: Capability where "CapabilityInterruptTurn = 2"
definition CapabilitySteerTurn :: Capability where "CapabilitySteerTurn = 3"
definition CapabilityPromptlessContinuation :: Capability where "CapabilityPromptlessContinuation = 4"
definition CapabilityModelSwitch :: Capability where "CapabilityModelSwitch = 5"
definition CapabilityRollback :: Capability where "CapabilityRollback = 6"
definition CapabilityCompact :: Capability where "CapabilityCompact = 7"
definition CapabilityApprovalRequests :: Capability where "CapabilityApprovalRequests = 8"
definition CapabilityQuestions :: Capability where "CapabilityQuestions = 9"
definition CapabilityStructuredOutput :: Capability where "CapabilityStructuredOutput = 10"

lemmas capability_defs = CapabilityResumeThread_def CapabilityInterruptTurn_def CapabilitySteerTurn_def
  CapabilityPromptlessContinuation_def CapabilityModelSwitch_def CapabilityRollback_def
  CapabilityCompact_def CapabilityApprovalRequests_def CapabilityQuestions_def CapabilityStructuredOutput_def

definition capabilityName :: "Capability \<Rightarrow> string" where
  "capabilityName c =
     (if c = CapabilityResumeThread then ''resume_thread''
      else if c = CapabilityInterruptTurn then ''interrupt_turn''
      else if c = CapabilitySteerTurn then ''steer_turn''
      else if c = CapabilityPromptlessContinuation then ''promptless_continuation''
      else if c = CapabilityModelSwitch then ''model_switch''
      else if c = CapabilityRollback then ''rollback''
      else if c = CapabilityCompact then ''compact''
      else if c = CapabilityApprovalRequests then ''approval_requests''
      else if c = CapabilityQuestions then ''questions''
      else if c = CapabilityStructuredOutput then ''structured_output''
      else ''unknown'')"

fun addCapabilities :: "CapabilitySet \<Rightarrow> Capability list \<Rightarrow> CapabilitySet" where
  "addCapabilities s [] = s"
| "addCapabilities s (c # cs) =
     (if c = 0 \<or> c > 64 then addCapabilities s cs
      else addCapabilities (s OR push_bit (unat (c - 1)) 1) cs)"

definition NewCapabilitySet :: "Capability list \<Rightarrow> CapabilitySet" where
  "NewCapabilitySet capabilities = addCapabilities 0 capabilities"

definition Supports :: "CapabilitySet \<Rightarrow> Capability \<Rightarrow> bool" where
  "Supports s c = (if c = 0 \<or> c > 64 then False else s AND push_bit (unat (c - 1)) 1 \<noteq> 0)"

definition allCapabilities :: "Capability list" where
  "allCapabilities =
     [CapabilityResumeThread, CapabilityInterruptTurn, CapabilitySteerTurn,
      CapabilityPromptlessContinuation, CapabilityModelSwitch, CapabilityRollback, CapabilityCompact,
      CapabilityApprovalRequests, CapabilityQuestions, CapabilityStructuredOutput]"

definition ListCapabilities :: "CapabilitySet \<Rightarrow> Capability list" where
  "ListCapabilities s = filter (Supports s) allCapabilities"

section \<open>Threads, turns and items\<close>

datatype ThreadStatus = ThreadStatusActive | ThreadStatusArchived | ThreadStatusError
  | ThreadStatusOther string

datatype TurnStatus = TurnStatusQueued | TurnStatusRunning | TurnStatusPausedApproval
  | TurnStatusPausedInput | TurnStatusInterrupted | TurnStatusRecovering | TurnStatusCompleted
  | TurnStatusFailed | TurnStatusOther string

datatype ItemType = ItemTypeMessage | ItemTypeToolCall | ItemTypeCommand | ItemTypeFileChange
  | ItemTypeApproval | ItemTypeQuestion | ItemTypeArtifact | ItemTypeError | ItemTypeOther string

datatype ItemStatus = ItemStatusPending | ItemStatusRunning | ItemStatusCompleted | ItemStatusFailed
  | ItemStatusCancelled | ItemStatusOther string

record Thread =
  th_ID :: string
  th_WorkspaceID :: string
  th_Provider :: string
  th_ProviderThreadID :: string
  th_Model :: string
  th_Status :: ThreadStatus
  th_Metadata :: string
  th_CreatedAt :: int
  th_UpdatedAt :: int

record Turn =
  tu_ID :: string
  tu_ThreadID :: string
  tu_ProviderTurnID :: string
  tu_Status :: TurnStatus
  tu_Metadata :: string
  tu_StartedAt :: "int option"
  tu_CompletedAt :: "int option"
  tu_CreatedAt :: int
  tu_UpdatedAt :: int

record Item =
  it_ID :: string
  it_ThreadID :: string
  it_TurnID :: string
  it_ProviderItemID :: string
  it_Type :: ItemType
  it_Status :: ItemStatus
  it_Role :: string
  it_Name :: string
  it_Payload :: string
  it_CreatedAt :: int
  it_UpdatedAt :: int

fun validThreadStatus :: "ThreadStatus \<Rightarrow> bool" where
  "validThreadStatus (ThreadStatusOther _) = False"
| "validThreadStatus _ = True"

fun validTurnStatus :: "TurnStatus \<Rightarrow> bool" where
  "validTurnStatus (TurnStatusOther _) = False"
| "validTurnStatus _ = True"

fun validItemType :: "ItemType \<Rightarrow> bool" where
  "validItemType (ItemTypeOther _) = False"
| "validItemType _ = True"

fun validItemStatus :: "ItemStatus \<Rightarrow> bool" where
  "validItemStatus (ItemStatusOther _) = False"
| "validItemStatus _ = True"

datatype rt_invalid = IDRequired | WorkspaceIDRequired | ProviderRequired | ThreadIDRequired | TurnIDRequired
  | InvalidThreadStatus ThreadStatus | InvalidTurnStatus TurnStatus | InvalidItemType ItemType
  | InvalidItemStatus ItemStatus | TurnInputRequired

definition Thread_Validate :: "Thread \<Rightarrow> rt_invalid option" where
  "Thread_Validate t =
     (if TrimSpace (th_ID t) = [] then Some IDRequired
      else if TrimSpace (th_WorkspaceID t) = [] then Some WorkspaceIDRequired
      else if TrimSpace (th_Provider t) = [] then Some ProviderRequired
      else if \<not> validThreadStatus (th_Status t) then Some (InvalidThreadStatus (th_Status t))
      else None)"

definition Turn_Validate :: "Turn \<Rightarrow> rt_invalid option" where
  "Turn_Validate t =
     (if TrimSpace (tu_ID t) = [] then Some IDRequired
      else if TrimSpace (tu_ThreadID t) = [] then Some ThreadIDRequired
      else if \<not> validTurnStatus (tu_Status t) then Some (InvalidTurnStatus (tu_Status t))
      else None)"

definition Item_Validate :: "Item \<Rightarrow> rt_invalid option" where
  "Item_Validate i =
     (if TrimSpace (it_ID i) = [] then Some IDRequired
      else if TrimSpace (it_ThreadID i) = [] then Some ThreadIDRequired
      else if TrimSpace (it_TurnID i) = [] then Some TurnIDRequired
      else if \<not> validItemType (it_Type i) then Some (InvalidItemType (it_Type i))
      else if \<not> validItemStatus (it_Status i) then Some (InvalidItemStatus (it_Status i))
      else None)"

definition CanTransitionTurnStatus :: "TurnStatus \<Rightarrow> TurnStatus \<Rightarrow> bool" where
  "CanTransitionTurnStatus from_status to_status =
     (if from_status = to_status then False
      else (case from_status of
          TurnStatusQueued \<Rightarrow> to_status \<in> {TurnStatusRunning, TurnStatusFailed}
        | TurnStatusRunning \<Rightarrow> to_status \<in> {TurnStatusPausedApproval, TurnStatusPausedInput,
            TurnStatusInterrupted, TurnStatusRecovering, TurnStatusCompleted, TurnStatusFailed}
        | TurnStatusPausedApproval \<Rightarrow> to_status \<in> {TurnStatusRunning, TurnStatusInterrupted, TurnStatusFailed}
        | TurnStatusPausedInput \<Rightarrow> to_status \<in> {TurnStatusRunning, TurnStatusInterrupted, TurnStatusFailed}
        | TurnStatusInterrupted \<Rightarrow> to_status \<in> {TurnStatusRecovering, TurnStatusFailed}
        | TurnStatusRecovering \<Rightarrow> to_status \<in> {TurnStatusRunning, TurnStatusPausedApproval,
            TurnStatusPausedInput, TurnStatusCompleted, TurnStatusFailed}
        | TurnStatusCompleted \<Rightarrow> False
        | TurnStatusFailed \<Rightarrow> False
        | TurnStatusOther _ \<Rightarrow> False))"

section \<open>Requests and events\<close>

record TurnInput =
  ti_Text :: string
  ti_Data :: string

definition TurnInput_Validate :: "TurnInput \<Rightarrow> rt_invalid option" where
  "TurnInput_Validate i = (if TrimSpace (ti_Text i) = [] \<and> ti_Data i = [] then Some TurnInputRequired else None)"

record CreateThreadRequest =
  ct_WorkspaceID :: string
  ct_Model :: string
  ct_Instructions :: string
  ct_Metadata :: string

definition CreateThreadRequest_Validate :: "CreateThreadRequest \<Rightarrow> rt_invalid option" where
  "CreateThreadRequest_Validate r = (if TrimSpace (ct_WorkspaceID r) = [] then Some WorkspaceIDRequired else None)"

record RunTurnRequest =
  rt_ThreadID :: string
  rt_ProviderThreadID :: string
  rt_Input :: TurnInput
  rt_Model :: string
  rt_OutputSchema :: string
  rt_Metadata :: string

definition RunTurnRequest_Validate :: "RunTurnRequest \<Rightarrow> rt_invalid option" where
  "RunTurnRequest_Validate r =
     (if TrimSpace (rt_ThreadID r) = [] then Some ThreadIDRequired else TurnInput_Validate (rt_Input r))"

record ResumeThreadRequest =
  rr_ThreadID :: string
  rr_ProviderThreadID :: string
  rr_WorkspaceID :: string
  rr_Model :: string

definition ResumeThreadRequest_Validate :: "ResumeThreadRequest \<Rightarrow> rt_invalid option" where
  "ResumeThreadRequest_Validate r =
     (if TrimSpace (rr_ThreadID r) = [] then Some ThreadIDRequired
      else if TrimSpace (rr_WorkspaceID r) = [] then Some WorkspaceIDRequired else None)"

record InterruptTurnRequest =
  in_ThreadID :: string
  in_ProviderThreadID :: string
  in_TurnID :: string
  in_ProviderTurnID :: string

record SteerTurnRequest =
  st_ThreadID :: string
  st_ProviderThreadID :: string
  st_TurnID :: string
  st_ProviderTurnID :: string
  st_Input :: TurnInput

datatype ApprovalDecision = ApprovalDecisionApproved | ApprovalDecisionDenied | ApprovalDecisionOther string

record ApprovalResponse =
  ar_ThreadID :: string
  ar_TurnID :: string
  ar_ItemID :: string
  ar_Decision :: ApprovalDecision
  ar_Note :: string

record QuestionResponse =
  qr_ThreadID :: string
  qr_TurnID :: string
  qr_ItemID :: string
  qr_Answer :: string

record RollbackRequest =
  rb_ThreadID :: string
  rb_ToTurnID :: string
  rb_CheckpointID :: string

datatype EventType = EventTypeThreadCreated | EventTypeTurnStarted | EventTypeTurnStatus
  | EventTypeItemStarted | EventTypeItemCompleted | EventTypeItemFailed | EventTypeTurnCompleted
  | EventTypeTurnFailed | EventTypeOther string

record Event =
  ev_Sequence :: int
  ev_Type :: EventType
  ev_ThreadID :: string
  ev_TurnID :: string
  ev_ProviderTurnID :: string
  ev_Status :: TurnStatus
  ev_Item :: "Item option"
  ev_Error :: string
  ev_OccurredAt :: int

section \<open>Providers and the registry\<close>

record Provider =
  pv_Name :: string
  pv_Capabilities :: CapabilitySet
  pv_CreateThread :: "CreateThreadRequest \<Rightarrow> string + Thread option"
  pv_RunTurn :: "RunTurnRequest \<Rightarrow> string + Event list"
  pv_Resume :: "(ResumeThreadRequest \<Rightarrow> string + Thread option) option"
  pv_Interrupt :: "(InterruptTurnRequest \<Rightarrow> string option) option"
  pv_Steer :: "(SteerTurnRequest \<Rightarrow> string option) option"
  pv_Approval :: "(ApprovalResponse \<Rightarrow> string option) option"
  pv_Question :: "(QuestionResponse \<Rightarrow> string option) option"
  pv_Compact :: "(string \<Rightarrow> string option) option"
  pv_Rollback :: "(RollbackRequest \<Rightarrow> string option) option"

datatype registry_error = NilProvider | ProviderNameRequired | ContractMismatch string string
  | ProviderAlreadyRegistered string | ProviderNotFound string

definition normalizeProviderName :: "(string \<Rightarrow> string) \<Rightarrow> string \<Rightarrow> string" where
  "normalizeProviderName ulower name = ToLower ulower (TrimSpace name)"

definition contractChecks :: "Provider \<Rightarrow> (Capability \<times> bool) list" where
  "contractChecks p =
     [(CapabilityResumeThread, pv_Resume p \<noteq> None), (CapabilityInterruptTurn, pv_Interrupt p \<noteq> None),
      (CapabilitySteerTurn, pv_Steer p \<noteq> None), (CapabilityRollback, pv_Rollback p \<noteq> None),
      (CapabilityCompact, pv_Compact p \<noteq> None), (CapabilityApprovalRequests, pv_Approval p \<noteq> None),
      (CapabilityQuestions, pv_Question p \<noteq> None)]"

definition validateCapabilityContract :: "(string \<Rightarrow> string) \<Rightarrow> Provider \<Rightarrow> registry_error option" where
  "validateCapabilityContract ulower p =
     first_err (\<lambda>check. if Supports (pv_Capabilities p) (fst check) \<and> \<not> snd check
        then Some (ContractMismatch (normalizeProviderName ulower (pv_Name p)) (capabilityName (fst check)))
        else None) (contractChecks p)"

type_synonym Registry = "(string \<times> Provider) list"

definition NewRegistry :: Registry where
  "NewRegistry = []"

definition Register :: "(string \<Rightarrow> string) \<Rightarrow> Registry \<Rightarrow> Provider option \<Rightarrow> registry_error + Registry" where
  "Register ulower r provider =
     (case provider of
        None \<Rightarrow> Inl NilProvider
      | Some p \<Rightarrow>
        (let name = normalizeProviderName ulower (pv_Name p) in
         if name = [] then Inl ProviderNameRequired
         else (case validateCapabilityContract ulower p of
             Some e \<Rightarrow> Inl e
           | None \<Rightarrow>
             if map_of r name \<noteq> None then Inl (ProviderAlreadyRegistered name)
             else Inr (AList.update name p r))))"

definition Registry_Get :: "(string \<Rightarrow> string) \<Rightarrow> Registry option \<Rightarrow> string \<Rightarrow> registry_error + Provider" where
  "Registry_Get ulower r name =
     (case r of
        None \<Rightarrow> Inl (ProviderNotFound (normalizeProviderName ulower name))
      | Some ps \<Rightarrow>
        (let normalized = normalizeProviderName ulower name in
         case map_of ps normalized of
           None \<Rightarrow> Inl (ProviderNotFound normalized)
         | Some p \<Rightarrow> Inr p))"

definition Names :: "Registry option \<Rightarrow> string list" where
  "Names r = (case r of None \<Rightarrow> [] | Some ps \<Rightarrow> sort (map fst ps))"

section \<open>Facts\<close>

lemma addCapabilities_bit:
  "i < 64 \<Longrightarrow> bit (addCapabilities s cs) i \<longleftrightarrow>
     bit s i \<or> (\<exists>c \<in> set cs. c \<noteq> 0 \<and> c \<le> 64 \<and> unat (c - 1) = i)"
proof (induction cs arbitrary: s)
  case Nil
  then show ?case by simp
next
  case (Cons c cs)
  show ?case
  proof (cases "c = 0 \<or> c > 64")
    case True
    with Cons show ?thesis by auto
  next
    case False
    have "bit (push_bit (unat (c - 1)) (1 :: CapabilitySet)) i \<longleftrightarrow> unat (c - 1) = i"
      using Cons.prems by (auto simp: bit_exp_iff)
    with False Cons show ?thesis by (auto simp: bit_or_iff not_less)
  qed
qed

lemma Supports_bit:
  assumes "c \<noteq> 0" "c \<le> 64"
  shows "Supports s c \<longleftrightarrow> bit s (unat (c - 1))"
proof -
  have "c \<le> 64 \<Longrightarrow> c \<noteq> 0 \<Longrightarrow> unat (c - 1) < 64"
    by (simp add: word_le_nat_alt unat_minus_one)
  then have l: "unat (c - 1) < 64" using assms by simp
  have "s AND push_bit (unat (c - 1)) 1 \<noteq> 0 \<longleftrightarrow> bit s (unat (c - 1))"
    using l by (simp add: bit_iff_and_push_bit_not_eq_0)
  moreover have "\<not> 64 < c" using assms(2) by (simp only: not_less)
  ultimately show ?thesis using assms(1) by (simp add: Supports_def)
qed

lemma pred_inj: "c \<noteq> 0 \<Longrightarrow> d \<noteq> 0 \<Longrightarrow> unat (c - 1) = unat (d - 1) \<longleftrightarrow> c = (d :: Capability)"
  by (simp add: word_unat_eq_iff [symmetric])

lemma supports_iff: "Supports (NewCapabilitySet cs) c = (c \<in> set cs \<and> c \<noteq> 0 \<and> c \<le> 64)"
proof (cases "c = 0 \<or> c > 64")
  case True
  then show ?thesis by (auto simp: Supports_def not_le)
next
  case False
  then have c: "c \<noteq> 0" "c \<le> 64" by auto
  then have "unat (c - 1) < 64" by (simp add: word_le_nat_alt unat_minus_one)
  then have "Supports (NewCapabilitySet cs) c \<longleftrightarrow>
      (\<exists>d \<in> set cs. d \<noteq> 0 \<and> d \<le> 64 \<and> unat (d - 1) = unat (c - 1))"
    by (simp add: Supports_bit [OF c] NewCapabilitySet_def addCapabilities_bit)
  with c show ?thesis using pred_inj by blast
qed

text \<open>
  A capability set supports exactly the capabilities it was made from that have a place in its
  64 bits, and lists the declared ones among them in the order of their declaration.
\<close>

theorem Supports_New:
  "Supports (NewCapabilitySet cs) c = (c \<in> set cs \<and> c \<noteq> 0 \<and> c \<le> 64) \<and>
   ListCapabilities (NewCapabilitySet cs) = filter (\<lambda>d. d \<in> set cs) allCapabilities"
proof -
  have "d \<noteq> 0 \<and> d \<le> 64" if "d \<in> set allCapabilities" for d
    using that by (auto simp: allCapabilities_def capability_defs)
  then have "ListCapabilities (NewCapabilitySet cs) = filter (\<lambda>d. d \<in> set cs) allCapabilities"
    unfolding ListCapabilities_def by (intro filter_cong) (auto simp: supports_iff)
  with supports_iff show ?thesis by blast
qed

text \<open>What every registry built by registrations satisfies.\<close>

definition registered :: "(string \<Rightarrow> string) \<Rightarrow> Registry \<Rightarrow> bool" where
  "registered ulower r \<longleftrightarrow> distinct (map fst r) \<and>
     (\<forall>np \<in> set r. fst np \<noteq> [] \<and> fst np = normalizeProviderName ulower (pv_Name (snd np)) \<and>
        validateCapabilityContract ulower (snd np) = None)"

lemma Register_Inr:
  "Register ulower r (Some p) = Inr r' \<longleftrightarrow>
     normalizeProviderName ulower (pv_Name p) \<noteq> [] \<and> validateCapabilityContract ulower p = None \<and>
     map_of r (normalizeProviderName ulower (pv_Name p)) = None \<and>
     r' = AList.update (normalizeProviderName ulower (pv_Name p)) p r"
  by (auto simp: Register_def Let_def split: option.splits)

lemma update_new: "map_of r n = None \<Longrightarrow> AList.update n p r = r @ [(n, p)]"
  by (induction r) (auto split: if_splits)

text \<open>
  A registration keeps the registry well-formed: names are normal, distinct and not empty, and
  every provider implements what it advertises.  The provider is then found under every spelling
  of its name, other names are not affected, and a second registration of the name is refused.
\<close>

theorem Register_ok:
  assumes "registered ulower r" and "Register ulower r (Some p) = Inr r'"
  shows "registered ulower r' \<and>
    (\<forall>name. Registry_Get ulower (Some r') name =
       (if normalizeProviderName ulower name = normalizeProviderName ulower (pv_Name p) then Inr p
        else Registry_Get ulower (Some r) name)) \<and>
    (\<forall>q. normalizeProviderName ulower (pv_Name q) = normalizeProviderName ulower (pv_Name p) \<longrightarrow>
       (\<nexists>r''. Register ulower r' (Some q) = Inr r'')) \<and>
    (Supports (pv_Capabilities p) CapabilityApprovalRequests \<longrightarrow> pv_Approval p \<noteq> None)"
proof -
  let ?n = "normalizeProviderName ulower (pv_Name p)"
  from assms(2) have p: "?n \<noteq> []" "validateCapabilityContract ulower p = None" "map_of r ?n = None"
    and r': "r' = r @ [(?n, p)]"
    by (simp_all add: Register_Inr update_new)
  have "?n \<notin> fst ` set r" using p(3) by (simp add: map_of_eq_None_iff)
  then have "registered ulower r'"
    using assms(1) p(1,2) by (auto simp: registered_def r')
  moreover have "Registry_Get ulower (Some r') name =
       (if normalizeProviderName ulower name = ?n then Inr p else Registry_Get ulower (Some r) name)" for name
    using p(3) by (simp add: Registry_Get_def Let_def r' map_add_def split: option.splits)
  moreover have "map_of r' ?n \<noteq> None" by (simp add: r' map_add_def split: option.splits)
  then have "\<nexists>r''. Register ulower r' (Some q) = Inr r''"
    if "normalizeProviderName ulower (pv_Name q) = ?n" for q
    using that by (auto simp: Register_Inr)
  moreover have "Supports (pv_Capabilities p) CapabilityApprovalRequests \<longrightarrow> pv_Approval p \<noteq> None"
    using p(2) by (auto simp: validateCapabilityContract_def contractChecks_def split: if_splits)
  ultimately show ?thesis by blast
qed

definition sample_provider :: "string \<Rightarrow> Capability list \<Rightarrow> Provider" where
  "sample_provider name cs =
     \<lparr>pv_Name = name, pv_Capabilities = NewCapabilitySet cs, pv_CreateThread = (\<lambda>_. Inr None),
      pv_RunTurn = (\<lambda>_. Inr []), pv_Resume = None, pv_Interrupt = None, pv_Steer = None,
      pv_Approval = Some (\<lambda>_. None), pv_Question = None, pv_Compact = None, pv_Rollback = None\<rparr>"

theorem Register_ok_witness:
  "Registry_Get (\<lambda>s. s) (Some [(''codex'', sample_provider '' Codex'' [CapabilityApprovalRequests])]) ''CODEX ''
     = Inr (sample_provider '' Codex'' [CapabilityApprovalRequests])"
proof -
  let ?p = "sample_provider '' Codex'' [CapabilityApprovalRequests]"
  have n: "normalizeProviderName (\<lambda>s. s) (pv_Name ?p) = ''codex''"
    "normalizeProviderName (\<lambda>s. s) ''CODEX '' = ''codex''" by code_simp+
  have "registered (\<lambda>s. s) []" by (simp add: registered_def)
  moreover have "validateCapabilityContract (\<lambda>s. s) ?p = None"
  proof -
    have "\<not> Supports (pv_Capabilities ?p) c" if "c \<in> {CapabilityResumeThread, CapabilityInterruptTurn,
        CapabilitySteerTurn, CapabilityRollback, CapabilityCompact, CapabilityQuestions}" for c
      using that by (auto simp: sample_provider_def supports_iff capability_defs)
    then show ?thesis
      by (simp add: validateCapabilityContract_def contractChecks_def) (simp add: sample_provider_def)
  qed
  then have "Register (\<lambda>s. s) [] (Some ?p) = Inr [(''codex'', ?p)]"
    by (simp add: Register_Inr n)
  ultimately have "\<forall>name. Registry_Get (\<lambda>s. s) (Some [(''codex'', ?p)]) name =
       (if normalizeProviderName (\<lambda>s. s) name = normalizeProviderName (\<lambda>s. s) (pv_Name ?p) then Inr ?p
        else Registry_Get (\<lambda>s. s) (Some []) name)"
    using Register_ok by blast
  then show ?thesis by (simp add: n)
qed

end
