(* ===== verification/AgentStore.thy ===== *)
theory AgentStore
  imports AgentProtocol "HOL-Library.Product_Lexorder"
begin

text \<open>
  The durable store of agent conversations (\<open>packages/db/agent_runtime_store.go\<close>): three tables,
  each keyed by an id, with validation before an upsert.

  A table is the list of its rows: the id, the creation time the data base sets, and the record the
  payload column encodes (its JSON text is not modelled).  The data base and the encoding can fail:
  \<open>env_fails\<close> says which statements do, counted from the start.
\<close>

section \<open>Tables\<close>

type_synonym 'r table = "(string \<times> int \<times> 'r) list"

record RuntimeDB =
  db_threads :: "Thread table"
  db_turns :: "Turn table"
  db_items :: "Item table"
  db_ops :: nat

record Env =
  env_fails :: "nat \<Rightarrow> bool"
  env_clock :: "nat \<Rightarrow> int"
  env_dbclock :: "nat \<Rightarrow> int"

datatype store_error = StoreInvalid rt_invalid | StoreFailed string | StoreIDRequired | StoreNotFound string

text \<open>\<open>INSERT ... ON CONFLICT(id) DO UPDATE\<close>: an existing row keeps its creation time.\<close>

definition upsert :: "int \<Rightarrow> string \<Rightarrow> 'r \<Rightarrow> 'r table \<Rightarrow> 'r table" where
  "upsert now rowID v table =
     (case map_of table rowID of
        None \<Rightarrow> table @ [(rowID, now, v)]
      | Some (created, _) \<Rightarrow> AList.update rowID (created, v) table)"

definition row :: "'r table \<Rightarrow> string \<Rightarrow> 'r option" where
  "row table rowID = map_option snd (map_of table rowID)"

definition nextOp :: "RuntimeDB \<Rightarrow> RuntimeDB" where
  "nextOp db = db\<lparr>db_ops := Suc (db_ops db)\<rparr>"

section \<open>Operations\<close>

definition PutThread :: "Env \<Rightarrow> RuntimeDB \<Rightarrow> Thread \<Rightarrow> store_error option \<times> RuntimeDB" where
  "PutThread env db thread =
     (case Thread_Validate thread of
        Some e \<Rightarrow> (Some (StoreInvalid e), db)
      | None \<Rightarrow>
        if env_fails env (db_ops db) then (Some (StoreFailed (th_ID thread)), nextOp db)
        else (None, (nextOp db)\<lparr>db_threads :=
          upsert (env_dbclock env (db_ops db)) (th_ID thread) thread (db_threads db)\<rparr>))"

definition PutTurn :: "Env \<Rightarrow> RuntimeDB \<Rightarrow> Turn \<Rightarrow> store_error option \<times> RuntimeDB" where
  "PutTurn env db turn =
     (case Turn_Validate turn of
        Some e \<Rightarrow> (Some (StoreInvalid e), db)
      | None \<Rightarrow>
        if env_fails env (db_ops db) then (Some (StoreFailed (tu_ID turn)), nextOp db)
        else (None, (nextOp db)\<lparr>db_turns :=
          upsert (env_dbclock env (db_ops db)) (tu_ID turn) turn (db_turns db)\<rparr>))"

definition PutItem :: "Env \<Rightarrow> RuntimeDB \<Rightarrow> Item \<Rightarrow> store_error option \<times> RuntimeDB" where
  "PutItem env db item =
     (case Item_Validate item of
        Some e \<Rightarrow> (Some (StoreInvalid e), db)
      | None \<Rightarrow>
        if env_fails env (db_ops db) then (Some (StoreFailed (it_ID item)), nextOp db)
        else (None, (nextOp db)\<lparr>db_items :=
          upsert (env_dbclock env (db_ops db)) (it_ID item) item (db_items db)\<rparr>))"

text \<open>The three lookups by id.\<close>

definition getRow :: "Env \<Rightarrow> (RuntimeDB \<Rightarrow> 'r table) \<Rightarrow> RuntimeDB \<Rightarrow> string \<Rightarrow> (store_error + 'r) \<times> RuntimeDB" where
  "getRow env table db id0 =
     (let rowID = TrimSpace id0 in
      if rowID = [] then (Inl StoreIDRequired, db)
      else if env_fails env (db_ops db) then (Inl (StoreFailed rowID), nextOp db)
      else (case row (table db) rowID of
          None \<Rightarrow> (Inl (StoreNotFound rowID), nextOp db)
        | Some v \<Rightarrow> (Inr v, nextOp db)))"

definition GetThread :: "Env \<Rightarrow> RuntimeDB \<Rightarrow> string \<Rightarrow> (store_error + Thread) \<times> RuntimeDB" where
  "GetThread env db id0 = getRow env db_threads db id0"

definition GetTurn :: "Env \<Rightarrow> RuntimeDB \<Rightarrow> string \<Rightarrow> (store_error + Turn) \<times> RuntimeDB" where
  "GetTurn env db id0 = getRow env db_turns db id0"

definition GetItem :: "Env \<Rightarrow> RuntimeDB \<Rightarrow> string \<Rightarrow> (store_error + Item) \<times> RuntimeDB" where
  "GetItem env db id0 = getRow env db_items db id0"

text \<open>\<open>ORDER BY created_at, id\<close>, with ids compared as bytes.\<close>

definition listRows ::
    "Env \<Rightarrow> (RuntimeDB \<Rightarrow> 'r table) \<Rightarrow> ('r \<Rightarrow> string) \<Rightarrow> RuntimeDB \<Rightarrow> string \<Rightarrow> (store_error + 'r list) \<times> RuntimeDB" where
  "listRows env table owner db id0 =
     (let rowID = TrimSpace id0 in
      if rowID = [] then (Inl StoreIDRequired, db)
      else if env_fails env (db_ops db) then (Inl (StoreFailed rowID), nextOp db)
      else (Inr (map (\<lambda>r. snd (snd r))
              (sort_key (\<lambda>r. (fst (snd r), fst r))
                (filter (\<lambda>r. owner (snd (snd r)) = rowID) (table db)))), nextOp db))"

definition ListTurns :: "Env \<Rightarrow> RuntimeDB \<Rightarrow> string \<Rightarrow> (store_error + Turn list) \<times> RuntimeDB" where
  "ListTurns env db threadID = listRows env db_turns tu_ThreadID db threadID"

definition ListItems :: "Env \<Rightarrow> RuntimeDB \<Rightarrow> string \<Rightarrow> (store_error + Item list) \<times> RuntimeDB" where
  "ListItems env db turnID = listRows env db_items it_TurnID db turnID"

definition emptyDB :: RuntimeDB where
  "emptyDB = \<lparr>db_threads = [], db_turns = [], db_items = [], db_ops = 0\<rparr>"

section \<open>The contract of a table\<close>

lemma row_upsert: "row (upsert now k v table) x = (if x = k then Some v else row table x)"
  by (auto simp: row_def upsert_def update_conv' map_add_def split: option.splits)

lemma row_Nil [simp]: "row [] x = None"
  by (simp add: row_def)

text \<open>
  What a caller may rely on: a successful write is of a valid record and changes what is read under
  the key of the record and nothing else; a failed write changes nothing.
\<close>

locale keyed_store =
  fixes put :: "'d \<Rightarrow> 'r \<Rightarrow> 'e option \<times> 'd" and lookup :: "'d \<Rightarrow> 'k \<Rightarrow> 'r option"
    and ok :: "'r \<Rightarrow> bool" and key :: "'r \<Rightarrow> 'k"
  assumes put_valid: "put d r = (None, d') \<Longrightarrow> ok r"
    and put_lookup: "put d r = (None, d') \<Longrightarrow> lookup d' x = (if x = key r then Some r else lookup d x)"
    and put_failed: "put d r = (Some e, d') \<Longrightarrow> lookup d' x = lookup d x"
begin

text \<open>A sequence of writes, whether or not they succeed, and the records written.\<close>

fun puts :: "'d \<Rightarrow> 'r list \<Rightarrow> 'd" where
  "puts d [] = d"
| "puts d (r # rs) = puts (snd (put d r)) rs"

fun written :: "'d \<Rightarrow> 'r list \<Rightarrow> 'r list" where
  "written d [] = []"
| "written d (r # rs) =
     (case put d r of
        (None, d') \<Rightarrow> r # written d' rs
      | (Some e, d') \<Rightarrow> written d' rs)"

lemma put_cases:
  obtains (ok) d' where "put d r = (None, d')" | (failed) e d' where "put d r = (Some e, d')"
  by (cases "put d r"; cases "fst (put d r)") auto

text \<open>What is read at the end is the last record written under the key.\<close>

lemma puts_lookup:
  "lookup (puts d rs) x =
     (case filter (\<lambda>r. key r = x) (rev (written d rs)) of [] \<Rightarrow> lookup d x | r # _ \<Rightarrow> Some r)"
proof (induction rs arbitrary: d)
  case Nil
  then show ?case by simp
next
  case (Cons r rs)
  show ?case
  proof (cases rule: put_cases [of d r])
    case (ok d')
    show ?thesis
      by (cases "filter (\<lambda>s. key s = x) (rev (written d' rs))")
        (simp_all add: ok Cons.IH put_lookup [OF ok])
  next
    case (failed e d')
    then show ?thesis by (simp add: Cons.IH put_failed [OF failed] split: list.split)
  qed
qed

lemma written_ok: "r \<in> set (written d rs) \<Longrightarrow> ok r \<and> r \<in> set rs"
proof (induction rs arbitrary: d)
  case Nil
  then show ?case by simp
next
  case (Cons s rs)
  show ?case
  proof (cases rule: put_cases [of d s])
    case (ok d')
    then show ?thesis using Cons put_valid [OF ok] by auto
  next
    case (failed e d')
    then show ?thesis using Cons by auto
  qed
qed

lemma puts_valid:
  assumes "\<And>x r. lookup d x = Some r \<Longrightarrow> ok r \<and> key r = x" and "lookup (puts d rs) x = Some r"
  shows "ok r \<and> key r = x"
proof (cases "filter (\<lambda>s. key s = x) (rev (written d rs))")
  case Nil
  then show ?thesis using assms puts_lookup [of d rs x] by simp
next
  case (Cons s ss)
  then have "s \<in> set (filter (\<lambda>s. key s = x) (rev (written d rs)))" by simp
  moreover have "r = s" using Cons assms(2) puts_lookup [of d rs x] by simp
  ultimately show ?thesis using written_ok [of s d rs] by simp
qed

end

interpretation threads: keyed_store "PutThread env" "\<lambda>db. row (db_threads db)" "\<lambda>t. Thread_Validate t = None" th_ID
  for env
  by unfold_locales (auto simp: PutThread_def nextOp_def row_upsert split: option.splits if_splits)

interpretation turns: keyed_store "PutTurn env" "\<lambda>db. row (db_turns db)" "\<lambda>t. Turn_Validate t = None" tu_ID
  for env
  by unfold_locales (auto simp: PutTurn_def nextOp_def row_upsert split: option.splits if_splits)

interpretation items: keyed_store "PutItem env" "\<lambda>db. row (db_items db)" "\<lambda>i. Item_Validate i = None" it_ID
  for env
  by unfold_locales (auto simp: PutItem_def nextOp_def row_upsert split: option.splits if_splits)

lemma puts_turns_frame:
  "db_threads (turns.puts env db ts) = db_threads db \<and> db_items (turns.puts env db ts) = db_items db"
proof (induction ts arbitrary: db)
  case Nil
  then show ?case by simp
next
  case (Cons t ts)
  have "db_threads (snd (PutTurn env db t)) = db_threads db \<and> db_items (snd (PutTurn env db t)) = db_items db"
    by (auto simp: PutTurn_def nextOp_def split: option.splits)
  with Cons show ?case by simp
qed

text \<open>
  After any sequence of writes of turns, some of which may fail, the store holds under each id
  the last turn written under it, valid and with that id, and the threads and items are untouched.
\<close>

theorem turns_last_write:
  assumes "row (db_turns (turns.puts env emptyDB ts)) x = Some t"
  shows "Turn_Validate t = None \<and> tu_ID t = x \<and> t \<in> set ts \<and>
    hd (filter (\<lambda>r. tu_ID r = x) (rev (turns.written env emptyDB ts))) = t \<and>
    db_threads (turns.puts env emptyDB ts) = [] \<and> db_items (turns.puts env emptyDB ts) = []"
proof -
  have "filter (\<lambda>r. tu_ID r = x) (rev (turns.written env emptyDB ts)) \<noteq> []"
    using assms turns.puts_lookup [of env emptyDB ts x] by (auto simp: emptyDB_def row_def)
  then obtain s ss where s: "filter (\<lambda>r. tu_ID r = x) (rev (turns.written env emptyDB ts)) = s # ss"
    by (meson neq_Nil_conv)
  then have "s = t" using assms turns.puts_lookup [of env emptyDB ts x] by simp
  moreover have "s \<in> set (filter (\<lambda>r. tu_ID r = x) (rev (turns.written env emptyDB ts)))" using s by simp
  ultimately show ?thesis
    using turns.written_ok [of t env emptyDB ts] puts_turns_frame [of env emptyDB ts] s
    by (simp add: emptyDB_def)
qed

definition sample_turn :: "string \<Rightarrow> TurnStatus \<Rightarrow> Turn" where
  "sample_turn name status =
     \<lparr>tu_ID = name, tu_ThreadID = ''th'', tu_ProviderTurnID = name, tu_Status = status, tu_Metadata = [],
      tu_StartedAt = None, tu_CompletedAt = None, tu_CreatedAt = 1, tu_UpdatedAt = 1\<rparr>"

definition sample_env :: Env where
  "sample_env = \<lparr>env_fails = (\<lambda>n. n = 1), env_clock = (\<lambda>n. 100 + int n), env_dbclock = (\<lambda>n. int n)\<rparr>"

theorem turns_last_write_witness:
  "Turn_Validate (sample_turn ''a'' TurnStatusQueued) = None \<and>
   sample_turn ''a'' TurnStatusQueued \<in> set [sample_turn ''a'' TurnStatusQueued, sample_turn ''a'' TurnStatusFailed]"
proof -
  have "row (db_turns (turns.puts sample_env emptyDB
      [sample_turn ''a'' TurnStatusQueued, sample_turn ''a'' TurnStatusFailed])) ''a''
    = Some (sample_turn ''a'' TurnStatusQueued)"
    by (simp add: sample_env_def emptyDB_def sample_turn_def PutTurn_def Turn_Validate_def nextOp_def row_upsert)
  from turns_last_write [OF this] show ?thesis by simp
qed

lemma getRow_result:
  "fst (getRow env table db k) =
     (if TrimSpace k = [] then Inl StoreIDRequired
      else if env_fails env (db_ops db) then Inl (StoreFailed (TrimSpace k))
      else case row (table db) (TrimSpace k) of
          None \<Rightarrow> Inl (StoreNotFound (TrimSpace k)) | Some v \<Rightarrow> Inr v)"
  by (simp add: getRow_def Let_def split: option.splits)

text \<open>
  Reads trim the id and writes do not: a thread whose id has surrounding white space passes
  validation and is stored, and is then not found under its own id.
\<close>

theorem padded_thread_lost:
  assumes "Thread_Validate t = None" and "TrimSpace (th_ID t) \<noteq> th_ID t" and "\<not> env_fails env 0" and "\<not> env_fails env 1"
  shows "fst (PutThread env emptyDB t) = None \<and>
    fst (GetThread env (snd (PutThread env emptyDB t)) (th_ID t)) = Inl (StoreNotFound (TrimSpace (th_ID t)))"
proof -
  have "TrimSpace (th_ID t) \<noteq> []" using assms(1) by (auto simp: Thread_Validate_def split: if_splits)
  then show ?thesis
    using assms by (simp add: PutThread_def GetThread_def getRow_result nextOp_def row_upsert emptyDB_def)
qed

definition sample_thread :: "string \<Rightarrow> Thread" where
  "sample_thread name =
     \<lparr>th_ID = name, th_WorkspaceID = ''ws'', th_Provider = ''codex'', th_ProviderThreadID = ''p1'', th_Model = [],
      th_Status = ThreadStatusActive, th_Metadata = [], th_CreatedAt = 1, th_UpdatedAt = 1\<rparr>"

theorem padded_thread_lost_witness:
  "fst (GetThread (sample_env\<lparr>env_fails := \<lambda>_. False\<rparr>)
      (snd (PutThread (sample_env\<lparr>env_fails := \<lambda>_. False\<rparr>) emptyDB (sample_thread '' t1''))) '' t1'')
    = Inl (StoreNotFound ''t1'')"
proof -
  have t: "TrimSpace '' t1'' = ''t1''" by code_simp
  have "Thread_Validate (sample_thread '' t1'') = None" by code_simp
  from padded_thread_lost [OF this, of "sample_env\<lparr>env_fails := \<lambda>_. False\<rparr>"] show ?thesis
    by (simp add: sample_thread_def t)
qed

end
