(* ===== verification/AgentManager.thy ===== *)
theory AgentManager
  imports AgentStore
begin

text \<open>
  The manager of agent runtimes (\<open>packages/agent-runtime/manager.go\<close>, \<open>approval_manager.go\<close>): it
  drives providers and records what they do before anyone sees it.

  The world is the data base, the number of clock readings and the trace of what leaves the manager:
  approvals sent to a provider, events handed to the sink and events exposed to the caller.  The
  context may be cancelled at any select: a run is given, for every event of the provider that is
  received, whether the event was delivered or the context was done first.
\<close>

section \<open>The world\<close>

datatype Act = ApprovalSent ApprovalResponse | SinkSaw Event | Exposed Event

record World =
  wd_db :: RuntimeDB
  wd_ticks :: nat
  wd_trace :: "Act list"

record Manager =
  mg_registry :: Registry
  mg_sink :: "(Thread \<Rightarrow> Event \<Rightarrow> string option) option"

datatype rt_error =
    RegistryRequired
  | StoreRequired
  | ErrRegistry registry_error
  | ErrProvider string
  | NilThread
  | NilResumedThread
  | InvalidThread rt_invalid
  | ErrStore store_error
  | CapabilityUnsupported string string
  | MissingTurnID EventType
  | MissingItem EventType
  | InvalidTransition TurnStatus TurnStatus
  | ErrSink string
  | ManagerIsNil
  | ApprovalIDsRequired
  | InvalidDecision ApprovalDecision
  | OwnershipMismatch
  | NotApprovalItem string
  | IndeterminateItem string ItemStatus
  | TurnNotPaused string

definition NewManager :: "Registry option \<Rightarrow> bool \<Rightarrow> rt_error + Manager" where
  "NewManager registry store =
     (case registry of
        None \<Rightarrow> Inl RegistryRequired
      | Some r \<Rightarrow> if \<not> store then Inl StoreRequired else Inr \<lparr>mg_registry = r, mg_sink = None\<rparr>)"

definition WithEventSink :: "Manager \<Rightarrow> (Thread \<Rightarrow> Event \<Rightarrow> string option) option \<Rightarrow> Manager" where
  "WithEventSink m sink = m\<lparr>mg_sink := sink\<rparr>"

definition clockNow :: "Env \<Rightarrow> World \<Rightarrow> int \<times> World" where
  "clockNow env w = (env_clock env (wd_ticks w), w\<lparr>wd_ticks := Suc (wd_ticks w)\<rparr>)"

definition onDB :: "(RuntimeDB \<Rightarrow> 'a \<times> RuntimeDB) \<Rightarrow> World \<Rightarrow> 'a \<times> World" where
  "onDB f w = (let (x, db) = f (wd_db w) in (x, w\<lparr>wd_db := db\<rparr>))"

definition act :: "Act \<Rightarrow> World \<Rightarrow> World" where
  "act a w = w\<lparr>wd_trace := wd_trace w @ [a]\<rparr>"

fun firstValue :: "string list \<Rightarrow> string" where
  "firstValue [] = []"
| "firstValue (v # vs) = (if TrimSpace v \<noteq> [] then v else firstValue vs)"

section \<open>Threads\<close>

definition CreateThread ::
    "(string \<Rightarrow> string) \<Rightarrow> Env \<Rightarrow> Manager \<Rightarrow> World \<Rightarrow> string \<Rightarrow> CreateThreadRequest \<Rightarrow> (rt_error + Thread) \<times> World" where
  "CreateThread ulower env m w providerName req =
     (case Registry_Get ulower (Some (mg_registry m)) providerName of
        Inl e \<Rightarrow> (Inl (ErrRegistry e), w)
      | Inr provider \<Rightarrow>
        (case pv_CreateThread provider req of
           Inl e \<Rightarrow> (Inl (ErrProvider e), w)
         | Inr None \<Rightarrow> (Inl NilThread, w)
         | Inr (Some thread0) \<Rightarrow>
           (let (now, w1) = clockNow env w;
                t1 = (if TrimSpace (th_Provider thread0) = [] then thread0\<lparr>th_Provider := pv_Name provider\<rparr> else thread0);
                t2 = (if th_CreatedAt t1 = 0 then t1\<lparr>th_CreatedAt := now\<rparr> else t1);
                t3 = (if th_UpdatedAt t2 = 0 then t2\<lparr>th_UpdatedAt := th_CreatedAt t2\<rparr> else t2)
            in case Thread_Validate t3 of
                 Some e \<Rightarrow> (Inl (InvalidThread e), w1)
               | None \<Rightarrow>
                 (case onDB (\<lambda>db. PutThread env db t3) w1 of
                    (Some e, w2) \<Rightarrow> (Inl (ErrStore e), w2)
                  | (None, w2) \<Rightarrow> (Inr t3, w2)))))"

definition mergeResumed :: "Env \<Rightarrow> World \<Rightarrow> Thread \<Rightarrow> Thread \<Rightarrow> Thread \<times> World" where
  "mergeResumed env w stored resumed0 =
     (let r1 = resumed0\<lparr>th_ID := th_ID stored,
            th_WorkspaceID := firstValue [th_WorkspaceID resumed0, th_WorkspaceID stored],
            th_Provider := firstValue [th_Provider resumed0, th_Provider stored],
            th_ProviderThreadID := firstValue [th_ProviderThreadID resumed0, th_ProviderThreadID stored],
            th_Model := firstValue [th_Model resumed0, th_Model stored]\<rparr>;
          (r2, w1) = (if th_CreatedAt r1 = 0 then
              (if th_CreatedAt stored = 0
               then (let (now, w') = clockNow env w in (r1\<lparr>th_CreatedAt := now\<rparr>, w'))
               else (r1\<lparr>th_CreatedAt := th_CreatedAt stored\<rparr>, w))
            else (r1, w))
      in if th_UpdatedAt r2 = 0 then (let (now, w') = clockNow env w1 in (r2\<lparr>th_UpdatedAt := now\<rparr>, w'))
         else (r2, w1))"

definition ResumeThread ::
    "(string \<Rightarrow> string) \<Rightarrow> Env \<Rightarrow> Manager \<Rightarrow> World \<Rightarrow> string \<Rightarrow> (rt_error + Thread) \<times> World" where
  "ResumeThread ulower env m w threadID =
     (case onDB (\<lambda>db. GetThread env db threadID) w of
        (Inl e, w1) \<Rightarrow> (Inl (ErrStore e), w1)
      | (Inr stored, w1) \<Rightarrow>
        (case Registry_Get ulower (Some (mg_registry m)) (th_Provider stored) of
           Inl e \<Rightarrow> (Inl (ErrRegistry e), w1)
         | Inr provider \<Rightarrow>
           (case pv_Resume provider of
              None \<Rightarrow> (Inl (CapabilityUnsupported (pv_Name provider) ''resume_thread''), w1)
            | Some resume \<Rightarrow>
              (case resume \<lparr>rr_ThreadID = th_ID stored, rr_ProviderThreadID = th_ProviderThreadID stored,
                    rr_WorkspaceID = th_WorkspaceID stored, rr_Model = th_Model stored\<rparr> of
                 Inl e \<Rightarrow> (Inl (ErrProvider e), w1)
               | Inr None \<Rightarrow> (Inl NilResumedThread, w1)
               | Inr (Some resumed0) \<Rightarrow>
                 (let (resumed, w2) = mergeResumed env w1 stored resumed0 in
                  case Thread_Validate resumed of
                    Some e \<Rightarrow> (Inl (InvalidThread e), w2)
                  | None \<Rightarrow>
                    (case onDB (\<lambda>db. PutThread env db resumed) w2 of
                       (Some e, w3) \<Rightarrow> (Inl (ErrStore e), w3)
                     | (None, w3) \<Rightarrow> (Inr resumed, w3)))))))"

section \<open>Events\<close>

fun terminalTurnStatus :: "TurnStatus \<Rightarrow> bool" where
  "terminalTurnStatus TurnStatusCompleted = True"
| "terminalTurnStatus TurnStatusFailed = True"
| "terminalTurnStatus TurnStatusInterrupted = True"
| "terminalTurnStatus _ = False"

definition noStatus :: TurnStatus where
  \<comment> \<open>the empty status\<close>
  "noStatus = TurnStatusOther []"

definition startTurn :: "Env \<Rightarrow> World \<Rightarrow> Thread \<Rightarrow> Event \<Rightarrow> int \<Rightarrow> (rt_error + Turn option) \<times> World" where
  "startTurn env w thread event occurredAt =
     (if TrimSpace (ev_TurnID event) = [] then (Inl (MissingTurnID (ev_Type event)), w)
      else (let status = (if ev_Status event = noStatus then TurnStatusRunning else ev_Status event);
                turn = \<lparr>tu_ID = ev_TurnID event, tu_ThreadID = th_ID thread,
                  tu_ProviderTurnID = firstValue [ev_ProviderTurnID event, ev_TurnID event],
                  tu_Status = status, tu_Metadata = [], tu_StartedAt = Some occurredAt,
                  tu_CompletedAt = None, tu_CreatedAt = occurredAt, tu_UpdatedAt = occurredAt\<rparr>
            in case onDB (\<lambda>db. PutTurn env db turn) w of
                 (Some e, w1) \<Rightarrow> (Inl (ErrStore e), w1)
               | (None, w1) \<Rightarrow> (Inr (Some turn), w1)))"

definition recordItem ::
    "Env \<Rightarrow> World \<Rightarrow> Thread \<Rightarrow> Turn option \<Rightarrow> Event \<Rightarrow> int \<Rightarrow> (rt_error + Turn option) \<times> World" where
  "recordItem env w thread currentTurn event occurredAt =
     (case ev_Item event of
        None \<Rightarrow> (Inl (MissingItem (ev_Type event)), w)
      | Some item0 \<Rightarrow>
        (let item1 = item0\<lparr>it_ThreadID := th_ID thread, it_TurnID := ev_TurnID event\<rparr>;
             item2 = (if it_CreatedAt item1 = 0 then item1\<lparr>it_CreatedAt := occurredAt\<rparr> else item1);
             item = item2\<lparr>it_UpdatedAt := occurredAt\<rparr>
         in case onDB (\<lambda>db. PutItem env db item) w of
              (Some e, w1) \<Rightarrow> (Inl (ErrStore e), w1)
            | (None, w1) \<Rightarrow>
              (case currentTurn of
                 None \<Rightarrow> (Inr None, w1)
               | Some turn \<Rightarrow>
                 if ev_Status event \<noteq> noStatus \<and> ev_Status event \<noteq> tu_Status turn then
                   (if \<not> CanTransitionTurnStatus (tu_Status turn) (ev_Status event)
                    then (Inl (InvalidTransition (tu_Status turn) (ev_Status event)), w1)
                    else (let updated = turn\<lparr>tu_Status := ev_Status event, tu_UpdatedAt := occurredAt\<rparr>
                          in case onDB (\<lambda>db. PutTurn env db updated) w1 of
                               (Some e, w2) \<Rightarrow> (Inl (ErrStore e), w2)
                             | (None, w2) \<Rightarrow> (Inr (Some updated), w2)))
                 else (Inr (Some turn), w1))))"

definition recordStatus ::
    "Env \<Rightarrow> World \<Rightarrow> Thread \<Rightarrow> Turn option \<Rightarrow> Event \<Rightarrow> int \<Rightarrow> (rt_error + Turn option) \<times> World" where
  "recordStatus env w thread currentTurn event occurredAt =
     (if TrimSpace (ev_TurnID event) = [] then (Inl (MissingTurnID (ev_Type event)), w)
      else (let fresh = \<lparr>tu_ID = ev_TurnID event, tu_ThreadID = th_ID thread,
                  tu_ProviderTurnID = firstValue [ev_ProviderTurnID event, ev_TurnID event],
                  tu_Status = noStatus, tu_Metadata = [], tu_StartedAt = None, tu_CompletedAt = None,
                  tu_CreatedAt = occurredAt, tu_UpdatedAt = 0\<rparr>;
                t0 = (case currentTurn of
                    Some turn \<Rightarrow> if tu_ID turn = ev_TurnID event then turn else fresh
                  | None \<Rightarrow> fresh);
                t1 = (if ev_Status event \<noteq> noStatus then t0\<lparr>tu_Status := ev_Status event\<rparr> else t0);
                t2 = t1\<lparr>tu_UpdatedAt := occurredAt\<rparr>;
                turn = (if terminalTurnStatus (tu_Status t2) then t2\<lparr>tu_CompletedAt := Some occurredAt\<rparr> else t2)
            in case onDB (\<lambda>db. PutTurn env db turn) w of
                 (Some e, w1) \<Rightarrow> (Inl (ErrStore e), w1)
               | (None, w1) \<Rightarrow> (Inr (Some turn), w1)))"

definition persistEvent ::
    "Env \<Rightarrow> World \<Rightarrow> Thread \<Rightarrow> Turn option \<Rightarrow> Event \<Rightarrow> (rt_error + Turn option) \<times> World" where
  "persistEvent env w thread currentTurn event =
     (let (occurredAt, w1) = (if ev_OccurredAt event = 0 then clockNow env w else (ev_OccurredAt event, w))
      in case ev_Type event of
           EventTypeTurnStarted \<Rightarrow> startTurn env w1 thread event occurredAt
         | EventTypeItemStarted \<Rightarrow> recordItem env w1 thread currentTurn event occurredAt
         | EventTypeItemCompleted \<Rightarrow> recordItem env w1 thread currentTurn event occurredAt
         | EventTypeItemFailed \<Rightarrow> recordItem env w1 thread currentTurn event occurredAt
         | EventTypeTurnStatus \<Rightarrow> recordStatus env w1 thread currentTurn event occurredAt
         | EventTypeTurnCompleted \<Rightarrow> recordStatus env w1 thread currentTurn event occurredAt
         | EventTypeTurnFailed \<Rightarrow> recordStatus env w1 thread currentTurn event occurredAt
         | _ \<Rightarrow> (Inr currentTurn, w1))"

text \<open>The sink, when there is one, handles an event after it was recorded.\<close>

definition toSink :: "Manager \<Rightarrow> Thread \<Rightarrow> Event \<Rightarrow> World \<Rightarrow> string option \<times> World" where
  "toSink m thread event w =
     (case mg_sink m of
        None \<Rightarrow> (None, w)
      | Some handle \<Rightarrow> (handle thread event, act (SinkSaw event) w))"

fun recordRun ::
    "Env \<Rightarrow> Manager \<Rightarrow> Thread \<Rightarrow> Turn option \<Rightarrow> (Event \<times> bool) list \<Rightarrow> World \<Rightarrow> rt_error option \<times> World" where
  "recordRun env m thread currentTurn [] w = (None, w)"
| "recordRun env m thread currentTurn ((event0, delivered) # rest) w =
     (let event = event0\<lparr>ev_ThreadID := th_ID thread\<rparr> in
      case persistEvent env w thread currentTurn event of
        (Inl e, w1) \<Rightarrow> (Some e, w1)
      | (Inr nextTurn, w1) \<Rightarrow>
        (case toSink m thread event w1 of
           (Some e, w2) \<Rightarrow> (Some (ErrSink e), w2)
         | (None, w2) \<Rightarrow>
           if \<not> delivered then (None, w2)
           else recordRun env m thread nextTurn rest (act (Exposed event) w2)))"

text \<open>The result of a started run is the error of its stream, if any.\<close>

definition RunTurn ::
    "(string \<Rightarrow> string) \<Rightarrow> Env \<Rightarrow> Manager \<Rightarrow> World \<Rightarrow> RunTurnRequest \<Rightarrow> bool list \<Rightarrow> (rt_error + rt_error option) \<times> World" where
  "RunTurn ulower env m w req deliveries =
     (case onDB (\<lambda>db. GetThread env db (rt_ThreadID req)) w of
        (Inl e, w1) \<Rightarrow> (Inl (ErrStore e), w1)
      | (Inr thread, w1) \<Rightarrow>
        (case Registry_Get ulower (Some (mg_registry m)) (th_Provider thread) of
           Inl e \<Rightarrow> (Inl (ErrRegistry e), w1)
         | Inr provider \<Rightarrow>
           (let req1 = (if TrimSpace (rt_ProviderThreadID req) = []
                  then req\<lparr>rt_ProviderThreadID := th_ProviderThreadID thread\<rparr> else req)
            in case pv_RunTurn provider req1 of
                 Inl e \<Rightarrow> (Inl (ErrProvider e), w1)
               | Inr events \<Rightarrow>
                 (let (err, w2) = recordRun env m thread None (zip events deliveries) w1
                  in (Inr err, w2)))))"

section \<open>Approvals\<close>

text \<open>The dispatch of a checked answer: item running, provider, item answered, turn resumed.\<close>

definition dispatchApproval ::
    "Env \<Rightarrow> World \<Rightarrow> Turn \<Rightarrow> Item \<Rightarrow> (ApprovalResponse \<Rightarrow> string option) \<Rightarrow> ApprovalResponse \<Rightarrow> rt_error option \<times> World" where
  "dispatchApproval env w turn item respond response =
     (let (now, w1) = clockNow env w;
          inflight = item\<lparr>it_Status := ItemStatusRunning, it_UpdatedAt := now\<rparr>
      in case onDB (\<lambda>db. PutItem env db inflight) w1 of
       (Some e, w2) \<Rightarrow> (Some (ErrStore e), w2)
     | (None, w2) \<Rightarrow>
     (let w3 = act (ApprovalSent response) w2 in
      case respond response of
       Some e \<Rightarrow>
         (let (t, w4) = clockNow env w3;
              (_, w5) = onDB (\<lambda>db. PutItem env db (item\<lparr>it_UpdatedAt := t\<rparr>)) w4
          in (Some (ErrProvider e), w5))
     | None \<Rightarrow>
     (let (t, w4) = clockNow env w3;
          finalItem = inflight\<lparr>it_Status := (if ar_Decision response = ApprovalDecisionApproved
              then ItemStatusCompleted else ItemStatusCancelled), it_UpdatedAt := t\<rparr>
      in case onDB (\<lambda>db. PutItem env db finalItem) w4 of
       (Some e, w5) \<Rightarrow> (Some (ErrStore e), w5)
     | (None, w5) \<Rightarrow>
     if \<not> CanTransitionTurnStatus (tu_Status turn) TurnStatusRunning
     then (Some (InvalidTransition (tu_Status turn) TurnStatusRunning), w5)
     else (let (u, w6) = clockNow env w5;
               resumed = turn\<lparr>tu_Status := TurnStatusRunning, tu_UpdatedAt := u\<rparr>
           in case onDB (\<lambda>db. PutTurn env db resumed) w6 of
               (Some e, w7) \<Rightarrow> (Some (ErrStore e), w7)
             | (None, w7) \<Rightarrow> (None, w7)))))"

definition RespondApproval ::
    "(string \<Rightarrow> string) \<Rightarrow> Env \<Rightarrow> Manager option \<Rightarrow> World \<Rightarrow> ApprovalResponse \<Rightarrow> rt_error option \<times> World" where
  "RespondApproval ulower env manager w response =
     (case manager of
        None \<Rightarrow> (Some ManagerIsNil, w)
      | Some m \<Rightarrow>
     if TrimSpace (ar_ThreadID response) = [] \<or> TrimSpace (ar_TurnID response) = [] \<or>
       TrimSpace (ar_ItemID response) = [] then (Some ApprovalIDsRequired, w)
     else if ar_Decision response \<noteq> ApprovalDecisionApproved \<and> ar_Decision response \<noteq> ApprovalDecisionDenied
     then (Some (InvalidDecision (ar_Decision response)), w)
     else (case onDB (\<lambda>db. GetThread env db (ar_ThreadID response)) w of
       (Inl e, w1) \<Rightarrow> (Some (ErrStore e), w1)
     | (Inr thread, w1) \<Rightarrow>
     (case onDB (\<lambda>db. GetTurn env db (ar_TurnID response)) w1 of
       (Inl e, w2) \<Rightarrow> (Some (ErrStore e), w2)
     | (Inr turn, w2) \<Rightarrow>
     (case onDB (\<lambda>db. GetItem env db (ar_ItemID response)) w2 of
       (Inl e, w3) \<Rightarrow> (Some (ErrStore e), w3)
     | (Inr item, w3) \<Rightarrow>
     if tu_ThreadID turn \<noteq> th_ID thread \<or> it_ThreadID item \<noteq> th_ID thread \<or> it_TurnID item \<noteq> tu_ID turn
     then (Some OwnershipMismatch, w3)
     else if it_Type item \<noteq> ItemTypeApproval then (Some (NotApprovalItem (it_ID item)), w3)
     else if it_Status item = ItemStatusCompleted \<or> it_Status item = ItemStatusCancelled then (None, w3)
     else if it_Status item \<noteq> ItemStatusPending
     then (Some (IndeterminateItem (it_ID item) (it_Status item)), w3)
     else if tu_Status turn \<noteq> TurnStatusPausedApproval then (Some (TurnNotPaused (tu_ID turn)), w3)
     else (case Registry_Get ulower (Some (mg_registry m)) (th_Provider thread) of
       Inl e \<Rightarrow> (Some (ErrRegistry e), w3)
     | Inr provider \<Rightarrow>
     (case pv_Approval provider of
       None \<Rightarrow> (Some (CapabilityUnsupported (pv_Name provider) ''approval_requests''), w3)
     | Some respond \<Rightarrow>
     dispatchApproval env w3 turn item respond response))))))"

section \<open>Facts\<close>

lemma clockNow_simps [simp]:
  "wd_db (snd (clockNow env w)) = wd_db w" "wd_trace (snd (clockNow env w)) = wd_trace w"
  by (simp_all add: clockNow_def)

lemma act_simps [simp]:
  "wd_db (act a w) = wd_db w" "wd_trace (act a w) = wd_trace w @ [a]" "wd_ticks (act a w) = wd_ticks w"
  by (simp_all add: act_def)

lemma onDB_eq: "onDB f w = (fst (f (wd_db w)), w\<lparr>wd_db := snd (f (wd_db w))\<rparr>)"
  by (simp add: onDB_def case_prod_beta)

text \<open>A successful write of a turn or of an item through the world.\<close>

lemma onDB_PutTurn:
  assumes "onDB (\<lambda>db. PutTurn env db t) w = (None, w')"
  shows "row (db_turns (wd_db w')) x = (if x = tu_ID t then Some t else row (db_turns (wd_db w)) x)"
    "wd_trace w' = wd_trace w" "db_items (wd_db w') = db_items (wd_db w)" "db_threads (wd_db w') = db_threads (wd_db w)"
  using assms by (auto simp: onDB_eq PutTurn_def nextOp_def row_upsert split: option.splits if_splits)

lemma onDB_PutItem:
  assumes "onDB (\<lambda>db. PutItem env db i) w = (None, w')"
  shows "row (db_items (wd_db w')) x = (if x = it_ID i then Some i else row (db_items (wd_db w)) x)"
    "wd_trace w' = wd_trace w" "db_turns (wd_db w') = db_turns (wd_db w)" "db_threads (wd_db w') = db_threads (wd_db w)"
  using assms by (auto simp: onDB_eq PutItem_def nextOp_def row_upsert split: option.splits if_splits)

lemma onDB_trace [simp]: "wd_trace (snd (onDB f w)) = wd_trace w"
  by (simp add: onDB_eq)

text \<open>What the store must hold once an event is recorded.\<close>

definition reflected :: "RuntimeDB \<Rightarrow> Event \<Rightarrow> bool" where
  "reflected db event =
     (case ev_Type event of
        EventTypeTurnStarted \<Rightarrow> \<exists>t. row (db_turns db) (ev_TurnID event) = Some t \<and> tu_ThreadID t = ev_ThreadID event \<and>
          tu_Status t = (if ev_Status event = noStatus then TurnStatusRunning else ev_Status event)
      | EventTypeThreadCreated \<Rightarrow> True
      | EventTypeOther _ \<Rightarrow> True
      | EventTypeItemStarted \<Rightarrow> \<exists>i j. ev_Item event = Some i \<and> row (db_items db) (it_ID i) = Some j \<and>
          it_TurnID j = ev_TurnID event \<and> it_ThreadID j = ev_ThreadID event \<and>
          it_Status j = it_Status i \<and> it_Payload j = it_Payload i
      | EventTypeItemCompleted \<Rightarrow> \<exists>i j. ev_Item event = Some i \<and> row (db_items db) (it_ID i) = Some j \<and>
          it_TurnID j = ev_TurnID event \<and> it_ThreadID j = ev_ThreadID event \<and>
          it_Status j = it_Status i \<and> it_Payload j = it_Payload i
      | EventTypeItemFailed \<Rightarrow> \<exists>i j. ev_Item event = Some i \<and> row (db_items db) (it_ID i) = Some j \<and>
          it_TurnID j = ev_TurnID event \<and> it_ThreadID j = ev_ThreadID event \<and>
          it_Status j = it_Status i \<and> it_Payload j = it_Payload i
      | _ \<Rightarrow> \<exists>t. row (db_turns db) (ev_TurnID event) = Some t \<and>
          (ev_Status event \<noteq> noStatus \<longrightarrow> tu_Status t = ev_Status event))"

lemma startTurn_reflects:
  assumes "startTurn env w thread event at = (Inr next, w')" and "ev_ThreadID event = th_ID thread"
  shows "\<exists>t. row (db_turns (wd_db w')) (ev_TurnID event) = Some t \<and> tu_ThreadID t = ev_ThreadID event \<and>
      tu_Status t = (if ev_Status event = noStatus then TurnStatusRunning else ev_Status event)"
    and "wd_trace w' = wd_trace w"
  using assms by (auto simp: startTurn_def Let_def onDB_PutTurn split: if_splits prod.splits option.splits)

lemma recordStatus_reflects:
  assumes "recordStatus env w thread cur event at = (Inr next, w')"
  shows "\<exists>t. row (db_turns (wd_db w')) (ev_TurnID event) = Some t \<and>
      (ev_Status event \<noteq> noStatus \<longrightarrow> tu_Status t = ev_Status event)"
    and "wd_trace w' = wd_trace w"
proof -
  obtain t where p: "onDB (\<lambda>db. PutTurn env db t) w = (None, w')" and t: "tu_ID t = ev_TurnID event"
    "ev_Status event \<noteq> noStatus \<longrightarrow> tu_Status t = ev_Status event"
    using assms
    by (auto simp: recordStatus_def Let_def split: if_splits prod.splits option.splits)
  show "\<exists>t. row (db_turns (wd_db w')) (ev_TurnID event) = Some t \<and>
      (ev_Status event \<noteq> noStatus \<longrightarrow> tu_Status t = ev_Status event)"
    using onDB_PutTurn(1) [OF p, of "ev_TurnID event"] t by auto
  show "wd_trace w' = wd_trace w" by (rule onDB_PutTurn(2) [OF p])
qed

lemma recordItem_cases:
  assumes "recordItem env w thread cur event at = (Inr next, w')"
  obtains i j w1 where "ev_Item event = Some i" "it_ID j = it_ID i" "it_TurnID j = ev_TurnID event"
      "it_ThreadID j = th_ID thread" "it_Status j = it_Status i" "it_Payload j = it_Payload i"
      "onDB (\<lambda>db. PutItem env db j) w = (None, w1)"
      "(next = cur \<and> w' = w1) \<or>
       (\<exists>t u. cur = Some t \<and> CanTransitionTurnStatus (tu_Status t) (ev_Status event) \<and>
          u = t\<lparr>tu_Status := ev_Status event, tu_UpdatedAt := at\<rparr> \<and> next = Some u \<and>
          onDB (\<lambda>db. PutTurn env db u) w1 = (None, w'))"
proof -
  obtain i where i: "ev_Item event = Some i" using assms by (auto simp: recordItem_def split: option.splits)
  define j where "j = (let item1 = i\<lparr>it_ThreadID := th_ID thread, it_TurnID := ev_TurnID event\<rparr>;
      item2 = (if it_CreatedAt item1 = 0 then item1\<lparr>it_CreatedAt := at\<rparr> else item1)
    in item2\<lparr>it_UpdatedAt := at\<rparr>)"
  have j: "it_ID j = it_ID i" "it_TurnID j = ev_TurnID event" "it_ThreadID j = th_ID thread"
    "it_Status j = it_Status i" "it_Payload j = it_Payload i"
    by (simp_all add: j_def Let_def)
  obtain r w1 where r: "onDB (\<lambda>db. PutItem env db j) w = (r, w1)" by fastforce
  have e: "recordItem env w thread cur event at = (case r of
      Some e \<Rightarrow> (Inl (ErrStore e), w1)
    | None \<Rightarrow> (case cur of None \<Rightarrow> (Inr None, w1)
       | Some turn \<Rightarrow>
         if ev_Status event \<noteq> noStatus \<and> ev_Status event \<noteq> tu_Status turn then
           (if \<not> CanTransitionTurnStatus (tu_Status turn) (ev_Status event)
            then (Inl (InvalidTransition (tu_Status turn) (ev_Status event)), w1)
            else (let updated = turn\<lparr>tu_Status := ev_Status event, tu_UpdatedAt := at\<rparr>
                  in case onDB (\<lambda>db. PutTurn env db updated) w1 of
                       (Some e, w2) \<Rightarrow> (Inl (ErrStore e), w2)
                     | (None, w2) \<Rightarrow> (Inr (Some updated), w2)))
         else (Inr (Some turn), w1)))"
    unfolding recordItem_def i option.case Let_def j_def [unfolded Let_def, symmetric] r prod.case
    by (cases r) simp_all
  have "r = None" using assms by (cases r) (simp_all add: e)
  moreover have "(next = cur \<and> w' = w1) \<or>
       (\<exists>t u. cur = Some t \<and> CanTransitionTurnStatus (tu_Status t) (ev_Status event) \<and>
          u = t\<lparr>tu_Status := ev_Status event, tu_UpdatedAt := at\<rparr> \<and> next = Some u \<and>
          onDB (\<lambda>db. PutTurn env db u) w1 = (None, w'))"
    using assms unfolding e \<open>r = None\<close>
    by (auto simp: Let_def split: option.splits if_splits prod.splits)
  ultimately show thesis using that [OF i j] r by simp
qed

lemma recordItem_reflects:
  assumes "recordItem env w thread cur event at = (Inr next, w')" and "ev_ThreadID event = th_ID thread"
  shows "\<exists>i j. ev_Item event = Some i \<and> row (db_items (wd_db w')) (it_ID i) = Some j \<and>
      it_TurnID j = ev_TurnID event \<and> it_ThreadID j = ev_ThreadID event \<and>
      it_Status j = it_Status i \<and> it_Payload j = it_Payload i"
    and "wd_trace w' = wd_trace w"
proof -
  from assms(1) obtain i j w1 where i: "ev_Item event = Some i" and j: "it_ID j = it_ID i"
    "it_TurnID j = ev_TurnID event" "it_ThreadID j = th_ID thread" "it_Status j = it_Status i" "it_Payload j = it_Payload i"
    and p: "onDB (\<lambda>db. PutItem env db j) w = (None, w1)"
    and n: "(next = cur \<and> w' = w1) \<or>
       (\<exists>t u. cur = Some t \<and> CanTransitionTurnStatus (tu_Status t) (ev_Status event) \<and>
          u = t\<lparr>tu_Status := ev_Status event, tu_UpdatedAt := at\<rparr> \<and> next = Some u \<and>
          onDB (\<lambda>db. PutTurn env db u) w1 = (None, w'))"
    by (rule recordItem_cases)
  have "db_items (wd_db w') = db_items (wd_db w1)" "wd_trace w' = wd_trace w1"
    using n onDB_PutTurn(2,3) by auto
  then show "\<exists>i j. ev_Item event = Some i \<and> row (db_items (wd_db w')) (it_ID i) = Some j \<and>
      it_TurnID j = ev_TurnID event \<and> it_ThreadID j = ev_ThreadID event \<and>
      it_Status j = it_Status i \<and> it_Payload j = it_Payload i" and "wd_trace w' = wd_trace w"
    using i j assms(2) onDB_PutItem(1) [OF p, of "it_ID i"] onDB_PutItem(2) [OF p] by auto
qed

lemma persistEvent_reflects:
  assumes "persistEvent env w thread cur event = (Inr next, w')" and "ev_ThreadID event = th_ID thread"
  shows "reflected (wd_db w') event" and "wd_trace w' = wd_trace w"
proof -
  obtain at w1 where a: "(if ev_OccurredAt event = 0 then clockNow env w else (ev_OccurredAt event, w)) = (at, w1)"
    by fastforce
  then have w1: "wd_trace w1 = wd_trace w" by (auto simp: clockNow_def split: if_splits)
  note p = assms(1) [unfolded persistEvent_def a Let_def prod.case]
  show "reflected (wd_db w') event" "wd_trace w' = wd_trace w"
    using p w1 startTurn_reflects [OF _ assms(2)] recordItem_reflects [OF _ assms(2)] recordStatus_reflects
    by (atomize (full), cases "ev_Type event") (simp_all add: reflected_def)
qed

section \<open>What a run exposes\<close>

definition exposures :: "Act list \<Rightarrow> Event list" where
  "exposures tr = concat (map (\<lambda>a. case a of Exposed e \<Rightarrow> [e] | _ \<Rightarrow> []) tr)"

lemma exposures_simps [simp]:
  "exposures (tr @ [Exposed e]) = exposures tr @ [e]"
  "exposures (tr @ [SinkSaw e]) = exposures tr"
  "exposures (tr @ [ApprovalSent r]) = exposures tr"
  by (simp_all add: exposures_def)

lemma toSink_frame:
  "wd_db (snd (toSink m thread event w)) = wd_db w"
  "exposures (wd_trace (snd (toSink m thread event w))) = exposures (wd_trace w)"
  by (simp_all add: toSink_def split: option.splits)

definition inThread :: "Thread \<Rightarrow> Event \<times> bool \<Rightarrow> Event" where
  "inThread thread e = (fst e)\<lparr>ev_ThreadID := th_ID thread\<rparr>"

definition recordedAt :: "Env \<Rightarrow> Manager \<Rightarrow> Thread \<Rightarrow> Turn option \<Rightarrow> (Event \<times> bool) list \<Rightarrow> World \<Rightarrow> nat \<Rightarrow> bool" where
  "recordedAt env m thread cur es w i =
     (let (r, wi) = recordRun env m thread cur (take (Suc i) es) w
      in r = None \<and> reflected (wd_db wi) (inThread thread (es ! i)))"

lemma onDB_case_trace:
  assumes "\<And>x w1. wd_trace (snd (g x w1)) = wd_trace w1"
  shows "wd_trace (snd (case onDB f w of (x, w1) \<Rightarrow> g x w1)) = wd_trace w"
  by (simp add: onDB_eq assms)

lemma putTurn_trace:
  "wd_trace (snd (case onDB (\<lambda>db. PutTurn env db u) w of
      (Some e, w2) \<Rightarrow> (Inl (ErrStore e), w2) | (None, w2) \<Rightarrow> (Inr (Some u), w2))) = wd_trace w"
  by (rule onDB_case_trace) (simp split: option.split)

lemma recordItem_trace: "wd_trace (snd (recordItem env w thread cur event at)) = wd_trace w"
proof (cases "ev_Item event")
  case None
  then show ?thesis by (simp add: recordItem_def)
next
  case (Some i)
  show ?thesis
    unfolding recordItem_def Some option.case Let_def
  proof (rule onDB_case_trace, goal_cases)
    case (1 x w1)
    then show ?case
    proof (cases x; cases cur)
      fix t
      assume "x = None" "cur = Some t"
      then show ?thesis
        by (simp only: option.case if_distrib [where f = "\<lambda>p. wd_trace (snd p)"] putTurn_trace snd_conv if_cancel)
    qed simp_all
  qed
qed

lemma startTurn_trace: "wd_trace (snd (startTurn env w thread event at)) = wd_trace w"
  by (simp only: startTurn_def Let_def if_distrib [where f = "\<lambda>p. wd_trace (snd p)"] putTurn_trace snd_conv if_cancel)

lemma recordStatus_trace: "wd_trace (snd (recordStatus env w thread cur event at)) = wd_trace w"
  by (simp only: recordStatus_def Let_def if_distrib [where f = "\<lambda>p. wd_trace (snd p)"] putTurn_trace snd_conv if_cancel)

lemma persistEvent_failed:
  assumes "persistEvent env w thread cur event = (Inl e, w')"
  shows "wd_trace w' = wd_trace w"
proof -
  obtain at w1 where a: "(if ev_OccurredAt event = 0 then clockNow env w else (ev_OccurredAt event, w)) = (at, w1)"
    by fastforce
  then have w1: "wd_trace w1 = wd_trace w" by (auto simp: clockNow_def split: if_splits)
  have st: "wd_trace (snd (startTurn env w1 thread event at)) = wd_trace w1"
    by (rule startTurn_trace)
  have rs: "wd_trace (snd (recordStatus env w1 thread cur event at)) = wd_trace w1"
    by (rule recordStatus_trace)
  have ri: "wd_trace (snd (recordItem env w1 thread cur event at)) = wd_trace w1"
    by (rule recordItem_trace)
  have "wd_trace (snd (persistEvent env w thread cur event)) = wd_trace w1"
    unfolding persistEvent_def a Let_def prod.case
    by (cases "ev_Type event") (simp_all add: st rs ri)
  then show ?thesis using assms w1 by simp
qed

text \<open>The three ways a received event leaves the loop, and the way it continues.\<close>

lemma recordRun_step:
  obtains (stop) e w' where
      "\<And>rest. recordRun env m thread cur (ev # rest) w = (e, w')"
      "exposures (wd_trace w') = exposures (wd_trace w)" "e = None \<Longrightarrow> \<not> snd ev"
  | (go) nt w' where
      "\<And>rest. recordRun env m thread cur (ev # rest) w = recordRun env m thread nt rest w'"
      "exposures (wd_trace w') = exposures (wd_trace w) @ [inThread thread ev]"
      "reflected (wd_db w') (inThread thread ev)"
proof -
  obtain event0 delivered where ev: "ev = (event0, delivered)" by (cases ev)
  define event where "event = event0\<lparr>ev_ThreadID := th_ID thread\<rparr>"
  have it: "inThread thread (event0, b) = event" for b by (simp add: inThread_def event_def)
  obtain p w1 where p: "persistEvent env w thread cur event = (p, w1)" by fastforce
  obtain s w2 where s: "toSink m thread event w1 = (s, w2)" by fastforce
  have sf: "wd_db w2 = wd_db w1" "exposures (wd_trace w2) = exposures (wd_trace w1)"
    using toSink_frame [of m thread event w1] by (simp_all add: s)
  show thesis
  proof (cases p)
    case (Inl e)
    have "wd_trace w1 = wd_trace w" using p Inl by (simp add: persistEvent_failed)
    then show thesis
      by (intro stop [of "Some e" w1]) (simp_all add: ev Let_def event_def [symmetric] p Inl)
  next
    case (Inr nt)
    have r: "reflected (wd_db w1) event" "wd_trace w1 = wd_trace w"
      using persistEvent_reflects [of env w thread cur event nt w1] p Inr by (simp_all add: event_def)
    show thesis
    proof (cases s)
      case (Some e)
      then show thesis
        by (intro stop [of "Some (ErrSink e)" w2])
          (simp_all add: ev Let_def event_def [symmetric] p Inr s sf r)
    next
      case None
      show thesis
      proof (cases delivered)
        case False
        then show thesis
          by (intro stop [of None w2]) (simp_all add: ev Let_def event_def [symmetric] p Inr s None sf r)
      next
        case True
        then show thesis
          by (intro go [of nt "act (Exposed event) w2"])
            (simp_all add: ev Let_def event_def [symmetric] p Inr s None sf r it)
      qed
    qed
  qed
qed

lemma recordRun_spec:
  "\<exists>n \<le> length es. exposures (wd_trace (snd (recordRun env m thread cur es w)))
      = exposures (wd_trace w) @ map (inThread thread) (take n es) \<and>
     (\<forall>i < n. recordedAt env m thread cur es w i) \<and>
     (n < length es \<longrightarrow> fst (recordRun env m thread cur es w) \<noteq> None \<or> \<not> snd (es ! n))"
proof (induction es arbitrary: cur w)
  case Nil
  then show ?case by simp
next
  case (Cons ev es)
  show ?case
  proof (cases rule: recordRun_step [where env = env and m = m and thread = thread and cur = cur and ev = ev and w = w])
    case (stop e w')
    then show ?thesis by (intro exI [of _ 0]) (cases e; simp)
  next
    case (go nt w')
    obtain n where n: "n \<le> length es" "exposures (wd_trace (snd (recordRun env m thread nt es w')))
        = exposures (wd_trace w') @ map (inThread thread) (take n es)"
      "n < length es \<longrightarrow> fst (recordRun env m thread nt es w') \<noteq> None \<or> \<not> snd (es ! n)"
      "\<And>i. i < n \<Longrightarrow> recordedAt env m thread nt es w' i"
      using Cons.IH [of nt w'] by blast
    have "recordedAt env m thread cur (ev # es) w i" if "i < Suc n" for i
    proof (cases i)
      case 0
      then show ?thesis by (simp add: recordedAt_def go)
    next
      case (Suc j)
      then show ?thesis using n(4) [of j] that by (simp add: recordedAt_def go)
    qed
    then show ?thesis using n(1,2,3) go by (intro exI [of _ "Suc n"]) simp
  qed
qed

text \<open>
  C16. A run exposes, in order, an initial part of the events the provider sent, marked with the
  thread, and when an event is exposed the store already reflects it.  A run exposes all events
  unless it fails with an error or is cancelled at the first event that is not exposed.
\<close>

theorem recordRun_exposes:
  "\<exists>n \<le> length es. exposures (wd_trace (snd (recordRun env m thread cur es w)))
      = exposures (wd_trace w) @ map (inThread thread) (take n es) \<and>
     (\<forall>i < n. recordedAt env m thread cur es w i) \<and>
     (n < length es \<longrightarrow> fst (recordRun env m thread cur es w) \<noteq> None \<or> \<not> snd (es ! n))"
  by (rule recordRun_spec)

definition sample_manager :: Manager where
  "sample_manager = \<lparr>mg_registry = [(''codex'', sample_provider ''codex'' [CapabilityApprovalRequests])], mg_sink = None\<rparr>"

definition sample_event :: "EventType \<Rightarrow> TurnStatus \<Rightarrow> Item option \<Rightarrow> Event" where
  "sample_event type status item =
     \<lparr>ev_Sequence = 0, ev_Type = type, ev_ThreadID = [], ev_TurnID = ''u'', ev_ProviderTurnID = [], ev_Status = status,
      ev_Item = item, ev_Error = [], ev_OccurredAt = 5\<rparr>"

definition sample_item :: "ItemStatus \<Rightarrow> Item" where
  "sample_item status =
     \<lparr>it_ID = ''i'', it_ThreadID = ''th'', it_TurnID = ''u'', it_ProviderItemID = [], it_Type = ItemTypeApproval,
      it_Status = status, it_Role = [], it_Name = [], it_Payload = [], it_CreatedAt = 1, it_UpdatedAt = 1\<rparr>"

definition good_env :: Env where
  "good_env = sample_env\<lparr>env_fails := \<lambda>_. False\<rparr>"

definition sample_world :: World where
  "sample_world = \<lparr>wd_db = emptyDB, wd_ticks = 0, wd_trace = []\<rparr>"

lemmas sample_defs = sample_manager_def sample_event_def sample_item_def good_env_def sample_world_def
  sample_env_def sample_thread_def sample_turn_def emptyDB_def

definition sample_run :: "(Event \<times> bool) list" where
  "sample_run = [(sample_event EventTypeTurnStarted noStatus None, True),
     (sample_event EventTypeItemStarted TurnStatusPausedApproval (Some (sample_item ItemStatusPending)), True)]"

theorem recordRun_exposes_witness:
  "exposures (wd_trace (snd (recordRun good_env sample_manager (sample_thread ''th'') None sample_run sample_world)))
     = map (inThread (sample_thread ''th'')) sample_run \<and>
   recordedAt good_env sample_manager (sample_thread ''th'') None sample_run sample_world 1"
proof -
  have run: "fst (recordRun good_env sample_manager (sample_thread ''th'') None sample_run sample_world) = None"
    by code_simp
  have all: "\<And>i. i < length sample_run \<Longrightarrow> snd (sample_run ! i)"
    by (auto simp: sample_run_def nth_Cons split: nat.splits)
  have len: "length sample_run = 2" by (simp add: sample_run_def)
  have none: "exposures (wd_trace sample_world) = []" by (simp add: sample_world_def exposures_def)
  show ?thesis
    using recordRun_exposes [of sample_run good_env sample_manager "sample_thread ''th''" None sample_world] run all len none
    by auto
qed

section \<open>Approvals are answered once\<close>

definition itemsKeyed :: "RuntimeDB \<Rightarrow> bool" where
  "itemsKeyed db \<longleftrightarrow> (\<forall>x i. row (db_items db) x = Some i \<longrightarrow> it_ID i = x)"

definition answered :: "RuntimeDB \<Rightarrow> string \<Rightarrow> bool" where
  "answered db x \<longleftrightarrow> (\<exists>i. row (db_items db) x = Some i \<and> it_Status i \<in> {ItemStatusCompleted, ItemStatusCancelled})"

definition sends :: "string \<Rightarrow> Act list \<Rightarrow> ApprovalResponse list" where
  "sends x tr = concat (map (\<lambda>a. case a of
      ApprovalSent r \<Rightarrow> if TrimSpace (ar_ItemID r) = x then [r] else [] | _ \<Rightarrow> []) tr)"

lemma sends_append [simp]: "sends x (tr @ tr') = sends x tr @ sends x tr'"
  by (simp add: sends_def)

lemma sends_one [simp]: "sends x [ApprovalSent r] = (if TrimSpace (ar_ItemID r) = x then [r] else [])"
  by (simp add: sends_def)

lemma GetThread_frame:
  assumes "onDB (\<lambda>db. GetThread env db k) w = (r, w')"
  shows "db_items (wd_db w') = db_items (wd_db w)" "wd_trace w' = wd_trace w"
  using assms by (auto simp: onDB_eq GetThread_def getRow_def nextOp_def Let_def split: if_splits option.splits)

lemma GetTurn_frame:
  assumes "onDB (\<lambda>db. GetTurn env db k) w = (r, w')"
  shows "db_items (wd_db w') = db_items (wd_db w)" "wd_trace w' = wd_trace w"
  using assms by (auto simp: onDB_eq GetTurn_def getRow_def nextOp_def Let_def split: if_splits option.splits)

lemma GetItem_frame:
  assumes "onDB (\<lambda>db. GetItem env db k) w = (r, w')"
  shows "db_items (wd_db w') = db_items (wd_db w)" "wd_trace w' = wd_trace w"
    "r = Inr i \<Longrightarrow> row (db_items (wd_db w)) (TrimSpace k) = Some i"
  using assms by (auto simp: onDB_eq GetItem_def getRow_def nextOp_def Let_def split: if_splits option.splits)

text \<open>What a write of an item may change: the row under its id, and only that.\<close>

definition touches :: "string \<Rightarrow> RuntimeDB \<Rightarrow> RuntimeDB \<Rightarrow> bool" where
  "touches k db db' \<longleftrightarrow> (\<forall>x. x \<noteq> k \<longrightarrow> row (db_items db') x = row (db_items db) x) \<and>
     (row (db_items db') k = row (db_items db) k \<or> (\<exists>i. row (db_items db') k = Some i \<and> it_ID i = k))"

lemma touches_trans: "touches k a b \<Longrightarrow> touches k b c \<Longrightarrow> touches k a c"
  unfolding touches_def by metis

lemma touches_same: "db_items db' = db_items db \<Longrightarrow> touches k db db'"
  by (simp add: touches_def)

lemma PutItem_touches:
  assumes "onDB (\<lambda>db. PutItem env db i) w = (r, w')"
  shows "touches (it_ID i) (wd_db w) (wd_db w')"
  using assms
  by (auto simp: touches_def onDB_eq PutItem_def nextOp_def row_upsert split: option.splits if_splits)

lemma PutTurn_items:
  assumes "onDB (\<lambda>db. PutTurn env db t) w = (r, w')"
  shows "db_items (wd_db w') = db_items (wd_db w)"
  using assms by (auto simp: onDB_eq PutTurn_def nextOp_def split: option.splits if_splits)

lemma onDB_trace_eq: "onDB f w = (r, w') \<Longrightarrow> wd_trace w' = wd_trace w"
  using onDB_trace [of f w] by simp

text \<open>The dispatch touches the item only, sends at most one answer, and on success the item is answered.\<close>

lemma dispatchApproval_spec:
  assumes d: "dispatchApproval env w turn item respond response = (res, w')"
  shows "touches (it_ID item) (wd_db w) (wd_db w')"
    and "wd_trace w' = wd_trace w \<or> wd_trace w' = wd_trace w @ [ApprovalSent response]"
    and "res = None \<Longrightarrow> answered (wd_db w') (it_ID item) \<and> wd_trace w' = wd_trace w @ [ApprovalSent response] \<and>
      (\<exists>t. row (db_turns (wd_db w')) (tu_ID turn) = Some t \<and> tu_Status t = TurnStatusRunning)"
proof -
  obtain now w1 where w1: "clockNow env w = (now, w1)" by fastforce
  define inflight where "inflight = item\<lparr>it_Status := ItemStatusRunning, it_UpdatedAt := now\<rparr>"
  obtain r2 w2 where w2: "onDB (\<lambda>db. PutItem env db inflight) w1 = (r2, w2)" by fastforce
  define w3 where "w3 = act (ApprovalSent response) w2"
  obtain t w4 where w4: "clockNow env w3 = (t, w4)" by fastforce
  define failed where "failed = item\<lparr>it_UpdatedAt := t\<rparr>"
  define final where "final = inflight\<lparr>it_Status := (if ar_Decision response = ApprovalDecisionApproved
              then ItemStatusCompleted else ItemStatusCancelled), it_UpdatedAt := t\<rparr>"
  obtain rf wf where wf: "onDB (\<lambda>db. PutItem env db failed) w4 = (rf, wf)" by fastforce
  obtain r5 w5 where w5: "onDB (\<lambda>db. PutItem env db final) w4 = (r5, w5)" by fastforce
  obtain u w6 where w6: "clockNow env w5 = (u, w6)" by fastforce
  define resumed where "resumed = turn\<lparr>tu_Status := TurnStatusRunning, tu_UpdatedAt := u\<rparr>"
  obtain r7 w7 where w7: "onDB (\<lambda>db. PutTurn env db resumed) w6 = (r7, w7)" by fastforce
  have eq: "dispatchApproval env w turn item respond response =
    (case r2 of Some e \<Rightarrow> (Some (ErrStore e), w2)
     | None \<Rightarrow> (case respond response of Some e \<Rightarrow> (Some (ErrProvider e), wf)
     | None \<Rightarrow> (case r5 of Some e \<Rightarrow> (Some (ErrStore e), w5)
     | None \<Rightarrow> if \<not> CanTransitionTurnStatus (tu_Status turn) TurnStatusRunning
        then (Some (InvalidTransition (tu_Status turn) TurnStatusRunning), w5)
        else (case r7 of Some e \<Rightarrow> (Some (ErrStore e), w7) | None \<Rightarrow> (None, w7)))))"
    unfolding dispatchApproval_def Let_def w1 prod.case inflight_def [symmetric] w2 w3_def [symmetric] w4
      failed_def [symmetric] final_def [symmetric] wf w5 w6 resumed_def [symmetric] w7
    by (rule refl)
  have ids: "it_ID inflight = it_ID item" "it_ID failed = it_ID item" "it_ID final = it_ID item" "tu_ID resumed = tu_ID turn"
    by (simp_all add: inflight_def failed_def final_def resumed_def)
  have clk: "wd_db w1 = wd_db w" "wd_trace w1 = wd_trace w" "wd_db w4 = wd_db w3" "wd_trace w4 = wd_trace w3"
    "wd_db w6 = wd_db w5" "wd_trace w6 = wd_trace w5"
    using clockNow_simps [of env w] clockNow_simps [of env w3] clockNow_simps [of env w5] by (simp_all add: w1 w4 w6)
  have w3: "wd_db w3 = wd_db w2" "wd_trace w3 = wd_trace w2 @ [ApprovalSent response]"
    by (simp_all add: w3_def)
  have tr: "wd_trace w2 = wd_trace w" "wd_trace wf = wd_trace w3" "wd_trace w5 = wd_trace w3" "wd_trace w7 = wd_trace w3"
    using onDB_trace_eq [OF w2] onDB_trace_eq [OF wf] onDB_trace_eq [OF w5] onDB_trace_eq [OF w7] clk by simp_all
  have t2: "touches (it_ID item) (wd_db w) (wd_db w2)" using PutItem_touches [OF w2] by (simp add: ids clk)
  have tf: "touches (it_ID item) (wd_db w) (wd_db wf)"
    using touches_trans [OF t2] PutItem_touches [OF wf] by (simp add: ids clk w3)
  have t5: "touches (it_ID item) (wd_db w) (wd_db w5)"
    using touches_trans [OF t2] PutItem_touches [OF w5] by (simp add: ids clk w3)
  have t7: "touches (it_ID item) (wd_db w) (wd_db w7)"
    using touches_trans [OF t5] touches_same PutTurn_items [OF w7] by (simp add: clk)
  show "touches (it_ID item) (wd_db w) (wd_db w')"
    using d [unfolded eq] t2 tf t5 t7 by (simp split: option.splits if_splits)
  show "wd_trace w' = wd_trace w \<or> wd_trace w' = wd_trace w @ [ApprovalSent response]"
    using d [unfolded eq] tr w3 by (simp split: option.splits if_splits)
  assume "res = None"
  then have n: "r5 = None" "r7 = None" "w' = w7"
    using d [unfolded eq] by (simp_all split: option.splits if_splits)
  have "row (db_items (wd_db w7)) (it_ID item) = Some final"
    using onDB_PutItem(1) [of env final w4 w5 "it_ID item"] w5 n PutTurn_items [OF w7] by (simp add: ids clk)
  moreover have "it_Status final \<in> {ItemStatusCompleted, ItemStatusCancelled}" by (simp add: final_def)
  ultimately have "answered (wd_db w') (it_ID item)" using n unfolding answered_def by blast
  moreover have "row (db_turns (wd_db w7)) (tu_ID turn) = Some resumed"
    using onDB_PutTurn(1) [of env resumed w6 w7 "tu_ID turn"] w7 n by (simp add: ids)
  moreover have "tu_Status resumed = TurnStatusRunning" by (simp add: resumed_def)
  moreover have "wd_trace w' = wd_trace w @ [ApprovalSent response]" using n tr w3 by simp
  ultimately show "answered (wd_db w') (it_ID item) \<and> wd_trace w' = wd_trace w @ [ApprovalSent response] \<and>
      (\<exists>t. row (db_turns (wd_db w')) (tu_ID turn) = Some t \<and> tu_Status t = TurnStatusRunning)"
    using n by blast
qed

text \<open>An answer is either handled without any effect on the items, or dispatched for a pending item.\<close>

lemma RespondApproval_cases:
  assumes r: "RespondApproval ulower env manager w response = (res, w')"
  obtains (quiet) "db_items (wd_db w') = db_items (wd_db w)" "wd_trace w' = wd_trace w"
      "res = None \<Longrightarrow> answered (wd_db w) (TrimSpace (ar_ItemID response))"
  | (dispatched) w3 turn item respond where
      "db_items (wd_db w3) = db_items (wd_db w)" "wd_trace w3 = wd_trace w"
      "row (db_items (wd_db w)) (TrimSpace (ar_ItemID response)) = Some item" "it_Status item = ItemStatusPending"
      "dispatchApproval env w3 turn item respond response = (res, w')"
proof (cases manager)
  case None
  with r show thesis by (intro quiet) (simp_all add: RespondApproval_def)
next
  case m: (Some m)
  obtain r1 w1 where 1: "onDB (\<lambda>db. GetThread env db (ar_ThreadID response)) w = (r1, w1)" by fastforce
  obtain r2 w2 where 2: "onDB (\<lambda>db. GetTurn env db (ar_TurnID response)) w1 = (r2, w2)" by fastforce
  obtain r3 w3 where 3: "onDB (\<lambda>db. GetItem env db (ar_ItemID response)) w2 = (r3, w3)" by fastforce
  have f1: "db_items (wd_db w1) = db_items (wd_db w)" "wd_trace w1 = wd_trace w" by (rule GetThread_frame [OF 1])+
  have f2: "db_items (wd_db w2) = db_items (wd_db w)" "wd_trace w2 = wd_trace w"
    using GetTurn_frame [OF 2] f1 by simp_all
  have f3: "db_items (wd_db w3) = db_items (wd_db w)" "wd_trace w3 = wd_trace w"
    using GetItem_frame(1,2) [OF 3] f2 by simp_all
  note r' = r [unfolded RespondApproval_def m option.case 1 prod.case 2 3]
  have q: thesis if "w' = w \<or> w' = w1 \<or> w' = w2 \<or> w' = w3"
    "res = None \<Longrightarrow> answered (wd_db w) (TrimSpace (ar_ItemID response))"
    using that f1 f2 f3 by (intro quiet) auto
  show thesis
  proof (cases "(w' = w \<or> w' = w1 \<or> w' = w2 \<or> w' = w3) \<and> res \<noteq> None")
    case True
    then show thesis by (intro q) simp_all
  next
    case no: False
    obtain thread where t: "r1 = Inr thread" using r' no by (cases r1) (auto split: if_splits)
    obtain turn where u: "r2 = Inr turn" using r' no t by (cases r2) (auto split: if_splits)
    obtain item where i: "r3 = Inr item" using r' no t u by (cases r3) (auto split: if_splits)
    have row: "row (db_items (wd_db w)) (TrimSpace (ar_ItemID response)) = Some item"
      using GetItem_frame(3) [OF 3 i] f2 by simp
    note r'' = r' [unfolded t u i sum.case]
    show thesis
    proof (cases "it_Status item = ItemStatusCompleted \<or> it_Status item = ItemStatusCancelled")
      case True
      then have a: "answered (wd_db w) (TrimSpace (ar_ItemID response))" using row by (auto simp: answered_def)
      have "w' = w \<or> w' = w3" using r'' no True by (auto split: if_splits)
      then show thesis using a by (intro q) auto
    next
      case False
      have p: "it_Status item = ItemStatusPending" using r'' no False by (auto split: if_splits)
      have "\<exists>respond. dispatchApproval env w3 turn item respond response = (res, w')"
        using r'' no False by (auto split: if_splits sum.splits option.splits)
      then obtain respond where "dispatchApproval env w3 turn item respond response = (res, w')" by blast
      then show thesis by (rule dispatched [OF f3 row p])
    qed
  qed
qed

lemma RespondApproval_keyed:
  assumes "RespondApproval ulower env manager w response = (res, w')" and "itemsKeyed (wd_db w)"
  shows "itemsKeyed (wd_db w')"
  using assms(1)
proof (cases rule: RespondApproval_cases)
  case quiet
  then show ?thesis using assms(2) by (simp add: itemsKeyed_def)
next
  case (dispatched w3 turn item respond)
  have "touches (it_ID item) (wd_db w) (wd_db w')"
    using dispatchApproval_spec(1) [OF dispatched(5)] dispatched(1) by (simp add: touches_def)
  then show ?thesis using assms(2) unfolding touches_def itemsKeyed_def by (metis option.inject)
qed

text \<open>An answered item stays answered, and no further answer is sent for it.\<close>

lemma RespondApproval_answered:
  assumes "RespondApproval ulower env manager w response = (res, w')" and "itemsKeyed (wd_db w)"
    and "answered (wd_db w) x"
  shows "answered (wd_db w') x" and "sends x (wd_trace w') = sends x (wd_trace w)"
proof -
  have "answered (wd_db w') x \<and> sends x (wd_trace w') = sends x (wd_trace w)"
    using assms(1)
  proof (cases rule: RespondApproval_cases)
    case quiet
    then show ?thesis using assms(3) by (simp add: answered_def)
  next
    case (dispatched w3 turn item respond)
    have key: "it_ID item = TrimSpace (ar_ItemID response)" using assms(2) dispatched(3) by (simp add: itemsKeyed_def)
    have x: "x \<noteq> TrimSpace (ar_ItemID response)" using assms(3) dispatched(3,4) by (auto simp: answered_def)
    have "row (db_items (wd_db w')) x = row (db_items (wd_db w)) x"
      using dispatchApproval_spec(1) [OF dispatched(5)] x dispatched(1) by (simp add: touches_def key)
    moreover have "sends x (wd_trace w') = sends x (wd_trace w)"
      using dispatchApproval_spec(2) [OF dispatched(5)] dispatched(2) x by auto
    ultimately show ?thesis using assms(3) by (simp add: answered_def)
  qed
  then show "answered (wd_db w') x" "sends x (wd_trace w') = sends x (wd_trace w)" by simp_all
qed

lemma RespondApproval_None:
  assumes "RespondApproval ulower env manager w response = (None, w')" and "itemsKeyed (wd_db w)"
  shows "answered (wd_db w') (TrimSpace (ar_ItemID response))"
  using assms(1)
proof (cases rule: RespondApproval_cases)
  case quiet
  then show ?thesis by (simp add: answered_def)
next
  case (dispatched w3 turn item respond)
  then show ?thesis
    using dispatchApproval_spec(3) [OF dispatched(5)] assms(2) by (simp add: itemsKeyed_def)
qed

fun respondAll ::
    "(string \<Rightarrow> string) \<Rightarrow> Env \<Rightarrow> Manager option \<Rightarrow> World \<Rightarrow> ApprovalResponse list \<Rightarrow> World" where
  "respondAll ulower env manager w [] = w"
| "respondAll ulower env manager w (r # rs) =
     respondAll ulower env manager (snd (RespondApproval ulower env manager w r)) rs"

lemma respondAll_answered:
  assumes "itemsKeyed (wd_db w)" and "answered (wd_db w) x"
  shows "answered (wd_db (respondAll ulower env manager w rs)) x \<and>
    sends x (wd_trace (respondAll ulower env manager w rs)) = sends x (wd_trace w)"
  using assms
proof (induction rs arbitrary: w)
  case Nil
  then show ?case by simp
next
  case (Cons r rs)
  obtain res w' where r: "RespondApproval ulower env manager w r = (res, w')" by fastforce
  have "itemsKeyed (wd_db w')" by (rule RespondApproval_keyed [OF r Cons.prems(1)])
  moreover note RespondApproval_answered [OF r Cons.prems]
  ultimately show ?case using Cons.IH [of w'] by (simp add: r)
qed


definition paused_world :: World where
  "paused_world = \<lparr>wd_db = \<lparr>db_threads = [(''th'', 0, sample_thread ''th'')],
      db_turns = [(''u'', 0, sample_turn ''u'' TurnStatusPausedApproval)],
      db_items = [(''i'', 0, sample_item ItemStatusPending)], db_ops = 0\<rparr>, wd_ticks = 0, wd_trace = []\<rparr>"

definition sample_answer :: ApprovalResponse where
  "sample_answer = \<lparr>ar_ThreadID = ''th'', ar_TurnID = ''u'', ar_ItemID = ''i'', ar_Decision = ApprovalDecisionApproved, ar_Note = []\<rparr>"


definition stuck_env :: Env where
  "stuck_env = good_env\<lparr>env_fails := \<lambda>n. n = 5\<rparr>"

text \<open>
  The item is marked answered before the turn is resumed.  When the write of the turn fails the
  caller gets an error, but answering again succeeds without doing anything: the turn stays paused
  for an approval that is no longer pending.
\<close>

theorem approval_stuck:
  "let (r1, w1) = RespondApproval (\<lambda>s. s) stuck_env (Some sample_manager) paused_world sample_answer;
       (r2, w2) = RespondApproval (\<lambda>s. s) stuck_env (Some sample_manager) w1 sample_answer
   in r1 = Some (ErrStore (StoreFailed ''u'')) \<and> r2 = None \<and> wd_trace w2 = [ApprovalSent sample_answer] \<and>
      map_option tu_Status (row (db_turns (wd_db w2)) ''u'') = Some TurnStatusPausedApproval \<and>
      map_option it_Status (row (db_items (wd_db w2)) ''i'') = Some ItemStatusCompleted"
  by code_simp

definition revived_run :: "EventType \<Rightarrow> (Event \<times> bool) list" where
  "revived_run final_type =
     [(sample_event EventTypeTurnStarted noStatus None, True),
      (sample_event EventTypeTurnCompleted TurnStatusCompleted None, True),
      (sample_event final_type TurnStatusRunning (Some (sample_item ItemStatusPending)), True)]"

text \<open>
  Events on items may change the status of the turn only along the allowed transitions, but
  events on the turn itself are not checked: a completed turn can be set running again, and keeps
  its completion time.
\<close>

theorem completed_turn_revived:
  "fst (recordRun good_env sample_manager (sample_thread ''th'') None (revived_run EventTypeItemStarted) sample_world)
     = Some (InvalidTransition TurnStatusCompleted TurnStatusRunning) \<and>
   (let (r, w) = recordRun good_env sample_manager (sample_thread ''th'') None (revived_run EventTypeTurnStatus) sample_world
    in r = None \<and> map_option tu_Status (row (db_turns (wd_db w)) ''u'') = Some TurnStatusRunning \<and>
       map_option tu_CompletedAt (row (db_turns (wd_db w)) ''u'') = Some (Some 5))"
  by code_simp

end
