(* ===== verification/Readiness.thy ===== *)
theory Readiness
  imports GoText "HOL-Library.Multiset"
begin

text \<open>
  Readiness of a repository and of a task for autonomous work (\<open>packages/readiness/readiness.go\<close>,
  \<open>task.go\<close>).

  A repository is the tree that \<open>fs.WalkDir\<close> walks: each directory lists its entries in the order of
  the walk.  The contents of files are a function that may fail, and the scripts of a \<open>package.json\<close>
  are what \<open>encoding/json\<close> decodes from it, a parameter.  The inventory is a Go map: the list of its
  keys in the order of one iteration.
\<close>

section \<open>Reports\<close>

datatype ReadyStatus = StatusReady | StatusAttention | StatusBlocked | ReadyStatusOther string

record Check =
  ck_ID :: string
  ck_Title :: string
  ck_Status :: ReadyStatus
  ck_Critical :: bool
  ck_Evidence :: "string list"
  ck_Recommendation :: string

record Report =
  rp_Status :: ReadyStatus
  rp_Checks :: "Check list"

definition newCheck :: "string \<Rightarrow> string \<Rightarrow> bool \<Rightarrow> Check" where
  "newCheck cid title critical =
     \<lparr>ck_ID = cid, ck_Title = title, ck_Status = ReadyStatusOther [], ck_Critical = critical, ck_Evidence = [],
      ck_Recommendation = []\<rparr>"

definition recommend :: "Check \<Rightarrow> ReadyStatus \<Rightarrow> string \<Rightarrow> Check" where
  "recommend check status advice = check\<lparr>ck_Status := status, ck_Recommendation := advice\<rparr>"

text \<open>The loop over the checks stops at the first critical one that is blocked.\<close>

fun summaryLoop :: "ReadyStatus \<Rightarrow> Check list \<Rightarrow> ReadyStatus" where
  "summaryLoop status [] = status"
| "summaryLoop status (check # checks) =
     (if ck_Critical check \<and> ck_Status check = StatusBlocked then StatusBlocked
      else summaryLoop (if ck_Status check \<noteq> StatusReady then StatusAttention else status) checks)"

definition summarize :: "Check list \<Rightarrow> Report" where
  "summarize checks = \<lparr>rp_Status = summaryLoop StatusReady checks, rp_Checks = checks\<rparr>"

section \<open>The inventory\<close>

datatype Entry = FileEntry string | DirEntry string "Entry list"

fun skippedDir :: "string \<Rightarrow> bool" where
  "skippedDir base = (base \<in> {''.git'', ''node_modules'', ''vendor'', ''.next'', ''dist''})"

text \<open>Names of entries are relative to the directory that lists them; the root is \<open>.\<close>.\<close>

definition underDir :: "string \<Rightarrow> string \<Rightarrow> string" where
  "underDir dir name = (if dir = ''.'' then name else dir @ ''/'' @ name)"

fun walkEntry :: "string \<Rightarrow> Entry \<Rightarrow> string list" and walkEntries :: "string \<Rightarrow> Entry list \<Rightarrow> string list" where
  "walkEntry dir (FileEntry name) = [path_Clean (underDir dir name)]"
| "walkEntry dir (DirEntry name entries) =
     (if skippedDir (path_Base (underDir dir name)) then [] else walkEntries (underDir dir name) entries)"
| "walkEntries dir [] = []"
| "walkEntries dir (e # es) = walkEntry dir e @ walkEntries dir es"

definition inv_has :: "string list \<Rightarrow> string \<Rightarrow> bool" where
  "inv_has files name \<longleftrightarrow> path_Clean name \<in> set files"

definition matchBase :: "string list \<Rightarrow> string list \<Rightarrow> string list" where
  "matchBase files names = sort (filter (\<lambda>name. path_Base name \<in> set names) files)"

definition uniqueSorted :: "string list \<Rightarrow> string list" where
  "uniqueSorted values = sort (remdups (filter (\<lambda>v. v \<noteq> []) values))"

definition nonEmpty :: "string list \<Rightarrow> string list" where
  "nonEmpty values = filter (\<lambda>v. v \<noteq> []) (map TrimSpace values)"

section \<open>Checks of a repository\<close>

definition dependencyCheck :: "string list \<Rightarrow> Check" where
  "dependencyCheck files =
     (let check = newCheck ''dependencies'' ''Dependency reproducibility'' True;
          manifests = matchBase files [''package.json'', ''go.mod'', ''Cargo.toml'', ''pyproject.toml'', ''requirements.txt'', ''Pipfile''];
          nodeLocks = matchBase files [''pnpm-lock.yaml'', ''package-lock.json'', ''npm-shrinkwrap.json'', ''yarn.lock'', ''bun.lock'', ''bun.lockb''];
          cargoLocks = matchBase files [''Cargo.lock''];
          pythonLocks = matchBase files [''uv.lock'', ''poetry.lock'', ''Pipfile.lock''];
          node = matchBase files [''package.json''] \<noteq> [];
          cargo = matchBase files [''Cargo.toml''] \<noteq> [];
          python = matchBase files [''pyproject.toml'', ''Pipfile''] \<noteq> [];
          go = matchBase files [''go.mod''] \<noteq> []
      in if manifests = [] then recommend check StatusAttention ''Declare dependency metadata so agent workspaces can be reproduced.''
         else if node \<and> nodeLocks = []
         then (recommend check StatusBlocked ''Commit a Node package-manager lockfile before autonomous execution.'')
                \<lparr>ck_Evidence := manifests\<rparr>
         else (let check1 = check\<lparr>ck_Evidence := uniqueSorted (manifests @ (if node then nodeLocks else []) @
                     (if cargo then cargoLocks else []) @ (if python then pythonLocks else []) @
                     (if go then matchBase files [''go.sum''] else []))\<rparr>
               in if (cargo \<and> cargoLocks = []) \<or> (python \<and> pythonLocks = [])
                  then recommend check1 StatusAttention ''Commit ecosystem lockfiles where the repository is an executable application.''
                  else check1\<lparr>ck_Status := StatusReady\<rparr>))"

text \<open>The targets a Makefile defines: the words before the first colon of a line that is not a recipe.\<close>

definition lineTargets :: "string \<Rightarrow> string list" where
  "lineTargets line =
     (if line = [] \<or> hd line = CHR 0x09 \<or> HasPrefix (TrimSpace line) ''#'' then []
      else if CHR '':'' \<notin> set line \<or> hd line = CHR '':'' then []
      else Fields (takeWhile (\<lambda>c. c \<noteq> CHR '':'') line))"

definition makeTargets :: "string \<Rightarrow> string list" where
  "makeTargets content = concat (map lineTargets (split_on CHR 0x0A content))"

definition buildTargets :: "string list" where
  "buildTargets = [''test'', ''lint'', ''typecheck'', ''build'']"

definition containsCommand :: "string list \<Rightarrow> string \<Rightarrow> bool" where
  "containsCommand commands token =
     list_ex (\<lambda>command. Contains command ('' '' @ token) \<or> HasSuffix command token) commands"

definition makeCommands :: "(string \<Rightarrow> string option) \<Rightarrow> string \<Rightarrow> string list" where
  "makeCommands readFile makefile =
     (case readFile makefile of
        None \<Rightarrow> []
      | Some text \<Rightarrow> map (\<lambda>t. ''make '' @ t) (filter (\<lambda>t. t \<in> set (makeTargets text)) buildTargets))"

definition packageCommands ::
    "(string \<Rightarrow> (string \<Rightarrow> string) option) \<Rightarrow> (string \<Rightarrow> string option) \<Rightarrow> string \<Rightarrow> string list" where
  "packageCommands scripts readFile packageFile =
     (case Option.bind (readFile packageFile) scripts of
        None \<Rightarrow> []
      | Some script \<Rightarrow>
        (let dir = path_Dir packageFile; pre = (if dir \<noteq> ''.'' then dir @ '': '' else [])
         in map (\<lambda>t. pre @ ''npm run '' @ t) (filter (\<lambda>t. TrimSpace (script t) \<noteq> []) buildTargets)))"

definition verificationCheck ::
    "(string \<Rightarrow> (string \<Rightarrow> string) option) \<Rightarrow> (string \<Rightarrow> string option) \<Rightarrow> string list \<Rightarrow> Check" where
  "verificationCheck scripts readFile files =
     (let check = newCheck ''verification'' ''Deterministic verification'' True;
          commands = uniqueSorted (concat (map (makeCommands readFile) (matchBase files [''Makefile''])) @
            concat (map (packageCommands scripts readFile) (matchBase files [''package.json''])));
          check1 = check\<lparr>ck_Evidence := commands\<rparr>
      in if \<not> containsCommand commands ''test''
         then recommend check1 StatusBlocked
           ''Expose a deterministic test command through the repository build interface or package scripts.''
         else if \<not> (containsCommand commands ''lint'' \<or> containsCommand commands ''typecheck'' \<or> containsCommand commands ''build'')
         then recommend check1 StatusAttention ''Add lint, typecheck, or build verification in addition to tests.''
         else check1\<lparr>ck_Status := StatusReady\<rparr>)"

definition environmentCheck :: "(string \<Rightarrow> string option) \<Rightarrow> string list \<Rightarrow> Check" where
  "environmentCheck readFile files =
     (let check = newCheck ''environment'' ''Environment reproducibility'' False;
          evidence = uniqueSorted (matchBase files [''Dockerfile'', ''docker-compose.yml'', ''docker-compose.yaml'', ''compose.yml'',
              ''compose.yaml'', ''flake.nix'', ''mise.toml'', ''.tool-versions'', ''devcontainer.json''] @
            (if inv_has files ''.devcontainer/devcontainer.json'' then [''.devcontainer/devcontainer.json''] else []) @
            (if inv_has files ''go.work'' then
               (case readFile ''go.work'' of
                  Some text \<Rightarrow> if Contains text ''toolchain '' then [''go.work toolchain''] else []
                | None \<Rightarrow> [])
             else []));
          check1 = check\<lparr>ck_Evidence := evidence\<rparr>
      in if evidence = []
         then recommend check1 StatusAttention ''Pin the development/runtime environment with a container, toolchain file, or equivalent.''
         else check1\<lparr>ck_Status := StatusReady\<rparr>)"

definition ciFile :: "string \<Rightarrow> bool" where
  "ciFile name \<longleftrightarrow>
     (HasPrefix name ''.github/workflows/'' \<and> (HasSuffix name ''.yml'' \<or> HasSuffix name ''.yaml'')) \<or>
     name \<in> {''.woodpecker.yml'', ''.woodpecker.yaml'', ''.gitlab-ci.yml'', ''Jenkinsfile'', ''.circleci/config.yml''}"

definition ciCheck :: "string list \<Rightarrow> Check" where
  "ciCheck files =
     (let check1 = (newCheck ''ci'' ''Continuous integration'' False)\<lparr>ck_Evidence := uniqueSorted (filter ciFile files)\<rparr>
      in if ck_Evidence check1 = []
         then recommend check1 StatusAttention ''Add CI that reruns the same deterministic verification used by agents.''
         else check1\<lparr>ck_Status := StatusReady\<rparr>)"

definition ownershipCheck :: "string list \<Rightarrow> Check" where
  "ownershipCheck files =
     (let check1 = (newCheck ''ownership'' ''Code ownership boundaries'' False)\<lparr>ck_Evidence := matchBase files [''CODEOWNERS'']\<rparr>
      in if ck_Evidence check1 = []
         then recommend check1 StatusAttention ''Add CODEOWNERS or another explicit ownership map for approval routing.''
         else check1\<lparr>ck_Status := StatusReady\<rparr>)"

definition documentationCheck :: "string list \<Rightarrow> Check" where
  "documentationCheck files =
     (let check1 = (newCheck ''documentation'' ''Repository documentation'' False)
            \<lparr>ck_Evidence := matchBase files [''README.md'', ''CONTRIBUTING.md'']\<rparr>
      in if matchBase files [''README.md''] \<noteq> [] \<and> matchBase files [''CONTRIBUTING.md''] \<noteq> []
         then check1\<lparr>ck_Status := StatusReady\<rparr>
         else recommend check1 StatusAttention ''Document repository setup and contribution/verification conventions.'')"

definition agentGuidanceCheck :: "string list \<Rightarrow> Check" where
  "agentGuidanceCheck files =
     (let check1 = (newCheck ''agent_guidance'' ''Agent guidance'' False)
            \<lparr>ck_Evidence := matchBase files [''AGENTS.md'', ''CLAUDE.md'']\<rparr>
      in if ck_Evidence check1 = []
         then recommend check1 StatusAttention ''Add concise agent instructions for repository-specific constraints and verification.''
         else check1\<lparr>ck_Status := StatusReady\<rparr>)"

text \<open>
  A walk that fails gives an error.  Otherwise the inventory is some iteration order of the files of
  the walk, given by \<open>order\<close>.
\<close>

definition Inspect ::
    "(string \<Rightarrow> (string \<Rightarrow> string) option) \<Rightarrow> (string list \<Rightarrow> string list) \<Rightarrow> (string \<Rightarrow> string option) \<Rightarrow>
     string + Entry list \<Rightarrow> string + Report" where
  "Inspect scripts order readFile repo =
     (case repo of
        Inl e \<Rightarrow> Inl e
      | Inr entries \<Rightarrow>
        (let files = order (remdups (walkEntries ''.'' entries))
         in Inr (summarize
              [dependencyCheck files, verificationCheck scripts readFile files, environmentCheck readFile files, ciCheck files,
               ownershipCheck files, documentationCheck files, agentGuidanceCheck files])))"

section \<open>Checks of a task\<close>

definition AdmissionPolicyVersion :: string where
  "AdmissionPolicyVersion = ''task-readiness-v1''"

record TaskAssessmentInput =
  ta_HasSpec :: bool
  ta_ImplementationPlan :: "string list"
  ta_FilesToChange :: "string list"
  ta_FilesToCreate :: "string list"
  ta_AcceptanceCriteria :: "string list"
  ta_TestPlan :: string
  ta_RiskLevel :: string
  ta_RollbackPlan :: string
  ta_RequiredApprovals :: "string list"
  ta_TestCommand :: string
  ta_LintCommand :: string
  ta_TypecheckCommand :: string
  ta_BuildCommand :: string

definition taskSpecCheck :: "TaskAssessmentInput \<Rightarrow> Check" where
  "taskSpecCheck input =
     (let check = newCheck ''spec'' ''Task specification'' True
      in if \<not> ta_HasSpec input
         then recommend check StatusBlocked ''Generate and review a task specification before autonomous execution.''
         else check\<lparr>ck_Status := StatusReady\<rparr>)"

definition taskPlanCheck :: "TaskAssessmentInput \<Rightarrow> Check" where
  "taskPlanCheck input =
     (let check = newCheck ''plan'' ''Implementation plan'' False; steps = nonEmpty (ta_ImplementationPlan input)
      in if steps = []
         then recommend check StatusAttention ''Add an implementation plan so execution can be decomposed and reviewed.''
         else check\<lparr>ck_Status := StatusReady, ck_Evidence := steps\<rparr>)"

definition taskScopeCheck :: "TaskAssessmentInput \<Rightarrow> Check" where
  "taskScopeCheck input =
     (let check = newCheck ''scope'' ''Bounded file scope'' False;
          files = uniqueSorted (nonEmpty (ta_FilesToChange input) @ nonEmpty (ta_FilesToCreate input))
      in if files = []
         then recommend check StatusAttention
           ''Identify expected files or ownership boundaries before scheduling parallel autonomous work.''
         else check\<lparr>ck_Status := StatusReady, ck_Evidence := files\<rparr>)"

definition taskAcceptanceCheck :: "TaskAssessmentInput \<Rightarrow> Check" where
  "taskAcceptanceCheck input =
     (let check = newCheck ''acceptance'' ''Acceptance criteria'' True; criteria = nonEmpty (ta_AcceptanceCriteria input)
      in if criteria = []
         then recommend check StatusBlocked ''Define observable acceptance criteria before autonomous execution.''
         else check\<lparr>ck_Status := StatusReady, ck_Evidence := criteria\<rparr>)"

definition taskVerificationCheck :: "TaskAssessmentInput \<Rightarrow> Check" where
  "taskVerificationCheck input =
     (let check = newCheck ''verification'' ''Task verification'' True;
          plan = TrimSpace (ta_TestPlan input); command = TrimSpace (ta_TestCommand input)
      in if plan \<noteq> [] then check\<lparr>ck_Status := StatusReady, ck_Evidence := [''task test plan: '' @ plan]\<rparr>
         else if command \<noteq> [] then check\<lparr>ck_Status := StatusReady, ck_Evidence := [''repository test command: '' @ command]\<rparr>
         else recommend check StatusBlocked ''Define a task test plan or configure a detected repository test command.'')"

definition taskRiskCheck :: "(string \<Rightarrow> string) \<Rightarrow> TaskAssessmentInput \<Rightarrow> Check" where
  "taskRiskCheck ulower input =
     (let check = newCheck ''risk_controls'' ''Risk controls'' True;
          risk = ToLower ulower (TrimSpace (ta_RiskLevel input));
          approvals = nonEmpty (ta_RequiredApprovals input);
          rollback = TrimSpace (ta_RollbackPlan input);
          evidence = approvals @ (if rollback \<noteq> [] then [''rollback plan defined''] else [])
      in if risk = ''critical'' \<and> approvals = []
         then recommend check StatusBlocked ''Critical-risk tasks require an explicit human approval requirement.''
         else if (risk = ''high'' \<or> risk = ''critical'') \<and> (approvals = [] \<or> rollback = [])
         then (recommend check StatusAttention ''High-risk tasks should define both approval requirements and a rollback plan.'')
                \<lparr>ck_Evidence := evidence\<rparr>
         else check\<lparr>ck_Status := StatusReady, ck_Evidence := evidence\<rparr>)"

definition AssessTask :: "(string \<Rightarrow> string) \<Rightarrow> TaskAssessmentInput \<Rightarrow> Report" where
  "AssessTask ulower input =
     summarize [taskSpecCheck input, taskPlanCheck input, taskScopeCheck input, taskAcceptanceCheck input,
       taskVerificationCheck input, taskRiskCheck ulower input]"

section \<open>Facts\<close>

lemma summaryLoop_spec:
  "status \<in> {StatusReady, StatusAttention} \<Longrightarrow> summaryLoop status checks =
     (if list_ex (\<lambda>c. ck_Critical c \<and> ck_Status c = StatusBlocked) checks then StatusBlocked
      else if list_all (\<lambda>c. ck_Status c = StatusReady) checks then status
      else StatusAttention)"
  by (induction checks arbitrary: status) auto

lemma summarize_spec:
  "rp_Status (summarize checks) =
     (if list_ex (\<lambda>c. ck_Critical c \<and> ck_Status c = StatusBlocked) checks then StatusBlocked
      else if list_all (\<lambda>c. ck_Status c = StatusReady) checks then StatusReady
      else StatusAttention)"
  by (simp add: summarize_def summaryLoop_spec)

lemmas task_check_defs = taskSpecCheck_def taskPlanCheck_def taskScopeCheck_def taskAcceptanceCheck_def
  taskVerificationCheck_def taskRiskCheck_def newCheck_def recommend_def

lemma set_uniqueSorted: "set (uniqueSorted vs) = {v \<in> set vs. v \<noteq> []}"
  by (simp add: uniqueSorted_def)

lemma uniqueSorted_Nil: "uniqueSorted vs = [] \<longleftrightarrow> (\<forall>v \<in> set vs. v = [])"
proof -
  have "uniqueSorted vs = [] \<longleftrightarrow> {v \<in> set vs. v \<noteq> []} = {}"
    unfolding set_uniqueSorted [symmetric] by simp
  then show ?thesis by (simp add: Ball_def)
qed

lemma nonEmpty_Nil: "nonEmpty vs = [] \<longleftrightarrow> list_all blank vs"
  by (induction vs) (auto simp: nonEmpty_def blank_def)

lemma nonEmpty_entries: "v \<in> set (nonEmpty vs) \<Longrightarrow> v \<noteq> []"
  by (auto simp: nonEmpty_def)

lemma nonEmpty_blank: "(\<forall>v \<in> set (nonEmpty vs). v = []) \<longleftrightarrow> nonEmpty vs = []"
proof
  assume "\<forall>v \<in> set (nonEmpty vs). v = []"
  then have "set (nonEmpty vs) = {}" using nonEmpty_entries by (meson ex_in_conv)
  then show "nonEmpty vs = []" by simp
qed simp

lemma scope_Nil: "uniqueSorted (nonEmpty a @ nonEmpty b) = [] \<longleftrightarrow> nonEmpty a = [] \<and> nonEmpty b = []"
  by (simp only: uniqueSorted_Nil set_append ball_Un nonEmpty_blank)

lemma task_check_status:
  "ck_Status (taskSpecCheck input) = (if ta_HasSpec input then StatusReady else StatusBlocked)"
  "ck_Status (taskPlanCheck input) = (if list_all blank (ta_ImplementationPlan input) then StatusAttention else StatusReady)"
  "ck_Status (taskScopeCheck input) =
     (if list_all blank (ta_FilesToChange input) \<and> list_all blank (ta_FilesToCreate input) then StatusAttention else StatusReady)"
  "ck_Status (taskAcceptanceCheck input) = (if list_all blank (ta_AcceptanceCriteria input) then StatusBlocked else StatusReady)"
  "ck_Status (taskVerificationCheck input) =
     (if blank (ta_TestPlan input) \<and> blank (ta_TestCommand input) then StatusBlocked else StatusReady)"
  "ck_Status (taskRiskCheck ulower input) =
     (let risk = ToLower ulower (TrimSpace (ta_RiskLevel input)); approved = \<not> list_all blank (ta_RequiredApprovals input)
      in if risk = ''critical'' \<and> \<not> approved then StatusBlocked
         else if risk \<in> {''high'', ''critical''} \<and> \<not> (approved \<and> \<not> blank (ta_RollbackPlan input)) then StatusAttention
         else StatusReady)"
  unfolding nonEmpty_Nil [symmetric] blank_def
  by (simp_all add: task_check_defs Let_def scope_Nil)

lemma task_check_critical:
  "ck_Critical (taskSpecCheck input)" "\<not> ck_Critical (taskPlanCheck input)" "\<not> ck_Critical (taskScopeCheck input)"
  "ck_Critical (taskAcceptanceCheck input)" "ck_Critical (taskVerificationCheck input)"
  "ck_Critical (taskRiskCheck ulower input)"
  by (simp_all add: task_check_defs Let_def)

text \<open>
  A task is blocked exactly when it has no specification, no acceptance criterion, nothing to
  verify it with, or is of critical risk without a required approval; it is ready exactly when
  besides it has a plan, a file scope and, for high risk, both approvals and a way back.
\<close>

theorem AssessTask_status:
  "rp_Status (AssessTask ulower input) =
     (let risk = ToLower ulower (TrimSpace (ta_RiskLevel input));
          approved = \<not> list_all blank (ta_RequiredApprovals input);
          reversible = \<not> blank (ta_RollbackPlan input);
          specified = (ta_HasSpec input \<and> \<not> list_all blank (ta_AcceptanceCriteria input));
          verifiable = (\<not> (blank (ta_TestPlan input) \<and> blank (ta_TestCommand input)))
      in if \<not> (specified \<and> verifiable) then StatusBlocked
         else if risk = ''critical'' \<and> \<not> approved then StatusBlocked
         else if list_all blank (ta_ImplementationPlan input) \<or>
            (list_all blank (ta_FilesToChange input) \<and> list_all blank (ta_FilesToCreate input)) \<or>
            (risk \<in> {''high'', ''critical''} \<and> \<not> (approved \<and> reversible))
         then StatusAttention
         else StatusReady)"
  by (simp add: AssessTask_def summarize_spec task_check_status task_check_critical Let_def)

section \<open>The order of the inventory does not matter\<close>

lemma matchBase_perm: "mset files = mset files' \<Longrightarrow> matchBase files names = matchBase files' names"
  unfolding matchBase_def by (rule properties_for_sort) (simp_all add: mset_filter)

lemma uniqueSorted_set: "set vs = set vs' \<Longrightarrow> uniqueSorted vs = uniqueSorted vs'"
  unfolding uniqueSorted_def
  by (simp only: sorted_list_of_set_sort_remdups [symmetric] set_filter)

lemma set_perm: "mset files = mset files' \<Longrightarrow> set files = set files'"
  by (rule mset_eq_setD)

lemma checks_perm:
  assumes "mset files = mset files'"
  shows "dependencyCheck files = dependencyCheck files'"
    "verificationCheck scripts readFile files = verificationCheck scripts readFile files'"
    "environmentCheck readFile files = environmentCheck readFile files'"
    "ciCheck files = ciCheck files'"
    "ownershipCheck files = ownershipCheck files'"
    "documentationCheck files = documentationCheck files'"
    "agentGuidanceCheck files = agentGuidanceCheck files'"
proof -
  note m = matchBase_perm [OF assms]
  have h: "inv_has files = inv_has files'" using set_perm [OF assms] by (simp add: inv_has_def fun_eq_iff)
  have c: "uniqueSorted (filter ciFile files) = uniqueSorted (filter ciFile files')"
    by (rule uniqueSorted_set) (simp add: set_perm [OF assms])
  show "dependencyCheck files = dependencyCheck files'" unfolding dependencyCheck_def m ..
  show "verificationCheck scripts readFile files = verificationCheck scripts readFile files'"
    unfolding verificationCheck_def m ..
  show "environmentCheck readFile files = environmentCheck readFile files'"
    unfolding environmentCheck_def m h ..
  show "ciCheck files = ciCheck files'" unfolding ciCheck_def c ..
  show "ownershipCheck files = ownershipCheck files'" unfolding ownershipCheck_def m ..
  show "documentationCheck files = documentationCheck files'" unfolding documentationCheck_def m ..
  show "agentGuidanceCheck files = agentGuidanceCheck files'" unfolding agentGuidanceCheck_def m ..
qed

text \<open>
  The report of a repository does not depend on the order in which Go iterates over the map of
  its files, evidence and recommendations included.
\<close>

theorem Inspect_order:
  assumes "\<And>xs. mset (order1 xs) = mset xs" and "\<And>xs. mset (order2 xs) = mset xs"
  shows "Inspect scripts order1 readFile repo = Inspect scripts order2 readFile repo"
proof (cases repo)
  case (Inr entries)
  let ?files = "remdups (walkEntries ''.'' entries)"
  have "mset (order1 ?files) = mset (order2 ?files)" by (simp add: assms)
  note checks_perm [OF this]
  then show ?thesis unfolding Inspect_def Inr Let_def by simp
qed (simp add: Inspect_def)

definition sample_tree :: "Entry list" where
  "sample_tree = [FileEntry ''README.md'', FileEntry ''go.mod'', FileEntry ''Makefile'',
     DirEntry ''vendor'' [FileEntry ''package.json''], DirEntry ''cmd'' [FileEntry ''go.sum'', FileEntry ''AGENTS.md'']]"

theorem Inspect_order_witness:
  "Inspect (\<lambda>_. None) rev (\<lambda>_. Some ''test:'') (Inr sample_tree) =
   Inspect (\<lambda>_. None) (\<lambda>xs. xs) (\<lambda>_. Some ''test:'') (Inr sample_tree)"
  by (rule Inspect_order) simp_all

lemma sample_inventory:
  "walkEntries ''.'' sample_tree = [''README.md'', ''go.mod'', ''Makefile'', ''cmd/go.sum'', ''cmd/AGENTS.md'']"
  by code_simp

text \<open>
  Two ways a repository without tests passes the verification check: a Makefile that assigns a
  variable named like the target, and a package in a directory whose name has a word that starts with
  the target.
\<close>

theorem verification_fooled:
  "makeTargets ''test := ./unit.sh'' = [''test''] \<and>
   ck_Status (verificationCheck (\<lambda>_. None)
     (\<lambda>_. Some (''test := ./unit.sh'' @ [CHR 0x0A] @ ''build: app'')) [''Makefile'']) = StatusReady \<and>
   ck_Status (verificationCheck (\<lambda>_. Some (\<lambda>t. if t = ''lint'' then ''eslint .'' else []))
     (\<lambda>_. Some ''{}'') [''my testbed/package.json'']) = StatusReady"
proof -
  have "makeTargets ''test := ./unit.sh'' = [''test'']" by code_simp
  moreover have "ck_Status (verificationCheck (\<lambda>_. None)
     (\<lambda>_. Some (''test := ./unit.sh'' @ [CHR 0x0A] @ ''build: app'')) [''Makefile'']) = StatusReady" by code_simp
  moreover have "ck_Status (verificationCheck (\<lambda>_. Some (\<lambda>t. if t = ''lint'' then ''eslint .'' else []))
     (\<lambda>_. Some ''{}'') [''my testbed/package.json'']) = StatusReady" by code_simp
  ultimately show ?thesis by blast
qed

end
