(* ===== verification/Admission.thy ===== *)
theory Admission
  imports Scheduler Readiness
begin

text \<open>
  Admission of runs by the worker (\<open>apps/worker/internal/handlers/scheduler_admission.go\<close>): a run is
  claimed in the data base, checked against its budget and against the runs that are active on the
  same repository by the scheduler, and released when it is refused.

  The tables are lists of rows.  Each SQL statement may fail, and reads the clock at most once: both
  are functions of the number of statements executed.  JSON columns are decoded by parameters.
  Several workers run \<open>AdmitRun\<close> at once: its phases are the atomic steps of a step relation.
\<close>

section \<open>The tables\<close>

record RunRow =
  rn_ID :: string
  rn_TaskID :: string
  rn_Status :: string
  rn_Metadata :: "string option"
  rn_UpdatedAt :: int

record TaskRow =
  tr_ID :: string
  tr_ProjectID :: string
  tr_RepositoryID :: string
  tr_Status :: string
  tr_Metadata :: "string option"
  tr_Deleted :: bool

record SpecRow =
  sp_TaskID :: string
  sp_FilesToChange :: "string option"
  sp_FilesToCreate :: "string option"

record AdmDB =
  ad_runs :: "RunRow list"
  ad_tasks :: "TaskRow list"
  ad_specs :: "SpecRow list"
  ad_ops :: nat

section \<open>Configuration\<close>

record SchedulerCapacity =
  sc_MaxParallel :: int
  sc_CPU :: f64
  sc_MemoryMB :: int

record schedulerConfig =
  cf_Owns :: "string list"
  cf_DependsOn :: "string list"
  cf_CPU :: f64
  cf_MemoryMB :: int

record schedulerTaskRow =
  st_ID :: string
  st_ProjectID :: string
  st_RepositoryID :: string
  st_Status :: string
  st_Metadata :: string
  st_RunMetadata :: string

record RunAdmissionDecision =
  de_Allowed :: bool
  de_Reason :: string
  de_RetryAfter :: int

record SchedulerAdmission =
  sa_capacity :: SchedulerCapacity
  sa_budget :: "(AdmDB \<Rightarrow> string \<Rightarrow> string + bool \<times> string) option"

text \<open>\<open>encoding/json\<close> on the three shapes that are decoded, and what the data base does.\<close>

record AdmEnv =
  ae_fails :: "nat \<Rightarrow> bool"
  ae_clock :: "nat \<Rightarrow> int"
  ae_scheduler :: "string \<Rightarrow> string + schedulerConfig option"
  ae_admission :: "string \<Rightarrow> string + (string \<times> Report) option"
  ae_strings :: "string \<Rightarrow> string + string list"

datatype adm_error =
    LoadCandidate
  | CandidateStatus string string
  | DecodeAdmission string
  | DecodeScheduler string string
  | RequiresOwns string
  | LoadOwnership string
  | DecodeFiles string string
  | LoadDependency string
  | ClaimFailed string
  | ReleaseFailed string
  | BudgetFailed string
  | LoadClaims
  | SchedulerFailed sched_error

definition NewSchedulerAdmission :: "SchedulerCapacity \<Rightarrow> SchedulerAdmission" where
  "NewSchedulerAdmission capacity =
     (let c1 = (if sc_MaxParallel capacity \<le> 0 then capacity\<lparr>sc_MaxParallel := 1\<rparr> else capacity);
          c2 = (if f64_le (sc_CPU c1) f64_zero then c1\<lparr>sc_CPU := f64_of_int 1\<rparr> else c1);
          c3 = (if sc_MemoryMB c2 \<le> 0 then c2\<lparr>sc_MemoryMB := 1024\<rparr> else c2)
      in \<lparr>sa_capacity = c3, sa_budget = None\<rparr>)"

definition WithStartBudget ::
    "SchedulerAdmission option \<Rightarrow> (AdmDB \<Rightarrow> string \<Rightarrow> string + bool \<times> string) option \<Rightarrow> SchedulerAdmission option" where
  "WithStartBudget a budget = map_option (\<lambda>x. x\<lparr>sa_budget := budget\<rparr>) a"

definition schedulerAdmissionClaimTTL :: int where
  "schedulerAdmissionClaimTTL = 10 * 60 * 1000000000"

definition allow :: RunAdmissionDecision where
  "allow = \<lparr>de_Allowed = True, de_Reason = [], de_RetryAfter = 0\<rparr>"

definition refuse :: "string \<Rightarrow> RunAdmissionDecision" where
  "refuse reason = \<lparr>de_Allowed = False, de_Reason = reason, de_RetryAfter = 0\<rparr>"

section \<open>Statements\<close>

text \<open>A statement that fails has no effect and no result.\<close>

definition sqlQuery :: "AdmEnv \<Rightarrow> (AdmDB \<Rightarrow> 'a) \<Rightarrow> AdmDB \<Rightarrow> 'a option \<times> AdmDB" where
  "sqlQuery env f db = (if ae_fails env (ad_ops db) then None else Some (f db), db\<lparr>ad_ops := Suc (ad_ops db)\<rparr>)"

definition sqlUpdate :: "AdmEnv \<Rightarrow> (int \<Rightarrow> RunRow \<Rightarrow> RunRow option) \<Rightarrow> AdmDB \<Rightarrow> nat option \<times> AdmDB" where
  "sqlUpdate env f db =
     (let db1 = db\<lparr>ad_ops := Suc (ad_ops db)\<rparr>; g = f (ae_clock env (ad_ops db))
      in if ae_fails env (ad_ops db) then (None, db1)
         else (Some (length (filter (\<lambda>r. g r \<noteq> None) (ad_runs db))),
               db1\<lparr>ad_runs := map (\<lambda>r. case g r of Some r' \<Rightarrow> r' | None \<Rightarrow> r) (ad_runs db)\<rparr>))"

definition coalesce :: "string option \<Rightarrow> string \<Rightarrow> string" where
  "coalesce v d = (case v of Some s \<Rightarrow> s | None \<Rightarrow> d)"

definition claimRow :: "string \<Rightarrow> int \<Rightarrow> RunRow \<Rightarrow> RunRow option" where
  "claimRow runID now r =
     (if rn_ID r = runID \<and> (rn_Status r = ''queued'' \<or>
          (rn_Status r = ''admitting'' \<and> rn_UpdatedAt r < now - schedulerAdmissionClaimTTL))
      then Some (r\<lparr>rn_Status := ''admitting'', rn_UpdatedAt := now\<rparr>) else None)"

definition claimRun :: "AdmEnv \<Rightarrow> string \<Rightarrow> AdmDB \<Rightarrow> (adm_error + bool) \<times> AdmDB" where
  "claimRun env runID db =
     (case sqlUpdate env (claimRow runID) db of
        (None, db1) \<Rightarrow> (Inl (ClaimFailed runID), db1)
      | (Some rows, db1) \<Rightarrow> (Inr (rows = 1), db1))"

definition releaseRow :: "string \<Rightarrow> int \<Rightarrow> RunRow \<Rightarrow> RunRow option" where
  "releaseRow runID now r =
     (if rn_ID r = runID \<and> rn_Status r = ''admitting''
      then Some (r\<lparr>rn_Status := ''queued'', rn_UpdatedAt := now\<rparr>) else None)"

definition ReleaseRun :: "AdmEnv \<Rightarrow> SchedulerAdmission option \<Rightarrow> string \<Rightarrow> AdmDB \<Rightarrow> adm_error option \<times> AdmDB" where
  "ReleaseRun env a runID db =
     (case a of
        None \<Rightarrow> (None, db)
      | Some _ \<Rightarrow>
        (case sqlUpdate env (releaseRow runID) db of
           (None, db1) \<Rightarrow> (Some (ReleaseFailed runID), db1)
         | (Some _, db1) \<Rightarrow> (None, db1)))"

definition candidateRows :: "string \<Rightarrow> string \<Rightarrow> AdmDB \<Rightarrow> (TaskRow \<times> RunRow) list" where
  "candidateRows runID taskID db =
     [(t, r). r \<leftarrow> ad_runs db, rn_ID r = runID, t \<leftarrow> ad_tasks db,
        tr_ID t = rn_TaskID r \<and> tr_ID t = taskID \<and> \<not> tr_Deleted t]"

definition taskRow :: "TaskRow \<times> RunRow \<Rightarrow> schedulerTaskRow" where
  "taskRow p = (case p of (t, r) \<Rightarrow>
     \<lparr>st_ID = tr_ID t, st_ProjectID = tr_ProjectID t, st_RepositoryID = tr_RepositoryID t, st_Status = tr_Status t,
      st_Metadata = coalesce (tr_Metadata t) ''{}'', st_RunMetadata = coalesce (rn_Metadata r) ''{}''\<rparr>)"

definition loadCandidate :: "AdmEnv \<Rightarrow> string \<Rightarrow> string \<Rightarrow> AdmDB \<Rightarrow> (adm_error + schedulerTaskRow) \<times> AdmDB" where
  "loadCandidate env runID taskID db =
     (case sqlQuery env (candidateRows runID taskID) db of
        (Some (p # ps), db1) \<Rightarrow>
          (let runStatus = rn_Status (snd p) in
           if runStatus \<noteq> ''queued'' \<and> runStatus \<noteq> ''admitting'' then (Inl (CandidateStatus runID runStatus), db1)
           else (Inr (taskRow p), db1))
      | (_, db1) \<Rightarrow> (Inl LoadCandidate, db1))"

text \<open>An admission decision that was stored with the run, if it refuses the run.\<close>

definition validatePersistedAdmission :: "AdmEnv \<Rightarrow> string \<Rightarrow> adm_error + RunAdmissionDecision option" where
  "validatePersistedAdmission env raw0 =
     (let raw = TrimSpace raw0 in
      if raw = [] \<or> raw = ''{}'' then Inr None
      else (case ae_admission env raw of
          Inl e \<Rightarrow> Inl (DecodeAdmission e)
        | Inr None \<Rightarrow> Inr None
        | Inr (Some (policy, report)) \<Rightarrow>
          if policy \<noteq> AdmissionPolicyVersion then Inr (Some (refuse ''unsupported-admission-policy''))
          else (case rp_Status report of
              StatusReady \<Rightarrow> Inr None
            | StatusAttention \<Rightarrow> Inr None
            | StatusBlocked \<Rightarrow> Inr (Some (refuse ''readiness-blocked''))
            | _ \<Rightarrow> Inr (Some (refuse ''invalid-readiness-status'')))))"

section \<open>Ownership of a task\<close>

fun ownsLoop :: "string list \<Rightarrow> string list \<Rightarrow> string list" where
  "ownsLoop seen [] = []"
| "ownsLoop seen (value0 # values) =
     (let value = TrimSpace value0 in
      if value = [] then ownsLoop seen values
      else if value \<in> set seen then ownsLoop seen values
      else value # ownsLoop (value # seen) values)"

definition loadTaskSpecOwnership :: "AdmEnv \<Rightarrow> string \<Rightarrow> AdmDB \<Rightarrow> (adm_error + string list option) \<times> AdmDB" where
  "loadTaskSpecOwnership env taskID db =
     (case sqlQuery env (\<lambda>d. filter (\<lambda>s. sp_TaskID s = taskID) (ad_specs d)) db of
        (None, db1) \<Rightarrow> (Inl (LoadOwnership taskID), db1)
      | (Some [], db1) \<Rightarrow> (Inr None, db1)
      | (Some (s # _), db1) \<Rightarrow>
        (case ae_strings env (coalesce (sp_FilesToChange s) ''[]'') of
           Inl e \<Rightarrow> (Inl (DecodeFiles ''files_to_change'' taskID), db1)
         | Inr changed \<Rightarrow>
           (case ae_strings env (coalesce (sp_FilesToCreate s) ''[]'') of
              Inl e \<Rightarrow> (Inl (DecodeFiles ''files_to_create'' taskID), db1)
            | Inr created \<Rightarrow>
              (let owns = ownsLoop [] (changed @ created)
               in (Inr (if owns = [] then None else Some owns), db1)))))"

definition applySchedulerDefaults :: "schedulerConfig \<Rightarrow> schedulerConfig" where
  "applySchedulerDefaults config =
     (let c1 = (if f64_le (cf_CPU config) f64_zero then config\<lparr>cf_CPU := f64_of_int 1\<rparr> else config)
      in if cf_MemoryMB c1 \<le> 0 then c1\<lparr>cf_MemoryMB := 1024\<rparr> else c1)"

definition resolveSchedulerConfig ::
    "AdmEnv \<Rightarrow> string \<Rightarrow> string \<Rightarrow> AdmDB \<Rightarrow> (adm_error + schedulerConfig option) \<times> AdmDB" where
  "resolveSchedulerConfig env taskID rawMetadata db =
     (case ae_scheduler env rawMetadata of
        Inl e \<Rightarrow> (Inl (DecodeScheduler taskID e), db)
      | Inr (Some config) \<Rightarrow>
        if cf_Owns config = [] then (Inl (RequiresOwns taskID), db)
        else (Inr (Some (applySchedulerDefaults config)), db)
      | Inr None \<Rightarrow>
        (case loadTaskSpecOwnership env taskID db of
           (Inl e, db1) \<Rightarrow> (Inl e, db1)
         | (Inr None, db1) \<Rightarrow> (Inr None, db1)
         | (Inr (Some owns), db1) \<Rightarrow>
           (Inr (Some (applySchedulerDefaults
              \<lparr>cf_Owns = owns, cf_DependsOn = [], cf_CPU = f64_zero, cf_MemoryMB = 0\<rparr>)), db1)))"

section \<open>Active runs of the repository\<close>

definition activeStatus :: "string \<Rightarrow> bool" where
  "activeStatus s \<longleftrightarrow> s = ''admitting'' \<or> s = ''running''"

definition activeRows :: "schedulerTaskRow \<Rightarrow> AdmDB \<Rightarrow> (string \<times> string) list" where
  "activeRows candidate db = sort_key fst
     [(tr_ID t, coalesce (tr_Metadata t) ''{}''). r \<leftarrow> ad_runs db, activeStatus (rn_Status r), t \<leftarrow> ad_tasks db,
        tr_ID t = rn_TaskID r \<and> tr_ProjectID t = st_ProjectID candidate \<and>
        tr_RepositoryID t = st_RepositoryID candidate \<and> tr_ID t \<noteq> st_ID candidate \<and> \<not> tr_Deleted t]"

definition claimTask :: "string \<Rightarrow> schedulerConfig \<Rightarrow> Task" where
  "claimTask tid config =
     \<lparr>t_ID = tid, t_Owns = cf_Owns config, t_DependsOn = [],
      t_Resources = \<lparr>r_CPU = cf_CPU config, r_MemoryMB = cf_MemoryMB config\<rparr>\<rparr>"

text \<open>The result is \<open>None\<close> when an active run has no ownership (the legacy flag).\<close>

fun claimsLoop ::
    "AdmEnv \<Rightarrow> (string \<times> string) list \<Rightarrow> AdmDB \<Rightarrow> (adm_error + Task list option) \<times> AdmDB" where
  "claimsLoop env [] db = (Inr (Some []), db)"
| "claimsLoop env ((tid, raw) # rest) db =
     (case resolveSchedulerConfig env tid raw db of
        (Inl e, db1) \<Rightarrow> (Inl e, db1)
      | (Inr None, db1) \<Rightarrow> (Inr None, db1)
      | (Inr (Some config), db1) \<Rightarrow>
        (case claimsLoop env rest db1 of
           (Inr (Some claims), db2) \<Rightarrow> (Inr (Some (claimTask tid config # claims)), db2)
         | (r, db2) \<Rightarrow> (r, db2)))"

definition loadRunningClaims ::
    "AdmEnv \<Rightarrow> schedulerTaskRow \<Rightarrow> AdmDB \<Rightarrow> (adm_error + Task list option) \<times> AdmDB" where
  "loadRunningClaims env candidate db =
     (case sqlQuery env (activeRows candidate) db of
        (None, db1) \<Rightarrow> (Inl LoadClaims, db1)
      | (Some raws, db1) \<Rightarrow> claimsLoop env raws db1)"

section \<open>The decision\<close>

fun dependencyLoop ::
    "AdmEnv \<Rightarrow> string list \<Rightarrow> AdmDB \<Rightarrow> (adm_error + RunAdmissionDecision option) \<times> AdmDB" where
  "dependencyLoop env [] db = (Inr None, db)"
| "dependencyLoop env (dependency # rest) db =
     (case sqlQuery env (\<lambda>d. filter (\<lambda>t. tr_ID t = dependency \<and> \<not> tr_Deleted t) (ad_tasks d)) db of
        (None, db1) \<Rightarrow> (Inl (LoadDependency dependency), db1)
      | (Some [], db1) \<Rightarrow> (Inr (Some (refuse (''dependency-missing:'' @ dependency))), db1)
      | (Some (t # _), db1) \<Rightarrow>
        if tr_Status t \<noteq> ''done'' then (Inr (Some (refuse (''dependency-pending:'' @ dependency))), db1)
        else dependencyLoop env rest db1)"

text \<open>The first phase: what is checked before the run is claimed.\<close>

definition admitCheck ::
    "AdmEnv \<Rightarrow> string \<Rightarrow> string \<Rightarrow> AdmDB \<Rightarrow>
     (adm_error + RunAdmissionDecision + schedulerTaskRow \<times> schedulerConfig option) \<times> AdmDB" where
  "admitCheck env runID taskID db =
     (case loadCandidate env runID taskID db of
        (Inl e, db1) \<Rightarrow> (Inl e, db1)
      | (Inr candidate, db1) \<Rightarrow>
        (case validatePersistedAdmission env (st_RunMetadata candidate) of
           Inl e \<Rightarrow> (Inl e, db1)
         | Inr (Some decision) \<Rightarrow> (Inr (Inl decision), db1)
         | Inr None \<Rightarrow>
           (case resolveSchedulerConfig env taskID (st_Metadata candidate) db1 of
              (Inl e, db2) \<Rightarrow> (Inl e, db2)
            | (Inr config, db2) \<Rightarrow>
              (case dependencyLoop env (case config of None \<Rightarrow> [] | Some c \<Rightarrow> cf_DependsOn c) db2 of
                 (Inl e, db3) \<Rightarrow> (Inl e, db3)
               | (Inr (Some decision), db3) \<Rightarrow> (Inr (Inl decision), db3)
               | (Inr None, db3) \<Rightarrow> (Inr (Inr (candidate, config)), db3)))))"

definition admissionManifest :: "SchedulerCapacity \<Rightarrow> Task list \<Rightarrow> Task \<Rightarrow> Manifest" where
  "admissionManifest capacity running task =
     \<lparr>m_MaxParallel = sc_MaxParallel capacity,
      m_Capacity = \<lparr>cap_CPU = sc_CPU capacity, cap_MemoryMB = sc_MemoryMB capacity\<rparr>,
      m_Tasks = running @ [task]\<rparr>"

definition admissionState :: "Task list \<Rightarrow> string \<Rightarrow> State" where
  "admissionState running taskID =
     (foldl (\<lambda>s t. s(t_ID t \<mapsto> StatusRunning)) Map.empty running)(taskID \<mapsto> StatusPending)"

fun firstConflict :: "Task \<Rightarrow> Task list \<Rightarrow> string option" where
  "firstConflict task [] = None"
| "firstConflict task (t # ts) = (if OwnershipConflict (t_Owns task) (t_Owns t) then Some (t_ID t) else firstConflict task ts)"

definition decideAdmission ::
    "AdmEnv \<Rightarrow> SchedulerAdmission \<Rightarrow> string \<Rightarrow> schedulerTaskRow \<Rightarrow> schedulerConfig \<Rightarrow> AdmDB \<Rightarrow>
     (adm_error + RunAdmissionDecision) \<times> AdmDB" where
  "decideAdmission env a taskID candidate config db =
     (case loadRunningClaims env candidate db of
        (Inl e, db1) \<Rightarrow> (Inl e, db1)
      | (Inr None, db1) \<Rightarrow> (Inr (refuse ''legacy-running-run-without-ownership''), db1)
      | (Inr (Some running), db1) \<Rightarrow>
        (let task = claimTask taskID config in
         case Next (admissionManifest (sa_capacity a) running task) (admissionState running taskID) of
           Inl e \<Rightarrow> (Inl (SchedulerFailed e), db1)
         | Inr decision \<Rightarrow>
           if taskID \<in> set (d_Ready decision) then (Inr allow, db1)
           else (case firstConflict task running of
               Some tid \<Rightarrow> (Inr (refuse (''ownership-conflict:'' @ tid)), db1)
             | None \<Rightarrow>
               if sc_MaxParallel (sa_capacity a) \<le> int (length running) then (Inr (refuse ''parallel-capacity''), db1)
               else (Inr (refuse ''resource-capacity''), db1))))"

text \<open>The phase after the claim: the start budget, then the scheduler unless the task is a legacy one.\<close>

definition admitClaimed ::
    "AdmEnv \<Rightarrow> SchedulerAdmission \<Rightarrow> string \<Rightarrow> string \<Rightarrow> schedulerTaskRow \<Rightarrow> schedulerConfig option \<Rightarrow> AdmDB \<Rightarrow>
     (adm_error + RunAdmissionDecision) \<times> AdmDB" where
  "admitClaimed env a runID taskID candidate config db =
     (let admit = (case config of None \<Rightarrow> (Inr allow, db) | Some c \<Rightarrow> decideAdmission env a taskID candidate c db)
      in case sa_budget a of
           None \<Rightarrow> admit
         | Some check \<Rightarrow>
           (case check db runID of
              Inl e \<Rightarrow> (Inl (BudgetFailed e), db)
            | Inr (allowed, reason0) \<Rightarrow>
              if allowed then admit
              else (let reason = TrimSpace reason0
                    in (Inr (refuse (''budget-blocked: '' @ (if reason = [] then ''start budget denied'' else reason))), db))))"

definition admitted :: "adm_error + RunAdmissionDecision \<Rightarrow> bool" where
  "admitted r = (case r of Inl _ \<Rightarrow> False | Inr d \<Rightarrow> de_Allowed d)"

definition AdmitRun ::
    "AdmEnv \<Rightarrow> SchedulerAdmission option \<Rightarrow> string \<Rightarrow> string \<Rightarrow> AdmDB \<Rightarrow> (adm_error + RunAdmissionDecision) \<times> AdmDB" where
  "AdmitRun env admission runID taskID db =
     (case admission of
        None \<Rightarrow> (Inr allow, db)
      | Some a \<Rightarrow>
        (case admitCheck env runID taskID db of
           (Inl e, db1) \<Rightarrow> (Inl e, db1)
         | (Inr (Inl decision), db1) \<Rightarrow> (Inr decision, db1)
         | (Inr (Inr (candidate, config)), db1) \<Rightarrow>
           (case claimRun env runID db1 of
              (Inl e, db2) \<Rightarrow> (Inl e, db2)
            | (Inr False, db2) \<Rightarrow> (Inr (refuse ''run-already-claimed''), db2)
            | (Inr True, db2) \<Rightarrow>
              (case admitClaimed env a runID taskID candidate config db2 of
                 (r, db3) \<Rightarrow> (r, if admitted r then db3 else snd (ReleaseRun env admission runID db3))))))"

section \<open>What the phases read and write\<close>

lemma sqlQuery_simps [simp]:
  "ad_runs (snd (sqlQuery env f db)) = ad_runs db" "ad_tasks (snd (sqlQuery env f db)) = ad_tasks db"
  "ad_specs (snd (sqlQuery env f db)) = ad_specs db"
  by (simp_all add: sqlQuery_def)

definition sameTables :: "AdmDB \<Rightarrow> AdmDB \<Rightarrow> bool" where
  "sameTables db db' \<longleftrightarrow> ad_runs db' = ad_runs db \<and> ad_tasks db' = ad_tasks db \<and> ad_specs db' = ad_specs db"

lemma sameTables_refl [simp]: "sameTables db db"
  by (simp add: sameTables_def)

lemma sameTables_trans: "sameTables a b \<Longrightarrow> sameTables b c \<Longrightarrow> sameTables a c"
  by (simp add: sameTables_def)

lemma sqlQuery_same: "sqlQuery env f db = (r, db') \<Longrightarrow> sameTables db db'"
  using sqlQuery_simps [of env f db] by (simp add: sameTables_def)

lemma sqlQuery_result: "sqlQuery env f db = (Some x, db') \<Longrightarrow> x = f db"
  by (simp add: sqlQuery_def split: if_splits)

lemma loadCandidate_same: "loadCandidate env runID taskID db = (r, db') \<Longrightarrow> sameTables db db'"
  by (auto simp: loadCandidate_def Let_def split: prod.splits option.splits list.splits if_splits dest: sqlQuery_same)

lemma loadCandidate_Inr:
  assumes "loadCandidate env runID taskID db = (Inr row, db')"
  obtains t r where "t \<in> set (ad_tasks db)" "r \<in> set (ad_runs db)" "rn_ID r = runID" "rn_TaskID r = taskID"
    "tr_ID t = taskID" "\<not> tr_Deleted t" "row = taskRow (t, r)"
proof -
  obtain p ps where q: "fst (sqlQuery env (candidateRows runID taskID) db) = Some (p # ps)" and row: "row = taskRow p"
    using assms by (auto simp: loadCandidate_def Let_def split: prod.splits option.splits list.splits if_splits)
  have "candidateRows runID taskID db = p # ps"
    using q by (simp add: sqlQuery_def split: if_splits)
  then have "p \<in> set (candidateRows runID taskID db)" by simp
  then obtain t r where "p = (t, r)" "t \<in> set (ad_tasks db)" "r \<in> set (ad_runs db)" "rn_ID r = runID"
    "tr_ID t = rn_TaskID r" "tr_ID t = taskID" "\<not> tr_Deleted t"
    by (auto simp: candidateRows_def split: if_splits)
  then show thesis using that row by simp
qed

text \<open>The configuration of a task as the tables have it, when no statement fails.\<close>

definition specOwns :: "AdmEnv \<Rightarrow> string \<Rightarrow> SpecRow list \<Rightarrow> adm_error + string list option" where
  "specOwns env taskID specs =
     (case filter (\<lambda>s. sp_TaskID s = taskID) specs of
        [] \<Rightarrow> Inr None
      | s # _ \<Rightarrow>
        (case ae_strings env (coalesce (sp_FilesToChange s) ''[]'') of
           Inl e \<Rightarrow> Inl (DecodeFiles ''files_to_change'' taskID)
         | Inr changed \<Rightarrow>
           (case ae_strings env (coalesce (sp_FilesToCreate s) ''[]'') of
              Inl e \<Rightarrow> Inl (DecodeFiles ''files_to_create'' taskID)
            | Inr created \<Rightarrow>
              (let owns = ownsLoop [] (changed @ created) in Inr (if owns = [] then None else Some owns)))))"

definition taskConfig :: "AdmEnv \<Rightarrow> string \<Rightarrow> string \<Rightarrow> SpecRow list \<Rightarrow> adm_error + schedulerConfig option" where
  "taskConfig env taskID raw specs =
     (case ae_scheduler env raw of
        Inl e \<Rightarrow> Inl (DecodeScheduler taskID e)
      | Inr (Some config) \<Rightarrow>
        if cf_Owns config = [] then Inl (RequiresOwns taskID) else Inr (Some (applySchedulerDefaults config))
      | Inr None \<Rightarrow>
        (case specOwns env taskID specs of
           Inl e \<Rightarrow> Inl e
         | Inr None \<Rightarrow> Inr None
         | Inr (Some owns) \<Rightarrow> Inr (Some (applySchedulerDefaults
              \<lparr>cf_Owns = owns, cf_DependsOn = [], cf_CPU = f64_zero, cf_MemoryMB = 0\<rparr>))))"

lemma loadTaskSpecOwnership_spec:
  assumes "loadTaskSpecOwnership env taskID db = (r, db')"
  shows "sameTables db db'" and "r = Inl (LoadOwnership taskID) \<or> r = specOwns env taskID (ad_specs db)"
proof -
  obtain q db1 where q: "sqlQuery env (\<lambda>d. filter (\<lambda>s. sp_TaskID s = taskID) (ad_specs d)) db = (q, db1)" by fastforce
  note d = assms [unfolded loadTaskSpecOwnership_def q prod.case]
  have "db' = db1"
    using d by (auto simp: Let_def split: option.splits list.splits sum.splits)
  then show "sameTables db db'" using sqlQuery_same [OF q] by simp
  show "r = Inl (LoadOwnership taskID) \<or> r = specOwns env taskID (ad_specs db)"
  proof (cases q)
    case None
    then show ?thesis using d by simp
  next
    case (Some rows)
    then have "rows = filter (\<lambda>s. sp_TaskID s = taskID) (ad_specs db)" using sqlQuery_result [of env _ db rows db1] q by simp
    then show ?thesis using d Some by (auto simp: specOwns_def Let_def split: sum.splits list.splits)
  qed
qed

lemma resolveSchedulerConfig_spec:
  assumes "resolveSchedulerConfig env taskID raw db = (r, db')"
  shows "sameTables db db'" and "r = Inl (LoadOwnership taskID) \<or> r = taskConfig env taskID raw (ad_specs db)"
proof -
  obtain q db1 where q: "loadTaskSpecOwnership env taskID db = (q, db1)" by fastforce
  note d = assms [unfolded resolveSchedulerConfig_def q prod.case]
  have "db' = db \<or> db' = db1" using d by (auto split: option.splits sum.splits if_splits)
  then show "sameTables db db'" using loadTaskSpecOwnership_spec(1) [OF q] by auto
  show "r = Inl (LoadOwnership taskID) \<or> r = taskConfig env taskID raw (ad_specs db)"
    using d loadTaskSpecOwnership_spec(2) [OF q]
    by (auto simp: taskConfig_def split: option.splits sum.splits if_splits)
qed

lemma resolveSchedulerConfig_Inr:
  "resolveSchedulerConfig env taskID raw db = (Inr c, db') \<Longrightarrow> taskConfig env taskID raw (ad_specs db) = Inr c"
  using resolveSchedulerConfig_spec(2) by fastforce

lemma dependencyLoop_same: "dependencyLoop env deps db = (r, db') \<Longrightarrow> sameTables db db'"
proof (induction deps arbitrary: db)
  case Nil
  then show ?case by simp
next
  case (Cons dep deps)
  obtain q db1 where q: "sqlQuery env (\<lambda>d. filter (\<lambda>t. tr_ID t = dep \<and> \<not> tr_Deleted t) (ad_tasks d)) db = (q, db1)"
    by fastforce
  have "db' = db1 \<or> dependencyLoop env deps db1 = (r, db')"
    using Cons.prems by (auto simp: q split: option.splits list.splits if_splits)
  then show ?case
  proof
    assume "db' = db1"
    then show ?thesis using sqlQuery_same [OF q] by simp
  next
    assume "dependencyLoop env deps db1 = (r, db')"
    then show ?thesis by (rule sameTables_trans [OF sqlQuery_same [OF q] Cons.IH])
  qed
qed

lemma admitCheck_same:
  assumes "admitCheck env runID taskID db = (r, db')"
  shows "sameTables db db'"
proof -
  obtain q db1 where q: "loadCandidate env runID taskID db = (q, db1)" by fastforce
  note 1 = loadCandidate_same [OF q]
  show ?thesis
  proof (cases "db' = db1")
    case True
    then show ?thesis using 1 by simp
  next
    case False
    then obtain c where c: "q = Inr c" using assms by (cases q) (auto simp: admitCheck_def q)
    obtain q2 db2 where q2: "resolveSchedulerConfig env taskID (st_Metadata c) db1 = (q2, db2)" by fastforce
    note 2 = sameTables_trans [OF 1 resolveSchedulerConfig_spec(1) [OF q2]]
    show ?thesis
    proof (cases "db' = db2")
      case True
      then show ?thesis using 2 by simp
    next
      case ne: False
      then obtain config where cfg: "q2 = Inr config"
        using assms False by (cases q2) (auto simp: admitCheck_def q c q2 split: sum.splits option.splits)
      obtain q3 db3 where q3: "dependencyLoop env (case config of None \<Rightarrow> [] | Some c \<Rightarrow> cf_DependsOn c) db2 = (q3, db3)"
        by fastforce
      have "db' = db3"
        using assms False by (auto simp: admitCheck_def q c q2 cfg q3 split: sum.splits option.splits)
      then show ?thesis using sameTables_trans [OF 2 dependencyLoop_same [OF q3]] by simp
    qed
  qed
qed


lemma admitCheck_Inr:
  assumes "admitCheck env runID taskID db = (Inr (Inr (row, cfg)), db')"
  obtains t r where "t \<in> set (ad_tasks db)" "r \<in> set (ad_runs db)" "rn_ID r = runID" "rn_TaskID r = taskID"
    "tr_ID t = taskID" "\<not> tr_Deleted t" "row = taskRow (t, r)"
    "taskConfig env taskID (coalesce (tr_Metadata t) ''{}'') (ad_specs db) = Inr cfg"
proof -
  obtain q db1 where q: "loadCandidate env runID taskID db = (q, db1)" by fastforce
  obtain c where c: "q = Inr c" using assms by (cases q) (auto simp: admitCheck_def q)
  obtain q2 db2 where q2: "resolveSchedulerConfig env taskID (st_Metadata c) db1 = (q2, db2)" by fastforce
  obtain config where cfg: "q2 = Inr config"
    using assms by (cases q2) (auto simp: admitCheck_def q c q2 split: sum.splits option.splits)
  have eq: "c = row" "config = cfg"
    using assms by (auto simp: admitCheck_def q c q2 cfg split: sum.splits option.splits prod.splits)
  have "taskConfig env taskID (st_Metadata row) (ad_specs db) = Inr cfg"
    using resolveSchedulerConfig_Inr [of env taskID "st_Metadata row" db1 cfg db2] q2 cfg eq loadCandidate_same [OF q]
    by (simp add: sameTables_def)
  moreover obtain t r where "t \<in> set (ad_tasks db)" "r \<in> set (ad_runs db)" "rn_ID r = runID" "rn_TaskID r = taskID"
    "tr_ID t = taskID" "\<not> tr_Deleted t" "row = taskRow (t, r)"
    by (rule loadCandidate_Inr [of env runID taskID db row db1]) (use q c eq in auto)
  ultimately show thesis using that by (simp add: taskRow_def)
qed

lemma claimsLoop_spec:
  assumes "claimsLoop env raws db = (res, db')"
  shows "sameTables db db'"
    and "res = Inr (Some claims) \<Longrightarrow> (t2, raw2) \<in> set raws \<Longrightarrow>
      \<exists>c2. taskConfig env t2 raw2 (ad_specs db) = Inr (Some c2) \<and> claimTask t2 c2 \<in> set claims"
proof -
  have "sameTables db db' \<and> (\<forall>claims. res = Inr (Some claims) \<longrightarrow> (\<forall>(t2, raw2) \<in> set raws.
      \<exists>c2. taskConfig env t2 raw2 (ad_specs db) = Inr (Some c2) \<and> claimTask t2 c2 \<in> set claims))"
    using assms
  proof (induction raws arbitrary: db res)
    case Nil
    then show ?case by simp
  next
    case (Cons p raws)
    obtain tid raw where p: "p = (tid, raw)" by fastforce
    obtain q db1 where q: "resolveSchedulerConfig env tid raw db = (q, db1)" by fastforce
    note s1 = resolveSchedulerConfig_spec(1) [OF q]
    show ?case
    proof (cases "\<exists>c. q = Inr (Some c)")
      case False
      then have "db' = db1" "\<nexists>claims. res = Inr (Some claims)"
        using Cons.prems by (auto simp: p q split: sum.splits option.splits)
      then show ?thesis using s1 by simp
    next
      case True
      then obtain c where c: "q = Inr (Some c)" by blast
      obtain q2 db2 where q2: "claimsLoop env raws db1 = (q2, db2)" by fastforce
      have d: "db' = db2" "\<And>claims. res = Inr (Some claims) \<Longrightarrow> \<exists>cs. q2 = Inr (Some cs) \<and> claims = claimTask tid c # cs"
        using Cons.prems by (auto simp: p q c q2 split: sum.splits option.splits)
      have tc: "taskConfig env tid raw (ad_specs db) = Inr (Some c)"
        using resolveSchedulerConfig_Inr [of env tid raw db "Some c" db1] q c by simp
      have sp: "ad_specs db1 = ad_specs db" using s1 by (simp add: sameTables_def)
      have "claimsLoop env raws db1 = (q2, db')" using q2 d(1) by simp
      note ih = Cons.IH [OF this]
      show ?thesis
      proof (intro conjI allI impI)
        show "sameTables db db'" using sameTables_trans [OF s1] ih d(1) by simp
        fix claims
        assume "res = Inr (Some claims)"
        then obtain cs where cs: "q2 = Inr (Some cs)" "claims = claimTask tid c # cs" using d(2) by blast
        then show "\<forall>(t2, raw2) \<in> set (p # raws).
            \<exists>c2. taskConfig env t2 raw2 (ad_specs db) = Inr (Some c2) \<and> claimTask t2 c2 \<in> set claims"
          using ih tc by (fastforce simp: p sp)
      qed
    qed
  qed
  then show "sameTables db db'" and "res = Inr (Some claims) \<Longrightarrow> (t2, raw2) \<in> set raws \<Longrightarrow>
      \<exists>c2. taskConfig env t2 raw2 (ad_specs db) = Inr (Some c2) \<and> claimTask t2 c2 \<in> set claims" by auto
qed

lemma admissionState_running:
  assumes "u \<in> set running" and "t_ID u \<noteq> taskID"
  shows "admissionState running taskID (t_ID u) = Some StatusRunning"
proof -
  have "foldl (\<lambda>s t. s(t_ID t \<mapsto> StatusRunning)) m running (t_ID u) = Some StatusRunning"
    if "u \<in> set running \<or> m (t_ID u) = Some StatusRunning" for m
    using that by (induction running arbitrary: m) auto
  then show ?thesis using assms by (simp add: admissionState_def)
qed

text \<open>A run the scheduler admits owns no file of an active run of the repository.\<close>

lemma decideAdmission_spec:
  assumes "decideAdmission env a taskID row c db = (res, db')"
  shows "sameTables db db'"
    and "admitted res \<Longrightarrow> st_ID row = taskID \<Longrightarrow> (t2, raw2) \<in> set (activeRows row db) \<Longrightarrow> t2 \<noteq> taskID \<Longrightarrow>
      \<exists>c2. taskConfig env t2 raw2 (ad_specs db) = Inr (Some c2) \<and> owned (cf_Owns c) \<inter> owned (cf_Owns c2) = {}"
proof -
  obtain q db1 where q: "sqlQuery env (activeRows row) db = (q, db1)" by fastforce
  obtain q2 db2 where q2: "loadRunningClaims env row db = (q2, db2)" by fastforce
  have s2: "sameTables db db2"
    using q2 sqlQuery_same [OF q] claimsLoop_spec(1) sameTables_trans
    by (auto simp: loadRunningClaims_def q split: option.splits)
  moreover have "db' = db2"
    using assms by (auto simp: decideAdmission_def q2 Let_def split: sum.splits option.splits if_splits)
  ultimately show "sameTables db db'" by simp
  assume adm: "admitted res" and "st_ID row = taskID" and mem: "(t2, raw2) \<in> set (activeRows row db)" and ne: "t2 \<noteq> taskID"
  obtain running d where run: "q2 = Inr (Some running)"
    and n: "Next (admissionManifest (sa_capacity a) running (claimTask taskID c)) (admissionState running taskID) = Inr d"
    and ready: "taskID \<in> set (d_Ready d)"
    using assms adm
    by (auto simp: decideAdmission_def q2 Let_def admitted_def refuse_def split: sum.splits option.splits if_splits)
  have "q = Some (activeRows row db)"
    using q2 run sqlQuery_result [of env "activeRows row" db] q by (auto simp: loadRunningClaims_def q split: option.splits)
  then have "claimsLoop env (activeRows row db) db1 = (Inr (Some running), db2)"
    using q2 run by (simp add: loadRunningClaims_def q)
  from claimsLoop_spec(2) [OF this refl mem] obtain c2 where c2: "taskConfig env t2 raw2 (ad_specs db) = Inr (Some c2)"
    "claimTask t2 c2 \<in> set running"
    using sqlQuery_same [OF q] by (auto simp: sameTables_def)
  let ?t = "claimTask taskID c" and ?u = "claimTask t2 c2"
  let ?m = "admissionManifest (sa_capacity a) running ?t"
  have ids: "t_ID ?t = taskID" "t_ID ?u = t2" "t_Owns ?t = cf_Owns c" "t_Owns ?u = cf_Owns c2" by (simp_all add: claimTask_def)
  have st: "admissionState running taskID (t_ID ?u) = Some StatusRunning"
    by (rule admissionState_running [OF c2(2)]) (simp add: ids ne)
  have u: "?u \<in> set (m_Tasks ?m)" "?u \<noteq> ?t" and t: "?t \<in> set (m_Tasks ?m)"
    using c2(2) ids ne by (auto simp: admissionManifest_def)
  have "t_ID ?t \<in> set (d_Ready d)" using ready ids by simp
  from conjunct2 [OF Next_safe_core [OF n], rule_format, OF t this]
  have "\<forall>u \<in> set (m_Tasks ?m). u \<noteq> ?t \<and>
      (admissionState running taskID (t_ID u) = Some StatusRunning \<or> t_ID u \<in> set (d_Ready d)) \<longrightarrow>
      owned (t_Owns ?t) \<inter> owned (t_Owns u) = {}" by (elim conjE)
  from bspec [OF this u(1)] have "owned (cf_Owns c) \<inter> owned (cf_Owns c2) = {}" using u(2) st ids by simp
  with c2(1) show "\<exists>c2. taskConfig env t2 raw2 (ad_specs db) = Inr (Some c2) \<and> owned (cf_Owns c) \<inter> owned (cf_Owns c2) = {}"
    by blast
qed

lemma admitClaimed_spec:
  assumes "admitClaimed env a runID taskID row cfg db = (res, db')"
  shows "sameTables db db'"
    and "admitted res \<Longrightarrow> cfg = Some c \<Longrightarrow> \<exists>r. admitted r \<and> (decideAdmission env a taskID row c db = (r, db'))"
proof -
  show "sameTables db db'"
    using assms decideAdmission_spec(1)
    by (auto simp: admitClaimed_def Let_def split: option.splits sum.splits if_splits)
  assume "admitted res" "cfg = Some c"
  then show "\<exists>r. admitted r \<and> (decideAdmission env a taskID row c db = (r, db'))"
    using assms by (auto simp: admitClaimed_def Let_def admitted_def refuse_def split: option.splits sum.splits if_splits)
qed


section \<open>Workers admit runs concurrently\<close>

text \<open>
  A session is one call of \<open>AdmitRun\<close> between its phases, and the execution of the run it admits.
  Each phase is one step: what it reads is read at once.  Runs can be queued, begun and finished
  meanwhile; tasks and their specifications do not change.
\<close>

datatype Session = Idle
  | Checked string string schedulerTaskRow "schedulerConfig option"
  | Claimed string string schedulerTaskRow "schedulerConfig option"
  | Admitted string string schedulerTaskRow "schedulerConfig option"
  | Refused string

fun checkedAs :: "string \<Rightarrow> string \<Rightarrow> adm_error + RunAdmissionDecision + schedulerTaskRow \<times> schedulerConfig option \<Rightarrow> Session" where
  "checkedAs r t (Inr (Inr (row, cfg))) = Checked r t row cfg"
| "checkedAs r t _ = Idle"

definition setRunStatus :: "string \<Rightarrow> string \<Rightarrow> int \<Rightarrow> AdmDB \<Rightarrow> AdmDB" where
  "setRunStatus r status now db =
     db\<lparr>ad_runs := map (\<lambda>x. if rn_ID x = r then x\<lparr>rn_Status := status, rn_UpdatedAt := now\<rparr> else x) (ad_runs db)\<rparr>"

inductive admStep :: "AdmEnv \<Rightarrow> SchedulerAdmission \<Rightarrow> AdmDB \<times> (nat \<Rightarrow> Session) \<Rightarrow> AdmDB \<times> (nat \<Rightarrow> Session) \<Rightarrow> bool"
  for env a where
  check: "ss i = Idle \<Longrightarrow> admitCheck env r t db = (res, db') \<Longrightarrow>
    admStep env a (db, ss) (db', ss(i := checkedAs r t res))"
| claim: "ss i = Checked r t row cfg \<Longrightarrow> claimRun env r db = (res, db') \<Longrightarrow>
    admStep env a (db, ss) (db', ss(i := if res = Inr True then Claimed r t row cfg else Idle))"
| decide: "ss i = Claimed r t row cfg \<Longrightarrow> admitClaimed env a r t row cfg db = (res, db') \<Longrightarrow>
    admStep env a (db, ss) (db', ss(i := if admitted res then Admitted r t row cfg else Refused r))"
| release: "ss i = Refused r \<Longrightarrow> ReleaseRun env (Some a) r db = (res, db') \<Longrightarrow>
    admStep env a (db, ss) (db', ss(i := Idle))"
| begin_run: "ss i = Admitted r t row cfg \<Longrightarrow> admStep env a (db, ss) (setRunStatus r ''running'' now db, ss)"
| finish_run: "ss i = Admitted r t row cfg \<Longrightarrow> status \<noteq> ''admitting'' \<Longrightarrow>
    admStep env a (db, ss) (setRunStatus r status now db, ss(i := Idle))"
| enqueue: "rn_ID new \<notin> rn_ID ` set (ad_runs db) \<Longrightarrow> rn_Status new = ''queued'' \<Longrightarrow>
    admStep env a (db, ss) (db\<lparr>ad_runs := ad_runs db @ [new]\<rparr>, ss)"

text \<open>An update of the runs that touches one run only.\<close>

definition onlyRun :: "AdmEnv \<Rightarrow> string \<Rightarrow> AdmDB \<Rightarrow> AdmDB \<Rightarrow> bool" where
  "onlyRun env r db db' \<longleftrightarrow>
     ad_tasks db' = ad_tasks db \<and> ad_specs db' = ad_specs db \<and> (distinct (map rn_ID (ad_runs db)) \<longrightarrow> distinct (map rn_ID (ad_runs db'))) \<and>
     (\<forall>x \<in> set (ad_runs db). rn_ID x \<noteq> r \<longrightarrow> x \<in> set (ad_runs db')) \<and>
     (\<forall>x \<in> set (ad_runs db'). x \<in> set (ad_runs db) \<or>
        (rn_ID x = r \<and> (rn_Status x = ''admitting'' \<longrightarrow> (\<exists>n. rn_UpdatedAt x = ae_clock env n)))) \<and>
     (\<forall>x \<in> set (ad_runs db). \<exists>y \<in> set (ad_runs db'). rn_ID y = rn_ID x \<and> rn_TaskID y = rn_TaskID x)"

lemma onlyRun_same: "sameTables db db' \<Longrightarrow> onlyRun env r db db'"
  by (auto simp: onlyRun_def sameTables_def)

lemma onlyRun_map:
  assumes "\<And>x. rn_ID (g x) = rn_ID x \<and> rn_TaskID (g x) = rn_TaskID x"
    and "\<And>x. rn_ID x \<noteq> r \<Longrightarrow> g x = x"
    and "\<And>x. g x \<noteq> x \<Longrightarrow> rn_Status (g x) = ''admitting'' \<Longrightarrow> \<exists>n. rn_UpdatedAt (g x) = ae_clock env n"
    and "ad_runs db' = map g (ad_runs db)" "ad_tasks db' = ad_tasks db" "ad_specs db' = ad_specs db"
  shows "onlyRun env r db db'"
proof -
  have ids: "map rn_ID (map g (ad_runs db)) = map rn_ID (ad_runs db)" using assms(1) by simp
  have "x \<in> set (ad_runs db) \<or> (rn_ID x = r \<and> (rn_Status x = ''admitting'' \<longrightarrow> (\<exists>n. rn_UpdatedAt x = ae_clock env n)))"
    if x: "x \<in> set (map g (ad_runs db))" for x
  proof -
    obtain y where y: "y \<in> set (ad_runs db)" "x = g y" using x by auto
    show ?thesis
    proof (cases "g y = y")
      case True
      then show ?thesis using y by simp
    next
      case False
      then have "rn_ID y = r" using assms(2) by blast
      then show ?thesis using y assms(1) [of y] assms(3) [OF False] by simp
    qed
  qed
  moreover have "x \<in> set (map g (ad_runs db))" if "x \<in> set (ad_runs db)" "rn_ID x \<noteq> r" for x
    using that assms(2) [OF that(2)] by (metis image_eqI list.set_map)
  moreover have "\<exists>y \<in> set (map g (ad_runs db)). rn_ID y = rn_ID x \<and> rn_TaskID y = rn_TaskID x" if "x \<in> set (ad_runs db)" for x
    using that assms(1) [of x] by auto
  moreover have "distinct (map rn_ID (ad_runs db)) \<longrightarrow> distinct (map rn_ID (map g (ad_runs db)))" unfolding ids by (rule impI)
  ultimately show ?thesis unfolding onlyRun_def assms(4-6) by blast
qed

lemma sqlUpdate_onlyRun:
  assumes "sqlUpdate env f db = (res, db')"
    and "\<And>now x y. f now x = Some y \<Longrightarrow> rn_ID x = r \<and> rn_ID y = rn_ID x \<and> rn_TaskID y = rn_TaskID x \<and> rn_UpdatedAt y = now"
  shows "onlyRun env r db db'"
proof (cases "ae_fails env (ad_ops db)")
  case True
  then have "sameTables db db'" using assms(1) by (auto simp: sqlUpdate_def sameTables_def Let_def)
  then show ?thesis by (rule onlyRun_same)
next
  case False
  let ?f = "f (ae_clock env (ad_ops db))"
  let ?g = "\<lambda>x. case ?f x of Some y \<Rightarrow> y | None \<Rightarrow> x"
  have "db' = db\<lparr>ad_ops := Suc (ad_ops db), ad_runs := map ?g (ad_runs db)\<rparr>"
    using assms(1) False by (auto simp: sqlUpdate_def Let_def)
  then show ?thesis
    by (intro onlyRun_map [where g = ?g]) (auto split: option.splits dest: assms(2))
qed

lemma claimRun_onlyRun: "claimRun env r db = (res, db') \<Longrightarrow> onlyRun env r db db'"
  by (auto simp: claimRun_def split: prod.splits option.splits
      intro!: sqlUpdate_onlyRun [where f = "claimRow r"]) (auto simp: claimRow_def split: if_splits)

lemma ReleaseRun_onlyRun: "ReleaseRun env (Some a) r db = (res, db') \<Longrightarrow> onlyRun env r db db'"
  by (auto simp: ReleaseRun_def split: prod.splits option.splits
      intro!: sqlUpdate_onlyRun [where f = "releaseRow r"]) (auto simp: releaseRow_def split: if_splits)

lemma setRunStatus_onlyRun: "status \<noteq> ''admitting'' \<Longrightarrow> onlyRun env r db (setRunStatus r status now db)"
  by (rule onlyRun_map [where g = "\<lambda>x. if rn_ID x = r then x\<lparr>rn_Status := status, rn_UpdatedAt := now\<rparr> else x"])
    (auto simp: setRunStatus_def split: if_splits)

lemma enqueue_onlyRun:
  "rn_ID new \<notin> rn_ID ` set (ad_runs db) \<Longrightarrow> rn_Status new = ''queued'' \<Longrightarrow>
    onlyRun env (rn_ID new) db (db\<lparr>ad_runs := ad_runs db @ [new]\<rparr>)"
  by (auto simp: onlyRun_def)

section \<open>The invariant\<close>

fun holds :: "Session \<Rightarrow> string option" where
  "holds Idle = None"
| "holds (Checked r t row cfg) = None"
| "holds (Claimed r t row cfg) = Some r"
| "holds (Admitted r t row cfg) = Some r"
| "holds (Refused r) = Some r"

fun about :: "Session \<Rightarrow> (string \<times> string \<times> schedulerTaskRow \<times> schedulerConfig option) option" where
  "about (Checked r t row cfg) = Some (r, t, row, cfg)"
| "about (Claimed r t row cfg) = Some (r, t, row, cfg)"
| "about (Admitted r t row cfg) = Some (r, t, row, cfg)"
| "about _ = None"

definition loaded :: "AdmEnv \<Rightarrow> AdmDB \<Rightarrow> string \<times> string \<times> schedulerTaskRow \<times> schedulerConfig option \<Rightarrow> bool" where
  "loaded env db p = (case p of (r, t, row, cfg) \<Rightarrow>
     \<exists>task \<in> set (ad_tasks db). \<exists>x \<in> set (ad_runs db). rn_ID x = r \<and> rn_TaskID x = t \<and> tr_ID task = t \<and> \<not> tr_Deleted task \<and>
       st_ID row = t \<and> st_ProjectID row = tr_ProjectID task \<and> st_RepositoryID row = tr_RepositoryID task \<and>
       taskConfig env t (coalesce (tr_Metadata task) ''{}'') (ad_specs db) = Inr cfg)"

definition fresh :: "AdmEnv \<Rightarrow> AdmDB \<Rightarrow> bool" where
  "fresh env db \<longleftrightarrow> distinct (map rn_ID (ad_runs db)) \<and> distinct (map tr_ID (ad_tasks db)) \<and>
     (\<forall>x \<in> set (ad_runs db). rn_Status x = ''admitting'' \<longrightarrow> (\<exists>n. rn_UpdatedAt x = ae_clock env n))"

definition activeRun :: "AdmDB \<Rightarrow> string \<Rightarrow> bool" where
  "activeRun db r \<longleftrightarrow> (\<exists>x \<in> set (ad_runs db). rn_ID x = r \<and> activeStatus (rn_Status x))"

definition exclusive :: "Session \<Rightarrow> Session \<Rightarrow> bool" where
  "exclusive s1 s2 \<longleftrightarrow> (\<forall>r1 t1 row1 c1 r2 t2 row2 c2. s1 = Admitted r1 t1 row1 (Some c1) \<longrightarrow> s2 = Admitted r2 t2 row2 (Some c2) \<longrightarrow>
     t1 \<noteq> t2 \<longrightarrow> st_ProjectID row1 = st_ProjectID row2 \<longrightarrow> st_RepositoryID row1 = st_RepositoryID row2 \<longrightarrow>
     owned (cf_Owns c1) \<inter> owned (cf_Owns c2) = {})"

definition adm_inv :: "AdmEnv \<Rightarrow> AdmDB \<times> (nat \<Rightarrow> Session) \<Rightarrow> bool" where
  "adm_inv env p = (case p of (db, ss) \<Rightarrow>
     fresh env db \<and>
     (\<forall>i x. about (ss i) = Some x \<longrightarrow> loaded env db x) \<and>
     (\<forall>i r. holds (ss i) = Some r \<longrightarrow> activeRun db r) \<and>
     (\<forall>i j r. holds (ss i) = Some r \<longrightarrow> holds (ss j) = Some r \<longrightarrow> i = j) \<and>
     (\<forall>i j. i \<noteq> j \<longrightarrow> exclusive (ss i) (ss j)))"

lemma onlyRun_fresh: "onlyRun env r db db' \<Longrightarrow> fresh env db \<Longrightarrow> fresh env db'"
  unfolding onlyRun_def fresh_def by metis

lemma onlyRun_loaded:
  assumes "onlyRun env r db db'" and "loaded env db p"
  shows "loaded env db' p"
proof -
  obtain q t row cfg where p: "p = (q, t, row, cfg)" by (cases p)
  from assms(2) obtain task x where x: "task \<in> set (ad_tasks db)" "x \<in> set (ad_runs db)" "rn_ID x = q" "rn_TaskID x = t"
    "tr_ID task = t \<and> \<not> tr_Deleted task \<and> st_ID row = t \<and> st_ProjectID row = tr_ProjectID task \<and>
     st_RepositoryID row = tr_RepositoryID task \<and> taskConfig env t (coalesce (tr_Metadata task) ''{}'') (ad_specs db) = Inr cfg"
    unfolding loaded_def p by auto
  obtain y where y: "y \<in> set (ad_runs db')" "rn_ID y = rn_ID x" "rn_TaskID y = rn_TaskID x"
    using assms(1) x(2) unfolding onlyRun_def by blast
  have "ad_tasks db' = ad_tasks db" "ad_specs db' = ad_specs db" using assms(1) unfolding onlyRun_def by blast+
  then show ?thesis unfolding loaded_def p prod.case using x y by metis
qed

lemma onlyRun_active: "onlyRun env r db db' \<Longrightarrow> q \<noteq> r \<Longrightarrow> activeRun db q \<Longrightarrow> activeRun db' q"
  unfolding onlyRun_def activeRun_def by metis

lemma sameTables_active: "sameTables db db' \<Longrightarrow> activeRun db q \<Longrightarrow> activeRun db' q"
  unfolding sameTables_def activeRun_def by simp

text \<open>
  The general step: the runs change at one run at most, every session keeps its run active, and one
  session changes.
\<close>

lemma adm_inv_step:
  assumes inv: "adm_inv env (db, ss)" and only: "onlyRun env r db db'"
    and act: "\<And>j q. j \<noteq> i \<Longrightarrow> holds (ss j) = Some q \<Longrightarrow> activeRun db' q"
    and own: "\<And>q. holds s = Some q \<Longrightarrow> activeRun db' q \<and> (\<forall>j. j \<noteq> i \<longrightarrow> holds (ss j) \<noteq> Some q)"
    and abt: "\<And>x. about s = Some x \<Longrightarrow> loaded env db' x"
    and exc: "\<And>j. j \<noteq> i \<Longrightarrow> exclusive s (ss j) \<and> exclusive (ss j) s"
  shows "adm_inv env (db', ss(i := s))"
proof -
  have I: "fresh env db" "\<And>j x. about (ss j) = Some x \<Longrightarrow> loaded env db x"
    "\<And>j k q. holds (ss j) = Some q \<Longrightarrow> holds (ss k) = Some q \<Longrightarrow> j = k"
    "\<And>j k. j \<noteq> k \<Longrightarrow> exclusive (ss j) (ss k)"
    using inv unfolding adm_inv_def by auto
  have 1: "fresh env db'" by (rule onlyRun_fresh [OF only I(1)])
  have 2: "loaded env db' x" if "about ((ss(i := s)) j) = Some x" for j x
  proof (cases "j = i")
    case True
    then show ?thesis using that abt by simp
  next
    case False
    then have "about (ss j) = Some x" using that by simp
    from onlyRun_loaded [OF only I(2) [OF this]] show ?thesis .
  qed
  have 3: "activeRun db' q" if "holds ((ss(i := s)) j) = Some q" for j q
    using that act [of j q] own [of q] by (cases "j = i") auto
  have 4: "j = k" if "holds ((ss(i := s)) j) = Some q" "holds ((ss(i := s)) k) = Some q" for j k q
  proof (cases "j = i \<or> k = i")
    case True
    then show ?thesis using that own [of q] by (cases "j = i"; cases "k = i") auto
  next
    case False
    then show ?thesis using that I(3) by simp
  qed
  have 5: "exclusive ((ss(i := s)) j) ((ss(i := s)) k)" if "j \<noteq> k" for j k
    using that exc I(4) by (cases "j = i"; cases "k = i") auto
  show ?thesis unfolding adm_inv_def prod.case using 1 2 3 4 5 by blast
qed

lemma exclusive_not_admitted [simp]:
  "exclusive Idle s" "exclusive s Idle" "exclusive (Checked r t row cfg) s" "exclusive s (Checked r t row cfg)"
  "exclusive (Claimed r t row cfg) s" "exclusive s (Claimed r t row cfg)" "exclusive (Refused r) s" "exclusive s (Refused r)"
  by (simp_all add: exclusive_def)

lemma exclusive_sym: "exclusive s1 s2 \<Longrightarrow> exclusive s2 s1"
  unfolding exclusive_def by (metis Int_commute)

lemma adm_invD:
  assumes "adm_inv env (db, ss)"
  shows "fresh env db" "about (ss i) = Some x \<Longrightarrow> loaded env db x" "holds (ss i) = Some r \<Longrightarrow> activeRun db r"
    "holds (ss i) = Some r \<Longrightarrow> holds (ss j) = Some r \<Longrightarrow> i = j" "i \<noteq> j \<Longrightarrow> exclusive (ss i) (ss j)"
  using assms unfolding adm_inv_def prod.case by blast+

lemma loaded_same: "sameTables db db' \<Longrightarrow> loaded env db p \<Longrightarrow> loaded env db' p"
  by (rule onlyRun_loaded [OF onlyRun_same])

lemma admitCheck_loaded:
  assumes "admitCheck env r t db = (res, db')" and "about (checkedAs r t res) = Some x"
  shows "loaded env db' x"
proof -
  obtain row cfg where res: "res = Inr (Inr (row, cfg))" and x: "x = (r, t, row, cfg)"
    using assms(2) by (cases "(r, t, res)" rule: checkedAs.cases) auto
  obtain task y where "task \<in> set (ad_tasks db)" "y \<in> set (ad_runs db)" "rn_ID y = r" "rn_TaskID y = t"
    "tr_ID task = t" "\<not> tr_Deleted task" "row = taskRow (task, y)"
    "taskConfig env t (coalesce (tr_Metadata task) ''{}'') (ad_specs db) = Inr cfg"
    by (rule admitCheck_Inr [OF assms(1) [unfolded res]])
  then have "loaded env db x" unfolding loaded_def x prod.case by (auto simp: taskRow_def)
  then show ?thesis by (rule loaded_same [OF admitCheck_same [OF assms(1)]])
qed

definition notStale :: "AdmEnv \<Rightarrow> bool" where
  "notStale env \<longleftrightarrow> (\<forall>n m. ae_clock env m - ae_clock env n \<le> schedulerAdmissionClaimTTL)"

lemma claimRun_table:
  assumes "claimRun env r db = (res, db')"
  obtains (failed) "res \<noteq> Inr True" "ad_runs db' = ad_runs db"
  | (ran) "ad_runs db' = map (\<lambda>x. case claimRow r (ae_clock env (ad_ops db)) x of Some y \<Rightarrow> y | None \<Rightarrow> x) (ad_runs db)"
      "res = Inr (length (filter (\<lambda>x. claimRow r (ae_clock env (ad_ops db)) x \<noteq> None) (ad_runs db)) = 1)"
proof (cases "ae_fails env (ad_ops db)")
  case True
  then show thesis using assms by (intro failed) (auto simp: claimRun_def sqlUpdate_def Let_def)
next
  case False
  then show thesis using assms by (intro ran) (auto simp: claimRun_def sqlUpdate_def Let_def)
qed

lemma claimRow_active: "activeStatus (rn_Status x) \<Longrightarrow> y = (case claimRow r now x of Some z \<Rightarrow> z | None \<Rightarrow> x) \<Longrightarrow>
    activeStatus (rn_Status y) \<and> rn_ID y = rn_ID x"
  by (auto simp: claimRow_def activeStatus_def split: if_splits)

lemma claimRun_active:
  assumes "claimRun env r db = (res, db')" and "activeRun db q"
  shows "activeRun db' q"
  using assms(1)
proof (cases rule: claimRun_table)
  case failed
  then show ?thesis using assms(2) by (simp add: activeRun_def)
next
  case ran
  obtain x where x: "x \<in> set (ad_runs db)" "rn_ID x = q" "activeStatus (rn_Status x)"
    using assms(2) by (auto simp: activeRun_def)
  let ?y = "case claimRow r (ae_clock env (ad_ops db)) x of Some z \<Rightarrow> z | None \<Rightarrow> x"
  have "?y \<in> set (ad_runs db')" unfolding ran(1) using x(1) by simp
  then show ?thesis unfolding activeRun_def using claimRow_active [OF x(3) refl] x(2) by metis
qed

lemma claimRun_True:
  assumes c: "claimRun env r db = (Inr True, db')" and f: "fresh env db" and n: "notStale env"
  shows "activeRun db' r" and "\<not> activeRun db r"
proof -
  have table: "ad_runs db' = map (\<lambda>x. case claimRow r (ae_clock env (ad_ops db)) x of Some y \<Rightarrow> y | None \<Rightarrow> x) (ad_runs db)"
    and one: "length (filter (\<lambda>x. claimRow r (ae_clock env (ad_ops db)) x \<noteq> None) (ad_runs db)) = 1"
    using c by (cases rule: claimRun_table; simp)+
  obtain x where "x \<in> set (filter (\<lambda>x. claimRow r (ae_clock env (ad_ops db)) x \<noteq> None) (ad_runs db))"
    using one by (metis length_0_conv list.set_intros(1) neq_Nil_conv zero_neq_one)
  then have x: "x \<in> set (ad_runs db)" "claimRow r (ae_clock env (ad_ops db)) x \<noteq> None" by auto
  have id: "rn_ID x = r" using x(2) by (auto simp: claimRow_def split: if_splits)
  have "rn_Status x = ''queued''"
  proof (rule ccontr)
    assume "rn_Status x \<noteq> ''queued''"
    then have a: "rn_Status x = ''admitting''" "rn_UpdatedAt x < ae_clock env (ad_ops db) - schedulerAdmissionClaimTTL"
      using x(2) by (auto simp: claimRow_def split: if_splits)
    then obtain k where "rn_UpdatedAt x = ae_clock env k" using f x(1) by (auto simp: fresh_def)
    then show False using a(2) n unfolding notStale_def by (smt (verit))
  qed
  then have q: "\<not> activeStatus (rn_Status x)" by (simp add: activeStatus_def)
  show "\<not> activeRun db r"
  proof
    assume "activeRun db r"
    then obtain y where y: "y \<in> set (ad_runs db)" "rn_ID y = r" "activeStatus (rn_Status y)" by (auto simp: activeRun_def)
    have "inj_on rn_ID (set (ad_runs db))" using f by (simp add: fresh_def distinct_map)
    then have "y = x" using x(1) y(1,2) id by (auto dest: inj_onD)
    then show False using q y(3) by simp
  qed
  obtain y where y: "claimRow r (ae_clock env (ad_ops db)) x = Some y" using x(2) by auto
  then have "y \<in> set (ad_runs db')" unfolding table using x(1) by force
  moreover have "rn_ID y = r" "activeStatus (rn_Status y)"
    using y by (auto simp: claimRow_def activeStatus_def split: if_splits)
  ultimately show "activeRun db' r" unfolding activeRun_def by blast
qed

text \<open>An admitted session is exclusive with every other admitted one.\<close>

lemma decide_exclusive:
  assumes inv: "adm_inv env (db, ss)" and i: "ss i = Claimed r t row cfg" and j: "j \<noteq> i"
    and d: "admitClaimed env a r t row cfg db = (res, db')" and adm: "admitted res"
  shows "exclusive (Admitted r t row cfg) (ss j)"
  unfolding exclusive_def
proof (intro allI impI)
  fix r1 t1 row1 c1 r2 t2 row2 c2
  assume s1: "Admitted r t row cfg = Admitted r1 t1 row1 (Some c1)" and s2: "ss j = Admitted r2 t2 row2 (Some c2)"
    and ne: "t1 \<noteq> t2" and pr: "st_ProjectID row1 = st_ProjectID row2" "st_RepositoryID row1 = st_RepositoryID row2"
  have f: "fresh env db" by (rule adm_invD(1) [OF inv])
  have a2: "activeRun db r2" using adm_invD(3) [OF inv, of j r2] s2 by simp
  have l1: "loaded env db (r, t, row, cfg)" using adm_invD(2) [OF inv, of i] i by simp
  have l2: "loaded env db (r2, t2, row2, Some c2)" using adm_invD(2) [OF inv, of j] s2 by simp
  obtain task2 x2 where l2': "task2 \<in> set (ad_tasks db)" "x2 \<in> set (ad_runs db)" "rn_ID x2 = r2" "rn_TaskID x2 = t2"
    "tr_ID task2 = t2" "\<not> tr_Deleted task2" "st_ProjectID row2 = tr_ProjectID task2" "st_RepositoryID row2 = tr_RepositoryID task2"
    "taskConfig env t2 (coalesce (tr_Metadata task2) ''{}'') (ad_specs db) = Inr (Some c2)"
    using l2 unfolding loaded_def by auto
  obtain y2 where y2: "y2 \<in> set (ad_runs db)" "rn_ID y2 = r2" "activeStatus (rn_Status y2)"
    using a2 by (auto simp: activeRun_def)
  have "inj_on rn_ID (set (ad_runs db))" using f by (simp add: fresh_def distinct_map)
  then have "y2 = x2" using l2'(2,3) y2(1,2) by (auto dest: inj_onD)
  then have act: "activeStatus (rn_Status x2)" using y2(3) by simp
  have st: "st_ID row = t" using l1 unfolding loaded_def by auto
  have mem: "(t2, coalesce (tr_Metadata task2) ''{}'') \<in> set (activeRows row db)"
    using l2' act ne pr s1 st by (force simp: activeRows_def)
  obtain res2 where "admitted res2" "decideAdmission env a t row c1 db = (res2, db')"
    using admitClaimed_spec(2) [OF d adm] s1 by blast
  from decideAdmission_spec(2) [OF this(2) this(1) st mem] obtain c2' where
    "taskConfig env t2 (coalesce (tr_Metadata task2) ''{}'') (ad_specs db) = Inr (Some c2')"
    "owned (cf_Owns c1) \<inter> owned (cf_Owns c2') = {}"
    using ne s1 by auto
  then show "owned (cf_Owns c1) \<inter> owned (cf_Owns c2) = {}" using l2'(9) by simp
qed

lemma setRunStatus_active: "activeStatus s \<Longrightarrow> activeRun db q \<Longrightarrow> activeRun (setRunStatus r s now db) q"
proof -
  assume s: "activeStatus s" and "activeRun db q"
  then obtain x where x: "x \<in> set (ad_runs db)" "rn_ID x = q" "activeStatus (rn_Status x)" by (auto simp: activeRun_def)
  let ?y = "if rn_ID x = r then x\<lparr>rn_Status := s, rn_UpdatedAt := now\<rparr> else x"
  have "?y \<in> set (ad_runs (setRunStatus r s now db))" using x(1) by (simp add: setRunStatus_def)
  moreover have "rn_ID ?y = q" "activeStatus (rn_Status ?y)" using x s by simp_all
  ultimately show ?thesis unfolding activeRun_def by blast
qed

lemma adm_inv_other:
  assumes "adm_inv env (db, ss)" and "holds (ss i) = Some r" and "j \<noteq> i" and "holds (ss j) = Some q"
  shows "q \<noteq> r"
  using adm_invD(4) [OF assms(1,2), of j] assms(3,4) by metis

lemma admStep_inv:
  assumes "admStep env a p p'" and "adm_inv env p" and n: "notStale env"
  shows "adm_inv env p'"
  using assms(1,2)
proof (cases rule: admStep.cases)
  case (check ss i r t db res db')
  note inv = assms(2) [unfolded check(1)]
  have same: "sameTables db db'" by (rule admitCheck_same [OF check(4)])
  have h: "holds (checkedAs r t res) = None" by (cases "(r, t, res)" rule: checkedAs.cases) auto
  have e: "exclusive (checkedAs r t res) s" "exclusive s (checkedAs r t res)" for s
    by (cases "(r, t, res)" rule: checkedAs.cases; simp)+
  show ?thesis unfolding check(2)
  proof (rule adm_inv_step [OF inv onlyRun_same [OF same]])
    show "activeRun db' q" if "holds (ss j) = Some q" for j q
      by (rule sameTables_active [OF same adm_invD(3) [OF inv that]])
  qed (simp_all add: h e admitCheck_loaded [OF check(4)])
next
  case (claim ss i r t row cfg db res db')
  note inv = assms(2) [unfolded claim(1)]
  have act: "activeRun db' q" if "holds (ss j) = Some q" for j q
    by (rule claimRun_active [OF claim(4) adm_invD(3) [OF inv that]])
  have l: "loaded env db' (r, t, row, cfg)"
    by (rule onlyRun_loaded [OF claimRun_onlyRun [OF claim(4)]]) (use adm_invD(2) [OF inv, of i] claim(3) in simp)
  have new: "activeRun db' q \<and> (\<forall>j. j \<noteq> i \<longrightarrow> holds (ss j) \<noteq> Some q)"
    if "holds (if res = Inr True then Claimed r t row cfg else Idle) = Some q" for q
  proof -
    have c: "claimRun env r db = (Inr True, db')" and q: "q = r" using that claim(4) by (auto split: if_splits)
    note t = claimRun_True [OF c adm_invD(1) [OF inv] n]
    then show ?thesis unfolding q using adm_invD(3) [OF inv] by blast
  qed
  show ?thesis unfolding claim(2)
    by (rule adm_inv_step [OF inv claimRun_onlyRun [OF claim(4)] act new]) (auto simp: l split: if_splits)
next
  case (decide ss i r t row cfg db res db')
  note inv = assms(2) [unfolded decide(1)]
  have same: "sameTables db db'" by (rule admitClaimed_spec(1) [OF decide(4)])
  have l: "loaded env db' (r, t, row, cfg)"
    by (rule loaded_same [OF same]) (use adm_invD(2) [OF inv, of i] decide(3) in simp)
  have hr: "holds (ss i) = Some r" by (simp add: decide(3))
  show ?thesis unfolding decide(2)
  proof (rule adm_inv_step [OF inv onlyRun_same [OF same]])
    show "activeRun db' q" if "holds (ss j) = Some q" for j q
      by (rule sameTables_active [OF same adm_invD(3) [OF inv that]])
    show "activeRun db' q \<and> (\<forall>j. j \<noteq> i \<longrightarrow> holds (ss j) \<noteq> Some q)"
      if "holds (if admitted res then Admitted r t row cfg else Refused r) = Some q" for q
    proof -
      have "q = r" using that by (simp split: if_splits)
      then show ?thesis
        using sameTables_active [OF same adm_invD(3) [OF inv hr]] adm_invD(4) [OF inv hr] by blast
    qed
    show "exclusive (if admitted res then Admitted r t row cfg else Refused r) (ss j) \<and>
        exclusive (ss j) (if admitted res then Admitted r t row cfg else Refused r)" if "j \<noteq> i" for j
      using decide_exclusive [OF inv decide(3) that decide(4)] exclusive_sym by auto
  qed (auto simp: l split: if_splits)
next
  case (release ss i r db res db')
  note inv = assms(2) [unfolded release(1)]
  have hr: "holds (ss i) = Some r" by (simp add: release(3))
  note o = ReleaseRun_onlyRun [OF release(4)]
  show ?thesis unfolding release(2)
  proof (rule adm_inv_step [OF inv o])
    show "activeRun db' q" if "j \<noteq> i" "holds (ss j) = Some q" for j q
      by (rule onlyRun_active [OF o adm_inv_other [OF inv hr that] adm_invD(3) [OF inv that(2)]])
  qed simp_all
next
  case (begin_run ss i r t row cfg db now)
  note inv = assms(2) [unfolded begin_run(1)]
  have act: "activeRun (setRunStatus r ''running'' now db) q" if "holds (ss j) = Some q" for j q
    by (rule setRunStatus_active [OF _ adm_invD(3) [OF inv that]]) (simp add: activeStatus_def)
  have o: "onlyRun env r db (setRunStatus r ''running'' now db)" by (rule setRunStatus_onlyRun) simp
  have "adm_inv env (setRunStatus r ''running'' now db, ss(i := ss i))"
  proof (rule adm_inv_step [OF inv o act])
    show "activeRun (setRunStatus r ''running'' now db) q \<and> (\<forall>j. j \<noteq> i \<longrightarrow> holds (ss j) \<noteq> Some q)"
      if "holds (ss i) = Some q" for q
      using act [OF that] adm_invD(4) [OF inv that] by blast
    show "loaded env (setRunStatus r ''running'' now db) x" if "about (ss i) = Some x" for x
      by (rule onlyRun_loaded [OF o adm_invD(2) [OF inv that]])
    show "exclusive (ss i) (ss j) \<and> exclusive (ss j) (ss i)" if "j \<noteq> i" for j
      using that by (intro conjI adm_invD(5) [OF inv]) simp_all
  qed
  then show ?thesis unfolding begin_run(2) by (simp add: fun_upd_triv)
next
  case (finish_run ss i r t row cfg status db now)
  note inv = assms(2) [unfolded finish_run(1)]
  have hr: "holds (ss i) = Some r" by (simp add: finish_run(3))
  note o = setRunStatus_onlyRun [OF finish_run(4), of env r db now]
  show ?thesis unfolding finish_run(2)
  proof (rule adm_inv_step [OF inv o])
    show "activeRun (setRunStatus r status now db) q" if "j \<noteq> i" "holds (ss j) = Some q" for j q
      by (rule onlyRun_active [OF o adm_inv_other [OF inv hr that] adm_invD(3) [OF inv that(2)]])
  qed simp_all
next
  case (enqueue new db ss)
  note inv = assms(2) [unfolded enqueue(1)]
  note o = enqueue_onlyRun [OF enqueue(3,4), of env]
  have act: "activeRun (db\<lparr>ad_runs := ad_runs db @ [new]\<rparr>) q" if "holds (ss j) = Some q" for j q
    using adm_invD(3) [OF inv that] by (auto simp: activeRun_def)
  have "adm_inv env (db\<lparr>ad_runs := ad_runs db @ [new]\<rparr>, ss(0 := ss 0))"
  proof (rule adm_inv_step [OF inv o act])
    show "activeRun (db\<lparr>ad_runs := ad_runs db @ [new]\<rparr>) q \<and> (\<forall>j. j \<noteq> 0 \<longrightarrow> holds (ss j) \<noteq> Some q)"
      if "holds (ss 0) = Some q" for q
      using act [OF that] adm_invD(4) [OF inv that] by blast
    show "loaded env (db\<lparr>ad_runs := ad_runs db @ [new]\<rparr>) x" if "about (ss 0) = Some x" for x
      by (rule onlyRun_loaded [OF o adm_invD(2) [OF inv that]])
    show "exclusive (ss 0) (ss j) \<and> exclusive (ss j) (ss 0)" if "j \<noteq> 0" for j
      using that by (intro conjI adm_invD(5) [OF inv]) simp_all
  qed
  then show ?thesis unfolding enqueue(2) by (simp add: fun_upd_triv)
qed

definition quietStart :: "AdmDB \<Rightarrow> bool" where
  "quietStart db \<longleftrightarrow> distinct (map rn_ID (ad_runs db)) \<and> distinct (map tr_ID (ad_tasks db)) \<and>
     (\<forall>x \<in> set (ad_runs db). \<not> activeStatus (rn_Status x))"

lemma admSteps_inv:
  assumes "(admStep env a)\<^sup>*\<^sup>* (db0, \<lambda>_. Idle) p" and "quietStart db0" and "notStale env"
  shows "adm_inv env p"
  using assms(1)
proof (induction rule: rtranclp_induct)
  case base
  then show ?case
    using assms(2) by (auto simp: adm_inv_def fresh_def quietStart_def activeStatus_def)
next
  case (step p p')
  then show ?case using admStep_inv [OF step.hyps(2) step.IH assms(3)] by simp
qed



section \<open>Samples\<close>

definition owning :: "string list \<Rightarrow> schedulerConfig" where
  "owning files = \<lparr>cf_Owns = files, cf_DependsOn = [], cf_CPU = f64_of_int 1, cf_MemoryMB = 64\<rparr>"

definition adm_env :: "int \<Rightarrow> AdmEnv" where
  "adm_env tick =
     \<lparr>ae_fails = (\<lambda>_. False), ae_clock = (\<lambda>n. tick * int n),
      ae_scheduler = (\<lambda>raw. Inr (Some (owning [raw]))), ae_admission = (\<lambda>_. Inr None), ae_strings = (\<lambda>_. Inr [])\<rparr>"

definition adm_sched :: SchedulerAdmission where
  "adm_sched = NewSchedulerAdmission \<lparr>sc_MaxParallel = 4, sc_CPU = f64_of_int 4, sc_MemoryMB = 4096\<rparr>"

definition adm_task :: "string \<Rightarrow> string \<Rightarrow> TaskRow" where
  "adm_task tid file = \<lparr>tr_ID = tid, tr_ProjectID = ''p'', tr_RepositoryID = ''repo'', tr_Status = ''ready'',
     tr_Metadata = Some file, tr_Deleted = False\<rparr>"

definition adm_run :: "string \<Rightarrow> string \<Rightarrow> RunRow" where
  "adm_run rid tid = \<lparr>rn_ID = rid, rn_TaskID = tid, rn_Status = ''queued'', rn_Metadata = None, rn_UpdatedAt = 0\<rparr>"

definition adm_db :: "string \<Rightarrow> AdmDB" where
  "adm_db file2 = \<lparr>ad_runs = [adm_run ''r1'' ''t1'', adm_run ''r2'' ''t2'', adm_run ''r3'' ''t1''],
     ad_tasks = [adm_task ''t1'' ''a.go'', adm_task ''t2'' file2], ad_specs = [], ad_ops = 0\<rparr>"

definition adm_row :: "string \<Rightarrow> string \<Rightarrow> schedulerTaskRow" where
  "adm_row tid file = \<lparr>st_ID = tid, st_ProjectID = ''p'', st_RepositoryID = ''repo'', st_Status = ''ready'',
     st_Metadata = file, st_RunMetadata = ''{}''\<rparr>"

lemma adm_first_phases:
  "fst (admitCheck (adm_env 0) ''r1'' ''t1'' (adm_db ''b.go'')) = Inr (Inr (adm_row ''t1'' ''a.go'', Some (owning [''a.go''])))"
  by code_simp

lemma claimed_twice:
  "let env = adm_env (11 * 60 * 1000000000); c = Some (owning [''a.go'']);
       (first, d1) = claimRun env ''r1'' (adm_db ''a.go'');
       (second, d2) = claimRun env ''r1'' d1;
       (decision, d3) = admitClaimed env adm_sched ''r1'' ''t1'' (adm_row ''t1'' ''a.go'') c d2;
       d4 = snd (ReleaseRun env (Some adm_sched) ''r1'' d3);
       (other, d5) = AdmitRun env (Some adm_sched) ''r2'' ''t2'' d4
   in first = Inr True \<and> second = Inr True \<and> decision = Inr allow \<and> other = Inr allow \<and>
      OwnershipConflict [''a.go''] [''a.go'']"
  by code_simp

lemma same_task_admitted_twice:
  "let (x, d1) = AdmitRun (adm_env 0) (Some adm_sched) ''r1'' ''t1'' (adm_db ''b.go'');
       (y, d2) = AdmitRun (adm_env 0) (Some adm_sched) ''r3'' ''t1'' d1;
       (z, d3) = AdmitRun (adm_env 0) (Some adm_sched) ''r2'' ''t2'' d2
   in x = Inr allow \<and> y = Inr allow \<and> z = Inl (SchedulerFailed (DuplicateTaskID ''t1''))"
  by code_simp

text \<open>Two sessions whose phases alternate, on disjoint files: both are admitted.\<close>

definition "adm_d1 = snd (admitCheck (adm_env 0) ''r1'' ''t1'' (adm_db ''b.go''))"
definition "adm_d2 = snd (admitCheck (adm_env 0) ''r2'' ''t2'' adm_d1)"
definition "adm_d3 = snd (claimRun (adm_env 0) ''r1'' adm_d2)"
definition "adm_d4 = snd (claimRun (adm_env 0) ''r2'' adm_d3)"
definition "adm_c1 = Some (owning [''a.go''])"
definition "adm_c2 = Some (owning [''b.go''])"
definition "adm_d5 = snd (admitClaimed (adm_env 0) adm_sched ''r1'' ''t1'' (adm_row ''t1'' ''a.go'') adm_c1 adm_d4)"
definition "adm_d6 = snd (admitClaimed (adm_env 0) adm_sched ''r2'' ''t2'' (adm_row ''t2'' ''b.go'') adm_c2 adm_d5)"

lemma adm_phases:
  "admitCheck (adm_env 0) ''r1'' ''t1'' (adm_db ''b.go'') = (Inr (Inr (adm_row ''t1'' ''a.go'', adm_c1)), adm_d1)"
  "admitCheck (adm_env 0) ''r2'' ''t2'' adm_d1 = (Inr (Inr (adm_row ''t2'' ''b.go'', adm_c2)), adm_d2)"
  "claimRun (adm_env 0) ''r1'' adm_d2 = (Inr True, adm_d3)"
  "claimRun (adm_env 0) ''r2'' adm_d3 = (Inr True, adm_d4)"
  "admitClaimed (adm_env 0) adm_sched ''r1'' ''t1'' (adm_row ''t1'' ''a.go'') adm_c1 adm_d4 = (Inr allow, adm_d5)"
  "admitClaimed (adm_env 0) adm_sched ''r2'' ''t2'' (adm_row ''t2'' ''b.go'') adm_c2 adm_d5 = (Inr allow, adm_d6)"
proof -
  have "fst (admitCheck (adm_env 0) ''r1'' ''t1'' (adm_db ''b.go'')) = Inr (Inr (adm_row ''t1'' ''a.go'', adm_c1))" by code_simp
  then show "admitCheck (adm_env 0) ''r1'' ''t1'' (adm_db ''b.go'') = (Inr (Inr (adm_row ''t1'' ''a.go'', adm_c1)), adm_d1)"
    by (simp add: adm_d1_def prod_eq_iff)
  have "fst (admitCheck (adm_env 0) ''r2'' ''t2'' adm_d1) = Inr (Inr (adm_row ''t2'' ''b.go'', adm_c2))" by code_simp
  then show "admitCheck (adm_env 0) ''r2'' ''t2'' adm_d1 = (Inr (Inr (adm_row ''t2'' ''b.go'', adm_c2)), adm_d2)"
    by (simp add: adm_d2_def prod_eq_iff)
  have "fst (claimRun (adm_env 0) ''r1'' adm_d2) = Inr True" by code_simp
  then show "claimRun (adm_env 0) ''r1'' adm_d2 = (Inr True, adm_d3)" by (simp add: adm_d3_def prod_eq_iff)
  have "fst (claimRun (adm_env 0) ''r2'' adm_d3) = Inr True" by code_simp
  then show "claimRun (adm_env 0) ''r2'' adm_d3 = (Inr True, adm_d4)" by (simp add: adm_d4_def prod_eq_iff)
  have "fst (admitClaimed (adm_env 0) adm_sched ''r1'' ''t1'' (adm_row ''t1'' ''a.go'') adm_c1 adm_d4) = Inr allow" by code_simp
  then show "admitClaimed (adm_env 0) adm_sched ''r1'' ''t1'' (adm_row ''t1'' ''a.go'') adm_c1 adm_d4 = (Inr allow, adm_d5)"
    by (simp add: adm_d5_def prod_eq_iff)
  have "fst (admitClaimed (adm_env 0) adm_sched ''r2'' ''t2'' (adm_row ''t2'' ''b.go'') adm_c2 adm_d5) = Inr allow" by code_simp
  then show "admitClaimed (adm_env 0) adm_sched ''r2'' ''t2'' (adm_row ''t2'' ''b.go'') adm_c2 adm_d5 = (Inr allow, adm_d6)"
    by (simp add: adm_d6_def prod_eq_iff)
qed

definition adm_sessions :: "Session \<Rightarrow> Session \<Rightarrow> nat \<Rightarrow> Session" where
  "adm_sessions s1 s2 = (\<lambda>_. Idle)(0 := s1, 1 := s2)"

lemma adm_sessions_upd:
  "(adm_sessions s1 s2)(0 := s) = adm_sessions s s2" "(adm_sessions s1 s2)(1 := s) = adm_sessions s1 s"
  "adm_sessions s1 s2 0 = s1" "adm_sessions s1 s2 1 = s2" "(\<lambda>_. Idle) = adm_sessions Idle Idle"
  by (auto simp: adm_sessions_def fun_eq_iff)

lemma adm_trace:
  "(admStep (adm_env 0) adm_sched)\<^sup>*\<^sup>* (adm_db ''b.go'', \<lambda>_. Idle)
     (adm_d6, adm_sessions (Admitted ''r1'' ''t1'' (adm_row ''t1'' ''a.go'') adm_c1) (Admitted ''r2'' ''t2'' (adm_row ''t2'' ''b.go'') adm_c2))"
proof -
  let ?row1 = "adm_row ''t1'' ''a.go''" and ?row2 = "adm_row ''t2'' ''b.go''"
  let ?step = "admStep (adm_env 0) adm_sched"
  have 1: "?step (adm_db ''b.go'', adm_sessions Idle Idle) (adm_d1, adm_sessions (Checked ''r1'' ''t1'' ?row1 adm_c1) Idle)"
    using admStep.check [of "adm_sessions Idle Idle" 0, OF _ adm_phases(1)] by (simp add: adm_sessions_upd)
  have 2: "?step (adm_d1, adm_sessions (Checked ''r1'' ''t1'' ?row1 adm_c1) Idle)
      (adm_d2, adm_sessions (Checked ''r1'' ''t1'' ?row1 adm_c1) (Checked ''r2'' ''t2'' ?row2 adm_c2))"
    using admStep.check [of "adm_sessions (Checked ''r1'' ''t1'' ?row1 adm_c1) Idle" 1, OF _ adm_phases(2)]
    by (simp add: adm_sessions_upd del: One_nat_def)
  have 3: "?step (adm_d2, adm_sessions (Checked ''r1'' ''t1'' ?row1 adm_c1) (Checked ''r2'' ''t2'' ?row2 adm_c2))
      (adm_d3, adm_sessions (Claimed ''r1'' ''t1'' ?row1 adm_c1) (Checked ''r2'' ''t2'' ?row2 adm_c2))"
    using admStep.claim [of "adm_sessions (Checked ''r1'' ''t1'' ?row1 adm_c1) (Checked ''r2'' ''t2'' ?row2 adm_c2)" 0,
        OF _ adm_phases(3)] by (simp add: adm_sessions_upd)
  have 4: "?step (adm_d3, adm_sessions (Claimed ''r1'' ''t1'' ?row1 adm_c1) (Checked ''r2'' ''t2'' ?row2 adm_c2))
      (adm_d4, adm_sessions (Claimed ''r1'' ''t1'' ?row1 adm_c1) (Claimed ''r2'' ''t2'' ?row2 adm_c2))"
    using admStep.claim [of "adm_sessions (Claimed ''r1'' ''t1'' ?row1 adm_c1) (Checked ''r2'' ''t2'' ?row2 adm_c2)" 1,
        OF _ adm_phases(4)] by (simp add: adm_sessions_upd del: One_nat_def)
  have a: "admitted (Inr allow)" by (simp add: admitted_def allow_def)
  have 5: "?step (adm_d4, adm_sessions (Claimed ''r1'' ''t1'' ?row1 adm_c1) (Claimed ''r2'' ''t2'' ?row2 adm_c2))
      (adm_d5, adm_sessions (Admitted ''r1'' ''t1'' ?row1 adm_c1) (Claimed ''r2'' ''t2'' ?row2 adm_c2))"
    using admStep.decide [of "adm_sessions (Claimed ''r1'' ''t1'' ?row1 adm_c1) (Claimed ''r2'' ''t2'' ?row2 adm_c2)" 0,
        OF _ adm_phases(5)] by (simp add: adm_sessions_upd a)
  have 6: "?step (adm_d5, adm_sessions (Admitted ''r1'' ''t1'' ?row1 adm_c1) (Claimed ''r2'' ''t2'' ?row2 adm_c2))
      (adm_d6, adm_sessions (Admitted ''r1'' ''t1'' ?row1 adm_c1) (Admitted ''r2'' ''t2'' ?row2 adm_c2))"
    using admStep.decide [of "adm_sessions (Admitted ''r1'' ''t1'' ?row1 adm_c1) (Claimed ''r2'' ''t2'' ?row2 adm_c2)" 1,
        OF _ adm_phases(6)] by (simp add: adm_sessions_upd a del: One_nat_def)
  note more = converse_rtranclp_into_rtranclp [where r = ?step]
  show ?thesis unfolding adm_sessions_upd(5)
    by (rule more [OF 1 more [OF 2 more [OF 3 more [OF 4 more [OF 5 more [OF 6 rtranclp.rtrancl_refl]]]]]])
qed


text \<open>
  Two ways the exclusion fails in the code.  A claim that has grown stale can be claimed again, and
  the first claimant, when it is refused at last, releases the claim of the second: a run of another
  task that owns the same file is then admitted beside it.  And the runs of one task are not compared:
  two of them are admitted together, and from then on every admission on the repository fails with
  the error of a duplicate task.
\<close>

theorem admission_gaps:
  "(let env = adm_env (11 * 60 * 1000000000); c = Some (owning [''a.go'']);
       (first, d1) = claimRun env ''r1'' (adm_db ''a.go'');
       (second, d2) = claimRun env ''r1'' d1;
       (decision, d3) = admitClaimed env adm_sched ''r1'' ''t1'' (adm_row ''t1'' ''a.go'') c d2;
       d4 = snd (ReleaseRun env (Some adm_sched) ''r1'' d3);
       (other, d5) = AdmitRun env (Some adm_sched) ''r2'' ''t2'' d4
    in first = Inr True \<and> second = Inr True \<and> decision = Inr allow \<and> other = Inr allow \<and>
       OwnershipConflict [''a.go''] [''a.go'']) \<and>
   (let (x, d1) = AdmitRun (adm_env 0) (Some adm_sched) ''r1'' ''t1'' (adm_db ''b.go'');
        (y, d2) = AdmitRun (adm_env 0) (Some adm_sched) ''r3'' ''t1'' d1;
        (z, d3) = AdmitRun (adm_env 0) (Some adm_sched) ''r2'' ''t2'' d2
    in x = Inr allow \<and> y = Inr allow \<and> z = Inl (SchedulerFailed (DuplicateTaskID ''t1'')))"
  by (rule conjI [OF claimed_twice same_task_admitted_twice])


end
