(* ===== verification/GoFloatOrder.thy ===== *)
theory GoFloatOrder
  imports GoFloat Complex_Main
begin

text \<open>
  The comparisons of \<open>float64\<close> as an order of real numbers: they compare the place of a value among the infinities and its real value.
\<close>

fun f64_place :: "f64 \<Rightarrow> int" where
  "f64_place FNaN = 0"
| "f64_place (FInf s) = (if s then -1 else 1)"
| "f64_place (FNum v e) = 0"

fun f64_real :: "f64 \<Rightarrow> real" where
  "f64_real FNaN = 0"
| "f64_real (FInf s) = 0"
| "f64_real (FNum v e) = of_int v * 2 powr of_int e"

lemma scaled_real:
  assumes "k \<le> e"
  shows "of_int v * 2 powr of_int e = of_int (v * 2 ^ nat (e - k)) * (2::real) powr of_int k"
proof -
  have "(2::real) powr of_int (e - k) = 2 ^ nat (e - k)"
    using assms by (simp only: powr_real_of_int diff_ge_0_iff_ge if_True zero_less_numeral)
  then have "(2::real) ^ nat (e - k) * 2 powr of_int k = 2 powr (of_int (e - k) + of_int k)"
    by (simp only: powr_add)
  also have "\<dots> = 2 powr of_int e" by simp
  finally show ?thesis by (simp add: mult.assoc)
qed

lemma f64_less_real:
  "f64_less (FNum v e) (FNum w f) \<longleftrightarrow> f64_real (FNum v e) < f64_real (FNum w f)"
proof -
  have p: "0 < (2::real) powr of_int (min e f)" by simp
  show ?thesis
    unfolding f64_real.simps scaled_real [of "min e f" e v, OF min.cobounded1]
      scaled_real [of "min e f" f w, OF min.cobounded2]
    using mult_less_cancel_right_pos [OF p] by (simp only: f64_less.simps Let_def of_int_less_iff)
qed

lemma f64_eq_real:
  "f64_eq (FNum v e) (FNum w f) \<longleftrightarrow> f64_real (FNum v e) = f64_real (FNum w f)"
proof -
  have p: "(2::real) powr of_int (min e f) \<noteq> 0" by simp
  show ?thesis
    unfolding f64_real.simps scaled_real [of "min e f" e v, OF min.cobounded1]
      scaled_real [of "min e f" f w, OF min.cobounded2]
    unfolding mult_right_cancel [OF p] of_int_eq_iff by (simp only: f64_eq.simps Let_def)  
qed

lemma f64_less_order:
  assumes "x \<noteq> FNaN" "y \<noteq> FNaN"
  shows "f64_less x y \<longleftrightarrow> f64_place x < f64_place y \<or> f64_place x = f64_place y \<and> f64_real x < f64_real y"
proof (cases x; cases y)
  fix v e w f
  assume "x = FNum v e" "y = FNum w f"
  then show ?thesis using f64_less_real [of v e w f] by (simp del: f64_less.simps)
qed (use assms in auto)

lemma f64_eq_order:
  assumes "x \<noteq> FNaN" "y \<noteq> FNaN"
  shows "f64_eq x y \<longleftrightarrow> f64_place x = f64_place y \<and> f64_real x = f64_real y"
proof (cases x; cases y)
  fix v e w f
  assume "x = FNum v e" "y = FNum w f"
  then show ?thesis using f64_eq_real [of v e w f] by (simp del: f64_eq.simps)
qed (use assms in auto)

end
