(* ===== verification/GoSort.thy ===== *)
theory GoSort
  imports GoPrelude "HOL-Library.Multiset"
begin

text \<open>
  Go's package \<open>sort\<close>, as far as its documentation describes it.

  \<open>sort.Slice\<close> for a strict weak order (asymmetric, with transitive incomparability) on the elements: a permutation in which no element is
  less than an earlier one.  It is not stable, so this is all that its documentation promises.
\<close>

definition strictWeak :: "('a \<Rightarrow> 'a \<Rightarrow> bool) \<Rightarrow> 'a set \<Rightarrow> bool" where
  "strictWeak lt A \<longleftrightarrow>
     (\<forall>x \<in> A. \<forall>y \<in> A. lt x y \<longrightarrow> \<not> lt y x) \<and>
     (\<forall>x \<in> A. \<forall>y \<in> A. \<forall>z \<in> A. lt x z \<longrightarrow> lt x y \<or> lt y z)"

definition sortsSlices :: "(('a \<Rightarrow> 'a \<Rightarrow> bool) \<Rightarrow> 'a list \<Rightarrow> 'a list) \<Rightarrow> bool" where
  "sortsSlices sortSlice \<longleftrightarrow>
     (\<forall>lt xs. strictWeak lt (set xs) \<longrightarrow>
        mset (sortSlice lt xs) = mset xs \<and> sorted_wrt (\<lambda>x y. \<not> lt y x) (sortSlice lt xs))"

text \<open>Insertion sort is such a function.\<close>

fun insertBy :: "('a \<Rightarrow> 'a \<Rightarrow> bool) \<Rightarrow> 'a \<Rightarrow> 'a list \<Rightarrow> 'a list" where
  "insertBy lt x [] = [x]"
| "insertBy lt x (y # ys) = (if lt y x then y # insertBy lt x ys else x # y # ys)"

definition sortBy :: "('a \<Rightarrow> 'a \<Rightarrow> bool) \<Rightarrow> 'a list \<Rightarrow> 'a list" where
  "sortBy lt xs = foldr (insertBy lt) xs []"

lemma strictWeak_subset: "strictWeak lt B \<Longrightarrow> A \<subseteq> B \<Longrightarrow> strictWeak lt A"
  unfolding strictWeak_def by (elim conjE, intro conjI ballI) (simp_all add: subset_iff)

lemma strictWeak_asym: "strictWeak lt A \<Longrightarrow> x \<in> A \<Longrightarrow> y \<in> A \<Longrightarrow> lt x y \<Longrightarrow> \<not> lt y x"
  unfolding strictWeak_def by (elim conjE) simp

lemma strictWeak_split:
  "strictWeak lt A \<Longrightarrow> x \<in> A \<Longrightarrow> y \<in> A \<Longrightarrow> z \<in> A \<Longrightarrow> lt x z \<Longrightarrow> lt x y \<or> lt y z"
  unfolding strictWeak_def by (elim conjE) simp

lemma mset_insertBy [simp]: "mset (insertBy lt x ys) = add_mset x (mset ys)"
  by (induction ys) auto

lemma set_insertBy [simp]: "set (insertBy lt x ys) = insert x (set ys)"
  by (induction ys) auto

lemma sorted_insertBy:
  "strictWeak lt (insert x (set ys)) \<Longrightarrow> sorted_wrt (\<lambda>a b. \<not> lt b a) ys \<Longrightarrow>
   sorted_wrt (\<lambda>a b. \<not> lt b a) (insertBy lt x ys)"
proof (induction ys)
  case Nil
  then show ?case by simp
next
  case (Cons y ys)
  have sub: "strictWeak lt (insert x (set ys))" using Cons.prems(1) by (rule strictWeak_subset) auto
  show ?case
  proof (cases "lt y x")
    case True
    have "\<not> lt x y" using strictWeak_asym [OF Cons.prems(1) _ _ True] by simp
    with True Cons.prems(2) Cons.IH [OF sub] show ?thesis by auto
  next
    case False
    have "\<not> lt z x" if "z \<in> set ys" for z
      using that False Cons.prems(2) strictWeak_split [OF Cons.prems(1), of z y x] by auto
    with False Cons.prems(2) show ?thesis by auto
  qed
qed

lemma sortBy_sorts: "sortsSlices sortBy"
proof -
  have "mset (sortBy lt xs) = mset xs" for lt and xs :: "'a list"
    by (induction xs) (auto simp: sortBy_def)
  moreover have "strictWeak lt (set xs) \<Longrightarrow> sorted_wrt (\<lambda>x y. \<not> lt y x) (sortBy lt xs)" for lt and xs :: "'a list"
  proof (induction xs)
    case Nil
    then show ?case by (simp add: sortBy_def)
  next
    case (Cons x xs)
    have e: "set (sortBy lt xs) = set xs" for xs :: "'a list" by (induction xs) (auto simp: sortBy_def)
    from Cons.prems have "strictWeak lt (set xs)" by (rule strictWeak_subset) auto
    with Cons.IH have "sorted_wrt (\<lambda>x y. \<not> lt y x) (sortBy lt xs)" by blast
    moreover have "strictWeak lt (insert x (set (sortBy lt xs)))" using Cons.prems by (simp add: e)
    ultimately have "sorted_wrt (\<lambda>x y. \<not> lt y x) (insertBy lt x (sortBy lt xs))" by (rule sorted_insertBy [rotated])
    then show ?case by (simp add: sortBy_def)
  qed
  ultimately show ?thesis unfolding sortsSlices_def by simp
qed

lemma sortsSlices_first:
  assumes "sortsSlices sortSlice" "strictWeak lt (set xs)" "xs \<noteq> []"
  shows "hd (sortSlice lt xs) \<in> set xs \<and> (\<forall>x \<in> set xs. \<not> lt x (hd (sortSlice lt xs)))"
proof -
  let ?ys = "sortSlice lt xs"
  from assms(1,2) have m: "mset ?ys = mset xs" and s: "sorted_wrt (\<lambda>x y. \<not> lt y x) ?ys"
    by (simp_all add: sortsSlices_def)
  from m have set: "set ?ys = set xs" by (rule mset_eq_setD)
  with assms(3) obtain y ys where ys: "?ys = y # ys" by (cases ?ys) auto
  have "\<not> lt y y" using strictWeak_asym [OF assms(2), of y y] set ys by auto
  with s ys set show ?thesis by auto
qed

end
