(* ===== verification/ModelRouter.thy ===== *)
theory ModelRouter
  imports GoText GoFloatOrder GoSort
begin

text \<open>
  The model router (\<open>apps/api/internal/modelrouter/router.go\<close>): it scores the models of the available
  providers for a task, calls the best one, and falls back on the others.

  A provider is the record of its functions; its answer to a call may depend on the calls made
  before, which are the state of the router here.  \<open>sort.Slice\<close> is not stable, so its result is a
  parameter.  Scores are \<open>float64\<close>.
\<close>

section \<open>Models and providers\<close>

record Message =
  ms_Role :: string
  ms_Content :: string

record RouterConfig =
  rc_DefaultModel :: string
  rc_DefaultProvider :: string
  rc_MaxCostPer1K :: f64
  rc_ProviderPriority :: "string list"

record ModelInfo =
  mi_Name :: string
  mi_Provider :: string
  mi_MaxContext :: int
  mi_CodingStrength :: int
  mi_ReasoningStrength :: int
  mi_LatencyMs :: int
  mi_CostPer1KInput :: f64
  mi_CostPer1KOutput :: f64
  mi_SupportsStructuredOutput :: bool
  mi_SupportsVision :: bool
  mi_SupportsFunctionCalling :: bool

record CallRequest =
  cq_TaskType :: string
  cq_Difficulty :: string
  cq_LatencyReq :: string
  cq_ContextSize :: int
  cq_StructuredReq :: bool
  cq_CostCap :: f64
  cq_PreferredModel :: string
  cq_Messages :: "Message list"

record CallResult =
  cs_Content :: string
  cs_PromptTokens :: int
  cs_CompletionTokens :: int
  cs_TotalTokens :: int
  cs_Cost :: f64
  cs_LatencyMs :: int
  cs_Model :: string
  cs_Provider :: string
  cs_FinishReason :: string

type_synonym Calls = "(string \<times> CallRequest) list"

record ModelProvider =
  mp_Name :: string
  mp_Models :: "ModelInfo list"
  mp_Call :: "Calls \<Rightarrow> CallRequest \<Rightarrow> string + CallResult"
  mp_IsAvailable :: bool

record Router =
  ro_providers :: "ModelProvider list"
  ro_config :: RouterConfig

record Score =
  so_Model :: ModelInfo
  so_Provider :: ModelProvider
  so_Score :: f64
  so_IsFallback :: bool

text \<open>A decimal fraction: the nearest float.\<close>

definition decimal :: "int \<Rightarrow> int \<Rightarrow> f64" where
  "decimal n d = f64_div (f64_of_int n) (f64_of_int d)"

definition DefaultConfig :: RouterConfig where
  "DefaultConfig =
     \<lparr>rc_DefaultModel = ''gpt-4o'', rc_DefaultProvider = ''openai'', rc_MaxCostPer1K = decimal 1 10,
      rc_ProviderPriority = [''openai'', ''bifrost'', ''anthropic'', ''groq'', ''fireworks'', ''gemini'']\<rparr>"

definition NewRouter :: "RouterConfig option \<Rightarrow> ModelProvider list \<Rightarrow> Router" where
  "NewRouter config providers =
     \<lparr>ro_providers = providers, ro_config = (case config of None \<Rightarrow> DefaultConfig | Some c \<Rightarrow> c)\<rparr>"

definition RegisterProvider :: "Router \<Rightarrow> ModelProvider \<Rightarrow> Router" where
  "RegisterProvider r p = r\<lparr>ro_providers := ro_providers r @ [p]\<rparr>"

definition AllModels :: "Router \<Rightarrow> ModelInfo list" where
  "AllModels r = concat (map mp_Models (ro_providers r))"

definition AvailableProviders :: "Router \<Rightarrow> string list" where
  "AvailableProviders r = map mp_Name (filter mp_IsAvailable (ro_providers r))"

section \<open>Scores\<close>

abbreviation times_int :: "int \<Rightarrow> int \<Rightarrow> f64" where
  "times_int n k \<equiv> f64_mul (f64_of_int n) (f64_of_int k)"

definition taskScore :: "ModelInfo \<Rightarrow> string \<Rightarrow> f64 \<Rightarrow> f64" where
  "taskScore model taskType score =
     (if taskType = ''code'' \<or> taskType = ''refactor'' then
        (let s1 = f64_add score (times_int (mi_CodingStrength model) 5)
         in if mi_SupportsStructuredOutput model then f64_add s1 (f64_of_int 5) else s1)
      else if taskType = ''debug'' then
        f64_add (f64_add score (times_int (mi_ReasoningStrength model) 4)) (times_int (mi_CodingStrength model) 3)
      else if taskType = ''review'' then f64_add score (times_int (mi_ReasoningStrength model) 5)
      else if taskType = ''test'' then
        (let s1 = f64_add score (times_int (mi_CodingStrength model) 4)
         in if mi_SupportsStructuredOutput model then f64_add s1 (f64_of_int 5) else s1)
      else if taskType = ''architecture'' then
        f64_add (f64_add score (times_int (mi_ReasoningStrength model) 6))
          (f64_div (f64_of_int (mi_MaxContext model)) (f64_of_int 4000))
      else if taskType = ''docs'' then
        f64_sub (f64_add score (times_int (mi_CodingStrength model) 2))
          (f64_mul (mi_CostPer1KOutput model) (f64_of_int 100))
      else if taskType = ''simple'' then
        f64_sub (f64_sub score (f64_mul (mi_CostPer1KOutput model) (f64_of_int 200)))
          (f64_div (f64_of_int (mi_LatencyMs model)) (f64_of_int 50))
      else score)"

definition difficultyScore :: "ModelInfo \<Rightarrow> string \<Rightarrow> f64 \<Rightarrow> f64" where
  "difficultyScore model difficulty score =
     (if difficulty = ''easy'' then f64_sub score (f64_mul (mi_CostPer1KOutput model) (f64_of_int 50))
      else if difficulty = ''hard'' \<or> difficulty = ''expert'' then
        f64_add (f64_add score (times_int (mi_ReasoningStrength model) 3)) (times_int (mi_CodingStrength model) 2)
      else score)"

definition latencyScore :: "ModelInfo \<Rightarrow> string \<Rightarrow> f64 \<Rightarrow> f64" where
  "latencyScore model latencyReq score =
     (if latencyReq = ''fast'' then f64_sub score (f64_div (f64_of_int (mi_LatencyMs model)) (f64_of_int 20))
      else if latencyReq = ''normal'' then f64_sub score (f64_div (f64_of_int (mi_LatencyMs model)) (f64_of_int 50))
      else score)"

definition scoreModel :: "ModelInfo \<Rightarrow> string \<Rightarrow> string \<Rightarrow> string \<Rightarrow> f64" where
  "scoreModel model taskType difficulty latencyReq =
     f64_sub (latencyScore model latencyReq (difficultyScore model difficulty (taskScore model taskType (f64_of_int 50))))
       (f64_mul (mi_CostPer1KOutput model) (f64_of_int 30))"

fun rankFrom :: "(string \<Rightarrow> string \<Rightarrow> bool) \<Rightarrow> string \<Rightarrow> int \<Rightarrow> string list \<Rightarrow> int" where
  "rankFrom ufold name i [] = i"
| "rankFrom ufold name i (p # ps) = (if EqualFold ufold p name then i else rankFrom ufold name (i + 1) ps)"

definition providerRank :: "(string \<Rightarrow> string \<Rightarrow> bool) \<Rightarrow> Router \<Rightarrow> string \<Rightarrow> int" where
  "providerRank ufold r name = rankFrom ufold name 0 (rc_ProviderPriority (ro_config r))"

definition fallbackModel :: "Router \<Rightarrow> ModelInfo" where
  "fallbackModel r =
     \<lparr>mi_Name = rc_DefaultModel (ro_config r), mi_Provider = rc_DefaultProvider (ro_config r), mi_MaxContext = 128000,
      mi_CodingStrength = 8, mi_ReasoningStrength = 8, mi_LatencyMs = 3000, mi_CostPer1KInput = decimal 5 1000,
      mi_CostPer1KOutput = decimal 15 1000, mi_SupportsStructuredOutput = True, mi_SupportsVision = True,
      mi_SupportsFunctionCalling = True\<rparr>"

section \<open>Selection\<close>

definition fitsContext :: "int \<Rightarrow> ModelInfo \<Rightarrow> bool" where
  "fitsContext contextSize model \<longleftrightarrow> \<not> (contextSize > 0 \<and> mi_MaxContext model > 0 \<and> contextSize > mi_MaxContext model)"

definition withinCap :: "Router \<Rightarrow> f64 \<Rightarrow> ModelInfo \<Rightarrow> bool" where
  "withinCap r costCap model \<longleftrightarrow>
     (let cap = (if f64_eq costCap f64_zero then rc_MaxCostPer1K (ro_config r) else costCap)
      in \<not> (f64_less f64_zero cap \<and> f64_less cap (mi_CostPer1KOutput model)))"

definition providerScores :: "Router \<Rightarrow> string \<Rightarrow> string \<Rightarrow> string \<Rightarrow> int \<Rightarrow> f64 \<Rightarrow> ModelProvider \<Rightarrow> Score list" where
  "providerScores r taskType difficulty latencyReq contextSize costCap provider =
     (if \<not> mp_IsAvailable provider then []
      else map (\<lambda>model. \<lparr>so_Model = model, so_Provider = provider,
              so_Score = scoreModel model taskType difficulty latencyReq, so_IsFallback = False\<rparr>)
             (filter (\<lambda>model. fitsContext contextSize model \<and> withinCap r costCap model) (mp_Models provider)))"

definition allScores :: "Router \<Rightarrow> string \<Rightarrow> string \<Rightarrow> string \<Rightarrow> int \<Rightarrow> f64 \<Rightarrow> Score list" where
  "allScores r taskType difficulty latencyReq contextSize costCap =
     concat (map (providerScores r taskType difficulty latencyReq contextSize costCap) (ro_providers r))"

definition scoreLess :: "(string \<Rightarrow> string \<Rightarrow> bool) \<Rightarrow> Router \<Rightarrow> Score \<Rightarrow> Score \<Rightarrow> bool" where
  "scoreLess ufold r a b =
     (if \<not> f64_eq (so_Score a) (so_Score b) then f64_less (so_Score b) (so_Score a)
      else providerRank ufold r (mi_Provider (so_Model a)) < providerRank ufold r (mi_Provider (so_Model b)))"

definition SelectModel ::
    "((Score \<Rightarrow> Score \<Rightarrow> bool) \<Rightarrow> Score list \<Rightarrow> Score list) \<Rightarrow> (string \<Rightarrow> string \<Rightarrow> bool) \<Rightarrow> Router \<Rightarrow>
     string \<Rightarrow> string \<Rightarrow> string \<Rightarrow> int \<Rightarrow> f64 \<Rightarrow> ModelInfo" where
  "SelectModel sortSlice ufold r taskType difficulty latencyReq contextSize costCap =
     (let scores = allScores r taskType difficulty latencyReq contextSize costCap in
      if scores = [] then fallbackModel r
      else so_Model (hd (sortSlice (scoreLess ufold r) scores)))"

section \<open>Calls\<close>

datatype route_error = NoProvider string | AllFailed string

fun callModels ::
    "ModelInfo \<Rightarrow> CallRequest \<Rightarrow> ModelProvider \<Rightarrow> ModelInfo list \<Rightarrow> Calls \<Rightarrow> CallResult option \<times> Calls" where
  "callModels failed req provider [] calls = (None, calls)"
| "callModels failed req provider (model # models) calls =
     (if mi_Name model = mi_Name failed then callModels failed req provider models calls
      else (let req1 = req\<lparr>cq_PreferredModel := mi_Name model\<rparr>; calls1 = calls @ [(mp_Name provider, req1)]
            in case mp_Call provider calls req1 of
                 Inr result \<Rightarrow> (Some (result\<lparr>cs_Model := mi_Name model, cs_Provider := mi_Provider model\<rparr>), calls1)
               | Inl _ \<Rightarrow> callModels failed req provider models calls1))"

fun callProviders ::
    "ModelInfo \<Rightarrow> CallRequest \<Rightarrow> ModelProvider list \<Rightarrow> Calls \<Rightarrow> CallResult option \<times> Calls" where
  "callProviders failed req [] calls = (None, calls)"
| "callProviders failed req (provider # providers) calls =
     (if \<not> mp_IsAvailable provider then callProviders failed req providers calls
      else (case callModels failed req provider (mp_Models provider) calls of
          (Some result, calls1) \<Rightarrow> (Some result, calls1)
        | (None, calls1) \<Rightarrow> callProviders failed req providers calls1))"

definition tryFallback :: "Router \<Rightarrow> CallRequest \<Rightarrow> ModelInfo \<Rightarrow> Calls \<Rightarrow> (route_error + CallResult) \<times> Calls" where
  "tryFallback r req failed calls =
     (case callProviders failed req (ro_providers r) calls of
        (Some result, calls1) \<Rightarrow> (Inr result, calls1)
      | (None, calls1) \<Rightarrow> (Inl (AllFailed (cq_TaskType req)), calls1))"

definition RouteCall ::
    "((Score \<Rightarrow> Score \<Rightarrow> bool) \<Rightarrow> Score list \<Rightarrow> Score list) \<Rightarrow> (string \<Rightarrow> string \<Rightarrow> bool) \<Rightarrow> Router \<Rightarrow>
     CallRequest \<Rightarrow> Calls \<Rightarrow> (route_error + CallResult) \<times> Calls" where
  "RouteCall sortSlice ufold r req calls =
     (let model = SelectModel sortSlice ufold r (cq_TaskType req) (cq_Difficulty req) (cq_LatencyReq req)
            (cq_ContextSize req) (cq_CostCap req)
      in case find (\<lambda>p. mp_Name p = mi_Provider model \<and> mp_IsAvailable p) (ro_providers r) of
           None \<Rightarrow> (Inl (NoProvider (mi_Name model)), calls)
         | Some provider \<Rightarrow>
           (let req1 = req\<lparr>cq_PreferredModel := mi_Name model\<rparr>; calls1 = calls @ [(mp_Name provider, req1)]
            in case mp_Call provider calls req1 of
                 Inl _ \<Rightarrow> tryFallback r req model calls1
               | Inr result \<Rightarrow> (Inr (result\<lparr>cs_Model := mi_Name model, cs_Provider := mi_Provider model\<rparr>), calls1)))"

section \<open>Facts\<close>

text \<open>Scores that are numbers are compared by a strict weak order, as \<open>sort.Slice\<close> needs it.\<close>

lemma scoreLess_order:
  assumes "so_Score a \<noteq> FNaN" "so_Score b \<noteq> FNaN"
  shows "scoreLess ufold r a b \<longleftrightarrow>
     f64_place (so_Score b) < f64_place (so_Score a) \<or>
     f64_place (so_Score b) = f64_place (so_Score a) \<and>
       (f64_real (so_Score b) < f64_real (so_Score a) \<or>
        f64_real (so_Score b) = f64_real (so_Score a) \<and>
          providerRank ufold r (mi_Provider (so_Model a)) < providerRank ufold r (mi_Provider (so_Model b)))"
  using f64_less_order [OF assms(2,1)] f64_eq_order [OF assms] by (auto simp: scoreLess_def)

lemma scoreLess_strictWeak:
  assumes "\<forall>s \<in> A. so_Score s \<noteq> FNaN"
  shows "strictWeak (scoreLess ufold r) A"
  unfolding strictWeak_def using assms by (intro conjI ballI impI) (simp_all add: scoreLess_order, linarith+)

lemma providerScores_in:
  "s \<in> set (providerScores r taskType difficulty latencyReq contextSize costCap p) \<longleftrightarrow>
     mp_IsAvailable p \<and>
     (\<exists>m \<in> set (mp_Models p). fitsContext contextSize m \<and> withinCap r costCap m \<and>
        s = \<lparr>so_Model = m, so_Provider = p, so_Score = scoreModel m taskType difficulty latencyReq, so_IsFallback = False\<rparr>)"
  by (auto simp: providerScores_def)

lemma allScores_in:
  assumes "s \<in> set (allScores r taskType difficulty latencyReq contextSize costCap)"
  shows "so_Provider s \<in> set (ro_providers r)" "mp_IsAvailable (so_Provider s)"
    "so_Model s \<in> set (mp_Models (so_Provider s))"
    "fitsContext contextSize (so_Model s)" "withinCap r costCap (so_Model s)"
    "so_Score s = scoreModel (so_Model s) taskType difficulty latencyReq"
  using assms by (auto simp: allScores_def providerScores_in)

definition allows :: "Router \<Rightarrow> int \<Rightarrow> f64 \<Rightarrow> ModelProvider \<Rightarrow> ModelInfo \<Rightarrow> bool" where
  "allows r contextSize costCap p m \<longleftrightarrow>
     p \<in> set (ro_providers r) \<and> mp_IsAvailable p \<and> m \<in> set (mp_Models p) \<and> fitsContext contextSize m \<and> withinCap r costCap m"

lemma allScores_allows:
  "(\<exists>s \<in> set (allScores r taskType difficulty latencyReq contextSize costCap). so_Provider s = p \<and> so_Model s = m) \<longleftrightarrow>
     allows r contextSize costCap p m"
proof
  assume "allows r contextSize costCap p m"
  then have "\<lparr>so_Model = m, so_Provider = p, so_Score = scoreModel m taskType difficulty latencyReq, so_IsFallback = False\<rparr>
      \<in> set (allScores r taskType difficulty latencyReq contextSize costCap)"
    by (auto simp: allScores_def providerScores_in allows_def)
  from bexI [OF _ this, of "\<lambda>s. so_Provider s = p \<and> so_Model s = m"]
  show "\<exists>s \<in> set (allScores r taskType difficulty latencyReq contextSize costCap). so_Provider s = p \<and> so_Model s = m"
    by simp
qed (auto simp: allScores_def providerScores_in allows_def)

text \<open>
  C28. The model the router selects is a best one: when some available provider has a model that fits
  the context and the cost cap, the selected model is such a model, and no other one scores higher,
  or scores the same and has a provider of higher priority; when there is none, the result is the
  configured default.  The order of the providers and the sorting algorithm do not matter.
\<close>

theorem SelectModel_best:
  assumes "sortsSlices sortSlice"
    and "\<forall>p m. allows r contextSize costCap p m \<longrightarrow> scoreModel m taskType difficulty latencyReq \<noteq> FNaN"
  shows "(\<nexists>p m. allows r contextSize costCap p m) \<and>
       SelectModel sortSlice ufold r taskType difficulty latencyReq contextSize costCap = fallbackModel r \<or>
     (\<exists>p m. allows r contextSize costCap p m \<and>
       SelectModel sortSlice ufold r taskType difficulty latencyReq contextSize costCap = m \<and>
       (\<nexists>p' m'. allows r contextSize costCap p' m' \<and>
          (f64_less (scoreModel m taskType difficulty latencyReq) (scoreModel m' taskType difficulty latencyReq) \<or>
           f64_eq (scoreModel m taskType difficulty latencyReq) (scoreModel m' taskType difficulty latencyReq) \<and>
           providerRank ufold r (mi_Provider m') < providerRank ufold r (mi_Provider m))))"
proof (cases "allScores r taskType difficulty latencyReq contextSize costCap = []")
  case True
  with allScores_allows [of r taskType difficulty latencyReq contextSize costCap] show ?thesis
    by (simp add: SelectModel_def)
next
  case False
  let ?scores = "allScores r taskType difficulty latencyReq contextSize costCap"
  let ?best = "hd (sortSlice (scoreLess ufold r) ?scores)"
  have num: "\<forall>s \<in> set ?scores. so_Score s \<noteq> FNaN"
  proof
    fix s assume s: "s \<in> set ?scores"
    with allScores_allows [of r taskType difficulty latencyReq contextSize costCap "so_Provider s" "so_Model s"]
    have "allows r contextSize costCap (so_Provider s) (so_Model s)" by blast
    with assms(2) allScores_in(6) [OF s] show "so_Score s \<noteq> FNaN" by simp
  qed
  from sortsSlices_first [OF assms(1) scoreLess_strictWeak [OF num] False]
  have b: "?best \<in> set ?scores" and least: "\<forall>x \<in> set ?scores. \<not> scoreLess ufold r x ?best" by auto
  have "\<not> (allows r contextSize costCap p' m' \<and>
          (f64_less (scoreModel (so_Model ?best) taskType difficulty latencyReq) (scoreModel m' taskType difficulty latencyReq) \<or>
           f64_eq (scoreModel (so_Model ?best) taskType difficulty latencyReq) (scoreModel m' taskType difficulty latencyReq) \<and>
           providerRank ufold r (mi_Provider m') < providerRank ufold r (mi_Provider (so_Model ?best))))" for p' m'
  proof
    assume a: "allows r contextSize costCap p' m' \<and>
          (f64_less (scoreModel (so_Model ?best) taskType difficulty latencyReq) (scoreModel m' taskType difficulty latencyReq) \<or>
           f64_eq (scoreModel (so_Model ?best) taskType difficulty latencyReq) (scoreModel m' taskType difficulty latencyReq) \<and>
           providerRank ufold r (mi_Provider m') < providerRank ufold r (mi_Provider (so_Model ?best)))"
    with allScores_allows [of r taskType difficulty latencyReq contextSize costCap p' m']
    obtain t where t: "t \<in> set ?scores" "so_Model t = m'" by blast
    with a allScores_in(6) [OF t(1)] allScores_in(6) [OF b] f64_eq_not_less f64_eq_sym
    have "scoreLess ufold r t ?best" by (auto simp: scoreLess_def)
    with least t(1) show False by blast
  qed
  moreover have "allows r contextSize costCap (so_Provider ?best) (so_Model ?best)"
    using allScores_in [OF b] by (simp add: allows_def)
  ultimately show ?thesis using False by (auto simp: SelectModel_def)
qed

text \<open>The attempts of a request: each is a call of an available provider, and the provider refused it.\<close>

fun refused :: "ModelProvider list \<Rightarrow> Calls \<Rightarrow> Calls \<Rightarrow> bool" where
  "refused ps calls [] = True"
| "refused ps calls (c # cs) =
     ((\<exists>p \<in> set ps. mp_IsAvailable p \<and> mp_Name p = fst c \<and> isl (mp_Call p calls (snd c))) \<and>
      refused ps (calls @ [c]) cs)"

definition asking :: "CallRequest \<Rightarrow> ModelInfo \<Rightarrow> CallRequest" where
  "asking req model = req\<lparr>cq_PreferredModel := mi_Name model\<rparr>"

definition answered :: "ModelProvider list \<Rightarrow> CallRequest \<Rightarrow> Calls \<Rightarrow> CallResult \<Rightarrow> Calls \<Rightarrow> bool" where
  "answered ps req calls result calls1 \<longleftrightarrow>
     (\<exists>attempts p model answer.
        calls1 = calls @ attempts @ [(mp_Name p, asking req model)] \<and> refused ps calls attempts \<and>
        p \<in> set ps \<and> mp_IsAvailable p \<and> mp_Call p (calls @ attempts) (asking req model) = Inr answer \<and>
        result = answer\<lparr>cs_Model := mi_Name model, cs_Provider := mi_Provider model\<rparr>)"

lemma refused_append: "refused ps calls (as @ bs) \<longleftrightarrow> refused ps calls as \<and> refused ps (calls @ as) bs"
  by (induction as arbitrary: calls) auto

lemma refused_mono: "refused ps calls as \<Longrightarrow> set ps \<subseteq> set qs \<Longrightarrow> refused qs calls as"
  by (induction as arbitrary: calls) auto

lemma answered_mono: "answered ps req calls result calls1 \<Longrightarrow> set ps \<subseteq> set qs \<Longrightarrow> answered qs req calls result calls1"
  unfolding answered_def using refused_mono [of ps] by (elim exE conjE, intro exI conjI) auto

lemma answered_after:
  assumes "refused ps calls as" "answered ps req (calls @ as) result calls1"
  shows "answered ps req calls result calls1"
proof -
  from assms(2) obtain attempts p model answer where
    t: "calls1 = (calls @ as) @ attempts @ [(mp_Name p, asking req model)]" "refused ps (calls @ as) attempts"
      "p \<in> set ps" "mp_IsAvailable p" "mp_Call p ((calls @ as) @ attempts) (asking req model) = Inr answer"
      "result = answer\<lparr>cs_Model := mi_Name model, cs_Provider := mi_Provider model\<rparr>"
    unfolding answered_def by blast
  show ?thesis unfolding answered_def
    by (rule exI [of _ "as @ attempts"], rule exI [of _ p], rule exI [of _ model], rule exI [of _ answer])
      (use assms(1) t in \<open>simp add: refused_append\<close>)
qed

lemma answered_now:
  assumes "p \<in> set ps" "mp_IsAvailable p" "mp_Call p calls (asking req model) = Inr answer"
  shows "answered ps req calls (answer\<lparr>cs_Model := mi_Name model, cs_Provider := mi_Provider model\<rparr>)
           (calls @ [(mp_Name p, asking req model)])"
  unfolding answered_def
  by (rule exI [of _ "[]"], rule exI [of _ p], rule exI [of _ model], rule exI [of _ answer]) (use assms in simp)

text \<open>A search for an answer that asks for the calls in \<open>S\<close> until one is answered.\<close>

definition searched ::
    "ModelProvider list \<Rightarrow> CallRequest \<Rightarrow> (string \<times> CallRequest) set \<Rightarrow> Calls \<Rightarrow> CallResult option \<times> Calls \<Rightarrow> bool" where
  "searched ps req S calls r \<longleftrightarrow>
     (case fst r of
        Some result \<Rightarrow> answered ps req calls result (snd r)
      | None \<Rightarrow> \<exists>attempts. snd r = calls @ attempts \<and> refused ps calls attempts \<and> set attempts = S)"

lemma searched_nothing: "searched ps req {} calls (None, calls)"
  by (simp add: searched_def)

lemma searched_mono: "searched ps req S calls r \<Longrightarrow> set ps \<subseteq> set qs \<Longrightarrow> searched qs req S calls r"
  using refused_mono [of ps] answered_mono [of ps] unfolding searched_def by (cases "fst r") auto

lemma searched_after:
  assumes "refused ps calls as" "searched ps req S (calls @ as) r"
  shows "searched ps req (set as \<union> S) calls r"
proof (cases "fst r")
  case None
  with assms(2) obtain bs where "snd r = (calls @ as) @ bs" "refused ps (calls @ as) bs" "set bs = S"
    by (auto simp: searched_def)
  with assms(1) None show ?thesis
    unfolding searched_def by (auto intro!: exI [of _ "as @ bs"] simp: refused_append)
next
  case (Some result)
  with assms(2) have "answered ps req (calls @ as) result (snd r)" by (simp add: searched_def)
  from answered_after [OF assms(1) this] Some show ?thesis by (simp add: searched_def)
qed

definition asks :: "ModelInfo \<Rightarrow> CallRequest \<Rightarrow> ModelProvider \<Rightarrow> ModelInfo list \<Rightarrow> (string \<times> CallRequest) set" where
  "asks failed req p ms = set (map (\<lambda>m. (mp_Name p, asking req m)) (filter (\<lambda>m. mi_Name m \<noteq> mi_Name failed) ms))"

text \<open>What a fallback has asked for when it gives up.\<close>

definition fallbacks :: "ModelInfo \<Rightarrow> CallRequest \<Rightarrow> ModelProvider list \<Rightarrow> (string \<times> CallRequest) set" where
  "fallbacks failed req ps = (\<Union>p \<in> set (filter mp_IsAvailable ps). asks failed req p (mp_Models p))"

lemma callModels_searched:
  assumes "mp_IsAvailable p"
  shows "searched [p] req (asks failed req p ms) calls (callModels failed req p ms calls)"
proof (induction ms arbitrary: calls)
  case Nil
  then show ?case by (simp add: searched_nothing asks_def)
next
  case (Cons m ms)
  let ?c = "(mp_Name p, asking req m)"
  show ?case
  proof (cases "mi_Name m = mi_Name failed")
    case True
    with Cons.IH [of calls] show ?thesis by (simp add: asks_def)
  next
    case False
    then have asks: "asks failed req p (m # ms) = set [?c] \<union> asks failed req p ms" by (simp add: asks_def)
    show ?thesis
    proof (cases "mp_Call p calls (asking req m)")
      case (Inr answer)
      then have "callModels failed req p (m # ms) calls =
          (Some (answer\<lparr>cs_Model := mi_Name m, cs_Provider := mi_Provider m\<rparr>), calls @ [?c])"
        using False by (simp add: asking_def)
      with answered_now [OF _ assms Inr, of "[p]"] show ?thesis by (simp add: searched_def)
    next
      case (Inl e)
      then have eq: "callModels failed req p (m # ms) calls = callModels failed req p ms (calls @ [?c])"
        using False by (simp add: asking_def)
      have "refused [p] calls [?c]" using assms Inl by simp
      from searched_after [OF this Cons.IH] show ?thesis by (simp only: eq asks)
    qed
  qed
qed

lemma callProviders_searched:
  "searched ps req (fallbacks failed req ps) calls (callProviders failed req ps calls)"
proof (induction ps arbitrary: calls)
  case Nil
  then show ?case by (simp add: searched_nothing fallbacks_def)
next
  case (Cons p ps)
  have rest: "searched (p # ps) req (fallbacks failed req ps) calls' (callProviders failed req ps calls')" for calls'
    using searched_mono [OF Cons.IH, of "p # ps" calls'] by auto
  show ?case
  proof (cases "mp_IsAvailable p")
    case False
    with rest [of calls] show ?thesis by (simp add: fallbacks_def)
  next
    case True
    obtain res calls1 where r: "callModels failed req p (mp_Models p) calls = (res, calls1)" by fastforce
    have one: "searched (p # ps) req (asks failed req p (mp_Models p)) calls (res, calls1)"
      using searched_mono [OF callModels_searched [OF True], of "p # ps" req failed "mp_Models p" calls] r by simp
    show ?thesis
    proof (cases res)
      case (Some result)
      with one r True show ?thesis by (simp add: searched_def)
    next
      case None
      with one obtain as where as: "calls1 = calls @ as" "refused (p # ps) calls as" "set as = asks failed req p (mp_Models p)"
        by (auto simp: searched_def)
      from searched_after [OF as(2) rest] as None r True show ?thesis by (simp add: fallbacks_def)
    qed
  qed
qed

text \<open>
  A routed call either returns an answer, and then it is the answer of an available provider to
  the last call made, labelled with the model that was asked for, and every earlier call was refused;
  or it reports that everything failed, and then the provider of the selected model and after it
  every available provider, for each of its models of another name, was asked and refused; or no
  available provider has the selected model, and then nothing was called.
\<close>

theorem RouteCall_calls:
  "case RouteCall sortSlice ufold r req calls of
     (Inr result, calls1) \<Rightarrow> answered (ro_providers r) req calls result calls1
   | (Inl (AllFailed taskType), calls1) \<Rightarrow>
       taskType = cq_TaskType req \<and>
       (\<exists>attempts. calls1 = calls @ attempts \<and> refused (ro_providers r) calls attempts \<and>
          set attempts =
            (let model = SelectModel sortSlice ufold r (cq_TaskType req) (cq_Difficulty req) (cq_LatencyReq req)
                           (cq_ContextSize req) (cq_CostCap req)
             in insert (mi_Provider model, asking req model) (fallbacks model req (ro_providers r))))
   | (Inl (NoProvider name), calls1) \<Rightarrow>
       calls1 = calls \<and>
       (\<nexists>p. p \<in> set (ro_providers r) \<and> mp_IsAvailable p \<and>
          mp_Name p = mi_Provider (SelectModel sortSlice ufold r (cq_TaskType req) (cq_Difficulty req)
            (cq_LatencyReq req) (cq_ContextSize req) (cq_CostCap req)))"
proof -
  define model where "model = SelectModel sortSlice ufold r (cq_TaskType req) (cq_Difficulty req)
    (cq_LatencyReq req) (cq_ContextSize req) (cq_CostCap req)"
  let ?find = "find (\<lambda>p. mp_Name p = mi_Provider model \<and> mp_IsAvailable p) (ro_providers r)"
  show ?thesis
  proof (cases ?find)
    case None
    then have eq: "RouteCall sortSlice ufold r req calls = (Inl (NoProvider (mi_Name model)), calls)"
      by (simp add: RouteCall_def model_def [symmetric] Let_def)
    from None have "\<nexists>p. p \<in> set (ro_providers r) \<and> mp_IsAvailable p \<and> mp_Name p = mi_Provider model"
      by (auto simp: find_None_iff)
    then show ?thesis unfolding eq model_def [symmetric] by simp
  next
    case (Some p)
    then have p: "p \<in> set (ro_providers r)" "mp_IsAvailable p" "mp_Name p = mi_Provider model"
      by (auto simp: find_Some_iff)
    show ?thesis
    proof (cases "mp_Call p calls (asking req model)")
      case (Inr answer)
      with answered_now [OF p(1,2) Inr] Some show ?thesis
        by (simp add: RouteCall_def model_def [symmetric] Let_def asking_def)
    next
      case (Inl e)
      let ?c = "(mp_Name p, asking req model)"
      have one: "refused (ro_providers r) calls [?c]" using p Inl by auto
      from searched_after [OF one callProviders_searched]
      have s: "searched (ro_providers r) req (insert ?c (fallbacks model req (ro_providers r))) calls
          (callProviders model req (ro_providers r) (calls @ [?c]))" by simp
      have eq: "RouteCall sortSlice ufold r req calls = tryFallback r req model (calls @ [?c])"
        using Some Inl by (simp add: RouteCall_def model_def [symmetric] Let_def asking_def)
      obtain res calls1 where c: "callProviders model req (ro_providers r) (calls @ [?c]) = (res, calls1)" by fastforce
      show ?thesis unfolding eq model_def [symmetric]
        using s c p(3) by (cases res) (simp_all add: tryFallback_def searched_def Let_def)
    qed
  qed
qed

section \<open>Concrete routes\<close>

definition exampleModel :: "string \<Rightarrow> string \<Rightarrow> f64 \<Rightarrow> ModelInfo" where
  "exampleModel name provider cost =
     \<lparr>mi_Name = name, mi_Provider = provider, mi_MaxContext = 128000, mi_CodingStrength = 8, mi_ReasoningStrength = 8,
      mi_LatencyMs = 1000, mi_CostPer1KInput = cost, mi_CostPer1KOutput = cost, mi_SupportsStructuredOutput = True,
      mi_SupportsVision = False, mi_SupportsFunctionCalling = True\<rparr>"

definition exampleAnswer :: CallResult where
  "exampleAnswer =
     \<lparr>cs_Content = ''ok'', cs_PromptTokens = 1, cs_CompletionTokens = 1, cs_TotalTokens = 2, cs_Cost = f64_zero,
      cs_LatencyMs = 1, cs_Model = [], cs_Provider = [], cs_FinishReason = ''stop''\<rparr>"

definition exampleProvider :: "string \<Rightarrow> bool \<Rightarrow> ModelInfo list \<Rightarrow> ModelProvider" where
  "exampleProvider name works models =
     \<lparr>mp_Name = name, mp_Models = models,
      mp_Call = (\<lambda>calls req. if works then Inr exampleAnswer else Inl ''unavailable''), mp_IsAvailable = True\<rparr>"

definition exampleRequest :: "f64 \<Rightarrow> CallRequest" where
  "exampleRequest cap =
     \<lparr>cq_TaskType = ''code'', cq_Difficulty = ''easy'', cq_LatencyReq = ''normal'', cq_ContextSize = 1000,
      cq_StructuredReq = False, cq_CostCap = cap, cq_PreferredModel = [], cq_Messages = []\<rparr>"

definition exampleRouter :: Router where
  "exampleRouter = NewRouter None
     [exampleProvider ''openai'' False [exampleModel ''small'' ''openai'' (decimal 1 100)],
      exampleProvider ''groq'' True [exampleModel ''small'' ''groq'' (decimal 2 100)],
      exampleProvider ''anthropic'' True [exampleModel ''large'' ''anthropic'' (decimal 5 1)]]"

lemma exampleRouter_providers:
  "ro_providers exampleRouter =
     [exampleProvider ''openai'' False [exampleModel ''small'' ''openai'' (decimal 1 100)],
      exampleProvider ''groq'' True [exampleModel ''small'' ''groq'' (decimal 2 100)],
      exampleProvider ''anthropic'' True [exampleModel ''large'' ''anthropic'' (decimal 5 1)]]"
  by (simp add: exampleRouter_def NewRouter_def)

lemma exampleRouter_allows:
  "allows exampleRouter contextSize costCap p m \<Longrightarrow>
     m \<in> {exampleModel ''small'' ''openai'' (decimal 1 100), exampleModel ''small'' ''groq'' (decimal 2 100),
          exampleModel ''large'' ''anthropic'' (decimal 5 1)}"
  by (auto simp: allows_def exampleRouter_providers exampleProvider_def)

lemma exampleRouter_cheap:
  "allows exampleRouter 1000 (decimal 1 10)
     (exampleProvider ''groq'' True [exampleModel ''small'' ''groq'' (decimal 2 100)])
     (exampleModel ''small'' ''groq'' (decimal 2 100))"
proof -
  have "fitsContext 1000 (exampleModel ''small'' ''groq'' (decimal 2 100))" by code_simp
  moreover have "withinCap exampleRouter (decimal 1 10) (exampleModel ''small'' ''groq'' (decimal 2 100))" by code_simp
  ultimately show ?thesis by (simp add: allows_def exampleRouter_providers) (simp add: exampleProvider_def)
qed

lemma SelectModel_best_witness:
  "\<exists>p. allows exampleRouter 1000 (decimal 1 10) p
     (SelectModel sortBy (\<lambda>s t. False) exampleRouter ''code'' ''easy'' ''normal'' 1000 (decimal 1 10))"
proof -
  have a: "scoreModel (exampleModel ''small'' ''openai'' (decimal 1 100)) ''code'' ''easy'' ''normal'' \<noteq> FNaN" by code_simp
  have b: "scoreModel (exampleModel ''small'' ''groq'' (decimal 2 100)) ''code'' ''easy'' ''normal'' \<noteq> FNaN" by code_simp
  have c: "scoreModel (exampleModel ''large'' ''anthropic'' (decimal 5 1)) ''code'' ''easy'' ''normal'' \<noteq> FNaN" by code_simp
  have "\<forall>p m. allows exampleRouter 1000 (decimal 1 10) p m \<longrightarrow> scoreModel m ''code'' ''easy'' ''normal'' \<noteq> FNaN"
  proof (intro allI impI)
    fix p m assume "allows exampleRouter 1000 (decimal 1 10) p m"
    from exampleRouter_allows [OF this] a b c show "scoreModel m ''code'' ''easy'' ''normal'' \<noteq> FNaN" by blast
  qed
  from SelectModel_best [OF sortBy_sorts this, of "\<lambda>s t. False"] exampleRouter_cheap show ?thesis by blast
qed

text \<open>
  The fallback heeds neither the cost cap nor other providers of the same model: although another
  provider offers the selected model within the cap, a call that fails is repeated on a model that
  costs fifty times the cap.  And when no model is within the cap, the default model is called all
  the same.
\<close>

theorem fallback_gaps:
  "RouteCall sortBy (\<lambda>s t. False) exampleRouter (exampleRequest (decimal 1 10)) [] =
     (Inr (exampleAnswer\<lparr>cs_Model := ''large'', cs_Provider := ''anthropic''\<rparr>),
      [(''openai'', asking (exampleRequest (decimal 1 10)) (exampleModel ''small'' ''openai'' (decimal 1 100))),
       (''anthropic'', asking (exampleRequest (decimal 1 10)) (exampleModel ''large'' ''anthropic'' (decimal 5 1)))]) \<and>
   \<not> withinCap exampleRouter (decimal 1 10) (exampleModel ''large'' ''anthropic'' (decimal 5 1)) \<and>
   allows exampleRouter 1000 (decimal 1 10)
     (exampleProvider ''groq'' True [exampleModel ''small'' ''groq'' (decimal 2 100)])
     (exampleModel ''small'' ''groq'' (decimal 2 100)) \<and>
   SelectModel sortBy (\<lambda>s t. False) exampleRouter ''code'' ''easy'' ''normal'' 1000 (decimal 1 1000) =
     fallbackModel exampleRouter \<and>
   \<not> withinCap exampleRouter (decimal 1 1000) (fallbackModel exampleRouter)"
proof (intro conjI)
  show "RouteCall sortBy (\<lambda>s t. False) exampleRouter (exampleRequest (decimal 1 10)) [] =
     (Inr (exampleAnswer\<lparr>cs_Model := ''large'', cs_Provider := ''anthropic''\<rparr>),
      [(''openai'', asking (exampleRequest (decimal 1 10)) (exampleModel ''small'' ''openai'' (decimal 1 100))),
       (''anthropic'', asking (exampleRequest (decimal 1 10)) (exampleModel ''large'' ''anthropic'' (decimal 5 1)))])"
    by code_simp
  show "\<not> withinCap exampleRouter (decimal 1 10) (exampleModel ''large'' ''anthropic'' (decimal 5 1))" by code_simp
  show "allows exampleRouter 1000 (decimal 1 10)
     (exampleProvider ''groq'' True [exampleModel ''small'' ''groq'' (decimal 2 100)])
     (exampleModel ''small'' ''groq'' (decimal 2 100))" by (rule exampleRouter_cheap)
  show "SelectModel sortBy (\<lambda>s t. False) exampleRouter ''code'' ''easy'' ''normal'' 1000 (decimal 1 1000) =
     fallbackModel exampleRouter" by code_simp
  show "\<not> withinCap exampleRouter (decimal 1 1000) (fallbackModel exampleRouter)" by code_simp
qed

end
