(* ===== verification/Nulang.thy ===== *)
theory Nulang
  imports GoFloat GoHash
begin

text \<open>
  The Nulang harness (\<open>runtime/wasmcloud/components/nulang-mock-harness/nulang\<close>): \<open>ast.go\<close>, \<open>eval.go\<close>
  and \<open>compile.go\<close>.

  Values and nodes are Go structs of optional fields, of which the evaluator takes the first one that
  is set; the datatypes keep all the fields, so nothing rules out a node with two of them or none.
  Integers are 64-bit words.  An environment is the list of the scopes, the innermost first; a scope
  of the code is only ever changed through its own pointer, which is the head of the list here, and
  evaluation returns the environment it leaves.
\<close>

section \<open>Values and nodes\<close>

datatype Value = Value
    (v_Nil: bool) (v_Boolean: "bool option") (v_Integer: "64 word option") (v_Float: "f64 option")
    (v_String: "string option") (v_List: "Value list option") (v_Map: "KVPair list option")
and KVPair = KVPair (kv_Key: string) (kv_Value: Value)

definition noValue :: Value where
  \<comment> \<open>\<open>Value{}\<close>\<close>
  "noValue = Value False None None None None None None"

definition nilValue :: Value where
  "nilValue = Value True None None None None None None"

definition boolValue :: "bool \<Rightarrow> Value" where
  "boolValue b = Value False (Some b) None None None None None"

definition intValue :: "64 word \<Rightarrow> Value" where
  "intValue n = Value False None (Some n) None None None None"

definition floatValue :: "f64 \<Rightarrow> Value" where
  "floatValue x = Value False None None (Some x) None None None"

definition stringValue :: "string \<Rightarrow> Value" where
  "stringValue s = Value False None None None (Some s) None None"

definition listValue :: "Value list \<Rightarrow> Value" where
  "listValue vs = Value False None None None None (Some vs) None"

definition mapValue :: "KVPair list \<Rightarrow> Value" where
  "mapValue kvs = Value False None None None None None (Some kvs)"

lemmas value_defs = noValue_def nilValue_def boolValue_def intValue_def floatValue_def stringValue_def
  listValue_def mapValue_def

datatype BinaryOp = Add | Subtract | Multiply | Divide | Modulo | Equal | NotEqual | LessThan
  | LessThanOrEqual | GreaterThan | GreaterThanOrEqual | AndOp | OrOp | BinaryOpOther string

fun binaryOpText :: "BinaryOp \<Rightarrow> string" where
  "binaryOpText Add = ''add''"
| "binaryOpText Subtract = ''subtract''"
| "binaryOpText Multiply = ''multiply''"
| "binaryOpText Divide = ''divide''"
| "binaryOpText Modulo = ''modulo''"
| "binaryOpText Equal = ''equal''"
| "binaryOpText NotEqual = ''not-equal''"
| "binaryOpText LessThan = ''less-than''"
| "binaryOpText LessThanOrEqual = ''less-than-or-equal''"
| "binaryOpText GreaterThan = ''greater-than''"
| "binaryOpText GreaterThanOrEqual = ''greater-than-or-equal''"
| "binaryOpText AndOp = ''and''"
| "binaryOpText OrOp = ''or''"
| "binaryOpText (BinaryOpOther s) = s"

datatype UnaryOp = NotOp | Negate | UnaryOpOther string

fun unaryOpText :: "UnaryOp \<Rightarrow> string" where
  "unaryOpText NotOp = ''not''"
| "unaryOpText Negate = ''negate''"
| "unaryOpText (UnaryOpOther s) = s"

datatype ASTNode = ASTNode
    (n_Literal: "Value option") (n_Identifier: "string option") (n_Assign: "(ASTNode \<times> ASTNode) option")
    (n_Call: "CallNode option") (n_Lambda: "LambdaNode option") (n_If: "IfNode option")
    (n_Block: "ASTNode list option") (n_ForLoop: "ForLoopNode option") (n_Return: "ASTNode option")
    (n_Binary: "BinaryNode option") (n_Unary: "UnaryNode option")
and CallNode = CallNode (c_Name: string) (c_Args: "ASTNode list")
and LambdaNode = LambdaNode (l_Params: "string list") (l_Body: ASTNode)
and IfNode = IfNode (i_Predicate: ASTNode) (i_Then: ASTNode) (i_Else: "ASTNode option")
and ForLoopNode = ForLoopNode (f_Var: string) (f_Iter: ASTNode) (f_Body: ASTNode)
and BinaryNode = BinaryNode (b_Op: BinaryOp) (b_Left: ASTNode) (b_Right: ASTNode)
and UnaryNode = UnaryNode (u_Op: UnaryOp) (u_Target: ASTNode)

record Span =
  sp_Line :: "32 word"
  sp_Column :: "32 word"
  sp_Length :: "32 word"

record RtError =
  e_Code :: string
  e_Message :: string
  e_Span :: "Span option"

record CompileResult =
  cr_OK :: bool
  cr_Wasm :: string
  cr_Diagnostics :: "string list"
  cr_Errors :: "RtError list"

record EvalResult =
  er_OK :: bool
  er_Value :: "Value option"
  er_Errors :: "RtError list"

definition IsNil :: "Value \<Rightarrow> bool" where
  "IsNil v = v_Nil v"

section \<open>Environments\<close>

type_synonym Scopes = "(string \<Rightarrow> Value option) list"

definition NewEnv :: Scopes where
  "NewEnv = [Map.empty]"

definition NewChild :: "Scopes \<Rightarrow> Scopes" where
  "NewChild env = Map.empty # env"

fun lookupVar :: "Scopes \<Rightarrow> string \<Rightarrow> Value option" where
  "lookupVar [] name = None"
| "lookupVar (vars # parents) name =
     (case vars name of Some v \<Rightarrow> Some v | None \<Rightarrow> lookupVar parents name)"

fun setVar :: "Scopes \<Rightarrow> string \<Rightarrow> Value \<Rightarrow> Scopes" where
  "setVar [] name v = []"
| "setVar (vars # parents) name v = vars(name \<mapsto> v) # parents"

section \<open>Evaluation\<close>

definition nlError :: "string \<Rightarrow> string \<Rightarrow> RtError" where
  "nlError code message = \<lparr>e_Code = code, e_Message = message, e_Span = None\<rparr>"

definition isTruthy :: "Value \<Rightarrow> bool" where
  "isTruthy v =
     (case v_Boolean v of Some b \<Rightarrow> b
      | None \<Rightarrow> (case v_Integer v of Some n \<Rightarrow> n \<noteq> 0
      | None \<Rightarrow> (case v_String v of Some s \<Rightarrow> s \<noteq> []
      | None \<Rightarrow> \<not> v_Nil v)))"

text \<open>Go's division truncates towards zero; the least integer divided by \<open>-1\<close> wraps to itself.\<close>

definition goQuot :: "int \<Rightarrow> int \<Rightarrow> int" where
  "goQuot l r = sgn l * sgn r * (\<bar>l\<bar> div \<bar>r\<bar>)"

definition goRem :: "int \<Rightarrow> int \<Rightarrow> int" where
  "goRem l r = l - goQuot l r * r"

fun integerOp :: "BinaryOp \<Rightarrow> 64 word \<Rightarrow> 64 word \<Rightarrow> (RtError + Value) option" where
  "integerOp Add l r = Some (Inr (intValue (l + r)))"
| "integerOp Subtract l r = Some (Inr (intValue (l - r)))"
| "integerOp Multiply l r = Some (Inr (intValue (l * r)))"
| "integerOp Divide l r = Some (if r = 0 then Inl (nlError ''divide-by-zero'' ''division by zero'')
     else Inr (intValue (word_of_int (goQuot (sint l) (sint r)))))"
| "integerOp Modulo l r = Some (if r = 0 then Inl (nlError ''divide-by-zero'' ''modulo by zero'')
     else Inr (intValue (word_of_int (goRem (sint l) (sint r)))))"
| "integerOp Equal l r = Some (Inr (boolValue (l = r)))"
| "integerOp NotEqual l r = Some (Inr (boolValue (l \<noteq> r)))"
| "integerOp LessThan l r = Some (Inr (boolValue (sint l < sint r)))"
| "integerOp LessThanOrEqual l r = Some (Inr (boolValue (sint l \<le> sint r)))"
| "integerOp GreaterThan l r = Some (Inr (boolValue (sint l > sint r)))"
| "integerOp GreaterThanOrEqual l r = Some (Inr (boolValue (sint l \<ge> sint r)))"
| "integerOp _ l r = None"

fun stringOp :: "BinaryOp \<Rightarrow> string \<Rightarrow> string \<Rightarrow> (RtError + Value) option" where
  "stringOp Add l r = Some (Inr (stringValue (l @ r)))"
| "stringOp Equal l r = Some (Inr (boolValue (l = r)))"
| "stringOp NotEqual l r = Some (Inr (boolValue (l \<noteq> r)))"
| "stringOp _ l r = None"

fun booleanOp :: "BinaryOp \<Rightarrow> bool \<Rightarrow> bool \<Rightarrow> (RtError + Value) option" where
  "booleanOp Equal l r = Some (Inr (boolValue (l = r)))"
| "booleanOp NotEqual l r = Some (Inr (boolValue (l \<noteq> r)))"
| "booleanOp AndOp l r = Some (Inr (boolValue (l \<and> r)))"
| "booleanOp OrOp l r = Some (Inr (boolValue (l \<or> r)))"
| "booleanOp _ l r = None"

text \<open>An operation on two optional fields: nothing unless both are set.\<close>

definition onBoth :: "('a \<Rightarrow> 'a \<Rightarrow> 'r option) \<Rightarrow> 'a option \<Rightarrow> 'a option \<Rightarrow> 'r option" where
  "onBoth f l r = (case (l, r) of (Some x, Some y) \<Rightarrow> f x y | _ \<Rightarrow> None)"

definition applyBinary :: "BinaryOp \<Rightarrow> Value \<Rightarrow> Value \<Rightarrow> RtError + Value" where
  "applyBinary op left right =
     (case onBoth (integerOp op) (v_Integer left) (v_Integer right) of Some r \<Rightarrow> r
      | None \<Rightarrow> (case onBoth (stringOp op) (v_String left) (v_String right) of Some r \<Rightarrow> r
      | None \<Rightarrow> (case onBoth (booleanOp op) (v_Boolean left) (v_Boolean right) of Some r \<Rightarrow> r
      | None \<Rightarrow> Inl (nlError ''type-mismatch'' (''operator '' @ binaryOpText op @ '' not supported for operands'')))))"

definition applyUnary :: "UnaryOp \<Rightarrow> Value \<Rightarrow> RtError + Value" where
  "applyUnary op v =
     (case op of
        NotOp \<Rightarrow> (case v_Boolean v of
            None \<Rightarrow> Inl (nlError ''type-mismatch'' ''not requires boolean'')
          | Some b \<Rightarrow> Inr (boolValue (\<not> b)))
      | Negate \<Rightarrow> (case v_Integer v of
            None \<Rightarrow> Inl (nlError ''type-mismatch'' ''negate requires integer'')
          | Some n \<Rightarrow> Inr (intValue (- n)))
      | _ \<Rightarrow> Inl (nlError ''unsupported-op'' (''unsupported unary operator: '' @ unaryOpText op)))"

definition valueLen :: "Value \<Rightarrow> RtError + Value" where
  "valueLen arg =
     (case v_List arg of
        Some vs \<Rightarrow> Inr (intValue (word_of_nat (length vs)))
      | None \<Rightarrow> (case v_String arg of
          Some s \<Rightarrow> Inr (intValue (word_of_nat (length s)))
        | None \<Rightarrow> Inl (nlError ''type-mismatch'' ''len requires list or string'')))"

text \<open>The switch of the evaluator: the first field that is set decides what a node is.\<close>

datatype NodeKind = LiteralKind Value | IdentifierKind string | AssignKind ASTNode ASTNode
  | BinaryKind BinaryNode | UnaryKind UnaryNode | BlockKind "ASTNode list" | IfKind IfNode
  | CallKind CallNode | LambdaKind LambdaNode | ForLoopKind ForLoopNode | ReturnKind ASTNode | UnsupportedKind

fun nodeKind :: "ASTNode \<Rightarrow> NodeKind" where
  "nodeKind (ASTNode lit ident assign call lambda ifn block loop ret binary unary) =
     (case lit of Some v \<Rightarrow> LiteralKind v
      | None \<Rightarrow> (case ident of Some x \<Rightarrow> IdentifierKind x
      | None \<Rightarrow> (case assign of Some (target, rhs) \<Rightarrow> AssignKind target rhs
      | None \<Rightarrow> (case binary of Some b \<Rightarrow> BinaryKind b
      | None \<Rightarrow> (case unary of Some u \<Rightarrow> UnaryKind u
      | None \<Rightarrow> (case block of Some ns \<Rightarrow> BlockKind ns
      | None \<Rightarrow> (case ifn of Some i \<Rightarrow> IfKind i
      | None \<Rightarrow> (case call of Some c \<Rightarrow> CallKind c
      | None \<Rightarrow> (case lambda of Some l \<Rightarrow> LambdaKind l
      | None \<Rightarrow> (case loop of Some f \<Rightarrow> ForLoopKind f
      | None \<Rightarrow> (case ret of Some n \<Rightarrow> ReturnKind n
      | None \<Rightarrow> UnsupportedKind)))))))))))"

lemma nodeKind_size:
  "nodeKind n = AssignKind a b \<Longrightarrow> size b < size n"
  "nodeKind n = BinaryKind bn \<Longrightarrow> size bn < size n"
  "nodeKind n = UnaryKind u \<Longrightarrow> size u < size n"
  "nodeKind n = BlockKind ns \<Longrightarrow> size_list size ns < size n"
  "nodeKind n = IfKind i \<Longrightarrow> size i < size n"
  "nodeKind n = CallKind c \<Longrightarrow> size c < size n"
  "nodeKind n = ForLoopKind f \<Longrightarrow> size f < size n"
  "nodeKind n = ReturnKind m \<Longrightarrow> size m < size n"
  by (cases n; auto split: option.splits)+

lemma size_node_pos [simp]: "0 < size (n :: ASTNode)"
  by (cases n) simp

function (sequential) evalNode :: "Scopes \<Rightarrow> ASTNode \<Rightarrow> (RtError + Value) \<times> Scopes"
  and evalBinary :: "Scopes \<Rightarrow> BinaryNode \<Rightarrow> (RtError + Value) \<times> Scopes"
  and evalUnary :: "Scopes \<Rightarrow> UnaryNode \<Rightarrow> (RtError + Value) \<times> Scopes"
  and evalCall :: "Scopes \<Rightarrow> CallNode \<Rightarrow> (RtError + Value) \<times> Scopes"
  and evalForLoop :: "Scopes \<Rightarrow> ForLoopNode \<Rightarrow> (RtError + Value) \<times> Scopes"
  and evalIf :: "Scopes \<Rightarrow> IfNode \<Rightarrow> (RtError + Value) \<times> Scopes"
  and evalBlock :: "Scopes \<Rightarrow> Value \<Rightarrow> ASTNode list \<Rightarrow> (RtError + Value) \<times> Scopes"
  and loopItems :: "Scopes \<Rightarrow> string \<Rightarrow> ASTNode \<Rightarrow> Value \<Rightarrow> Value list \<Rightarrow> (RtError + Value) \<times> Scopes" where
  "evalNode env node =
     (case nodeKind node of
        LiteralKind v \<Rightarrow> (Inr v, env)
      | IdentifierKind x \<Rightarrow>
          (case lookupVar env x of
             None \<Rightarrow> (Inl (nlError ''unbound-identifier'' (''unbound identifier: '' @ x)), env)
           | Some v \<Rightarrow> (Inr v, env))
      | AssignKind target rhs \<Rightarrow>
          (case n_Identifier target of
             None \<Rightarrow> (Inl (nlError ''invalid-assign'' ''assignment target must be an identifier''), env)
           | Some x \<Rightarrow>
             (case evalNode env rhs of
                (Inl e, env1) \<Rightarrow> (Inl e, env1)
              | (Inr v, env1) \<Rightarrow> (Inr v, setVar env1 x v)))
      | BinaryKind b \<Rightarrow> evalBinary env b
      | UnaryKind u \<Rightarrow> evalUnary env u
      | BlockKind ns \<Rightarrow> evalBlock env noValue ns
      | IfKind i \<Rightarrow> evalIf env i
      | CallKind c \<Rightarrow> evalCall env c
      | LambdaKind l \<Rightarrow> (Inr nilValue, env)
      | ForLoopKind f \<Rightarrow> evalForLoop env f
      | ReturnKind n \<Rightarrow> evalNode env n
      | UnsupportedKind \<Rightarrow> (Inl (nlError ''unsupported-node'' ''unsupported AST node''), env))"
| "evalBinary env (BinaryNode op left right) =
     (case evalNode env left of
        (Inl e, env1) \<Rightarrow> (Inl e, env1)
      | (Inr l, env1) \<Rightarrow>
        (case evalNode env1 right of
           (Inl e, env2) \<Rightarrow> (Inl e, env2)
         | (Inr r, env2) \<Rightarrow> (applyBinary op l r, env2)))"
| "evalUnary env (UnaryNode op target) =
     (case evalNode env target of
        (Inl e, env1) \<Rightarrow> (Inl e, env1)
      | (Inr v, env1) \<Rightarrow> (applyUnary op v, env1))"
| "evalCall env (CallNode name args) =
     (if name = ''len'' then
        (case args of
           [arg] \<Rightarrow>
             (case evalNode env arg of
                (Inl e, env1) \<Rightarrow> (Inl e, env1)
              | (Inr v, env1) \<Rightarrow> (valueLen v, env1))
         | _ \<Rightarrow> (Inl (nlError ''arity'' ''len expects 1 argument''), env))
      else (Inl (nlError ''unknown-function'' (''unknown function: '' @ name)), env))"
| "evalForLoop env (ForLoopNode x iter body) =
     (case evalNode env iter of
        (Inl e, env1) \<Rightarrow> (Inl e, env1)
      | (Inr v, env1) \<Rightarrow>
        (case v_List v of
           None \<Rightarrow> (Inl (nlError ''type-mismatch'' ''for-loop requires list iterator''), env1)
         | Some items \<Rightarrow>
           (case loopItems (NewChild env1) x body noValue items of
              (r, child) \<Rightarrow> (r, tl child))))"
| "evalIf env (IfNode predicate thenN elseN) =
     (case evalNode env predicate of
        (Inl e, env1) \<Rightarrow> (Inl e, env1)
      | (Inr v, env1) \<Rightarrow>
        if isTruthy v then evalNode env1 thenN
        else (case elseN of Some n \<Rightarrow> evalNode env1 n | None \<Rightarrow> (Inr nilValue, env1)))"
| "evalBlock env final [] = (Inr final, env)"
| "evalBlock env final (n # ns) =
     (case evalNode env n of
        (Inl e, env1) \<Rightarrow> (Inl e, env1)
      | (Inr v, env1) \<Rightarrow> evalBlock env1 v ns)"
| "loopItems child x body final [] = (Inr final, child)"
| "loopItems child x body final (item # items) =
     (case evalNode (setVar child x item) body of
        (Inl e, child1) \<Rightarrow> (Inl e, child1)
      | (Inr v, child1) \<Rightarrow> loopItems child1 x body v items)"
  by pat_completeness auto

termination
  by (relation "measures [
      \<lambda>x. case x of
          Inl (Inl (Inl (env, n))) \<Rightarrow> size n
        | Inl (Inl (Inr (env, b))) \<Rightarrow> size b
        | Inl (Inr (Inl (env, u))) \<Rightarrow> size u
        | Inl (Inr (Inr (env, c))) \<Rightarrow> size c
        | Inr (Inl (Inl (env, f))) \<Rightarrow> size f
        | Inr (Inl (Inr (env, i))) \<Rightarrow> size i
        | Inr (Inr (Inl (env, v, ns))) \<Rightarrow> size_list size ns
        | Inr (Inr (Inr (child, x, body, v, items))) \<Rightarrow> Suc (size body),
      \<lambda>x. case x of
          Inr (Inr (Inr (child, x, body, v, items))) \<Rightarrow> length items
        | _ \<Rightarrow> 0]") (auto dest: nodeKind_size)

declare evalNode.simps [simp del]

definition EvalWithBindings :: "ASTNode \<Rightarrow> (string \<times> Value) list \<Rightarrow> EvalResult" where
  "EvalWithBindings node bindings =
     (let env = foldl (\<lambda>e (name, v). setVar e name v) NewEnv bindings
      in case fst (evalNode env node) of
           Inl err \<Rightarrow> \<lparr>er_OK = False, er_Value = None, er_Errors = [err]\<rparr>
         | Inr v \<Rightarrow> \<lparr>er_OK = True, er_Value = Some v, er_Errors = []\<rparr>)"

definition Eval :: "ASTNode \<Rightarrow> EvalResult" where
  "Eval node = EvalWithBindings node []"

section \<open>The mock compiler\<close>

fun countNodes :: "ASTNode \<Rightarrow> int" where
  "countNodes (ASTNode lit ident assign call lambda ifn block loop ret binary unary) =
     1 + (case assign of Some (a, b) \<Rightarrow> countNodes a + countNodes b
      | None \<Rightarrow> (case binary of Some (BinaryNode op l r) \<Rightarrow> countNodes l + countNodes r
      | None \<Rightarrow> (case unary of Some (UnaryNode op n) \<Rightarrow> countNodes n
      | None \<Rightarrow> (case block of Some ns \<Rightarrow> sum_list (map countNodes ns)
      | None \<Rightarrow> (case ifn of Some (IfNode p t e) \<Rightarrow>
            countNodes p + countNodes t + (case e of Some n \<Rightarrow> countNodes n | None \<Rightarrow> 0)
      | None \<Rightarrow> (case lambda of Some (LambdaNode ps n) \<Rightarrow> countNodes n
      | None \<Rightarrow> (case call of Some (CallNode f args) \<Rightarrow> sum_list (map countNodes args)
      | None \<Rightarrow> (case loop of Some (ForLoopNode x i b) \<Rightarrow> countNodes i + countNodes b
      | None \<Rightarrow> (case ret of Some n \<Rightarrow> countNodes n
      | None \<Rightarrow> 0)))))))))"

definition Compile :: "ASTNode \<Rightarrow> CompileResult" where
  "Compile ast =
     \<lparr>cr_OK = True, cr_Wasm = [],
      cr_Diagnostics = [''nulang mock compiler v0.1.0'', ''compiled '' @ FormatUint (countNodes ast) @ '' AST nodes''],
      cr_Errors = []\<rparr>"

section \<open>Scopes\<close>

text \<open>Evaluation assigns in the innermost scope only: the enclosing scopes are as they were.\<close>

definition inner :: "Scopes \<Rightarrow> Scopes \<Rightarrow> bool" where
  "inner env env' \<longleftrightarrow> tl env' = tl env \<and> (env' = [] \<longleftrightarrow> env = [])"

lemma inner_refl [simp]: "inner env env"
  by (simp add: inner_def)

lemma inner_trans: "inner a b \<Longrightarrow> inner b c \<Longrightarrow> inner a c"
  by (simp add: inner_def)

lemma inner_setVar: "inner env (setVar env x v)"
  by (cases env) (simp_all add: inner_def)

lemma inner_setVar_trans: "inner a b \<Longrightarrow> inner a (setVar b x v)"
  by (rule inner_trans [OF _ inner_setVar])

lemma eval_inner:
  "inner env (snd (evalNode env n))"
  "inner env (snd (evalBinary env b))"
  "inner env (snd (evalUnary env u))"
  "inner env (snd (evalCall env c))"
  "inner env (snd (evalForLoop env f))"
  "inner env (snd (evalIf env i))"
  "inner env (snd (evalBlock env w ns))"
  "inner child (snd (loopItems child x body w items))"
proof (induction env n and env b and env u and env c and env f and env i and env w ns and child x body w items
    rule: evalNode_evalBinary_evalUnary_evalCall_evalForLoop_evalIf_evalBlock_loopItems.induct)
  case (1 env n)
  show ?case
    unfolding evalNode.simps [of env n]
    using 1 by (cases "nodeKind n") (auto split: option.split sum.split prod.split intro: inner_setVar_trans)
next
  case (2 env op left right)
  then show ?case by (auto split: sum.splits prod.splits intro: inner_trans)
next
  case (3 env op target)
  then show ?case by (auto split: sum.splits prod.splits)
next
  case (4 env name args)
  then show ?case by (auto split: sum.splits prod.splits list.splits) (metis snd_conv)+
next
  case (5 env x iter body)
  obtain r env1 where e: "evalNode env iter = (r, env1)" by fastforce
  have i: "inner env env1" using 5(1) e by simp
  show ?case
  proof (cases r)
    case (Inl err)
    then show ?thesis using e i by simp
  next
    case r: (Inr v)
    show ?thesis
    proof (cases "v_List v")
      case None
      then show ?thesis using e i r by simp
    next
      case (Some items)
      have "inner (NewChild env1) (snd (loopItems (NewChild env1) x body noValue items))"
        using 5(2) e r Some by simp
      then show ?thesis using e i r Some by (simp add: NewChild_def inner_def case_prod_beta)
    qed
  qed
next
  case (6 env predicate thenN elseN)
  then show ?case by (auto split: sum.splits prod.splits option.splits intro: inner_trans)
next
  case (7 env w)
  then show ?case by simp
next
  case (8 env w n ns)
  then show ?case by (auto split: sum.splits prod.splits intro: inner_trans)
next
  case (9 child x body w)
  then show ?case by simp
next
  case (10 child x body w item items)
  then show ?case
    by (auto split: sum.splits prod.splits intro: inner_trans [OF inner_setVar] inner_trans)
qed

section \<open>A type discipline under which evaluation does not go wrong\<close>

text \<open>The nodes with one field, as the interface definition has them.\<close>

definition "emptyNode = ASTNode None None None None None None None None None None None"
definition "literalNode v = ASTNode (Some v) None None None None None None None None None None"
definition "identNode x = ASTNode None (Some x) None None None None None None None None None"
definition "assignNode x n = ASTNode None None (Some (identNode x, n)) None None None None None None None None"
definition "callNode f args = ASTNode None None None (Some (CallNode f args)) None None None None None None None"
definition "lambdaNode ps n = ASTNode None None None None (Some (LambdaNode ps n)) None None None None None None"
definition "ifNode p t e = ASTNode None None None None None (Some (IfNode p t e)) None None None None None"
definition "blockNode ns = ASTNode None None None None None None (Some ns) None None None None"
definition "forNode x i b = ASTNode None None None None None None None (Some (ForLoopNode x i b)) None None None"
definition "returnNode n = ASTNode None None None None None None None None (Some n) None None"
definition "binNode op l r = ASTNode None None None None None None None None None (Some (BinaryNode op l r)) None"
definition "unNode op n = ASTNode None None None None None None None None None None (Some (UnaryNode op n))"

lemmas node_defs = emptyNode_def literalNode_def identNode_def assignNode_def callNode_def lambdaNode_def ifNode_def
  blockNode_def forNode_def returnNode_def binNode_def unNode_def

datatype ty = TNil | TBool | TInt | TString | TList ty | TAny

fun has_type :: "Value \<Rightarrow> ty \<Rightarrow> bool" where
  "has_type v TAny = True"
| "has_type v TNil = (v = nilValue)"
| "has_type v TBool = (\<exists>b. v = boolValue b)"
| "has_type v TInt = (\<exists>n. v = intValue n)"
| "has_type v TString = (\<exists>s. v = stringValue s)"
| "has_type v (TList T) = (\<exists>vs. v = listValue vs \<and> (\<forall>x\<in>set vs. has_type x T))"

inductive op_type :: "BinaryOp \<Rightarrow> ty \<Rightarrow> ty \<Rightarrow> bool" where
  "op \<in> {Add, Subtract, Multiply, Divide, Modulo} \<Longrightarrow> op_type op TInt TInt"
| "op \<in> {Equal, NotEqual, LessThan, LessThanOrEqual, GreaterThan, GreaterThanOrEqual} \<Longrightarrow> op_type op TInt TBool"
| "op_type Add TString TString"
| "op \<in> {Equal, NotEqual} \<Longrightarrow> op_type op TString TBool"
| "op \<in> {Equal, NotEqual, AndOp, OrOp} \<Longrightarrow> op_type op TBool TBool"

text \<open>
  \<open>typed \<Gamma> n T \<Gamma>'\<close>: with the variables of \<open>\<Gamma>\<close>, the node yields a \<open>T\<close> and leaves those of \<open>\<Gamma>'\<close>.
  What a branch or a loop may leave unassigned is not known afterwards.
\<close>

inductive typed :: "(string \<Rightarrow> ty option) \<Rightarrow> ASTNode \<Rightarrow> ty \<Rightarrow> (string \<Rightarrow> ty option) \<Rightarrow> bool"
  and typedBlock :: "(string \<Rightarrow> ty option) \<Rightarrow> ty \<Rightarrow> ASTNode list \<Rightarrow> ty \<Rightarrow> (string \<Rightarrow> ty option) \<Rightarrow> bool"
where
  tLit: "has_type v T \<Longrightarrow> typed G (literalNode v) T G"
| tIdent: "G x = Some T \<Longrightarrow> typed G (identNode x) T G"
| tAssign: "typed G n T G1 \<Longrightarrow> typed G (assignNode x n) T (G1(x \<mapsto> T))"
| tBin: "typed G l T G1 \<Longrightarrow> typed G1 r T G2 \<Longrightarrow> op_type op T T' \<Longrightarrow> typed G (binNode op l r) T' G2"
| tNot: "typed G n TBool G1 \<Longrightarrow> typed G (unNode NotOp n) TBool G1"
| tNeg: "typed G n TInt G1 \<Longrightarrow> typed G (unNode Negate n) TInt G1"
| tBlock: "typedBlock G TAny ns T G1 \<Longrightarrow> typed G (blockNode ns) T G1"
| tIf: "typed G p T0 G1 \<Longrightarrow> typed G1 t T G2 \<Longrightarrow> typed G1 e T G3 \<Longrightarrow> G4 \<subseteq>\<^sub>m G2 \<Longrightarrow> G4 \<subseteq>\<^sub>m G3 \<Longrightarrow>
    typed G (ifNode p t (Some e)) T G4"
| tWhen: "typed G p T0 G1 \<Longrightarrow> typed G1 t T G2 \<Longrightarrow> G3 \<subseteq>\<^sub>m G1 \<Longrightarrow> G3 \<subseteq>\<^sub>m G2 \<Longrightarrow>
    typed G (ifNode p t None) TAny G3"
| tLenList: "typed G n (TList T) G1 \<Longrightarrow> typed G (callNode ''len'' [n]) TInt G1"
| tLenString: "typed G n TString G1 \<Longrightarrow> typed G (callNode ''len'' [n]) TInt G1"
| tLambda: "typed G (lambdaNode ps n) TNil G"
| tFor: "typed G i (TList T) G1 \<Longrightarrow> typed (G1(x \<mapsto> T)) b T' G2 \<Longrightarrow> G1(x \<mapsto> T) \<subseteq>\<^sub>m G2 \<Longrightarrow>
    typed G (forNode x i b) TAny G1"
| tReturn: "typed G n T G1 \<Longrightarrow> typed G (returnNode n) T G1"
| tNil: "typedBlock G T [] T G"
| tCons: "typed G n T1 G1 \<Longrightarrow> typedBlock G1 T1 ns T G2 \<Longrightarrow> typedBlock G T0 (n # ns) T G2"

definition agrees :: "(string \<Rightarrow> ty option) \<Rightarrow> Scopes \<Rightarrow> bool" where
  "agrees G env \<longleftrightarrow> env \<noteq> [] \<and> (\<forall>x T. G x = Some T \<longrightarrow> (\<exists>v. lookupVar env x = Some v \<and> has_type v T))"

definition sound :: "(RtError + Value) \<times> Scopes \<Rightarrow> ty \<Rightarrow> (string \<Rightarrow> ty option) \<Rightarrow> bool" where
  "sound r T G \<longleftrightarrow>
     (case fst r of
        Inl e \<Rightarrow> e_Code e = ''divide-by-zero''
      | Inr v \<Rightarrow> has_type v T \<and> agrees G (snd r))"

lemma sound_Inl [simp]: "sound (Inl e, env) T G \<longleftrightarrow> e_Code e = ''divide-by-zero''"
  and sound_Inr [simp]: "sound (Inr v, env) T G \<longleftrightarrow> has_type v T \<and> agrees G env"
  by (simp_all add: sound_def)

lemma sound_cases:
  assumes "sound r T G"
  obtains (err) e env where "r = (Inl e, env)" "e_Code e = ''divide-by-zero''"
  | (ok) v env where "r = (Inr v, env)" "has_type v T" "agrees G env"
  using assms by (cases r; cases "fst r") auto

lemma lookupVar_setVar: "env \<noteq> [] \<Longrightarrow> lookupVar (setVar env x v) y = (if y = x then Some v else lookupVar env y)"
  by (cases env) auto

lemma agrees_setVar: "agrees G env \<Longrightarrow> has_type v T \<Longrightarrow> agrees (G(x \<mapsto> T)) (setVar env x v)"
  unfolding agrees_def by (cases env) (auto simp: lookupVar_setVar)

lemma agrees_le: "agrees G env \<Longrightarrow> G' \<subseteq>\<^sub>m G \<Longrightarrow> agrees G' env"
  unfolding agrees_def map_le_def by (metis domI)

lemma agrees_child: "agrees G env \<Longrightarrow> agrees G (NewChild env)"
  by (simp add: agrees_def NewChild_def)

lemma applyBinary_sound:
  "op_type op T T' \<Longrightarrow> has_type l T \<Longrightarrow> has_type r T \<Longrightarrow> agrees G env \<Longrightarrow> sound (applyBinary op l r, env) T' G"
  by (induction rule: op_type.induct) (auto simp: applyBinary_def onBoth_def value_defs nlError_def)

lemma agrees_rebind:
  assumes "agrees (G(x := None)) env" and "has_type v T"
  shows "agrees (G(x \<mapsto> T)) (setVar env x v)"
  using agrees_setVar [OF assms, of x] by simp

lemma loopItems_sound:
  assumes body: "\<And>env. agrees (G(x \<mapsto> T)) env \<Longrightarrow> sound (evalNode env b) T' G2"
    and le: "G(x \<mapsto> T) \<subseteq>\<^sub>m G2"
  shows "agrees (G(x := None)) child \<Longrightarrow> \<forall>v\<in>set items. has_type v T \<Longrightarrow>
    (case fst (loopItems child x b final items) of Inl e \<Rightarrow> e_Code e = ''divide-by-zero'' | _ \<Rightarrow> True)"
proof (induction items arbitrary: child final)
  case Nil
  then show ?case by simp
next
  case (Cons item items)
  have c: "agrees (G(x \<mapsto> T)) (setVar child x item)"
    by (rule agrees_rebind [OF Cons.prems(1)]) (use Cons.prems(2) in simp)
  show ?case
  proof (cases rule: sound_cases [OF body [OF c]])
    case (1 e env)
    then show ?thesis by simp
  next
    case (2 v env)
    have "G(x := None) \<subseteq>\<^sub>m G2" using le by (auto simp: map_le_def split: if_splits)
    then have "agrees (G(x := None)) env" by (rule agrees_le [OF 2(3)])
    from Cons.IH [OF this, of v] Cons.prems(2)
    have "case fst (loopItems env x b v items) of Inl e \<Rightarrow> e_Code e = ''divide-by-zero'' | _ \<Rightarrow> True" by simp
    then show ?thesis using 2(1) by simp
  qed
qed

lemma eval_nodes:
  "evalNode env (literalNode v) = (Inr v, env)"
  "evalNode env (identNode x) = (case lookupVar env x of
      None \<Rightarrow> (Inl (nlError ''unbound-identifier'' (''unbound identifier: '' @ x)), env) | Some v \<Rightarrow> (Inr v, env))"
  "evalNode env (assignNode x n) =
     (case evalNode env n of (Inl e, env1) \<Rightarrow> (Inl e, env1) | (Inr v, env1) \<Rightarrow> (Inr v, setVar env1 x v))"
  "evalNode env (callNode f args) = evalCall env (CallNode f args)"
  "evalNode env (lambdaNode ps n) = (Inr nilValue, env)"
  "evalNode env (ifNode p t e) = evalIf env (IfNode p t e)"
  "evalNode env (blockNode ns) = evalBlock env noValue ns"
  "evalNode env (forNode x i b) = evalForLoop env (ForLoopNode x i b)"
  "evalNode env (returnNode n) = evalNode env n"
  "evalNode env (binNode op l r) = evalBinary env (BinaryNode op l r)"
  "evalNode env (unNode uop n) = evalUnary env (UnaryNode uop n)"
  by (simp_all add: evalNode.simps [of env] node_defs)

lemma typed_sound:
  "typed G n T G' \<Longrightarrow> agrees G env \<Longrightarrow> sound (evalNode env n) T G'"
  "typedBlock G T0 ns T G' \<Longrightarrow> agrees G env \<Longrightarrow> has_type w T0 \<Longrightarrow> sound (evalBlock env w ns) T G'"
proof (induction arbitrary: env and env w rule: typed_typedBlock.inducts)
  case (tLit v T G)
  then show ?case by (simp add: eval_nodes)
next
  case (tIdent G x T)
  then obtain v where "lookupVar env x = Some v" "has_type v T" by (auto simp: agrees_def)
  then show ?case using tIdent.prems by (simp add: eval_nodes)
next
  case (tAssign G n T G1 x)
  show ?case
    by (rule sound_cases [OF tAssign.IH [OF tAssign.prems]]) (simp_all add: eval_nodes agrees_setVar del: fun_upd_apply)
next
  case (tBin G l T G1 r G2 op T')
  show ?case
  proof (rule sound_cases [OF tBin.IH(1) [OF tBin.prems]])
    fix v env1
    assume 1: "evalNode env l = (Inr v, env1)" "has_type v T" "agrees G1 env1"
    show ?thesis
      by (rule sound_cases [OF tBin.IH(2) [OF 1(3)]])
        (simp_all add: eval_nodes 1 applyBinary_sound [OF tBin.hyps(3)])
  qed (simp add: eval_nodes)
next
  case (tNot G n G1)
  show ?case
    by (rule sound_cases [OF tNot.IH [OF tNot.prems]]) (auto simp: eval_nodes applyUnary_def value_defs)
next
  case (tNeg G n G1)
  show ?case
    by (rule sound_cases [OF tNeg.IH [OF tNeg.prems]]) (auto simp: eval_nodes applyUnary_def value_defs)
next
  case (tBlock G ns T G1)
  then show ?case by (simp add: eval_nodes)
next
  case (tIf G p T0 G1 t T G2 e G3 G4)
  show ?case
  proof (rule sound_cases [OF tIf.IH(1) [OF tIf.prems]])
    fix v env1
    assume 1: "evalNode env p = (Inr v, env1)" "agrees G1 env1"
    show ?thesis
      using tIf.IH(2) [OF 1(2)] tIf.IH(3) [OF 1(2)] agrees_le [OF _ tIf.hyps(4)] agrees_le [OF _ tIf.hyps(5)]
      by (auto simp: eval_nodes 1 sound_def split: sum.splits)
  qed (simp add: eval_nodes)
next
  case (tWhen G p T0 G1 t T G2 G3)
  show ?case
  proof (rule sound_cases [OF tWhen.IH(1) [OF tWhen.prems]])
    fix v env1
    assume 1: "evalNode env p = (Inr v, env1)" "agrees G1 env1"
    show ?thesis
      using tWhen.IH(2) [OF 1(2)] agrees_le [OF _ tWhen.hyps(4)] agrees_le [OF 1(2) tWhen.hyps(3)]
      by (auto simp: eval_nodes 1 sound_def split: sum.splits)
  qed (simp add: eval_nodes)
next
  case (tLenList G n T G1)
  show ?case
    by (rule sound_cases [OF tLenList.IH [OF tLenList.prems]]) (auto simp: eval_nodes valueLen_def value_defs)
next
  case (tLenString G n G1)
  show ?case
    by (rule sound_cases [OF tLenString.IH [OF tLenString.prems]]) (auto simp: eval_nodes valueLen_def value_defs)
next
  case (tLambda G ps n)
  then show ?case by (simp add: eval_nodes)
next
  case (tFor G i T G1 x b T' G2)
  show ?case
  proof (rule sound_cases [OF tFor.IH(1) [OF tFor.prems]])
    fix v env1
    assume 1: "evalNode env i = (Inr v, env1)" "has_type v (TList T)" "agrees G1 env1"
    then obtain items where items: "v_List v = Some items" "\<forall>y\<in>set items. has_type y T"
      by (auto simp: value_defs)
    have "G1(x := None) \<subseteq>\<^sub>m G1" by (simp add: map_le_def)
    then have "agrees (G1(x := None)) (NewChild env1)" by (rule agrees_le [OF agrees_child [OF 1(3)]])
    from loopItems_sound [OF tFor.IH(2) tFor.hyps(3) this items(2), of noValue]
    have "case fst (loopItems (NewChild env1) x b noValue items) of Inl e \<Rightarrow> e_Code e = ''divide-by-zero'' | _ \<Rightarrow> True" .
    moreover have "tl (snd (loopItems (NewChild env1) x b noValue items)) = env1"
      using eval_inner(8) [of "NewChild env1" x b noValue items] by (simp add: inner_def NewChild_def)
    ultimately show ?thesis
      using 1 items by (auto simp: eval_nodes sound_def case_prod_beta split: sum.splits)
  qed (simp add: eval_nodes)
next
  case (tReturn G n T G1)
  then show ?case by (simp add: eval_nodes)
next
  case (tNil G T)
  then show ?case by simp
next
  case (tCons G n T1 G1 ns T G2 T0)
  show ?case
    by (rule sound_cases [OF tCons.IH(1) [OF tCons.prems(1)]]) (simp_all add: tCons.IH(2))
qed

section \<open>Properties\<close>

lemma bindings_env: "foldl (\<lambda>e (name, v). setVar e name v) [m] bs = [m ++ map_of (rev bs)]"
  by (induction bs arbitrary: m) (auto simp: map_add_def fun_eq_iff split: option.split)

text \<open>
  C25. A typed program does not go wrong: with bindings of the right types, evaluation returns a
  value of its type, and the only error it can end in is a division by zero.  Evaluation always
  ends, as its recursion is over the nodes and the items of lists.
\<close>

theorem typed_program_evaluates:
  assumes "typed G n T G'"
    and "\<And>x U. G x = Some U \<Longrightarrow> \<exists>v. map_of (rev bindings) x = Some v \<and> has_type v U"
  shows "(\<exists>v. EvalWithBindings n bindings = \<lparr>er_OK = True, er_Value = Some v, er_Errors = []\<rparr> \<and> has_type v T) \<or>
    (\<exists>e. EvalWithBindings n bindings = \<lparr>er_OK = False, er_Value = None, er_Errors = [e]\<rparr> \<and>
      e_Code e = ''divide-by-zero'')"
proof -
  let ?env = "foldl (\<lambda>e (name, v). setVar e name v) NewEnv bindings"
  have env: "?env = [map_of (rev bindings)]" by (simp add: NewEnv_def bindings_env)
  have "\<exists>v. lookupVar ?env x = Some v \<and> has_type v U" if "G x = Some U" for x U
    using assms(2) [OF that] unfolding env by auto
  then have "agrees G ?env" by (simp add: agrees_def env)
  from typed_sound(1) [OF assms(1) this] show ?thesis
    by (cases rule: sound_cases) (auto simp: EvalWithBindings_def Let_def)
qed

definition sample_program :: ASTNode where
  \<comment> \<open>\<open>if n > 3 then n / m else len(s)\<close>\<close>
  "sample_program = ifNode (binNode GreaterThan (identNode ''n'') (literalNode (intValue 3)))
     (binNode Divide (identNode ''n'') (identNode ''m'')) (Some (callNode ''len'' [identNode ''s'']))"

definition sample_types :: "string \<Rightarrow> ty option" where
  "sample_types = [''n'' \<mapsto> TInt, ''m'' \<mapsto> TInt, ''s'' \<mapsto> TString]"

lemma sample_typed: "typed sample_types sample_program TInt sample_types"
  unfolding sample_program_def
proof (rule tIf)
  show "typed sample_types (binNode GreaterThan (identNode ''n'') (literalNode (intValue 3))) TBool sample_types"
    by (rule tBin [where T = TInt]) (auto intro!: tIdent tLit op_type.intros simp: sample_types_def)
  show "typed sample_types (binNode Divide (identNode ''n'') (identNode ''m'')) TInt sample_types"
    by (rule tBin [where T = TInt]) (auto intro!: tIdent op_type.intros simp: sample_types_def)
  show "typed sample_types (callNode ''len'' [identNode ''s'']) TInt sample_types"
    by (rule tLenString) (auto intro!: tIdent simp: sample_types_def)
qed simp_all

definition sample_bindings :: "64 word \<Rightarrow> (string \<times> Value) list" where
  "sample_bindings m = [(''n'', intValue 7), (''m'', intValue m), (''s'', stringValue ''abc'')]"

theorem typed_program_evaluates_witness:
  "(\<exists>v. EvalWithBindings sample_program (sample_bindings 2) = \<lparr>er_OK = True, er_Value = Some v, er_Errors = []\<rparr> \<and>
      has_type v TInt) \<or>
   (\<exists>e. EvalWithBindings sample_program (sample_bindings 2) = \<lparr>er_OK = False, er_Value = None, er_Errors = [e]\<rparr> \<and>
      e_Code e = ''divide-by-zero'')"
  by (rule typed_program_evaluates [OF sample_typed])
    (auto simp: sample_types_def sample_bindings_def value_defs split: if_splits)

lemma sample_program_runs:
  "er_Value (EvalWithBindings sample_program (sample_bindings 2)) = Some (intValue 3)"
  "map e_Code (er_Errors (EvalWithBindings sample_program (sample_bindings 0))) = [''divide-by-zero'']"
  by code_simp+

text \<open>
  A loop leaves the environment as the evaluation of its list leaves it: whatever its body
  assigns, to new variables or to variables of the enclosing scopes, is gone after the loop.
\<close>

theorem loop_assignments_local:
  "snd (evalForLoop env (ForLoopNode x iter body)) = snd (evalNode env iter) \<and>
   tl (snd (evalNode env n)) = tl env"
proof -
  have "tl (snd (loopItems (NewChild env1) x body noValue items)) = env1" for env1 items
    using eval_inner(8) [of "NewChild env1" x body noValue items] by (simp add: inner_def NewChild_def)
  then have "snd (evalForLoop env (ForLoopNode x iter body)) = snd (evalNode env iter)"
    by (auto split: prod.split sum.split option.split) (metis snd_conv)
  then show ?thesis using eval_inner(1) [of env n] by (simp add: inner_def)
qed

text \<open>
  Two ways the evaluator leaves its interface definition: a return does not end the block it is
  in, the nodes after it are evaluated and give the value; and an empty block yields a value with no
  field set, which no variant of the interface denotes and which counts as true, while nil is false.
\<close>

theorem return_and_empty_block:
  "evalNode env (blockNode (returnNode a # ns)) = evalNode env (blockNode (a # ns)) \<and>
   er_Value (Eval (blockNode [returnNode (literalNode (intValue 1)), literalNode (intValue 2)])) = Some (intValue 2) \<and>
   evalNode env (blockNode []) = (Inr noValue, env) \<and>
   evalNode env (ifNode (blockNode []) a (Some b)) = evalNode env a \<and>
   evalNode env (ifNode (literalNode nilValue) a (Some b)) = evalNode env b"
proof -
  have "er_Value (Eval (blockNode [returnNode (literalNode (intValue 1)), literalNode (intValue 2)])) = Some (intValue 2)"
    by code_simp
  then show ?thesis by (simp add: eval_nodes isTruthy_def value_defs)
qed

text \<open>The compiler accepts every tree, those the evaluator has no meaning for included.\<close>

lemma Compile_accepts:
  "cr_OK (Compile n) \<and> cr_Errors (Compile n) = [] \<and>
   map e_Code (er_Errors (Eval emptyNode)) = [''unsupported-node'']"
proof -
  have "map e_Code (er_Errors (Eval emptyNode)) = [''unsupported-node'']" by code_simp
  then show ?thesis by (simp add: Compile_def)
qed

text \<open>Both operands of a conjunction are evaluated, whatever the first one is.\<close>

lemma binary_strict:
  "evalNode env r = (Inl e, env') \<Longrightarrow> evalNode env l = (Inr v, env) \<Longrightarrow>
    evalNode env (binNode op l r) = (Inl e, env')"
  by (simp add: eval_nodes)

text \<open>Division by the least divisor wraps instead of failing.\<close>

lemma least_divided:
  "integerOp Divide (- (2 ^ 63)) (- 1) = Some (Inr (intValue (- (2 ^ 63))))"
  by code_simp

end
