(* ===== verification/Authz.thy ===== *)
theory Authz
  imports GoPrelude
begin

text \<open>
  Authorisation by organisation (\<open>apps/api/internal/authz/authz.go\<close>): every helper finds the
  organisation that owns a resource by one query and compares it with the one of the caller's token.

  The tables are lists of rows.  A query is the list of the rows it selects, of which
  \<open>QueryRowContext\<close> takes the first; \<open>az_fails\<close> tells whether the data base fails.
\<close>

section \<open>Tables and claims\<close>

record Claims =
  cl_UserID :: string
  cl_OrgID :: string
  cl_Email :: string
  cl_Role :: string

text \<open>A row of users, projects or of a table with an \<open>organization_id\<close> column.\<close>

record OwnedRow =
  ow_ID :: string
  ow_OrganizationID :: string
  ow_Deleted :: bool

text \<open>A row of a table whose owner is that of another row.\<close>

record ChildRow =
  ch_ID :: string
  ch_Parent :: string
  ch_Deleted :: bool

record AuthzDB =
  az_fails :: bool
  az_users :: "OwnedRow list"
  az_projects :: "OwnedRow list"
  az_owned :: "string \<Rightarrow> OwnedRow list option"
  az_repositories :: "ChildRow list"
  az_tasks :: "ChildRow list"
  az_workspaces :: "ChildRow list"
  az_agent_runs :: "ChildRow list"
  az_approvals :: "ChildRow list"
  az_pull_requests :: "ChildRow list"

datatype authz_error = ErrNotFound | QueryError | UnsupportedLookup string string

section \<open>Queries\<close>

text \<open>\<open>JOIN projects p ON p.id = x AND p.deleted_at IS NULL\<close>: the organisations of the live projects.\<close>

definition projectOrgs :: "AuthzDB \<Rightarrow> string \<Rightarrow> string list" where
  "projectOrgs db projectID =
     map ow_OrganizationID (filter (\<lambda>p. ow_ID p = projectID \<and> \<not> ow_Deleted p) (az_projects db))"

text \<open>The live rows of a child table with an identifier, and the organisations that own them.\<close>

definition liveOrgs :: "ChildRow list \<Rightarrow> (string \<Rightarrow> string list) \<Rightarrow> string \<Rightarrow> string list" where
  "liveOrgs rows owner i = concat (map (\<lambda>r. owner (ch_Parent r)) (filter (\<lambda>r. ch_ID r = i \<and> \<not> ch_Deleted r) rows))"

text \<open>As \<open>liveOrgs\<close>, for the tables whose own \<open>deleted_at\<close> the query does not look at.\<close>

definition anyOrgs :: "ChildRow list \<Rightarrow> (string \<Rightarrow> string list) \<Rightarrow> string \<Rightarrow> string list" where
  "anyOrgs rows owner i = concat (map (\<lambda>r. owner (ch_Parent r)) (filter (\<lambda>r. ch_ID r = i) rows))"

definition repositoryOrgs :: "AuthzDB \<Rightarrow> string \<Rightarrow> string list" where
  "repositoryOrgs db = liveOrgs (az_repositories db) (projectOrgs db)"

definition taskOrgs :: "AuthzDB \<Rightarrow> string \<Rightarrow> string list" where
  "taskOrgs db = liveOrgs (az_tasks db) (projectOrgs db)"

definition ownedBy :: "AuthzDB \<Rightarrow> Claims \<Rightarrow> string list \<Rightarrow> authz_error option" where
  \<comment> \<open>the first row is scanned, \<open>ErrNoRows\<close> and another organisation are both \<open>ErrNotFound\<close>\<close>
  "ownedBy db user orgs =
     (if az_fails db then Some QueryError
      else case orgs of
             [] \<Rightarrow> Some ErrNotFound
           | orgID # _ \<Rightarrow> if orgID \<noteq> cl_OrgID user then Some ErrNotFound else None)"

definition allowedAuthzColumns :: "(string \<times> string list) list" where
  "allowedAuthzColumns =
     [(''projects'', [''id'']), (''secret_references'', [''id'']), (''integrations'', [''id'']),
      (''policies'', [''id'']), (''artifacts'', [''id''])]"

definition isAllowedAuthzColumn :: "string \<Rightarrow> string \<Rightarrow> bool" where
  "isAllowedAuthzColumn table column =
     (case map_of allowedAuthzColumns table of None \<Rightarrow> False | Some cols \<Rightarrow> column \<in> set cols)"

text \<open>
  The rows of a table with an \<open>organization_id\<close>; a table that does not exist is an error.  The only
  column ever allowed is \<open>id\<close>.
\<close>

definition tableRows :: "AuthzDB \<Rightarrow> string \<Rightarrow> OwnedRow list option" where
  "tableRows db table = (if table = ''projects'' then Some (az_projects db) else az_owned db table)"

definition authorizeByColumn :: "AuthzDB \<Rightarrow> Claims \<Rightarrow> string \<Rightarrow> string \<Rightarrow> string \<Rightarrow> authz_error option" where
  "authorizeByColumn db user table column i =
     (if \<not> isAllowedAuthzColumn table column then Some (UnsupportedLookup table column)
      else case tableRows db table of
             None \<Rightarrow> Some QueryError
           | Some rows \<Rightarrow> ownedBy db user (map ow_OrganizationID (filter (\<lambda>r. ow_ID r = i) rows)))"

section \<open>Helpers\<close>

definition AuthorizeOrganization :: "AuthzDB \<Rightarrow> Claims \<Rightarrow> string \<Rightarrow> authz_error option" where
  "AuthorizeOrganization db user orgID =
     (if cl_OrgID user = [] then Some ErrNotFound
      else if az_fails db then Some QueryError
      else if \<not> list_ex (\<lambda>u. ow_ID u = cl_UserID user \<and> ow_OrganizationID u = orgID \<and> \<not> ow_Deleted u) (az_users db)
      then Some ErrNotFound
      else None)"

definition AuthorizeProject :: "AuthzDB \<Rightarrow> Claims \<Rightarrow> string \<Rightarrow> authz_error option" where
  "AuthorizeProject db user projectID = authorizeByColumn db user ''projects'' ''id'' projectID"

definition AuthorizeRepository :: "AuthzDB \<Rightarrow> Claims \<Rightarrow> string \<Rightarrow> authz_error option" where
  "AuthorizeRepository db user repoID = ownedBy db user (repositoryOrgs db repoID)"

definition AuthorizeTask :: "AuthzDB \<Rightarrow> Claims \<Rightarrow> string \<Rightarrow> authz_error option" where
  "AuthorizeTask db user taskID = ownedBy db user (taskOrgs db taskID)"

definition AuthorizeWorkspace :: "AuthzDB \<Rightarrow> Claims \<Rightarrow> string \<Rightarrow> authz_error option" where
  "AuthorizeWorkspace db user workspaceID = ownedBy db user (anyOrgs (az_workspaces db) (repositoryOrgs db) workspaceID)"

definition AuthorizeAgentRun :: "AuthzDB \<Rightarrow> Claims \<Rightarrow> string \<Rightarrow> authz_error option" where
  "AuthorizeAgentRun db user runID = ownedBy db user (anyOrgs (az_agent_runs db) (taskOrgs db) runID)"

definition AuthorizeApproval :: "AuthzDB \<Rightarrow> Claims \<Rightarrow> string \<Rightarrow> authz_error option" where
  "AuthorizeApproval db user approvalID = ownedBy db user (anyOrgs (az_approvals db) (taskOrgs db) approvalID)"

definition AuthorizePullRequest :: "AuthzDB \<Rightarrow> Claims \<Rightarrow> string \<Rightarrow> authz_error option" where
  "AuthorizePullRequest db user prID = ownedBy db user (anyOrgs (az_pull_requests db) (repositoryOrgs db) prID)"

definition AuthorizeSecret :: "AuthzDB \<Rightarrow> Claims \<Rightarrow> string \<Rightarrow> authz_error option" where
  "AuthorizeSecret db user secretID = authorizeByColumn db user ''secret_references'' ''id'' secretID"

definition AuthorizeIntegration :: "AuthzDB \<Rightarrow> Claims \<Rightarrow> string \<Rightarrow> authz_error option" where
  "AuthorizeIntegration db user integrationID = authorizeByColumn db user ''integrations'' ''id'' integrationID"

definition AuthorizePolicy :: "AuthzDB \<Rightarrow> Claims \<Rightarrow> string \<Rightarrow> authz_error option" where
  "AuthorizePolicy db user policyID = authorizeByColumn db user ''policies'' ''id'' policyID"

definition AuthorizeArtifact :: "AuthzDB \<Rightarrow> Claims \<Rightarrow> string \<Rightarrow> authz_error option" where
  "AuthorizeArtifact db user artifactID = authorizeByColumn db user ''artifacts'' ''id'' artifactID"

section \<open>Isolation of organisations\<close>

text \<open>The helpers by kind of resource, and who owns a resource along its chain of parents.\<close>

datatype Kind = OrganizationKind | ProjectKind | RepositoryKind | TaskKind | WorkspaceKind | AgentRunKind
  | ApprovalKind | PullRequestKind | SecretKind | IntegrationKind | PolicyKind | ArtifactKind

fun authorize :: "Kind \<Rightarrow> AuthzDB \<Rightarrow> Claims \<Rightarrow> string \<Rightarrow> authz_error option" where
  "authorize OrganizationKind = AuthorizeOrganization"
| "authorize ProjectKind = AuthorizeProject"
| "authorize RepositoryKind = AuthorizeRepository"
| "authorize TaskKind = AuthorizeTask"
| "authorize WorkspaceKind = AuthorizeWorkspace"
| "authorize AgentRunKind = AuthorizeAgentRun"
| "authorize ApprovalKind = AuthorizeApproval"
| "authorize PullRequestKind = AuthorizePullRequest"
| "authorize SecretKind = AuthorizeSecret"
| "authorize IntegrationKind = AuthorizeIntegration"
| "authorize PolicyKind = AuthorizePolicy"
| "authorize ArtifactKind = AuthorizeArtifact"

inductive owns :: "AuthzDB \<Rightarrow> string \<Rightarrow> Kind \<Rightarrow> string \<Rightarrow> bool" for db :: AuthzDB where
  owns_project: "p \<in> set (az_projects db) \<Longrightarrow> owns db (ow_OrganizationID p) ProjectKind (ow_ID p)"
| owns_repository: "r \<in> set (az_repositories db) \<Longrightarrow> owns db og ProjectKind (ch_Parent r) \<Longrightarrow> owns db og RepositoryKind (ch_ID r)"
| owns_task: "t \<in> set (az_tasks db) \<Longrightarrow> owns db og ProjectKind (ch_Parent t) \<Longrightarrow> owns db og TaskKind (ch_ID t)"
| owns_workspace: "w \<in> set (az_workspaces db) \<Longrightarrow> owns db og RepositoryKind (ch_Parent w) \<Longrightarrow> owns db og WorkspaceKind (ch_ID w)"
| owns_run: "r \<in> set (az_agent_runs db) \<Longrightarrow> owns db og TaskKind (ch_Parent r) \<Longrightarrow> owns db og AgentRunKind (ch_ID r)"
| owns_approval: "a \<in> set (az_approvals db) \<Longrightarrow> owns db og TaskKind (ch_Parent a) \<Longrightarrow> owns db og ApprovalKind (ch_ID a)"
| owns_pr: "r \<in> set (az_pull_requests db) \<Longrightarrow> owns db og RepositoryKind (ch_Parent r) \<Longrightarrow> owns db og PullRequestKind (ch_ID r)"
| owns_secret: "az_owned db ''secret_references'' = Some rows \<Longrightarrow> r \<in> set rows \<Longrightarrow> owns db (ow_OrganizationID r) SecretKind (ow_ID r)"
| owns_integration: "az_owned db ''integrations'' = Some rows \<Longrightarrow> r \<in> set rows \<Longrightarrow> owns db (ow_OrganizationID r) IntegrationKind (ow_ID r)"
| owns_policy: "az_owned db ''policies'' = Some rows \<Longrightarrow> r \<in> set rows \<Longrightarrow> owns db (ow_OrganizationID r) PolicyKind (ow_ID r)"
| owns_artifact: "az_owned db ''artifacts'' = Some rows \<Longrightarrow> r \<in> set rows \<Longrightarrow> owns db (ow_OrganizationID r) ArtifactKind (ow_ID r)"

text \<open>Primary keys: the identifiers of each table are distinct.\<close>

definition keyed :: "AuthzDB \<Rightarrow> bool" where
  "keyed db \<longleftrightarrow>
     distinct (map ow_ID (az_projects db)) \<and> distinct (map ch_ID (az_repositories db)) \<and>
     distinct (map ch_ID (az_tasks db)) \<and> distinct (map ch_ID (az_workspaces db)) \<and>
     distinct (map ch_ID (az_agent_runs db)) \<and> distinct (map ch_ID (az_approvals db)) \<and>
     distinct (map ch_ID (az_pull_requests db)) \<and>
     (\<forall>table rows. az_owned db table = Some rows \<longrightarrow> distinct (map ow_ID rows))"

lemma ownedBy_None: "ownedBy db user orgs = None \<longleftrightarrow> \<not> az_fails db \<and> orgs \<noteq> [] \<and> hd orgs = cl_OrgID user"
  by (cases orgs) (simp_all add: ownedBy_def)

lemma ownedBy_owner: "ownedBy db user orgs = None \<Longrightarrow> cl_OrgID user \<in> set orgs"
  by (cases orgs) (auto simp: ownedBy_def split: if_splits)

lemma projectOrgs_owner: "og \<in> set (projectOrgs db p) \<Longrightarrow> owns db og ProjectKind p"
  by (auto simp: projectOrgs_def intro: owns_project)

lemma liveOrgs_in: "og \<in> set (liveOrgs rows owner i) \<Longrightarrow> \<exists>r \<in> set rows. ch_ID r = i \<and> og \<in> set (owner (ch_Parent r))"
  by (auto simp: liveOrgs_def)

lemma anyOrgs_in: "og \<in> set (anyOrgs rows owner i) \<Longrightarrow> \<exists>r \<in> set rows. ch_ID r = i \<and> og \<in> set (owner (ch_Parent r))"
  by (auto simp: anyOrgs_def)

lemma repositoryOrgs_owner: "og \<in> set (repositoryOrgs db r) \<Longrightarrow> owns db og RepositoryKind r"
  unfolding repositoryOrgs_def by (drule liveOrgs_in) (auto intro: owns_repository projectOrgs_owner)

lemma taskOrgs_owner: "og \<in> set (taskOrgs db t) \<Longrightarrow> owns db og TaskKind t"
  unfolding taskOrgs_def by (drule liveOrgs_in) (auto intro: owns_task projectOrgs_owner)

lemma authorizeByColumn_row:
  assumes "authorizeByColumn db user table column i = None"
  shows "\<exists>rows r. tableRows db table = Some rows \<and> r \<in> set rows \<and> ow_ID r = i \<and> ow_OrganizationID r = cl_OrgID user"
proof -
  from assms obtain rows where "tableRows db table = Some rows"
    "ownedBy db user (map ow_OrganizationID (filter (\<lambda>r. ow_ID r = i) rows)) = None"
    by (auto simp: authorizeByColumn_def split: if_splits option.splits)
  with ownedBy_owner [OF this(2)] show ?thesis by auto
qed

lemma child_owner:
  assumes "ownedBy db user (anyOrgs rows owner i) = None"
    and "\<And>og j. og \<in> set (owner j) \<Longrightarrow> owns db og parent j"
    and "\<And>r og. r \<in> set rows \<Longrightarrow> owns db og parent (ch_Parent r) \<Longrightarrow> owns db og kind (ch_ID r)"
  shows "owns db (cl_OrgID user) kind i"
  using anyOrgs_in [OF ownedBy_owner [OF assms(1)]] assms(2,3) by auto

lemma authorized_owns:
  assumes "authorize kind db user i = None" "kind \<noteq> OrganizationKind"
  shows "owns db (cl_OrgID user) kind i"
proof (cases kind)
  case ProjectKind
  with assms authorizeByColumn_row [of db user "''projects''" "''id''" i] show ?thesis
    by (auto simp: AuthorizeProject_def tableRows_def dest: owns_project)
next
  case RepositoryKind
  with assms ownedBy_owner [of db user] show ?thesis by (auto simp: AuthorizeRepository_def intro: repositoryOrgs_owner)
next
  case TaskKind
  with assms ownedBy_owner [of db user] show ?thesis by (auto simp: AuthorizeTask_def intro: taskOrgs_owner)
next
  case WorkspaceKind
  with assms have "AuthorizeWorkspace db user i = None" by simp
  from child_owner [OF this [unfolded AuthorizeWorkspace_def] repositoryOrgs_owner owns_workspace] WorkspaceKind show ?thesis by simp
next
  case AgentRunKind
  with assms have "AuthorizeAgentRun db user i = None" by simp
  from child_owner [OF this [unfolded AuthorizeAgentRun_def] taskOrgs_owner owns_run] AgentRunKind show ?thesis by simp
next
  case ApprovalKind
  with assms have "AuthorizeApproval db user i = None" by simp
  from child_owner [OF this [unfolded AuthorizeApproval_def] taskOrgs_owner owns_approval] ApprovalKind show ?thesis by simp
next
  case PullRequestKind
  with assms have "AuthorizePullRequest db user i = None" by simp
  from child_owner [OF this [unfolded AuthorizePullRequest_def] repositoryOrgs_owner owns_pr] PullRequestKind show ?thesis by simp
next
  case SecretKind
  with assms authorizeByColumn_row [of db user "''secret_references''" "''id''" i] show ?thesis
    by (auto simp: AuthorizeSecret_def tableRows_def dest: owns_secret)
next
  case IntegrationKind
  with assms authorizeByColumn_row [of db user "''integrations''" "''id''" i] show ?thesis
    by (auto simp: AuthorizeIntegration_def tableRows_def dest: owns_integration)
next
  case PolicyKind
  with assms authorizeByColumn_row [of db user "''policies''" "''id''" i] show ?thesis
    by (auto simp: AuthorizePolicy_def tableRows_def dest: owns_policy)
next
  case ArtifactKind
  with assms authorizeByColumn_row [of db user "''artifacts''" "''id''" i] show ?thesis
    by (auto simp: AuthorizeArtifact_def tableRows_def dest: owns_artifact)
qed (use assms in auto)

inductive_cases owns_cases:
  "owns db og ProjectKind i" "owns db og RepositoryKind i" "owns db og TaskKind i" "owns db og WorkspaceKind i"
  "owns db og AgentRunKind i" "owns db og ApprovalKind i" "owns db og PullRequestKind i" "owns db og SecretKind i"
  "owns db og IntegrationKind i" "owns db og PolicyKind i" "owns db og ArtifactKind i"

lemma distinct_key: "distinct (map f xs) \<Longrightarrow> x \<in> set xs \<Longrightarrow> y \<in> set xs \<Longrightarrow> f x = f y \<Longrightarrow> x = y"
  by (auto simp: distinct_map inj_on_def)

lemma owner_unique:
  assumes "owns db og kind i" "owns db og' kind i" "keyed db"
  shows "og = og'"
  using assms(1,2)
proof (induction og kind i arbitrary: og' rule: owns.induct)
  case (owns_project p)
  from owns_project(2) obtain q where "q \<in> set (az_projects db)" "ow_ID p = ow_ID q" "og' = ow_OrganizationID q"
    by (cases rule: owns_cases(1)) auto
  with distinct_key [of ow_ID "az_projects db" p q] owns_project(1) assms(3) show ?case by (auto simp: keyed_def)
next
  case (owns_repository r og)
  from owns_repository(4) obtain q where "q \<in> set (az_repositories db)" "ch_ID r = ch_ID q" "owns db og' ProjectKind (ch_Parent q)"
    by (cases rule: owns_cases(2)) auto
  with distinct_key [of ch_ID "az_repositories db" r q] owns_repository(1,3) assms(3) show ?case by (auto simp: keyed_def)
next
  case (owns_task t og)
  from owns_task(4) obtain q where "q \<in> set (az_tasks db)" "ch_ID t = ch_ID q" "owns db og' ProjectKind (ch_Parent q)"
    by (cases rule: owns_cases(3)) auto
  with distinct_key [of ch_ID "az_tasks db" t q] owns_task(1,3) assms(3) show ?case by (auto simp: keyed_def)
next
  case (owns_workspace w og)
  from owns_workspace(4) obtain q where "q \<in> set (az_workspaces db)" "ch_ID w = ch_ID q" "owns db og' RepositoryKind (ch_Parent q)"
    by (cases rule: owns_cases(4)) auto
  with distinct_key [of ch_ID "az_workspaces db" w q] owns_workspace(1,3) assms(3) show ?case by (auto simp: keyed_def)
next
  case (owns_run r og)
  from owns_run(4) obtain q where "q \<in> set (az_agent_runs db)" "ch_ID r = ch_ID q" "owns db og' TaskKind (ch_Parent q)"
    by (cases rule: owns_cases(5)) auto
  with distinct_key [of ch_ID "az_agent_runs db" r q] owns_run(1,3) assms(3) show ?case by (auto simp: keyed_def)
next
  case (owns_approval a og)
  from owns_approval(4) obtain q where "q \<in> set (az_approvals db)" "ch_ID a = ch_ID q" "owns db og' TaskKind (ch_Parent q)"
    by (cases rule: owns_cases(6)) auto
  with distinct_key [of ch_ID "az_approvals db" a q] owns_approval(1,3) assms(3) show ?case by (auto simp: keyed_def)
next
  case (owns_pr r og)
  from owns_pr(4) obtain q where "q \<in> set (az_pull_requests db)" "ch_ID r = ch_ID q" "owns db og' RepositoryKind (ch_Parent q)"
    by (cases rule: owns_cases(7)) auto
  with distinct_key [of ch_ID "az_pull_requests db" r q] owns_pr(1,3) assms(3) show ?case by (auto simp: keyed_def)
next
  case (owns_secret rows r)
  from owns_secret(3,1) obtain q where "q \<in> set rows" "ow_ID r = ow_ID q" "og' = ow_OrganizationID q"
    by (cases rule: owns_cases(8)) auto
  with distinct_key [of ow_ID rows r q] owns_secret(1,2) assms(3) show ?case by (auto simp: keyed_def)
next
  case (owns_integration rows r)
  from owns_integration(3,1) obtain q where "q \<in> set rows" "ow_ID r = ow_ID q" "og' = ow_OrganizationID q"
    by (cases rule: owns_cases(9)) auto
  with distinct_key [of ow_ID rows r q] owns_integration(1,2) assms(3) show ?case by (auto simp: keyed_def)
next
  case (owns_policy rows r)
  from owns_policy(3,1) obtain q where "q \<in> set rows" "ow_ID r = ow_ID q" "og' = ow_OrganizationID q"
    by (cases rule: owns_cases(10)) auto
  with distinct_key [of ow_ID rows r q] owns_policy(1,2) assms(3) show ?case by (auto simp: keyed_def)
next
  case (owns_artifact rows r)
  from owns_artifact(3,1) obtain q where "q \<in> set rows" "ow_ID r = ow_ID q" "og' = ow_OrganizationID q"
    by (cases rule: owns_cases(11)) auto
  with distinct_key [of ow_ID rows r q] owns_artifact(1,2) assms(3) show ?case by (auto simp: keyed_def)
qed

text \<open>
  C20. Organisations are isolated: a resource other than an organisation that a caller is authorised for
  belongs to the organisation of the caller's token, along the chain of its parents, so that callers
  of different organisations are never both authorised for it.
\<close>

theorem tenants_isolated:
  assumes "keyed db" and "kind \<noteq> OrganizationKind"
    and "authorize kind db user1 i = None" and "authorize kind db user2 i = None"
  shows "owns db (cl_OrgID user1) kind i \<and> cl_OrgID user1 = cl_OrgID user2"
  using authorized_owns [OF assms(3,2)] authorized_owns [OF assms(4,2)] owner_unique assms(1) by auto

definition sample_db :: AuthzDB where
  "sample_db =
     \<lparr>az_fails = False,
      az_users = [\<lparr>ow_ID = ''u1'', ow_OrganizationID = ''o1'', ow_Deleted = False\<rparr>,
                  \<lparr>ow_ID = ''u2'', ow_OrganizationID = ''o1'', ow_Deleted = True\<rparr>],
      az_projects = [\<lparr>ow_ID = ''p1'', ow_OrganizationID = ''o1'', ow_Deleted = False\<rparr>,
                     \<lparr>ow_ID = ''p2'', ow_OrganizationID = ''o1'', ow_Deleted = True\<rparr>],
      az_owned = (\<lambda>_. None),
      az_repositories = [\<lparr>ch_ID = ''r1'', ch_Parent = ''p1'', ch_Deleted = False\<rparr>,
                         \<lparr>ch_ID = ''r2'', ch_Parent = ''p2'', ch_Deleted = False\<rparr>],
      az_tasks = [\<lparr>ch_ID = ''t1'', ch_Parent = ''p1'', ch_Deleted = False\<rparr>],
      az_workspaces = [\<lparr>ch_ID = ''w1'', ch_Parent = ''r1'', ch_Deleted = True\<rparr>],
      az_agent_runs = [], az_approvals = [\<lparr>ch_ID = ''a1'', ch_Parent = ''t1'', ch_Deleted = False\<rparr>],
      az_pull_requests = []\<rparr>"

definition sample_claims :: "string \<Rightarrow> Claims" where
  "sample_claims i = \<lparr>cl_UserID = i, cl_OrgID = ''o1'', cl_Email = [], cl_Role = ''member''\<rparr>"

theorem tenants_isolated_witness:
  "owns sample_db ''o1'' ApprovalKind ''a1''"
proof -
  have k: "keyed sample_db" by (simp add: keyed_def sample_db_def)
  have 1: "authorize ApprovalKind sample_db (sample_claims ''u1'') ''a1'' = None" by code_simp
  have 2: "authorize ApprovalKind sample_db (sample_claims ''u3'') ''a1'' = None" by code_simp
  from tenants_isolated [OF k _ 1 2] show ?thesis by (simp add: sample_claims_def)
qed

text \<open>
  What is deleted is not refused everywhere: a deleted user whose token is still valid, and one who
  never was in the table, are refused for the organisation and authorised for its tasks and approvals;
  a deleted project is authorised, while the repositories in it are not; and a deleted workspace is
  authorised.
\<close>

theorem deleted_still_authorized:
  "AuthorizeOrganization sample_db (sample_claims ''u2'') ''o1'' = Some ErrNotFound \<and>
   AuthorizeTask sample_db (sample_claims ''u2'') ''t1'' = None \<and>
   AuthorizeApproval sample_db (sample_claims ''u2'') ''a1'' = None \<and>
   AuthorizeTask sample_db (sample_claims ''nobody'') ''t1'' = None \<and>
   AuthorizeProject sample_db (sample_claims ''u1'') ''p2'' = None \<and>
   AuthorizeRepository sample_db (sample_claims ''u1'') ''r2'' = Some ErrNotFound \<and>
   AuthorizeWorkspace sample_db (sample_claims ''u1'') ''w1'' = None"
  by code_simp

end
