(* ===== verification/Approvals.thy ===== *)
theory Approvals
  imports Capability
begin

text \<open>
  The service of human approvals (\<open>apps/api/internal/approvals/service.go\<close>): requests, responses,
  pending requests and whether an action needs an approval.

  The tables of tasks and approvals are lists of rows, with the primary keys as identifiers.  Each
  operation executes its SQL statements in order: \<open>fails n\<close> tells whether the one with number \<open>n\<close>
  fails, \<open>clock n\<close> is its reading of the clock with number \<open>n\<close>.  The JSON of the details of a request
  and of the approval requirements of a task is coded by parameters.  What is handed to the event bus
  and to the audit log is kept in the state; a bus that fails is only logged by the code.
\<close>

section \<open>State\<close>

record ApprovalEvent =
  ev_Subject :: string
  ev_ApprovalID :: string
  ev_TaskID :: string
  ev_AgentRunID :: "string option"
  ev_Response :: string
  ev_ResponderID :: string
  ev_ApprovalType :: string
  ev_Note :: string

record ApprovalState =
  as_tasks :: "ModelTask list"
  as_approvals :: "Approval list"
  as_events :: "ApprovalEvent list"
  as_audit :: "AuditEntry list"

text \<open>The service: its kernel, and whether it has an event bus.\<close>

record ApprovalService =
  sv_kernel :: "Kernel option"
  sv_eventBus :: bool

definition NewService :: "Kernel option \<Rightarrow> bool \<Rightarrow> ApprovalService" where
  "NewService k eventBus = \<lparr>sv_kernel = k, sv_eventBus = eventBus\<rparr>"

datatype approvals_error =
    TaskCheckFailed
  | TaskNotFound string
  | MarshalFailed
  | InvalidApproval string
  | InsertFailed
  | InvalidResponse string
  | ApprovalNotFound string
  | GetFailed
  | NotPending string
  | ApprovalExpired string
  | TaskLoadFailed
  | EvaluationFailed cap_error
  | NoPermission Reason
  | UpdateFailed
  | QueryFailed

definition liveTask :: "string \<Rightarrow> ModelTask \<Rightarrow> bool" where
  "liveTask taskID t \<longleftrightarrow> tk_ID t = taskID \<and> tk_DeletedAt t = None"

section \<open>Requests\<close>

definition newApproval :: "string \<Rightarrow> string \<Rightarrow> string \<Rightarrow> string \<Rightarrow> (nat \<Rightarrow> int) \<Rightarrow> string \<Rightarrow> Approval" where
  "newApproval newID taskID approvalType requestedBy clock metadata =
     \<lparr>ap_ID = newID, ap_TaskID = taskID, ap_AgentRunID = None, ap_ApprovalType = approvalType,
      ap_RequestedBy = requestedBy, ap_RequestedAt = clock 0, ap_RespondedBy = None, ap_Response = None,
      ap_ResponseNote = None, ap_RespondedAt = None, ap_ExpiresAt = None, ap_Metadata = metadata,
      ap_CreatedAt = clock 1, ap_UpdatedAt = clock 2\<rparr>"

definition RequestApproval ::
    "('d \<Rightarrow> string option) \<Rightarrow> (nat \<Rightarrow> bool) \<Rightarrow> (nat \<Rightarrow> int) \<Rightarrow> string \<Rightarrow> string \<Rightarrow> string \<Rightarrow> string \<Rightarrow> 'd option \<Rightarrow>
     ApprovalState \<Rightarrow> (approvals_error + Approval) \<times> ApprovalState" where
  "RequestApproval marshal fails clock newID taskID approvalType requestedBy details s =
     (if fails 0 then (Inl TaskCheckFailed, s)
      else if \<not> list_ex (liveTask taskID) (as_tasks s) then (Inl (TaskNotFound taskID), s)
      else (case (case details of None \<Rightarrow> Some [] | Some d \<Rightarrow> marshal d) of
          None \<Rightarrow> (Inl MarshalFailed, s)
        | Some metadata \<Rightarrow>
          (let approval = newApproval newID taskID approvalType requestedBy clock metadata in
           case Approval_Validate approval of
             Some e \<Rightarrow> (Inl (InvalidApproval e), s)
           | None \<Rightarrow>
             if fails 1 \<or> list_ex (\<lambda>a. ap_ID a = newID) (as_approvals s) then (Inl InsertFailed, s)
             else (Inr approval,
               s\<lparr>as_approvals := as_approvals s @ [approval\<lparr>ap_UpdatedAt := ap_CreatedAt approval\<rparr>]\<rparr>))))"

section \<open>Responses\<close>

definition getApproval :: "bool \<Rightarrow> string \<Rightarrow> ApprovalState \<Rightarrow> approvals_error + Approval" where
  "getApproval failed approvalID s =
     (if failed then Inl GetFailed
      else case find (\<lambda>a. ap_ID a = approvalID) (as_approvals s) of
             None \<Rightarrow> Inl (ApprovalNotFound approvalID)
           | Some a \<Rightarrow> Inr a)"

text \<open>The task as the permission check sees it: most nullable columns are read and dropped.\<close>

definition loadedTask :: "ModelTask \<Rightarrow> ModelTask" where
  "loadedTask t = t\<lparr>tk_WorkspaceID := None, tk_SourceID := None, tk_Spec := [], tk_AcceptanceCriteria := [],
     tk_MaxCost := None, tk_ApprovalRequirements := [], tk_Metadata := [], tk_StartedAt := None,
     tk_CompletedAt := None, tk_DeletedAt := None\<rparr>"

definition approvalOperation :: "string \<Rightarrow> string" where
  "approvalOperation approvalType =
     (if approvalType = ''deploy'' then ''deploy''
      else if approvalType = ''pr_create'' then ''open_pull_request''
      else if approvalType = ''execution'' then ''run_command''
      else ''open_pull_request'')"

definition runWithID :: "string \<Rightarrow> AgentRun" where
  "runWithID i =
     \<lparr>ar_ID = i, ar_TaskID = [], ar_WorkspaceID = None, ar_AgentRole = [], ar_Model = None, ar_Provider = None,
      ar_Status = [], ar_StartedAt = None, ar_CompletedAt = None, ar_PromptTokens = 0, ar_CompletionTokens = 0,
      ar_TotalCost = f64_zero, ar_ErrorMessage = None, ar_Summary = None, ar_Metadata = [], ar_CreatedAt = 0,
      ar_UpdatedAt = 0\<rparr>"

definition serviceRequest :: "string \<Rightarrow> ModelTask \<Rightarrow> string \<Rightarrow> string option \<Rightarrow> CapRequest" where
  "serviceRequest actorType task op run =
     \<lparr>q_ActorType = actorType, q_User = None, q_AgentRole = [], q_Organization = None, q_Project = None,
      q_Repository = None, q_Workspace = None, q_Task = Some task,
      q_AgentRun = (case run of None \<Rightarrow> None | Some i \<Rightarrow> Some (runWithID i)), q_Operation = op,
      q_ResourceType = [], q_Resource = [], q_Revision = [], q_Budget = None, q_SandboxState = [],
      q_Details = (\<lambda>_. None)\<rparr>"

definition checkPermission ::
    "(f64 \<Rightarrow> string) \<Rightarrow> ApprovalService \<Rightarrow> bool \<Rightarrow> Approval \<Rightarrow> ApprovalState \<Rightarrow> approvals_error option \<times> ApprovalState" where
  "checkPermission ftext sv failed approval s =
     (case sv_kernel sv of
        None \<Rightarrow> (None, s)
      | Some k \<Rightarrow>
        (case (if failed then None else find (liveTask (ap_TaskID approval)) (as_tasks s)) of
           None \<Rightarrow> (Some TaskLoadFailed, s)
         | Some t \<Rightarrow>
           (let req = serviceRequest ''human'' (loadedTask t) (approvalOperation (ap_ApprovalType approval))
                  (ap_AgentRunID approval);
                ((result, err), log1) = Kernel_Evaluate ftext k req;
                s1 = s\<lparr>as_audit := as_audit s @ log1\<rparr>
            in case err of
                 Some e \<Rightarrow> (Some (EvaluationFailed e), s1)
               | None \<Rightarrow>
                 if res_Effect result = EffectDeny then (Some (NoPermission (res_Reason result)), s1)
                 else (None, s1))))"

text \<open>Everything a response checks before it writes.\<close>

definition checkResponse ::
    "(f64 \<Rightarrow> string) \<Rightarrow> ApprovalService \<Rightarrow> (nat \<Rightarrow> bool) \<Rightarrow> (nat \<Rightarrow> int) \<Rightarrow> string \<Rightarrow> string \<Rightarrow> ApprovalState \<Rightarrow>
     (approvals_error + Approval) \<times> ApprovalState" where
  "checkResponse ftext sv fails clock approvalID response s =
     (if response \<noteq> ''approved'' \<and> response \<noteq> ''rejected'' then (Inl (InvalidResponse response), s)
      else case getApproval (fails 0) approvalID s of
             Inl e \<Rightarrow> (Inl e, s)
           | Inr approval \<Rightarrow>
             if \<not> IsPending approval then (Inl (NotPending approvalID), s)
             else if IsExpired (clock 0) approval then (Inl (ApprovalExpired approvalID), s)
             else (case checkPermission ftext sv (fails 1) approval s of
                     (Some e, s1) \<Rightarrow> (Inl e, s1)
                   | (None, s1) \<Rightarrow> (Inr approval, s1)))"

definition respondRow :: "string \<Rightarrow> string \<Rightarrow> string \<Rightarrow> int \<Rightarrow> Approval \<Rightarrow> Approval" where
  "respondRow responderID response reply now a =
     a\<lparr>ap_RespondedBy := Some responderID, ap_Response := Some response, ap_ResponseNote := Some reply,
       ap_RespondedAt := Some now, ap_UpdatedAt := now\<rparr>"

definition failTask :: "string \<Rightarrow> int \<Rightarrow> ModelTask \<Rightarrow> ModelTask" where
  "failTask taskID now t =
     (if tk_ID t = taskID then t\<lparr>tk_Status := ''failed'', tk_UpdatedAt := now\<rparr> else t)"

text \<open>The write of a response that was checked, and what is published of it.\<close>

definition applyResponse ::
    "ApprovalService \<Rightarrow> (nat \<Rightarrow> bool) \<Rightarrow> (nat \<Rightarrow> int) \<Rightarrow> Approval \<Rightarrow> string \<Rightarrow> string \<Rightarrow> string \<Rightarrow> string \<Rightarrow>
     ApprovalState \<Rightarrow> approvals_error option \<times> ApprovalState" where
  "applyResponse sv fails clock approval approvalID responderID response reply s =
     (let now = clock 1 in
      if fails 2 then (Some UpdateFailed, s)
      else
        (let s1 = s\<lparr>as_approvals := map (\<lambda>a. if ap_ID a = approvalID then respondRow responderID response reply now a else a)
               (as_approvals s)\<rparr>;
             subject = (if response = ''approved'' then ''approval.approved'' else ''approval.rejected'');
             event = \<lparr>ev_Subject = subject, ev_ApprovalID = approvalID, ev_TaskID = ap_TaskID approval,
               ev_AgentRunID = ap_AgentRunID approval, ev_Response = response, ev_ResponderID = responderID,
               ev_ApprovalType = ap_ApprovalType approval, ev_Note = reply\<rparr>;
             s2 = s1\<lparr>as_events := as_events s1 @ [event]\<rparr>
         in if \<not> sv_eventBus sv then (None, s1)
            else if response = ''approved'' then (None, s2)
            else if fails 3 then (None, s2)
            else (None, s2\<lparr>as_tasks := map (failTask (ap_TaskID approval) now) (as_tasks s2)\<rparr>)))"

definition Service_RespondApproval ::
    "(f64 \<Rightarrow> string) \<Rightarrow> ApprovalService \<Rightarrow> (nat \<Rightarrow> bool) \<Rightarrow> (nat \<Rightarrow> int) \<Rightarrow> string \<Rightarrow> string \<Rightarrow> string \<Rightarrow> string \<Rightarrow>
     ApprovalState \<Rightarrow> approvals_error option \<times> ApprovalState" where
  "Service_RespondApproval ftext sv fails clock approvalID responderID response reply s =
     (case checkResponse ftext sv fails clock approvalID response s of
        (Inl e, s1) \<Rightarrow> (Some e, s1)
      | (Inr approval, s1) \<Rightarrow> applyResponse sv fails clock approval approvalID responderID response reply s1)"

section \<open>Pending approvals and the need for one\<close>

text \<open>The rows of a query; among requests of the same instant SQL leaves the order open, here it is the table's.\<close>

definition GetPendingApprovals :: "bool \<Rightarrow> int \<Rightarrow> string \<Rightarrow> ApprovalState \<Rightarrow> approvals_error + Approval list" where
  "GetPendingApprovals failed now taskID s =
     (if failed then Inl QueryFailed
      else Inr (sort_key (\<lambda>a. - ap_RequestedAt a)
        (filter (\<lambda>a. ap_TaskID a = taskID \<and> ap_Response a = None \<and>
            (case ap_ExpiresAt a of None \<Rightarrow> True | Some e \<Rightarrow> e > now)) (as_approvals s))))"

definition mapActionToOperation :: "string \<Rightarrow> string" where
  "mapActionToOperation action =
     (if action = ''create_pr'' then ''open_pull_request''
      else if action = ''merge'' then ''merge_pull_request''
      else if action = ''deploy'' then ''deploy''
      else if action = ''push'' then ''push_branch''
      else if action = ''commit'' then ''create_commit''
      else if action = ''migrate'' then ''run_migration''
      else if action = ''destructive_db'' then ''destructive_db''
      else if action = ''write_file'' then ''write_file''
      else if action = ''delete_file'' then ''delete_file''
      else if action = ''access_secret'' then ''access_secret''
      else action)"

definition highRiskActions :: "string list" where
  "highRiskActions = [''create_pr'', ''deploy'', ''merge'', ''push'', ''migrate'', ''destructive'']"

definition partTask :: "ModelTask \<Rightarrow> ModelTask" where
  "partTask t =
     \<lparr>tk_ID = tk_ID t, tk_ProjectID = tk_ProjectID t, tk_RepositoryID = [], tk_WorkspaceID = None, tk_CreatedBy = [],
      tk_Source = [], tk_SourceID = None, tk_Title = [], tk_Description = None, tk_Status = tk_Status t,
      tk_Priority = [], tk_RiskLevel = tk_RiskLevel t, tk_TargetBranch = tk_TargetBranch t, tk_Spec = [],
      tk_AcceptanceCriteria = [], tk_MaxCost = None, tk_MaxRuntimeMinutes = 0, tk_ApprovalRequirements = [],
      tk_Metadata = [], tk_StartedAt = None, tk_CompletedAt = None, tk_CreatedAt = 0, tk_UpdatedAt = 0,
      tk_DeletedAt = None\<rparr>"

text \<open>The explicit requirements of a task; \<open>decode\<close> gives the actions they name.\<close>

definition explicitlyRequired :: "(string \<Rightarrow> string list option) \<Rightarrow> bool \<Rightarrow> string \<Rightarrow> string \<Rightarrow> ApprovalState \<Rightarrow> bool" where
  "explicitlyRequired decode failed taskID action s =
     (case (if failed then None else find (\<lambda>t. tk_ID t = taskID) (as_tasks s)) of
        None \<Rightarrow> False
      | Some t \<Rightarrow>
        (if tk_ApprovalRequirements t = [] then False
         else case decode (tk_ApprovalRequirements t) of
                None \<Rightarrow> False
              | Some actions \<Rightarrow> list_ex (\<lambda>a. a = action \<or> a = ''*'') actions))"

definition IsApprovalRequired ::
    "(f64 \<Rightarrow> string) \<Rightarrow> (string \<Rightarrow> string list option) \<Rightarrow> ApprovalService \<Rightarrow> (nat \<Rightarrow> bool) \<Rightarrow> string \<Rightarrow> string \<Rightarrow>
     ApprovalState \<Rightarrow> (approvals_error + bool) \<times> ApprovalState" where
  "IsApprovalRequired ftext decode sv fails taskID action s =
     (case (if fails 0 then None else find (liveTask taskID) (as_tasks s)) of
        None \<Rightarrow> (Inl TaskLoadFailed, s)
      | Some t \<Rightarrow>
        if explicitlyRequired decode (fails 1) taskID action s then (Inr True, s)
        else (case sv_kernel sv of
            None \<Rightarrow> (Inr (action \<in> set highRiskActions), s)
          | Some k \<Rightarrow>
            (let ((result, err), log1) =
                   Kernel_Evaluate ftext k (serviceRequest ''agent'' (partTask t) (mapActionToOperation action) None);
                 s1 = s\<lparr>as_audit := as_audit s @ log1\<rparr>
             in case err of
                  Some _ \<Rightarrow> (Inr True, s1)
                | None \<Rightarrow> (Inr (res_RequiredApproval result), s1))))"

section \<open>What a response does\<close>

definition approvalRow :: "string \<Rightarrow> ApprovalState \<Rightarrow> Approval option" where
  "approvalRow i s = find (\<lambda>a. ap_ID a = i) (as_approvals s)"

definition eventsOf :: "string \<Rightarrow> ApprovalState \<Rightarrow> ApprovalEvent list" where
  "eventsOf i s = filter (\<lambda>e. ev_ApprovalID e = i) (as_events s)"

text \<open>The kernel, where there is one, does not deny the operation of an approval to its task.\<close>

definition permitted :: "(f64 \<Rightarrow> string) \<Rightarrow> ApprovalService \<Rightarrow> Approval \<Rightarrow> ApprovalState \<Rightarrow> bool" where
  "permitted ftext sv a s \<longleftrightarrow>
     (case sv_kernel sv of
        None \<Rightarrow> True
      | Some k \<Rightarrow>
        (case find (liveTask (ap_TaskID a)) (as_tasks s) of
           None \<Rightarrow> False
         | Some t \<Rightarrow>
           res_Effect (fst (fst (Kernel_Evaluate ftext k (serviceRequest ''human'' (loadedTask t)
             (approvalOperation (ap_ApprovalType a)) (ap_AgentRunID a))))) \<noteq> EffectDeny))"

definition sameRows :: "ApprovalState \<Rightarrow> ApprovalState \<Rightarrow> bool" where
  "sameRows s s1 \<longleftrightarrow> as_tasks s1 = as_tasks s \<and> as_approvals s1 = as_approvals s \<and> as_events s1 = as_events s"

lemma sameRows_simps [simp]: "sameRows s s" "sameRows s (s\<lparr>as_audit := x\<rparr>)"
  by (simp_all add: sameRows_def)

lemma checkPermission_spec:
  "sameRows s (snd (checkPermission ftext sv failed a s)) \<and>
   (fst (checkPermission ftext sv failed a s) = None \<longrightarrow> permitted ftext sv a s)"
  by (auto simp: checkPermission_def permitted_def Let_def split: option.splits prod.splits)

lemma checkResponse_spec:
  "case checkResponse ftext sv fails clock i response s of
     (Inl e, s1) \<Rightarrow> sameRows s s1
   | (Inr a, s1) \<Rightarrow> sameRows s s1 \<and> response \<in> {''approved'', ''rejected''} \<and> approvalRow i s = Some a \<and>
       IsPending a \<and> \<not> IsExpired (clock 0) a \<and> permitted ftext sv a s"
proof -
  have p: "sameRows s (snd (checkPermission ftext sv (fails 1) a s))"
    "fst (checkPermission ftext sv (fails 1) a s) = None \<Longrightarrow> permitted ftext sv a s" for a
    using checkPermission_spec by blast+
  show ?thesis
  proof (cases "response \<noteq> ''approved'' \<and> response \<noteq> ''rejected''")
    case True
    then show ?thesis by (simp add: checkResponse_def)
  next
    case False
    show ?thesis
    proof (cases "getApproval (fails 0) i s")
      case (Inl e)
      with False show ?thesis by (simp add: checkResponse_def)
    next
      case (Inr a)
      then have row: "approvalRow i s = Some a"
        by (simp add: getApproval_def approvalRow_def split: if_splits option.splits)
      obtain r s1 where c: "checkPermission ftext sv (fails 1) a s = (r, s1)" by fastforce
      show ?thesis
      proof (cases r)
        case None
        with False Inr row c p [of a] show ?thesis by (auto simp: checkResponse_def)
      next
        case (Some e)
        with False Inr c p(1) [of a] show ?thesis by (auto simp: checkResponse_def)
      qed
    qed
  qed
qed

definition answer :: "string \<Rightarrow> string \<Rightarrow> string \<Rightarrow> string \<Rightarrow> int \<Rightarrow> ApprovalState \<Rightarrow> Approval list" where
  "answer i responderID response reply now s =
     map (\<lambda>a. if ap_ID a = i then respondRow responderID response reply now a else a) (as_approvals s)"

lemma find_map_row:
  "(\<And>a. ap_ID (f a) = ap_ID a) \<Longrightarrow> find (\<lambda>a. ap_ID a = i) (map f xs) = map_option f (find (\<lambda>a. ap_ID a = i) xs)"
  by (induction xs) auto

lemma RespondApproval_core:
  "case Service_RespondApproval ftext sv fails clock i responderID response reply s of
     (Some e, s1) \<Rightarrow> sameRows s s1
   | (None, s1) \<Rightarrow>
       response \<in> {''approved'', ''rejected''} \<and>
       (\<exists>a. approvalRow i s = Some a \<and> IsPending a \<and> \<not> IsExpired (clock 0) a \<and> permitted ftext sv a s) \<and>
       as_approvals s1 = answer i responderID response reply (clock 1) s \<and>
       (if sv_eventBus sv
        then \<exists>e. as_events s1 = as_events s @ [e] \<and> ev_ApprovalID e = i \<and> ev_Response e = response \<and>
               ev_ResponderID e = responderID \<and> ev_Subject e = ''approval.'' @ response
        else as_events s1 = as_events s \<and> as_tasks s1 = as_tasks s)"
proof -
  obtain r s1 where c: "checkResponse ftext sv fails clock i response s = (r, s1)" by fastforce
  note spec = checkResponse_spec [where ftext = ftext and sv = sv and fails = fails and clock = clock and i = i
      and response = response and s = s, unfolded c]
  show ?thesis
  proof (cases r)
    case (Inl e)
    with spec c show ?thesis by (simp add: Service_RespondApproval_def)
  next
    case (Inr a)
    with spec have same: "sameRows s s1" and ok: "response \<in> {''approved'', ''rejected''}" "approvalRow i s = Some a"
      "IsPending a" "\<not> IsExpired (clock 0) a" "permitted ftext sv a s" by simp_all
    have eq: "Service_RespondApproval ftext sv fails clock i responderID response reply s =
        applyResponse sv fails clock a i responderID response reply s1"
      using c Inr by (simp add: Service_RespondApproval_def)
    show ?thesis unfolding eq using same ok
      by (auto simp: applyResponse_def Let_def sameRows_def answer_def)
  qed
qed

text \<open>
  A response either fails, and then no row has changed and nothing was published; or it is an
  approval or a rejection of a request that is pending, has not expired and that the kernel does not
  deny, and then the row of that request holds the answer, the other requests are as before, and with
  an event bus exactly one event tells of it.
\<close>

theorem RespondApproval_outcome:
  "case Service_RespondApproval ftext sv fails clock i responderID response reply s of
     (Some e, s1) \<Rightarrow> sameRows s s1
   | (None, s1) \<Rightarrow>
       response \<in> {''approved'', ''rejected''} \<and>
       (\<exists>a. approvalRow i s = Some a \<and> IsPending a \<and> \<not> IsExpired (clock 0) a \<and> permitted ftext sv a s) \<and>
       as_approvals s1 = answer i responderID response reply (clock 1) s \<and>
       (if sv_eventBus sv
        then \<exists>e. as_events s1 = as_events s @ [e] \<and> ev_ApprovalID e = i \<and> ev_Response e = response \<and>
               ev_ResponderID e = responderID \<and> ev_Subject e = ''approval.'' @ response
        else as_events s1 = as_events s \<and> as_tasks s1 = as_tasks s)"
  by (rule RespondApproval_core)

section \<open>Sequences of responses\<close>

record ResponseCall =
  rc_fails :: "nat \<Rightarrow> bool"
  rc_clock :: "nat \<Rightarrow> int"
  rc_ApprovalID :: string
  rc_ResponderID :: string
  rc_Response :: string
  rc_Note :: string

definition respondCall :: "(f64 \<Rightarrow> string) \<Rightarrow> ApprovalService \<Rightarrow> ResponseCall \<Rightarrow> ApprovalState \<Rightarrow> ApprovalState" where
  "respondCall ftext sv c s =
     snd (Service_RespondApproval ftext sv (rc_fails c) (rc_clock c) (rc_ApprovalID c) (rc_ResponderID c)
       (rc_Response c) (rc_Note c) s)"

lemma approvalRow_answer:
  assumes "as_approvals s1 = answer j responderID response reply now s"
  shows "approvalRow i s1 =
    map_option (\<lambda>a. if ap_ID a = j then respondRow responderID response reply now a else a) (approvalRow i s)"
proof -
  let ?f = "\<lambda>a. if ap_ID a = j then respondRow responderID response reply now a else a"
  have "ap_ID (?f a) = ap_ID a" for a by (simp add: respondRow_def)
  then show ?thesis unfolding approvalRow_def assms answer_def by (rule find_map_row)
qed

lemma respondCall_cases:
  obtains (refused) "sameRows s (respondCall ftext sv c s)"
  | (answered) a where "approvalRow (rc_ApprovalID c) s = Some a" "IsPending a"
      "as_approvals (respondCall ftext sv c s) =
         answer (rc_ApprovalID c) (rc_ResponderID c) (rc_Response c) (rc_Note c) (rc_clock c 1) s"
      "\<And>i. eventsOf i (respondCall ftext sv c s) = eventsOf i s \<or>
         i = rc_ApprovalID c \<and> (\<exists>e. eventsOf i (respondCall ftext sv c s) = eventsOf i s @ [e] \<and> ev_Response e = rc_Response c)"
proof -
  obtain r s1 where c: "Service_RespondApproval ftext sv (rc_fails c) (rc_clock c) (rc_ApprovalID c) (rc_ResponderID c)
       (rc_Response c) (rc_Note c) s = (r, s1)" by fastforce
  note spec = RespondApproval_core [where ftext = ftext and sv = sv and fails = "rc_fails c" and clock = "rc_clock c"
      and i = "rc_ApprovalID c" and responderID = "rc_ResponderID c" and response = "rc_Response c" and reply = "rc_Note c"
      and s = s, unfolded c]
  have s1: "respondCall ftext sv c s = s1" by (simp add: respondCall_def c)
  show thesis
  proof (cases r)
    case (Some e)
    with spec s1 refused show thesis by simp
  next
    case None
    from spec None obtain a where "approvalRow (rc_ApprovalID c) s = Some a" "IsPending a" by auto
    moreover have "eventsOf i s1 = eventsOf i s \<or>
         i = rc_ApprovalID c \<and> (\<exists>e. eventsOf i s1 = eventsOf i s @ [e] \<and> ev_Response e = rc_Response c)" for i
      using spec None by (auto simp: eventsOf_def split: if_splits)
    ultimately show thesis using spec None s1 by (intro answered [of a]) auto
  qed
qed

text \<open>Between two states of the service, an answer is given at most once and told of at most once.\<close>

definition settled :: "string \<Rightarrow> ApprovalState \<Rightarrow> ApprovalState \<Rightarrow> bool" where
  "settled i s s1 \<longleftrightarrow>
     (approvalRow i s1 = approvalRow i s \<and> eventsOf i s1 = eventsOf i s \<or>
      (\<exists>a b r. approvalRow i s = Some a \<and> IsPending a \<and> approvalRow i s1 = Some b \<and> ap_Response b = Some r \<and>
         (eventsOf i s1 = eventsOf i s \<or> (\<exists>e. eventsOf i s1 = eventsOf i s @ [e] \<and> ev_Response e = r))))"

lemma respondCall_settled: "settled i s (respondCall ftext sv c s)"
proof (cases rule: respondCall_cases [of s ftext sv c])
  case refused
  then show ?thesis by (simp add: settled_def sameRows_def approvalRow_def eventsOf_def)
next
  case (answered a)
  show ?thesis
  proof (cases "i = rc_ApprovalID c")
    case True
    with answered(1) have "ap_ID a = rc_ApprovalID c" by (auto simp: approvalRow_def find_Some_iff)
    with approvalRow_answer [OF answered(3), of i] answered(1) True
    have "approvalRow i (respondCall ftext sv c s) =
        Some (respondRow (rc_ResponderID c) (rc_Response c) (rc_Note c) (rc_clock c 1) a)" by simp
    with answered(1,2) answered(4) [of i] True show ?thesis
      unfolding settled_def by (intro disjI2) (auto simp: respondRow_def)
  next
    case False
    have "approvalRow i (respondCall ftext sv c s) = approvalRow i s"
    proof (cases "approvalRow i s")
      case None
      with approvalRow_answer [OF answered(3), of i] show ?thesis by simp
    next
      case (Some b)
      then have "ap_ID b = i" by (auto simp: approvalRow_def find_Some_iff)
      with approvalRow_answer [OF answered(3), of i] False Some show ?thesis by simp
    qed
    with answered(4) [of i] False show ?thesis by (simp add: settled_def)
  qed
qed

lemma settled_trans: "settled i s s1 \<Longrightarrow> settled i s1 s2 \<Longrightarrow> settled i s s2"
  unfolding settled_def IsPending_def by (elim disjE exE conjE) (simp_all, metis+)?


section \<open>What a response does not check\<close>

lemma responder_fst:
  "fst (Service_RespondApproval ftext sv fails clock i responder1 response reply1 s) =
   fst (Service_RespondApproval ftext sv fails clock i responder2 response reply2 s)"
  by (auto simp: Service_RespondApproval_def applyResponse_def Let_def split: prod.splits sum.splits)

text \<open>The default engine denies none of the operations a response asks the kernel for.\<close>

lemma service_operation:
  "GetResourceAndAction ''deploy'' = (''deploy'', ''execute'')"
  "GetResourceAndAction ''open_pull_request'' = (''git'', ''create_pr'')"
  "GetResourceAndAction ''run_command'' = (''command'', ''execute'')"
  by code_simp+

text \<open>A default policy that denies one of these operations denies production deployments only.\<close>

lemma deny_production:
  assumes "(er_ResourceType req, er_Action req) \<in>
      {(''deploy'', ''execute''), (''git'', ''create_pr''), (''command'', ''execute'')}"
    and "p \<in> set defaultPolicies" "applies ftext req p" "p_Effect p = EffectDeny"
  shows "p = rule ''deny_production_deploy'' ''deploy'' ''*'' EffectDeny 300 [(''environment'', AString ''production'')]"
  using assms unfolding defaultPolicies_def by (auto simp: applies_rule) (auto simp: rule_def)

lemma default_no_denial:
  assumes "op \<in> {''deploy'', ''open_pull_request'', ''run_command''}"
  shows "Evaluate ftext DefaultEngine (policyRequest (serviceRequest actor task op run)) EffectAsk \<noteq> EffectDeny"
proof
  let ?req = "policyRequest (serviceRequest actor task op run)"
  assume deny: "Evaluate ftext DefaultEngine ?req EffectAsk = EffectDeny"
  have target: "(er_ResourceType ?req, er_Action ?req) = GetResourceAndAction op"
    using assms service_operation by (auto simp: policyRequest_def requestTarget_def serviceRequest_def)
  note spec = Evaluate_spec [of DefaultEngine ftext ?req EffectAsk, unfolded DefaultEngine_set]
  from spec deny obtain p where p: "p \<in> set defaultPolicies" "applies ftext ?req p" "p_Effect p = EffectDeny"
    by (auto split: if_splits)
  have "(er_ResourceType ?req, er_Action ?req) \<in>
      {(''deploy'', ''execute''), (''git'', ''create_pr''), (''command'', ''execute'')}"
    using assms service_operation target by auto
  from deny_production [OF this p] p(2)
  have "applies ftext ?req (rule ''admin_deploy_prod'' ''deploy'' ''*'' EffectAdminOnly 400 [(''environment'', AString ''production'')])"
    by (simp add: applies_rule)
  moreover have "rule ''admin_deploy_prod'' ''deploy'' ''*'' EffectAdminOnly 400 [(''environment'', AString ''production'')]
      \<in> set defaultPolicies" by (simp add: defaultPolicies_def)
  moreover have "MoreRestrictiveThan (p_Effect (rule ''admin_deploy_prod'' ''deploy'' ''*'' EffectAdminOnly 400
      [(''environment'', AString ''production'')])) EffectDeny"
    by (simp add: rule_def MoreRestrictiveThan_def)
  ultimately show False using spec deny p(1,2) by (metis (no_types, lifting))
qed

lemma kernel_service_effect:
  "res_Effect (fst (fst (Kernel_Evaluate ftext k (serviceRequest actor task op run)))) =
     Evaluate ftext (k_policyEngine k) (policyRequest (serviceRequest actor task op run)) EffectAsk"
  by (simp add: Kernel_Evaluate_def finishEvaluation_def serviceRequest_def Let_def)

lemma default_permitted:
  "permitted ftext \<lparr>sv_kernel = Some (NewKernel None budget audit), sv_eventBus = bus\<rparr> a s \<longleftrightarrow>
     list_ex (liveTask (ap_TaskID a)) (as_tasks s)"
proof -
  have "Evaluate ftext DefaultEngine (policyRequest (serviceRequest ''human'' task (approvalOperation (ap_ApprovalType a)) run))
      EffectAsk \<noteq> EffectDeny" for task run
    by (rule default_no_denial) (auto simp: approvalOperation_def)
  then have "permitted ftext \<lparr>sv_kernel = Some (NewKernel None budget audit), sv_eventBus = bus\<rparr> a s \<longleftrightarrow>
      find (liveTask (ap_TaskID a)) (as_tasks s) \<noteq> None"
    by (simp add: permitted_def kernel_service_effect NewKernel_def split: option.split)
  then show ?thesis by (auto simp: find_None_iff list_ex_iff)
qed

text \<open>
  Nobody is asked who they are: whether a response is accepted does not depend on the responder, who
  may be the one that asked; and under the default policies the check of permission, which comes without
  a user, passes for every approval of a task that exists, deployments reserved for administrators
  included.
\<close>

theorem responder_unchecked:
  "fst (Service_RespondApproval ftext sv fails clock i responder1 response reply1 s) =
     fst (Service_RespondApproval ftext sv fails clock i responder2 response reply2 s) \<and>
   permitted ftext \<lparr>sv_kernel = Some (NewKernel None budget audit), sv_eventBus = bus\<rparr> a s =
     list_ex (liveTask (ap_TaskID a)) (as_tasks s)"
  by (intro conjI responder_fst default_permitted)

definition sampleApproval :: Approval where
  "sampleApproval = newApproval ''a1'' ''t1'' ''deploy'' ''u1'' (\<lambda>_. 10) []"

definition sampleTask :: ModelTask where
  "sampleTask =
     \<lparr>tk_ID = ''t1'', tk_ProjectID = ''p1'', tk_RepositoryID = ''r1'', tk_WorkspaceID = None, tk_CreatedBy = ''u1'',
      tk_Source = [], tk_SourceID = None, tk_Title = ''title'', tk_Description = None, tk_Status = ''running'',
      tk_Priority = [], tk_RiskLevel = ''low'', tk_TargetBranch = ''main'', tk_Spec = [],
      tk_AcceptanceCriteria = [], tk_MaxCost = None, tk_MaxRuntimeMinutes = 0, tk_ApprovalRequirements = [],
      tk_Metadata = [], tk_StartedAt = None, tk_CompletedAt = None, tk_CreatedAt = 0, tk_UpdatedAt = 0,
      tk_DeletedAt = None\<rparr>"

definition sampleState :: ApprovalState where
  "sampleState = \<lparr>as_tasks = [sampleTask], as_approvals = [sampleApproval], as_events = [], as_audit = []\<rparr>"

text \<open>
  The check of a response and its write are not one step.  Of two responses that are checked before
  either is written, both are accepted: the approval is told first, then the rejection, whose answer
  replaces the first one, and the task fails.  And without an event bus a rejection leaves the task as it
  was.
\<close>

theorem concurrent_answers:
  "(let sv = NewService None True;
        (first, s1) = checkResponse ftext sv (\<lambda>_. False) (\<lambda>_. 20) ''a1'' ''approved'' sampleState;
        (second, s2) = checkResponse ftext sv (\<lambda>_. False) (\<lambda>_. 20) ''a1'' ''rejected'' s1;
        (e1, s3) = applyResponse sv (\<lambda>_. False) (\<lambda>_. 21) sampleApproval ''a1'' ''u1'' ''approved'' [] s2;
        (e2, s4) = applyResponse sv (\<lambda>_. False) (\<lambda>_. 22) sampleApproval ''a1'' ''u2'' ''rejected'' [] s3
    in first = Inr sampleApproval \<and> second = Inr sampleApproval \<and> e1 = None \<and> e2 = None \<and>
       map ev_Subject (as_events s4) = [''approval.approved'', ''approval.rejected''] \<and>
       map_option ap_Response (approvalRow ''a1'' s3) = Some (Some ''approved'') \<and>
       map_option ap_Response (approvalRow ''a1'' s4) = Some (Some ''rejected'') \<and>
       map tk_Status (as_tasks s4) = [''failed'']) \<and>
   (let s1 = snd (Service_RespondApproval ftext (NewService None False) (\<lambda>_. False) (\<lambda>_. 20) ''a1'' ''u1'' ''rejected'' [] sampleState)
    in map_option ap_Response (approvalRow ''a1'' s1) = Some (Some ''rejected'') \<and> map tk_Status (as_tasks s1) = [''running''])"
proof -
  have row: "approvalRow ''a1'' sampleState = Some sampleApproval"
    by (simp add: approvalRow_def sampleState_def sampleApproval_def newApproval_def)
  have check: "checkResponse ftext (NewService None bus) (\<lambda>_. False) (\<lambda>_. 20) ''a1'' r sampleState = (Inr sampleApproval, sampleState)"
    if "r = ''approved'' \<or> r = ''rejected''" for r bus
    using that row by (auto simp: checkResponse_def getApproval_def approvalRow_def checkPermission_def NewService_def
        IsPending_def IsExpired_def sampleApproval_def newApproval_def)
  show ?thesis
    by (simp add: check Let_def Service_RespondApproval_def)
      (simp add: applyResponse_def NewService_def sampleState_def sampleApproval_def newApproval_def sampleTask_def respondRow_def
        approvalRow_def failTask_def)
qed

section \<open>Pending requests and required approvals\<close>

lemma pending_rows:
  "GetPendingApprovals False now taskID s = Inr l \<Longrightarrow>
     set l = {a \<in> set (as_approvals s). ap_TaskID a = taskID \<and> IsPending a \<and>
       (case ap_ExpiresAt a of None \<Rightarrow> True | Some e \<Rightarrow> now < e)}"
  by (auto simp: GetPendingApprovals_def IsPending_def split: option.splits)

lemma answer_not_pending:
  assumes "a \<in> set (answer i responderID response reply now s)"
  shows "\<not> (ap_ID a = i \<and> IsPending a)"
proof -
  let ?f = "\<lambda>b. if ap_ID b = i then respondRow responderID response reply now b else b"
  have "\<not> (ap_ID (?f b) = i \<and> IsPending (?f b))" for b
    by (cases "ap_ID b = i") (simp_all add: respondRow_def IsPending_def)
  moreover from assms have "a \<in> ?f ` set (as_approvals s)" unfolding answer_def set_map .
  ultimately show ?thesis by (elim imageE) simp
qed

text \<open>
  The life of a request: once it is made it is among the pending approvals of its task at every later
  time, for it never expires, and it stays there until a response to it is accepted; then it is pending
  no more.
\<close>

theorem request_pending:
  assumes "RequestApproval marshal fails clock newID taskID approvalType requestedBy details s = (Inr a, s1)"
  shows "(\<exists>l. GetPendingApprovals False now taskID s1 = Inr l \<and> newID \<in> ap_ID ` set l) \<and>
    (let (e, s2) = Service_RespondApproval ftext sv fails1 clock1 newID responderID response reply s1;
         pending = (\<exists>l. GetPendingApprovals False now taskID s2 = Inr l \<and> newID \<in> ap_ID ` set l)
     in pending = (e \<noteq> None))"
proof -
  from assms obtain x where s1: "as_approvals s1 = as_approvals s @ [x]" "ap_ID x = newID" "ap_TaskID x = taskID"
      "IsPending x" "ap_ExpiresAt x = None" and new: "\<not> list_ex (\<lambda>a. ap_ID a = newID) (as_approvals s)"
    by (auto simp: RequestApproval_def newApproval_def IsPending_def Let_def split: if_splits option.splits)
  have pending: "(\<exists>l. GetPendingApprovals False now taskID t = Inr l \<and> newID \<in> ap_ID ` set l) \<longleftrightarrow>
      (\<exists>a \<in> set (as_approvals t). ap_ID a = newID \<and> ap_TaskID a = taskID \<and> IsPending a \<and>
         (case ap_ExpiresAt a of None \<Rightarrow> True | Some e \<Rightarrow> now < e))" for t
  proof -
    obtain l where l: "GetPendingApprovals False now taskID t = Inr l" by (simp add: GetPendingApprovals_def)
    from pending_rows [OF l] l show ?thesis by auto
  qed
  have made: "\<exists>a \<in> set (as_approvals s1). ap_ID a = newID \<and> ap_TaskID a = taskID \<and> IsPending a \<and>
      (case ap_ExpiresAt a of None \<Rightarrow> True | Some e \<Rightarrow> now < e)"
    by (rule bexI [of _ x]) (use s1 in simp_all)
  obtain e s2 where c: "Service_RespondApproval ftext sv fails1 clock1 newID responderID response reply s1 = (e, s2)"
    by fastforce
  note spec = RespondApproval_core [where ftext = ftext and sv = sv and fails = fails1 and clock = clock1 and i = newID
      and responderID = responderID and response = response and reply = reply and s = s1, unfolded c]
  have "(\<exists>l. GetPendingApprovals False now taskID s2 = Inr l \<and> newID \<in> ap_ID ` set l) = (e \<noteq> None)"
  proof (cases e)
    case None
    with spec have "as_approvals s2 = answer newID responderID response reply (clock1 1) s1" by simp
    then have gone: "\<not> (ap_ID a = newID \<and> IsPending a)" if "a \<in> set (as_approvals s2)" for a
      using that answer_not_pending by simp
    have "\<not> (\<exists>a \<in> set (as_approvals s2). ap_ID a = newID \<and> ap_TaskID a = taskID \<and> IsPending a \<and>
        (case ap_ExpiresAt a of None \<Rightarrow> True | Some e \<Rightarrow> now < e))"
      using gone by (intro notI, elim bexE conjE) simp
    with None show ?thesis by (simp only: pending) simp
  next
    case (Some e')
    with spec have "as_approvals s2 = as_approvals s1" by (simp add: sameRows_def)
    with made Some show ?thesis unfolding pending [of s2] by simp
  qed
  moreover have "\<exists>l. GetPendingApprovals False now taskID s1 = Inr l \<and> newID \<in> ap_ID ` set l"
    unfolding pending by (rule made)
  ultimately show ?thesis by (simp add: c)
qed

definition sampleRequest :: "(approvals_error + Approval) \<times> ApprovalState" where
  "sampleRequest = RequestApproval (\<lambda>d. Some d) (\<lambda>_. False) (\<lambda>_. 10) ''a2'' ''t1'' ''execution'' ''u1'' (Some ''{}'') sampleState"

theorem request_pending_witness:
  "\<exists>l. GetPendingApprovals False 99 ''t1'' (snd sampleRequest) = Inr l \<and> ''a2'' \<in> ap_ID ` set l"
proof -
  have "fst sampleRequest = Inr (newApproval ''a2'' ''t1'' ''execution'' ''u1'' (\<lambda>_. 10) ''{}'')"
    by (simp add: sampleRequest_def RequestApproval_def sampleState_def liveTask_def sampleTask_def newApproval_def
        Approval_Validate_def sampleApproval_def Let_def)
  then have "RequestApproval (\<lambda>d. Some d) (\<lambda>_. False) (\<lambda>_. 10) ''a2'' ''t1'' ''execution'' ''u1'' (Some ''{}'') sampleState =
      (Inr (newApproval ''a2'' ''t1'' ''execution'' ''u1'' (\<lambda>_. 10) ''{}''), snd sampleRequest)"
    by (simp add: sampleRequest_def prod_eq_iff)
  from request_pending [OF this] show ?thesis by blast
qed

text \<open>
  What it means that no approval is required: with a kernel, the task exists, has no requirement for
  the action, and the kernel allows the action or denies it; for denied actions the answer is that they
  need no approval.  Without a kernel, the action is not on the list of risky ones.
\<close>

theorem not_required:
  assumes "fst (IsApprovalRequired ftext decode sv fails taskID action s) = Inr False"
  shows "\<exists>t. find (liveTask taskID) (as_tasks s) = Some t \<and> \<not> explicitlyRequired decode (fails 1) taskID action s \<and>
    (case sv_kernel sv of
       None \<Rightarrow> action \<notin> set highRiskActions
     | Some k \<Rightarrow> Evaluate ftext (k_policyEngine k)
           (policyRequest (serviceRequest ''agent'' (partTask t) (mapActionToOperation action) None)) EffectAsk
         \<notin> {EffectAsk, EffectAdminOnly})"
proof -
  from assms obtain t where t: "find (liveTask taskID) (as_tasks s) = Some t"
    by (auto simp: IsApprovalRequired_def split: option.splits if_splits)
  from assms have ex: "\<not> explicitlyRequired decode (fails 1) taskID action s"
    by (auto simp: IsApprovalRequired_def split: option.splits if_splits)
  show ?thesis
  proof (cases "sv_kernel sv")
    case None
    with assms t ex show ?thesis by (auto simp: IsApprovalRequired_def split: if_splits)
  next
    case (Some k)
    let ?req = "serviceRequest ''agent'' (partTask t) (mapActionToOperation action) None"
    obtain result err log1 where e: "Kernel_Evaluate ftext k ?req = ((result, err), log1)"
      by (metis prod.collapse)
    from assms t ex Some e have "\<not> res_RequiredApproval result"
      by (auto simp: IsApprovalRequired_def Let_def split: if_splits option.splits)
    moreover have "decision_ok k ?req (Kernel_Evaluate ftext k ?req)"
      by (cases rule: Kernel_Evaluate_cases [of ?req k ftext]) (simp_all add: finish_cases(1))
    ultimately have "res_Effect result \<notin> {EffectAsk, EffectAdminOnly}" by (simp add: e decision_ok_def Let_def)
    with kernel_service_effect [of ftext k "''agent''" "partTask t" "mapActionToOperation action" None] e t ex Some
    show ?thesis by simp
  qed
qed

theorem not_required_witness:
  "''commit'' \<notin> set highRiskActions"
proof -
  have "fst (IsApprovalRequired (\<lambda>_. []) (\<lambda>_. None) (NewService None True) (\<lambda>_. False) ''t1'' ''commit'' sampleState) = Inr False"
    by (simp add: IsApprovalRequired_def explicitlyRequired_def NewService_def sampleState_def sampleTask_def liveTask_def
        highRiskActions_def)
  from not_required [OF this] show ?thesis by (simp add: NewService_def)
qed

end
