(* ===== verification/WorkerBase.thy ===== *)
theory WorkerBase
  imports Policies Admission
begin

text \<open>
  What the event handlers of the worker (\<open>apps/worker/internal/handlers\<close>) share: the tables they write,
  the effects they have outside of them, and the sequencing of steps that may fail.

  The tables are lists of rows.  Every SQL statement, reading of the clock, new identifier, publication
  and acknowledgement consults the environment at the number of the effect, so that any of them may
  fail and the clock may go as it likes.  Effects outside the tables are kept in a log.
\<close>

named_theorems worker_simp "steps of the worker"
named_theorems keeps_intro "steps that stay within a transitive relation"

section \<open>State\<close>

text \<open>A row of \<open>agent_messages\<close> with the columns of its consumption.\<close>

record MessageRow =
  mr_ID :: string
  mr_TaskID :: string
  mr_RunID :: "string option"
  mr_FromAgent :: string
  mr_ToAgent :: string
  mr_MessageType :: string
  mr_Content :: string
  mr_Metadata :: string
  mr_CreatedAt :: int
  mr_ConsumedAt :: "int option"
  mr_ConsumedByRunID :: "string option"

type_synonym Payload = "(string \<times> gany) list"

datatype WorkerAct =
    Published string Payload
  | Acked
  | Naked int
  | AdmissionAsked string string
  | AdmissionReleased string
  | RunExecuted string
  | RunReviewed string
  | PullRequested string
  | AgentAnswered string string string bool string
  | CallbackSent string string string string
  | WorkspaceCreated string string
  | WorkspaceDestroyed string

record Worker =
  wk_tasks :: "ModelTask list"
  wk_repos :: "Repository list"
  wk_runs :: "AgentRun list"
  wk_approvals :: "Approval list"
  wk_messages :: "MessageRow list"
  wk_workspaces :: "Workspace list"
  wk_log :: "WorkerAct list"
  wk_n :: nat

record WorkerEnv =
  en_sqlFails :: "nat \<Rightarrow> bool"
  en_pubFails :: "nat \<Rightarrow> bool"
  en_ackFails :: "nat \<Rightarrow> bool"
  en_clock :: "nat \<Rightarrow> int"
  en_uuid :: "nat \<Rightarrow> string"

text \<open>JSON objects and times: \<open>null\<close> decodes to the nil map, \<open>Some None\<close>, into which the code must not write.\<close>

record Codec =
  co_decode :: "string \<Rightarrow> (string \<rightharpoonup> gany) option option"
  co_encode :: "(string \<rightharpoonup> gany) \<Rightarrow> string option"
  co_RFC3339 :: "int \<Rightarrow> string"

datatype worker_error =
    Undecodable
  | SqlError string
  | NotFound string
  | TaskMismatch string
  | RunMismatch string
  | UnknownRole string
  | DecodeError string
  | EncodeError string
  | NilMap
  | NotConfigured string
  | MissingField string
  | WrongType string
  | PublishError string
  | ExternalError string
  | AckError
  | NakError
  | AdmissionDeferred string string
  | TaskChanged string

section \<open>Steps\<close>

type_synonym 'a step = "Worker \<Rightarrow> (worker_error + 'a) \<times> Worker"

definition return :: "'a \<Rightarrow> 'a step" where
  "return x s = (Inr x, s)"

definition raise :: "worker_error \<Rightarrow> 'a step" where
  "raise e s = (Inl e, s)"

text \<open>\<open>if err != nil { return err }\<close> between two steps.\<close>

definition andThen :: "'a step \<Rightarrow> ('a \<Rightarrow> 'b step) \<Rightarrow> 'b step" where
  "andThen m k s = (case m s of (Inl e, s1) \<Rightarrow> (Inl e, s1) | (Inr x, s1) \<Rightarrow> k x s1)"

text \<open>A step whose error is only logged.\<close>

definition ignoring :: "'a step \<Rightarrow> unit step" where
  "ignoring m s = (Inr (), snd (m s))"

text \<open>A query whose error is only logged, with the value the variable had before.\<close>

definition orElse :: "'a \<Rightarrow> 'a step \<Rightarrow> 'a step" where
  "orElse d m s = (case m s of (Inl _, s1) \<Rightarrow> (Inr d, s1) | (Inr x, s1) \<Rightarrow> (Inr x, s1))"

definition count :: "Worker \<Rightarrow> Worker" where
  "count s = s\<lparr>wk_n := Suc (wk_n s)\<rparr>"

definition act :: "WorkerAct \<Rightarrow> Worker \<Rightarrow> Worker" where
  "act a s = s\<lparr>wk_log := wk_log s @ [a]\<rparr>"

definition noting :: "WorkerAct \<Rightarrow> unit step" where
  "noting a s = (Inr (), act a s)"

definition timeNow :: "WorkerEnv \<Rightarrow> int step" where
  "timeNow env s = (Inr (en_clock env (wk_n s)), count s)"

definition newUUID :: "WorkerEnv \<Rightarrow> string step" where
  "newUUID env s = (Inr (en_uuid env (wk_n s)), count s)"

text \<open>A query, and a statement that changes the tables; \<open>RowsAffected\<close> is its number of rows.\<close>

definition query :: "WorkerEnv \<Rightarrow> string \<Rightarrow> (Worker \<Rightarrow> 'a) \<Rightarrow> 'a step" where
  "query env what f s = (if en_sqlFails env (wk_n s) then Inl (SqlError what) else Inr (f s), count s)"

definition execute :: "WorkerEnv \<Rightarrow> string \<Rightarrow> (Worker \<Rightarrow> nat \<times> Worker) \<Rightarrow> nat step" where
  "execute env what f s =
     (if en_sqlFails env (wk_n s) then (Inl (SqlError what), count s)
      else (let (rows, s1) = f s in (Inr rows, count s1)))"

definition rowsAffected :: "WorkerEnv \<Rightarrow> string \<Rightarrow> nat \<Rightarrow> nat step" where
  "rowsAffected env what n = query env what (\<lambda>_. n)"

definition updRows :: "('r \<Rightarrow> bool) \<Rightarrow> ('r \<Rightarrow> 'r) \<Rightarrow> 'r list \<Rightarrow> 'r list" where
  "updRows p f rows = map (\<lambda>r. if p r then f r else r) rows"

definition updTasks :: "(ModelTask \<Rightarrow> bool) \<Rightarrow> (ModelTask \<Rightarrow> ModelTask) \<Rightarrow> Worker \<Rightarrow> nat \<times> Worker" where
  "updTasks p f s = (length (filter p (wk_tasks s)), s\<lparr>wk_tasks := updRows p f (wk_tasks s)\<rparr>)"

definition updRuns :: "(AgentRun \<Rightarrow> bool) \<Rightarrow> (AgentRun \<Rightarrow> AgentRun) \<Rightarrow> Worker \<Rightarrow> nat \<times> Worker" where
  "updRuns p f s = (length (filter p (wk_runs s)), s\<lparr>wk_runs := updRows p f (wk_runs s)\<rparr>)"

definition updMessages :: "(MessageRow \<Rightarrow> bool) \<Rightarrow> (MessageRow \<Rightarrow> MessageRow) \<Rightarrow> Worker \<Rightarrow> nat \<times> Worker" where
  "updMessages p f s = (length (filter p (wk_messages s)), s\<lparr>wk_messages := updRows p f (wk_messages s)\<rparr>)"

text \<open>An insertion fails on a duplicate primary key.\<close>

definition insertRun :: "WorkerEnv \<Rightarrow> string \<Rightarrow> AgentRun \<Rightarrow> unit step" where
  "insertRun env what r s =
     (if en_sqlFails env (wk_n s) \<or> list_ex (\<lambda>x. ar_ID x = ar_ID r) (wk_runs s) then (Inl (SqlError what), count s)
      else (Inr (), count (s\<lparr>wk_runs := wk_runs s @ [r]\<rparr>)))"

definition insertApproval :: "WorkerEnv \<Rightarrow> string \<Rightarrow> Approval \<Rightarrow> unit step" where
  "insertApproval env what a s =
     (if en_sqlFails env (wk_n s) \<or> list_ex (\<lambda>x. ap_ID x = ap_ID a) (wk_approvals s) then (Inl (SqlError what), count s)
      else (Inr (), count (s\<lparr>wk_approvals := wk_approvals s @ [a]\<rparr>)))"

definition insertWorkspace :: "WorkerEnv \<Rightarrow> string \<Rightarrow> Workspace \<Rightarrow> unit step" where
  "insertWorkspace env what w s =
     (if en_sqlFails env (wk_n s) \<or> list_ex (\<lambda>x. ws_ID x = ws_ID w) (wk_workspaces s) then (Inl (SqlError what), count s)
      else (Inr (), count (s\<lparr>wk_workspaces := wk_workspaces s @ [w]\<rparr>)))"

definition publish :: "WorkerEnv \<Rightarrow> string \<Rightarrow> Payload \<Rightarrow> unit step" where
  "publish env subject payload s =
     (if en_pubFails env (wk_n s) then (Inl (PublishError subject), count s)
      else (Inr (), count (act (Published subject payload) s)))"

text \<open>
  \<open>ackMessage\<close>: a message without a reply subject, or no message, needs no acknowledgement.
\<close>

definition ackMessage :: "WorkerEnv \<Rightarrow> bool \<Rightarrow> unit step" where
  "ackMessage env hasReply s =
     (if \<not> hasReply then (Inr (), s)
      else if en_ackFails env (wk_n s) then (Inl AckError, count s)
      else (Inr (), count (act Acked s)))"

text \<open>
  A transaction: its body commits with \<open>Some\<close> and rolls back with \<open>None\<close> or an error; a rollback
  restores the tables.
\<close>

definition rollback :: "Worker \<Rightarrow> Worker \<Rightarrow> Worker" where
  "rollback s0 s1 = s0\<lparr>wk_log := wk_log s1, wk_n := wk_n s1\<rparr>"

definition transaction :: "WorkerEnv \<Rightarrow> string \<Rightarrow> string \<Rightarrow> 'a option step \<Rightarrow> 'a option step" where
  "transaction env begins commits body s =
     (case query env begins (\<lambda>_. ()) s of
        (Inl e, s1) \<Rightarrow> (Inl e, s1)
      | (Inr _, s1) \<Rightarrow>
        (case body s1 of
           (Inl e, s2) \<Rightarrow> (Inl e, rollback s1 s2)
         | (Inr None, s2) \<Rightarrow> (Inr None, rollback s1 s2)
         | (Inr (Some x), s2) \<Rightarrow>
           (case query env commits (\<lambda>_. ()) s2 of
              (Inl e, s3) \<Rightarrow> (Inl e, rollback s1 s3)
            | (Inr _, s3) \<Rightarrow> (Inr (Some x), s3))))"

definition liveTask :: "string \<Rightarrow> ModelTask \<Rightarrow> bool" where
  "liveTask taskID t \<longleftrightarrow> tk_ID t = taskID \<and> tk_DeletedAt t = None"

definition setStatus :: "string \<Rightarrow> int \<Rightarrow> ModelTask \<Rightarrow> ModelTask" where
  "setStatus status now t = t\<lparr>tk_Status := status, tk_UpdatedAt := now\<rparr>"

section \<open>Relations kept by steps\<close>

definition keeps :: "(Worker \<Rightarrow> Worker \<Rightarrow> bool) \<Rightarrow> 'a step \<Rightarrow> bool" where
  "keeps R m \<longleftrightarrow> (\<forall>s. R s (snd (m s)))"

text \<open>
  The interface of such a relation: a preorder that does not see the log, the counter or what a failed
  transaction did.
\<close>

locale step_relation =
  fixes R :: "Worker \<Rightarrow> Worker \<Rightarrow> bool"
  assumes R_refl: "R s s"
    and R_trans: "R s t \<Longrightarrow> R t u \<Longrightarrow> R s u"
    and R_effects: "R s (s\<lparr>wk_log := l, wk_n := n\<rparr>)"
begin

lemma keepsI: "(\<And>s. R s (snd (m s))) \<Longrightarrow> keeps R m"
  by (simp add: keeps_def)

lemma keepsD: "keeps R m \<Longrightarrow> m s = (r, t) \<Longrightarrow> R s t"
  unfolding keeps_def by (metis snd_conv)

lemma R_count: "R s (count s)" and R_act: "R s (act a s)" and R_count_act: "R s (count (act a s))"
  using R_effects [where s = s and l = "wk_log s" and n = "Suc (wk_n s)"]
    R_effects [where s = s and l = "wk_log s @ [a]" and n = "wk_n s"]
    R_effects [where s = s and l = "wk_log s @ [a]" and n = "Suc (wk_n s)"] by (simp_all add: count_def act_def)

lemma keeps_return: "keeps R (return x)"
  and keeps_raise: "keeps R (raise e)"
  and keeps_timeNow: "keeps R (timeNow env)"
  and keeps_newUUID: "keeps R (newUUID env)"
  and keeps_query: "keeps R (query env what f)"
  and keeps_rowsAffected: "keeps R (rowsAffected env what n)"
  and keeps_publish: "keeps R (publish env subject payload)"
  and keeps_ackMessage: "keeps R (ackMessage env hasReply)"
  and keeps_noting: "keeps R (noting a)"
  by (auto intro!: keepsI simp: R_refl R_count R_act R_count_act noting_def return_def raise_def timeNow_def newUUID_def query_def
      rowsAffected_def publish_def ackMessage_def)

lemma keeps_ignoring: "keeps R m \<Longrightarrow> keeps R (ignoring m)"
  by (simp add: keeps_def ignoring_def)

lemma keeps_orElse: "keeps R m \<Longrightarrow> keeps R (orElse d m)"
  unfolding keeps_def orElse_def by (auto split: prod.split sum.split) (metis snd_conv)+

lemma keeps_andThen:
  assumes "keeps R m" "\<And>x. keeps R (k x)"
  shows "keeps R (andThen m k)"
proof (rule keepsI)
  fix s
  obtain r t where m: "m s = (r, t)" by fastforce
  note st = keepsD [OF assms(1) m]
  show "R s (snd (andThen m k s))"
  proof (cases r)
    case (Inl e)
    with m st show ?thesis by (simp add: andThen_def)
  next
    case (Inr x)
    have "R t (snd (k x t))" using assms(2) by (simp add: keeps_def)
    with st have "R s (snd (k x t))" by (rule R_trans)
    with m Inr show ?thesis by (simp add: andThen_def)
  qed
qed

lemma keeps_transaction:
  assumes "keeps R body"
  shows "keeps R (transaction env begins commits body)"
proof (rule keepsI)
  fix s
  have rb: "R s (rollback (count s) t)" for t
    using R_effects [where s = s and l = "wk_log t" and n = "wk_n t"] by (simp add: rollback_def count_def)
  obtain r t where b: "body (count s) = (r, t)" by fastforce
  have "R s (count t)" using R_trans [OF R_count R_trans [OF keepsD [OF assms b] R_count]] .
  then show "R s (snd (transaction env begins commits body s))"
    using b rb R_count by (auto simp: transaction_def query_def split: sum.split option.split)
qed

lemmas keeps_steps = keeps_return keeps_raise keeps_timeNow keeps_newUUID keeps_query keeps_rowsAffected
  keeps_publish keeps_ackMessage keeps_noting keeps_ignoring keeps_orElse keeps_andThen keeps_transaction

end

end
