(* ===== verification/RunHandlers.thy ===== *)
theory RunHandlers
  imports WorkerBase "HOL-Library.Multiset"
begin

text \<open>
  The handlers of run events (\<open>apps/worker/internal/handlers/run_handlers.go\<close>): a triggered run is
  admitted, executed and released; a completed run is followed by the run of a handoff in the mailbox
  or by a review; a completed review asks for an approval; a failed run fails its task.

  The executor, the reviewer and the admission are interfaces of the code, functions here.  A message
  is its decoded payload, if it decodes, and whether it has a reply subject.
\<close>

section \<open>Handler and events\<close>

record AgentRunEvent =
  re_RunID :: string
  re_TaskID :: string
  re_AgentRole :: string
  re_Status :: string
  re_Data :: string

record RunEvent =
  rv_RunID :: string
  rv_TaskID :: string
  rv_Status :: string
  rv_WorkerID :: string
  rv_Data :: string

record ReviewEvent =
  rw_RunID :: string
  rw_TaskID :: string
  rw_Status :: string
  rw_RiskLevel :: string

datatype ExecOutcome = ExecOK | ExecSuspended | ExecFailed

record RunAdmission =
  ra_AdmitRun :: "string \<Rightarrow> string \<Rightarrow> RunAdmissionDecision step"
  ra_ReleaseRun :: "string \<Rightarrow> unit step"

record RunHandler =
  rh_eventBus :: bool
  rh_executor :: "(string \<Rightarrow> Worker \<Rightarrow> ExecOutcome \<times> Worker) option"
  rh_reviewer :: "(string \<Rightarrow> (string \<times> bool) step) option"
  rh_admission :: "RunAdmission option"

definition NewRunHandler :: "bool \<Rightarrow> RunHandler" where
  "NewRunHandler eventBus = \<lparr>rh_eventBus = eventBus, rh_executor = None, rh_reviewer = None, rh_admission = None\<rparr>"

definition WithRunExecutor :: "(string \<Rightarrow> Worker \<Rightarrow> ExecOutcome \<times> Worker) \<Rightarrow> RunHandler \<Rightarrow> RunHandler" where
  "WithRunExecutor executor h = h\<lparr>rh_executor := Some executor\<rparr>"

definition WithRunAdmission :: "RunAdmission \<Rightarrow> RunHandler \<Rightarrow> RunHandler" where
  "WithRunAdmission admission h = h\<lparr>rh_admission := Some admission\<rparr>"

definition WithReviewer :: "(string \<Rightarrow> (string \<times> bool) step) \<Rightarrow> RunHandler \<Rightarrow> RunHandler" where
  "WithReviewer reviewer h = h\<lparr>rh_reviewer := Some reviewer\<rparr>"

section \<open>Follow-on runs\<close>

record completedRunContext =
  cc_RunID :: string
  cc_TaskID :: string
  cc_WorkspaceID :: "string option"
  cc_AgentRole :: string
  cc_Model :: string
  cc_Provider :: string
  cc_Metadata :: string

definition orDefault :: "string option \<Rightarrow> string \<Rightarrow> string" where
  "orDefault v d = (case v of None \<Rightarrow> d | Some x \<Rightarrow> if TrimSpace x \<noteq> [] then x else d)"

definition loadCompletedRunContext :: "WorkerEnv \<Rightarrow> AgentRunEvent \<Rightarrow> completedRunContext step" where
  "loadCompletedRunContext env ev =
     andThen (query env ''load completed run context'' (\<lambda>s. find (\<lambda>r. ar_ID r = re_RunID ev) (wk_runs s)))
       (\<lambda>found. case found of
          None \<Rightarrow> raise (NotFound (re_RunID ev))
        | Some row \<Rightarrow>
          if re_TaskID ev \<noteq> [] \<and> re_TaskID ev \<noteq> ar_TaskID row then raise (TaskMismatch (re_RunID ev))
          else return \<lparr>cc_RunID = re_RunID ev, cc_TaskID = ar_TaskID row, cc_WorkspaceID = ar_WorkspaceID row,
            cc_AgentRole = ar_AgentRole row, cc_Model = orDefault (ar_Model row) ''gpt-4o'',
            cc_Provider = orDefault (ar_Provider row) ''openai'',
            cc_Metadata = (if TrimSpace (ar_Metadata row) \<noteq> [] then ar_Metadata row else ''{}'')\<rparr>)"

text \<open>The unconsumed handoffs for a completed run; SQL leaves the order of equal times open.\<close>

definition handoffFor :: "completedRunContext \<Rightarrow> MessageRow \<Rightarrow> bool" where
  "handoffFor run m \<longleftrightarrow>
     mr_TaskID m = cc_TaskID run \<and> mr_MessageType m = ''handoff'' \<and> mr_ConsumedAt m = None \<and>
     mr_ToAgent m \<noteq> ''broadcast'' \<and> (mr_RunID m = Some (cc_RunID run) \<or> mr_RunID m = None)"

definition nextUnconsumedHandoff :: "WorkerEnv \<Rightarrow> completedRunContext \<Rightarrow> (string \<times> string) option step" where
  "nextUnconsumedHandoff env run =
     query env ''load next handoff'' (\<lambda>s.
       case sort_key mr_CreatedAt (filter (handoffFor run) (wk_messages s)) of
         [] \<Rightarrow> None
       | m # _ \<Rightarrow> Some (mr_ID m, TrimSpace (mr_ToAgent m)))"

definition validAgentRole :: "string \<Rightarrow> bool" where
  "validAgentRole role \<longleftrightarrow>
     role \<in> {''planner'', ''implementer'', ''reviewer'', ''test_runner'', ''security_reviewer'', ''docs_writer'',
       ''release_manager''}"

definition parentMetadata :: "Codec \<Rightarrow> completedRunContext \<Rightarrow> worker_error + (string \<rightharpoonup> gany)" where
  "parentMetadata codec run =
     (if TrimSpace (cc_Metadata run) = [] then Inr Map.empty
      else case co_decode codec (cc_Metadata run) of
             None \<Rightarrow> Inl (DecodeError (cc_Metadata run))
           | Some None \<Rightarrow> Inl NilMap
           | Some (Some values) \<Rightarrow> Inr values)"

definition followOnMetadata :: "completedRunContext \<Rightarrow> string \<Rightarrow> (string \<rightharpoonup> gany) \<Rightarrow> (string \<rightharpoonup> gany)" where
  "followOnMetadata run handoffID values =
     values(''trigger'' \<mapsto> AString ''mailbox_handoff'', ''handoff_message_id'' \<mapsto> AString handoffID,
       ''handoff_from_run_id'' \<mapsto> AString (cc_RunID run), ''handoff_from_agent'' \<mapsto> AString (cc_AgentRole run))"

definition queuedRun :: "string \<Rightarrow> string \<Rightarrow> string option \<Rightarrow> string \<Rightarrow> string \<Rightarrow> string \<Rightarrow> string \<Rightarrow> int \<Rightarrow> AgentRun" where
  "queuedRun runID taskID workspaceID role model provider metadata now =
     \<lparr>ar_ID = runID, ar_TaskID = taskID, ar_WorkspaceID = workspaceID, ar_AgentRole = role, ar_Model = Some model,
      ar_Provider = Some provider, ar_Status = ''queued'', ar_StartedAt = None, ar_CompletedAt = None,
      ar_PromptTokens = 0, ar_CompletionTokens = 0, ar_TotalCost = f64_zero, ar_ErrorMessage = None,
      ar_Summary = None, ar_Metadata = metadata, ar_CreatedAt = now, ar_UpdatedAt = now\<rparr>"

definition consume :: "string \<Rightarrow> string \<Rightarrow> int \<Rightarrow> Worker \<Rightarrow> nat \<times> Worker" where
  "consume handoffID runID now =
     updMessages (\<lambda>m. mr_ID m = handoffID \<and> mr_ConsumedAt m = None)
       (\<lambda>m. m\<lparr>mr_ConsumedAt := Some now, mr_ConsumedByRunID := Some runID\<rparr>)"

definition followOnBody :: "WorkerEnv \<Rightarrow> Codec \<Rightarrow> completedRunContext \<Rightarrow> (string \<times> string \<times> string) option step" where
  "followOnBody env codec run =
     andThen (nextUnconsumedHandoff env run) (\<lambda>handoff.
       case handoff of
         None \<Rightarrow> return None
       | Some (handoffID, role) \<Rightarrow>
         if \<not> validAgentRole role then raise (UnknownRole role)
         else andThen (newUUID env) (\<lambda>nextRunID. andThen (timeNow env) (\<lambda>now.
           case parentMetadata codec run of
             Inl e \<Rightarrow> raise e
           | Inr values \<Rightarrow>
             (case co_encode codec (followOnMetadata run handoffID values) of
                None \<Rightarrow> raise (EncodeError (cc_RunID run))
              | Some metadata \<Rightarrow>
                andThen (insertRun env ''create follow-on agent run''
                    (queuedRun nextRunID (cc_TaskID run) (cc_WorkspaceID run) role (cc_Model run) (cc_Provider run) metadata now))
                  (\<lambda>_. andThen (execute env ''mark handoff consumed'' (consume handoffID nextRunID now))
                  (\<lambda>n. andThen (rowsAffected env ''check handoff consumption'' n)
                  (\<lambda>rows. if rows = 0 then return None
                     else andThen (execute env ''update task for follow-on run''
                              (updTasks (liveTask (cc_TaskID run)) (setStatus ''running'' now)))
                       (\<lambda>_. return (Some (handoffID, nextRunID, role))))))))))"

definition scheduleFollowOnRun ::
    "WorkerEnv \<Rightarrow> RunHandler \<Rightarrow> Codec \<Rightarrow> AgentRunEvent \<Rightarrow> (string \<times> string) option step" where
  "scheduleFollowOnRun env h codec ev =
     (if TrimSpace (re_RunID ev) = [] then return None
      else andThen (loadCompletedRunContext env ev) (\<lambda>run.
        andThen (transaction env ''begin follow-on run transaction'' ''commit follow-on run'' (followOnBody env codec run))
          (\<lambda>r. case r of
             None \<Rightarrow> return None
           | Some (handoffID, nextRunID, role) \<Rightarrow>
             andThen (if rh_eventBus h then
                 ignoring (publish env ''runs.triggered''
                   [(''run_id'', AString nextRunID), (''task_id'', AString (cc_TaskID run)), (''agent_role'', AString role),
                    (''status'', AString ''queued''), (''action'', AString ''mailbox_handoff''),
                    (''handoff_message_id'', AString handoffID), (''previous_run_id'', AString (cc_RunID run))])
                 else return ())
               (\<lambda>_. return (Some (nextRunID, role))))))"

section \<open>Handlers\<close>

definition HandleRunCompleted ::
    "WorkerEnv \<Rightarrow> RunHandler \<Rightarrow> Codec \<Rightarrow> AgentRunEvent option \<Rightarrow> bool \<Rightarrow> unit step" where
  "HandleRunCompleted env h codec event hasReply =
     (case event of
        None \<Rightarrow> raise Undecodable
      | Some ev \<Rightarrow>
        andThen (scheduleFollowOnRun env h codec ev) (\<lambda>scheduled.
          case scheduled of
            Some _ \<Rightarrow> ackMessage env hasReply
          | None \<Rightarrow>
            andThen (timeNow env) (\<lambda>now.
            andThen (ignoring (execute env ''update task status to reviewing''
                (updTasks (liveTask (re_TaskID ev)) (setStatus ''reviewing'' now)))) (\<lambda>_.
            case rh_reviewer h of
              None \<Rightarrow> raise (NotConfigured ''reviewer'')
            | Some review \<Rightarrow>
              andThen (noting (RunReviewed (re_RunID ev))) (\<lambda>_.
              andThen (review (re_RunID ev)) (\<lambda>(riskLevel, approvable).
              andThen (if rh_eventBus h then
                  publish env ''review.completed''
                    [(''run_id'', AString (re_RunID ev)), (''task_id'', AString (re_TaskID ev)), (''status'', AString ''completed''),
                     (''risk_level'', AString riskLevel), (''approvable'', ABool approvable),
                     (''timestamp'', AString (co_RFC3339 codec now))]
                  else return ())
                (\<lambda>_. ackMessage env hasReply)))))))"

definition HandleRunFailed :: "WorkerEnv \<Rightarrow> RunHandler \<Rightarrow> AgentRunEvent option \<Rightarrow> bool \<Rightarrow> unit step" where
  "HandleRunFailed env h event hasReply =
     (case event of
        None \<Rightarrow> raise Undecodable
      | Some ev \<Rightarrow>
        andThen (timeNow env) (\<lambda>now.
        andThen (execute env ''update task status to failed'' (updTasks (liveTask (re_TaskID ev)) (setStatus ''failed'' now))) (\<lambda>_.
        andThen (if rh_eventBus h then
            publish env ''tasks.failed''
              ([(''task_id'', AString (re_TaskID ev)), (''status'', AString ''failed''), (''project_id'', AString [])] @
               (if re_Data ev = [] then [] else [(''data'', AOther (re_Data ev))]))
            else return ())
          (\<lambda>_. ackMessage env hasReply))))"

definition pendingAt :: "int \<Rightarrow> string \<Rightarrow> Approval \<Rightarrow> bool" where
  "pendingAt now taskID a \<longleftrightarrow>
     ap_TaskID a = taskID \<and> ap_Response a = None \<and>
     (case ap_ExpiresAt a of None \<Rightarrow> True | Some e \<Rightarrow> e > now)"

definition reviewApproval :: "string \<Rightarrow> string \<Rightarrow> string \<Rightarrow> string \<Rightarrow> int \<Rightarrow> Approval" where
  "reviewApproval approvalID taskID runID metadata now =
     \<lparr>ap_ID = approvalID, ap_TaskID = taskID, ap_AgentRunID = Some runID, ap_ApprovalType = ''pr_create'',
      ap_RequestedBy = ''system'', ap_RequestedAt = now, ap_RespondedBy = None, ap_Response = None,
      ap_ResponseNote = None, ap_RespondedAt = None, ap_ExpiresAt = None, ap_Metadata = metadata,
      ap_CreatedAt = now, ap_UpdatedAt = now\<rparr>"

definition HandleReviewCompleted :: "WorkerEnv \<Rightarrow> Codec \<Rightarrow> ReviewEvent option \<Rightarrow> bool \<Rightarrow> unit step" where
  "HandleReviewCompleted env codec event hasReply =
     (case event of
        None \<Rightarrow> raise Undecodable
      | Some ev \<Rightarrow>
        andThen (timeNow env) (\<lambda>t.
        andThen (orElse 0 (query env ''check pending approvals''
            (\<lambda>s. length (filter (pendingAt t (rw_TaskID ev)) (wk_approvals s))))) (\<lambda>pendingCount.
        if pendingCount > 0 then ackMessage env hasReply
        else andThen (newUUID env) (\<lambda>approvalID.
          andThen (timeNow env) (\<lambda>now.
          andThen (insertApproval env ''create approval request''
              (reviewApproval approvalID (rw_TaskID ev) (rw_RunID ev)
                 (case co_encode codec (Map.empty(''auto_created'' \<mapsto> ABool True, ''reason'' \<mapsto> AString ''review_completed'',
                      ''run_id'' \<mapsto> AString (rw_RunID ev))) of None \<Rightarrow> [] | Some m \<Rightarrow> m) now))
            (\<lambda>_. ackMessage env hasReply))))))"

text \<open>The decision of the admission, if there is one; a refusal defers the message.\<close>

definition deferRun :: "WorkerEnv \<Rightarrow> bool \<Rightarrow> string \<Rightarrow> RunAdmissionDecision \<Rightarrow> unit step" where
  "deferRun env hasReply runID decision s =
     (let reason = (if TrimSpace (de_Reason decision) = [] then ''scheduler admission denied'' else TrimSpace (de_Reason decision));
          retryAfter = (if de_RetryAfter decision \<le> 0 then 5000000000 else de_RetryAfter decision)
      in if hasReply then
           (if en_ackFails env (wk_n s) then (Inl NakError, count s)
            else (Inl (AdmissionDeferred runID reason), count (act (Naked retryAfter) s)))
         else (Inl (AdmissionDeferred runID reason), s))"

definition admitTriggered :: "WorkerEnv \<Rightarrow> RunHandler \<Rightarrow> RunEvent \<Rightarrow> bool \<Rightarrow> unit step" where
  "admitTriggered env h ev hasReply =
     (case rh_admission h of
        None \<Rightarrow> return ()
      | Some a \<Rightarrow>
        andThen (noting (AdmissionAsked (rv_RunID ev) (rv_TaskID ev))) (\<lambda>_.
        andThen (ra_AdmitRun a (rv_RunID ev) (rv_TaskID ev)) (\<lambda>decision.
          if \<not> de_Allowed decision then deferRun env hasReply (rv_RunID ev) decision else return ())))"

definition executeAdmitted ::
    "WorkerEnv \<Rightarrow> RunHandler \<Rightarrow> (string \<Rightarrow> Worker \<Rightarrow> ExecOutcome \<times> Worker) \<Rightarrow> string \<Rightarrow> bool \<Rightarrow> unit step" where
  "executeAdmitted env h executor runID hasReply s =
     (let (outcome, s1) = executor runID (act (RunExecuted runID) s);
          (released, s2) = (case rh_admission h of
              None \<Rightarrow> (Inr (), s1)
            | Some a \<Rightarrow> ra_ReleaseRun a runID (act (AdmissionReleased runID) s1))
      in if isl released \<and> outcome = ExecOK then (Inl (ExternalError ''release run admission''), s2)
         else if outcome = ExecFailed then (Inl (ExternalError ''execute run''), s2)
         else ackMessage env hasReply s2)"

definition HandleRunTriggered :: "WorkerEnv \<Rightarrow> RunHandler \<Rightarrow> RunEvent option \<Rightarrow> bool \<Rightarrow> unit step" where
  "HandleRunTriggered env h event hasReply =
     (case event of
        None \<Rightarrow> raise Undecodable
      | Some ev \<Rightarrow>
        if TrimSpace (rv_RunID ev) = [] then raise (MissingField ''run_id'')
        else (case rh_executor h of
            None \<Rightarrow> raise (NotConfigured ''run executor'')
          | Some executor \<Rightarrow>
            andThen (admitTriggered env h ev hasReply) (\<lambda>_. executeAdmitted env h executor (rv_RunID ev) hasReply)))"

section \<open>A completed run\<close>

text \<open>Nothing but the log and the counter has changed.\<close>

definition unchanged :: "Worker \<Rightarrow> Worker \<Rightarrow> bool" where
  "unchanged s t \<longleftrightarrow>
     wk_tasks t = wk_tasks s \<and> wk_repos t = wk_repos s \<and> wk_runs t = wk_runs s \<and> wk_approvals t = wk_approvals s \<and>
     wk_messages t = wk_messages s \<and> wk_workspaces t = wk_workspaces s"

interpretation unch: step_relation unchanged
  by unfold_locales (auto simp: unchanged_def)

lemma unchanged_rollback: "unchanged s t \<Longrightarrow> unchanged s (rollback t u)"
  by (auto simp: unchanged_def rollback_def)

lemma transaction_Some:
  assumes "transaction env begins commits body s = (Inr (Some x), t)"
  shows "\<exists>u. body (count s) = (Inr (Some x), u) \<and> t = count u"
  using assms
  by (auto simp: transaction_def query_def split: if_splits prod.splits sum.splits option.splits)

lemma transaction_undone:
  assumes "transaction env begins commits body s = (r, t)" "\<nexists>x. r = Inr (Some x)"
  shows "unchanged s t"
proof -
  have "unchanged s (rollback (count s) u)" for u by (rule unchanged_rollback [OF unch.R_count])
  then show ?thesis using assms unch.R_count
    by (auto simp: transaction_def query_def split: if_splits prod.splits sum.splits option.splits)
qed

lemma andThen_Inr: "andThen m k s = (Inr y, u) \<longleftrightarrow> (\<exists>x t. m s = (Inr x, t) \<and> k x t = (Inr y, u))"
  by (auto simp: andThen_def split: prod.splits sum.splits)

lemma query_Inr: "query env what f s = (Inr x, t) \<longleftrightarrow> \<not> en_sqlFails env (wk_n s) \<and> x = f s \<and> t = count s"
  by (auto simp: query_def)

lemma execute_Inr:
  "execute env what f s = (Inr x, t) \<longleftrightarrow> \<not> en_sqlFails env (wk_n s) \<and> x = fst (f s) \<and> t = count (snd (f s))"
  by (auto simp: execute_def split: prod.splits)

lemma insertRun_Inr:
  "insertRun env what r s = (Inr x, t) \<longleftrightarrow>
     \<not> en_sqlFails env (wk_n s) \<and> ar_ID r \<notin> ar_ID ` set (wk_runs s) \<and> t = count (s\<lparr>wk_runs := wk_runs s @ [r]\<rparr>)"
  by (auto simp: insertRun_def list_ex_iff image_iff) metis?

lemma steps_Inr:
  "return x s = (Inr y, t) \<longleftrightarrow> x = y \<and> t = s"
  "raise e s = (Inr w, t) \<longleftrightarrow> False"
  "timeNow env s = (Inr i, t) \<longleftrightarrow> i = en_clock env (wk_n s) \<and> t = count s"
  "newUUID env s = (Inr z, t) \<longleftrightarrow> z = en_uuid env (wk_n s) \<and> t = count s"
  "rowsAffected env what n s = (Inr k, t) \<longleftrightarrow> \<not> en_sqlFails env (wk_n s) \<and> k = n \<and> t = count s"
  by (auto simp: return_def raise_def timeNow_def newUUID_def rowsAffected_def query_Inr)

lemmas step_results = andThen_Inr query_Inr execute_Inr insertRun_Inr steps_Inr

text \<open>What a follow-on run is: one handoff consumed by one new queued run of its role, the task running.\<close>

definition followedOn :: "completedRunContext \<Rightarrow> string \<Rightarrow> string \<Rightarrow> Worker \<Rightarrow> Worker \<Rightarrow> bool" where
  "followedOn run nextRunID role s t \<longleftrightarrow>
     (\<exists>m metadata now.
        m \<in> set (wk_messages s) \<and> handoffFor run m \<and> role = TrimSpace (mr_ToAgent m) \<and> validAgentRole role \<and>
        (\<forall>m' \<in> set (wk_messages s). handoffFor run m' \<longrightarrow> mr_CreatedAt m \<le> mr_CreatedAt m') \<and>
        nextRunID \<notin> ar_ID ` set (wk_runs s) \<and>
        wk_runs t = wk_runs s @ [queuedRun nextRunID (cc_TaskID run) (cc_WorkspaceID run) role (cc_Model run)
          (cc_Provider run) metadata now] \<and>
        wk_messages t = updRows (\<lambda>x. mr_ID x = mr_ID m \<and> mr_ConsumedAt x = None)
          (\<lambda>x. x\<lparr>mr_ConsumedAt := Some now, mr_ConsumedByRunID := Some nextRunID\<rparr>) (wk_messages s) \<and>
        wk_tasks t = updRows (liveTask (cc_TaskID run)) (setStatus ''running'' now) (wk_tasks s) \<and>
        wk_approvals t = wk_approvals s \<and> wk_workspaces t = wk_workspaces s \<and> wk_repos t = wk_repos s)"

lemma hd_sort_key:
  assumes "sort_key f (filter P xs) = x # ys"
  shows "x \<in> set xs \<and> P x \<and> (\<forall>y \<in> set xs. P y \<longrightarrow> f x \<le> (f y :: int))"
proof -
  have "set (x # ys) = set (filter P xs)" using assms by (metis set_sort)
  moreover have "sorted (map f (x # ys))" using assms by (metis sorted_sort_key)
  ultimately show ?thesis by auto
qed

lemma followOnBody_Some:
  assumes "followOnBody env codec run s = (Inr (Some (handoffID, nextRunID, role)), t)"
  shows "followedOn run nextRunID role s t"
proof -
  from assms obtain m ms metadata now where
    m: "sort_key mr_CreatedAt (filter (handoffFor run) (wk_messages s)) = m # ms" "role = TrimSpace (mr_ToAgent m)"
      "validAgentRole role" "nextRunID \<notin> ar_ID ` set (wk_runs s)"
    and t: "wk_runs t = wk_runs s @ [queuedRun nextRunID (cc_TaskID run) (cc_WorkspaceID run) role (cc_Model run)
          (cc_Provider run) metadata now]"
      "wk_messages t = updRows (\<lambda>x. mr_ID x = mr_ID m \<and> mr_ConsumedAt x = None)
          (\<lambda>x. x\<lparr>mr_ConsumedAt := Some now, mr_ConsumedByRunID := Some nextRunID\<rparr>) (wk_messages s)"
      "wk_tasks t = updRows (liveTask (cc_TaskID run)) (setStatus ''running'' now) (wk_tasks s)"
      "wk_approvals t = wk_approvals s" "wk_workspaces t = wk_workspaces s" "wk_repos t = wk_repos s"
    unfolding followOnBody_def nextUnconsumedHandoff_def
    by (auto simp: step_results consume_def updMessages_def updTasks_def count_def queuedRun_def
        split: option.splits list.splits if_splits sum.splits)
  show ?thesis unfolding followedOn_def
    by (rule exI [of _ m], rule exI [of _ metadata], rule exI [of _ now]) (use hd_sort_key [OF m(1)] m(2-4) t in blast)
qed

lemma loadCompletedRunContext_unchanged: "keeps unchanged (loadCompletedRunContext env ev)"
  unfolding loadCompletedRunContext_def
  by (intro unch.keeps_steps) (auto split: option.split intro: unch.keeps_steps)

lemma loadCompletedRunContext_Inr:
  "loadCompletedRunContext env ev s = (Inr run, t) \<Longrightarrow>
     cc_RunID run = re_RunID ev \<and> t = count s \<and>
     (\<exists>row. find (\<lambda>r. ar_ID r = re_RunID ev) (wk_runs s) = Some row \<and> cc_TaskID run = ar_TaskID row)"
  unfolding loadCompletedRunContext_def
  by (auto simp: step_results split: option.splits if_splits)

lemma followedOn_count: "followedOn run next role (count s) t = followedOn run next role s t"
  by (simp add: followedOn_def count_def)

lemma followedOn_after: "followedOn run next role s t \<Longrightarrow> unchanged t u \<Longrightarrow> followedOn run next role s u"
  by (simp add: followedOn_def unchanged_def)

lemma ignoring_unchanged: "keeps unchanged m \<Longrightarrow> unchanged s (snd (ignoring m s))"
  by (simp add: keeps_def ignoring_def)

lemma scheduleFollowOnRun_spec:
  "case scheduleFollowOnRun env h codec ev s of
     (Inr (Some (nextRunID, role)), t) \<Rightarrow>
       \<exists>run. cc_RunID run = re_RunID ev \<and> followedOn run nextRunID role s t
   | (_, t) \<Rightarrow> unchanged s t"
proof (cases "TrimSpace (re_RunID ev) = []")
  case True
  then show ?thesis by (simp add: scheduleFollowOnRun_def return_def unch.R_refl)
next
  case False
  obtain r s1 where l: "loadCompletedRunContext env ev s = (r, s1)" by fastforce
  have u1: "unchanged s s1" using unch.keepsD [OF loadCompletedRunContext_unchanged l] .
  show ?thesis
  proof (cases r)
    case (Inl e)
    with False l u1 show ?thesis by (simp add: scheduleFollowOnRun_def andThen_def)
  next
    case (Inr run)
    with loadCompletedRunContext_Inr l have run: "cc_RunID run = re_RunID ev" and s1: "s1 = count s" by auto
    let ?tx = "transaction env ''begin follow-on run transaction'' ''commit follow-on run'' (followOnBody env codec run)"
    obtain q s2 where tx: "?tx s1 = (q, s2)" by fastforce
    show ?thesis
    proof (cases "\<exists>x. q = Inr (Some x)")
      case False
      from transaction_undone [OF tx False] have "unchanged s s2" by (rule unch.R_trans [OF u1])
      moreover have "scheduleFollowOnRun env h codec ev s = (case q of Inl e \<Rightarrow> Inl e | Inr _ \<Rightarrow> Inr None, s2)"
        using \<open>TrimSpace (re_RunID ev) \<noteq> []\<close> l Inr tx False
        by (cases q) (auto simp: scheduleFollowOnRun_def andThen_def return_def split: option.splits)
      ultimately show ?thesis by (auto split: sum.split)
    next
      case True
      then obtain handoffID nextRunID role where q: "q = Inr (Some (handoffID, nextRunID, role))" by auto
      from transaction_Some [OF tx [unfolded q]] obtain u where
        u: "followOnBody env codec run (count s1) = (Inr (Some (handoffID, nextRunID, role)), u)" "s2 = count u" by blast
      from followOnBody_Some [OF u(1)] s1 have "followedOn run nextRunID role s u" by (simp add: followedOn_count)
      then have f: "followedOn run nextRunID role s s2" using u(2) by (auto intro: followedOn_after unch.R_count)
      obtain v where v: "scheduleFollowOnRun env h codec ev s = (Inr (Some (nextRunID, role)), v)" "unchanged s2 v"
      proof (cases "rh_eventBus h")
        case True
        let ?p = "publish env ''runs.triggered''
            [(''run_id'', AString nextRunID), (''task_id'', AString (cc_TaskID run)), (''agent_role'', AString role),
             (''status'', AString ''queued''), (''action'', AString ''mailbox_handoff''),
             (''handoff_message_id'', AString handoffID), (''previous_run_id'', AString (cc_RunID run))]"
        have p: "scheduleFollowOnRun env h codec ev s = (Inr (Some (nextRunID, role)), snd (ignoring ?p s2))"
          using False l Inr tx q True by (simp add: scheduleFollowOnRun_def andThen_def return_def ignoring_def)
        show thesis by (rule that [OF p ignoring_unchanged [OF unch.keeps_publish]])
      next
        case nobus: False
        with False l Inr tx q show thesis
          by (intro that [of s2]) (simp_all add: scheduleFollowOnRun_def andThen_def return_def unch.R_refl)
      qed
      from followedOn_after [OF f v(2)] run v(1) show ?thesis by auto
    qed
  qed
qed

text \<open>
  A handoff is followed by a run in one piece or not at all: whatever fails, either no table has
  changed, or the oldest unconsumed handoff for the run is consumed by one new queued run, of the role it
  names and of the same task, which is running then.
\<close>

theorem follow_on_atomic:
  "case scheduleFollowOnRun env h codec ev s of
     (Inr (Some (nextRunID, role)), t) \<Rightarrow>
       \<exists>run. cc_RunID run = re_RunID ev \<and> followedOn run nextRunID role s t
   | (_, t) \<Rightarrow> unchanged s t"
  by (rule scheduleFollowOnRun_spec)

section \<open>Deliveries\<close>

text \<open>The runs that consumed a message, one for each consumed message.\<close>

definition consumers :: "Worker \<Rightarrow> string list" where
  "consumers s = List.map_filter mr_ConsumedByRunID (wk_messages s)"

definition mailboxOK :: "Worker \<Rightarrow> bool" where
  "mailboxOK s \<longleftrightarrow>
     distinct (map mr_ID (wk_messages s)) \<and>
     (\<forall>m \<in> set (wk_messages s). mr_ConsumedAt m = None \<longleftrightarrow> mr_ConsumedByRunID m = None)"

text \<open>
  Each run that was added consumed one message, each message that is now consumed was consumed by one of
  them, and what was consumed before is as it was.
\<close>

definition paired :: "Worker \<Rightarrow> Worker \<Rightarrow> bool" where
  "paired s t \<longleftrightarrow>
     (mailboxOK s \<longrightarrow> mailboxOK t \<and>
        (\<exists>new. wk_runs t = wk_runs s @ new \<and> mset (consumers t) = mset (consumers s) + mset (map ar_ID new)) \<and>
        {m \<in> set (wk_messages s). mr_ConsumedAt m \<noteq> None} \<subseteq> set (wk_messages t))"

lemma paired_trans: "paired s t \<Longrightarrow> paired t u \<Longrightarrow> paired s u"
  unfolding paired_def by (cases "mailboxOK s") (auto simp: ac_simps)

lemma paired_unchanged: "unchanged s t \<Longrightarrow> paired s t"
  by (simp add: unchanged_def paired_def mailboxOK_def consumers_def)

interpretation paired: step_relation paired
proof
  fix s t u :: Worker and l n
  show "paired s s" "paired s (s\<lparr>wk_log := l, wk_n := n\<rparr>)"
    by (auto intro: paired_unchanged simp: unch.R_refl unch.R_effects)
  show "paired s t \<Longrightarrow> paired t u \<Longrightarrow> paired s u" by (rule paired_trans)
qed

lemma map_filter_append: "List.map_filter f (xs @ ys) = List.map_filter f xs @ List.map_filter f ys"
  by (simp add: map_filter_def)

lemma consume_consumers:
  assumes "distinct (map mr_ID ms)" "m \<in> set ms" "mr_ConsumedAt m = None"
    "\<forall>m \<in> set ms. mr_ConsumedAt m = None \<longleftrightarrow> mr_ConsumedByRunID m = None"
  shows "mset (List.map_filter mr_ConsumedByRunID (updRows (\<lambda>x. mr_ID x = mr_ID m \<and> mr_ConsumedAt x = None)
      (\<lambda>x. x\<lparr>mr_ConsumedAt := Some now, mr_ConsumedByRunID := Some run\<rparr>) ms)) =
    mset (List.map_filter mr_ConsumedByRunID ms) + {#run#}"
proof -
  let ?upd = "updRows (\<lambda>x. mr_ID x = mr_ID m \<and> mr_ConsumedAt x = None)
      (\<lambda>x. x\<lparr>mr_ConsumedAt := Some now, mr_ConsumedByRunID := Some run\<rparr>)"
  obtain as bs where ms: "ms = as @ m # bs" using split_list [OF assms(2)] by blast
  have "mr_ID x \<noteq> mr_ID m" if "x \<in> set as \<or> x \<in> set bs" for x
    using assms(1) that unfolding ms by (auto simp: image_iff)
  then have "?upd as = as" "?upd bs = bs" unfolding updRows_def by (intro map_idI; simp)+
  then have "?upd ms = as @ (m\<lparr>mr_ConsumedAt := Some now, mr_ConsumedByRunID := Some run\<rparr>) # bs"
    using assms(3) by (simp add: ms updRows_def)
  moreover have "mr_ConsumedByRunID m = None" using assms(2-4) by blast
  ultimately show ?thesis by (simp add: ms map_filter_append map_filter_simps)
qed

lemma followedOn_paired:
  assumes "followedOn run next role s t"
  shows "paired s t"
  unfolding paired_def
proof
  assume ok: "mailboxOK s"
  from assms obtain m metadata now where m: "m \<in> set (wk_messages s)" "handoffFor run m"
    and runs: "wk_runs t = wk_runs s @ [queuedRun next (cc_TaskID run) (cc_WorkspaceID run) role (cc_Model run)
          (cc_Provider run) metadata now]"
    and ms: "wk_messages t = updRows (\<lambda>x. mr_ID x = mr_ID m \<and> mr_ConsumedAt x = None)
          (\<lambda>x. x\<lparr>mr_ConsumedAt := Some now, mr_ConsumedByRunID := Some next\<rparr>) (wk_messages s)"
    unfolding followedOn_def by blast
  have "mset (consumers t) = mset (consumers s) + {#next#}"
    unfolding consumers_def ms using ok m by (intro consume_consumers) (auto simp: mailboxOK_def handoffFor_def)
  moreover have "map mr_ID (wk_messages t) = map mr_ID (wk_messages s)" by (simp add: ms updRows_def)
  then have "distinct (map mr_ID (wk_messages t))" using ok by (simp only: mailboxOK_def)
  moreover have "\<forall>m \<in> set (wk_messages t). mr_ConsumedAt m = None \<longleftrightarrow> mr_ConsumedByRunID m = None"
    using ok by (auto simp: mailboxOK_def ms updRows_def)
  moreover have "{m \<in> set (wk_messages s). mr_ConsumedAt m \<noteq> None} \<subseteq> set (wk_messages t)"
    by (auto simp: ms updRows_def intro!: rev_image_eqI)
  ultimately show "mailboxOK t \<and>
      (\<exists>new. wk_runs t = wk_runs s @ new \<and> mset (consumers t) = mset (consumers s) + mset (map ar_ID new)) \<and>
      {m \<in> set (wk_messages s). mr_ConsumedAt m \<noteq> None} \<subseteq> set (wk_messages t)"
    using runs by (simp add: mailboxOK_def queuedRun_def)
qed

lemma scheduleFollowOnRun_paired: "keeps paired (scheduleFollowOnRun env h codec ev)"
proof (rule paired.keepsI)
  fix s
  obtain r t where r: "scheduleFollowOnRun env h codec ev s = (r, t)" by fastforce
  note spec = scheduleFollowOnRun_spec [where env = env and h = h and codec = codec and ev = ev and s = s, unfolded r]
  show "paired s (snd (scheduleFollowOnRun env h codec ev s))"
  proof (cases "\<exists>x. r = Inr (Some x)")
    case True
    then obtain nextRunID role where "r = Inr (Some (nextRunID, role))" by auto
    with spec r show ?thesis by (auto intro: followedOn_paired)
  next
    case False
    with spec have "unchanged s t" by (auto split: sum.splits option.splits)
    with r show ?thesis by (simp add: paired_unchanged)
  qed
qed

lemma paired_tasks: "keeps paired (execute env what (updTasks p f))"
  and paired_approval: "keeps paired (insertApproval env what a)"
  by (auto intro!: paired.keepsI simp: execute_def updTasks_def insertApproval_def count_def paired_def
      mailboxOK_def consumers_def)

datatype RunDelivery =
    DeliverCompleted "AgentRunEvent option" bool
  | DeliverFailed "AgentRunEvent option" bool
  | DeliverReviewed "ReviewEvent option" bool

fun deliver :: "WorkerEnv \<Rightarrow> RunHandler \<Rightarrow> Codec \<Rightarrow> RunDelivery \<Rightarrow> unit step" where
  "deliver env h codec (DeliverCompleted ev reply) = HandleRunCompleted env h codec ev reply"
| "deliver env h codec (DeliverFailed ev reply) = HandleRunFailed env h ev reply"
| "deliver env h codec (DeliverReviewed ev reply) = HandleReviewCompleted env codec ev reply"

lemma deliver_paired:
  assumes "\<forall>review runID. rh_reviewer h = Some review \<longrightarrow> keeps paired (review runID)"
  shows "keeps paired (deliver env h codec d)"
proof (cases d)
  case (DeliverCompleted event reply)
  have "keeps paired (HandleRunCompleted env h codec event reply)"
  proof (cases event)
    case (Some ev)
    show ?thesis unfolding HandleRunCompleted_def Some option.case
      by (rule paired.keeps_andThen [OF scheduleFollowOnRun_paired])
        (auto split: option.split prod.split intro!: paired.keeps_steps paired_tasks assms [rule_format])
  qed (simp add: HandleRunCompleted_def paired.keeps_raise)
  then show ?thesis by (simp add: DeliverCompleted)
next
  case (DeliverFailed event reply)
  have "keeps paired (HandleRunFailed env h event reply)"
    unfolding HandleRunFailed_def
    by (auto split: option.split intro!: paired.keeps_steps paired_tasks)
  then show ?thesis by (simp add: DeliverFailed)
next
  case (DeliverReviewed event reply)
  have "keeps paired (HandleReviewCompleted env codec event reply)"
    unfolding HandleReviewCompleted_def
    by (auto split: option.split intro!: paired.keeps_steps paired_approval)
  then show ?thesis by (simp add: DeliverReviewed)
qed


definition sampleHandoff :: MessageRow where
  "sampleHandoff =
     \<lparr>mr_ID = ''m1'', mr_TaskID = ''t1'', mr_RunID = Some ''r1'', mr_FromAgent = ''planner'', mr_ToAgent = ''implementer'',
      mr_MessageType = ''handoff'', mr_Content = ''go on'', mr_Metadata = [], mr_CreatedAt = 5, mr_ConsumedAt = None, mr_ConsumedByRunID = None\<rparr>"

definition sampleWorkerTask :: "string \<Rightarrow> ModelTask" where
  "sampleWorkerTask status =
     \<lparr>tk_ID = ''t1'', tk_ProjectID = ''p1'', tk_RepositoryID = ''g1'', tk_WorkspaceID = None, tk_CreatedBy = ''u1'',
      tk_Source = [], tk_SourceID = None, tk_Title = ''title'', tk_Description = None, tk_Status = status,
      tk_Priority = [], tk_RiskLevel = ''low'', tk_TargetBranch = ''main'', tk_Spec = [],
      tk_AcceptanceCriteria = [], tk_MaxCost = None, tk_MaxRuntimeMinutes = 0, tk_ApprovalRequirements = [],
      tk_Metadata = [], tk_StartedAt = None, tk_CompletedAt = None, tk_CreatedAt = 0, tk_UpdatedAt = 0,
      tk_DeletedAt = None\<rparr>"

definition sampleRun :: "string \<Rightarrow> string \<Rightarrow> AgentRun" where
  "sampleRun i status = (queuedRun i ''t1'' None ''planner'' ''gpt-4o'' ''openai'' ''{}'' 1)\<lparr>ar_Status := status\<rparr>"

definition sampleWorker :: Worker where
  "sampleWorker =
     \<lparr>wk_tasks = [sampleWorkerTask ''running''], wk_repos = [], wk_runs = [sampleRun ''r1'' ''completed''], wk_approvals = [],
      wk_messages = [sampleHandoff], wk_workspaces = [], wk_log = [], wk_n = 0\<rparr>"

definition sampleEnv :: "bool \<Rightarrow> bool \<Rightarrow> WorkerEnv" where
  "sampleEnv pubFails ackFails =
     \<lparr>en_sqlFails = (\<lambda>_. False), en_pubFails = (\<lambda>_. pubFails), en_ackFails = (\<lambda>_. ackFails), en_clock = (\<lambda>n. 10 + int n),
      en_uuid = (\<lambda>_. ''r2'')\<rparr>"

definition sampleCodec :: Codec where
  "sampleCodec = \<lparr>co_decode = (\<lambda>_. Some (Some Map.empty)), co_encode = (\<lambda>_. Some ''{..}''), co_RFC3339 = (\<lambda>_. [])\<rparr>"

definition sampleHandler :: RunHandler where
  "sampleHandler = WithReviewer (\<lambda>runID. return (''low'', True)) (NewRunHandler True)"

definition sampleCompleted :: "AgentRunEvent option" where
  "sampleCompleted = Some \<lparr>re_RunID = ''r1'', re_TaskID = ''t1'', re_AgentRole = ''planner'', re_Status = ''completed'', re_Data = []\<rparr>"


text \<open>
  Two ways the hand over is lost.  A completion whose acknowledgement fails is delivered again, and as
  its handoff is consumed by then, the run is reviewed and the task is put into review, although the run
  of the handoff is waiting.  And when the run of a handoff cannot be announced, the message is
  acknowledged all the same: the run stays queued and nothing is left that would start it.
\<close>

theorem handoff_gaps:
  "(let (e1, s1) = HandleRunCompleted (sampleEnv False True) sampleHandler sampleCodec sampleCompleted True sampleWorker;
        (e2, s2) = HandleRunCompleted (sampleEnv False False) sampleHandler sampleCodec sampleCompleted True s1
    in e1 = Inl AckError \<and> map tk_Status (wk_tasks s1) = [''running''] \<and>
       map (\<lambda>r. (ar_ID r, ar_Status r)) (wk_runs s1) = [(''r1'', ''completed''), (''r2'', ''queued'')] \<and>
       e2 = Inr () \<and> map tk_Status (wk_tasks s2) = [''reviewing''] \<and> RunReviewed ''r1'' \<in> set (wk_log s2) \<and>
       map (\<lambda>r. (ar_ID r, ar_Status r)) (wk_runs s2) = [(''r1'', ''completed''), (''r2'', ''queued'')]) \<and>
   (let (e, s) = HandleRunCompleted (sampleEnv True False) sampleHandler sampleCodec sampleCompleted True sampleWorker
    in e = Inr () \<and> map ar_Status (wk_runs s) = [''completed'', ''queued''] \<and> wk_log s = [Acked])"
  by code_simp

end
