(* ===== verification/ApprovalHandlers.thy ===== *)
theory ApprovalHandlers
  imports RunHandlers
begin

text \<open>
  The handlers of approval events (\<open>apps/worker/internal/handlers/approval_handlers.go\<close>): an approval
  resumes the paused run it was asked for, answers the agent that asked, or lets the pull request be
  made; a rejection fails the task.

  The factory of pull requests and the responder of the agent runtime are interfaces of the code,
  functions here.  The callback to an external system is an entry of the log; its errors are only
  logged by the code.
\<close>

section \<open>Handler and events\<close>

record ApprovalPayload =
  pl_ApprovalID :: string
  pl_TaskID :: string
  pl_AgentRunID :: string
  pl_Response :: string
  pl_ResponderID :: string
  pl_ApprovalType :: string
  pl_Note :: string

record CreatedPR =
  pr_ID :: string
  pr_RunID :: "string option"

record AgentReply =
  rr_ThreadID :: string
  rr_TurnID :: string
  rr_ItemID :: string

record ApprovalHandler =
  ah_eventBus :: bool
  ah_factory :: "string \<Rightarrow> CreatedPR step"
  ah_agentRuntimeApprovalReply :: "(string \<Rightarrow> string \<Rightarrow> string \<Rightarrow> bool \<Rightarrow> string \<Rightarrow> unit step) option"

definition WithPullRequestCreator :: "(string \<Rightarrow> CreatedPR step) \<Rightarrow> ApprovalHandler \<Rightarrow> ApprovalHandler" where
  "WithPullRequestCreator factory h = h\<lparr>ah_factory := factory\<rparr>"

definition WithAgentRuntimeApprovalResponder ::
    "(string \<Rightarrow> string \<Rightarrow> string \<Rightarrow> bool \<Rightarrow> string \<Rightarrow> unit step) \<Rightarrow> ApprovalHandler \<Rightarrow> ApprovalHandler" where
  "WithAgentRuntimeApprovalResponder responder h = h\<lparr>ah_agentRuntimeApprovalReply := Some responder\<rparr>"

definition isAgentResumeApproval :: "string \<Rightarrow> bool" where
  "isAgentResumeApproval approvalType \<longleftrightarrow>
     TrimSpace approvalType = ''risky_action'' \<or> HasPrefix (TrimSpace approvalType) ''capability:''"

section \<open>Answers to agents\<close>

definition findApproval :: "string \<Rightarrow> Worker \<Rightarrow> Approval option" where
  "findApproval approvalID s = find (\<lambda>a. ap_ID a = approvalID) (wk_approvals s)"

definition loadApprovalRunID :: "WorkerEnv \<Rightarrow> string \<Rightarrow> string step" where
  "loadApprovalRunID env approvalID =
     (if TrimSpace approvalID = [] then return []
      else andThen (query env ''load approval run id'' (findApproval approvalID))
        (\<lambda>found. return (case found of
            None \<Rightarrow> []
          | Some a \<Rightarrow> (case ap_AgentRunID a of None \<Rightarrow> [] | Some i \<Rightarrow> TrimSpace i))))"

text \<open>The checks of the event against the row of the approval; \<open>decode\<close> reads the metadata of the row.\<close>

definition matchReply :: "(string \<Rightarrow> AgentReply option) \<Rightarrow> ApprovalPayload \<Rightarrow> Approval \<Rightarrow> worker_error + AgentReply \<times> string" where
  "matchReply decode pl a =
     (let approvalID = pl_ApprovalID pl;
          resolvedRunID = (case ap_AgentRunID a of None \<Rightarrow> [] | Some i \<Rightarrow> TrimSpace i)
      in if ap_ApprovalType a \<noteq> ''agent_runtime'' then Inl (WrongType approvalID)
         else if TrimSpace (pl_TaskID pl) \<noteq> [] \<and> pl_TaskID pl \<noteq> ap_TaskID a then Inl (TaskMismatch approvalID)
         else if TrimSpace (pl_AgentRunID pl) \<noteq> [] \<and> resolvedRunID \<noteq> [] \<and> pl_AgentRunID pl \<noteq> resolvedRunID
         then Inl (RunMismatch approvalID)
         else (case decode (ap_Metadata a) of
             None \<Rightarrow> Inl (DecodeError approvalID)
           | Some m \<Rightarrow>
             if TrimSpace (rr_ThreadID m) = [] \<or> TrimSpace (rr_TurnID m) = [] \<or> TrimSpace (rr_ItemID m) = []
             then Inl (MissingField approvalID)
             else Inr (m, resolvedRunID)))"

definition resumeRow :: "string \<Rightarrow> int \<Rightarrow> AgentRun \<Rightarrow> AgentRun" where
  "resumeRow status now r = r\<lparr>ar_Status := status, ar_ErrorMessage := None, ar_UpdatedAt := now\<rparr>"

definition pausedRun :: "string \<Rightarrow> string \<Rightarrow> AgentRun \<Rightarrow> bool" where
  "pausedRun runID taskID r \<longleftrightarrow> ar_ID r = runID \<and> ar_TaskID r = taskID \<and> ar_Status r = ''paused''"

definition respondAgentRuntimeApproval ::
    "WorkerEnv \<Rightarrow> (string \<Rightarrow> AgentReply option) \<Rightarrow> ApprovalHandler \<Rightarrow> ApprovalPayload \<Rightarrow> bool \<Rightarrow> unit step" where
  "respondAgentRuntimeApproval env decode h pl approved =
     (case ah_agentRuntimeApprovalReply h of
        None \<Rightarrow> raise (NotConfigured ''agent runtime approval responder'')
      | Some responder \<Rightarrow>
        andThen (query env ''load agent runtime approval'' (findApproval (pl_ApprovalID pl))) (\<lambda>found.
        case found of
          None \<Rightarrow> raise (NotFound (pl_ApprovalID pl))
        | Some a \<Rightarrow>
          (case matchReply decode pl a of
             Inl e \<Rightarrow> raise e
           | Inr (m, resolvedRunID) \<Rightarrow>
             andThen (noting (AgentAnswered (rr_ThreadID m) (rr_TurnID m) (rr_ItemID m) approved (pl_Note pl))) (\<lambda>_.
             andThen (responder (rr_ThreadID m) (rr_TurnID m) (rr_ItemID m) approved (pl_Note pl)) (\<lambda>_.
             andThen (timeNow env) (\<lambda>now.
             andThen (if resolvedRunID \<noteq> [] then
                 andThen (execute env ''resume direct agent runtime run''
                     (updRuns (pausedRun resolvedRunID (ap_TaskID a)) (resumeRow ''running'' now))) (\<lambda>_. return ())
                 else return ()) (\<lambda>_.
             andThen (execute env ''resume agent runtime task''
                 (updTasks (liveTask (ap_TaskID a)) (setStatus ''running'' now))) (\<lambda>_. return ()))))))))"

section \<open>Resumption of paused runs\<close>

definition resumePausedRun :: "WorkerEnv \<Rightarrow> ApprovalHandler \<Rightarrow> string \<Rightarrow> string \<Rightarrow> string \<Rightarrow> unit step" where
  "resumePausedRun env h approvalID taskID eventRunID =
     andThen (if TrimSpace eventRunID = [] then loadApprovalRunID env approvalID else return (TrimSpace eventRunID)) (\<lambda>runID.
       if runID = [] then raise (MissingField approvalID)
       else andThen (timeNow env) (\<lambda>now.
         andThen (execute env ''queue paused run'' (updRuns (pausedRun runID taskID) (resumeRow ''queued'' now))) (\<lambda>n.
         andThen (rowsAffected env ''check queued paused run'' n) (\<lambda>rows.
         if rows = 0 then return ()
         else andThen (execute env ''update task for resumed run''
                (updTasks (liveTask taskID) (setStatus ''running'' now))) (\<lambda>_.
           if ah_eventBus h then
             publish env ''runs.triggered''
               [(''run_id'', AString runID), (''task_id'', AString taskID), (''status'', AString ''queued''),
                (''action'', AString ''approval_resumed''), (''approval_id'', AString approvalID)]
           else return ())))))"

section \<open>Handlers\<close>

definition createApprovedPR :: "WorkerEnv \<Rightarrow> ApprovalHandler \<Rightarrow> ApprovalPayload \<Rightarrow> bool \<Rightarrow> unit step" where
  "createApprovedPR env h pl hasReply =
     andThen (query env ''load task status'' (\<lambda>s. find (liveTask (pl_TaskID pl)) (wk_tasks s))) (\<lambda>found.
       case found of
         None \<Rightarrow> ackMessage env hasReply
       | Some t \<Rightarrow>
         if tk_Status t \<noteq> ''reviewing'' \<and> tk_Status t \<noteq> ''pr_created'' then ackMessage env hasReply
         else andThen (noting (PullRequested (pl_TaskID pl))) (\<lambda>_.
           andThen (ah_factory h (pl_TaskID pl)) (\<lambda>pr.
           andThen (noting (CallbackSent (pl_TaskID pl) ''build.pr_created''
               (case pr_RunID pr of
                  None \<Rightarrow> TrimSpace (pl_AgentRunID pl)
                | Some i \<Rightarrow> if TrimSpace i \<noteq> [] then TrimSpace i else TrimSpace (pl_AgentRunID pl)) ''pr_created''))
             (\<lambda>_. ackMessage env hasReply))))"

definition HandleApprovalApproved ::
    "WorkerEnv \<Rightarrow> (string \<Rightarrow> AgentReply option) \<Rightarrow> ApprovalHandler \<Rightarrow> ApprovalPayload option \<Rightarrow> bool \<Rightarrow> unit step" where
  "HandleApprovalApproved env decode h payload hasReply =
     (case payload of
        None \<Rightarrow> raise Undecodable
      | Some pl \<Rightarrow>
        if pl_ApprovalType pl = ''agent_runtime'' then
          andThen (respondAgentRuntimeApproval env decode h pl True) (\<lambda>_. ackMessage env hasReply)
        else if isAgentResumeApproval (pl_ApprovalType pl) then
          andThen (resumePausedRun env h (pl_ApprovalID pl) (pl_TaskID pl) (pl_AgentRunID pl)) (\<lambda>_. ackMessage env hasReply)
        else if pl_ApprovalType pl \<noteq> ''pr_create'' then ackMessage env hasReply
        else createApprovedPR env h pl hasReply)"

definition stoppedRun :: "string \<Rightarrow> ApprovalPayload \<Rightarrow> AgentRun \<Rightarrow> bool" where
  "stoppedRun runID pl r \<longleftrightarrow>
     (if runID \<noteq> [] then ar_ID r = runID else ar_TaskID r = pl_TaskID pl) \<and>
     ar_Status r \<in> {''completed'', ''reviewed'', ''paused''}"

definition rejectionMessage :: "ApprovalPayload \<Rightarrow> string" where
  "rejectionMessage pl = ''Approval rejected by '' @ pl_ResponderID pl @ '': '' @ pl_Note pl"

definition HandleApprovalRejected ::
    "WorkerEnv \<Rightarrow> (string \<Rightarrow> AgentReply option) \<Rightarrow> ApprovalHandler \<Rightarrow> ApprovalPayload option \<Rightarrow> bool \<Rightarrow> unit step" where
  "HandleApprovalRejected env decode h payload hasReply =
     (case payload of
        None \<Rightarrow> raise Undecodable
      | Some pl \<Rightarrow>
        if pl_ApprovalType pl = ''agent_runtime'' then
          andThen (respondAgentRuntimeApproval env decode h pl False) (\<lambda>_. ackMessage env hasReply)
        else andThen (timeNow env) (\<lambda>now.
          andThen (ignoring (execute env ''update task status'' (updTasks (liveTask (pl_TaskID pl)) (setStatus ''failed'' now)))) (\<lambda>_.
          andThen (if TrimSpace (pl_AgentRunID pl) = [] then orElse [] (loadApprovalRunID env (pl_ApprovalID pl))
                   else return (TrimSpace (pl_AgentRunID pl))) (\<lambda>runID.
          andThen (ignoring (execute env ''update agent run status''
              (updRuns (stoppedRun runID pl)
                 (\<lambda>r. r\<lparr>ar_Status := ''failed'', ar_ErrorMessage := Some (rejectionMessage pl), ar_UpdatedAt := now\<rparr>)))) (\<lambda>_.
          andThen (noting (CallbackSent (pl_TaskID pl) ''build.failed'' runID ''failed''))
            (\<lambda>_. ackMessage env hasReply))))))"

section \<open>The effects of an approval\<close>

text \<open>What a step adds to the log.\<close>

definition adds :: "(WorkerAct \<Rightarrow> bool) \<Rightarrow> Worker \<Rightarrow> ('e + 'a) \<times> Worker \<Rightarrow> bool" where
  "adds P s r \<longleftrightarrow> (\<exists>l. wk_log (snd r) = wk_log s @ l \<and> (\<forall>a \<in> set l. P a))"

lemma adds_andThen:
  assumes "adds P s (m s)" "\<And>x t. m s = (Inr x, t) \<Longrightarrow> adds P t (k x t)"
  shows "adds P s (andThen m k s)"
proof -
  obtain r t where m: "m s = (r, t)" by fastforce
  with assms(1) obtain l where l: "wk_log t = wk_log s @ l" "\<forall>a \<in> set l. P a" by (auto simp: adds_def)
  show ?thesis
  proof (cases r)
    case (Inl e)
    with m assms(1) show ?thesis by (simp add: andThen_def adds_def)
  next
    case (Inr x)
    with assms(2) m obtain l' where "wk_log (snd (k x t)) = wk_log t @ l'" "\<forall>a \<in> set l'. P a" by (auto simp: adds_def)
    with l have "wk_log (snd (k x t)) = wk_log s @ (l @ l') \<and> (\<forall>a \<in> set (l @ l'). P a)" by auto
    with m Inr show ?thesis unfolding andThen_def adds_def by auto
  qed
qed

lemma adds_silent: "wk_log (snd r) = wk_log s \<Longrightarrow> adds P s r"
  by (simp add: adds_def)

lemma adds_one: "wk_log (snd r) = wk_log s @ [a] \<Longrightarrow> P a \<Longrightarrow> adds P s r"
  by (simp add: adds_def)

lemma silent_steps:
  "adds P s (return x s)" "adds P s (raise e s)" "adds P s (query env what f s)" "adds P s (timeNow env s)"
  "adds P s (rowsAffected env what n s)" "adds P s (execute env what (updTasks p g) s)"
  "adds P s (execute env what (updRuns q h) s)"
  by (intro adds_silent; simp add: return_def raise_def query_def timeNow_def rowsAffected_def execute_def updTasks_def
      updRuns_def count_def)+

lemma adds_ack: "P Acked \<Longrightarrow> adds P s (ackMessage env hasReply s)"
  by (auto simp: ackMessage_def count_def act_def intro: adds_silent adds_one)

lemma adds_noting: "P a \<Longrightarrow> adds P s (noting a s)"
  by (auto simp: noting_def act_def intro: adds_one)

lemma adds_publish: "P (Published subject payload) \<Longrightarrow> adds P s (publish env subject payload s)"
  by (auto simp: publish_def count_def act_def intro: adds_silent adds_one)

lemma loadApprovalRunID_silent: "adds P s (loadApprovalRunID env approvalID s)"
  unfolding loadApprovalRunID_def by (auto intro!: adds_andThen silent_steps)

text \<open>An effect that the event and the tables it met justify.\<close>

fun justified :: "(string \<Rightarrow> AgentReply option) \<Rightarrow> ApprovalPayload \<Rightarrow> Worker \<Rightarrow> WorkerAct \<Rightarrow> bool" where
  "justified decode pl s Acked \<longleftrightarrow> True"
| "justified decode pl s (PullRequested taskID) \<longleftrightarrow>
     pl_ApprovalType pl = ''pr_create'' \<and> taskID = pl_TaskID pl \<and>
     (\<exists>t. find (liveTask taskID) (wk_tasks s) = Some t \<and> tk_Status t \<in> {''reviewing'', ''pr_created''})"
| "justified decode pl s (CallbackSent taskID event runID status) \<longleftrightarrow>
     pl_ApprovalType pl = ''pr_create'' \<and> taskID = pl_TaskID pl \<and> event = ''build.pr_created'' \<and> status = ''pr_created''"
| "justified decode pl s (AgentAnswered threadID turnID itemID approved note) \<longleftrightarrow>
     pl_ApprovalType pl = ''agent_runtime'' \<and> approved \<and> note = pl_Note pl \<and>
     (\<exists>a runID. findApproval (pl_ApprovalID pl) s = Some a \<and>
        matchReply decode pl a = Inr (\<lparr>rr_ThreadID = threadID, rr_TurnID = turnID, rr_ItemID = itemID\<rparr>, runID))"
| "justified decode pl s (Published subject payload) \<longleftrightarrow>
     subject = ''runs.triggered'' \<and> isAgentResumeApproval (pl_ApprovalType pl) \<and>
     (\<exists>r \<in> set (wk_runs s). pausedRun (ar_ID r) (pl_TaskID pl) r \<and> (''run_id'', AString (ar_ID r)) \<in> set payload)"
| "justified decode pl s _ \<longleftrightarrow> False"

lemma resume_justified:
  assumes "isAgentResumeApproval (pl_ApprovalType pl)"
  shows "adds (justified decode pl s) s (resumePausedRun env h (pl_ApprovalID pl) (pl_TaskID pl) runID0 s)"
  unfolding resumePausedRun_def
proof (rule adds_andThen)
  let ?m = "if TrimSpace runID0 = [] then loadApprovalRunID env (pl_ApprovalID pl) else return (TrimSpace runID0)"
  show "adds (justified decode pl s) s (?m s)" by (simp add: loadApprovalRunID_silent silent_steps)
  fix runID s1
  assume "?m s = (Inr runID, s1)"
  then have runs: "wk_runs s1 = wk_runs s"
    by (auto simp: loadApprovalRunID_def step_results count_def split: if_splits)
  let ?upd = "\<lambda>now. updRuns (pausedRun runID (pl_TaskID pl)) (resumeRow ''queued'' now)"
  have paused: "\<exists>r \<in> set (wk_runs s). pausedRun (ar_ID r) (pl_TaskID pl) r \<and> ar_ID r = runID"
    if "length (filter (pausedRun runID (pl_TaskID pl)) (wk_runs s)) \<noteq> 0"
  proof -
    from that obtain r where "r \<in> set (wk_runs s)" "pausedRun runID (pl_TaskID pl) r" by (auto simp: filter_empty_conv)
    then show ?thesis by (auto simp: pausedRun_def)
  qed
  show "adds (justified decode pl s) s1 ((if runID = [] then raise (MissingField (pl_ApprovalID pl))
      else andThen (timeNow env) (\<lambda>now.
         andThen (execute env ''queue paused run'' (?upd now)) (\<lambda>n.
         andThen (rowsAffected env ''check queued paused run'' n) (\<lambda>rows.
         if rows = 0 then return ()
         else andThen (execute env ''update task for resumed run''
                (updTasks (liveTask (pl_TaskID pl)) (setStatus ''running'' now))) (\<lambda>_.
           if ah_eventBus h then
             publish env ''runs.triggered''
               [(''run_id'', AString runID), (''task_id'', AString (pl_TaskID pl)), (''status'', AString ''queued''),
                (''action'', AString ''approval_resumed''), (''approval_id'', AString (pl_ApprovalID pl))]
           else return ()))))) s1)"
    using assms runs paused
    by (auto intro!: adds_andThen silent_steps adds_publish simp: step_results updRuns_def count_def)
qed

lemma reply_justified:
  assumes "pl_ApprovalType pl = ''agent_runtime''"
    and "\<forall>responder x y z n t. ah_agentRuntimeApprovalReply h = Some responder \<longrightarrow>
      wk_log (snd (responder x y z True n t)) = wk_log t"
  shows "adds (justified decode pl s) s (respondAgentRuntimeApproval env decode h pl True s)"
proof (cases "ah_agentRuntimeApprovalReply h")
  case None
  then show ?thesis by (simp add: respondAgentRuntimeApproval_def silent_steps)
next
  case (Some responder)
  with assms(2) have reply: "adds P t (responder x y z True n t)" for P x y z n t by (intro adds_silent) simp
  show ?thesis unfolding respondAgentRuntimeApproval_def Some option.case
  proof (rule adds_andThen [OF silent_steps(3)])
    fix found s1
    assume "query env ''load agent runtime approval'' (findApproval (pl_ApprovalID pl)) s = (Inr found, s1)"
    then have found: "findApproval (pl_ApprovalID pl) s = found" by (auto simp: step_results)
    show "adds (justified decode pl s) s1 ((case found of None \<Rightarrow> raise (NotFound (pl_ApprovalID pl))
        | Some a \<Rightarrow> (case matchReply decode pl a of
             Inl e \<Rightarrow> raise e
           | Inr (m, resolvedRunID) \<Rightarrow>
             andThen (noting (AgentAnswered (rr_ThreadID m) (rr_TurnID m) (rr_ItemID m) True (pl_Note pl))) (\<lambda>_.
             andThen (responder (rr_ThreadID m) (rr_TurnID m) (rr_ItemID m) True (pl_Note pl)) (\<lambda>_.
             andThen (timeNow env) (\<lambda>now.
             andThen (if resolvedRunID \<noteq> [] then
                 andThen (execute env ''resume direct agent runtime run''
                     (updRuns (pausedRun resolvedRunID (ap_TaskID a)) (resumeRow ''running'' now))) (\<lambda>_. return ())
                 else return ()) (\<lambda>_.
             andThen (execute env ''resume agent runtime task''
                 (updTasks (liveTask (ap_TaskID a)) (setStatus ''running'' now))) (\<lambda>_. return ()))))))) s1)"
    proof (cases found)
      case None
      then show ?thesis by (simp add: silent_steps)
    next
      case (Some a)
      show ?thesis
      proof (cases "matchReply decode pl a")
        case (Inl e)
        with Some show ?thesis by (simp add: silent_steps)
      next
        case (Inr mr)
        obtain m runID where mr: "mr = (m, runID)" by fastforce
        have "justified decode pl s (AgentAnswered (rr_ThreadID m) (rr_TurnID m) (rr_ItemID m) True (pl_Note pl))"
          using assms(1) found Some Inr mr by auto
        then have noted: "adds (justified decode pl s) t (noting (AgentAnswered (rr_ThreadID m) (rr_TurnID m) (rr_ItemID m)
            True (pl_Note pl)) t)" for t by (rule adds_noting [where P = "justified decode pl s"])
        note steps = adds_andThen silent_steps noted reply
        show ?thesis unfolding Some Inr mr option.case sum.case prod.case
          by (intro steps; cases "runID = []"; simp; intro steps)
      qed
    qed
  qed
qed

text \<open>
  C23. An approval has the effects it was given for and no others.  Whatever fails, the event of an approval
  makes the pull request only if it is an approval of one and the task is in review or has one; it answers
  an agent only as the metadata of an approval of that kind say that matches the event; and it announces
  only a run of its task that it found paused.
\<close>

theorem approval_effects:
  assumes "\<forall>responder x y z n t. ah_agentRuntimeApprovalReply h = Some responder \<longrightarrow>
      wk_log (snd (responder x y z True n t)) = wk_log t"
    and "\<forall>x t. wk_log (snd (ah_factory h x t)) = wk_log t"
  shows "\<exists>l. wk_log (snd (HandleApprovalApproved env decode h (Some pl) hasReply s)) = wk_log s @ l \<and>
    (\<forall>a \<in> set l. justified decode pl s a)"
proof -
  have ack: "adds (justified decode pl s) t (ackMessage env hasReply t)" for t by (rule adds_ack) simp
  have factory: "adds P t (ah_factory h x t)" for P x t using assms(2) by (intro adds_silent) simp
  have pr: "adds (justified decode pl s) s (createApprovedPR env h pl hasReply s)" if "pl_ApprovalType pl = ''pr_create''"
    unfolding createApprovedPR_def using that ack
    by (auto split: option.split simp: step_results intro!: adds_andThen silent_steps adds_noting factory)
  have reply: "adds (justified decode pl s) s (andThen (respondAgentRuntimeApproval env decode h pl True)
      (\<lambda>_. ackMessage env hasReply) s)" if "pl_ApprovalType pl = ''agent_runtime''"
    by (rule adds_andThen) (rule reply_justified [OF that assms(1)], rule ack)
  have resume: "adds (justified decode pl s) s (andThen (resumePausedRun env h (pl_ApprovalID pl) (pl_TaskID pl)
      (pl_AgentRunID pl)) (\<lambda>_. ackMessage env hasReply) s)" if "isAgentResumeApproval (pl_ApprovalType pl)"
    by (rule adds_andThen) (rule resume_justified [OF that], rule ack)
  have "adds (justified decode pl s) s (HandleApprovalApproved env decode h (Some pl) hasReply s)"
    unfolding HandleApprovalApproved_def using pr reply resume ack [of s] by simp
  then show ?thesis by (simp add: adds_def)
qed

section \<open>Concrete approvals\<close>

definition sampleApprovalHandler :: ApprovalHandler where
  "sampleApprovalHandler =
     \<lparr>ah_eventBus = True, ah_factory = (\<lambda>taskID. return \<lparr>pr_ID = ''pr1'', pr_RunID = None\<rparr>),
      ah_agentRuntimeApprovalReply = Some (\<lambda>threadID turnID itemID approved note. return ())\<rparr>"

definition samplePayload :: "string \<Rightarrow> ApprovalPayload" where
  "samplePayload approvalType =
     \<lparr>pl_ApprovalID = ''a1'', pl_TaskID = ''t1'', pl_AgentRunID = ''r1'', pl_Response = ''approved'', pl_ResponderID = ''u1'',
      pl_ApprovalType = approvalType, pl_Note = []\<rparr>"

definition sampleReply :: "string \<Rightarrow> AgentReply option" where
  "sampleReply metadata = Some \<lparr>rr_ThreadID = ''th'', rr_TurnID = ''tu'', rr_ItemID = ''it''\<rparr>"

definition approvalWorker :: "string \<Rightarrow> string \<Rightarrow> Worker" where
  "approvalWorker taskStatus runStatus =
     sampleWorker\<lparr>wk_tasks := [sampleWorkerTask taskStatus], wk_runs := [sampleRun ''r1'' runStatus],
       wk_approvals := [(reviewApproval ''a1'' ''t1'' ''r1'' ''{}'' 1)\<lparr>ap_ApprovalType := ''agent_runtime''\<rparr>]\<rparr>"

theorem approval_effects_witness:
  "\<exists>l. wk_log (snd (HandleApprovalApproved (sampleEnv False False) sampleReply sampleApprovalHandler
      (Some (samplePayload ''risky_action'')) True (approvalWorker ''running'' ''paused''))) =
      wk_log (approvalWorker ''running'' ''paused'') @ l \<and>
    (\<forall>a \<in> set l. justified sampleReply (samplePayload ''risky_action'') (approvalWorker ''running'' ''paused'') a)"
proof -
  have 1: "\<forall>responder x y z n t. ah_agentRuntimeApprovalReply sampleApprovalHandler = Some responder \<longrightarrow>
      wk_log (snd (responder x y z True n t)) = wk_log t"
    by (auto simp: sampleApprovalHandler_def return_def)
  have 2: "\<forall>x t. wk_log (snd (ah_factory sampleApprovalHandler x t)) = wk_log t"
    by (simp add: sampleApprovalHandler_def return_def)
  show ?thesis by (rule approval_effects [OF 1 2])
qed

text \<open>
  Two ways an approval goes wrong.  When the run it resumes cannot be announced, the run is queued, and
  the delivery that follows finds no paused run, is acknowledged and announces nothing: the run waits for
  ever.  And an answer to an agent that arrives after its task is done sets the task running again, a
  rejection too.
\<close>

theorem approval_gaps:
  "(let (e1, s1) = HandleApprovalApproved (sampleEnv True False) sampleReply sampleApprovalHandler
           (Some (samplePayload ''risky_action'')) True (approvalWorker ''running'' ''paused'');
        (e2, s2) = HandleApprovalApproved (sampleEnv False False) sampleReply sampleApprovalHandler
           (Some (samplePayload ''risky_action'')) True s1
    in e1 = Inl (PublishError ''runs.triggered'') \<and> map ar_Status (wk_runs s1) = [''queued''] \<and>
       e2 = Inr () \<and> map ar_Status (wk_runs s2) = [''queued''] \<and> wk_log s2 = [Acked]) \<and>
   (let (e, s) = HandleApprovalApproved (sampleEnv False False) sampleReply sampleApprovalHandler
           (Some (samplePayload ''agent_runtime'')) True (approvalWorker ''done'' ''completed'')
    in e = Inr () \<and> map tk_Status (wk_tasks s) = [''running''] \<and> map ar_Status (wk_runs s) = [''completed'']) \<and>
   (let (e, s) = HandleApprovalRejected (sampleEnv False False) sampleReply sampleApprovalHandler
           (Some (samplePayload ''agent_runtime'')) True (approvalWorker ''cancelled'' ''cancelled'')
    in e = Inr () \<and> map tk_Status (wk_tasks s) = [''running''])"
  by code_simp

end
