(* ===== verification/TaskHandlers.thy ===== *)
theory TaskHandlers
  imports RunHandlers GoHash
begin

text \<open>
  The handlers of task events (\<open>apps/worker/internal/handlers/task_handlers.go\<close>): a created task goes
  to the review of its specification; an approved task is claimed, gets a workspace and its initial run,
  and the run is announced.

  The provider of runtimes is an interface of the code, a record of functions here.  It has no access to
  the tables, so that the destruction of a workspace commutes with the rollback of a transaction.
\<close>

section \<open>Handler and events\<close>

record CreateRequest =
  cw_RepositoryID :: string
  cw_CloneURL :: string
  cw_Branch :: string
  cw_BaseBranch :: string
  cw_WorktreeName :: string
  cw_Env :: "string \<rightharpoonup> string"

record RuntimeSession =
  rs_ID :: string
  rs_WorkspaceID :: string
  rs_Status :: string
  rs_PreviewURL :: string
  rs_Provider :: string
  rs_WorktreePath :: string
  rs_CreatedAt :: int

record RuntimeProvider =
  rt_CreateWorkspace :: "CreateRequest \<Rightarrow> RuntimeSession step"
  rt_DestroyWorkspace :: "string \<Rightarrow> unit step"

record TaskHandler =
  th_eventBus :: bool
  th_runtimeProvider :: "RuntimeProvider option"
  th_runtimeName :: string

record TaskEvent =
  te_TaskID :: string
  te_Status :: string
  te_ProjectID :: string
  te_ActorID :: string
  te_Data :: string

definition NewTaskHandler :: TaskHandler where
  "NewTaskHandler = \<lparr>th_eventBus = False, th_runtimeProvider = None, th_runtimeName = []\<rparr>"

definition TaskHandler_WithEventPublisher :: "bool \<Rightarrow> TaskHandler \<Rightarrow> TaskHandler" where
  "TaskHandler_WithEventPublisher eventBus h = h\<lparr>th_eventBus := eventBus\<rparr>"

definition WithRuntimeProvider :: "RuntimeProvider option \<Rightarrow> string \<Rightarrow> TaskHandler \<Rightarrow> TaskHandler" where
  "WithRuntimeProvider provider name h = h\<lparr>th_runtimeProvider := provider, th_runtimeName := name\<rparr>"

text \<open>\<open>msg.Ack()\<close> itself fails on a message without a reply subject.\<close>

definition ackDirect :: "WorkerEnv \<Rightarrow> bool \<Rightarrow> unit step" where
  "ackDirect env hasReply = (if hasReply then ackMessage env True else raise AckError)"

definition HandleTaskCreated :: "WorkerEnv \<Rightarrow> TaskEvent option \<Rightarrow> bool \<Rightarrow> unit step" where
  "HandleTaskCreated env event hasReply =
     (case event of
        None \<Rightarrow> raise Undecodable
      | Some ev \<Rightarrow>
        andThen (timeNow env) (\<lambda>now.
        andThen (execute env ''update task status for spec generation''
            (updTasks (\<lambda>t. liveTask (te_TaskID ev) t \<and> tk_Status t = ''backlog'') (setStatus ''spec_review'' now)))
          (\<lambda>_. ackDirect env hasReply)))"

section \<open>Announcement of a run\<close>

definition publishRunTriggered :: "WorkerEnv \<Rightarrow> TaskHandler \<Rightarrow> string \<Rightarrow> string \<Rightarrow> string \<Rightarrow> unit step" where
  "publishRunTriggered env h runID taskID action =
     (if \<not> th_eventBus h then return ()
      else publish env ''runs.triggered''
        [(''run_id'', AString runID), (''task_id'', AString taskID), (''status'', AString ''queued''),
         (''action'', AString action)])"

text \<open>The three fields the code looks at; the raw text of \<open>retry\<close> is empty when it is absent.\<close>

record QueuedMetadata =
  qm_Trigger :: string
  qm_HandoffFromRunID :: string
  qm_Retry :: string

definition isInitialQueuedRunMetadata :: "(string \<Rightarrow> QueuedMetadata option) \<Rightarrow> string \<Rightarrow> bool option" where
  "isInitialQueuedRunMetadata decode raw0 =
     (let raw = TrimSpace raw0 in
      if raw = [] \<or> raw = ''{}'' then Some True
      else case decode raw of
             None \<Rightarrow> None
           | Some m \<Rightarrow>
             if qm_Retry m \<noteq> [] \<and> qm_Retry m \<noteq> ''null'' then Some False
             else if qm_Trigger m = ''mailbox_handoff'' \<or> qm_HandoffFromRunID m \<noteq> [] then Some False
             else Some True)"

text \<open>The queued runs, the latest first; SQL leaves the order of equal times open.\<close>

definition queuedRuns :: "string \<Rightarrow> Worker \<Rightarrow> AgentRun list" where
  "queuedRuns taskID s =
     sort_key (\<lambda>r. - ar_CreatedAt r) (filter (\<lambda>r. ar_TaskID r = taskID \<and> ar_Status r = ''queued'') (wk_runs s))"

definition storedMetadata :: "AgentRun \<Rightarrow> string" where
  "storedMetadata r = (if ar_Metadata r = [] then ''{}'' else ar_Metadata r)"

fun queuedLoop ::
    "WorkerEnv \<Rightarrow> (string \<Rightarrow> QueuedMetadata option) \<Rightarrow> TaskHandler \<Rightarrow> string \<Rightarrow> AgentRun list \<Rightarrow> bool step" where
  "queuedLoop env decode h taskID [] = return False"
| "queuedLoop env decode h taskID (r # rs) =
     (case isInitialQueuedRunMetadata decode (storedMetadata r) of
        None \<Rightarrow> raise (DecodeError (ar_ID r))
      | Some initial \<Rightarrow>
        if \<not> initial then queuedLoop env decode h taskID rs
        else andThen (publishRunTriggered env h (ar_ID r) taskID ''task_approved_retry'') (\<lambda>_. return True))"

definition publishExistingQueuedRun ::
    "WorkerEnv \<Rightarrow> (string \<Rightarrow> QueuedMetadata option) \<Rightarrow> TaskHandler \<Rightarrow> string \<Rightarrow> bool step" where
  "publishExistingQueuedRun env decode h taskID =
     (if \<not> th_eventBus h then return False
      else andThen (query env ''load existing queued runs'' (queuedRuns taskID)) (queuedLoop env decode h taskID))"

section \<open>The workspace\<close>

record approvedTask =
  at_ID :: string
  at_RepositoryID :: string
  at_TargetBranch :: string
  at_CloneURL :: string
  at_DefaultBranch :: string

record provisionedWorkspace =
  pw_Name :: string
  pw_BranchName :: string
  pw_BaseBranch :: string
  pw_WorktreePath :: "string option"
  pw_RuntimeProvider :: string
  pw_RuntimeSessionID :: "string option"
  pw_Status :: string

definition shortID :: "string \<Rightarrow> string" where
  "shortID i = (if length i \<le> 8 then i else take 8 i)"

text \<open>\<open>Unix()\<close> counts seconds from 1970, and times here nanoseconds from the year 1.\<close>

definition unixText :: "int \<Rightarrow> string" where
  "unixText now =
     (let u = now div 1000000000 - 62135596800
      in if u < 0 then ''-'' @ FormatUint (- u) else FormatUint u)"

definition plannedWorkspace :: "TaskHandler \<Rightarrow> approvedTask \<Rightarrow> int \<Rightarrow> provisionedWorkspace" where
  "plannedWorkspace h task now =
     (let b1 = (if at_TargetBranch task = [] then at_DefaultBranch task else at_TargetBranch task);
          baseBranch = (if b1 = [] then ''main'' else b1)
      in \<lparr>pw_Name = ''workspace-'' @ shortID (at_ID task),
          pw_BranchName = ''agent/'' @ shortID (at_ID task) @ ''/'' @ unixText now,
          pw_BaseBranch = baseBranch, pw_WorktreePath = None,
          pw_RuntimeProvider = (if th_runtimeName h = [] then ''unprovisioned'' else th_runtimeName h),
          pw_RuntimeSessionID = None, pw_Status = ''pending''\<rparr>)"

definition provisionWorkspace :: "TaskHandler \<Rightarrow> approvedTask \<Rightarrow> int \<Rightarrow> provisionedWorkspace step" where
  "provisionWorkspace h task now =
     (let w = plannedWorkspace h task now in
      case th_runtimeProvider h of
        None \<Rightarrow> return w
      | Some provider \<Rightarrow>
        andThen (noting (WorkspaceCreated (at_RepositoryID task) (pw_BranchName w))) (\<lambda>_.
        andThen (rt_CreateWorkspace provider
            \<lparr>cw_RepositoryID = at_RepositoryID task, cw_CloneURL = at_CloneURL task, cw_Branch = pw_BranchName w,
             cw_BaseBranch = pw_BaseBranch w, cw_WorktreeName = pw_Name w, cw_Env = Map.empty\<rparr>) (\<lambda>session.
        return (w\<lparr>pw_Status := rs_Status session,
          pw_RuntimeProvider := (if rs_Provider session \<noteq> [] then rs_Provider session else pw_RuntimeProvider w),
          pw_RuntimeSessionID := (if rs_ID session \<noteq> [] then Some (rs_ID session) else None),
          pw_WorktreePath := (if rs_WorktreePath session \<noteq> [] then Some (rs_WorktreePath session) else None)\<rparr>))))"

definition cleanupProvisionedWorkspace :: "TaskHandler \<Rightarrow> provisionedWorkspace \<Rightarrow> unit step" where
  "cleanupProvisionedWorkspace h w =
     (case (th_runtimeProvider h, pw_RuntimeSessionID w) of
        (Some provider, Some session) \<Rightarrow>
          if session = [] then return ()
          else ignoring (andThen (noting (WorkspaceDestroyed session)) (\<lambda>_. rt_DestroyWorkspace provider session))
      | _ \<Rightarrow> return ())"

section \<open>The initial run of an approved task\<close>

definition approvedTaskRunMetadata :: "Codec \<Rightarrow> string \<Rightarrow> worker_error + string" where
  "approvedTaskRunMetadata codec data =
     (if data = [] \<or> data = ''null'' then Inr ''{}''
      else case co_decode codec data of
             None \<Rightarrow> Inl (DecodeError data)
           | Some None \<Rightarrow> Inr ''null''
           | Some (Some m) \<Rightarrow> (case co_encode codec m of None \<Rightarrow> Inl (EncodeError data) | Some e \<Rightarrow> Inr e))"

definition joinTask :: "string \<Rightarrow> Worker \<Rightarrow> approvedTask list" where
  "joinTask taskID s =
     concat (map (\<lambda>t. map (\<lambda>r. \<lparr>at_ID = tk_ID t, at_RepositoryID = tk_RepositoryID t, at_TargetBranch = tk_TargetBranch t,
           at_CloneURL = rp_CloneURL r, at_DefaultBranch = rp_DefaultBranch r\<rparr>)
         (filter (\<lambda>r. rp_ID r = tk_RepositoryID t \<and> rp_DeletedAt r = None) (wk_repos s)))
       (filter (liveTask taskID) (wk_tasks s)))"

definition unattached :: "string \<Rightarrow> string \<Rightarrow> ModelTask \<Rightarrow> bool" where
  "unattached status taskID t \<longleftrightarrow> liveTask taskID t \<and> tk_Status t = status \<and> tk_WorkspaceID t = None"

definition claimApprovedTaskForInitialRun :: "WorkerEnv \<Rightarrow> string \<Rightarrow> int \<Rightarrow> bool step" where
  "claimApprovedTaskForInitialRun env taskID now =
     andThen (execute env ''claim approved task for initial run''
         (updTasks (unattached ''approved'' taskID) (setStatus ''running'' now))) (\<lambda>n.
     andThen (rowsAffected env ''check initial run claim'' n) (\<lambda>rows. return (rows = 1)))"

definition releaseInitialRunClaim :: "WorkerEnv \<Rightarrow> string \<Rightarrow> unit step" where
  "releaseInitialRunClaim env taskID =
     andThen (timeNow env) (\<lambda>now.
     andThen (execute env ''release initial run claim''
         (updTasks (unattached ''running'' taskID) (setStatus ''approved'' now))) (\<lambda>_. return ()))"

text \<open>A step with what is to be done when it fails.\<close>

definition onError :: "unit step \<Rightarrow> 'a step \<Rightarrow> 'a step" where
  "onError undo m s = (case m s of (Inl e, s1) \<Rightarrow> (Inl e, snd (undo s1)) | (Inr x, s1) \<Rightarrow> (Inr x, s1))"

definition attach :: "string \<Rightarrow> int \<Rightarrow> ModelTask \<Rightarrow> ModelTask" where
  "attach workspaceID now t =
     t\<lparr>tk_WorkspaceID := Some workspaceID,
       tk_StartedAt := (case tk_StartedAt t of None \<Rightarrow> Some now | Some x \<Rightarrow> Some x), tk_UpdatedAt := now\<rparr>"

definition initialRunBody ::
    "WorkerEnv \<Rightarrow> approvedTask \<Rightarrow> string \<Rightarrow> provisionedWorkspace \<Rightarrow> string \<Rightarrow> int \<Rightarrow> string option step" where
  "initialRunBody env task workspaceID w metadata now =
     andThen (insertWorkspace env ''create workspace''
         \<lparr>ws_ID = workspaceID, ws_RepositoryID = at_RepositoryID task, ws_TaskID = Some (at_ID task), ws_Name = pw_Name w,
          ws_Branch = pw_BranchName w, ws_BaseBranch = pw_BaseBranch w, ws_WorktreePath = pw_WorktreePath w,
          ws_RuntimeProvider = pw_RuntimeProvider w, ws_RuntimeSessionID = pw_RuntimeSessionID w, ws_Status = pw_Status w,
          ws_PreviewURL = None, ws_Settings = [], ws_CreatedAt = now, ws_UpdatedAt = now, ws_DeletedAt = None\<rparr>) (\<lambda>_.
     andThen (execute env ''attach workspace to claimed task''
         (updTasks (unattached ''running'' (at_ID task)) (attach workspaceID now))) (\<lambda>n.
     andThen (rowsAffected env ''check workspace attachment'' n) (\<lambda>rows.
     if rows \<noteq> 1 then raise (TaskChanged (at_ID task))
     else andThen (newUUID env) (\<lambda>runID.
       andThen (insertRun env ''create agent run''
           (queuedRun runID (at_ID task) (Some workspaceID) ''implementer'' ''gpt-4o'' ''openai'' metadata now))
         (\<lambda>_. return (Some runID))))))"

definition startInitialRun :: "WorkerEnv \<Rightarrow> TaskHandler \<Rightarrow> approvedTask \<Rightarrow> string \<Rightarrow> int \<Rightarrow> string option step" where
  "startInitialRun env h task metadata now =
     andThen (newUUID env) (\<lambda>workspaceID.
     andThen (provisionWorkspace h task now) (\<lambda>w.
     onError (cleanupProvisionedWorkspace h w)
       (transaction env ''begin initial run transaction'' ''commit initial run transaction''
          (initialRunBody env task workspaceID w metadata now))))"

definition HandleTaskApproved ::
    "WorkerEnv \<Rightarrow> Codec \<Rightarrow> (string \<Rightarrow> QueuedMetadata option) \<Rightarrow> TaskHandler \<Rightarrow> TaskEvent option \<Rightarrow> bool \<Rightarrow> unit step" where
  "HandleTaskApproved env codec decode h event hasReply =
     (case event of
        None \<Rightarrow> raise Undecodable
      | Some ev \<Rightarrow>
        andThen (publishExistingQueuedRun env decode h (te_TaskID ev)) (\<lambda>resumed.
        if resumed then ackMessage env hasReply
        else (case approvedTaskRunMetadata codec (te_Data ev) of
            Inl e \<Rightarrow> raise e
          | Inr metadata \<Rightarrow>
            andThen (query env ''load task'' (joinTask (te_TaskID ev))) (\<lambda>rows.
            case rows of
              [] \<Rightarrow> ackMessage env hasReply
            | task # _ \<Rightarrow>
              andThen (timeNow env) (\<lambda>now.
              andThen (claimApprovedTaskForInitialRun env (at_ID task) now) (\<lambda>claimed.
              if \<not> claimed then ackMessage env hasReply
              else andThen (onError (ignoring (releaseInitialRunClaim env (at_ID task)))
                       (startInitialRun env h task metadata now)) (\<lambda>started.
                case started of
                  None \<Rightarrow> ackMessage env hasReply
                | Some runID \<Rightarrow>
                  andThen (publishRunTriggered env h runID (at_ID task) ''task_approved'')
                    (\<lambda>_. ackMessage env hasReply))))))))"

section \<open>One initial run for a task\<close>

context step_relation
begin

lemma keeps_onError: "keeps R undo \<Longrightarrow> keeps R m \<Longrightarrow> keeps R (onError undo m)"
proof (rule keepsI)
  fix s
  assume undo: "keeps R undo" and m: "keeps R m"
  obtain r t where e: "m s = (r, t)" by fastforce
  note st = keepsD [OF m e]
  have "R t (snd (undo t))" using undo by (simp add: keeps_def)
  from R_trans [OF st this] st e show "R s (snd (onError undo m s))" by (auto simp: onError_def split: sum.split)
qed

end

definition attachedIDs :: "Worker \<Rightarrow> string list" where
  "attachedIDs s = map tk_ID (filter (\<lambda>t. tk_WorkspaceID t \<noteq> None) (wk_tasks s))"

text \<open>Every run that was added came with one task that got its workspace.\<close>

definition attaching :: "Worker \<Rightarrow> Worker \<Rightarrow> bool" where
  "attaching s t \<longleftrightarrow>
     map tk_ID (wk_tasks t) = map tk_ID (wk_tasks s) \<and>
     (\<exists>new. wk_runs t = wk_runs s @ new \<and> mset (attachedIDs t) = mset (attachedIDs s) + mset (map ar_TaskID new))"

lemma attaching_trans:
  assumes "attaching s t" "attaching t u"
  shows "attaching s u"
proof -
  from assms obtain new new' where
    "wk_runs t = wk_runs s @ new" "mset (attachedIDs t) = mset (attachedIDs s) + mset (map ar_TaskID new)"
    "wk_runs u = wk_runs t @ new'" "mset (attachedIDs u) = mset (attachedIDs t) + mset (map ar_TaskID new')"
    by (auto simp: attaching_def)
  then have "wk_runs u = wk_runs s @ (new @ new') \<and> mset (attachedIDs u) = mset (attachedIDs s) + mset (map ar_TaskID (new @ new'))"
    by simp
  then show ?thesis using assms unfolding attaching_def by auto
qed

lemma attaching_unchanged: "unchanged s t \<Longrightarrow> attaching s t"
  by (auto simp: attaching_def unchanged_def attachedIDs_def)

interpretation att: step_relation attaching
proof
  fix s t u :: Worker and l n
  show "attaching s s" "attaching s (s\<lparr>wk_log := l, wk_n := n\<rparr>)"
    by (auto intro: attaching_unchanged simp: unch.R_refl unch.R_effects)
  show "attaching s t \<Longrightarrow> attaching t u \<Longrightarrow> attaching s u" by (rule attaching_trans)
qed

lemma attaching_status: "keeps attaching (execute env what (updTasks p (setStatus status now)))"
proof (rule att.keepsI)
  fix s
  let ?u = "snd (execute env what (updTasks p (setStatus status now)) s)"
  have "map tk_ID (filter (\<lambda>t. tk_WorkspaceID t \<noteq> None) (updRows p (setStatus status now) ts)) =
      map tk_ID (filter (\<lambda>t. tk_WorkspaceID t \<noteq> None) ts)" for ts
    by (induction ts) (auto simp: updRows_def setStatus_def)
  then have "attachedIDs ?u = attachedIDs s"
    unfolding attachedIDs_def by (cases "en_sqlFails env (wk_n s)") (simp_all add: execute_def updTasks_def count_def)
  moreover have "map tk_ID (wk_tasks ?u) = map tk_ID (wk_tasks s)" "wk_runs ?u = wk_runs s"
    by (simp_all add: execute_def updTasks_def count_def updRows_def setStatus_def)
  ultimately show "attaching s ?u" unfolding attaching_def by simp
qed

lemma attach_rows:
  assumes "\<And>t. p t \<Longrightarrow> tk_WorkspaceID t = None"
  shows "mset (map tk_ID (filter (\<lambda>t. tk_WorkspaceID t \<noteq> None) (updRows p (attach w now) ts))) =
    mset (map tk_ID (filter (\<lambda>t. tk_WorkspaceID t \<noteq> None) ts)) + mset (map tk_ID (filter p ts))"
  using assms by (induction ts) (auto simp: updRows_def attach_def)

lemma initialRunBody_attaching:
  assumes "initialRunBody env task workspaceID w metadata now s = (Inr (Some runID), t)"
  shows "attaching s t"
proof -
  let ?p = "unattached ''running'' (at_ID task)"
  from assms have n: "length (filter ?p (wk_tasks s)) = 1"
    and runs: "wk_runs t = wk_runs s @ [queuedRun runID (at_ID task) (Some workspaceID) ''implementer'' ''gpt-4o'' ''openai'' metadata now]"
    and tasks: "wk_tasks t = updRows ?p (attach workspaceID now) (wk_tasks s)"
    by (auto simp: initialRunBody_def step_results insertWorkspace_def updTasks_def count_def split: if_splits)
  from n obtain x where x: "filter ?p (wk_tasks s) = [x]" by (auto simp: length_Suc_conv)
  then have "?p x" by (metis filter_eq_Cons_iff)
  then have "tk_ID x = at_ID task" by (simp add: unattached_def liveTask_def)
  moreover have "mset (attachedIDs t) = mset (attachedIDs s) + mset (map tk_ID (filter ?p (wk_tasks s)))"
    unfolding attachedIDs_def tasks by (rule attach_rows) (simp add: unattached_def)
  moreover have "map tk_ID (wk_tasks t) = map tk_ID (wk_tasks s)" by (simp add: tasks updRows_def attach_def)
  ultimately show ?thesis using runs x by (simp add: attaching_def queuedRun_def)
qed

lemma initialRun_attaching:
  "keeps attaching (transaction env b c (initialRunBody env task workspaceID w metadata now))"
proof (rule att.keepsI)
  fix s
  let ?body = "initialRunBody env task workspaceID w metadata now"
  obtain r t where r: "transaction env b c ?body s = (r, t)" by fastforce
  show "attaching s (snd (transaction env b c ?body s))"
  proof (cases "\<exists>x. r = Inr (Some x)")
    case False
    from attaching_unchanged [OF transaction_undone [OF r False]] r show ?thesis by simp
  next
    case True
    then obtain runID where "r = Inr (Some runID)" by blast
    from transaction_Some [OF r [unfolded this]] obtain u where
      u: "?body (count s) = (Inr (Some runID), u)" "t = count u" by blast
    from att.R_trans [OF att.R_count [of s] initialRunBody_attaching [OF u(1)]] have "attaching s u" .
    from att.R_trans [OF this att.R_count] r u(2) show ?thesis by simp
  qed
qed

text \<open>A provider of runtimes has no access to the tables.\<close>

definition detached :: "TaskHandler \<Rightarrow> bool" where
  "detached h \<longleftrightarrow>
     (\<forall>provider x y. th_runtimeProvider h = Some provider \<longrightarrow>
        keeps unchanged (rt_CreateWorkspace provider x) \<and> keeps unchanged (rt_DestroyWorkspace provider y))"

lemma keeps_attaching: "keeps unchanged m \<Longrightarrow> keeps attaching m"
  by (simp add: keeps_def attaching_unchanged)

lemma provision_unchanged: "detached h \<Longrightarrow> keeps unchanged (provisionWorkspace h task now)"
  unfolding provisionWorkspace_def Let_def
  by (cases "th_runtimeProvider h") (auto simp: detached_def intro!: unch.keeps_steps)

lemma cleanup_unchanged: "detached h \<Longrightarrow> keeps unchanged (cleanupProvisionedWorkspace h w)"
  unfolding cleanupProvisionedWorkspace_def
  by (cases "th_runtimeProvider h"; cases "pw_RuntimeSessionID w") (auto simp: detached_def intro!: unch.keeps_steps)

lemma publishRun_unchanged: "keeps unchanged (publishRunTriggered env h runID taskID action)"
  by (simp add: publishRunTriggered_def unch.keeps_steps)

lemma queuedLoop_unchanged: "keeps unchanged (queuedLoop env decode h taskID rs)"
  by (induction rs) (auto split: option.split intro!: unch.keeps_steps publishRun_unchanged)

lemma publishExisting_unchanged: "keeps unchanged (publishExistingQueuedRun env decode h taskID)"
  unfolding publishExistingQueuedRun_def
  by (auto intro!: unch.keeps_return unch.keeps_andThen unch.keeps_query queuedLoop_unchanged)

lemma HandleTaskApproved_attaching:
  assumes "detached h"
  shows "keeps attaching (HandleTaskApproved env codec decode h event hasReply)"
  unfolding HandleTaskApproved_def claimApprovedTaskForInitialRun_def startInitialRun_def releaseInitialRunClaim_def
  by (auto split: option.split sum.split list.split intro!: att.keeps_steps att.keeps_onError attaching_status
      initialRun_attaching keeps_attaching [OF publishExisting_unchanged] keeps_attaching [OF publishRun_unchanged]
      keeps_attaching [OF provision_unchanged [OF assms]] keeps_attaching [OF cleanup_unchanged [OF assms]])

lemma HandleTaskCreated_attaching: "keeps attaching (HandleTaskCreated env event hasReply)"
  unfolding HandleTaskCreated_def ackDirect_def
  by (auto split: option.split intro!: att.keeps_steps attaching_status)

datatype TaskDelivery = DeliverApproved "TaskEvent option" bool | DeliverCreated "TaskEvent option" bool

fun deliverTask ::
    "WorkerEnv \<Rightarrow> Codec \<Rightarrow> (string \<Rightarrow> QueuedMetadata option) \<Rightarrow> TaskHandler \<Rightarrow> TaskDelivery \<Rightarrow> unit step" where
  "deliverTask env codec decode h (DeliverApproved ev reply) = HandleTaskApproved env codec decode h ev reply"
| "deliverTask env codec decode h (DeliverCreated ev reply) = HandleTaskCreated env ev reply"


section \<open>Sample deliveries\<close>

definition sampleRepo :: Repository where
  "sampleRepo =
     \<lparr>rp_ID = ''g1'', rp_ProjectID = ''p1'', rp_GitHubID = None, rp_Owner = ''o'', rp_Name = ''repo'', rp_FullName = ''o/repo'',
      rp_CloneURL = ''https://host/repo'', rp_DefaultBranch = ''main'', rp_Private = True, rp_ConnectionStatus = [],
      rp_LastSyncedAt = None, rp_WebhookSecret = None, rp_Settings = [], rp_CreatedAt = 0, rp_UpdatedAt = 0, rp_DeletedAt = None\<rparr>"

definition approvedWorker :: Worker where
  "approvedWorker =
     \<lparr>wk_tasks = [sampleWorkerTask ''approved''], wk_repos = [sampleRepo], wk_runs = [], wk_approvals = [],
      wk_messages = [], wk_workspaces = [], wk_log = [], wk_n = 0\<rparr>"

definition outageEnv :: "nat \<Rightarrow> nat \<Rightarrow> WorkerEnv" where
  "outageEnv a b = (sampleEnv False False)\<lparr>en_sqlFails := (\<lambda>n. a \<le> n \<and> n < b)\<rparr>"

definition sampleRuntime :: RuntimeProvider where
  "sampleRuntime =
     \<lparr>rt_CreateWorkspace = (\<lambda>r. return \<lparr>rs_ID = ''s1'', rs_WorkspaceID = ''w1'', rs_Status = ''ready'',
        rs_PreviewURL = [], rs_Provider = ''docker'', rs_WorktreePath = ''/w'', rs_CreatedAt = 0\<rparr>),
      rt_DestroyWorkspace = (\<lambda>i. return ())\<rparr>"

definition sampleTaskHandler :: TaskHandler where
  "sampleTaskHandler = WithRuntimeProvider (Some sampleRuntime) ''docker'' (TaskHandler_WithEventPublisher True NewTaskHandler)"

definition sampleTaskEvent :: "TaskEvent option" where
  "sampleTaskEvent = Some \<lparr>te_TaskID = ''t1'', te_Status = ''approved'', te_ProjectID = ''p1'', te_ActorID = ''u1'', te_Data = []\<rparr>"

definition sampleQueued :: "string \<Rightarrow> QueuedMetadata option" where
  "sampleQueued raw = Some \<lparr>qm_Trigger = [], qm_HandoffFromRunID = [], qm_Retry = []\<rparr>"

lemma sample_detached: "detached sampleTaskHandler"
  by (auto simp: detached_def sampleTaskHandler_def WithRuntimeProvider_def sampleRuntime_def intro: unch.keeps_return)


text \<open>
  A task may be left behind: when the database fails after the claim and the release of the claim fails
  with it, the task is running without a workspace and without a run, and the delivery that follows takes
  the claim for that of another delivery, acknowledges the event and does nothing.
\<close>

theorem claim_stuck:
  "let (e1, s1) = HandleTaskApproved (outageEnv 6 20) sampleCodec sampleQueued sampleTaskHandler sampleTaskEvent True approvedWorker;
       (e2, s2) = HandleTaskApproved (sampleEnv False False) sampleCodec sampleQueued sampleTaskHandler sampleTaskEvent True s1
   in e1 = Inl (SqlError ''begin initial run transaction'') \<and>
      wk_log s1 = [WorkspaceCreated ''g1'' ''agent/t1/-62135596800'', WorkspaceDestroyed ''s1''] \<and>
      e2 = Inr () \<and> map (\<lambda>t. (tk_Status t, tk_WorkspaceID t)) (wk_tasks s2) = [(''running'', None)] \<and>
      wk_runs s2 = [] \<and> wk_workspaces s2 = [] \<and> wk_log s2 = wk_log s1 @ [Acked]"
  by code_simp

section \<open>Repeated announcement\<close>

definition queuedFor :: "string \<Rightarrow> AgentRun \<Rightarrow> bool" where
  "queuedFor taskID r \<longleftrightarrow> ar_TaskID r = taskID \<and> ar_Status r = ''queued''"

definition announcement :: "string \<Rightarrow> string \<Rightarrow> string \<Rightarrow> WorkerAct" where
  "announcement runID taskID action = Published ''runs.triggered''
     [(''run_id'', AString runID), (''task_id'', AString taskID), (''status'', AString ''queued''), (''action'', AString action)]"

lemma queuedLoop_announces:
  assumes "\<forall>r \<in> set rs. isInitialQueuedRunMetadata decode (storedMetadata r) \<noteq> None"
    and "\<exists>r \<in> set rs. isInitialQueuedRunMetadata decode (storedMetadata r) = Some True"
    and "th_eventBus h" "\<forall>n. \<not> en_pubFails env n"
  shows "\<exists>r \<in> set rs. isInitialQueuedRunMetadata decode (storedMetadata r) = Some True \<and>
    queuedLoop env decode h taskID rs s = (Inr True, count (act (announcement (ar_ID r) taskID ''task_approved_retry'') s))"
  using assms
  by (induction rs)
    (auto simp: publishRunTriggered_def publish_def announcement_def andThen_def return_def split: option.splits)

text \<open>
  An announcement that failed is made up for: when a task has a queued initial run, a delivery of its
  approval that meets no failure announces one such run, acknowledges the event and leaves the tables as
  they are, whatever the status of the task.
\<close>

theorem approved_retry_announces:
  assumes "th_eventBus h"
    and "\<forall>n. \<not> en_sqlFails env n \<and> \<not> en_pubFails env n \<and> \<not> en_ackFails env n"
    and "\<forall>r \<in> set (wk_runs s). queuedFor (te_TaskID ev) r \<longrightarrow> isInitialQueuedRunMetadata decode (storedMetadata r) \<noteq> None"
    and "\<exists>r \<in> set (wk_runs s). queuedFor (te_TaskID ev) r \<and> isInitialQueuedRunMetadata decode (storedMetadata r) = Some True"
  shows "\<exists>r \<in> set (wk_runs s). queuedFor (te_TaskID ev) r \<and>
    isInitialQueuedRunMetadata decode (storedMetadata r) = Some True \<and>
    (let (e, t) = HandleTaskApproved env codec decode h (Some ev) True s
     in e = Inr () \<and> unchanged s t \<and>
        wk_log t = wk_log s @ [announcement (ar_ID r) (te_TaskID ev) ''task_approved_retry'', Acked])"
proof -
  have q: "set (queuedRuns (te_TaskID ev) s) = {r \<in> set (wk_runs s). queuedFor (te_TaskID ev) r}"
    by (simp add: queuedRuns_def queuedFor_def)
  obtain r where r: "r \<in> set (wk_runs s)" "queuedFor (te_TaskID ev) r"
      "isInitialQueuedRunMetadata decode (storedMetadata r) = Some True"
    and l: "queuedLoop env decode h (te_TaskID ev) (queuedRuns (te_TaskID ev) s) (count s) =
      (Inr True, count (act (announcement (ar_ID r) (te_TaskID ev) ''task_approved_retry'') (count s)))"
    using queuedLoop_announces [of "queuedRuns (te_TaskID ev) s" decode h env "te_TaskID ev" "count s"] assms q by auto
  have "HandleTaskApproved env codec decode h (Some ev) True s =
      (Inr (), count (act Acked (count (act (announcement (ar_ID r) (te_TaskID ev) ''task_approved_retry'') (count s)))))"
    using assms(1,2) l
    by (simp add: HandleTaskApproved_def publishExistingQueuedRun_def andThen_def query_def ackMessage_def)
  with r show ?thesis by (auto simp: unchanged_def count_def act_def)
qed

theorem approved_retry_announces_witness:
  "let s = approvedWorker\<lparr>wk_tasks := [sampleWorkerTask ''running''], wk_runs := [sampleRun ''r1'' ''queued'']\<rparr>
   in \<exists>r \<in> set (wk_runs s). announcement (ar_ID r) ''t1'' ''task_approved_retry'' \<in>
     set (wk_log (snd (HandleTaskApproved (sampleEnv False False) sampleCodec sampleQueued sampleTaskHandler sampleTaskEvent True s)))"
proof -
  let ?s = "approvedWorker\<lparr>wk_tasks := [sampleWorkerTask ''running''], wk_runs := [sampleRun ''r1'' ''queued'']\<rparr>"
  let ?ev = "\<lparr>te_TaskID = ''t1'', te_Status = ''approved'', te_ProjectID = ''p1'', te_ActorID = ''u1'', te_Data = []\<rparr>"
  have 1: "th_eventBus sampleTaskHandler" by code_simp
  have 2: "\<forall>n. \<not> en_sqlFails (sampleEnv False False) n \<and> \<not> en_pubFails (sampleEnv False False) n \<and> \<not> en_ackFails (sampleEnv False False) n"
    by (simp add: sampleEnv_def)
  have r: "wk_runs ?s = [sampleRun ''r1'' ''queued'']" by simp
  have i: "isInitialQueuedRunMetadata sampleQueued (storedMetadata (sampleRun ''r1'' ''queued'')) = Some True" by code_simp
  have q: "queuedFor ''t1'' (sampleRun ''r1'' ''queued'')" by code_simp
  have 3: "\<forall>r \<in> set (wk_runs ?s). queuedFor (te_TaskID ?ev) r \<longrightarrow> isInitialQueuedRunMetadata sampleQueued (storedMetadata r) \<noteq> None"
    and 4: "\<exists>r \<in> set (wk_runs ?s). queuedFor (te_TaskID ?ev) r \<and> isInitialQueuedRunMetadata sampleQueued (storedMetadata r) = Some True"
    using i q by (simp_all add: r)
  from approved_retry_announces [OF 1 2 3 4, of sampleCodec] show ?thesis
    by (auto simp: Let_def sampleTaskEvent_def split: prod.splits)
qed

end
