(* ===== verification/WorkStore.thy ===== *)
theory WorkStore
  imports AgentStore RepoProtocol GoHash
begin

text \<open>
  The durable store of work items and evidence (\<open>packages/db/work_store.go\<close>): a table keyed by the id of
  the item, and one keyed by item and head.

  The JSON of a payload is not modelled, a row holds the record; the columns beside it are.  The times the
  data base sets are not read by the code and left out.  \<open>env_fails\<close> says which statements fail, counted
  from the start.
\<close>

section \<open>Tables\<close>

record WorkRow =
  wk_Repository :: string
  wk_State :: WorkState
  wk_ClaimedBy :: "string option"
  wk_LeaseUntil :: "gotime option"
  wk_Payload :: WorkItem

record EvidenceRow =
  evr_BaseSHA :: string
  evr_Payload :: EvidenceBundle

record WorkDB =
  wd_items :: "(string \<times> WorkRow) list"
  wd_evidence :: "((string \<times> string) \<times> EvidenceRow) list"
  wd_ops :: nat

datatype work_error =
    WorkInvalid proto_error
  | WorkIDRequired
  | WorkPutFailed string
  | WorkGetFailed string
  | WorkNotFound string
  | EvidenceItemRequired
  | EvidenceBaseSHARequired
  | EvidenceHeadSHARequired
  | EvidenceKeyRequired
  | EvidencePutFailed string string
  | EvidenceGetFailed string string
  | EvidenceNotFound string string

definition nextWork :: "WorkDB \<Rightarrow> WorkDB" where
  "nextWork db = db\<lparr>wd_ops := Suc (wd_ops db)\<rparr>"

definition nullableString :: "string \<Rightarrow> string option" where
  "nullableString value = (if TrimSpace value = [] then None else Some value)"

definition workRow :: "WorkItem \<Rightarrow> WorkRow" where
  "workRow item =
     \<lparr>wk_Repository = w_Repository item, wk_State = w_State item, wk_ClaimedBy = nullableString (w_ClaimedBy item),
      wk_LeaseUntil = w_LeaseUntil item, wk_Payload = item\<rparr>"

section \<open>Operations\<close>

definition PutWorkItem :: "Env \<Rightarrow> WorkDB \<Rightarrow> WorkItem \<Rightarrow> work_error option \<times> WorkDB" where
  "PutWorkItem env db item =
     (case WorkItem_Validate item of
        Some e \<Rightarrow> (Some (WorkInvalid e), db)
      | None \<Rightarrow>
        if env_fails env (wd_ops db) then (Some (WorkPutFailed (w_ID item)), nextWork db)
        else (None, (nextWork db)\<lparr>wd_items := AList.update (w_ID item) (workRow item) (wd_items db)\<rparr>))"

definition GetWorkItem :: "Env \<Rightarrow> WorkDB \<Rightarrow> string \<Rightarrow> (work_error + WorkItem) \<times> WorkDB" where
  "GetWorkItem env db id0 =
     (let itemID = TrimSpace id0 in
      if itemID = [] then (Inl WorkIDRequired, db)
      else if env_fails env (wd_ops db) then (Inl (WorkGetFailed itemID), nextWork db)
      else (case map_of (wd_items db) itemID of
          None \<Rightarrow> (Inl (WorkNotFound itemID), nextWork db)
        | Some r \<Rightarrow> (Inr (wk_Payload r), nextWork db)))"

definition evidenceRow :: "EvidenceBundle \<Rightarrow> EvidenceRow" where
  "evidenceRow bundle = \<lparr>evr_BaseSHA = e_BaseSHA bundle, evr_Payload = bundle\<rparr>"

definition PutEvidenceBundle :: "Env \<Rightarrow> WorkDB \<Rightarrow> EvidenceBundle \<Rightarrow> work_error option \<times> WorkDB" where
  "PutEvidenceBundle env db bundle =
     (if TrimSpace (e_WorkItemID bundle) = [] then (Some EvidenceItemRequired, db)
      else if TrimSpace (e_BaseSHA bundle) = [] then (Some EvidenceBaseSHARequired, db)
      else if TrimSpace (e_HeadSHA bundle) = [] then (Some EvidenceHeadSHARequired, db)
      else if env_fails env (wd_ops db)
      then (Some (EvidencePutFailed (e_WorkItemID bundle) (e_HeadSHA bundle)), nextWork db)
      else (None, (nextWork db)\<lparr>wd_evidence :=
          AList.update (e_WorkItemID bundle, e_HeadSHA bundle) (evidenceRow bundle) (wd_evidence db)\<rparr>))"

definition GetEvidenceBundle :: "Env \<Rightarrow> WorkDB \<Rightarrow> string \<Rightarrow> string \<Rightarrow> (work_error + EvidenceBundle) \<times> WorkDB" where
  "GetEvidenceBundle env db workItemID0 headSHA0 =
     (let workItemID = TrimSpace workItemID0; headSHA = TrimSpace headSHA0 in
      if workItemID = [] \<or> headSHA = [] then (Inl EvidenceKeyRequired, db)
      else if env_fails env (wd_ops db) then (Inl (EvidenceGetFailed workItemID headSHA), nextWork db)
      else (case map_of (wd_evidence db) (workItemID, headSHA) of
          None \<Rightarrow> (Inl (EvidenceNotFound workItemID headSHA), nextWork db)
        | Some r \<Rightarrow> (Inr (evr_Payload r), nextWork db)))"

text \<open>\<open>rebindPostgres\<close>: numbered placeholders.\<close>

fun rebindFrom :: "nat \<Rightarrow> string \<Rightarrow> string" where
  "rebindFrom arg [] = []"
| "rebindFrom arg (c # q) =
     (if c = CHR ''?'' then CHR ''$'' # FormatUint (int arg) @ rebindFrom (Suc arg) q else c # rebindFrom arg q)"

definition rebindPostgres :: "string \<Rightarrow> string" where
  "rebindPostgres query = rebindFrom 1 query"

section \<open>The contract of the store\<close>

definition storedItem :: "WorkDB \<Rightarrow> string \<Rightarrow> WorkItem option" where
  "storedItem db i = map_option wk_Payload (map_of (wd_items db) i)"

definition storedEvidence :: "WorkDB \<Rightarrow> string \<times> string \<Rightarrow> EvidenceBundle option" where
  "storedEvidence db k = map_option evr_Payload (map_of (wd_evidence db) k)"

definition evidenceOK :: "EvidenceBundle \<Rightarrow> bool" where
  "evidenceOK e \<longleftrightarrow> TrimSpace (e_WorkItemID e) \<noteq> [] \<and> TrimSpace (e_BaseSHA e) \<noteq> [] \<and> TrimSpace (e_HeadSHA e) \<noteq> []"

interpretation workItems: keyed_store "PutWorkItem env" storedItem "\<lambda>w. WorkItem_Validate w = None" w_ID
  for env
  by unfold_locales (auto simp: PutWorkItem_def storedItem_def nextWork_def workRow_def update_conv' split: option.splits if_splits)

interpretation evidences: keyed_store "PutEvidenceBundle env" storedEvidence evidenceOK "\<lambda>e. (e_WorkItemID e, e_HeadSHA e)"
  for env
  by unfold_locales
    (auto simp: PutEvidenceBundle_def storedEvidence_def evidenceOK_def nextWork_def evidenceRow_def update_conv'
      split: if_splits)

lemma PutWorkItem_frame: "wd_evidence (snd (PutWorkItem env db item)) = wd_evidence db"
  and PutEvidenceBundle_frame: "wd_items (snd (PutEvidenceBundle env db bundle)) = wd_items db"
  by (auto simp: PutWorkItem_def PutEvidenceBundle_def nextWork_def split: option.splits)

text \<open>The columns say what the payload says.\<close>

definition columnsOK :: "WorkDB \<Rightarrow> bool" where
  "columnsOK db \<longleftrightarrow>
     (\<forall>(i, r) \<in> set (wd_items db). i = w_ID (wk_Payload r) \<and> r = workRow (wk_Payload r)) \<and>
     (\<forall>(k, r) \<in> set (wd_evidence db). k = (e_WorkItemID (evr_Payload r), e_HeadSHA (evr_Payload r)) \<and> r = evidenceRow (evr_Payload r))"

lemma set_update_subset: "set (AList.update k v xs) \<subseteq> insert (k, v) (set xs)"
  by (induction xs) auto

lemma PutWorkItem_columns: "columnsOK db \<Longrightarrow> columnsOK (snd (PutWorkItem env db item))"
  using set_update_subset [of "w_ID item" "workRow item" "wd_items db"]
  by (fastforce simp: columnsOK_def PutWorkItem_def nextWork_def workRow_def split: option.splits)

lemma PutEvidenceBundle_columns: "columnsOK db \<Longrightarrow> columnsOK (snd (PutEvidenceBundle env db bundle))"
  using set_update_subset [of "(e_WorkItemID bundle, e_HeadSHA bundle)" "evidenceRow bundle" "wd_evidence db"]
  by (fastforce simp: columnsOK_def PutEvidenceBundle_def nextWork_def evidenceRow_def)

text \<open>
  What was written is read back: a work item or an evidence bundle whose key has no surrounding white
  space is returned as it was written, whatever was in the tables, and one with white space is not found.
\<close>

theorem work_roundtrip:
  assumes "PutWorkItem env db item = (None, db1)" and "PutEvidenceBundle env db1 bundle = (None, db2)"
    and "\<forall>n. n \<ge> wd_ops db2 \<longrightarrow> \<not> env_fails env n"
    and "TrimSpace (w_ID item) = w_ID item"
  shows "fst (GetWorkItem env db2 (w_ID item)) = Inr item \<and>
    (TrimSpace (e_WorkItemID bundle) = e_WorkItemID bundle \<and> TrimSpace (e_HeadSHA bundle) = e_HeadSHA bundle \<longrightarrow>
      fst (GetEvidenceBundle env db2 (e_WorkItemID bundle) (e_HeadSHA bundle)) = Inr bundle)"
proof -
  have i: "storedItem db2 (w_ID item) = Some item"
    using workItems.put_lookup [OF assms(1), of "w_ID item"] PutEvidenceBundle_frame [of env db1 "bundle"] assms(2)
    by (simp add: storedItem_def)
  have e: "storedEvidence db2 (e_WorkItemID bundle, e_HeadSHA bundle) = Some bundle"
    using evidences.put_lookup [OF assms(2)] by simp
  have v: "WorkItem_Validate item = None" "evidenceOK bundle"
    using workItems.put_valid [OF assms(1)] evidences.put_valid [OF assms(2)] by simp_all
  then have "TrimSpace (w_ID item) \<noteq> []" by (simp add: WorkItem_Validate_def)
  with i e v assms(3,4) show ?thesis
    by (auto simp: GetWorkItem_def GetEvidenceBundle_def storedItem_def storedEvidence_def evidenceOK_def Let_def
        split: option.splits)
qed

definition sampleStoredItem :: WorkItem where
  "sampleStoredItem =
     \<lparr>w_ID = ''wi'', w_Repository = ''r'', w_Objective = ''o'', w_AcceptanceCriteria = [], w_ParentID = [],
      w_DiscoveredFromID = [], w_DependsOn = [], w_OwnershipPaths = [''src''], w_Risk = RiskLow, w_Cost = 1,
      w_RequiredGates = [], w_BaseSHA = ''base'', w_ClaimedBy = [], w_LeaseUntil = None, w_State = WorkReady\<rparr>"

definition sampleBundle :: EvidenceBundle where
  "sampleBundle = \<lparr>e_WorkItemID = ''wi'', e_BaseSHA = ''base'', e_HeadSHA = ''abc'', e_Gates = []\<rparr>"

definition workingEnv :: Env where
  "workingEnv = \<lparr>env_fails = (\<lambda>_. False), env_clock = int, env_dbclock = int\<rparr>"

definition emptyWorkDB :: WorkDB where
  "emptyWorkDB = \<lparr>wd_items = [], wd_evidence = [], wd_ops = 0\<rparr>"

theorem work_roundtrip_witness:
  "fst (GetWorkItem workingEnv
      (snd (PutEvidenceBundle workingEnv (snd (PutWorkItem workingEnv emptyWorkDB sampleStoredItem)) sampleBundle)) ''wi'')
    = Inr sampleStoredItem"
proof -
  let ?p = "PutWorkItem workingEnv emptyWorkDB sampleStoredItem"
  let ?e = "PutEvidenceBundle workingEnv (snd ?p) sampleBundle"
  have f: "fst ?p = None" "fst ?e = None" by code_simp+
  have p: "?p = (None, snd ?p)" and e: "?e = (None, snd ?e)" using f by (metis prod.collapse)+
  have n: "\<forall>n. n \<ge> wd_ops (snd ?e) \<longrightarrow> \<not> env_fails workingEnv n" by (simp add: workingEnv_def)
  have t: "TrimSpace (w_ID sampleStoredItem) = w_ID sampleStoredItem" by code_simp
  have i: "w_ID sampleStoredItem = ''wi''" by (simp add: sampleStoredItem_def)
  from work_roundtrip [OF p e n t] show ?thesis by (simp add: i)
qed

end
