(* ===== verification/GoStep.thy ===== *)
theory GoStep
  imports GoPrelude
begin

text \<open>
  Steps of Go code on a state: a call gives an error or a value and the state after it.  \<open>bindE\<close> is the
  \<open>if err != nil\<close> between two calls.
\<close>

type_synonym ('s, 'e, 'a) gostep = "'s \<Rightarrow> ('e + 'a) \<times> 's"

definition retE :: "'a \<Rightarrow> ('s, 'e, 'a) gostep" where
  "retE x s = (Inr x, s)"

definition failE :: "'e \<Rightarrow> ('s, 'e, 'a) gostep" where
  "failE e s = (Inl e, s)"

definition bindE :: "('s, 'e, 'a) gostep \<Rightarrow> ('a \<Rightarrow> ('s, 'e, 'b) gostep) \<Rightarrow> ('s, 'e, 'b) gostep" where
  "bindE m k s = (case m s of (Inl e, s1) \<Rightarrow> (Inl e, s1) | (Inr x, s1) \<Rightarrow> k x s1)"

text \<open>A guard: \<open>if cond { return err }\<close>.\<close>

definition guardE :: "bool \<Rightarrow> 'e \<Rightarrow> ('s, 'e, unit) gostep" where
  "guardE bad e s = (if bad then Inl e else Inr (), s)"

lemma bindE_Inr:
  "bindE m k s = (Inr y, t) \<longleftrightarrow> (\<exists>x s1. m s = (Inr x, s1) \<and> k x s1 = (Inr y, t))"
  by (cases "m s"; cases "fst (m s)") (auto simp: bindE_def)

lemma bindE_Inl:
  "bindE m k s = (Inl e, t) \<longleftrightarrow> m s = (Inl e, t) \<or> (\<exists>x s1. m s = (Inr x, s1) \<and> k x s1 = (Inl e, t))"
  by (cases "m s"; cases "fst (m s)") (auto simp: bindE_def)

lemma retE_results [simp]: "retE x s = (Inr y, t) \<longleftrightarrow> x = y \<and> s = t" "\<not> retE x s = (Inl e, t)"
  by (auto simp: retE_def)

lemma failE_results [simp]: "failE e s = (Inl f, t) \<longleftrightarrow> e = f \<and> s = t" "\<not> failE e s = (Inr x, t)"
  by (auto simp: failE_def)

lemma guardE_results [simp]:
  "guardE bad e s = (Inr u, t) \<longleftrightarrow> \<not> bad \<and> s = t"
  "guardE bad e s = (Inl f, t) \<longleftrightarrow> bad \<and> e = f \<and> s = t"
  by (auto simp: guardE_def)

text \<open>What every step leaves a state in relation to the state before.\<close>

definition stays :: "('s \<Rightarrow> 's \<Rightarrow> bool) \<Rightarrow> ('s, 'e, 'a) gostep \<Rightarrow> bool" where
  "stays R m \<longleftrightarrow> (\<forall>s. R s (snd (m s)))"

locale preorder_steps =
  fixes R :: "'s \<Rightarrow> 's \<Rightarrow> bool"
  assumes refl: "R s s" and trans: "R s t \<Longrightarrow> R t u \<Longrightarrow> R s u"
begin

lemma stays_retE: "stays R (retE x)" and stays_failE: "stays R (failE e)" and stays_guardE: "stays R (guardE b e)"
  by (simp_all add: stays_def retE_def failE_def guardE_def refl)

lemma stays_bindE:
  assumes "stays R m" "\<And>x. stays R (k x)"
  shows "stays R (bindE m k)"
  unfolding stays_def
proof
  fix s
  obtain r t where m: "m s = (r, t)" by fastforce
  with assms(1) have st: "R s t" unfolding stays_def by (metis snd_conv)
  show "R s (snd (bindE m k s))"
  proof (cases r)
    case (Inl e)
    with m st show ?thesis by (simp add: bindE_def)
  next
    case (Inr x)
    have "R t (snd (k x t))" using assms(2) by (simp add: stays_def)
    with st have "R s (snd (k x t))" by (rule trans)
    with m Inr show ?thesis by (simp add: bindE_def)
  qed
qed

lemmas stays_steps = stays_retE stays_failE stays_guardE stays_bindE

end

end
