(* ===== verification/Verifier.thy ===== *)
theory Verifier
  imports WorkStore GoStep
begin

text \<open>
  The verification of a work item at a candidate head (\<open>packages/verifier/verifier.go\<close>): the gates the item
  and its changed paths require are run in the workspace, with the head and the cleanness of the workspace
  checked around each, and their evidence and the new state of the item are stored.

  The runtime is a record of its two functions on a world of any type; the decoding of \<open>devplane.yaml\<close> is
  an argument.  What is run and stored is kept in a log.
\<close>

section \<open>Requests, commands and results\<close>

record Command =
  cd_Command :: string
  cd_Args :: "string list"
  cd_Dir :: string
  cd_Env :: "string \<rightharpoonup> string"
  cd_Timeout :: duration
  cd_UnsafeShell :: bool

record CommandResult =
  cs_Stdout :: string
  cs_Stderr :: string
  cs_ExitCode :: int
  cs_Duration :: duration

record 'w VerifyRuntime =
  vr_ReadFile :: "string \<Rightarrow> string \<Rightarrow> 'w \<Rightarrow> (string + string) \<times> 'w"
  vr_ExecuteCommand :: "string \<Rightarrow> Command \<Rightarrow> 'w \<Rightarrow> (CommandResult option \<times> string option) \<times> 'w"

record VerifyRequest =
  vq_SessionID :: string
  vq_WorkItem :: WorkItem
  vq_CandidateHead :: string
  vq_ChangedPaths :: "string list"

record VerifyResult =
  vs_Evidence :: EvidenceBundle
  vs_PendingGates :: "string list"
  vs_NextState :: WorkState

text \<open>A verifier: its runtime, and whether it has a store.\<close>

record 'w Verifier =
  ve_runtime :: "'w VerifyRuntime option"
  ve_store :: bool

datatype verify_error =
    RuntimeRequired
  | StoreRequired
  | SessionIDRequired
  | HeadRequired
  | ItemInvalid proto_error
  | ReadConfigFailed string
  | ConfigUndecodable string
  | ConfigInvalid proto_error
  | UnknownGate string
  | HeadUnreadable string
  | HeadUnread
  | HeadChanged string string
  | HeadMismatch string string
  | StatusUnreadable string
  | StatusUnread
  | Uncommitted
  | EvidenceUnsaved work_error
  | ItemUnsaved work_error
  | GateRunFailed string VerifyResult

datatype VerifyAct =
    Ran Command "CommandResult option \<times> string option"
  | Saved EvidenceBundle
  | Moved WorkItem

record 'w VerifyWorld =
  vw_world :: 'w
  vw_db :: WorkDB
  vw_log :: "VerifyAct list"

type_synonym ('w, 'a) vstep = "('w VerifyWorld, verify_error, 'a) gostep"

definition Verifier_New :: "'w VerifyRuntime option \<Rightarrow> bool \<Rightarrow> 'w Verifier" where
  "Verifier_New runtime store = \<lparr>ve_runtime = runtime, ve_store = store\<rparr>"

section \<open>Gates\<close>

definition defaultProfileTimeout :: duration where
  "defaultProfileTimeout = 300000000000"

definition maxProfileTimeout :: duration where
  "maxProfileTimeout = 1800000000000"

definition maxEvidenceOutput :: int where
  "maxEvidenceOutput = 50000"

definition profileTimeout :: "int \<Rightarrow> duration" where
  "profileTimeout seconds =
     (if seconds \<le> 0 then defaultProfileTimeout
      else (let timeout = i64 (seconds * 1000000000)
            in if timeout > maxProfileTimeout then maxProfileTimeout else timeout))"

definition evidenceOutput :: "CommandResult option \<Rightarrow> string option \<Rightarrow> string" where
  "evidenceOutput result err =
     (let outs = (case result of
            None \<Rightarrow> []
          | Some r \<Rightarrow> filter (\<lambda>x. x \<noteq> []) [TrimSpace (cs_Stdout r), TrimSpace (cs_Stderr r)]);
          parts = outs @ (case err of None \<Rightarrow> [] | Some e \<Rightarrow> [''error: '' @ e]);
          out = join_with [CHR 0x0A] parts
      in if int (length out) > maxEvidenceOutput then take (nat maxEvidenceOutput) out @ [CHR 0x0A] @ ''... [output truncated]''
         else out)"

definition appendUnique :: "string list \<Rightarrow> string \<Rightarrow> string list" where
  "appendUnique required gate0 =
     (let gate = TrimSpace gate0 in if gate = [] \<or> gate \<in> set required then required else required @ [gate])"

fun splitGates :: "Config \<Rightarrow> string list \<Rightarrow> string list \<Rightarrow> string list \<Rightarrow> verify_error + string list \<times> string list" where
  "splitGates cfg [] executable pending = Inr (executable, pending)"
| "splitGates cfg (gate # gates) executable pending =
     (if gate = GateIndependentReview \<or> gate = GateHumanApproval
      then splitGates cfg gates executable (pending @ [gate])
      else if map_of (c_Verification cfg) gate = None then Inl (UnknownGate gate)
      else splitGates cfg gates (executable @ [gate]) pending)"

definition resolveGates :: "Config \<Rightarrow> string list \<Rightarrow> string list \<Rightarrow> verify_error + string list \<times> string list" where
  "resolveGates cfg workGates changedPaths =
     splitGates cfg (foldl appendUnique [] (workGates @ RequiredGatesForPaths cfg changedPaths)) [] []"

section \<open>Checks of the workspace\<close>

definition runCommand :: "'w VerifyRuntime \<Rightarrow> string \<Rightarrow> Command \<Rightarrow> ('w, CommandResult option \<times> string option) vstep" where
  "runCommand rt session cmd s =
     (let (r, w) = vr_ExecuteCommand rt session cmd (vw_world s)
      in (Inr r, s\<lparr>vw_world := w, vw_log := vw_log s @ [Ran cmd r]\<rparr>))"

definition gitCommand :: "string list \<Rightarrow> Command" where
  "gitCommand args =
     \<lparr>cd_Command = [], cd_Args = ''git'' # args, cd_Dir = [], cd_Env = Map.empty, cd_Timeout = 30000000000,
      cd_UnsafeShell = False\<rparr>"

definition headCommand :: Command where
  "headCommand = gitCommand [''rev-parse'', ''HEAD'']"

definition statusCommand :: Command where
  "statusCommand = gitCommand [''status'', ''--porcelain=v1'', ''--untracked-files=all'']"

definition assertHead :: "'w VerifyRuntime \<Rightarrow> string \<Rightarrow> string \<Rightarrow> bool \<Rightarrow> ('w, unit) vstep" where
  "assertHead rt session candidate duringVerification =
     bindE (runCommand rt session headCommand) (\<lambda>(result, err).
       case err of
         Some e \<Rightarrow> failE (HeadUnreadable e)
       | None \<Rightarrow>
         (case result of
            None \<Rightarrow> failE HeadUnread
          | Some r \<Rightarrow>
            if cs_ExitCode r \<noteq> 0 then failE HeadUnread
            else if TrimSpace (cs_Stdout r) = candidate then retE ()
            else if duringVerification then failE (HeadChanged candidate (TrimSpace (cs_Stdout r)))
            else failE (HeadMismatch candidate (TrimSpace (cs_Stdout r)))))"

definition assertClean :: "'w VerifyRuntime \<Rightarrow> string \<Rightarrow> ('w, unit) vstep" where
  "assertClean rt session =
     bindE (runCommand rt session statusCommand) (\<lambda>(result, err).
       case err of
         Some e \<Rightarrow> failE (StatusUnreadable e)
       | None \<Rightarrow>
         (case result of
            None \<Rightarrow> failE StatusUnread
          | Some r \<Rightarrow>
            if cs_ExitCode r \<noteq> 0 then failE StatusUnread
            else if TrimSpace (cs_Stdout r) \<noteq> [] then failE Uncommitted
            else retE ()))"

section \<open>Verification\<close>

definition saveEvidence :: "Env \<Rightarrow> EvidenceBundle \<Rightarrow> ('w, unit) vstep" where
  "saveEvidence env e s =
     (let (r, db) = PutEvidenceBundle env (vw_db s) e
      in case r of
           Some err \<Rightarrow> (Inl (EvidenceUnsaved err), s\<lparr>vw_db := db\<rparr>)
         | None \<Rightarrow> (Inr (), s\<lparr>vw_db := db, vw_log := vw_log s @ [Saved e]\<rparr>))"

definition moveItem :: "Env \<Rightarrow> WorkItem \<Rightarrow> ('w, unit) vstep" where
  "moveItem env item s =
     (let (r, db) = PutWorkItem env (vw_db s) item
      in case r of
           Some err \<Rightarrow> (Inl (ItemUnsaved err), s\<lparr>vw_db := db\<rparr>)
         | None \<Rightarrow> (Inr (), s\<lparr>vw_db := db, vw_log := vw_log s @ [Moved item]\<rparr>))"

definition profileOf :: "Config \<Rightarrow> string \<Rightarrow> VerificationProfile" where
  "profileOf cfg gate =
     (case map_of (c_Verification cfg) gate of
        None \<Rightarrow> \<lparr>vp_Command = [], vp_TimeoutSeconds = 0\<rparr> | Some p \<Rightarrow> p)"

definition gateCommand :: "Config \<Rightarrow> string \<Rightarrow> Command" where
  "gateCommand cfg gate =
     \<lparr>cd_Command = vp_Command (profileOf cfg gate), cd_Args = [], cd_Dir = [], cd_Env = Map.empty,
      cd_Timeout = profileTimeout (vp_TimeoutSeconds (profileOf cfg gate)), cd_UnsafeShell = True\<rparr>"

definition gatePassed :: "CommandResult option \<times> string option \<Rightarrow> bool" where
  "gatePassed r \<longleftrightarrow> snd r = None \<and> (case fst r of None \<Rightarrow> False | Some c \<Rightarrow> cs_ExitCode c = 0)"

definition gateEvidence :: "Config \<Rightarrow> string \<Rightarrow> CommandResult option \<times> string option \<Rightarrow> GateEvidence" where
  "gateEvidence cfg gate r =
     \<lparr>g_Name = gate, g_Status = (if gatePassed r then GatePassed else GateFailed),
      g_Command = vp_Command (profileOf cfg gate), g_Output = evidenceOutput (fst r) (snd r)\<rparr>"

definition addEvidence :: "VerifyResult \<Rightarrow> GateEvidence \<Rightarrow> VerifyResult" where
  "addEvidence result g = result\<lparr>vs_Evidence := (vs_Evidence result)\<lparr>e_Gates := e_Gates (vs_Evidence result) @ [g]\<rparr>\<rparr>"

fun gateLoop ::
    "Env \<Rightarrow> 'w VerifyRuntime \<Rightarrow> Config \<Rightarrow> string \<Rightarrow> string \<Rightarrow> string list \<Rightarrow> VerifyResult \<Rightarrow> ('w, VerifyResult) vstep" where
  "gateLoop env rt cfg session head [] result = retE result"
| "gateLoop env rt cfg session head (gate # gates) result =
     bindE (runCommand rt session (gateCommand cfg gate)) (\<lambda>r.
     bindE (assertHead rt session head True) (\<lambda>_.
     bindE (assertClean rt session) (\<lambda>_.
       let result1 = addEvidence result (gateEvidence cfg gate r)
       in if \<not> gatePassed r
          then bindE (saveEvidence env (vs_Evidence result1)) (\<lambda>_. failE (GateRunFailed gate result1))
          else gateLoop env rt cfg session head gates result1)))"

definition parseConfig :: "(string \<Rightarrow> Config option) \<Rightarrow> string \<Rightarrow> ('w, Config) vstep" where
  "parseConfig decode bytes =
     (case decode bytes of
        None \<Rightarrow> failE (ConfigUndecodable bytes)
      | Some cfg \<Rightarrow> (case Config_Validate cfg of Some e \<Rightarrow> failE (ConfigInvalid e) | None \<Rightarrow> retE cfg))"

definition readConfig :: "(string \<Rightarrow> Config option) \<Rightarrow> 'w VerifyRuntime \<Rightarrow> string \<Rightarrow> ('w, Config) vstep" where
  "readConfig decode rt session s =
     (case vr_ReadFile rt session ''devplane.yaml'' (vw_world s) of
        (Inl e, w) \<Rightarrow> (Inl (ReadConfigFailed e), s\<lparr>vw_world := w\<rparr>)
      | (Inr bytes, w) \<Rightarrow> parseConfig decode bytes (s\<lparr>vw_world := w\<rparr>))"

definition finishVerify :: "Env \<Rightarrow> WorkItem \<Rightarrow> VerifyResult \<Rightarrow> ('w, VerifyResult) vstep" where
  "finishVerify env item result =
     (let nextState = (if vs_PendingGates result \<noteq> [] then WorkReviewing else WorkReadyToLand)
      in bindE (if e_Gates (vs_Evidence result) \<noteq> [] then saveEvidence env (vs_Evidence result) else retE ()) (\<lambda>_.
         bindE (moveItem env (item\<lparr>w_State := nextState, w_ClaimedBy := [], w_LeaseUntil := None\<rparr>)) (\<lambda>_.
         retE (result\<lparr>vs_NextState := nextState\<rparr>))))"

definition verifySteps ::
    "Env \<Rightarrow> (string \<Rightarrow> Config option) \<Rightarrow> 'w VerifyRuntime \<Rightarrow> VerifyRequest \<Rightarrow> ('w, VerifyResult) vstep" where
  "verifySteps env decode rt req =
     (let head = TrimSpace (vq_CandidateHead req); session = vq_SessionID req; item = vq_WorkItem req in
      bindE (readConfig decode rt session) (\<lambda>cfg.
        case resolveGates cfg (w_RequiredGates item) (vq_ChangedPaths req) of
          Inl e \<Rightarrow> failE e
        | Inr (executable, pending) \<Rightarrow>
          bindE (assertHead rt session head False) (\<lambda>_.
          bindE (assertClean rt session) (\<lambda>_.
          bindE (gateLoop env rt cfg session head executable
              \<lparr>vs_Evidence = \<lparr>e_WorkItemID = w_ID item, e_BaseSHA = w_BaseSHA item, e_HeadSHA = head, e_Gates = []\<rparr>,
               vs_PendingGates = pending, vs_NextState = WorkOther []\<rparr>)
            (finishVerify env item)))))"

definition Verify ::
    "Env \<Rightarrow> (string \<Rightarrow> Config option) \<Rightarrow> 'w Verifier option \<Rightarrow> VerifyRequest \<Rightarrow> ('w, VerifyResult) vstep" where
  "Verify env decode v req =
     (case (case v of None \<Rightarrow> None | Some x \<Rightarrow> ve_runtime x) of
        None \<Rightarrow> failE RuntimeRequired
      | Some rt \<Rightarrow>
        bindE (guardE (case v of None \<Rightarrow> True | Some x \<Rightarrow> \<not> ve_store x) StoreRequired) (\<lambda>_.
        bindE (guardE (TrimSpace (vq_SessionID req) = []) SessionIDRequired) (\<lambda>_.
        bindE (guardE (TrimSpace (vq_CandidateHead req) = []) HeadRequired) (\<lambda>_.
          case WorkItem_Validate (vq_WorkItem req) of
            Some e \<Rightarrow> failE (ItemInvalid e)
          | None \<Rightarrow> verifySteps env decode rt req))))"

section \<open>The required gates\<close>

definition reviewGates :: "string set" where
  "reviewGates = {GateIndependentReview, GateHumanApproval}"

lemma foldl_appendUnique:
  "distinct acc \<Longrightarrow> distinct (foldl appendUnique acc gates) \<and>
     set (foldl appendUnique acc gates) = set acc \<union> (TrimSpace ` set gates - {[]})"
  by (induction gates arbitrary: acc) (auto simp: appendUnique_def Let_def)

lemma splitGates_Inr:
  "splitGates cfg gates ex pend = Inr (ex', pend') \<Longrightarrow>
     ex' = ex @ filter (\<lambda>g. g \<notin> reviewGates) gates \<and> pend' = pend @ filter (\<lambda>g. g \<in> reviewGates) gates \<and>
     (\<forall>g \<in> set gates - reviewGates. map_of (c_Verification cfg) g \<noteq> None)"
  by (induction cfg gates ex pend rule: splitGates.induct) (auto simp: reviewGates_def split: if_splits)

lemma splitGates_Inl:
  "splitGates cfg gates ex pend = Inl e \<Longrightarrow>
     \<exists>g \<in> set gates - reviewGates. map_of (c_Verification cfg) g = None \<and> e = UnknownGate g"
  by (induction cfg gates ex pend rule: splitGates.induct) (auto simp: reviewGates_def split: if_splits)

definition requiredGates :: "Config \<Rightarrow> string list \<Rightarrow> string list \<Rightarrow> string set" where
  "requiredGates cfg workGates changedPaths =
     TrimSpace ` (set workGates \<union> set (RequiredGatesForPaths cfg changedPaths)) - {[]}"

text \<open>
  The gates of a verification: each gate that the item or a risk rule of its changed paths requires is
  run once if it has a profile, or left pending if it is a review, and a gate that is neither is an error.
\<close>

theorem resolveGates_spec:
  "case resolveGates cfg workGates changedPaths of
     Inl e \<Rightarrow> \<exists>g \<in> requiredGates cfg workGates changedPaths - reviewGates.
       map_of (c_Verification cfg) g = None \<and> e = UnknownGate g
   | Inr (executable, pending) \<Rightarrow>
       distinct (executable @ pending) \<and>
       set executable = requiredGates cfg workGates changedPaths - reviewGates \<and>
       set pending = requiredGates cfg workGates changedPaths \<inter> reviewGates \<and>
       set executable \<subseteq> set (map fst (c_Verification cfg))"
proof -
  let ?gs = "foldl appendUnique [] (workGates @ RequiredGatesForPaths cfg changedPaths)"
  have d: "distinct ?gs" and g: "set ?gs = requiredGates cfg workGates changedPaths"
    using foldl_appendUnique [of "[]" "workGates @ RequiredGatesForPaths cfg changedPaths"]
    by (simp_all add: requiredGates_def image_Un)
  show ?thesis
  proof (cases "resolveGates cfg workGates changedPaths")
    case (Inl e)
    then have "splitGates cfg ?gs [] [] = Inl e" by (simp add: resolveGates_def)
    from splitGates_Inl [OF this] g show ?thesis using Inl by simp
  next
    case (Inr r)
    then obtain ex pend where r: "r = (ex, pend)" and "splitGates cfg ?gs [] [] = Inr (ex, pend)"
      by (cases r) (simp add: resolveGates_def)
    from splitGates_Inr [OF this(2)] have ex: "ex = filter (\<lambda>g. g \<notin> reviewGates) ?gs"
      and pend: "pend = filter (\<lambda>g. g \<in> reviewGates) ?gs"
      and k: "\<forall>g \<in> set ?gs - reviewGates. map_of (c_Verification cfg) g \<noteq> None" by simp_all
    have "set ex \<subseteq> fst ` set (c_Verification cfg)"
      using ex k by (force simp: map_of_eq_None_iff)
    then show ?thesis using Inr r ex pend d g by auto
  qed
qed

section \<open>A successful verification\<close>

definition headOK :: "string \<Rightarrow> VerifyAct \<Rightarrow> bool" where
  "headOK head a \<longleftrightarrow>
     (\<exists>r. a = Ran headCommand (Some r, None) \<and> cs_ExitCode r = 0 \<and> TrimSpace (cs_Stdout r) = head)"

definition cleanOK :: "VerifyAct \<Rightarrow> bool" where
  "cleanOK a \<longleftrightarrow>
     (\<exists>r. a = Ran statusCommand (Some r, None) \<and> cs_ExitCode r = 0 \<and> TrimSpace (cs_Stdout r) = [])"

text \<open>Each gate is run and passes, and the head and the cleanness are checked after it.\<close>

fun checkedGates :: "Config \<Rightarrow> string \<Rightarrow> string list \<Rightarrow> VerifyAct list \<Rightarrow> bool" where
  "checkedGates cfg head [] l \<longleftrightarrow> l = []"
| "checkedGates cfg head (gate # gates) l \<longleftrightarrow>
     (\<exists>r a b l'. l = Ran (gateCommand cfg gate) r # a # b # l' \<and> gatePassed r \<and> headOK head a \<and> cleanOK b \<and>
        checkedGates cfg head gates l')"

lemma runCommand_Inr:
  "runCommand rt session cmd s = (Inr r, t) \<Longrightarrow> vw_log t = vw_log s @ [Ran cmd r] \<and> vw_db t = vw_db s"
  by (auto simp: runCommand_def split: prod.splits)

lemma assertHead_Inr:
  assumes "assertHead rt session head during s = (Inr u, t)"
  shows "\<exists>a. vw_log t = vw_log s @ [a] \<and> headOK head a \<and> vw_db t = vw_db s"
proof -
  from assms obtain r e s1 where r: "runCommand rt session headCommand s = (Inr (r, e), s1)"
    and "(case e of Some e \<Rightarrow> failE (HeadUnreadable e) | None \<Rightarrow> (case r of None \<Rightarrow> failE HeadUnread
          | Some r \<Rightarrow> if cs_ExitCode r \<noteq> 0 then failE HeadUnread else if TrimSpace (cs_Stdout r) = head then retE ()
            else if during then failE (HeadChanged head (TrimSpace (cs_Stdout r)))
            else failE (HeadMismatch head (TrimSpace (cs_Stdout r))))) s1 = (Inr u, t)"
    by (auto simp: assertHead_def bindE_Inr)
  then show ?thesis using runCommand_Inr [OF r]
    by (auto simp: headOK_def split: option.splits if_splits)
qed

lemma assertClean_Inr:
  assumes "assertClean rt session s = (Inr u, t)"
  shows "\<exists>a. vw_log t = vw_log s @ [a] \<and> cleanOK a \<and> vw_db t = vw_db s"
proof -
  from assms obtain r e s1 where r: "runCommand rt session statusCommand s = (Inr (r, e), s1)"
    and "(case e of Some e \<Rightarrow> failE (StatusUnreadable e) | None \<Rightarrow> (case r of None \<Rightarrow> failE StatusUnread
          | Some r \<Rightarrow> if cs_ExitCode r \<noteq> 0 then failE StatusUnread
            else if TrimSpace (cs_Stdout r) \<noteq> [] then failE Uncommitted else retE ())) s1 = (Inr u, t)"
    by (auto simp: assertClean_def bindE_Inr)
  then show ?thesis using runCommand_Inr [OF r]
    by (auto simp: cleanOK_def split: option.splits if_splits)
qed

lemma gateLoop_Inr:
  assumes "gateLoop env rt cfg session head gates result s = (Inr result', t)"
  shows "\<exists>l gs. vw_log t = vw_log s @ l \<and> checkedGates cfg head gates l \<and> vw_db t = vw_db s \<and>
    map g_Name gs = gates \<and> (\<forall>g \<in> set gs. g_Status g = GatePassed) \<and>
    result' = result\<lparr>vs_Evidence := (vs_Evidence result)\<lparr>e_Gates := e_Gates (vs_Evidence result) @ gs\<rparr>\<rparr>"
  using assms
proof (induction gates arbitrary: result s)
  case Nil
  then show ?case by auto
next
  case (Cons gate gates)
  from Cons.prems obtain r s1 u s2 u' s3 where
    r: "runCommand rt session (gateCommand cfg gate) s = (Inr r, s1)"
    and h: "assertHead rt session head True s1 = (Inr u, s2)"
    and c: "assertClean rt session s2 = (Inr u', s3)"
    and p: "gatePassed r"
    and n: "gateLoop env rt cfg session head gates (addEvidence result (gateEvidence cfg gate r)) s3 = (Inr result', t)"
    by (auto simp: bindE_Inr Let_def split: if_splits)
  from assertHead_Inr [OF h] assertClean_Inr [OF c] runCommand_Inr [OF r] obtain a b where
    l: "vw_log s3 = vw_log s @ [Ran (gateCommand cfg gate) r, a, b]" "headOK head a" "cleanOK b" "vw_db s3 = vw_db s"
    by auto
  from Cons.IH [OF n] obtain l gs where
    m: "vw_log t = vw_log s3 @ l" "checkedGates cfg head gates l" "vw_db t = vw_db s3"
    and gs: "map g_Name gs = gates" "\<forall>g \<in> set gs. g_Status g = GatePassed"
    and res: "result' = (addEvidence result (gateEvidence cfg gate r))\<lparr>vs_Evidence :=
        (vs_Evidence (addEvidence result (gateEvidence cfg gate r)))\<lparr>e_Gates :=
          e_Gates (vs_Evidence (addEvidence result (gateEvidence cfg gate r))) @ gs\<rparr>\<rparr>"
    by blast
  let ?l = "Ran (gateCommand cfg gate) r # a # b # l"
  have "vw_log t = vw_log s @ ?l" using l(1) m(1) by simp
  moreover have "checkedGates cfg head (gate # gates) ?l" using p l m(2) by simp
  moreover have "map g_Name (gateEvidence cfg gate r # gs) = gate # gates" using gs(1) by (simp add: gateEvidence_def)
  moreover have "\<forall>g \<in> set (gateEvidence cfg gate r # gs). g_Status g = GatePassed"
    using gs(2) p by (simp add: gateEvidence_def)
  moreover have "result' = result\<lparr>vs_Evidence := (vs_Evidence result)\<lparr>e_Gates :=
      e_Gates (vs_Evidence result) @ gateEvidence cfg gate r # gs\<rparr>\<rparr>"
    unfolding res by (simp add: addEvidence_def)
  ultimately show ?case using l(4) m(3) by metis
qed

lemma saveEvidence_Inr:
  "saveEvidence env ev s = (Inr u, t) \<Longrightarrow>
     vw_log t = vw_log s @ [Saved ev] \<and> wd_items (vw_db t) = wd_items (vw_db s) \<and>
     storedEvidence (vw_db t) (e_WorkItemID ev, e_HeadSHA ev) = Some ev"
  using evidences.put_lookup [of env "vw_db s" ev] PutEvidenceBundle_frame [of env "vw_db s" ev]
  by (auto simp: saveEvidence_def split: prod.splits option.splits)

lemma moveItem_Inr:
  "moveItem env item s = (Inr u, t) \<Longrightarrow>
     vw_log t = vw_log s @ [Moved item] \<and> wd_evidence (vw_db t) = wd_evidence (vw_db s) \<and>
     storedItem (vw_db t) (w_ID item) = Some item"
  using workItems.put_lookup [of env "vw_db s" item] PutWorkItem_frame [of env "vw_db s" item]
  by (auto simp: moveItem_def split: prod.splits option.splits)

definition movedItem :: "WorkItem \<Rightarrow> VerifyResult \<Rightarrow> WorkItem" where
  "movedItem item result =
     item\<lparr>w_State := (if vs_PendingGates result \<noteq> [] then WorkReviewing else WorkReadyToLand), w_ClaimedBy := [],
       w_LeaseUntil := None\<rparr>"

lemma finishVerify_Inr:
  assumes "finishVerify env item result s = (Inr result', t)"
  shows "vw_log t = vw_log s @ (if e_Gates (vs_Evidence result) = [] then [] else [Saved (vs_Evidence result)]) @
      [Moved (movedItem item result)] \<and>
    (e_Gates (vs_Evidence result) \<noteq> [] \<longrightarrow>
      storedEvidence (vw_db t) (e_WorkItemID (vs_Evidence result), e_HeadSHA (vs_Evidence result)) = Some (vs_Evidence result)) \<and>
    storedItem (vw_db t) (w_ID item) = Some (movedItem item result) \<and>
    result' = result\<lparr>vs_NextState := w_State (movedItem item result)\<rparr>"
proof -
  let ?m = "movedItem item result"
  have i: "w_ID ?m = w_ID item" by (simp add: movedItem_def)
  from assms obtain u s1 u' where
    e: "(if e_Gates (vs_Evidence result) \<noteq> [] then saveEvidence env (vs_Evidence result) else retE ()) s = (Inr u, s1)"
    and m: "moveItem env ?m s1 = (Inr u', t)" and r: "result' = result\<lparr>vs_NextState := w_State ?m\<rparr>"
    by (auto simp: finishVerify_def bindE_Inr Let_def movedItem_def)
  note M = moveItem_Inr [OF m, unfolded i]
  show ?thesis
  proof (cases "e_Gates (vs_Evidence result) = []")
    case True
    with e M r show ?thesis by simp
  next
    case False
    with e have "saveEvidence env (vs_Evidence result) s = (Inr u, s1)" by simp
    from saveEvidence_Inr [OF this] M r False show ?thesis by (simp add: storedEvidence_def)
  qed
qed

lemma readConfig_Inr:
  "readConfig decode rt session s = (Inr cfg, t) \<Longrightarrow>
     Config_Validate cfg = None \<and> (\<exists>bytes. decode bytes = Some cfg) \<and> vw_log t = vw_log s \<and> vw_db t = vw_db s"
  by (auto simp: readConfig_def parseConfig_def split: prod.splits sum.splits option.splits)

lemma Verify_Inr:
  assumes "Verify env decode v req s = (Inr result, t)"
  obtains rt where "verifySteps env decode rt req s = (Inr result, t)" "WorkItem_Validate (vq_WorkItem req) = None"
    "TrimSpace (vq_CandidateHead req) \<noteq> []"
  using assms by (auto simp: Verify_def bindE_Inr split: option.splits)

text \<open>What the evidence of a verified head says.\<close>

definition verifiedBundle :: "WorkItem \<Rightarrow> string \<Rightarrow> string list \<Rightarrow> EvidenceBundle \<Rightarrow> bool" where
  "verifiedBundle item head executable ev \<longleftrightarrow>
     e_WorkItemID ev = w_ID item \<and> e_BaseSHA ev = w_BaseSHA item \<and> e_HeadSHA ev = head \<and>
     map g_Name (e_Gates ev) = executable \<and> (\<forall>g \<in> set (e_Gates ev). g_Status g = GatePassed)"

lemma verifiedBundle_head:
  assumes "verifiedBundle item head executable ev" and "WorkItem_Validate item = None" and "TrimSpace head = head" "head \<noteq> []"
    and "executable \<noteq> []" "\<forall>g \<in> set executable. TrimSpace g \<noteq> []"
  shows "ValidateHead ev head = None"
  using assms by (auto simp: verifiedBundle_def ValidateHead_def WorkItem_Validate_def Let_def)

text \<open>
  C26. A verification that succeeds has, in this order and with nothing else between, found the workspace at
  the candidate head and clean, run every required gate that has a profile, each with success and followed
  by the same two checks, stored evidence that validates for this head and lists exactly these gates, and
  moved the item to \<open>ready_to_land\<close>, or to \<open>reviewing\<close> if reviews are pending, without its claim.
\<close>

theorem Verify_success:
  assumes "Verify env decode v req s = (Inr result, t)"
  shows "\<exists>cfg executable h c l.
    Config_Validate cfg = None \<and>
    resolveGates cfg (w_RequiredGates (vq_WorkItem req)) (vq_ChangedPaths req) = Inr (executable, vs_PendingGates result) \<and>
    vw_log t = vw_log s @ [h, c] @ l @ (if executable = [] then [] else [Saved (vs_Evidence result)]) @
      [Moved (movedItem (vq_WorkItem req) result)] \<and>
    headOK (TrimSpace (vq_CandidateHead req)) h \<and> cleanOK c \<and>
    checkedGates cfg (TrimSpace (vq_CandidateHead req)) executable l \<and>
    verifiedBundle (vq_WorkItem req) (TrimSpace (vq_CandidateHead req)) executable (vs_Evidence result) \<and>
    (executable \<noteq> [] \<longrightarrow>
      ValidateHead (vs_Evidence result) (vq_CandidateHead req) = None \<and>
      storedEvidence (vw_db t) (w_ID (vq_WorkItem req), TrimSpace (vq_CandidateHead req)) = Some (vs_Evidence result)) \<and>
    storedItem (vw_db t) (w_ID (vq_WorkItem req)) = Some (movedItem (vq_WorkItem req) result) \<and>
    vs_NextState result = (if vs_PendingGates result = [] then WorkReadyToLand else WorkReviewing)"
proof -
  let ?item = "vq_WorkItem req"
  let ?head = "TrimSpace (vq_CandidateHead req)"
  from assms obtain rt where v: "verifySteps env decode rt req s = (Inr result, t)"
    and item: "WorkItem_Validate ?item = None" and head: "?head \<noteq> []" by (rule Verify_Inr)
  from v obtain cfg s1 where cfg: "readConfig decode rt (vq_SessionID req) s = (Inr cfg, s1)"
    and rest: "(case resolveGates cfg (w_RequiredGates ?item) (vq_ChangedPaths req) of
          Inl e \<Rightarrow> failE e
        | Inr (executable, pending) \<Rightarrow>
          bindE (assertHead rt (vq_SessionID req) ?head False) (\<lambda>_.
          bindE (assertClean rt (vq_SessionID req)) (\<lambda>_.
          bindE (gateLoop env rt cfg (vq_SessionID req) ?head executable
              \<lparr>vs_Evidence = \<lparr>e_WorkItemID = w_ID ?item, e_BaseSHA = w_BaseSHA ?item, e_HeadSHA = ?head, e_Gates = []\<rparr>,
               vs_PendingGates = pending, vs_NextState = WorkOther []\<rparr>)
            (finishVerify env ?item)))) s1 = (Inr result, t)"
    by (auto simp: verifySteps_def bindE_Inr Let_def)
  obtain executable pending where
    g: "resolveGates cfg (w_RequiredGates ?item) (vq_ChangedPaths req) = Inr (executable, pending)"
    using rest by (cases "resolveGates cfg (w_RequiredGates ?item) (vq_ChangedPaths req)") auto
  from rest obtain u s2 u' s3 r4 s4 where
    h: "assertHead rt (vq_SessionID req) ?head False s1 = (Inr u, s2)"
    and c: "assertClean rt (vq_SessionID req) s2 = (Inr u', s3)"
    and loop: "gateLoop env rt cfg (vq_SessionID req) ?head executable
        \<lparr>vs_Evidence = \<lparr>e_WorkItemID = w_ID ?item, e_BaseSHA = w_BaseSHA ?item, e_HeadSHA = ?head, e_Gates = []\<rparr>,
         vs_PendingGates = pending, vs_NextState = WorkOther []\<rparr> s3 = (Inr r4, s4)"
    and fin: "finishVerify env ?item r4 s4 = (Inr result, t)"
    by (auto simp: g bindE_Inr)
  from gateLoop_Inr [OF loop] obtain l gs where
    l: "vw_log s4 = vw_log s3 @ l" "checkedGates cfg ?head executable l"
    and gs: "map g_Name gs = executable" "\<forall>g \<in> set gs. g_Status g = GatePassed"
    and r4: "r4 = \<lparr>vs_Evidence = \<lparr>e_WorkItemID = w_ID ?item, e_BaseSHA = w_BaseSHA ?item, e_HeadSHA = ?head, e_Gates = gs\<rparr>,
         vs_PendingGates = pending, vs_NextState = WorkOther []\<rparr>"
    by auto
  from assertHead_Inr [OF h] obtain ha where ha: "vw_log s2 = vw_log s1 @ [ha]" "headOK ?head ha" by blast
  from assertClean_Inr [OF c] obtain ca where ca: "vw_log s3 = vw_log s2 @ [ca]" "cleanOK ca" by blast
  note C = readConfig_Inr [OF cfg] and F = finishVerify_Inr [OF fin]
  have res: "vs_Evidence result = vs_Evidence r4" "vs_PendingGates result = pending"
    "movedItem ?item result = movedItem ?item r4"
    using F r4 by (simp_all add: movedItem_def)
  have gates: "e_Gates (vs_Evidence r4) = [] \<longleftrightarrow> executable = []" using r4 gs(1) by auto
  have b: "verifiedBundle ?item ?head executable (vs_Evidence result)"
    using r4 gs res(1) by (simp add: verifiedBundle_def)
  have names: "\<forall>g \<in> set executable. TrimSpace g \<noteq> []"
    using resolveGates_spec [of cfg "w_RequiredGates ?item" "vq_ChangedPaths req"] g by (auto simp: requiredGates_def)
  have "executable \<noteq> [] \<Longrightarrow> ValidateHead (vs_Evidence result) ?head = None"
    using verifiedBundle_head [OF b item _ head _ names] by simp
  moreover have "ValidateHead (vs_Evidence result) ?head = ValidateHead (vs_Evidence result) (vq_CandidateHead req)"
    by (simp add: ValidateHead_def)
  moreover have "vw_log t = vw_log s @ [ha, ca] @ l @ (if executable = [] then [] else [Saved (vs_Evidence result)]) @
      [Moved (movedItem ?item result)]"
    using F C ha(1) ca(1) l(1) gates res by simp
  moreover have "executable \<noteq> [] \<Longrightarrow> storedEvidence (vw_db t) (w_ID ?item, ?head) = Some (vs_Evidence result)"
    using F gates res(1) r4 by auto
  moreover have "vs_NextState result = (if vs_PendingGates result = [] then WorkReadyToLand else WorkReviewing)"
    using F r4 by (simp add: movedItem_def)
  ultimately show ?thesis using C g ha(2) ca(2) l(2) b F res by metis
qed

section \<open>A verification that fails\<close>

definition sameTables :: "'w VerifyWorld \<Rightarrow> 'w VerifyWorld \<Rightarrow> bool" where
  "sameTables s t \<longleftrightarrow> wd_items (vw_db t) = wd_items (vw_db s) \<and> wd_evidence (vw_db t) = wd_evidence (vw_db s)"

interpretation tables: preorder_steps sameTables
  by unfold_locales (auto simp: sameTables_def)

lemma stays_runCommand: "stays sameTables (runCommand rt session cmd)"
  by (simp add: stays_def runCommand_def sameTables_def split: prod.split)

lemma stays_checks:
  "stays sameTables (assertHead rt session head during)" "stays sameTables (assertClean rt session)"
  "stays sameTables (readConfig decode rt session)"
  unfolding assertHead_def assertClean_def
  by (auto intro!: tables.stays_steps stays_runCommand split: option.split)
    (auto simp: stays_def readConfig_def parseConfig_def sameTables_def failE_def retE_def split: prod.split sum.split option.split)

lemma staysD: "stays R m \<Longrightarrow> m s = (r, t) \<Longrightarrow> R s t"
  unfolding stays_def by (metis snd_conv)

lemma saveEvidence_Inl:
  "saveEvidence env ev s = (Inl e, t) \<Longrightarrow> sameTables s t \<and> (\<exists>err. e = EvidenceUnsaved err)"
  by (auto simp: saveEvidence_def sameTables_def PutEvidenceBundle_def nextWork_def split: prod.splits option.splits if_splits)

lemma moveItem_Inl: "moveItem env item s = (Inl e, t) \<Longrightarrow> sameTables s t \<and> (\<exists>err. e = ItemUnsaved err)"
  by (auto simp: moveItem_def sameTables_def PutWorkItem_def nextWork_def split: prod.splits option.splits if_splits)

definition plainError :: "verify_error \<Rightarrow> bool" where
  "plainError e \<longleftrightarrow> (case e of GateRunFailed _ _ \<Rightarrow> False | ItemUnsaved _ \<Rightarrow> False | _ \<Rightarrow> True)"

text \<open>The evidence of a failed gate is stored, and nothing else.\<close>

definition failureSaved :: "string \<times> string \<Rightarrow> verify_error \<Rightarrow> 'w VerifyWorld \<Rightarrow> 'w VerifyWorld \<Rightarrow> bool" where
  "failureSaved key e s t \<longleftrightarrow>
     (\<exists>gate r. e = GateRunFailed gate r \<and> wd_items (vw_db t) = wd_items (vw_db s) \<and>
        (\<forall>k. storedEvidence (vw_db t) k = (if k = key then Some (vs_Evidence r) else storedEvidence (vw_db s) k)) \<and>
        (\<exists>g \<in> set (e_Gates (vs_Evidence r)). g_Status g = GateFailed))"

lemma failureSaved_before:
  assumes "sameTables s s1" "failureSaved key e s1 t"
  shows "failureSaved key e s t"
proof -
  from assms(1) have "storedEvidence (vw_db s1) = storedEvidence (vw_db s)" "wd_items (vw_db s1) = wd_items (vw_db s)"
    by (simp_all add: sameTables_def storedEvidence_def fun_eq_iff)
  with assms(2) show ?thesis unfolding failureSaved_def by (simp only:)
qed

lemma saveEvidence_all:
  "saveEvidence env ev s = (Inr u, t) \<Longrightarrow>
     wd_items (vw_db t) = wd_items (vw_db s) \<and>
     (\<forall>k. storedEvidence (vw_db t) k = (if k = (e_WorkItemID ev, e_HeadSHA ev) then Some ev else storedEvidence (vw_db s) k))"
  using evidences.put_lookup [of env "vw_db s" ev] PutEvidenceBundle_frame [of env "vw_db s" ev]
  by (auto simp: saveEvidence_def split: prod.splits option.splits)

lemma runCommand_ret: obtains result err s1 where "runCommand rt session cmd s = (Inr (result, err), s1)"
  by (cases "vr_ExecuteCommand rt session cmd (vw_world s)"; cases "fst (vr_ExecuteCommand rt session cmd (vw_world s))")
    (auto simp: runCommand_def)

lemma assertHead_plain:
  assumes "assertHead rt session head during s = (Inl e, t)"
  shows "plainError e"
proof -
  obtain result err s1 where r: "runCommand rt session headCommand s = (Inr (result, err), s1)" by (rule runCommand_ret)
  from assms show ?thesis
    by (auto simp: assertHead_def bindE_def r plainError_def split: option.splits if_splits)
qed

lemma assertClean_plain:
  assumes "assertClean rt session s = (Inl e, t)"
  shows "plainError e"
proof -
  obtain result err s1 where r: "runCommand rt session statusCommand s = (Inr (result, err), s1)" by (rule runCommand_ret)
  from assms show ?thesis
    by (auto simp: assertClean_def bindE_def r plainError_def split: option.splits if_splits)
qed

lemma readConfig_plain: "readConfig decode rt session s = (Inl e, t) \<Longrightarrow> plainError e"
  by (auto simp: readConfig_def parseConfig_def plainError_def split: prod.splits sum.splits option.splits)

lemmas checks_plain = assertHead_plain assertClean_plain readConfig_plain

lemma gateLoop_Inl:
  assumes "gateLoop env rt cfg session head gates result s = (Inl e, t)"
  shows "sameTables s t \<and> plainError e \<or>
    failureSaved (e_WorkItemID (vs_Evidence result), e_HeadSHA (vs_Evidence result)) e s t"
  using assms
proof (induction gates arbitrary: result s)
  case Nil
  then show ?case by simp
next
  case (Cons gate gates)
  let ?key = "(e_WorkItemID (vs_Evidence result), e_HeadSHA (vs_Evidence result))"
  have no: "runCommand rt session (gateCommand cfg gate) s \<noteq> (Inl e, t)"
    by (simp add: runCommand_def split: prod.split)
  from Cons.prems no obtain r s1 where r: "runCommand rt session (gateCommand cfg gate) s = (Inr r, s1)"
    and k: "bindE (assertHead rt session head True) (\<lambda>_. bindE (assertClean rt session) (\<lambda>_.
        if \<not> gatePassed r then bindE (saveEvidence env (vs_Evidence (addEvidence result (gateEvidence cfg gate r))))
          (\<lambda>_. failE (GateRunFailed gate (addEvidence result (gateEvidence cfg gate r))))
        else gateLoop env rt cfg session head gates (addEvidence result (gateEvidence cfg gate r)))) s1 = (Inl e, t)"
    by (auto simp: bindE_Inl Let_def)
  let ?res = "addEvidence result (gateEvidence cfg gate r)"
  have key: "(e_WorkItemID (vs_Evidence ?res), e_HeadSHA (vs_Evidence ?res)) = ?key" by (simp add: addEvidence_def)
  note s1 = staysD [OF stays_runCommand r]
  consider (head) "assertHead rt session head True s1 = (Inl e, t)"
    | (clean) u s2 where "assertHead rt session head True s1 = (Inr u, s2)" "assertClean rt session s2 = (Inl e, t)"
    | (run) u s2 u' s3 where "assertHead rt session head True s1 = (Inr u, s2)" "assertClean rt session s2 = (Inr u', s3)"
        "(if \<not> gatePassed r then bindE (saveEvidence env (vs_Evidence ?res)) (\<lambda>_. failE (GateRunFailed gate ?res))
          else gateLoop env rt cfg session head gates ?res) s3 = (Inl e, t)"
    using k by (auto simp: bindE_Inl)
  then show ?case
  proof cases
    case head
    with checks_plain(1) [OF head] staysD [OF stays_checks(1) head] s1 tables.trans show ?thesis by blast
  next
    case clean
    have "sameTables s t" using tables.trans [OF s1 tables.trans [OF staysD [OF stays_checks(1) clean(1)] staysD [OF stays_checks(2) clean(2)]]] .
    with checks_plain(2) [OF clean(2)] show ?thesis by blast
  next
    case run
    have s3: "sameTables s s3" using tables.trans [OF s1 tables.trans [OF staysD [OF stays_checks(1) run(1)] staysD [OF stays_checks(2) run(2)]]] .
    show ?thesis
    proof (cases "gatePassed r")
      case True
      with run(3) have "gateLoop env rt cfg session head gates ?res s3 = (Inl e, t)" by simp
      from Cons.IH [OF this, unfolded key] show ?thesis
        using s3 tables.trans failureSaved_before by blast
    next
      case False
      note f = run(3) [unfolded if_P [OF False]]
      show ?thesis
      proof (cases "saveEvidence env (vs_Evidence ?res) s3 = (Inl e, t)")
        case True
        from saveEvidence_Inl [OF this] s3 tables.trans show ?thesis by (auto simp: plainError_def)
      next
        case False
        with f obtain u where sv: "saveEvidence env (vs_Evidence ?res) s3 = (Inr u, t)" and e: "e = GateRunFailed gate ?res"
          by (auto simp: bindE_Inl)
        have "\<exists>g \<in> set (e_Gates (vs_Evidence ?res)). g_Status g = GateFailed"
          using \<open>\<not> gatePassed r\<close> by (simp add: addEvidence_def gateEvidence_def)
        with saveEvidence_all [OF sv, unfolded key] e have "failureSaved ?key e s3 t"
          unfolding failureSaved_def by blast
        with failureSaved_before [OF s3] show ?thesis by blast
      qed
    qed
  qed
qed

lemma finishVerify_Inl:
  assumes "finishVerify env item result s = (Inl e, t)"
  shows "sameTables s t \<and> plainError e \<or> wd_items (vw_db t) = wd_items (vw_db s) \<and> (\<exists>err. e = ItemUnsaved err)"
proof -
  let ?save = "if e_Gates (vs_Evidence result) \<noteq> [] then saveEvidence env (vs_Evidence result) else retE ()"
  consider (save) "?save s = (Inl e, t)"
    | (move) u s1 where "?save s = (Inr u, s1)" "moveItem env (movedItem item result) s1 = (Inl e, t)"
    using assms by (auto simp: finishVerify_def bindE_Inl Let_def movedItem_def split: if_splits)
  then show ?thesis
  proof cases
    case save
    then have "saveEvidence env (vs_Evidence result) s = (Inl e, t)" by (simp split: if_splits)
    from saveEvidence_Inl [OF this] show ?thesis by (auto simp: plainError_def)
  next
    case move
    have "wd_items (vw_db s1) = wd_items (vw_db s)"
      using move(1) saveEvidence_Inr by (auto split: if_splits)
    with moveItem_Inl [OF move(2)] show ?thesis by (auto simp: sameTables_def)
  qed
qed

lemma verifySteps_Inl:
  assumes "verifySteps env decode rt req s = (Inl e, t)"
  shows "sameTables s t \<and> plainError e \<or>
    failureSaved (w_ID (vq_WorkItem req), TrimSpace (vq_CandidateHead req)) e s t \<or>
    wd_items (vw_db t) = wd_items (vw_db s) \<and> (\<exists>err. e = ItemUnsaved err)"
proof -
  let ?head = "TrimSpace (vq_CandidateHead req)" and ?ses = "vq_SessionID req" and ?item = "vq_WorkItem req"
  let ?start = "\<lambda>pending. \<lparr>vs_Evidence = \<lparr>e_WorkItemID = w_ID ?item, e_BaseSHA = w_BaseSHA ?item, e_HeadSHA = ?head, e_Gates = []\<rparr>,
         vs_PendingGates = pending, vs_NextState = WorkOther []\<rparr>"
  show ?thesis
  proof (cases "readConfig decode rt ?ses s = (Inl e, t)")
    case True
    then show ?thesis using staysD [OF stays_checks(3) True] checks_plain(3) [OF True] by blast
  next
    case False
    with assms obtain cfg s1 where cfg: "readConfig decode rt ?ses s = (Inr cfg, s1)"
      and rest: "(case resolveGates cfg (w_RequiredGates ?item) (vq_ChangedPaths req) of
          Inl e \<Rightarrow> failE e
        | Inr (executable, pending) \<Rightarrow>
          bindE (assertHead rt ?ses ?head False) (\<lambda>_. bindE (assertClean rt ?ses) (\<lambda>_.
          bindE (gateLoop env rt cfg ?ses ?head executable (?start pending)) (finishVerify env ?item)))) s1 = (Inl e, t)"
      by (auto simp: verifySteps_def bindE_Inl Let_def)
    note s1 = staysD [OF stays_checks(3) cfg]
    show ?thesis
    proof (cases "resolveGates cfg (w_RequiredGates ?item) (vq_ChangedPaths req)")
      case (Inl err)
      with resolveGates_spec [of cfg "w_RequiredGates ?item" "vq_ChangedPaths req"]
      have "plainError err" by (auto simp: plainError_def)
      with rest Inl s1 show ?thesis by simp
    next
      case (Inr gates)
      obtain executable pending where g: "gates = (executable, pending)" by fastforce
      let ?loop = "gateLoop env rt cfg ?ses ?head executable (?start pending)"
      consider (head) "assertHead rt ?ses ?head False s1 = (Inl e, t)"
        | (clean) u s2 where "assertHead rt ?ses ?head False s1 = (Inr u, s2)" "assertClean rt ?ses s2 = (Inl e, t)"
        | (loop) u s2 u' s3 where "assertHead rt ?ses ?head False s1 = (Inr u, s2)" "assertClean rt ?ses s2 = (Inr u', s3)"
            "?loop s3 = (Inl e, t)"
        | (finish) u s2 u' s3 r s4 where "assertHead rt ?ses ?head False s1 = (Inr u, s2)" "assertClean rt ?ses s2 = (Inr u', s3)"
            "?loop s3 = (Inr r, s4)" "finishVerify env ?item r s4 = (Inl e, t)"
        using rest Inr g by (auto simp: bindE_Inl)
      then show ?thesis
      proof cases
        case head
        with checks_plain(1) [OF head] staysD [OF stays_checks(1) head] s1 tables.trans show ?thesis by blast
      next
        case clean
        have "sameTables s t"
          using tables.trans [OF s1 tables.trans [OF staysD [OF stays_checks(1) clean(1)] staysD [OF stays_checks(2) clean(2)]]] .
        with checks_plain(2) [OF clean(2)] show ?thesis by blast
      next
        case loop
        have "sameTables s s3"
          using tables.trans [OF s1 tables.trans [OF staysD [OF stays_checks(1) loop(1)] staysD [OF stays_checks(2) loop(2)]]] .
        with gateLoop_Inl [OF loop(3)] tables.trans failureSaved_before show ?thesis by (simp, blast)
      next
        case finish
        have "sameTables s s3"
          using tables.trans [OF s1 tables.trans [OF staysD [OF stays_checks(1) finish(1)] staysD [OF stays_checks(2) finish(2)]]] .
        moreover have "sameTables s3 s4" using gateLoop_Inr [OF finish(3)] by (auto simp: sameTables_def)
        ultimately have "sameTables s s4" by (rule tables.trans)
        with finishVerify_Inl [OF finish(4)] show ?thesis by (auto simp: sameTables_def)
      qed
    qed
  qed
qed



text \<open>
  The time limit of a gate lies between zero and half an hour, unless the number of seconds overflows the
  multiplication by a billion.
\<close>

theorem profileTimeout_bounds:
  assumes "seconds \<le> 9223372036"
  shows "0 < profileTimeout seconds \<and> profileTimeout seconds \<le> maxProfileTimeout"
proof (cases "seconds \<le> 0")
  case True
  then show ?thesis by (simp add: profileTimeout_def defaultProfileTimeout_def maxProfileTimeout_def)
next
  case False
  with assms have "i64 (seconds * 1000000000) = seconds * 1000000000" by (intro i64_id) (simp add: is_i64_def)
  with False show ?thesis by (simp add: profileTimeout_def Let_def maxProfileTimeout_def)
qed

theorem profileTimeout_bounds_witness: "0 < profileTimeout 7 \<and> profileTimeout 9223372037 < 0"
  using profileTimeout_bounds [of 7] by (simp add: profileTimeout_def i64_def Let_def maxProfileTimeout_def)

section \<open>Sample verifications\<close>

text \<open>A workspace at head \<open>abc\<close>; its world counts the commands.\<close>

definition sampleCommandResult :: "string \<Rightarrow> int \<Rightarrow> CommandResult" where
  "sampleCommandResult out code = \<lparr>cs_Stdout = out, cs_Stderr = [], cs_ExitCode = code, cs_Duration = 1\<rparr>"

definition sampleVerifyRuntime :: "int \<Rightarrow> nat VerifyRuntime" where
  "sampleVerifyRuntime code =
     \<lparr>vr_ReadFile = (\<lambda>session file n. (Inr ''cfg'', n)),
      vr_ExecuteCommand = (\<lambda>session cmd n.
        ((Some (if cd_Args cmd = cd_Args headCommand then sampleCommandResult ''abc'' 0
           else if cd_Args cmd = cd_Args statusCommand then sampleCommandResult [] 0
           else sampleCommandResult ''out'' code), None), Suc n))\<rparr>"

definition sampleConfig :: Config where
  "sampleConfig =
     \<lparr>c_Version = 1, c_Commands = \<lparr>cm_Doctor = [], cm_Dev = [], cm_Logs = []\<rparr>,
      c_Verification = [(''unit'', \<lparr>vp_Command = ''make'', vp_TimeoutSeconds = 60\<rparr>)],
      c_Work = \<lparr>wc_Isolation = IsolationNone, wc_MaxParallelCost = 1, wc_RequireCleanHandoff = False\<rparr>,
      c_Review = \<lparr>rv_Independent = False, rv_ExactHead = False\<rparr>, c_Risk = []\<rparr>"

definition sampleWorkItem :: "string list \<Rightarrow> WorkState \<Rightarrow> string \<Rightarrow> gotime option \<Rightarrow> WorkItem" where
  "sampleWorkItem gates state holder lease =
     \<lparr>w_ID = ''wi'', w_Repository = ''r'', w_Objective = ''o'', w_AcceptanceCriteria = [], w_ParentID = [],
      w_DiscoveredFromID = [], w_DependsOn = [], w_OwnershipPaths = [''src''], w_Risk = RiskLow, w_Cost = 1,
      w_RequiredGates = gates, w_BaseSHA = ''base'', w_ClaimedBy = holder, w_LeaseUntil = lease, w_State = state\<rparr>"

definition sampleVerifyRequest :: "WorkItem \<Rightarrow> VerifyRequest" where
  "sampleVerifyRequest item = \<lparr>vq_SessionID = ''s'', vq_WorkItem = item, vq_CandidateHead = ''abc'', vq_ChangedPaths = []\<rparr>"

definition sampleVerifyWorld :: "WorkItem \<Rightarrow> nat VerifyWorld" where
  "sampleVerifyWorld item =
     \<lparr>vw_world = 0, vw_db = \<lparr>wd_items = [(''wi'', workRow item)], wd_evidence = [], wd_ops = 0\<rparr>, vw_log = []\<rparr>"

definition sampleVerify :: "int \<Rightarrow> WorkItem \<Rightarrow> WorkItem \<Rightarrow> (verify_error + VerifyResult) \<times> nat VerifyWorld" where
  "sampleVerify code stored item =
     Verify workingEnv (\<lambda>_. Some sampleConfig) (Some (Verifier_New (Some (sampleVerifyRuntime code)) True))
       (sampleVerifyRequest item) (sampleVerifyWorld stored)"

definition sampleClaimed :: "string list \<Rightarrow> WorkItem" where
  "sampleClaimed gates = sampleWorkItem gates WorkClaimed ''w'' (Some 9)"

lemma sampleVerify_Inr:
  assumes "\<not> isl (fst (sampleVerify code stored item))"
  obtains result t where "sampleVerify code stored item = (Inr result, t)"
  using assms by (cases "sampleVerify code stored item"; cases "fst (sampleVerify code stored item)") auto

theorem Verify_success_witness:
  "\<exists>result t. sampleVerify 0 (sampleClaimed [''unit'']) (sampleClaimed [''unit'']) = (Inr result, t) \<and>
     storedItem (vw_db t) ''wi'' = Some (movedItem (sampleClaimed [''unit'']) result)"
proof -
  have "\<not> isl (fst (sampleVerify 0 (sampleClaimed [''unit'']) (sampleClaimed [''unit''])))" by code_simp
  then obtain result t where r: "sampleVerify 0 (sampleClaimed [''unit'']) (sampleClaimed [''unit'']) = (Inr result, t)"
    by (rule sampleVerify_Inr)
  from Verify_success [OF r [unfolded sampleVerify_def]]
  have "storedItem (vw_db t) ''wi'' = Some (movedItem (sampleClaimed [''unit'']) result)"
    by (auto simp: sampleVerifyRequest_def sampleClaimed_def sampleWorkItem_def)
  with r show ?thesis by blast
qed


text \<open>
  What the verifier does not look at.  It writes the item it was given over the stored one: a claim that
  another worker has taken since is lost while its lease runs, and an item that has landed is made ready to
  land again.  And an item that requires no gate is ready to land without any evidence.
\<close>

theorem Verify_gaps:
  "(let stored = sampleWorkItem [''unit''] WorkClaimed ''other'' (Some 99);
        t = snd (sampleVerify 0 stored (sampleClaimed [''unit'']))
    in HasActiveLease stored 50 \<and> map_option w_ClaimedBy (storedItem (vw_db t) ''wi'') = Some [] \<and>
       map_option w_State (storedItem (vw_db t) ''wi'') = Some WorkReadyToLand) \<and>
   (let landed = sampleWorkItem [''unit''] WorkLanded [] None
    in map_option w_State (storedItem (vw_db (snd (sampleVerify 0 landed landed))) ''wi'') = Some WorkReadyToLand) \<and>
   (let t = snd (sampleVerify 1 (sampleClaimed []) (sampleClaimed []))
    in map_option w_State (storedItem (vw_db t) ''wi'') = Some WorkReadyToLand \<and> wd_evidence (vw_db t) = [])"
  by code_simp

end
