(* ===== verification/RunnerAuthority.thy ===== *)
theory RunnerAuthority
  imports RunHandlers Capability GoStep Approvals "HOL-Library.Product_Lexorder"
begin

text \<open>
  The authority of an agent's tools (\<open>apps/api/internal/agentrunner/runner_authority.go\<close>,
  \<open>runner_approval.go\<close> and the authorisation in \<open>runner.go\<close>): a tool call is decided by the capability
  kernel; one that needs an approval is run only by consuming an approved grant of exactly this operation,
  resource and revision, and asks for one otherwise.

  The steps are those of the worker's tables.  What JSON decoding and encoding give is a record of
  functions; the metadata of an approval is compared as text.
\<close>

section \<open>Approvals as authority\<close>

text \<open>The fields of the metadata of an approval that the code reads.\<close>

record AuthorityMeta =
  au_Grant :: "Grant option"
  au_Digest :: string
  au_ConsumedAt :: string

datatype run_error =
    DbError worker_error
  | GrantInvalid exec_error
  | MetadataUndecodable string
  | ApprovalInvalid string exec_error
  | DigestMismatch string
  | MetadataUnencodable string
  | KernelMissing
  | UnknownTool string
  | RevisionFailed string string
  | EvaluationError string cap_error
  | ConsumeFailed string run_error
  | CapabilityDecision string string string CapResult
  | NoDecision

record AuthorityJSON =
  aj_authority :: "string \<Rightarrow> AuthorityMeta option"
  aj_consume :: "string \<Rightarrow> int \<Rightarrow> string option"
  aj_decision :: "string \<Rightarrow> string \<Rightarrow> string \<Rightarrow> CapResult \<Rightarrow> (Grant \<times> string) option \<Rightarrow> string option"
  aj_reason :: "string \<Rightarrow> string \<Rightarrow> string option"

definition db :: "'a step \<Rightarrow> (Worker, run_error, 'a) gostep" where
  "db m s = (case m s of (Inl e, t) \<Rightarrow> (Inl (DbError e), t) | (Inr x, t) \<Rightarrow> (Inr x, t))"

definition approvedRow :: "string \<Rightarrow> string \<Rightarrow> int \<Rightarrow> Approval \<Rightarrow> bool" where
  "approvedRow runID operation now a \<longleftrightarrow>
     ap_AgentRunID a = Some runID \<and> ap_ApprovalType a = ''capability:'' @ operation \<and> ap_Response a = Some ''approved'' \<and>
     (case ap_ExpiresAt a of None \<Rightarrow> True | Some e \<Rightarrow> e > now)"

text \<open>\<open>ORDER BY responded_at DESC, created_at DESC\<close>; SQL leaves the order of equal times open.\<close>

definition responded :: "Approval \<Rightarrow> int \<times> int" where
  "responded a = (case ap_RespondedAt a of None \<Rightarrow> (0, 0) | Some t \<Rightarrow> (1, - t))"

definition candidates :: "string \<Rightarrow> string \<Rightarrow> int \<Rightarrow> Worker \<Rightarrow> Approval list" where
  "candidates runID operation now s =
     sort_key (\<lambda>a. (responded a, - ap_CreatedAt a))
       (filter (approvedRow runID operation now) (wk_approvals s))"

definition grantDigest :: "Grant \<Rightarrow> exec_error + string" where
  "grantDigest g = (case NewManifest [g] of Inl e \<Rightarrow> Inl e | Inr manifest \<Rightarrow> Digest manifest)"

text \<open>What the code makes of one candidate before it writes: skip it, or consume it with new metadata.\<close>

definition judge ::
    "AuthorityJSON \<Rightarrow> Grant \<Rightarrow> int \<Rightarrow> Approval \<Rightarrow> run_error + string option" where
  "judge j requested now a =
     (case aj_authority j (ap_Metadata a) of
        None \<Rightarrow> Inl (MetadataUndecodable (ap_ID a))
      | Some m \<Rightarrow>
        (case au_Grant m of
           None \<Rightarrow> Inr None
         | Some approved \<Rightarrow>
           if TrimSpace (au_Digest m) = [] then Inr None
           else if au_ConsumedAt m \<noteq> [] then Inr None
           else (case grantDigest approved of
               Inl e \<Rightarrow> Inl (ApprovalInvalid (ap_ID a) e)
             | Inr digest \<Rightarrow>
               if digest \<noteq> au_Digest m then Inl (DigestMismatch (ap_ID a))
               else if approved \<noteq> requested then Inr None
               else (case aj_consume j (ap_Metadata a) now of
                   None \<Rightarrow> Inl (MetadataUnencodable (ap_ID a))
                 | Some updated \<Rightarrow> Inr (Some updated)))))"

definition updApprovals :: "(Approval \<Rightarrow> bool) \<Rightarrow> (Approval \<Rightarrow> Approval) \<Rightarrow> Worker \<Rightarrow> nat \<times> Worker" where
  "updApprovals p f s = (length (filter p (wk_approvals s)), s\<lparr>wk_approvals := updRows p f (wk_approvals s)\<rparr>)"

definition unconsumedRow :: "Approval \<Rightarrow> Approval \<Rightarrow> bool" where
  "unconsumedRow a x \<longleftrightarrow> ap_ID x = ap_ID a \<and> ap_Metadata x = ap_Metadata a \<and> ap_Response x = Some ''approved''"

definition consumedRow :: "string \<Rightarrow> int \<Rightarrow> Approval \<Rightarrow> Approval" where
  "consumedRow updated now x = x\<lparr>ap_Metadata := updated, ap_UpdatedAt := now\<rparr>"

definition consumeRow :: "WorkerEnv \<Rightarrow> string \<Rightarrow> int \<Rightarrow> Approval \<Rightarrow> nat step" where
  "consumeRow env updated now a =
     execute env ''consume authority approval'' (updApprovals (unconsumedRow a) (consumedRow updated now))"

fun consumeLoop ::
    "WorkerEnv \<Rightarrow> AuthorityJSON \<Rightarrow> Grant \<Rightarrow> int \<Rightarrow> Approval list \<Rightarrow> (Worker, run_error, bool) gostep" where
  "consumeLoop env j requested now [] = retE False"
| "consumeLoop env j requested now (a # as) =
     (case judge j requested now a of
        Inl e \<Rightarrow> failE e
      | Inr None \<Rightarrow> consumeLoop env j requested now as
      | Inr (Some updated) \<Rightarrow>
        bindE (db (consumeRow env updated now a)) (\<lambda>n.
        bindE (db (rowsAffected env ''check authority approval consumption'' n)) (\<lambda>affected.
          if affected = 1 then retE True else consumeLoop env j requested now as)))"

definition consumeApprovedAuthority ::
    "WorkerEnv \<Rightarrow> AuthorityJSON \<Rightarrow> string \<Rightarrow> Grant \<Rightarrow> (Worker, run_error, bool) gostep" where
  "consumeApprovedAuthority env j runID requested =
     (if TrimSpace runID = [] then retE False
      else (case Grant_Validate requested of
          Some e \<Rightarrow> failE (GrantInvalid e)
        | None \<Rightarrow>
          bindE (db (timeNow env)) (\<lambda>now.
          bindE (db (query env ''load approved authority'' (candidates runID (gr_Operation requested) now)))
            (consumeLoop env j requested now))))"

section \<open>Tools\<close>

definition toolOperation :: "string \<Rightarrow> string option" where
  "toolOperation toolName =
     map_of [(''read_file'', ''read_file''), (''write_file'', ''write_file''), (''search_files'', ''search_repository''),
       (''list_directory'', ''read_file''), (''apply_patch'', ''apply_patch''), (''run_command'', ''run_command''),
       (''inspect_repo'', ''static_analysis''), (''get_git_diff'', ''read_file''), (''create_commit'', ''create_commit''),
       (''run_tests'', ''run_tests'')] toolName"

definition toolRequiresWorkspaceRevision :: "string \<Rightarrow> bool" where
  "toolRequiresWorkspaceRevision toolName \<longleftrightarrow>
     toolName \<in> {''write_file'', ''apply_patch'', ''run_command'', ''create_commit''}"

text \<open>The first of three keys whose value is a text; \<open>decode\<close> reads a JSON object.\<close>

definition toolResource :: "(string \<Rightarrow> (string \<rightharpoonup> gany) option) \<Rightarrow> string \<Rightarrow> string \<Rightarrow> string" where
  "toolResource decode toolName input =
     (case decode input of
        None \<Rightarrow> toolName
      | Some payload \<Rightarrow>
        (case filter (\<lambda>key. case payload key of Some (AString v) \<Rightarrow> v \<noteq> [] | _ \<Rightarrow> False) [''path'', ''command'', ''query''] of
           [] \<Rightarrow> toolName
         | key # _ \<Rightarrow> (case payload key of Some (AString v) \<Rightarrow> v | _ \<Rightarrow> toolName)))"

definition sandboxState :: "Workspace option \<Rightarrow> string" where
  "sandboxState workspace =
     (case workspace of
        None \<Rightarrow> ''unknown''
      | Some ws \<Rightarrow>
        if ws_RuntimeProvider ws \<in> {''docker'', ''gvisor'', ''firecracker'', ''kubernetes''} then ''isolated''
        else if ws_RuntimeProvider ws = ''local'' then ''trusted_local''
        else ws_RuntimeProvider ws)"

text \<open>A request for a tool, and how it is decided.\<close>

record ToolEnv =
  te_ftext :: "f64 \<Rightarrow> string"
  te_kernel :: "Kernel option"
  te_decode :: "string \<Rightarrow> (string \<rightharpoonup> gany) option"
  te_revision :: "nat \<Rightarrow> string + string"
  te_organization :: "string \<Rightarrow> Organization option"

definition toolRequest ::
    "ToolEnv \<Rightarrow> AgentRun \<Rightarrow> ModelTask option \<Rightarrow> Workspace option \<Rightarrow> string \<Rightarrow> string \<Rightarrow> string \<Rightarrow> string \<Rightarrow> CapRequest" where
  "toolRequest te run task workspace toolName operation revision input =
     \<lparr>q_ActorType = ''agent'', q_User = None, q_AgentRole = ar_AgentRole run,
      q_Organization = (case task of None \<Rightarrow> None
        | Some t \<Rightarrow> if tk_ProjectID t = [] then None else te_organization te (tk_ProjectID t)),
      q_Project = None, q_Repository = None, q_Workspace = workspace, q_Task = task, q_AgentRun = Some run,
      q_Operation = operation, q_ResourceType = [], q_Resource = toolResource (te_decode te) toolName input,
      q_Revision = revision, q_Budget = None, q_SandboxState = sandboxState workspace,
      q_Details = Map.empty(''tool_name'' \<mapsto> AString toolName, ''input'' \<mapsto> AString input)\<rparr>"

text \<open>The workspace revision is read from the world at the number of effects so far.\<close>

definition toolRevision :: "ToolEnv \<Rightarrow> string \<Rightarrow> (Worker, run_error, string) gostep" where
  "toolRevision te toolName s =
     (if \<not> toolRequiresWorkspaceRevision toolName then (Inr [], s)
      else (case te_revision te (wk_n s) of
          Inl e \<Rightarrow> (Inl (RevisionFailed toolName e), count s)
        | Inr revision \<Rightarrow> (Inr revision, count s)))"

definition authorizeTool ::
    "WorkerEnv \<Rightarrow> AuthorityJSON \<Rightarrow> ToolEnv \<Rightarrow> AgentRun \<Rightarrow> ModelTask option \<Rightarrow> Workspace option \<Rightarrow> string \<Rightarrow> string \<Rightarrow>
     (Worker, run_error, unit) gostep" where
  "authorizeTool env j te run task workspace toolName input =
     (case te_kernel te of
        None \<Rightarrow> failE KernelMissing
      | Some k \<Rightarrow>
        (case toolOperation toolName of
           None \<Rightarrow> failE (UnknownTool toolName)
         | Some operation \<Rightarrow>
           bindE (toolRevision te toolName) (\<lambda>revision.
             let req = toolRequest te run task workspace toolName operation revision input;
                 (result, err) = fst (Kernel_Evaluate (te_ftext te) k req);
                 refused = CapabilityDecision toolName operation (q_Resource req) result
             in case err of
                  Some e \<Rightarrow> failE (EvaluationError toolName e)
                | None \<Rightarrow>
                  if res_Effect result = EffectDeny then failE refused
                  else if \<not> res_RequiredApproval result then retE ()
                  else (case res_RequestedGrant result of
                      None \<Rightarrow> failE refused
                    | Some g \<Rightarrow>
                      (\<lambda>s. case consumeApprovedAuthority env j (ar_ID run) g s of
                         (Inl e, t) \<Rightarrow> (Inl (ConsumeFailed toolName e), t)
                       | (Inr consumed, t) \<Rightarrow> if consumed then (Inr (), t) else (Inl refused, t))))))"

section \<open>Asking for an approval\<close>

definition publishEvent :: "WorkerEnv \<Rightarrow> bool \<Rightarrow> string \<Rightarrow> Payload \<Rightarrow> (Worker, run_error, unit) gostep" where
  "publishEvent env bus subject payload = (if bus then db (publish env subject payload) else retE ())"

definition unheeded :: "('s, 'e, 'a) gostep \<Rightarrow> ('s, 'e, unit) gostep" where
  "unheeded m s = (Inr (), snd (m s))"

definition capabilityApprovalMetadata ::
    "AuthorityJSON \<Rightarrow> string \<Rightarrow> string \<Rightarrow> string \<Rightarrow> CapResult \<Rightarrow> run_error + string" where
  "capabilityApprovalMetadata j toolName operation resource result =
     (let encoded = (\<lambda>authority. case aj_decision j toolName operation resource result authority of
            None \<Rightarrow> Inl (MetadataUnencodable []) | Some metadata \<Rightarrow> Inr metadata)
      in case res_RequestedGrant result of
           None \<Rightarrow> encoded None
         | Some g \<Rightarrow> (case grantDigest g of Inl e \<Rightarrow> Inl (GrantInvalid e) | Inr digest \<Rightarrow> encoded (Some (g, digest))))"

definition requestRow ::
    "string \<Rightarrow> ModelTask \<Rightarrow> string option \<Rightarrow> string \<Rightarrow> string \<Rightarrow> int \<Rightarrow> Approval" where
  "requestRow approvalID task runID approvalType metadata now =
     \<lparr>ap_ID = approvalID, ap_TaskID = tk_ID task, ap_AgentRunID = runID, ap_ApprovalType = approvalType,
      ap_RequestedBy = tk_CreatedBy task, ap_RequestedAt = now, ap_RespondedBy = None, ap_Response = None,
      ap_ResponseNote = None, ap_RespondedAt = None, ap_ExpiresAt = None, ap_Metadata = metadata,
      ap_CreatedAt = now, ap_UpdatedAt = now\<rparr>"

definition optionAny :: "string option \<Rightarrow> gany" where
  "optionAny v = (case v of None \<Rightarrow> ANil | Some x \<Rightarrow> AString x)"

definition requestCapabilityApproval ::
    "WorkerEnv \<Rightarrow> bool \<Rightarrow> AuthorityJSON \<Rightarrow> AgentRun option \<Rightarrow> ModelTask option \<Rightarrow> string \<Rightarrow> string \<Rightarrow> string \<Rightarrow>
     CapResult \<Rightarrow> (Worker, run_error, unit) gostep" where
  "requestCapabilityApproval env bus j run task toolName operation resource result =
     (case task of
        None \<Rightarrow> retE ()
      | Some t \<Rightarrow>
        bindE (db (newUUID env)) (\<lambda>approvalID.
        bindE (db (timeNow env)) (\<lambda>now.
          case capabilityApprovalMetadata j toolName operation resource result of
            Inl e \<Rightarrow> failE e
          | Inr metadata \<Rightarrow>
            bindE (db (insertApproval env ''create approval''
                (requestRow approvalID t (map_option ar_ID run) (''capability:'' @ operation) metadata now))) (\<lambda>_.
              unheeded (publishEvent env bus ''approval.requested''
                [(''approval_id'', AString approvalID), (''task_id'', AString (tk_ID t)),
                 (''run_id'', optionAny (map_option ar_ID run)), (''operation'', AString operation),
                 (''resource'', AString resource)])))))"

definition requestModelApproval ::
    "WorkerEnv \<Rightarrow> bool \<Rightarrow> AuthorityJSON \<Rightarrow> AgentRun option \<Rightarrow> ModelTask option \<Rightarrow> string \<Rightarrow>
     (Worker, run_error, unit) gostep" where
  "requestModelApproval env bus j run task reason =
     (case task of
        None \<Rightarrow> retE ()
      | Some t \<Rightarrow>
        bindE (db (newUUID env)) (\<lambda>approvalID.
        bindE (db (timeNow env)) (\<lambda>now.
          case aj_reason j reason (case run of None \<Rightarrow> [] | Some r \<Rightarrow> ar_AgentRole r) of
            None \<Rightarrow> failE (MetadataUnencodable [])
          | Some metadata \<Rightarrow>
            bindE (db (insertApproval env ''create approval''
                (requestRow approvalID t (map_option ar_ID run) ''risky_action'' metadata now))) (\<lambda>_.
              unheeded (publishEvent env bus ''approval.requested''
                [(''approval_id'', AString approvalID), (''task_id'', AString (tk_ID t)),
                 (''run_id'', optionAny (map_option ar_ID run)), (''approval_type'', AString ''risky_action''),
                 (''reason'', AString reason)])))))"

section \<open>Consumption of a grant\<close>

text \<open>Metadata that authorise a grant: of exactly this grant, with its digest, and not consumed.\<close>

definition authorises :: "AuthorityJSON \<Rightarrow> Grant \<Rightarrow> string \<Rightarrow> bool" where
  "authorises j g metadata \<longleftrightarrow>
     (\<exists>m. aj_authority j metadata = Some m \<and> au_Grant m = Some g \<and> au_ConsumedAt m = [] \<and>
        grantDigest g = Inr (au_Digest m))"

definition consumes :: "AuthorityJSON \<Rightarrow> string \<Rightarrow> Grant \<Rightarrow> Approval list \<Rightarrow> Approval list \<Rightarrow> bool" where
  "consumes j runID g rows rows1 \<longleftrightarrow>
     (\<exists>xs a ys now updated. rows = xs @ a # ys \<and> rows1 = xs @ consumedRow updated now a # ys \<and>
        approvedRow runID (gr_Operation g) now a \<and> authorises j g (ap_Metadata a) \<and>
        aj_consume j (ap_Metadata a) now = Some updated)"

lemma judge_Some:
  "judge j g now a = Inr (Some updated) \<Longrightarrow>
     authorises j g (ap_Metadata a) \<and> aj_consume j (ap_Metadata a) now = Some updated"
  by (auto simp: judge_def authorises_def split: option.splits if_splits sum.splits)

lemma db_results [simp]:
  "db m s = (Inr x, t) \<longleftrightarrow> m s = (Inr x, t)"
  "db m s = (Inl e, t) \<longleftrightarrow> (\<exists>e0. m s = (Inl e0, t) \<and> e = DbError e0)"
  by (auto simp: db_def split: prod.split sum.split)

lemma unconsumed_split:
  assumes "distinct (map ap_ID rows)" "a \<in> set rows" "ap_Response a = Some ''approved''"
  obtains xs ys where "rows = xs @ a # ys" and "updRows (unconsumedRow a) f rows = xs @ f a # ys"
    and "length (filter (unconsumedRow a) rows) = 1"
proof -
  obtain xs ys where rows: "rows = xs @ a # ys" using split_list [OF assms(2)] by blast
  have other: "\<not> unconsumedRow a x" if "x \<in> set xs \<union> set ys" for x
    using that assms(1) rows by (auto simp: unconsumedRow_def) (metis image_eqI)+
  have self: "unconsumedRow a a" using assms(3) by (simp add: unconsumedRow_def)
  have "map (\<lambda>r. if unconsumedRow a r then f r else r) zs = zs" "filter (unconsumedRow a) zs = []"
    if "set zs \<subseteq> set xs \<union> set ys" for zs
    using that other by (auto intro!: map_idI simp: filter_empty_conv)
  then show thesis using rows self that by (simp add: updRows_def)
qed

text \<open>What a statement on approvals leaves alone.\<close>

definition onlyApprovals :: "Worker \<Rightarrow> Worker \<Rightarrow> bool" where
  "onlyApprovals s t \<longleftrightarrow> t\<lparr>wk_approvals := [], wk_n := 0\<rparr> = s\<lparr>wk_approvals := [], wk_n := 0\<rparr>"

interpretation approvalsOnly: preorder_steps onlyApprovals
  by unfold_locales (auto simp: onlyApprovals_def)

lemma query_result:
  "query env what f s = (Inr x, t) \<Longrightarrow> x = f s \<and> t = count s"
  "query env what f s = (Inl e, t) \<Longrightarrow> t = count s"
  by (auto simp: query_def split: if_splits)

lemma count_fields [simp]: "wk_approvals (count s) = wk_approvals s" "onlyApprovals s (count s)"
  by (simp_all add: count_def onlyApprovals_def)

lemma consumeRow_Inr:
  "consumeRow env updated now a s = (Inr n, t) \<Longrightarrow>
     n = length (filter (unconsumedRow a) (wk_approvals s)) \<and>
     wk_approvals t = updRows (unconsumedRow a) (consumedRow updated now) (wk_approvals s)"
  by (auto simp: consumeRow_def execute_def updApprovals_def count_def split: if_splits)

lemma consumeLoop_result:
  assumes "distinct (map ap_ID (wk_approvals s))" and "consumeLoop env j g now as s = (Inr r, t)"
    and "\<forall>a \<in> set as. a \<in> set (wk_approvals s) \<and> approvedRow runID (gr_Operation g) now a"
  shows "if r then consumes j runID g (wk_approvals s) (wk_approvals t) else wk_approvals t = wk_approvals s"
  using assms
proof (induction as)
  case (Cons a as)
  show ?case
  proof (cases "judge j g now a")
    case (Inl e)
    with Cons.prems show ?thesis by simp
  next
    case (Inr v)
    show ?thesis
    proof (cases v)
      case None
      with Inr Cons show ?thesis by simp
    next
      case (Some updated)
      with Inr Cons.prems(2) obtain n u n1 u1 where row: "consumeRow env updated now a s = (Inr n, u)"
        and aff: "rowsAffected env ''check authority approval consumption'' n u = (Inr n1, u1)"
        and rest: "(if n1 = 1 then retE True else consumeLoop env j g now as) u1 = (Inr r, t)"
        by (auto simp: bindE_Inr)
      from query_result(1) [OF aff [unfolded rowsAffected_def]] have n1: "n1 = n" "u1 = count u" by simp_all
      have a: "a \<in> set (wk_approvals s)" and ok: "approvedRow runID (gr_Operation g) now a" using Cons.prems(3) by simp_all
      then obtain xs ys where sp: "wk_approvals s = xs @ a # ys"
        "updRows (unconsumedRow a) (consumedRow updated now) (wk_approvals s) = xs @ consumedRow updated now a # ys"
        "length (filter (unconsumedRow a) (wk_approvals s)) = 1"
        using unconsumed_split [OF Cons.prems(1) a, of "consumedRow updated now"] by (auto simp: approvedRow_def)
      from consumeRow_Inr [OF row] sp n1 have "n1 = 1" "wk_approvals u1 = xs @ consumedRow updated now a # ys" by simp_all
      with rest have "r" "wk_approvals t = xs @ consumedRow updated now a # ys" by simp_all
      with sp(1) ok judge_Some [of j g now a updated] Inr Some show ?thesis
        unfolding consumes_def by (simp, blast)
    qed
  qed
qed simp

lemma stays_db: "\<forall>s. onlyApprovals s (snd (m s)) \<Longrightarrow> stays onlyApprovals (db m)"
  unfolding stays_def db_def by (auto split: prod.split sum.split) (metis snd_conv)+

lemma consumeLoop_stays: "stays onlyApprovals (consumeLoop env j g now as)"
proof (induction as)
  case (Cons a as)
  have u: "stays onlyApprovals (db (consumeRow env updated now a))" for updated
    by (rule stays_db) (auto simp: consumeRow_def execute_def updApprovals_def onlyApprovals_def count_def)
  have r: "stays onlyApprovals (db (rowsAffected env what n))" for what n
    by (rule stays_db) (auto simp: rowsAffected_def query_def onlyApprovals_def count_def)
  show ?case
    by (auto intro!: approvalsOnly.stays_steps u r Cons.IH split: sum.split option.split)
qed (simp add: approvalsOnly.stays_steps)

lemma consume_stays: "stays onlyApprovals (consumeApprovedAuthority env j runID g)"
proof -
  have "stays onlyApprovals (db (timeNow env))" "stays onlyApprovals (db (query env what f))" for what and f :: "Worker \<Rightarrow> Approval list"
    by (auto intro!: stays_db simp: timeNow_def query_def onlyApprovals_def count_def)
  then show ?thesis
    by (auto intro!: approvalsOnly.stays_steps consumeLoop_stays simp: consumeApprovedAuthority_def split: option.split)
qed

section \<open>Concurrent consumption\<close>

text \<open>
  Several runners consume at once.  Each has read its candidates before and now tries them one by one; in
  between, anything may happen to the approvals that keeps the identifier, the run, the type and the metadata
  of each: answers and new requests do.
\<close>

record AuthSession =
  ss_run :: string
  ss_grant :: Grant
  ss_now :: int
  ss_left :: "Approval list"

record AuthSystem =
  sy_db :: Worker
  sy_sessions :: "nat \<Rightarrow> AuthSession option"
  sy_consumed :: "(string \<times> string \<times> Grant) list"

definition sameAuthority :: "Approval \<Rightarrow> Approval \<Rightarrow> bool" where
  "sameAuthority a b \<longleftrightarrow> ap_ID b = ap_ID a \<and> ap_AgentRunID b = ap_AgentRunID a \<and>
     ap_ApprovalType b = ap_ApprovalType a \<and> ap_Metadata b = ap_Metadata a"

definition rowsKept :: "Approval list \<Rightarrow> Approval list \<Rightarrow> bool" where
  "rowsKept rows rows1 \<longleftrightarrow> distinct (map ap_ID rows1) \<and> (\<forall>a \<in> set rows. \<exists>b \<in> set rows1. sameAuthority a b)"

definition endSession :: "nat \<Rightarrow> Worker \<Rightarrow> AuthSystem \<Rightarrow> AuthSystem" where
  "endSession w d y = y\<lparr>sy_db := d, sy_sessions := (sy_sessions y)(w := None)\<rparr>"

inductive authStep :: "WorkerEnv \<Rightarrow> AuthorityJSON \<Rightarrow> AuthSystem \<Rightarrow> AuthSystem \<Rightarrow> bool" for env j where
  Loaded: "sy_sessions y w = None \<Longrightarrow>
     query env ''load approved authority'' (candidates runID (gr_Operation g) now) (sy_db y) = (Inr as, d) \<Longrightarrow>
     authStep env j y (y\<lparr>sy_db := d, sy_sessions := (sy_sessions y)(w \<mapsto>
       \<lparr>ss_run = runID, ss_grant = g, ss_now = now, ss_left = as\<rparr>)\<rparr>)"
| Skipped: "sy_sessions y w = Some x \<Longrightarrow> ss_left x = a # as \<Longrightarrow>
     judge j (ss_grant x) (ss_now x) a = Inr None \<Longrightarrow>
     authStep env j y (y\<lparr>sy_sessions := (sy_sessions y)(w \<mapsto> x\<lparr>ss_left := as\<rparr>)\<rparr>)"
| Won: "sy_sessions y w = Some x \<Longrightarrow> ss_left x = a # as \<Longrightarrow>
     judge j (ss_grant x) (ss_now x) a = Inr (Some updated) \<Longrightarrow>
     consumeRow env updated (ss_now x) a (sy_db y) = (Inr n, d) \<Longrightarrow> n = 1 \<Longrightarrow>
     authStep env j y ((endSession w d y)\<lparr>sy_consumed := sy_consumed y @ [(ss_run x, ap_ID a, ss_grant x)]\<rparr>)"
| Lost: "sy_sessions y w = Some x \<Longrightarrow> ss_left x = a # as \<Longrightarrow>
     judge j (ss_grant x) (ss_now x) a = Inr (Some updated) \<Longrightarrow>
     consumeRow env updated (ss_now x) a (sy_db y) = (Inr n, d) \<Longrightarrow> n \<noteq> 1 \<Longrightarrow>
     authStep env j y (y\<lparr>sy_db := d, sy_sessions := (sy_sessions y)(w \<mapsto> x\<lparr>ss_left := as\<rparr>)\<rparr>)"
| Unreported: "sy_sessions y w = Some x \<Longrightarrow> ss_left x = a # as \<Longrightarrow>
     judge j (ss_grant x) (ss_now x) a = Inr (Some updated) \<Longrightarrow>
     consumeRow env updated (ss_now x) a (sy_db y) = (r, d) \<Longrightarrow>
     authStep env j y (endSession w d y)"
| Ended: "authStep env j y (endSession w (sy_db y) y)"
| Others: "rowsKept (wk_approvals (sy_db y)) (wk_approvals d) \<Longrightarrow> authStep env j y (y\<lparr>sy_db := d\<rparr>)"

text \<open>Answers and new requests are such steps of others.\<close>

lemma rowsKept_answer:
  assumes "distinct (map ap_ID rows)"
  shows "rowsKept rows (map (\<lambda>a. if ap_ID a = i then respondRow responder response reply now a else a) rows)"
proof -
  let ?f = "\<lambda>a. if ap_ID a = i then respondRow responder response reply now a else a"
  have ids: "map ap_ID (map ?f rows) = map ap_ID rows" by (simp add: respondRow_def)
  have "\<exists>b \<in> set (map ?f rows). sameAuthority a b" if "a \<in> set rows" for a
  proof (rule bexI [of _ "?f a"])
    show "sameAuthority a (?f a)" by (simp add: sameAuthority_def respondRow_def)
    show "?f a \<in> set (map ?f rows)" using that by simp
  qed
  then show ?thesis unfolding rowsKept_def ids using assms by blast
qed

lemma rowsKept_refl: "distinct (map ap_ID rows) \<Longrightarrow> rowsKept rows rows"
  by (auto simp: rowsKept_def sameAuthority_def)

lemma rowsKept_insert:
  assumes "distinct (map ap_ID (wk_approvals s))"
  shows "rowsKept (wk_approvals s) (wk_approvals (snd (insertApproval env what a s)))"
  using assms by (auto simp: rowsKept_def sameAuthority_def insertApproval_def count_def list_ex_iff)

text \<open>What holds of all approvals consumed so far, and of the candidates still to be tried.\<close>

definition consumedIn :: "AuthorityJSON \<Rightarrow> Worker \<Rightarrow> string \<times> string \<times> Grant \<Rightarrow> bool" where
  "consumedIn j d c \<longleftrightarrow> (\<exists>a \<in> set (wk_approvals d). ap_ID a = fst (snd c) \<and> ap_AgentRunID a = Some (fst c) \<and>
     ap_ApprovalType a = ''capability:'' @ gr_Operation (snd (snd c)) \<and>
     (\<exists>m. aj_authority j (ap_Metadata a) = Some m \<and> au_Grant m = Some (snd (snd c)) \<and> au_ConsumedAt m \<noteq> []))"

definition candidateIn :: "Worker \<Rightarrow> AuthSession \<Rightarrow> Approval \<Rightarrow> bool" where
  "candidateIn d x a \<longleftrightarrow> approvedRow (ss_run x) (gr_Operation (ss_grant x)) (ss_now x) a \<and>
     (\<exists>b \<in> set (wk_approvals d). ap_ID b = ap_ID a \<and> ap_AgentRunID b = ap_AgentRunID a \<and> ap_ApprovalType b = ap_ApprovalType a)"

definition singleUse :: "AuthorityJSON \<Rightarrow> AuthSystem \<Rightarrow> bool" where
  "singleUse j y \<longleftrightarrow> distinct (map ap_ID (wk_approvals (sy_db y))) \<and>
     distinct (map (fst \<circ> snd) (sy_consumed y)) \<and>
     (\<forall>c \<in> set (sy_consumed y). consumedIn j (sy_db y) c) \<and>
     (\<forall>w x a. sy_sessions y w = Some x \<and> a \<in> set (ss_left x) \<longrightarrow> candidateIn (sy_db y) x a)"

text \<open>What marking metadata as consumed promises.\<close>

definition marks :: "AuthorityJSON \<Rightarrow> bool" where
  "marks j \<longleftrightarrow> (\<forall>raw now updated m. aj_consume j raw now = Some updated \<and> aj_authority j raw = Some m \<longrightarrow>
     (\<exists>c. c \<noteq> [] \<and> aj_authority j updated = Some (m\<lparr>au_ConsumedAt := c\<rparr>)))"

definition laterRows :: "AuthorityJSON \<Rightarrow> Worker \<Rightarrow> Worker \<Rightarrow> bool" where
  "laterRows j d d1 \<longleftrightarrow> (\<forall>a \<in> set (wk_approvals d). \<exists>b \<in> set (wk_approvals d1).
     ap_ID b = ap_ID a \<and> ap_AgentRunID b = ap_AgentRunID a \<and> ap_ApprovalType b = ap_ApprovalType a \<and>
     (\<forall>m. aj_authority j (ap_Metadata a) = Some m \<and> au_ConsumedAt m \<noteq> [] \<longrightarrow> ap_Metadata b = ap_Metadata a))"

lemma later_consumedIn: "consumedIn j d c \<Longrightarrow> laterRows j d d1 \<Longrightarrow> consumedIn j d1 c"
  unfolding consumedIn_def laterRows_def by metis

lemma later_candidateIn: "candidateIn d x a \<Longrightarrow> laterRows j d d1 \<Longrightarrow> candidateIn d1 x a"
  unfolding candidateIn_def laterRows_def by metis

lemma singleUse_later:
  assumes "singleUse j y" "laterRows j (sy_db y) d" "distinct (map ap_ID (wk_approvals d))"
    and "\<And>w x. f w = Some x \<Longrightarrow> (\<exists>z. sy_sessions y w = Some z \<and> ss_run x = ss_run z \<and> ss_grant x = ss_grant z \<and>
      ss_now x = ss_now z \<and> set (ss_left x) \<subseteq> set (ss_left z)) \<or> (\<forall>a \<in> set (ss_left x). candidateIn d x a)"
  shows "singleUse j (y\<lparr>sy_db := d, sy_sessions := f\<rparr>)"
proof -
  have "candidateIn d x a" if fx: "f w = Some x" and a: "a \<in> set (ss_left x)" for w x a
    using assms(4) [OF fx]
  proof
    assume "\<exists>z. sy_sessions y w = Some z \<and> ss_run x = ss_run z \<and> ss_grant x = ss_grant z \<and>
      ss_now x = ss_now z \<and> set (ss_left x) \<subseteq> set (ss_left z)"
    then obtain z where z: "sy_sessions y w = Some z" "ss_run x = ss_run z" "ss_grant x = ss_grant z"
      "ss_now x = ss_now z" "a \<in> set (ss_left z)" using a by blast
    then have "candidateIn (sy_db y) z a" using assms(1) unfolding singleUse_def by blast
    with z have "candidateIn (sy_db y) x a" by (simp add: candidateIn_def)
    then show ?thesis using assms(2) by (rule later_candidateIn)
  qed (use a in blast)
  then show ?thesis using assms(1-3) later_consumedIn unfolding singleUse_def by auto
qed

lemma later_kept: "rowsKept (wk_approvals d) (wk_approvals d1) \<Longrightarrow> laterRows j d d1"
  unfolding rowsKept_def laterRows_def sameAuthority_def by metis

lemma consumeRow_later:
  assumes "judge j g now0 a = Inr (Some updated)" "consumeRow env updated now a d = (r, d1)"
    and "distinct (map ap_ID (wk_approvals d))"
  shows "laterRows j d d1 \<and> distinct (map ap_ID (wk_approvals d1))"
proof -
  let ?f = "\<lambda>x. if unconsumedRow a x then consumedRow updated now x else x"
  have same: "laterRows j d d1 \<and> distinct (map ap_ID (wk_approvals d1))" if "wk_approvals d1 = wk_approvals d"
    using that assms(3) by (auto simp: laterRows_def)
  obtain m where m: "aj_authority j (ap_Metadata a) = Some m" "au_ConsumedAt m = []"
    using judge_Some [OF assms(1)] by (auto simp: authorises_def)
  have row: "ap_ID (?f x) = ap_ID x \<and> ap_AgentRunID (?f x) = ap_AgentRunID x \<and> ap_ApprovalType (?f x) = ap_ApprovalType x \<and>
     (\<forall>m. aj_authority j (ap_Metadata x) = Some m \<and> au_ConsumedAt m \<noteq> [] \<longrightarrow> ap_Metadata (?f x) = ap_Metadata x)" for x
    using m by (auto simp: unconsumedRow_def consumedRow_def)
  have upd: "laterRows j d d1 \<and> distinct (map ap_ID (wk_approvals d1))" if "wk_approvals d1 = map ?f (wk_approvals d)"
  proof
    show "laterRows j d d1" unfolding laterRows_def that
    proof
      fix x assume "x \<in> set (wk_approvals d)"
      then have "?f x \<in> set (map ?f (wk_approvals d))" by simp
      with row [of x] show "\<exists>b \<in> set (map ?f (wk_approvals d)). ap_ID b = ap_ID x \<and> ap_AgentRunID b = ap_AgentRunID x \<and>
        ap_ApprovalType b = ap_ApprovalType x \<and>
        (\<forall>m. aj_authority j (ap_Metadata x) = Some m \<and> au_ConsumedAt m \<noteq> [] \<longrightarrow> ap_Metadata b = ap_Metadata x)" by blast
    qed
    have "map ap_ID (map ?f (wk_approvals d)) = map ap_ID (wk_approvals d)" using row by simp
    with assms(3) that show "distinct (map ap_ID (wk_approvals d1))" by metis
  qed
  show ?thesis
    using assms(2) same upd
    by (auto simp: consumeRow_def execute_def updApprovals_def updRows_def count_def split: if_splits)
qed

lemma consumeRow_won:
  assumes "judge j g now0 a = Inr (Some updated)" "consumeRow env updated now a d = (Inr 1, d1)" "marks j"
    and "candidateIn d x a" "ss_grant x = g" "distinct (map ap_ID (wk_approvals d))"
    and cond: "aj_consume j (ap_Metadata a) now = Some updated"
  shows "consumedIn j d1 (ss_run x, ap_ID a, g)" and "consumedIn j d c \<Longrightarrow> fst (snd c) \<noteq> ap_ID a"
proof -
  from consumeRow_Inr [OF assms(2)] have n: "length (filter (unconsumedRow a) (wk_approvals d)) = 1"
    and d1: "wk_approvals d1 = updRows (unconsumedRow a) (consumedRow updated now) (wk_approvals d)" by simp_all
  from n have "filter (unconsumedRow a) (wk_approvals d) \<noteq> []" by auto
  then obtain z where z: "z \<in> set (wk_approvals d)" "unconsumedRow a z" by (auto simp: filter_empty_conv)
  obtain b where b: "b \<in> set (wk_approvals d)" "ap_ID b = ap_ID a" "ap_AgentRunID b = ap_AgentRunID a"
    "ap_ApprovalType b = ap_ApprovalType a" and ok: "approvedRow (ss_run x) (gr_Operation g) (ss_now x) a"
    using assms(4,5) by (auto simp: candidateIn_def)
  have uniq: "u = v" if "u \<in> set (wk_approvals d)" "v \<in> set (wk_approvals d)" "ap_ID u = ap_ID v" for u v
    using assms(6) that by (auto simp: distinct_map inj_on_def)
  have zb: "z = b" using uniq z b by (simp add: unconsumedRow_def)
  obtain m where m: "aj_authority j (ap_Metadata a) = Some m" "au_Grant m = Some g" "au_ConsumedAt m = []"
    using judge_Some [OF assms(1)] by (auto simp: authorises_def)
  obtain e where e: "e \<noteq> []" "aj_authority j updated = Some (m\<lparr>au_ConsumedAt := e\<rparr>)"
    using assms(3) cond m(1) unfolding marks_def by blast
  have "consumedRow updated now z \<in> set (wk_approvals d1)" using z by (auto simp: d1 updRows_def)
  moreover have "ap_AgentRunID z = Some (ss_run x)" "ap_ApprovalType z = ''capability:'' @ gr_Operation g" "ap_ID z = ap_ID a"
    using zb b ok by (simp_all add: approvedRow_def)
  ultimately show "consumedIn j d1 (ss_run x, ap_ID a, g)"
    using e m unfolding consumedIn_def by (intro bexI [of _ "consumedRow updated now z"]) (simp_all add: consumedRow_def)
  show "fst (snd c) \<noteq> ap_ID a" if "consumedIn j d c"
  proof
    assume "fst (snd c) = ap_ID a"
    with that obtain q mq where q: "q \<in> set (wk_approvals d)" "ap_ID q = ap_ID a"
      "aj_authority j (ap_Metadata q) = Some mq" "au_ConsumedAt mq \<noteq> []" by (auto simp: consumedIn_def)
    have "q = z" using uniq q z by (simp add: unconsumedRow_def)
    with q z m show False by (simp add: unconsumedRow_def)
  qed
qed

lemma later_refl: "laterRows j d d"
  by (auto simp: laterRows_def)

lemma candidates_in:
  assumes "query env what (candidates (ss_run x) (gr_Operation (ss_grant x)) (ss_now x)) d = (Inr as, d1)" "a \<in> set as"
  shows "candidateIn d1 x a"
proof -
  from query_result(1) [OF assms(1)] assms(2) have "a \<in> set (wk_approvals d1)" "approvedRow (ss_run x) (gr_Operation (ss_grant x)) (ss_now x) a"
    by (auto simp: candidates_def)
  then show ?thesis by (auto simp: candidateIn_def)
qed

lemma singleUse_consumed:
  assumes "singleUse j y" "consumedIn j (sy_db y) c" "\<And>b. b \<in> set (sy_consumed y) \<Longrightarrow> fst (snd b) \<noteq> fst (snd c)"
  shows "singleUse j (y\<lparr>sy_consumed := sy_consumed y @ [c]\<rparr>)"
proof -
  have "fst (snd c) \<notin> (fst \<circ> snd) ` set (sy_consumed y)" using assms(3) by force
  with assms(1,2) show ?thesis unfolding singleUse_def by (simp add: image_image, blast)
qed

lemma authStep_singleUse:
  assumes "authStep env j y z" "marks j" "singleUse j y"
  shows "singleUse j z"
  using assms(1)
proof cases
  case (Loaded w runID g now as d)
  let ?x = "\<lparr>ss_run = runID, ss_grant = g, ss_now = now, ss_left = as\<rparr>"
  have d: "d = count (sy_db y)" using query_result(1) [OF Loaded(3)] by simp
  have c: "candidateIn d ?x a" if "a \<in> set as" for a
    using candidates_in [of env _ ?x, OF _ that] Loaded(3) by simp
  have "singleUse j (y\<lparr>sy_db := d, sy_sessions := (sy_sessions y)(w \<mapsto> ?x)\<rparr>)"
  proof (rule singleUse_later [OF assms(3)])
    show "laterRows j (sy_db y) d" "distinct (map ap_ID (wk_approvals d))"
      using assms(3) by (auto simp: d laterRows_def singleUse_def)
  qed (use c in \<open>auto split: if_splits\<close>)
  with Loaded(1) show ?thesis by simp
next
  case (Skipped w x a as)
  have "singleUse j (y\<lparr>sy_db := sy_db y, sy_sessions := (sy_sessions y)(w \<mapsto> x\<lparr>ss_left := as\<rparr>)\<rparr>)"
    by (rule singleUse_later [OF assms(3) later_refl])
      (use assms(3) Skipped in \<open>auto simp: singleUse_def split: if_splits\<close>)
  with Skipped(1) show ?thesis by simp
next
  case (Won w x a as updated n d)
  have dis: "distinct (map ap_ID (wk_approvals (sy_db y)))" and cand: "candidateIn (sy_db y) x a"
    using assms(3) Won(2,3) unfolding singleUse_def by (blast, metis list.set_intros(1))
  note later = consumeRow_later [OF Won(4,5) dis]
  have ended: "singleUse j (endSession w d y)"
    unfolding endSession_def using later by (intro singleUse_later [OF assms(3)]) (auto split: if_splits)
  have row: "consumeRow env updated (ss_now x) a (sy_db y) = (Inr 1, d)" using Won(5,6) by simp
  have enc: "aj_consume j (ap_Metadata a) (ss_now x) = Some updated" using judge_Some [OF Won(4)] by simp
  note won = consumeRow_won [OF Won(4) row assms(2) cand refl dis enc]
  have "fst (snd b) \<noteq> ap_ID a" if "b \<in> set (sy_consumed y)" for b
    using won(2) assms(3) that unfolding singleUse_def by blast
  then have "singleUse j ((endSession w d y)\<lparr>sy_consumed := sy_consumed (endSession w d y) @ [(ss_run x, ap_ID a, ss_grant x)]\<rparr>)"
    using won(1) by (intro singleUse_consumed [OF ended]) (simp_all add: endSession_def)
  with Won(1) show ?thesis by (simp add: endSession_def)
next
  case (Lost w x a as updated n d)
  have dis: "distinct (map ap_ID (wk_approvals (sy_db y)))" using assms(3) by (simp add: singleUse_def)
  have "singleUse j (y\<lparr>sy_db := d, sy_sessions := (sy_sessions y)(w \<mapsto> x\<lparr>ss_left := as\<rparr>)\<rparr>)"
    using consumeRow_later [OF Lost(4,5) dis] Lost(2,3)
    by (intro singleUse_later [OF assms(3)]) (auto split: if_splits)
  with Lost(1) show ?thesis by simp
next
  case (Unreported w x a as updated r d)
  have dis: "distinct (map ap_ID (wk_approvals (sy_db y)))" using assms(3) by (simp add: singleUse_def)
  have "singleUse j (endSession w d y)"
    unfolding endSession_def using consumeRow_later [OF Unreported(4,5) dis]
    by (intro singleUse_later [OF assms(3)]) (auto split: if_splits)
  with Unreported(1) show ?thesis by simp
next
  case (Ended w)
  have "singleUse j (endSession w (sy_db y) y)"
    unfolding endSession_def using assms(3)
    by (intro singleUse_later [OF assms(3) later_refl]) (auto simp: singleUse_def split: if_splits)
  with Ended show ?thesis by simp
next
  case (Others d)
  have "singleUse j (y\<lparr>sy_db := d, sy_sessions := sy_sessions y\<rparr>)"
    using Others(2) by (intro singleUse_later [OF assms(3) later_kept]) (auto simp: rowsKept_def)
  with Others(1) show ?thesis by simp
qed

lemma authSteps_singleUse: "(authStep env j)\<^sup>*\<^sup>* y z \<Longrightarrow> marks j \<Longrightarrow> singleUse j y \<Longrightarrow> singleUse j z"
  by (induction rule: rtranclp_induct) (auto intro: authStep_singleUse)

text \<open>One runner alone, as the code runs it, takes such steps.\<close>

lemma consumeLoop_steps:
  assumes "consumeLoop env j g now as s = (Inr r, t)" "distinct (map ap_ID (wk_approvals s))" "f w = None"
  shows "\<exists>i. (authStep env j)\<^sup>*\<^sup>*
    \<lparr>sy_db = s, sy_sessions = f(w \<mapsto> \<lparr>ss_run = runID, ss_grant = g, ss_now = now, ss_left = as\<rparr>), sy_consumed = cs\<rparr>
    \<lparr>sy_db = t, sy_sessions = f, sy_consumed = cs @ (if r then [(runID, i, g)] else [])\<rparr>"
  using assms(1,2)
proof (induction as arbitrary: s)
  case Nil
  have none: "f(w := None) = f" using assms(3) by (simp add: fun_upd_idem)
  from authStep.Ended [of env j "\<lparr>sy_db = s, sy_sessions = f(w \<mapsto> \<lparr>ss_run = runID, ss_grant = g, ss_now = now, ss_left = []\<rparr>),
      sy_consumed = cs\<rparr>" w] Nil none show ?case
    by (simp add: endSession_def r_into_rtranclp del: fun_upd_apply)
next
  case (Cons a as)
  let ?x = "\<lambda>l. \<lparr>ss_run = runID, ss_grant = g, ss_now = now, ss_left = l\<rparr>"
  let ?y = "\<lambda>s l. \<lparr>sy_db = s, sy_sessions = f(w \<mapsto> ?x l), sy_consumed = cs\<rparr>"
  have none: "f(w := None) = f" using assms(3) by (simp add: fun_upd_idem)
  show ?case
  proof (cases "judge j g now a")
    case (Inl e)
    with Cons.prems show ?thesis by simp
  next
    case (Inr v)
    show ?thesis
    proof (cases v)
      case None
      have "authStep env j (?y s (a # as)) (?y s as)"
        using authStep.Skipped [of "?y s (a # as)" w "?x (a # as)" a as j env] Inr None by simp
      moreover have "consumeLoop env j g now as s = (Inr r, t)" using Cons.prems(1) Inr None by simp
      ultimately show ?thesis using Cons.IH [OF _ Cons.prems(2)] by (meson converse_rtranclp_into_rtranclp)
    next
      case (Some updated)
      with Inr Cons.prems(1) obtain n u n1 u1 where row: "consumeRow env updated now a s = (Inr n, u)"
        and aff: "rowsAffected env ''check authority approval consumption'' n u = (Inr n1, u1)"
        and rest: "(if n1 = 1 then retE True else consumeLoop env j g now as) u1 = (Inr r, t)"
        by (auto simp: bindE_Inr)
      from query_result(1) [OF aff [unfolded rowsAffected_def]] have n1: "n1 = n" "u1 = count u" by simp_all
      have jd: "judge j g now a = Inr (Some updated)" using Inr Some by simp
      have du: "distinct (map ap_ID (wk_approvals u1))" using consumeRow_later [OF jd row Cons.prems(2)] n1 by simp
      have kept: "rowsKept (wk_approvals u) (wk_approvals u1)" using rowsKept_refl du n1 by simp
      show ?thesis
      proof (cases "n = 1")
        case True
        have "authStep env j (?y s (a # as)) \<lparr>sy_db = u, sy_sessions = f, sy_consumed = cs @ [(runID, ap_ID a, g)]\<rparr>"
          using authStep.Won [of "?y s (a # as)" w "?x (a # as)" a as j updated env n u] row jd True none
          by (simp add: endSession_def)
        moreover have "authStep env j \<lparr>sy_db = u, sy_sessions = f, sy_consumed = cs @ [(runID, ap_ID a, g)]\<rparr>
            \<lparr>sy_db = u1, sy_sessions = f, sy_consumed = cs @ [(runID, ap_ID a, g)]\<rparr>"
          using authStep.Others [of "\<lparr>sy_db = u, sy_sessions = f, sy_consumed = cs @ [(runID, ap_ID a, g)]\<rparr>" u1 env j] kept by simp
        moreover have "r" "t = u1" using rest n1 True by simp_all
        ultimately show ?thesis by (auto simp del: fun_upd_apply intro!: exI [of _ "ap_ID a"] intro: converse_rtranclp_into_rtranclp)
      next
        case False
        have "authStep env j (?y s (a # as)) (?y u as)"
          using authStep.Lost [of "?y s (a # as)" w "?x (a # as)" a as j updated env n u] row jd False by simp
        moreover have "authStep env j (?y u as) (?y u1 as)"
          using authStep.Others [of "?y u as" u1 env j] kept by simp
        moreover have "consumeLoop env j g now as u1 = (Inr r, t)" using rest n1 False by simp
        ultimately show ?thesis using Cons.IH [OF _ du] by (meson converse_rtranclp_into_rtranclp)
      qed
    qed
  qed
qed

lemma consume_steps:
  assumes "consumeApprovedAuthority env j runID g s = (Inr r, t)" "distinct (map ap_ID (wk_approvals s))" "f w = None"
  shows "\<exists>i. (authStep env j)\<^sup>*\<^sup>* \<lparr>sy_db = s, sy_sessions = f, sy_consumed = cs\<rparr>
    \<lparr>sy_db = t, sy_sessions = f, sy_consumed = cs @ (if r then [(runID, i, g)] else [])\<rparr>"
proof (cases "TrimSpace runID = []")
  case True
  with assms(1) show ?thesis by (simp add: consumeApprovedAuthority_def)
next
  case False
  with assms(1) obtain as s1 where now: "timeNow env s = (Inr (en_clock env (wk_n s)), s1)"
    and load: "query env ''load approved authority'' (candidates runID (gr_Operation g) (en_clock env (wk_n s))) s1 = (Inr as, count s1)"
    and loop: "consumeLoop env j g (en_clock env (wk_n s)) as (count s1) = (Inr r, t)"
    by (auto simp: consumeApprovedAuthority_def bindE_Inr timeNow_def query_def split: option.splits if_splits)
  have s1: "s1 = count s" using now by (simp add: timeNow_def)
  let ?y = "\<lambda>d. \<lparr>sy_db = d, sy_sessions = f, sy_consumed = cs\<rparr>"
  have "authStep env j (?y s) (?y s1)"
    using authStep.Others [of "?y s" s1 env j] rowsKept_refl [OF assms(2)] s1 by simp
  moreover have "authStep env j (?y s1) \<lparr>sy_db = count s1, sy_sessions = f(w \<mapsto> \<lparr>ss_run = runID, ss_grant = g,
      ss_now = en_clock env (wk_n s), ss_left = as\<rparr>), sy_consumed = cs\<rparr>"
    using authStep.Loaded [of "?y s1" w env runID g "en_clock env (wk_n s)" as "count s1" j] load assms(3) by simp
  moreover obtain i where "(authStep env j)\<^sup>*\<^sup>* \<lparr>sy_db = count s1, sy_sessions = f(w \<mapsto> \<lparr>ss_run = runID, ss_grant = g,
      ss_now = en_clock env (wk_n s), ss_left = as\<rparr>), sy_consumed = cs\<rparr>
      \<lparr>sy_db = t, sy_sessions = f, sy_consumed = cs @ (if r then [(runID, i, g)] else [])\<rparr>"
    using consumeLoop_steps [where f = f and w = w and runID = runID and cs = cs, OF loop] assms(2,3) s1
    by (simp del: fun_upd_apply) blast
  ultimately have "(authStep env j)\<^sup>*\<^sup>* (?y s)
      \<lparr>sy_db = t, sy_sessions = f, sy_consumed = cs @ (if r then [(runID, i, g)] else [])\<rparr>"
    by (meson converse_rtranclp_into_rtranclp)
  then show ?thesis by blast
qed

section \<open>Authorised tools\<close>

text \<open>The digest of a grant is a visible text.\<close>

lemma hex_digit_plain: "n < 16 \<Longrightarrow> is_plain (hex_digit n)"
proof -
  have "list_all (\<lambda>n. is_plain (hex_digit n)) [0..<16]" by code_simp
  then show "n < 16 \<Longrightarrow> is_plain (hex_digit n)" by (simp add: list_all_iff)
qed

lemma TrimSpace_sha256 [simp]: "TrimSpace (sha256_hex x) = sha256_hex x"
proof (rule TrimSpace_plain)
  have "(of_char c :: nat) div 16 < 16" for c
    by (simp add: less_mult_imp_div_less)
  then have all: "is_plain c" if "c \<in> set (sha256_hex x)" for c
    using that hex_digit_plain by (auto simp: sha256_hex_def EncodeToString_def)
  show "is_plain (hd (sha256_hex x))" "is_plain (last (sha256_hex x))" by (simp_all add: all)
qed simp

lemma grantDigest_visible: "grantDigest g = Inr d \<Longrightarrow> TrimSpace d \<noteq> []"
  by (auto simp: grantDigest_def Digest_def split: sum.splits)

text \<open>A tool that was authorised: the request the kernel saw, its decision and what was consumed for it.\<close>

definition authorised ::
    "AuthorityJSON \<Rightarrow> ToolEnv \<Rightarrow> string \<Rightarrow> CapRequest \<Rightarrow> Approval list \<Rightarrow> Approval list \<Rightarrow> bool" where
  "authorised j te runID req rows rows1 \<longleftrightarrow>
     (\<exists>k. te_kernel te = Some k \<and>
       (let (result, err) = fst (Kernel_Evaluate (te_ftext te) k req) in
          err = None \<and>
          (if res_RequiredApproval result then Grant_Validate (requestGrant req) = None \<and> consumes j runID (requestGrant req) rows rows1
           else rows1 = rows \<and>
             sandboxed req (Evaluate (te_ftext te) (k_policyEngine k) (policyRequest req) EffectAsk)
               \<notin> {EffectDeny, EffectAsk, EffectAdminOnly})))"

lemma toolRevision_approvals: "toolRevision te tool s = (r, t) \<Longrightarrow> wk_approvals t = wk_approvals s \<and> onlyApprovals s t"
  by (auto simp: toolRevision_def approvalsOnly.refl split: if_splits sum.splits)

lemma decided:
  assumes "fst (Kernel_Evaluate ftext k req) = (result, err)"
  shows "res_RequiredApproval result = (res_Effect result \<in> {EffectAsk, EffectAdminOnly})"
    and "res_RequestedGrant result = Some g \<Longrightarrow> g = requestGrant req \<and> Grant_Validate g = None"
    and "res_Effect result \<noteq> EffectDeny \<Longrightarrow>
      res_Effect result = sandboxed req (Evaluate ftext (k_policyEngine k) (policyRequest req) EffectAsk)"
proof -
  have ok: "decision_ok k req (Kernel_Evaluate ftext k req)"
    by (cases rule: Kernel_Evaluate_cases [of req k ftext]) (simp_all add: finish_cases(1))
  with assms show "res_RequiredApproval result = (res_Effect result \<in> {EffectAsk, EffectAdminOnly})"
    and "res_RequestedGrant result = Some g \<Longrightarrow> g = requestGrant req \<and> Grant_Validate g = None"
    by (auto simp: decision_ok_def Let_def)
  show "res_Effect result = sandboxed req (Evaluate ftext (k_policyEngine k) (policyRequest req) EffectAsk)"
    if "res_Effect result \<noteq> EffectDeny"
  proof (cases rule: Kernel_Evaluate_cases [of req k ftext])
    case (decided result0)
    from finish_cases(2) [OF decided(3), where k = k and req = req] decided(4) assms that show ?thesis
      by (metis fst_conv insertE singletonD)
  qed (use that assms in auto)
qed

lemma consumeApproved_result:
  assumes "consumeApprovedAuthority env j runID g s = (Inr r, t)" "distinct (map ap_ID (wk_approvals s))"
  shows "if r then consumes j runID g (wk_approvals s) (wk_approvals t) else wk_approvals t = wk_approvals s"
proof (cases "TrimSpace runID = []")
  case True
  with assms(1) show ?thesis by (simp add: consumeApprovedAuthority_def)
next
  case False
  with assms(1) have loop: "consumeLoop env j g (en_clock env (wk_n s))
      (candidates runID (gr_Operation g) (en_clock env (wk_n s)) (count s)) (count (count s)) = (Inr r, t)"
    by (auto simp: consumeApprovedAuthority_def bindE_Inr timeNow_def query_def split: option.splits if_splits)
  have "\<forall>a \<in> set (candidates runID (gr_Operation g) (en_clock env (wk_n s)) (count s)).
      a \<in> set (wk_approvals (count (count s))) \<and> approvedRow runID (gr_Operation g) (en_clock env (wk_n s)) a"
    by (simp add: candidates_def)
  from consumeLoop_result [OF _ loop this] assms(2) show ?thesis by (cases r) simp_all
qed

lemma authorizeTool_core:
  assumes "authorizeTool env j te run task workspace toolName input s = (Inr (), t)"
    and "distinct (map ap_ID (wk_approvals s))"
  shows "\<exists>operation revision. toolOperation toolName = Some operation \<and>
    (toolRequiresWorkspaceRevision toolName \<longrightarrow> te_revision te (wk_n s) = Inr revision) \<and>
    authorised j te (ar_ID run) (toolRequest te run task workspace toolName operation revision input)
      (wk_approvals s) (wk_approvals t)"
proof -
  from assms(1) obtain k operation revision s1 where k: "te_kernel te = Some k" and op: "toolOperation toolName = Some operation"
    and rev: "toolRevision te toolName s = (Inr revision, s1)"
    by (auto simp: authorizeTool_def bindE_Inr split: option.splits)
  let ?req = "toolRequest te run task workspace toolName operation revision input"
  obtain result err where ev: "fst (Kernel_Evaluate (te_ftext te) k ?req) = (result, err)" by fastforce
  note s1 = toolRevision_approvals [OF rev]
  have r: "toolRequiresWorkspaceRevision toolName \<longrightarrow> te_revision te (wk_n s) = Inr revision"
    using rev by (auto simp: toolRevision_def split: sum.splits)
  note run = assms(1) [unfolded authorizeTool_def k op option.case bindE_def rev prod.case sum.case Let_def ev]
  from run have err: "err = None" and nodeny: "res_Effect result \<noteq> EffectDeny"
    by (auto split: option.splits if_splits)
  have "authorised j te (ar_ID run) ?req (wk_approvals s) (wk_approvals t)"
  proof (cases "res_RequiredApproval result")
    case False
    with run err nodeny have "t = s1" by (simp add: retE_def)
    with decided(3) [OF ev nodeny] decided(1) [OF ev] nodeny False err s1 show ?thesis
      by (simp add: authorised_def k ev)
  next
    case True
    with run err nodeny obtain g where g: "res_RequestedGrant result = Some g"
      and c: "consumeApprovedAuthority env j (ar_ID run) g s1 = (Inr True, t)"
      by (auto split: option.splits prod.splits sum.splits if_splits)
    have eq: "g = requestGrant ?req" and valid: "Grant_Validate (requestGrant ?req) = None"
      using decided(2) [OF ev g] by auto
    from consumeApproved_result [OF c] assms(2) s1 have "consumes j (ar_ID run) g (wk_approvals s) (wk_approvals t)" by simp
    with True err valid eq show ?thesis by (simp add: authorised_def k ev)
  qed
  with op r show ?thesis by blast
qed

text \<open>
  A tool call goes ahead only if the kernel, asked for exactly this tool's operation, resource and (for
  tools that change the workspace) its current revision, did not deny it, and either needed no approval, so
  that its policies and the sandbox do not ask for one, or the call consumed an approval: one row of the
  run, approved and not expired, whose metadata hold exactly the requested grant with its digest and were
  not consumed, is marked as consumed, and no other row changes.
\<close>

theorem authorizeTool_safe:
  assumes "authorizeTool env j te run task workspace toolName input s = (Inr (), t)"
    and "distinct (map ap_ID (wk_approvals s))"
  shows "\<exists>operation revision. toolOperation toolName = Some operation \<and>
    (toolRequiresWorkspaceRevision toolName \<longrightarrow> te_revision te (wk_n s) = Inr revision) \<and>
    authorised j te (ar_ID run) (toolRequest te run task workspace toolName operation revision input)
      (wk_approvals s) (wk_approvals t)"
  using assms by (rule authorizeTool_core)

text \<open>Whatever becomes of a call, consumed approvals stay as they are, and a grant that was consumed is marked.\<close>

definition keptRows :: "AuthorityJSON \<Rightarrow> Worker \<Rightarrow> Worker \<Rightarrow> bool" where
  "keptRows j d d1 \<longleftrightarrow> (distinct (map ap_ID (wk_approvals d)) \<longrightarrow>
     distinct (map ap_ID (wk_approvals d1)) \<and> laterRows j d d1)"

lemma laterRows_trans: "laterRows j d d1 \<Longrightarrow> laterRows j d1 d2 \<Longrightarrow> laterRows j d d2"
  unfolding laterRows_def by metis

interpretation kept: preorder_steps "keptRows j"
  by unfold_locales (use later_refl laterRows_trans in \<open>auto simp: keptRows_def\<close>)

lemma keptRows_same: "wk_approvals d1 = wk_approvals d \<Longrightarrow> keptRows j d d1"
  by (auto simp: keptRows_def laterRows_def)

lemma stays_kept: "\<forall>s. keptRows j s (snd (m s)) \<Longrightarrow> stays (keptRows j) (db m)"
  unfolding stays_def db_def by (auto split: prod.split sum.split) (metis snd_conv)+

lemma stays_queries: "stays (keptRows j) (db (timeNow env))" "stays (keptRows j) (db (query env what f))"
  "stays (keptRows j) (db (rowsAffected env what n))"
  by (rule stays_kept; simp add: keptRows_same timeNow_def query_def rowsAffected_def)+

lemma consumeLoop_kept: "stays (keptRows j) (consumeLoop env j g now as)"
proof (induction as)
  case (Cons a as)
  show ?case
  proof (cases "judge j g now a")
    case (Inl e)
    then show ?thesis by (simp add: kept.stays_steps)
  next
    case (Inr v)
    have row: "stays (keptRows j) (db (consumeRow env updated now a))" if "v = Some updated" for updated
    proof (rule stays_kept, rule allI)
      fix s
      obtain r t where "consumeRow env updated now a s = (r, t)" by fastforce
      with consumeRow_later [of j g now a updated env now s r t] Inr that
      show "keptRows j s (snd (consumeRow env updated now a s))" by (simp add: keptRows_def)
    qed
    show ?thesis
    proof (cases v)
      case None
      with Inr Cons show ?thesis by simp
    next
      case (Some updated)
      with Inr show ?thesis by (auto intro!: kept.stays_steps row stays_queries Cons.IH)
    qed
  qed
qed (simp add: kept.stays_steps)

lemma consume_kept: "stays (keptRows j) (consumeApprovedAuthority env j runID g)"
  by (auto intro!: kept.stays_steps consumeLoop_kept stays_queries simp: consumeApprovedAuthority_def split: option.split)

lemma authorizeTool_kept: "keptRows j s (snd (authorizeTool env j te run task workspace toolName input s))"
proof -
  have rev: "stays (keptRows j) (toolRevision te toolName)"
    by (auto simp: stays_def toolRevision_def keptRows_same split: sum.split)
  have consume: "stays (keptRows j) (\<lambda>s. case consumeApprovedAuthority env j runID g s of
      (Inl e, t) \<Rightarrow> (Inl (ConsumeFailed toolName e), t) | (Inr consumed, t) \<Rightarrow> if consumed then (Inr (), t) else (Inl refused, t))"
    for runID g refused
    using consume_kept [of j env runID g] unfolding stays_def by (auto split: prod.split sum.split) (metis snd_conv)+
  have "stays (keptRows j) (authorizeTool env j te run task workspace toolName input)"
    unfolding authorizeTool_def Let_def case_prod_beta'
    by (auto intro!: kept.stays_steps rev consume [unfolded case_prod_beta'] split: option.split)
  then show ?thesis by (simp add: stays_def)
qed

lemma consumes_marked:
  assumes "consumes j runID g rows (wk_approvals d)" "marks j"
  shows "\<exists>i. consumedIn j d (runID, i, g)"
proof -
  obtain xs a ys now updated where rows: "wk_approvals d = xs @ consumedRow updated now a # ys"
    and ok: "approvedRow runID (gr_Operation g) now a" "authorises j g (ap_Metadata a)"
    and enc: "aj_consume j (ap_Metadata a) now = Some updated"
    using assms(1) unfolding consumes_def by blast
  from ok(2) obtain m where m: "aj_authority j (ap_Metadata a) = Some m" "au_Grant m = Some g" by (auto simp: authorises_def)
  then obtain c where c: "c \<noteq> []" "aj_authority j updated = Some (m\<lparr>au_ConsumedAt := c\<rparr>)"
    using assms(2) enc unfolding marks_def by blast
  have "consumedIn j d (runID, ap_ID a, g)"
    unfolding consumedIn_def using rows ok(1) c m
    by (intro bexI [of _ "consumedRow updated now a"]) (auto simp: consumedRow_def approvedRow_def)
  then show ?thesis ..
qed

text \<open>
  C10. An approval is consumed at most once.  However the runners that consume approvals, and the answers and
  new requests of others, interleave, no approval is consumed twice; and every consumed approval was given
  for the run that consumed it and for exactly the grant it was consumed for, and stays marked as consumed.
\<close>

theorem authority_single_use:
  assumes "marks j" and "distinct (map ap_ID (wk_approvals s))"
    and "(authStep env j)\<^sup>*\<^sup>* \<lparr>sy_db = s, sy_sessions = \<lambda>_. None, sy_consumed = []\<rparr> y"
  shows "distinct (map (fst \<circ> snd) (sy_consumed y)) \<and> (\<forall>c \<in> set (sy_consumed y). consumedIn j (sy_db y) c)"
proof -
  have "singleUse j \<lparr>sy_db = s, sy_sessions = \<lambda>_. None, sy_consumed = []\<rparr>"
    using assms(2) by (simp add: singleUse_def)
  from authSteps_singleUse [OF assms(3,1) this] show ?thesis by (simp add: singleUse_def)
qed

section \<open>From a request to its use\<close>

text \<open>What encoding the metadata of a request and marking them promise.\<close>

definition records :: "AuthorityJSON \<Rightarrow> bool" where
  "records j \<longleftrightarrow> (\<forall>toolName operation resource result g d. \<exists>raw.
     aj_decision j toolName operation resource result (Some (g, d)) = Some raw \<and>
     aj_authority j raw = Some \<lparr>au_Grant = Some g, au_Digest = d, au_ConsumedAt = []\<rparr> \<and>
     (\<forall>now. aj_consume j raw now \<noteq> None))"

text \<open>A row of the run whose metadata are those of a grant.\<close>

definition grantRow :: "AuthorityJSON \<Rightarrow> string \<Rightarrow> Grant \<Rightarrow> string \<Rightarrow> Approval \<Rightarrow> bool" where
  "grantRow j runID g consumedAt a \<longleftrightarrow> ap_AgentRunID a = Some runID \<and> ap_ApprovalType a = ''capability:'' @ gr_Operation g \<and>
     ap_Response a = Some ''approved'' \<and> ap_ExpiresAt a = None \<and>
     (\<exists>d. grantDigest g = Inr d \<and>
        aj_authority j (ap_Metadata a) = Some \<lparr>au_Grant = Some g, au_Digest = d, au_ConsumedAt = consumedAt\<rparr>)"

lemma grantRow_judge:
  assumes "grantRow j runID g c a"
  shows "judge j g now a = (if c \<noteq> [] then Inr None else case aj_consume j (ap_Metadata a) now of
     None \<Rightarrow> Inl (MetadataUnencodable (ap_ID a)) | Some updated \<Rightarrow> Inr (Some updated))"
  using assms grantDigest_visible by (auto simp: grantRow_def judge_def)

lemma grantRow_candidates:
  assumes "wk_approvals s = old @ [a]" "grantRow j runID g c a" "\<forall>b \<in> set old. ap_AgentRunID b \<noteq> Some runID"
  shows "candidates runID (gr_Operation g) now s = [a]"
proof -
  have "filter (approvedRow runID (gr_Operation g) now) old = []"
    using assms(3) by (auto simp: filter_empty_conv approvedRow_def)
  moreover have "approvedRow runID (gr_Operation g) now a" using assms(2) by (simp add: grantRow_def approvedRow_def)
  ultimately show ?thesis using assms(1) by (simp add: candidates_def)
qed

lemma consume_valid:
  assumes "TrimSpace runID \<noteq> []" "Grant_Validate g = None" "\<forall>n. \<not> en_sqlFails env n"
  shows "consumeApprovedAuthority env j runID g s =
    consumeLoop env j g (en_clock env (wk_n s)) (candidates runID (gr_Operation g) (en_clock env (wk_n s)) (count s)) (count (count s))"
  using assms by (simp add: consumeApprovedAuthority_def bindE_def db_def timeNow_def query_def)

lemma candidates_count [simp]: "candidates runID operation now (count s) = candidates runID operation now s"
  by (simp add: candidates_def)

lemma grantDigest_valid: "grantDigest g = Inr d \<Longrightarrow> Grant_Validate g = None"
proof -
  assume "grantDigest g = Inr d"
  then obtain m where "NewManifest [g] = Inr m" by (auto simp: grantDigest_def split: sum.splits)
  then show "Grant_Validate g = None" by (auto simp: NewManifest_Inr validGrants_def)
qed

text \<open>One approval of the run: consumed when it is fresh, refused when it was consumed.\<close>

lemma consume_fresh:
  assumes "wk_approvals s = old @ [a]" "grantRow j runID g [] a" "\<forall>b \<in> set old. ap_AgentRunID b \<noteq> Some runID"
    and "distinct (map ap_ID (old @ [a]))" "TrimSpace runID \<noteq> []" "\<forall>n. \<not> en_sqlFails env n" "marks j"
    and "\<forall>now. aj_consume j (ap_Metadata a) now \<noteq> None"
  shows "\<exists>t b c. consumeApprovedAuthority env j runID g s = (Inr True, t) \<and> wk_approvals t = old @ [b] \<and>
    c \<noteq> [] \<and> grantRow j runID g c b"
proof -
  let ?now = "en_clock env (wk_n s)"
  obtain d where d: "grantDigest g = Inr d"
    and au: "aj_authority j (ap_Metadata a) = Some \<lparr>au_Grant = Some g, au_Digest = d, au_ConsumedAt = []\<rparr>"
    using assms(2) by (auto simp: grantRow_def)
  obtain updated where upd: "aj_consume j (ap_Metadata a) ?now = Some updated" using assms(8) by blast
  have "\<exists>c. c \<noteq> [] \<and> aj_authority j updated =
      Some (\<lparr>au_Grant = Some g, au_Digest = d, au_ConsumedAt = []\<rparr>\<lparr>au_ConsumedAt := c\<rparr>)"
    using assms(7) upd au unfolding marks_def by blast
  then obtain c where c: "c \<noteq> []" "aj_authority j updated = Some \<lparr>au_Grant = Some g, au_Digest = d, au_ConsumedAt = c\<rparr>"
    by auto
  have jd: "judge j g ?now a = Inr (Some updated)" using grantRow_judge [OF assms(2)] upd by simp
  have ap: "ap_Response a = Some ''approved''" using assms(2) by (simp add: grantRow_def)
  obtain xs ys where sp: "old @ [a] = xs @ a # ys"
    "updRows (unconsumedRow a) (consumedRow updated ?now) (old @ [a]) = xs @ consumedRow updated ?now a # ys"
    "length (filter (unconsumedRow a) (old @ [a])) = 1"
    using unconsumed_split [OF assms(4) _ ap, of "consumedRow updated ?now"] by auto
  have "ys = []" using sp(1) assms(4) by (cases ys rule: rev_cases) auto
  then have upd2: "updRows (unconsumedRow a) (consumedRow updated ?now) (old @ [a]) = old @ [consumedRow updated ?now a]"
    using sp by simp
  let ?t = "count (count ((count (count s))\<lparr>wk_approvals := old @ [consumedRow updated ?now a]\<rparr>))"
  have "consumeApprovedAuthority env j runID g s = (Inr True, ?t)"
    unfolding consume_valid [OF assms(5) grantDigest_valid [OF d] assms(6)] candidates_count
      grantRow_candidates [OF assms(1-3)]
    using jd upd2 sp(3) assms(1,6)
    by (simp add: bindE_def db_def consumeRow_def execute_def updApprovals_def rowsAffected_def query_def retE_def count_def)
  moreover have "grantRow j runID g c (consumedRow updated ?now a)"
    using assms(2) d c by (simp add: grantRow_def consumedRow_def)
  ultimately show ?thesis using c(1) by (intro exI conjI) (auto simp: count_def)
qed

lemma consume_used:
  assumes "wk_approvals s = old @ [a]" "grantRow j runID g c a" "c \<noteq> []" "\<forall>b \<in> set old. ap_AgentRunID b \<noteq> Some runID"
    and "TrimSpace runID \<noteq> []" "\<forall>n. \<not> en_sqlFails env n"
  shows "consumeApprovedAuthority env j runID g s = (Inr False, count (count s))"
proof -
  obtain d where d: "grantDigest g = Inr d" using assms(2) by (auto simp: grantRow_def)
  show ?thesis
    unfolding consume_valid [OF assms(5) grantDigest_valid [OF d] assms(6)] candidates_count
      grantRow_candidates [OF assms(1,2,4)]
    using grantRow_judge [OF assms(2)] assms(3) by (simp add: retE_def)
qed

definition atRevision :: "string \<Rightarrow> Worker \<Rightarrow> Worker" where
  "atRevision toolName s = (if toolRequiresWorkspaceRevision toolName then count s else s)"

lemma atRevision_approvals [simp]: "wk_approvals (atRevision toolName s) = wk_approvals s"
  by (simp add: atRevision_def)

lemma authorizeTool_asks:
  assumes "te_kernel te = Some k" "toolOperation toolName = Some operation" "\<forall>n. te_revision te n = Inr revision"
    and "req = toolRequest te run task workspace toolName operation (if toolRequiresWorkspaceRevision toolName then revision else []) input"
    and "fst (Kernel_Evaluate (te_ftext te) k req) = (result, None)"
    and "res_RequiredApproval result" "res_RequestedGrant result = Some g"
    and "consumeApprovedAuthority env j (ar_ID run) g (atRevision toolName s) = (Inr consumed, t)"
  shows "authorizeTool env j te run task workspace toolName input s =
    (if consumed then Inr () else Inl (CapabilityDecision toolName operation (q_Resource req) result), t)"
proof -
  have "res_Effect result \<noteq> EffectDeny" using decided(1) [OF assms(5)] assms(6) by auto
  moreover have "toolRevision te toolName s = (Inr (if toolRequiresWorkspaceRevision toolName then revision else []), atRevision toolName s)"
    using assms(3) by (simp add: toolRevision_def atRevision_def)
  ultimately show ?thesis
    using assms(1,2,5-8) by (simp add: authorizeTool_def bindE_def Let_def assms(4) [symmetric])
qed

text \<open>A refusal that asks for approval comes from the kernel and leaves the approvals alone.\<close>

lemma authorizeTool_refused:
  assumes "authorizeTool env j te run task workspace toolName input s = (Inl (CapabilityDecision tn op res result), t)"
    and "res_RequiredApproval result" "res_RequestedGrant result = Some g" "\<forall>n. te_revision te n = Inr revision"
    and "distinct (map ap_ID (wk_approvals s))"
    and "req = toolRequest te run task workspace toolName op (if toolRequiresWorkspaceRevision toolName then revision else []) input"
  obtains k where "te_kernel te = Some k" "toolOperation toolName = Some op" "tn = toolName" "res = q_Resource req"
    "fst (Kernel_Evaluate (te_ftext te) k req) = (result, None)" "gr_Operation g = op" "wk_approvals t = wk_approvals s"
proof -
  from assms(1) obtain k where k: "te_kernel te = Some k" by (auto simp: authorizeTool_def split: option.splits)
  with assms(1) obtain operation where op: "toolOperation toolName = Some operation"
    by (auto simp: authorizeTool_def split: option.splits)
  let ?rev = "if toolRequiresWorkspaceRevision toolName then revision else []"
  have rev: "toolRevision te toolName s = (Inr ?rev, atRevision toolName s)"
    using assms(4) by (simp add: toolRevision_def atRevision_def)
  let ?req = "toolRequest te run task workspace toolName operation ?rev input"
  obtain result1 err where ev: "fst (Kernel_Evaluate (te_ftext te) k ?req) = (result1, err)" by fastforce
  note asked = assms(1) [unfolded authorizeTool_def k op option.case bindE_def rev prod.case sum.case Let_def ev]
  have err: "err = None" using asked by (cases err) (simp_all add: failE_def)
  have not_deny: "res_Effect result1 \<noteq> EffectDeny"
  proof
    assume "res_Effect result1 = EffectDeny"
    with asked err have "result1 = result" by (simp add: failE_def)
    with \<open>res_Effect result1 = EffectDeny\<close> decided(1) [OF ev] assms(2) show False by simp
  qed
  have need: "res_RequiredApproval result1"
    using asked err not_deny by (cases "res_RequiredApproval result1") (simp_all add: retE_def)
  have same: "result1 = result" "tn = toolName" "op = operation" "res = q_Resource ?req"
    using asked err not_deny need by (auto simp: failE_def split: option.splits prod.splits sum.splits if_splits)
  from asked err not_deny need same(1) assms(3)
  have c: "consumeApprovedAuthority env j (ar_ID run) g (atRevision toolName s) = (Inr False, t)"
    by (auto split: prod.splits sum.splits if_splits)
  have "gr_Operation g = op"
    using decided(2) [OF ev] assms(3) same by (auto simp: requestGrant_def toolRequest_def)
  moreover have "wk_approvals t = wk_approvals s" using consumeApproved_result [OF c] assms(5) by simp
  ultimately show thesis using that k op ev err same assms(6) by blast
qed

lemma publishEvent_approvals: "unheeded (publishEvent env bus subject event) s = (r, t) \<Longrightarrow> wk_approvals t = wk_approvals s"
  by (auto simp: unheeded_def publishEvent_def db_def publish_def retE_def count_def act_def split: if_splits)

lemma requested_row:
  assumes "requestCapabilityApproval env bus j (Some run) (Some task) tn op res result s = (Inr (), t)"
    and "res_RequestedGrant result = Some g" "gr_Operation g = op" "records j"
    and "distinct (map ap_ID (wk_approvals s))"
  obtains a where "wk_approvals t = wk_approvals s @ [a]" "distinct (map ap_ID (wk_approvals s @ [a]))"
    "\<And>responder reply now. grantRow j (ar_ID run) g [] (respondRow responder ''approved'' reply now a)"
    "\<forall>now. aj_consume j (ap_Metadata a) now \<noteq> None"
proof -
  define i where "i = en_uuid env (wk_n s)"
  define now where "now = en_clock env (wk_n (count s))"
  define s1 where "s1 = count (count s)"
  have s1: "wk_approvals s1 = wk_approvals s" by (simp add: s1_def)
  from assms(1) obtain raw s2 event where raw: "capabilityApprovalMetadata j tn op res result = Inr raw"
    and ins: "insertApproval env ''create approval'' (requestRow i task (Some (ar_ID run)) (''capability:'' @ op) raw now) s1 = (Inr (), s2)"
    and event: "unheeded (publishEvent env bus ''approval.requested'' event) s2 = (Inr (), t)"
    unfolding i_def now_def s1_def
    by (auto simp: requestCapabilityApproval_def bindE_Inr newUUID_def timeNow_def failE_def split: sum.splits)
  note pub = publishEvent_approvals [OF event]
  let ?a = "requestRow i task (Some (ar_ID run)) (''capability:'' @ op) raw now"
  from raw assms(2) obtain d where d: "grantDigest g = Inr d" "aj_decision j tn op res result (Some (g, d)) = Some raw"
    by (auto simp: capabilityApprovalMetadata_def Let_def split: sum.splits option.splits)
  from assms(4) d(2) have au: "aj_authority j raw = Some \<lparr>au_Grant = Some g, au_Digest = d, au_ConsumedAt = []\<rparr>"
    "\<forall>now. aj_consume j raw now \<noteq> None" unfolding records_def by (metis option.inject)+
  have new: "wk_approvals s2 = wk_approvals s1 @ [?a]" "i \<notin> ap_ID ` set (wk_approvals s1)"
    using ins by (auto simp: insertApproval_def count_def list_ex_iff requestRow_def split: if_splits)
  show thesis
  proof (rule that)
    show "wk_approvals t = wk_approvals s @ [?a]" using new pub s1 by simp
    show "distinct (map ap_ID (wk_approvals s @ [?a]))" using new s1 assms(5) by (auto simp: requestRow_def)
    show "grantRow j (ar_ID run) g [] (respondRow responder ''approved'' reply now1 ?a)" for responder reply now1
      using au(1) d(1) assms(3) by (simp add: grantRow_def respondRow_def requestRow_def)
    show "\<forall>now. aj_consume j (ap_Metadata ?a) now \<noteq> None" using au(2) by (simp add: requestRow_def)
  qed
qed

text \<open>
  A call that was refused for want of an approval, its request, and the answer; then another call whose
  grant is the same.
\<close>

lemma approved_call:
  assumes "authorizeTool env j te run (Some task) workspace toolName input s = (Inl (CapabilityDecision tn op res result), s1)"
    and "res_RequiredApproval result" and "res_RequestedGrant result = Some g"
    and "requestCapabilityApproval env bus j (Some run) (Some task) tn op res result s1 = (Inr (), s2)"
    and "wk_approvals s3 = map (\<lambda>a. if ap_ID a = ap_ID (last (wk_approvals s2))
           then respondRow responder ''approved'' reply now a else a) (wk_approvals s2)"
    and "distinct (map ap_ID (wk_approvals s))" and "\<forall>a \<in> set (wk_approvals s). ap_AgentRunID a \<noteq> Some (ar_ID run)"
    and "TrimSpace (ar_ID run) \<noteq> []" and "\<forall>n. \<not> en_sqlFails env n" and "\<forall>n. te_revision te n = Inr revision"
    and "marks j" and "records j"
    and "req = toolRequest te run (Some task) workspace toolName op (if toolRequiresWorkspaceRevision toolName then revision else [])"
    and "\<And>k. te_kernel te = Some k \<Longrightarrow> fst (Kernel_Evaluate (te_ftext te) k (req input)) = (result, None) \<Longrightarrow>
      fst (Kernel_Evaluate (te_ftext te) k (req input1)) = (result1, None) \<and> res_RequiredApproval result1 \<and>
      res_RequestedGrant result1 = Some g"
  shows "\<exists>s4 s5. authorizeTool env j te run (Some task) workspace toolName input1 s3 = (Inr (), s4) \<and>
    authorizeTool env j te run (Some task) workspace toolName input1 s4 =
      (Inl (CapabilityDecision tn op (q_Resource (req input1)) result1), s5) \<and> res = q_Resource (req input)"
proof -
  from authorizeTool_refused [OF assms(1-3,10,6) refl] obtain k where
    k: "te_kernel te = Some k" "toolOperation toolName = Some op" and eq: "tn = toolName" "res = q_Resource (req input)"
    and ev: "fst (Kernel_Evaluate (te_ftext te) k (req input)) = (result, None)" and g: "gr_Operation g = op"
    and s1: "wk_approvals s1 = wk_approvals s" unfolding assms(13) .
  from assms(14) [OF k(1) ev] have ev1: "fst (Kernel_Evaluate (te_ftext te) k (req input1)) = (result1, None)"
    and r1: "res_RequiredApproval result1" and g1: "res_RequestedGrant result1 = Some g" by simp_all
  note asks = authorizeTool_asks [OF k assms(10) assms(13) [THEN fun_cong] ev1 r1 g1]
  let ?old = "wk_approvals s1"
  obtain a where s2: "wk_approvals s2 = ?old @ [a]" and dis: "distinct (map ap_ID (?old @ [a]))"
    and row: "grantRow j (ar_ID run) g [] (respondRow responder ''approved'' reply now a)"
    and enc: "\<forall>now. aj_consume j (ap_Metadata a) now \<noteq> None"
    using requested_row [OF assms(4,3) g assms(12)] assms(6) s1 by (metis (no_types, lifting))
  let ?b = "respondRow responder ''approved'' reply now a"
  have "map (\<lambda>x. if ap_ID x = ap_ID a then respondRow responder ''approved'' reply now x else x) ?old = ?old"
    using dis by (auto intro!: map_idI) (metis image_eqI)
  then have s3: "wk_approvals (atRevision toolName s3) = ?old @ [?b]" using assms(5) s2 by simp
  have others: "\<forall>b \<in> set ?old. ap_AgentRunID b \<noteq> Some (ar_ID run)" using assms(7) s1 by simp
  have dis2: "distinct (map ap_ID (?old @ [?b]))" using dis by (simp add: respondRow_def)
  have enc2: "\<forall>now. aj_consume j (ap_Metadata ?b) now \<noteq> None" using enc by (simp add: respondRow_def)
  from consume_fresh [OF s3 row others dis2 assms(8,9,11) enc2] obtain s4 b c where
    c: "consumeApprovedAuthority env j (ar_ID run) g (atRevision toolName s3) = (Inr True, s4)"
    and s4: "wk_approvals s4 = ?old @ [b]" "c \<noteq> []" "grantRow j (ar_ID run) g c b" by blast
  have s4r: "wk_approvals (atRevision toolName s4) = ?old @ [b]" using s4(1) by simp
  note c2 = consume_used [OF s4r s4(3,2) others assms(8,9)]
  from asks [OF c] asks [OF c2] eq show ?thesis by simp
qed


definition sameResource :: "ToolEnv \<Rightarrow> string \<Rightarrow> string \<Rightarrow> bool" where
  "sameResource te input1 input2 \<longleftrightarrow> (case (te_decode te input1, te_decode te input2) of
     (Some o1, Some o2) \<Rightarrow>
       (\<exists>p. p \<noteq> [] \<and> o1 ''path'' = Some (AString p) \<and> o2 ''path'' = Some (AString p)) \<or>
       o1 ''path'' = None \<and> o1 ''command'' = None \<and> o1 ''query'' = None \<and>
       o2 ''path'' = None \<and> o2 ''command'' = None \<and> o2 ''query'' = None
   | _ \<Rightarrow> False)"

lemma sameResource_eq:
  assumes "sameResource te input1 input2"
  shows "toolResource (te_decode te) toolName input1 = toolResource (te_decode te) toolName input2"
proof (cases "te_decode te input1")
  case None
  with assms show ?thesis by (simp add: sameResource_def)
next
  case (Some o1)
  show ?thesis
  proof (cases "te_decode te input2")
    case None
    with assms Some show ?thesis by (simp add: sameResource_def)
  next
    case o2: (Some o2)
    note alt = assms [unfolded sameResource_def Some o2 prod.case option.case]
    then show ?thesis
    proof (elim disjE exE conjE)
      fix p assume "p \<noteq> []" "o1 ''path'' = Some (AString p)" "o2 ''path'' = Some (AString p)"
      then show ?thesis by (simp add: toolResource_def Some o2)
    next
      assume "o1 ''path'' = None" "o1 ''command'' = None" "o1 ''query'' = None"
        "o2 ''path'' = None" "o2 ''command'' = None" "o2 ''query'' = None"
      then show ?thesis by (simp add: toolResource_def Some o2)
    qed
  qed
qed

text \<open>
  C12. A grant binds less than the call.  The resource of a call is its path if it has one, before its
  command, and the name of the tool if it has neither: when a call is refused for want of an approval and
  the approval is requested and given, then another call of the tool goes ahead on it, a command with the same
  path or another patch, if it needs an approval too.
\<close>

theorem grant_not_exact:
  assumes "authorizeTool env j te run (Some task) workspace toolName input s = (Inl (CapabilityDecision tn op res result), s1)"
    and "res_RequiredApproval result" and "res_RequestedGrant result = Some g"
    and "requestCapabilityApproval env bus j (Some run) (Some task) tn op res result s1 = (Inr (), s2)"
    and "wk_approvals s3 = map (\<lambda>a. if ap_ID a = ap_ID (last (wk_approvals s2))
           then respondRow responder ''approved'' reply now a else a) (wk_approvals s2)"
    and "distinct (map ap_ID (wk_approvals s))" and "\<forall>a \<in> set (wk_approvals s). ap_AgentRunID a \<noteq> Some (ar_ID run)"
    and "TrimSpace (ar_ID run) \<noteq> []" and "\<forall>n. \<not> en_sqlFails env n" and "\<forall>n. te_revision te n = Inr revision"
    and "marks j" and "records j"
    and "sameResource te input input1" and "te_kernel te = Some k"
    and "fst (Kernel_Evaluate (te_ftext te) k (toolRequest te run (Some task) workspace toolName op
      (if toolRequiresWorkspaceRevision toolName then revision else []) input1)) = (result1, None)"
    and "res_RequiredApproval result1" and "res_RequestedGrant result1 \<noteq> None"
  shows "\<exists>s4. authorizeTool env j te run (Some task) workspace toolName input1 s3 = (Inr (), s4)"
proof -
  let ?req = "toolRequest te run (Some task) workspace toolName op (if toolRequiresWorkspaceRevision toolName then revision else [])"
  have "toolResource (te_decode te) toolName input = toolResource (te_decode te) toolName input1"
    using assms(13) by (rule sameResource_eq)
  then have same: "requestGrant (?req input) = requestGrant (?req input1)"
    by (simp add: requestGrant_def toolRequest_def)
  obtain g1 where g1: "res_RequestedGrant result1 = Some g1" using assms(17) by blast
  have "fst (Kernel_Evaluate (te_ftext te) l (?req input1)) = (result1, None) \<and> res_RequiredApproval result1 \<and>
      res_RequestedGrant result1 = Some g"
    if "te_kernel te = Some l" "fst (Kernel_Evaluate (te_ftext te) l (?req input)) = (result, None)" for l
  proof -
    have "l = k" using that(1) assms(14) by simp
    moreover have "g1 = g" using decided(2) [OF that(2) assms(3)] decided(2) [OF assms(15) g1] same by simp
    ultimately show ?thesis using assms(15,16) g1 by simp
  qed
  from approved_call [OF assms(1-12) refl this] show ?thesis by blast
qed

section \<open>Concrete inputs\<close>

text \<open>Texts with their length before them, and metadata of a grant and its digest in such texts.\<close>

definition framed :: "string \<Rightarrow> string" where
  "framed s = map (\<lambda>_. CHR ''1'') s @ CHR ''0'' # s"

definition unframe :: "string \<Rightarrow> string \<times> string" where
  "unframe t = (let n = length (takeWhile (\<lambda>c. c = CHR ''1'') t); r = drop (Suc n) t in (take n r, drop n r))"

lemma unframe_framed [simp]: "unframe (framed s @ t) = (s, t)" "unframe (framed s) = (s, [])"
proof -
  have n: "length (takeWhile (\<lambda>c. c = CHR ''1'') (map (\<lambda>_. CHR ''1'') s @ CHR ''0'' # u)) = length s" for u
    by (induction s) auto
  have d: "drop (Suc (length s)) (map (\<lambda>_. CHR ''1'') s @ CHR ''0'' # u) = u" for u by simp
  show "unframe (framed s @ t) = (s, t)" using n [of "s @ t"] d [of "s @ t"] by (simp add: unframe_def framed_def Let_def)
  show "unframe (framed s) = (s, [])" using n [of s] d [of s] by (simp add: unframe_def framed_def Let_def)
qed

definition sampleMeta :: "Grant \<Rightarrow> string \<Rightarrow> string" where
  "sampleMeta g d = ''m'' @ framed (gr_Operation g) @ framed (gr_Resource g) @ framed (gr_Revision g) @ framed d"

definition sampleJSON :: AuthorityJSON where
  "sampleJSON =
     \<lparr>aj_authority = (\<lambda>raw. case raw of [] \<Rightarrow> None | c # t \<Rightarrow>
        (let (op, t1) = unframe t; (rs, t2) = unframe t1; (rev, t3) = unframe t2; (d, t4) = unframe t3
         in Some \<lparr>au_Grant = Some \<lparr>gr_Operation = op, gr_Resource = rs, gr_Revision = rev\<rparr>, au_Digest = d,
              au_ConsumedAt = (if c = CHR ''c'' then ''now'' else [])\<rparr>)),
      aj_consume = (\<lambda>raw now. case raw of [] \<Rightarrow> None | c # t \<Rightarrow> Some (CHR ''c'' # t)),
      aj_decision = (\<lambda>_ _ _ _ authority. case authority of None \<Rightarrow> Some [] | Some (g, d) \<Rightarrow> Some (sampleMeta g d)),
      aj_reason = (\<lambda>_ _. Some [])\<rparr>"

lemma sampleJSON_laws: "marks sampleJSON" "records sampleJSON"
  by (auto simp: marks_def records_def sampleJSON_def sampleMeta_def Let_def split: list.splits prod.splits)

definition grantDigestOf :: "Grant \<Rightarrow> string" where
  "grantDigestOf g = sha256_hex (digestPayload [g])"

lemma grantDigest_of: "Grant_Validate g = None \<Longrightarrow> grantDigest g = Inr (grantDigestOf g)"
  by (simp add: grantDigest_def grantDigestOf_def Digest_def NewManifest_def Manifest_Validate_def)

definition sampleToolEnv :: ToolEnv where
  "sampleToolEnv =
     \<lparr>te_ftext = (\<lambda>_. ''0''), te_kernel = Some sample_kernel,
      te_decode = (\<lambda>t. Some (Map.empty(''path'' \<mapsto> AString ''Makefile'', ''command'' \<mapsto> AString t))),
      te_revision = (\<lambda>_. Inr ''git-tree:1''), te_organization = (\<lambda>_. None)\<rparr>"

definition sampleToolGrant :: Grant where
  "sampleToolGrant = \<lparr>gr_Operation = ''run_command'', gr_Resource = ''Makefile'', gr_Revision = ''git-tree:1''\<rparr>"

abbreviation sampleAgent :: AgentRun where
  "sampleAgent \<equiv> sampleRun ''r1'' ''running''"

abbreviation sampleAgentTask :: ModelTask where
  "sampleAgentTask \<equiv> sampleWorkerTask ''running''"

definition sampleToolRequest :: "string \<Rightarrow> CapRequest" where
  "sampleToolRequest input =
     toolRequest sampleToolEnv sampleAgent (Some sampleAgentTask) None ''run_command'' ''run_command'' ''git-tree:1'' input"

definition sampleToolDecision :: "string \<Rightarrow> CapResult" where
  "sampleToolDecision input = fst (fst (Kernel_Evaluate (te_ftext sampleToolEnv) sample_kernel (sampleToolRequest input)))"

definition sampleCall :: "string \<Rightarrow> (Worker, run_error, unit) gostep" where
  "sampleCall = authorizeTool (sampleEnv False False) sampleJSON sampleToolEnv sampleAgent (Some sampleAgentTask) None ''run_command''"

definition sampleGranted :: Approval where
  "sampleGranted = respondRow ''u2'' ''approved'' ''ok'' 2
     (requestRow ''a1'' sampleAgentTask (Some ''r1'') ''capability:run_command'' (sampleMeta sampleToolGrant (grantDigestOf sampleToolGrant)) 1)"

lemma sample_decisions:
  "res_RequiredApproval (sampleToolDecision ''make'')" "res_RequestedGrant (sampleToolDecision ''make'') = Some sampleToolGrant"
  "snd (fst (Kernel_Evaluate (te_ftext sampleToolEnv) sample_kernel (sampleToolRequest ''make''))) = None"
  "res_RequiredApproval (sampleToolDecision ''rm *'')" "res_RequestedGrant (sampleToolDecision ''rm *'') = Some sampleToolGrant"
  "snd (fst (Kernel_Evaluate (te_ftext sampleToolEnv) sample_kernel (sampleToolRequest ''rm *''))) = None"
  by code_simp+

lemma sample_evaluations:
  "fst (Kernel_Evaluate (te_ftext sampleToolEnv) sample_kernel (sampleToolRequest ''make'')) = (sampleToolDecision ''make'', None)"
  "fst (Kernel_Evaluate (te_ftext sampleToolEnv) sample_kernel (sampleToolRequest ''rm *'')) = (sampleToolDecision ''rm *'', None)"
  using sample_decisions(3,6) by (simp_all add: sampleToolDecision_def prod_eq_iff)

lemma sample_environment:
  "te_kernel sampleToolEnv = Some sample_kernel" "toolOperation ''run_command'' = Some ''run_command''"
  "\<forall>n. te_revision sampleToolEnv n = Inr ''git-tree:1''" "\<forall>n. \<not> en_sqlFails (sampleEnv False False) n"
  "TrimSpace ''r1'' \<noteq> []" "ar_ID sampleAgent = ''r1''" "toolRequiresWorkspaceRevision ''run_command''" "wk_approvals sampleWorker = []"
  "Grant_Validate sampleToolGrant = None" "gr_Operation sampleToolGrant = ''run_command''"
  "q_Resource (sampleToolRequest input) = ''Makefile''"
  by (simp_all add: sampleToolEnv_def sampleEnv_def sampleRun_def queuedRun_def sampleWorker_def toolOperation_def
      toolRequiresWorkspaceRevision_def sampleToolRequest_def toolRequest_def toolResource_def sampleToolGrant_def Grant_Validate_def
      invalidToken_def ContainsChar_def NUL_def)

lemma sample_request:
  "toolRequest sampleToolEnv sampleAgent (Some sampleAgentTask) None ''run_command'' ''run_command''
    (if toolRequiresWorkspaceRevision ''run_command'' then ''git-tree:1'' else []) = sampleToolRequest"
  by (simp add: sampleToolRequest_def sample_environment fun_eq_iff)

lemma sample_row: "grantRow sampleJSON ''r1'' sampleToolGrant [] sampleGranted"
  using grantDigest_of [of sampleToolGrant]
  by (simp add: grantRow_def sampleGranted_def respondRow_def requestRow_def sampleJSON_def sampleMeta_def sample_environment)

lemma sample_consumed:
  "\<exists>t b c. consumeApprovedAuthority (sampleEnv False False) sampleJSON ''r1'' sampleToolGrant
     (atRevision ''run_command'' (sampleWorker\<lparr>wk_approvals := [sampleGranted]\<rparr>)) = (Inr True, t) \<and>
     wk_approvals t = [] @ [b] \<and> c \<noteq> [] \<and> grantRow sampleJSON ''r1'' sampleToolGrant c b"
  by (rule consume_fresh [OF _ sample_row])
    (use sample_environment sampleJSON_laws in \<open>simp_all add: sampleGranted_def respondRow_def requestRow_def sampleJSON_def sampleMeta_def\<close>)

lemma sample_first:
  "\<exists>s1. sampleCall ''make'' sampleWorker =
     (Inl (CapabilityDecision ''run_command'' ''run_command'' ''Makefile'' (sampleToolDecision ''make'')), s1)"
proof -
  have "candidates ''r1'' (gr_Operation sampleToolGrant) now s = []" if "wk_approvals s = []" for now s
    using that by (simp add: candidates_def)
  then have "consumeApprovedAuthority (sampleEnv False False) sampleJSON (ar_ID sampleAgent) sampleToolGrant
      (atRevision ''run_command'' sampleWorker) = (Inr False, count (count (atRevision ''run_command'' sampleWorker)))"
    using sample_environment by (simp add: consume_valid retE_def)
  from authorizeTool_asks [OF sample_environment(1-3) sample_request [symmetric, THEN fun_cong]
      sample_evaluations(1) sample_decisions(1,2) this] show ?thesis
    by (simp add: sampleCall_def sample_environment)
qed

lemma sample_requested:
  "\<exists>s2. requestCapabilityApproval (sampleEnv False False) True sampleJSON (Some sampleAgent) (Some sampleAgentTask)
     ''run_command'' ''run_command'' ''Makefile'' (sampleToolDecision ''make'') s1 = (Inr (), s2)"
  if "wk_approvals s1 = []"
  using that sample_decisions(2) grantDigest_of [OF sample_environment(9)]
  by (simp add: requestCapabilityApproval_def bindE_def db_def newUUID_def timeNow_def capabilityApprovalMetadata_def Let_def
      sampleJSON_def insertApproval_def sampleEnv_def unheeded_def count_def)

lemma sample_asked:
  obtains s1 s2 where "sampleCall ''make'' sampleWorker =
      (Inl (CapabilityDecision ''run_command'' ''run_command'' ''Makefile'' (sampleToolDecision ''make'')), s1)"
    and "requestCapabilityApproval (sampleEnv False False) True sampleJSON (Some sampleAgent) (Some sampleAgentTask)
      ''run_command'' ''run_command'' ''Makefile'' (sampleToolDecision ''make'') s1 = (Inr (), s2)"
proof -
  obtain s1 where s1: "sampleCall ''make'' sampleWorker =
      (Inl (CapabilityDecision ''run_command'' ''run_command'' ''Makefile'' (sampleToolDecision ''make'')), s1)"
    using sample_first by blast
  have "distinct (map ap_ID (wk_approvals sampleWorker))" by (simp add: sample_environment)
  from authorizeTool_refused [OF s1 [unfolded sampleCall_def] sample_decisions(1,2) sample_environment(3) this refl]
  have "wk_approvals s1 = []" using sample_environment(8) by metis
  then show thesis using that [OF s1] sample_requested by blast
qed

theorem authorizeTool_safe_witness:
  "\<exists>t :: Worker. authorised sampleJSON sampleToolEnv ''r1'' (sampleToolRequest ''make'') [sampleGranted] (wk_approvals t)"
proof -
  let ?s = "sampleWorker\<lparr>wk_approvals := [sampleGranted]\<rparr>"
  obtain t where c: "consumeApprovedAuthority (sampleEnv False False) sampleJSON (ar_ID sampleAgent) sampleToolGrant
      (atRevision ''run_command'' ?s) = (Inr True, t)"
    using sample_consumed sample_environment(6) by auto
  from authorizeTool_asks [OF sample_environment(1-3) sample_request [symmetric, THEN fun_cong]
      sample_evaluations(1) sample_decisions(1,2) c]
  have call: "authorizeTool (sampleEnv False False) sampleJSON sampleToolEnv sampleAgent (Some sampleAgentTask) None
      ''run_command'' ''make'' ?s = (Inr (), t)" by simp
  have dis: "distinct (map ap_ID (wk_approvals ?s))" by simp
  from authorizeTool_safe [OF call dis] obtain operation revision where op: "toolOperation ''run_command'' = Some operation"
    and rev: "toolRequiresWorkspaceRevision ''run_command'' \<longrightarrow> te_revision sampleToolEnv (wk_n ?s) = Inr revision"
    and ok: "authorised sampleJSON sampleToolEnv (ar_ID sampleAgent)
      (toolRequest sampleToolEnv sampleAgent (Some sampleAgentTask) None ''run_command'' operation revision ''make'')
      (wk_approvals ?s) (wk_approvals t)" by blast
  have eqs: "operation = ''run_command''" "revision = ''git-tree:1''"
    using trans [OF op [symmetric] sample_environment(2)]
      trans [OF mp [OF rev sample_environment(7), symmetric] spec [OF sample_environment(3)]]
    by (simp_all only: option.inject sum.inject)
  have rows: "wk_approvals ?s = [sampleGranted]" by simp
  have "authorised sampleJSON sampleToolEnv ''r1'' (sampleToolRequest ''make'') [sampleGranted] (wk_approvals t)"
    using ok unfolding eqs rows sample_environment(6) sampleToolRequest_def .
  then show ?thesis by (rule exI [of _ t])
qed

theorem authority_single_use_witness:
  "\<exists>y :: AuthSystem. length (sy_consumed y) = 1 \<and> distinct (map (fst \<circ> snd) (sy_consumed y)) \<and>
     list_all (consumedIn sampleJSON (sy_db y)) (sy_consumed y)"
proof -
  let ?s = "atRevision ''run_command'' (sampleWorker\<lparr>wk_approvals := [sampleGranted]\<rparr>)"
  have dis: "distinct (map ap_ID (wk_approvals ?s))" by simp
  obtain t where c: "consumeApprovedAuthority (sampleEnv False False) sampleJSON ''r1'' sampleToolGrant ?s = (Inr True, t)"
    using sample_consumed by blast
  obtain i where steps: "(authStep (sampleEnv False False) sampleJSON)\<^sup>*\<^sup>*
      \<lparr>sy_db = ?s, sy_sessions = \<lambda>_. None, sy_consumed = []\<rparr>
      \<lparr>sy_db = t, sy_sessions = \<lambda>_. None, sy_consumed = [(''r1'', i, sampleToolGrant)]\<rparr>"
    using consume_steps [OF c dis, of "\<lambda>_. None" 0 "[]"] by auto
  from authority_single_use [OF sampleJSON_laws(1) dis steps] show ?thesis
    by (intro exI [of _ "\<lparr>sy_db = t, sy_sessions = \<lambda>_. None, sy_consumed = [(''r1'', i, sampleToolGrant)]\<rparr>"]) simp
qed


theorem grant_not_exact_witness:
  "\<exists>s3 s4. sampleCall ''rm *'' s3 = (Inr (), s4)"
proof -
  obtain s1 s2 where s1: "sampleCall ''make'' sampleWorker =
      (Inl (CapabilityDecision ''run_command'' ''run_command'' ''Makefile'' (sampleToolDecision ''make'')), s1)"
    and s2: "requestCapabilityApproval (sampleEnv False False) True sampleJSON (Some sampleAgent) (Some sampleAgentTask)
      ''run_command'' ''run_command'' ''Makefile'' (sampleToolDecision ''make'') s1 = (Inr (), s2)"
    by (rule sample_asked)
  let ?s3 = "s2\<lparr>wk_approvals := map (\<lambda>a. if ap_ID a = ap_ID (last (wk_approvals s2))
    then respondRow ''u2'' ''approved'' ''ok'' 2 a else a) (wk_approvals s2)\<rparr>"
  have s3: "wk_approvals ?s3 = map (\<lambda>a. if ap_ID a = ap_ID (last (wk_approvals s2))
    then respondRow ''u2'' ''approved'' ''ok'' 2 a else a) (wk_approvals s2)" by simp
  have same: "sameResource sampleToolEnv ''make'' ''rm *''" by (simp add: sameResource_def sampleToolEnv_def)
  have "fst (Kernel_Evaluate (te_ftext sampleToolEnv) sample_kernel (toolRequest sampleToolEnv sampleAgent (Some sampleAgentTask) None
      ''run_command'' ''run_command'' (if toolRequiresWorkspaceRevision ''run_command'' then ''git-tree:1'' else []) ''rm *'')) =
      (sampleToolDecision ''rm *'', None)"
    unfolding sample_request by (rule sample_evaluations(2))
  from grant_not_exact [OF s1 [unfolded sampleCall_def] sample_decisions(1,2) s2 s3 _ _ _ _ _ _ _ same sample_environment(1) this]
  show ?thesis
    using sample_environment sampleJSON_laws sample_decisions(4,5) unfolding sampleCall_def by (simp, blast)
qed

text \<open>
  The tool \<open>run_tests\<close> runs the command of its input as \<open>run_command\<close> does, and the default policies allow it
  without an approval, which they ask for when the same text is a \<open>run_command\<close>.
\<close>

theorem run_tests_unasked:
  "res_Effect (fst (fst (Kernel_Evaluate (te_ftext sampleToolEnv) sample_kernel
      (toolRequest sampleToolEnv sampleAgent (Some sampleAgentTask) None ''run_tests'' ''run_tests'' [] ''rm *'')))) = EffectAllow \<and>
   res_Effect (sampleToolDecision ''rm *'') = EffectAsk"
  by code_simp

end
