(* ===== verification/AgentRunner.thy ===== *)
theory AgentRunner
  imports RunnerAuthority ModelRouter
begin

text \<open>
  The agent runner (\<open>apps/api/internal/agentrunner\<close>: \<open>runner.go\<close>, \<open>runner_budget.go\<close>, \<open>runner_persistence.go\<close>
  and the state changes of \<open>runner_approval.go\<close>): a run asks the model for one action after another, up to
  fifty, runs the tools it may, hands over, asks for approvals and ends as completed, paused or failed.

  The state is the tables of the worker with the steps, budgets and uses of models beside them, and a log
  of the questions to the router and the tools that ran.  The texts of prompts and errors, the decoding of
  JSON, the tools and the runtimes are functions of the environment; what they answer may change with the
  number of the effect.  Times in published payloads are left out.
\<close>

section \<open>State\<close>

text \<open>A row of \<open>model_usage\<close>.\<close>

record UsageRow =
  us_ID :: string
  us_AgentRunID :: string
  us_TaskID :: string
  us_Model :: string
  us_Provider :: string
  us_PromptTokens :: int
  us_CompletionTokens :: int
  us_TotalTokens :: int
  us_Cost :: f64
  us_LatencyMs :: int
  us_CreatedAt :: int

datatype RunnerAct = Asked CallRequest | ToolRan string string

record RunnerWorld =
  rw_db :: Worker
  rw_steps :: "AgentStep list"
  rw_budgets :: "Budget list"
  rw_usage :: "UsageRow list"
  rw_calls :: Calls
  rw_log :: "RunnerAct list"
  rw_runtimes :: "string list"

datatype runner_error =
    Authority run_error
  | NoSuchRow string
  | BudgetsUnreadable string
  | WorkspaceIDNil
  | MessageIncomplete
  | MessageUnencodable
  | RouterMissing
  | Unrouted route_error
  | ActionEmpty
  | ActionUndecodable string
  | ActionNameless
  | ToolNameMissing
  | ToolInputInvalid string
  | SessionMissing string string
  | RuntimeUnsupported string
  | RuntimeFailed string
  | ToolError string string
  | PathInaccessible string
  | ContextCancelled
  | BudgetExceeded "Violation list option"
  | HandoffWithoutContent
  | HandoffWithoutAgent
  | UnknownAction string
  | RunFailed string runner_error
  | While string runner_error

type_synonym 'a rstep = "(RunnerWorld, runner_error, 'a) gostep"

record ModelAction =
  ma_Action :: string
  ma_ToolName :: string
  ma_ToolInput :: string
  ma_Content :: string
  ma_ToAgent :: string
  ma_MessageType :: string
  ma_Metadata :: "(string \<rightharpoonup> gany) option"

text \<open>A runtime: the error of attaching a session, if it can, and its tools.\<close>

record RunnerEnv =
  rn_env :: WorkerEnv
  rn_json :: AuthorityJSON
  rn_tools :: ToolEnv
  rn_bus :: bool
  rn_router :: "Router option"
  rn_sort :: "(Score \<Rightarrow> Score \<Rightarrow> bool) \<Rightarrow> Score list \<Rightarrow> Score list"
  rn_ufold :: "string \<Rightarrow> string \<Rightarrow> bool"
  rn_ulower :: "string \<Rightarrow> string"
  rn_action :: "string \<Rightarrow> ModelAction option"
  rn_validJSON :: "string \<Rightarrow> bool"
  rn_metadata :: "(string \<rightharpoonup> gany) \<Rightarrow> string option"
  rn_diffFiles :: "string \<Rightarrow> int option"
  rn_systemPrompt :: "string \<Rightarrow> ModelTask \<Rightarrow> Workspace \<Rightarrow> string"
  rn_prompt :: "AgentStep list \<Rightarrow> MessageRow list \<Rightarrow> ModelTask \<Rightarrow> string"
  rn_errorText :: "runner_error \<Rightarrow> string"
  rn_budget :: "BudgetDB option option"
  rn_stat :: "string \<Rightarrow> bool"
  rn_cancelled :: "nat \<Rightarrow> bool"
  rn_docker :: "string option"
  rn_attach :: "nat \<Rightarrow> string \<Rightarrow> string \<Rightarrow> string \<Rightarrow> string option"
  rn_localTool :: "nat \<Rightarrow> string \<Rightarrow> string \<Rightarrow> string \<Rightarrow> string \<times> string option"
  rn_runtimeTool :: "nat \<Rightarrow> string \<Rightarrow> string \<Rightarrow> string \<Rightarrow> string \<Rightarrow> string \<times> string option"

section \<open>Steps\<close>

text \<open>A step on the tables of the worker.\<close>

definition onDb :: "(Worker, run_error, 'a) gostep \<Rightarrow> 'a rstep" where
  "onDb m s = (case m (rw_db s) of
     (Inl e, d) \<Rightarrow> (Inl (Authority e), s\<lparr>rw_db := d\<rparr>) | (Inr x, d) \<Rightarrow> (Inr x, s\<lparr>rw_db := d\<rparr>))"

abbreviation sql :: "'a step \<Rightarrow> 'a rstep" where
  "sql m \<equiv> onDb (db m)"

text \<open>A statement on a table beside those of the worker.\<close>

definition onTables :: "WorkerEnv \<Rightarrow> string \<Rightarrow> (RunnerWorld \<Rightarrow> (runner_error + 'a) \<times> RunnerWorld) \<Rightarrow> 'a rstep" where
  "onTables env what f = bindE (sql (query env what (\<lambda>_. ()))) (\<lambda>_. f)"

definition logged :: "RunnerAct \<Rightarrow> unit rstep" where
  "logged a s = (Inr (), s\<lparr>rw_log := rw_log s @ [a]\<rparr>)"

definition tell :: "RunnerEnv \<Rightarrow> string \<Rightarrow> Payload \<Rightarrow> unit rstep" where
  "tell re subject payload = unheeded (onDb (publishEvent (rn_env re) (rn_bus re) subject payload))"

definition rowOr :: "runner_error \<Rightarrow> 'a option rstep \<Rightarrow> 'a rstep" where
  "rowOr e m = bindE m (\<lambda>r. case r of None \<Rightarrow> failE e | Some x \<Rightarrow> retE x)"

section \<open>The tables\<close>

definition loadAgentRun :: "RunnerEnv \<Rightarrow> string \<Rightarrow> AgentRun rstep" where
  "loadAgentRun re runID =
     rowOr (NoSuchRow ''agent_runs'')
       (sql (query (rn_env re) ''load agent run'' (\<lambda>s. find (\<lambda>r. ar_ID r = runID) (wk_runs s))))"

definition loadTask :: "RunnerEnv \<Rightarrow> string \<Rightarrow> ModelTask rstep" where
  "loadTask re taskID =
     rowOr (NoSuchRow ''tasks'')
       (sql (query (rn_env re) ''load task'' (\<lambda>s. find (\<lambda>t. tk_ID t = taskID) (wk_tasks s))))"

definition loadWorkspace :: "RunnerEnv \<Rightarrow> string option \<Rightarrow> Workspace rstep" where
  "loadWorkspace re workspaceID =
     (case workspaceID of
        None \<Rightarrow> failE WorkspaceIDNil
      | Some i \<Rightarrow>
        rowOr (NoSuchRow ''workspaces'')
          (sql (query (rn_env re) ''load workspace'' (\<lambda>s. find (\<lambda>w. ws_ID w = i) (wk_workspaces s)))))"

text \<open>A failed load gives the empty list.\<close>

definition orElseE :: "'a \<Rightarrow> 'a rstep \<Rightarrow> 'a rstep" where
  "orElseE d m s = (case m s of (Inl _, t) \<Rightarrow> (Inr d, t) | (Inr x, t) \<Rightarrow> (Inr x, t))"

definition loadRunHistory :: "RunnerEnv \<Rightarrow> string \<Rightarrow> AgentStep list rstep" where
  "loadRunHistory re runID =
     (if TrimSpace runID = [] then retE []
      else orElseE [] (onTables (rn_env re) ''load run history'' (\<lambda>s.
        (Inr (sort_key (\<lambda>x. (as_StepNumber x, as_CreatedAt x)) (filter (\<lambda>x. as_AgentRunID x = runID) (rw_steps s))), s))))"

definition persistStep :: "RunnerEnv \<Rightarrow> AgentStep \<Rightarrow> unit rstep" where
  "persistStep re step =
     bindE (sql (timeNow (rn_env re))) (\<lambda>now.
       onTables (rn_env re) ''insert step'' (\<lambda>s.
         if list_ex (\<lambda>x. as_ID x = as_ID step) (rw_steps s) then (Inl (Authority (DbError (SqlError ''insert step''))), s)
         else (Inr (), s\<lparr>rw_steps := rw_steps s @ [step\<lparr>as_ExitCode := None, as_CreatedAt := now\<rparr>]\<rparr>)))"

definition updateStepStatus :: "RunnerEnv \<Rightarrow> AgentStep \<Rightarrow> unit rstep" where
  "updateStepStatus re step =
     onTables (rn_env re) ''update step'' (\<lambda>s.
       (Inr (), s\<lparr>rw_steps := map (\<lambda>x. if as_ID x = as_ID step then x\<lparr>as_Status := as_Status step,
          as_ToolOutput := as_ToolOutput step, as_ExitCode := as_ExitCode step, as_LatencyMs := as_LatencyMs step,
          as_Content := as_Content step\<rparr> else x) (rw_steps s)\<rparr>))"

definition loadMailboxMessages :: "RunnerEnv \<Rightarrow> string \<Rightarrow> string \<Rightarrow> int \<Rightarrow> MessageRow list rstep" where
  "loadMailboxMessages re taskID agentRole limit0 =
     (if taskID = [] then retE []
      else (let limit = (if limit0 \<le> 0 then 20 else limit0) in
        orElseE [] (sql (query (rn_env re) ''load mailbox messages'' (\<lambda>s.
          take (nat limit) (sort_key mr_CreatedAt
            (filter (\<lambda>m. mr_TaskID m = taskID \<and> (mr_ToAgent m = agentRole \<or> mr_ToAgent m = ''broadcast'')) (wk_messages s))))))))"

definition insertMessage :: "WorkerEnv \<Rightarrow> MessageRow \<Rightarrow> unit step" where
  "insertMessage env m s =
     (if en_sqlFails env (wk_n s) \<or> list_ex (\<lambda>x. mr_ID x = mr_ID m) (wk_messages s)
      then (Inl (SqlError ''insert message''), count s)
      else (Inr (), count (s\<lparr>wk_messages := wk_messages s @ [m]\<rparr>)))"

definition messageRow :: "string \<Rightarrow> string \<Rightarrow> string option \<Rightarrow> string \<Rightarrow> string \<Rightarrow> string \<Rightarrow> string \<Rightarrow> string \<Rightarrow> int \<Rightarrow> MessageRow" where
  "messageRow i taskID runID fromAgent toAgent messageType content metadata now =
     \<lparr>mr_ID = i, mr_TaskID = taskID, mr_RunID = runID, mr_FromAgent = fromAgent, mr_ToAgent = toAgent,
      mr_MessageType = messageType, mr_Content = content, mr_Metadata = metadata, mr_CreatedAt = now,
      mr_ConsumedAt = None, mr_ConsumedByRunID = None\<rparr>"

definition persistAgentMessage ::
    "RunnerEnv \<Rightarrow> string \<Rightarrow> string \<Rightarrow> string \<Rightarrow> string \<Rightarrow> string \<Rightarrow> string \<Rightarrow> (string \<rightharpoonup> gany) option \<Rightarrow> unit rstep" where
  "persistAgentMessage re taskID runID fromAgent toAgent messageType content metadata =
     (if taskID = [] \<or> fromAgent = [] \<or> toAgent = [] \<or> messageType = [] \<or> TrimSpace content = [] then failE MessageIncomplete
      else (case (case metadata of None \<Rightarrow> Some ''{}'' | Some m \<Rightarrow> rn_metadata re m) of
          None \<Rightarrow> failE MessageUnencodable
        | Some metadataJSON \<Rightarrow>
          bindE (sql (newUUID (rn_env re))) (\<lambda>i.
          bindE (sql (timeNow (rn_env re))) (\<lambda>now.
            sql (insertMessage (rn_env re) (messageRow i taskID (if TrimSpace runID \<noteq> [] then Some runID else None)
              fromAgent toAgent messageType content metadataJSON now))))))"

section \<open>The status of the run\<close>

definition updateRunStatus :: "RunnerEnv \<Rightarrow> string \<Rightarrow> string \<Rightarrow> unit rstep" where
  "updateRunStatus re runID status =
     bindE (sql (timeNow (rn_env re))) (\<lambda>now.
     bindE (sql (execute (rn_env re) ''update run status'' (updRuns (\<lambda>r. ar_ID r = runID)
       (\<lambda>r. r\<lparr>ar_Status := status, ar_StartedAt := (if status = ''running'' then Some now else ar_StartedAt r),
              ar_UpdatedAt := now\<rparr>)))) (\<lambda>_. retE ()))"

definition failRun :: "RunnerEnv \<Rightarrow> string \<Rightarrow> runner_error \<Rightarrow> 'a rstep" where
  "failRun re runID why =
     bindE (sql (timeNow (rn_env re))) (\<lambda>now.
     bindE (unheeded (sql (execute (rn_env re) ''fail run'' (updRuns (\<lambda>r. ar_ID r = runID)
       (\<lambda>r. r\<lparr>ar_Status := ''failed'', ar_ErrorMessage := Some (rn_errorText re why), ar_CompletedAt := Some now,
              ar_UpdatedAt := now\<rparr>))))) (\<lambda>_.
     bindE (tell re (''runs.'' @ runID @ ''.failed'')
       [(''run_id'', AString runID), (''status'', AString ''failed''), (''error'', AString (rn_errorText re why))]) (\<lambda>_.
     bindE (tell re ''agents.run.failed''
       [(''run_id'', AString runID), (''status'', AString ''failed''), (''error'', AString (rn_errorText re why))]) (\<lambda>_.
       failE (RunFailed runID why)))))"

definition pauseRun :: "RunnerEnv \<Rightarrow> string \<Rightarrow> string \<Rightarrow> unit rstep" where
  "pauseRun re runID reason =
     bindE (sql (timeNow (rn_env re))) (\<lambda>now.
     bindE (unheeded (sql (execute (rn_env re) ''pause run'' (updRuns (\<lambda>r. ar_ID r = runID)
       (\<lambda>r. r\<lparr>ar_Status := ''paused'', ar_ErrorMessage := Some reason, ar_UpdatedAt := now\<rparr>))))) (\<lambda>_.
       tell re (''runs.'' @ runID @ ''.paused'')
         [(''run_id'', AString runID), (''status'', AString ''paused''), (''reason'', AString reason)]))"

definition updateRunCompletion :: "RunnerEnv \<Rightarrow> string \<Rightarrow> string \<Rightarrow> string \<Rightarrow> RunState \<Rightarrow> unit rstep" where
  "updateRunCompletion re runID status summary state =
     bindE (sql (timeNow (rn_env re))) (\<lambda>now.
     bindE (sql (execute (rn_env re) ''complete run'' (updRuns (\<lambda>r. ar_ID r = runID)
       (\<lambda>r. r\<lparr>ar_Status := status, ar_Summary := Some summary, ar_TotalCost := rs_CostSoFar state,
              ar_CompletedAt := Some now, ar_UpdatedAt := now\<rparr>)))) (\<lambda>_. retE ()))"

text \<open>What a failed call does in \<open>Run\<close>: the run fails.\<close>

definition orFail :: "RunnerEnv \<Rightarrow> string \<Rightarrow> string \<Rightarrow> 'a rstep \<Rightarrow> 'a rstep" where
  "orFail re runID what m s =
     (case m s of (Inl e, t) \<Rightarrow> failRun re runID (While what e) t | (Inr x, t) \<Rightarrow> (Inr x, t))"

section \<open>Budgets and usage\<close>

text \<open>The newest budget of a task or a project; \<open>None\<close> is \<open>sql.ErrNoRows\<close>.\<close>

definition newestBudget :: "RunnerEnv \<Rightarrow> (Budget \<Rightarrow> bool) \<Rightarrow> Budget option rstep" where
  "newestBudget re p =
     onTables (rn_env re) ''load budget'' (\<lambda>s.
       (Inr (case sort_key (\<lambda>b. - b_CreatedAt b) (filter p (rw_budgets s)) of [] \<Rightarrow> None | b # _ \<Rightarrow> Some b), s))"

definition loadProjectBudgetForTask :: "RunnerEnv \<Rightarrow> string \<Rightarrow> Budget option rstep" where
  "loadProjectBudgetForTask re taskID =
     bindE (sql (query (rn_env re) ''load project of task'' (\<lambda>s. find (\<lambda>t. tk_ID t = taskID) (wk_tasks s)))) (\<lambda>task.
       case task of
         None \<Rightarrow> retE None
       | Some t \<Rightarrow> newestBudget re (\<lambda>b. b_ProjectID b = Some (tk_ProjectID t)))"

text \<open>Any failure of the first query goes on to the budget of the project.\<close>

definition loadTaskBudget :: "RunnerEnv \<Rightarrow> string \<Rightarrow> Budget option rstep" where
  "loadTaskBudget re taskID =
     bindE (orElseE None (newestBudget re (\<lambda>b. b_TaskID b = Some taskID))) (\<lambda>b.
       case b of Some x \<Rightarrow> retE (Some x) | None \<Rightarrow> loadProjectBudgetForTask re taskID)"

definition allowedResult :: CheckResult where
  "allowedResult = \<lparr>cr_Allowed = True, cr_Reason = None, cr_Remaining = f64_zero, cr_Violations = []\<rparr>"

definition checkBudget :: "RunnerEnv \<Rightarrow> string \<Rightarrow> RunState \<Rightarrow> CheckResult rstep" where
  "checkBudget re taskID state =
     (case rn_budget re of
        None \<Rightarrow> retE allowedResult
      | Some engine \<Rightarrow>
        bindE (orElseE None (loadTaskBudget re taskID)) (\<lambda>b.
          case b of
            None \<Rightarrow> retE allowedResult
          | Some budget \<Rightarrow> retE (CheckRun engine (Some budget) (Some (state\<lparr>rs_DiffSizeKB := 0\<rparr>)))))"

definition emptyRunState :: RunState where
  "emptyRunState = \<lparr>rs_CostSoFar = f64_zero, rs_DurationMinutes = 0, rs_ModelCalls = 0, rs_ToolCalls = 0,
     rs_ShellCommands = 0, rs_FilesChanged = 0, rs_DiffSizeKB = 0\<rparr>"

definition Runner_CheckRunStart :: "RunnerEnv \<Rightarrow> string \<Rightarrow> CheckResult rstep" where
  "Runner_CheckRunStart re runID =
     (case rn_budget re of
        None \<Rightarrow> retE allowedResult
      | Some engine \<Rightarrow>
        bindE (loadAgentRun re runID) (\<lambda>run.
        bindE (loadTaskBudget re (ar_TaskID run)) (\<lambda>b.
          case b of
            None \<Rightarrow> retE allowedResult
          | Some budget \<Rightarrow>
            (case CheckRunStart engine (Some budget) (Some emptyRunState) of
               Inl e \<Rightarrow> failE (BudgetsUnreadable e) | Inr r \<Rightarrow> retE r))))"

definition nonEmptyOr :: "string \<Rightarrow> string \<Rightarrow> string" where
  "nonEmptyOr x d = (if x = [] then d else x)"

definition usageRow :: "string \<Rightarrow> string \<Rightarrow> string \<Rightarrow> string \<Rightarrow> string \<Rightarrow> CallResult \<Rightarrow> int \<Rightarrow> UsageRow" where
  "usageRow i runID taskID model provider result now =
     \<lparr>us_ID = i, us_AgentRunID = runID, us_TaskID = taskID, us_Model = model, us_Provider = provider,
      us_PromptTokens = cs_PromptTokens result, us_CompletionTokens = cs_CompletionTokens result,
      us_TotalTokens = cs_TotalTokens result, us_Cost = cs_Cost result, us_LatencyMs = cs_LatencyMs result, us_CreatedAt = now\<rparr>"

definition recordModelUsage :: "RunnerEnv \<Rightarrow> AgentRun \<Rightarrow> ModelTask \<Rightarrow> CallResult \<Rightarrow> unit rstep" where
  "recordModelUsage re run task result =
     (let model = nonEmptyOr (nonEmptyOr (cs_Model result) (case ar_Model run of None \<Rightarrow> [] | Some m \<Rightarrow> m)) ''unknown'';
          provider = nonEmptyOr (nonEmptyOr (cs_Provider result) (case ar_Provider run of None \<Rightarrow> [] | Some p \<Rightarrow> p)) ''unknown''
      in bindE (sql (timeNow (rn_env re))) (\<lambda>now.
         bindE (sql (newUUID (rn_env re))) (\<lambda>i.
         bindE (onTables (rn_env re) ''insert model usage'' (\<lambda>s.
             if list_ex (\<lambda>u. us_ID u = i) (rw_usage s) then (Inl (Authority (DbError (SqlError ''insert model usage''))), s)
             else (Inr (), s\<lparr>rw_usage := rw_usage s @ [usageRow i (ar_ID run) (tk_ID task) model provider result now]\<rparr>))) (\<lambda>_.
         bindE (sql (execute (rn_env re) ''update run usage'' (updRuns (\<lambda>r. ar_ID r = ar_ID run)
             (\<lambda>r. r\<lparr>ar_Model := Some model, ar_Provider := Some provider,
                    ar_PromptTokens := ar_PromptTokens r + cs_PromptTokens result,
                    ar_CompletionTokens := ar_CompletionTokens r + cs_CompletionTokens result,
                    ar_TotalCost := f64_add (ar_TotalCost r) (cs_Cost result), ar_UpdatedAt := now\<rparr>)))) (\<lambda>_. retE ())))))"

section \<open>Actions of the model\<close>

definition taskTypeForRole :: "string \<Rightarrow> string" where
  "taskTypeForRole role =
     (if role = ''planner'' then ''architecture''
      else if role \<in> {''reviewer'', ''security_reviewer''} then ''review''
      else if role = ''test_runner'' then ''test''
      else if role \<in> {''docs_writer'', ''release_manager''} then ''docs''
      else ''code'')"

definition difficultyForRisk :: "string \<Rightarrow> string" where
  "difficultyForRisk risk =
     (if risk = ''high'' then ''hard'' else if risk = ''critical'' then ''expert''
      else if risk = ''medium'' then ''medium'' else ''easy'')"

definition fence :: string where
  "fence = replicate 3 CHR 0x60"

text \<open>The text between code fences, if there are any.\<close>

definition unfenced :: "string \<Rightarrow> string" where
  "unfenced content =
     (let trimmed = TrimSpace content; ls = split_on CHR 0x0A trimmed in
      if HasPrefix trimmed fence \<and> length ls \<ge> 2 then
        (let rest = tl ls;
             body = (if HasPrefix (TrimSpace (last rest)) fence then butlast rest else rest)
         in TrimSpace (join_with [CHR 0x0A] body))
      else trimmed)"

definition parseModelAction :: "(string \<Rightarrow> ModelAction option) \<Rightarrow> string \<Rightarrow> runner_error + ModelAction" where
  "parseModelAction decode content =
     (let trimmed = unfenced content in
      if trimmed = [] then Inl ActionEmpty
      else (case decode trimmed of
          None \<Rightarrow> Inl (ActionUndecodable trimmed)
        | Some action \<Rightarrow>
          (let name = TrimSpace (ma_Action action) in
           if name = [] then Inl ActionNameless else Inr (action\<lparr>ma_Action := name\<rparr>))))"

text \<open>The name and the input of a tool; an input that is missing or \<open>null\<close> is the empty object.\<close>

definition toolCall :: "(string \<Rightarrow> bool) \<Rightarrow> ModelAction \<Rightarrow> runner_error + string \<times> string" where
  "toolCall valid a =
     (let name = TrimSpace (ma_ToolName a);
          input = (if ma_ToolInput a = [] \<or> ma_ToolInput a = ''null'' then ''{}'' else ma_ToolInput a)
      in if name = [] then Inl ToolNameMissing
         else if \<not> valid input then Inl (ToolInputInvalid input)
         else Inr (name, input))"

definition modelRequest :: "AgentRun \<Rightarrow> ModelTask \<Rightarrow> string \<Rightarrow> string \<Rightarrow> CallRequest" where
  "modelRequest run task systemPrompt prompt =
     \<lparr>cq_TaskType = taskTypeForRole (ar_AgentRole run), cq_Difficulty = difficultyForRisk (tk_RiskLevel task),
      cq_LatencyReq = ''normal'', cq_ContextSize = int (length systemPrompt + length prompt), cq_StructuredReq = True,
      cq_CostCap = f64_zero, cq_PreferredModel = [],
      cq_Messages = [\<lparr>ms_Role = ''system'', ms_Content = systemPrompt\<rparr>, \<lparr>ms_Role = ''user'', ms_Content = prompt\<rparr>]\<rparr>"

definition routed :: "RunnerEnv \<Rightarrow> Router \<Rightarrow> CallRequest \<Rightarrow> CallResult rstep" where
  "routed re router req =
     bindE (logged (Asked req)) (\<lambda>_ s.
       case RouteCall (rn_sort re) (rn_ufold re) router req (rw_calls s) of
         (Inl e, calls) \<Rightarrow> (Inl (Unrouted e), s\<lparr>rw_calls := calls\<rparr>)
       | (Inr result, calls) \<Rightarrow> (Inr result, s\<lparr>rw_calls := calls\<rparr>))"

definition nextModelAction ::
    "RunnerEnv \<Rightarrow> AgentRun \<Rightarrow> ModelTask \<Rightarrow> string \<Rightarrow> MessageRow list \<Rightarrow> AgentStep list \<Rightarrow> (ModelAction \<times> CallResult) rstep" where
  "nextModelAction re run task systemPrompt mailbox history =
     (case rn_router re of
        None \<Rightarrow> failE RouterMissing
      | Some router \<Rightarrow>
        bindE (routed re router (modelRequest run task systemPrompt (rn_prompt re history mailbox task))) (\<lambda>result.
          case parseModelAction (rn_action re) (cs_Content result) of
            Inl e \<Rightarrow> failE e
          | Inr action \<Rightarrow> retE (action, result)))"

section \<open>Tools\<close>

text \<open>
  The runtime of a workspace: none for a local one, and otherwise its name and session, once the session is
  attached.  A Docker runtime is created when it is first needed.
\<close>

definition attachSession :: "RunnerEnv \<Rightarrow> string \<Rightarrow> string \<Rightarrow> string \<Rightarrow> (string \<times> string) option rstep" where
  "attachSession re name session workspaceID s =
     (case rn_attach re (wk_n (rw_db s)) name session workspaceID of
        Some e \<Rightarrow> (Inl (RuntimeFailed e), s\<lparr>rw_db := count (rw_db s)\<rparr>)
      | None \<Rightarrow> (Inr (Some (name, session)), s\<lparr>rw_db := count (rw_db s)\<rparr>))"

definition findRuntime :: "RunnerEnv \<Rightarrow> string \<Rightarrow> unit rstep" where
  "findRuntime re name s =
     (if name \<in> set (rw_runtimes s) then (Inr (), s)
      else if name = ''docker'' then
        (case rn_docker re of
           Some e \<Rightarrow> (Inl (RuntimeFailed e), s)
         | None \<Rightarrow> (Inr (), s\<lparr>rw_runtimes := name # rw_runtimes s\<rparr>))
      else (Inl (RuntimeUnsupported name), s))"

definition runtimeProviderForWorkspace :: "RunnerEnv \<Rightarrow> Workspace option \<Rightarrow> (string \<times> string) option rstep" where
  "runtimeProviderForWorkspace re workspace =
     (case workspace of
        None \<Rightarrow> retE None
      | Some ws \<Rightarrow>
        (let name = ToLower (rn_ulower re) (TrimSpace (ws_RuntimeProvider ws)) in
         if name = [] \<or> name = ''local'' \<or> name = ''unprovisioned'' then retE None
         else (case ws_RuntimeSessionID ws of
             None \<Rightarrow> failE (SessionMissing name (ws_ID ws))
           | Some session \<Rightarrow>
             if session = [] then failE (SessionMissing name (ws_ID ws))
             else bindE (findRuntime re name) (\<lambda>_. attachSession re name session (ws_ID ws)))))"

text \<open>The dispatch to the tools, which know these names.\<close>

definition toolNames :: "string list" where
  "toolNames = [''read_file'', ''write_file'', ''search_files'', ''list_directory'', ''apply_patch'', ''run_command'',
     ''inspect_repo'', ''get_git_diff'', ''create_commit'', ''run_tests'']"

definition dispatch :: "(nat \<Rightarrow> string \<times> string option) \<Rightarrow> string \<Rightarrow> string \<Rightarrow> string rstep" where
  "dispatch run toolName input =
     (if toolName \<notin> set toolNames then failE (Authority (UnknownTool toolName))
      else bindE (logged (ToolRan toolName input)) (\<lambda>_ s.
        (case run (wk_n (rw_db s)) of
           (output, Some e) \<Rightarrow> (Inl (ToolError output e), s\<lparr>rw_db := count (rw_db s)\<rparr>)
         | (output, None) \<Rightarrow> (Inr output, s\<lparr>rw_db := count (rw_db s)\<rparr>))))"

definition executeToolUnchecked :: "RunnerEnv \<Rightarrow> string \<Rightarrow> string \<Rightarrow> string \<Rightarrow> string rstep" where
  "executeToolUnchecked re toolName workspacePath input =
     dispatch (\<lambda>n. rn_localTool re n workspacePath toolName input) toolName input"

definition executeRuntimeTool :: "RunnerEnv \<Rightarrow> string \<Rightarrow> string \<Rightarrow> string \<Rightarrow> string \<Rightarrow> string rstep" where
  "executeRuntimeTool re name session toolName input =
     dispatch (\<lambda>n. rn_runtimeTool re n name session toolName input) toolName input"

definition executeTool ::
    "RunnerEnv \<Rightarrow> AgentRun \<Rightarrow> ModelTask \<Rightarrow> Workspace \<Rightarrow> string \<Rightarrow> string \<Rightarrow> string \<Rightarrow> string rstep" where
  "executeTool re run task workspace workspacePath toolName input =
     bindE (onDb (authorizeTool (rn_env re) (rn_json re) (rn_tools re) run (Some task) (Some workspace) toolName input)) (\<lambda>_.
     bindE (runtimeProviderForWorkspace re (Some workspace)) (\<lambda>provider.
       case provider of
         None \<Rightarrow> executeToolUnchecked re toolName workspacePath input
       | Some (name, session) \<Rightarrow> executeRuntimeTool re name session toolName input))"

definition streamStep :: "RunnerEnv \<Rightarrow> AgentStep \<Rightarrow> string \<Rightarrow> unit rstep" where
  "streamStep re step eventType =
     tell re (''runs.'' @ as_AgentRunID step @ ''.steps'')
       ([(''run_id'', AString (as_AgentRunID step)), (''step_id'', AString (as_ID step)),
         (''step_number'', AInt (as_StepNumber step)), (''tool_name'', optionAny (as_ToolName step)),
         (''status'', AString (as_Status step)), (''type'', AString eventType), (''latency_ms'', AInt (as_LatencyMs step))] @
        (case as_Content step of None \<Rightarrow> [] | Some c \<Rightarrow> [(''content'', AString c)]))"

definition newStep :: "string \<Rightarrow> string \<Rightarrow> int \<Rightarrow> string \<Rightarrow> string \<Rightarrow> AgentStep" where
  "newStep i runID stepNum stepType status =
     \<lparr>as_ID = i, as_AgentRunID = runID, as_StepNumber = stepNum, as_StepType = stepType, as_Status = status,
      as_Content = None, as_ToolName = None, as_ToolInput = [], as_ToolOutput = [], as_Command = None,
      as_CommandOutput = None, as_ExitCode = None, as_FilePath = None, as_Diff = None, as_Cost = f64_zero,
      as_LatencyMs = 0, as_CreatedAt = 0\<rparr>"

text \<open>\<open>time.Since(start).Milliseconds()\<close>.\<close>

definition sinceMs :: "int \<Rightarrow> int \<Rightarrow> int" where
  "sinceMs start now = go_div (timeSub now start) 1000000"

text \<open>The outcome of a tool, with what it gave in either case.\<close>

definition toolOutcome :: "runner_error + string \<Rightarrow> string \<times> runner_error option" where
  "toolOutcome r = (case r of Inr output \<Rightarrow> (output, None) | Inl (ToolError output e) \<Rightarrow> (output, Some (ToolError output e))
     | Inl e \<Rightarrow> ([], Some e))"

definition tried :: "'a rstep \<Rightarrow> (runner_error + 'a) rstep" where
  "tried m s = (case m s of (r, t) \<Rightarrow> (Inr r, t))"

definition runToolStep ::
    "RunnerEnv \<Rightarrow> int \<Rightarrow> AgentRun \<Rightarrow> ModelTask \<Rightarrow> Workspace \<Rightarrow> string \<Rightarrow> string \<Rightarrow> string \<Rightarrow> AgentStep rstep" where
  "runToolStep re stepNum run task workspace workspacePath toolName input =
     bindE (sql (newUUID (rn_env re))) (\<lambda>i.
       let step = (newStep i (ar_ID run) stepNum ''tool_call'' ''running'')\<lparr>as_ToolName := Some toolName, as_ToolInput := input\<rparr> in
       bindE (unheeded (persistStep re step)) (\<lambda>_.
       bindE (streamStep re step ''started'') (\<lambda>_.
       bindE (sql (timeNow (rn_env re))) (\<lambda>start.
       bindE (tried (executeTool re run task workspace workspacePath toolName input)) (\<lambda>r.
       bindE (sql (timeNow (rn_env re))) (\<lambda>now.
         let (output, err) = toolOutcome r;
             done = step\<lparr>as_LatencyMs := sinceMs start now, as_ToolOutput := output,
               as_Status := (if err = None then ''completed'' else ''failed''),
               as_Content := map_option (rn_errorText re) err\<rparr>
         in bindE (unheeded (updateStepStatus re done)) (\<lambda>_.
            bindE (streamStep re done ''completed'') (\<lambda>_.
              case err of None \<Rightarrow> retE done | Some e \<Rightarrow> failE e))))))))"

section \<open>The loop\<close>

definition nextStepNumber :: "AgentStep list \<Rightarrow> int" where
  "nextStepNumber history = foldl (\<lambda>m step. if as_StepNumber step > m then as_StepNumber step else m) 0 history + 1"

definition countTool :: "string \<Rightarrow> RunState \<Rightarrow> RunState" where
  "countTool toolName state =
     state\<lparr>rs_ToolCalls := rs_ToolCalls state + 1,
       rs_ShellCommands := rs_ShellCommands state + (if toolName \<in> {''run_command'', ''run_tests''} then 1 else 0),
       rs_FilesChanged := rs_FilesChanged state + (if toolName \<in> {''write_file'', ''apply_patch''} then 1 else 0)\<rparr>"

definition seedRunState :: "AgentRun \<Rightarrow> AgentStep list \<Rightarrow> RunState" where
  "seedRunState run history =
     foldl (\<lambda>state step. case as_ToolName step of
         None \<Rightarrow> state
       | Some toolName \<Rightarrow> if as_StepType step \<noteq> ''tool_call'' then state else countTool toolName state)
       (emptyRunState\<lparr>rs_CostSoFar := ar_TotalCost run\<rparr>) history"

record LoopState =
  ls_run :: AgentRun
  ls_state :: RunState
  ls_history :: "AgentStep list"

datatype loop_end = Finished LoopState | Paused

text \<open>What an answer of the model adds to the run.\<close>

definition countModel :: "CallResult \<Rightarrow> LoopState \<Rightarrow> LoopState" where
  "countModel result ls =
     (let run = ls_run ls in
      ls\<lparr>ls_state := (ls_state ls)\<lparr>rs_ModelCalls := rs_ModelCalls (ls_state ls) + 1,
           rs_CostSoFar := f64_add (rs_CostSoFar (ls_state ls)) (cs_Cost result)\<rparr>,
         ls_run := run\<lparr>ar_PromptTokens := ar_PromptTokens run + cs_PromptTokens result,
           ar_CompletionTokens := ar_CompletionTokens run + cs_CompletionTokens result,
           ar_TotalCost := f64_add (ar_TotalCost run) (cs_Cost result),
           ar_Model := (if cs_Model result \<noteq> [] then Some (cs_Model result) else ar_Model run),
           ar_Provider := (if cs_Provider result \<noteq> [] then Some (cs_Provider result) else ar_Provider run)\<rparr>\<rparr>)"

definition withinBudget :: "RunnerEnv \<Rightarrow> string \<Rightarrow> string \<Rightarrow> RunState \<Rightarrow> unit rstep" where
  "withinBudget re runID taskID state =
     bindE (checkBudget re taskID state) (\<lambda>r.
       if cr_Allowed r then retE () else failRun re runID (BudgetExceeded (cr_Reason r)))"

definition elapsedMinutes :: "int \<Rightarrow> int \<Rightarrow> int" where
  "elapsedMinutes start now = f64_trunc (durationMinutes (timeSub now start))"

text \<open>What the loop does not change.\<close>

record RunContext =
  cx_runID :: string
  cx_task :: ModelTask
  cx_workspace :: Workspace
  cx_path :: string
  cx_system :: string
  cx_mailbox :: "MessageRow list"
  cx_start :: int

datatype loop_step = Continue LoopState | Stop LoopState | Halt

definition needsApproval :: "runner_error \<Rightarrow> (string \<times> string \<times> string \<times> CapResult) option" where
  "needsApproval e =
     (case e of
        Authority (CapabilityDecision toolName operation resource result) \<Rightarrow>
          if res_RequiredApproval result then Some (toolName, operation, resource, result) else None
      | _ \<Rightarrow> None)"

definition refusedTool :: "RunnerEnv \<Rightarrow> RunContext \<Rightarrow> AgentRun \<Rightarrow> runner_error \<Rightarrow> loop_step rstep" where
  "refusedTool re cx run e =
     (case needsApproval e of
        None \<Rightarrow> failRun re (cx_runID cx) e
      | Some (toolName, operation, resource, result) \<Rightarrow>
        bindE (orFail re (cx_runID cx) ''create approval request''
          (onDb (requestCapabilityApproval (rn_env re) (rn_bus re) (rn_json re) (Some run) (Some (cx_task cx))
            toolName operation resource result))) (\<lambda>_.
        bindE (pauseRun re (cx_runID cx) (rn_errorText re e)) (\<lambda>_. retE Halt)))"

definition toolAction :: "RunnerEnv \<Rightarrow> RunContext \<Rightarrow> int \<Rightarrow> LoopState \<Rightarrow> ModelAction \<Rightarrow> loop_step rstep" where
  "toolAction re cx stepNum ls action =
     (case toolCall (rn_validJSON re) action of
        Inl e \<Rightarrow> failRun re (cx_runID cx) e
      | Inr (toolName, input) \<Rightarrow>
        bindE (tried (runToolStep re stepNum (ls_run ls) (cx_task cx) (cx_workspace cx) (cx_path cx) toolName input)) (\<lambda>r.
          case r of
            Inl e \<Rightarrow> refusedTool re cx (ls_run ls) e
          | Inr step \<Rightarrow>
            bindE (sql (timeNow (rn_env re))) (\<lambda>now.
              let state = (countTool toolName (ls_state ls))\<lparr>rs_DurationMinutes := elapsedMinutes (cx_start cx) now\<rparr>
              in bindE (withinBudget re (cx_runID cx) (ar_TaskID (ls_run ls)) state) (\<lambda>_.
                 retE (Continue (ls\<lparr>ls_state := state, ls_history := ls_history ls @ [step]\<rparr>))))))"

text \<open>A step that only records a text.\<close>

definition recordStep :: "RunnerEnv \<Rightarrow> RunContext \<Rightarrow> int \<Rightarrow> string \<Rightarrow> string \<Rightarrow> AgentStep rstep" where
  "recordStep re cx stepNum stepType content =
     bindE (sql (newUUID (rn_env re))) (\<lambda>i.
       let step = (newStep i (cx_runID cx) stepNum stepType ''completed'')\<lparr>as_Content := Some content\<rparr>
       in bindE (unheeded (persistStep re step)) (\<lambda>_.
          bindE (streamStep re step ''completed'') (\<lambda>_. retE step)))"

definition finalAction :: "RunnerEnv \<Rightarrow> RunContext \<Rightarrow> int \<Rightarrow> LoopState \<Rightarrow> ModelAction \<Rightarrow> loop_step rstep" where
  "finalAction re cx stepNum ls action =
     bindE (recordStep re cx stepNum ''message'' (nonEmptyOr (TrimSpace (ma_Content action)) ''Agent reported completion.'')) (\<lambda>step.
       retE (Stop (ls\<lparr>ls_history := ls_history ls @ [step]\<rparr>)))"

definition handoffAction :: "RunnerEnv \<Rightarrow> RunContext \<Rightarrow> int \<Rightarrow> LoopState \<Rightarrow> ModelAction \<Rightarrow> loop_step rstep" where
  "handoffAction re cx stepNum ls action =
     (let content = TrimSpace (ma_Content action); toAgent = TrimSpace (ma_ToAgent action);
          messageType = nonEmptyOr (TrimSpace (ma_MessageType action)) ''handoff''; run = ls_run ls in
      if content = [] then failRun re (cx_runID cx) HandoffWithoutContent
      else if toAgent = [] then failRun re (cx_runID cx) HandoffWithoutAgent
      else
        bindE (orFail re (cx_runID cx) ''persist handoff''
          (persistAgentMessage re (tk_ID (cx_task cx)) (ar_ID run) (ar_AgentRole run) toAgent messageType content (ma_Metadata action))) (\<lambda>_.
        bindE (recordStep re cx stepNum ''message'' (''Handoff to '' @ toAgent @ '': '' @ content)) (\<lambda>step.
          retE (Stop (ls\<lparr>ls_history := ls_history ls @ [step]\<rparr>)))))"

definition approvalAction :: "RunnerEnv \<Rightarrow> RunContext \<Rightarrow> int \<Rightarrow> LoopState \<Rightarrow> ModelAction \<Rightarrow> loop_step rstep" where
  "approvalAction re cx stepNum ls action =
     (let reason = nonEmptyOr (TrimSpace (ma_Content action)) ''Agent requested human approval.'' in
      bindE (recordStep re cx stepNum ''approval_request'' reason) (\<lambda>_.
      bindE (orFail re (cx_runID cx) ''create approval request''
        (onDb (requestModelApproval (rn_env re) (rn_bus re) (rn_json re) (Some (ls_run ls)) (Some (cx_task cx)) reason))) (\<lambda>_.
      bindE (pauseRun re (cx_runID cx) reason) (\<lambda>_. retE Halt))))"

definition act_on :: "RunnerEnv \<Rightarrow> RunContext \<Rightarrow> int \<Rightarrow> LoopState \<Rightarrow> ModelAction \<Rightarrow> loop_step rstep" where
  "act_on re cx stepNum ls action =
     (if ma_Action action = ''tool_call'' then toolAction re cx stepNum ls action
      else if ma_Action action = ''final_response'' then finalAction re cx stepNum ls action
      else if ma_Action action = ''handoff'' then handoffAction re cx stepNum ls action
      else if ma_Action action = ''request_approval'' then approvalAction re cx stepNum ls action
      else failRun re (cx_runID cx) (UnknownAction (ma_Action action)))"

definition unlessCancelled :: "RunnerEnv \<Rightarrow> string \<Rightarrow> unit rstep" where
  "unlessCancelled re runID s =
     (let t = s\<lparr>rw_db := count (rw_db s)\<rparr> in
      if rn_cancelled re (wk_n (rw_db s)) then failRun re runID ContextCancelled t else (Inr (), t))"

definition loopStep :: "RunnerEnv \<Rightarrow> RunContext \<Rightarrow> int \<Rightarrow> LoopState \<Rightarrow> loop_step rstep" where
  "loopStep re cx stepNum ls =
     bindE (unlessCancelled re (cx_runID cx)) (\<lambda>_.
     bindE (orFail re (cx_runID cx) ''model action''
       (nextModelAction re (ls_run ls) (cx_task cx) (cx_system cx) (cx_mailbox cx) (ls_history ls))) (\<lambda>(action, result).
       let ls1 = countModel result ls
       in bindE (unheeded (recordModelUsage re (ls_run ls1) (cx_task cx) result)) (\<lambda>_.
          bindE (withinBudget re (cx_runID cx) (ar_TaskID (ls_run ls1)) (ls_state ls1)) (\<lambda>_.
            act_on re cx stepNum ls1 action))))"

fun agentLoop :: "RunnerEnv \<Rightarrow> RunContext \<Rightarrow> nat \<Rightarrow> int \<Rightarrow> LoopState \<Rightarrow> loop_end rstep" where
  "agentLoop re cx 0 stepNum ls = retE (Finished ls)"
| "agentLoop re cx (Suc n) stepNum ls =
     bindE (loopStep re cx stepNum ls) (\<lambda>r.
       case r of
         Continue ls1 \<Rightarrow> agentLoop re cx n (stepNum + 1) ls1
       | Stop ls1 \<Rightarrow> retE (Finished ls1)
       | Halt \<Rightarrow> retE Paused)"

section \<open>A run\<close>

definition maxSteps :: nat where
  "maxSteps = 50"

definition getWorkspacePath :: "Workspace \<Rightarrow> string" where
  "getWorkspacePath ws =
     (case ws_WorktreePath ws of
        Some p \<Rightarrow> if p \<noteq> [] then p else path_Clean (''workspaces/'' @ ws_ID ws)
      | None \<Rightarrow> path_Clean (''workspaces/'' @ ws_ID ws))"

definition runFinalChecks :: "RunnerEnv \<Rightarrow> AgentRun \<Rightarrow> ModelTask \<Rightarrow> Workspace \<Rightarrow> string \<Rightarrow> (string \<times> runner_error option) rstep" where
  "runFinalChecks re run task workspace workspacePath =
     bindE (tried (executeTool re run task workspace workspacePath ''run_tests'' ''{}'')) (\<lambda>r. retE (toolOutcome r))"

definition buildSummary :: "RunnerEnv \<Rightarrow> RunState \<Rightarrow> string \<times> runner_error option \<Rightarrow> string \<Rightarrow> string" where
  "buildSummary re state testResults diffOutput =
     ''Agent run completed with '' @ FormatInt (rs_ToolCalls state) @ '' tool calls, '' @ FormatInt (rs_ShellCommands state) @
     '' shell commands, '' @ FormatInt (rs_FilesChanged state) @ '' files changed in '' @ FormatInt (rs_DurationMinutes state) @
     '' minutes.'' @
     (if diffOutput = [] then []
      else (case rn_diffFiles re diffOutput of
          None \<Rightarrow> [] | Some n \<Rightarrow> '' Files changed: '' @ FormatInt n @ ''.''))"

definition completedPayload :: "AgentRun \<Rightarrow> string \<Rightarrow> RunState \<Rightarrow> string \<Rightarrow> Payload" where
  "completedPayload run runID state summary =
     [(''run_id'', AString runID), (''task_id'', AString (ar_TaskID run)), (''agent_role'', AString (ar_AgentRole run)),
      (''status'', AString ''completed''), (''steps'', AInt (rs_ToolCalls state)), (''summary'', AString summary)]"

definition finishRun :: "RunnerEnv \<Rightarrow> RunContext \<Rightarrow> LoopState \<Rightarrow> unit rstep" where
  "finishRun re cx ls =
     bindE (runFinalChecks re (ls_run ls) (cx_task cx) (cx_workspace cx) (cx_path cx)) (\<lambda>testResults.
     bindE (tried (executeTool re (ls_run ls) (cx_task cx) (cx_workspace cx) (cx_path cx) ''get_git_diff'' ''{}'')) (\<lambda>d.
       let summary = buildSummary re (ls_state ls) testResults (fst (toolOutcome d))
       in bindE (unheeded (updateRunCompletion re (cx_runID cx) ''completed'' summary (ls_state ls))) (\<lambda>_.
          bindE (tell re (''runs.'' @ cx_runID cx @ ''.completed'') (completedPayload (ls_run ls) (cx_runID cx) (ls_state ls) summary)) (\<lambda>_.
            tell re ''agents.run.completed'' (completedPayload (ls_run ls) (cx_runID cx) (ls_state ls) summary)))))"

definition startedPayload :: "AgentRun \<Rightarrow> string \<Rightarrow> Payload" where
  "startedPayload run runID =
     [(''run_id'', AString runID), (''task_id'', AString (ar_TaskID run)), (''agent_role'', AString (ar_AgentRole run)),
      (''status'', AString ''running'')]"

definition reachable :: "RunnerEnv \<Rightarrow> Workspace \<Rightarrow> unit rstep" where
  "reachable re ws =
     bindE (runtimeProviderForWorkspace re (Some ws)) (\<lambda>provider.
       guardE (provider = None \<and> \<not> rn_stat re (getWorkspacePath ws)) (PathInaccessible (getWorkspacePath ws)))"

definition runLoop :: "RunnerEnv \<Rightarrow> string \<Rightarrow> AgentRun \<Rightarrow> ModelTask \<Rightarrow> Workspace \<Rightarrow> unit rstep" where
  "runLoop re runID run task ws =
     bindE (loadRunHistory re (ar_ID run)) (\<lambda>history.
     bindE (sql (timeNow (rn_env re))) (\<lambda>start.
     bindE (loadMailboxMessages re (tk_ID task) (ar_AgentRole run) 20) (\<lambda>mailbox.
       let cx = \<lparr>cx_runID = runID, cx_task = task, cx_workspace = ws, cx_path = getWorkspacePath ws,
             cx_system = rn_systemPrompt re (ar_AgentRole run) task ws, cx_mailbox = mailbox, cx_start = start\<rparr>
       in bindE (agentLoop re cx maxSteps (nextStepNumber history)
              \<lparr>ls_run = run, ls_state = seedRunState run history, ls_history = history\<rparr>) (\<lambda>r.
            case r of Paused \<Rightarrow> retE () | Finished ls \<Rightarrow> finishRun re cx ls))))"

definition Run :: "RunnerEnv \<Rightarrow> string \<Rightarrow> unit rstep" where
  "Run re runID =
     bindE (loadAgentRun re runID) (\<lambda>run.
     bindE (orFail re runID ''load task'' (loadTask re (ar_TaskID run))) (\<lambda>task.
     bindE (orFail re runID ''load workspace'' (loadWorkspace re (ar_WorkspaceID run))) (\<lambda>ws.
     bindE (orFail re runID ''workspace runtime not accessible'' (reachable re ws)) (\<lambda>_.
     bindE (updateRunStatus re runID ''running'') (\<lambda>_.
     bindE (tell re (''runs.'' @ runID @ ''.started'') (startedPayload run runID)) (\<lambda>_.
     bindE (tell re ''agents.run.started'' (startedPayload run runID)) (\<lambda>_.
       runLoop re runID run task ws)))))))"

section \<open>What the steps do to the state\<close>

text \<open>
  A relation between the state before and after a step, with the number of questions to the router and of
  tools that ran in between.  The parts of a run that change neither the approvals nor the status of a run
  stay within it.
\<close>

definition graded :: "(nat \<Rightarrow> nat \<Rightarrow> RunnerWorld \<Rightarrow> RunnerWorld \<Rightarrow> bool) \<Rightarrow> nat \<Rightarrow> nat \<Rightarrow> 'a rstep \<Rightarrow> bool" where
  "graded R a b m \<longleftrightarrow> (\<forall>s. R a b s (snd (m s)))"

definition statuses :: "Worker \<Rightarrow> (string \<times> string) list" where
  "statuses d = map (\<lambda>r. (ar_ID r, ar_Status r)) (wk_runs d)"

locale runner_steps =
  fixes R :: "nat \<Rightarrow> nat \<Rightarrow> RunnerWorld \<Rightarrow> RunnerWorld \<Rightarrow> bool" and re :: RunnerEnv and ok :: "AgentRun \<Rightarrow> bool"
  assumes R_refl: "R 0 0 s s"
    and R_trans: "R a b s t \<Longrightarrow> R c d t u \<Longrightarrow> R (a + c) (b + d) s u"
    and R_mono: "R a b s t \<Longrightarrow> a \<le> c \<Longrightarrow> b \<le> d \<Longrightarrow> R c d s t"
    and R_frame: "R 0 0 s (s\<lparr>rw_steps := steps, rw_usage := used, rw_calls := calls, rw_runtimes := runtimes\<rparr>)"
    and R_db: "wk_approvals e = wk_approvals (rw_db s) \<Longrightarrow> statuses e = statuses (rw_db s) \<Longrightarrow> R 0 0 s (s\<lparr>rw_db := e\<rparr>)"
    and R_insert: "R 0 0 s (s\<lparr>rw_db := snd (insertApproval env what p (rw_db s))\<rparr>)"
    and R_asked: "R 1 0 s (s\<lparr>rw_log := rw_log s @ [Asked req]\<rparr>)"
    and R_tool: "ok run \<Longrightarrow> R 0 1 s (snd (executeTool re run task ws path toolName input s))"
begin

lemma gradedI: "(\<And>s. R a b s (snd (m s))) \<Longrightarrow> graded R a b m"
  by (simp add: graded_def)

lemma gradedD: "graded R a b m \<Longrightarrow> m s = (r, t) \<Longrightarrow> R a b s t"
  unfolding graded_def by (metis snd_conv)

lemma graded_mono: "graded R a b m \<Longrightarrow> a \<le> c \<Longrightarrow> b \<le> d \<Longrightarrow> graded R c d m"
  using R_mono unfolding graded_def by blast

lemma R_weaken: "R 0 0 s t \<Longrightarrow> R a b s t"
  using R_mono by blast

lemma graded_bindE:
  assumes "graded R a b m" "\<And>x. graded R c d (k x)"
  shows "graded R (a + c) (b + d) (bindE m k)"
proof (rule gradedI)
  fix s
  obtain r t where m: "m s = (r, t)" by fastforce
  note st = gradedD [OF assms(1) m]
  show "R (a + c) (b + d) s (snd (bindE m k s))"
  proof (cases r)
    case (Inl e)
    with m R_mono [OF st] show ?thesis by (simp add: bindE_def)
  next
    case (Inr x)
    have "R c d t (snd (k x t))" using assms(2) by (simp add: graded_def)
    with st have "R (a + c) (b + d) s (snd (k x t))" by (rule R_trans)
    with m Inr show ?thesis by (simp add: bindE_def)
  qed
qed

lemma graded_bind0: "graded R 0 0 m \<Longrightarrow> (\<And>x. graded R a b (k x)) \<Longrightarrow> graded R a b (bindE m k)"
  using graded_bindE [of 0 0 m a b k] by simp

lemma graded_pure: "graded R a b (retE x)" "graded R a b (failE e)" "graded R a b (guardE bad e)"
  by (simp_all add: graded_def retE_def failE_def guardE_def R_weaken [OF R_refl])

lemma graded_wrapped:
  assumes "graded R a b m"
  shows "graded R a b (unheeded m)" "graded R a b (orElseE x m)" "graded R a b (tried m)"
  using assms unfolding graded_def unheeded_def orElseE_def tried_def
  by (auto split: prod.split sum.split) (metis snd_conv)+

text \<open>Statements on the tables of the worker.\<close>

lemma graded_onDb:
  assumes "\<And>d. wk_approvals (snd (m d)) = wk_approvals d \<and> statuses (snd (m d)) = statuses d"
  shows "graded R 0 0 (onDb m)"
proof (rule gradedI)
  fix s :: RunnerWorld
  obtain r d where m: "m (rw_db s) = (r, d)" by fastforce
  with assms [of "rw_db s"] have "R 0 0 s (s\<lparr>rw_db := d\<rparr>)" by (intro R_db) simp_all
  with m show "R 0 0 s (snd (onDb m s))" by (cases r) (simp_all add: onDb_def)
qed

lemma graded_reads: "graded R 0 0 (sql (timeNow env))" "graded R 0 0 (sql (newUUID env))"
  "graded R 0 0 (sql (query env what f))" "graded R 0 0 (sql (insertMessage env m))"
  by (rule graded_onDb; simp add: db_def timeNow_def newUUID_def query_def insertMessage_def count_def statuses_def)+

lemma graded_updRuns:
  assumes "\<And>r. ar_ID (f r) = ar_ID r \<and> ar_Status (f r) = ar_Status r"
  shows "graded R 0 0 (sql (execute env what (updRuns p f)))"
proof (rule graded_onDb)
  have "statuses (d\<lparr>wk_runs := updRows p f (wk_runs d), wk_n := n\<rparr>) = statuses d" for d n
    using assms by (simp add: statuses_def updRows_def)
  then show "wk_approvals (snd (db (execute env what (updRuns p f)) d)) = wk_approvals d \<and>
    statuses (snd (db (execute env what (updRuns p f)) d)) = statuses d" for d
    by (simp add: db_def execute_def updRuns_def count_def statuses_def)
qed

lemma graded_tell: "graded R 0 0 (tell re0 subject payload)"
  unfolding tell_def
  by (intro graded_wrapped graded_onDb) (simp add: publishEvent_def db_def publish_def count_def act_def statuses_def retE_def)

lemma graded_onTables:
  assumes "\<And>s. \<exists>x u. snd (f s) = s\<lparr>rw_steps := x, rw_usage := u\<rparr>"
  shows "graded R 0 0 (onTables env what f)"
proof -
  have "graded R 0 0 f"
  proof (rule gradedI)
    fix s :: RunnerWorld
    obtain x u where "snd (f s) = s\<lparr>rw_steps := x, rw_usage := u\<rparr>" using assms by blast
    then have "snd (f s) = s\<lparr>rw_steps := x, rw_usage := u, rw_calls := rw_calls s, rw_runtimes := rw_runtimes s\<rparr>" by simp
    then show "R 0 0 s (snd (f s))" using R_frame by metis
  qed
  then show ?thesis unfolding onTables_def by (intro graded_bind0 graded_reads)
qed

lemma graded_loads: "graded R 0 0 (loadAgentRun re runID)" "graded R 0 0 (loadTask re taskID)"
  "graded R 0 0 (loadWorkspace re workspaceID)" "graded R 0 0 (loadMailboxMessages re taskID role limit)"
  by (auto intro!: graded_bind0 graded_reads graded_pure graded_wrapped
      simp: loadAgentRun_def loadTask_def loadWorkspace_def loadMailboxMessages_def rowOr_def Let_def split: option.split)

lemma graded_steps: "graded R 0 0 (loadRunHistory re runID)" "graded R 0 0 (persistStep re step)"
  "graded R 0 0 (updateStepStatus re step)" "graded R 0 0 (newestBudget re p)" "graded R 0 0 (streamStep re step what)"
proof -
  have same: "\<exists>x u. s = s\<lparr>rw_steps := x, rw_usage := u\<rparr>" for s :: RunnerWorld
    by (intro exI [of _ "rw_steps s"] exI [of _ "rw_usage s"]) simp
  have steps: "\<exists>x u. s\<lparr>rw_steps := y\<rparr> = s\<lparr>rw_steps := x, rw_usage := u\<rparr>" for s :: RunnerWorld and y
    by (intro exI [of _ y] exI [of _ "rw_usage s"]) simp
  show "graded R 0 0 (loadRunHistory re runID)" "graded R 0 0 (newestBudget re p)"
    using same by (auto intro!: graded_pure graded_wrapped graded_onTables simp: loadRunHistory_def newestBudget_def)
  show "graded R 0 0 (persistStep re step)"
    using same steps by (auto intro!: graded_bind0 graded_reads graded_onTables simp: persistStep_def)
  show "graded R 0 0 (updateStepStatus re step)"
    using steps by (auto intro!: graded_onTables simp: updateStepStatus_def)
  show "graded R 0 0 (streamStep re step what)" unfolding streamStep_def by (rule graded_tell)
qed

lemma graded_budget: "graded R 0 0 (checkBudget re taskID state)"
  by (auto intro!: graded_bind0 graded_reads graded_pure graded_wrapped graded_steps
      simp: checkBudget_def loadTaskBudget_def loadProjectBudgetForTask_def split: option.split)

lemma graded_usage: "graded R 0 0 (recordModelUsage re run task result)"
proof -
  have usage: "\<exists>x u. s\<lparr>rw_usage := y\<rparr> = s\<lparr>rw_steps := x, rw_usage := u\<rparr>" for s :: RunnerWorld and y
    by (intro exI [of _ "rw_steps s"] exI [of _ y]) simp
  have same: "\<exists>x u. s = s\<lparr>rw_steps := x, rw_usage := u\<rparr>" for s :: RunnerWorld
    by (intro exI [of _ "rw_steps s"] exI [of _ "rw_usage s"]) simp
  show ?thesis
    using usage same
    by (auto intro!: graded_bind0 graded_reads graded_pure graded_onTables graded_updRuns simp: recordModelUsage_def Let_def)
qed

lemma graded_message: "graded R 0 0 (persistAgentMessage re taskID runID from to kind content metadata)"
  by (auto intro!: graded_bind0 graded_reads graded_pure simp: persistAgentMessage_def split: option.split)

lemma graded_action: "graded R 1 0 (nextModelAction re run task system mailbox history)"
proof -
  have "graded R 1 0 (routed re router req)" for router req
  proof (rule gradedI)
    fix s :: RunnerWorld
    obtain r calls where c: "RouteCall (rn_sort re) (rn_ufold re) router req (rw_calls s) = (r, calls)" by fastforce
    let ?t = "s\<lparr>rw_log := rw_log s @ [Asked req]\<rparr>"
    have "R (1 + 0) (0 + 0) s (?t\<lparr>rw_steps := rw_steps s, rw_usage := rw_usage s, rw_calls := calls, rw_runtimes := rw_runtimes s\<rparr>)"
      by (rule R_trans [OF R_asked R_frame])
    then show "R 1 0 s (snd (routed re router req s))"
      using c by (cases r) (simp_all add: routed_def bindE_def logged_def)
  qed
  then have "graded R (1 + 0) (0 + 0) (bindE (routed re router req) (\<lambda>result. case parseModelAction (rn_action re) (cs_Content result) of
      Inl e \<Rightarrow> failE e | Inr action \<Rightarrow> retE (action, result)))" for router req
    by (intro graded_bindE) (auto intro: graded_pure split: sum.split)
  then show ?thesis by (auto intro: graded_pure simp: nextModelAction_def split: option.split)
qed

lemma graded_toolStep: "ok run \<Longrightarrow> graded R 0 1 (runToolStep re stepNum run task ws path toolName input)"
proof -
  assume run: "ok run"
  have tool: "graded R 0 1 (executeTool re run task ws path toolName input)"
    using R_tool [OF run] by (simp add: graded_def)
  have rest: "graded R 0 0 (bindE (unheeded (updateStepStatus re done)) (\<lambda>_. bindE (streamStep re done what) (\<lambda>_.
      case err of None \<Rightarrow> retE done | Some e \<Rightarrow> failE e)))" for "done" what and err :: "runner_error option"
    by (auto intro!: graded_bind0 graded_wrapped graded_steps graded_pure split: option.split)
  have after: "graded R 0 0 (bindE (sql (timeNow (rn_env re))) (\<lambda>now.
      let (output, err) = toolOutcome r; done = (f now output err :: AgentStep)
      in bindE (unheeded (updateStepStatus re done)) (\<lambda>_. bindE (streamStep re done what) (\<lambda>_.
        case err of None \<Rightarrow> retE done | Some e \<Rightarrow> failE e))))" for r f what
    by (auto intro!: graded_bind0 graded_reads rest simp: Let_def split: prod.split)
  have exec: "graded R 0 1 (bindE (tried (executeTool re run task ws path toolName input)) k)"
    if "\<And>r. graded R 0 0 (k r)" for k :: "runner_error + string \<Rightarrow> AgentStep rstep"
    using graded_bindE [OF graded_wrapped(3) [OF tool], of 0 0 k] that by simp
  show ?thesis
    unfolding runToolStep_def Let_def
    by (rule graded_bind0 [OF graded_reads(2)], rule graded_bind0 [OF graded_wrapped(1) [OF graded_steps(2)]],
        rule graded_bind0 [OF graded_steps(5)], rule graded_bind0 [OF graded_reads(1)], rule exec,
        rule after [unfolded Let_def])
qed

lemma graded_insert: "graded R 0 0 (sql (insertApproval env what a))"
proof (rule gradedI)
  fix s :: RunnerWorld
  have "snd (sql (insertApproval env what a) s) = s\<lparr>rw_db := snd (insertApproval env what a (rw_db s))\<rparr>"
    by (simp add: onDb_def db_def split: prod.split sum.split)
  then show "R 0 0 s (snd (sql (insertApproval env what a) s))" using R_insert by simp
qed

lemma onDb_bindE: "onDb (bindE m k) = bindE (onDb m) (\<lambda>x. onDb (k x))"
  by (rule ext) (simp add: onDb_def bindE_def split: prod.split sum.split)

lemma graded_requests:
  "graded R 0 0 (onDb (requestCapabilityApproval env bus j run task toolName operation resource result))"
  "graded R 0 0 (onDb (requestModelApproval env bus j run task reason))"
proof -
  have pure: "graded R 0 0 (onDb (retE x))" "graded R 0 0 (onDb (failE e))" for x :: unit and e
    by (rule graded_onDb; simp add: retE_def failE_def)+
  have event: "graded R 0 0 (onDb (unheeded (publishEvent env bus subject event)))" for subject event
    by (rule graded_onDb) (simp add: unheeded_def publishEvent_def db_def publish_def count_def act_def statuses_def retE_def)
  show "graded R 0 0 (onDb (requestCapabilityApproval env bus j run task toolName operation resource result))"
    by (auto intro!: graded_bind0 graded_reads graded_insert pure event
        simp: requestCapabilityApproval_def onDb_bindE split: option.split sum.split)
  show "graded R 0 0 (onDb (requestModelApproval env bus j run task reason))"
    by (auto intro!: graded_bind0 graded_reads graded_insert pure event
        simp: requestModelApproval_def onDb_bindE split: option.split)
qed

lemma graded_runtime: "graded R 0 0 (runtimeProviderForWorkspace re ws)"
proof -
  have "graded R 0 0 (findRuntime re name)" for name
  proof (rule gradedI)
    fix s :: RunnerWorld
    have "R 0 0 s (s\<lparr>rw_steps := rw_steps s, rw_usage := rw_usage s, rw_calls := rw_calls s, rw_runtimes := name # rw_runtimes s\<rparr>)"
      by (rule R_frame)
    then show "R 0 0 s (snd (findRuntime re name s))"
      by (cases "name = ''docker''") (simp_all add: findRuntime_def R_refl split: option.split)
  qed
  moreover have "graded R 0 0 (attachSession re name session i)" for name session i
  proof (rule gradedI)
    fix s :: RunnerWorld
    have "R 0 0 s (s\<lparr>rw_db := count (rw_db s)\<rparr>)" by (rule R_db) (simp_all add: count_def statuses_def)
    then show "R 0 0 s (snd (attachSession re name session i s))" by (simp add: attachSession_def split: option.split)
  qed
  ultimately show ?thesis
    by (auto intro!: graded_bind0 graded_pure simp: runtimeProviderForWorkspace_def Let_def split: option.split)
qed

end

text \<open>A failed run is an error, and the steps of a run leave the identifier of its row alone.\<close>

lemma failRun_result: "fst (failRun re runID why s) = Inl (RunFailed runID why)"
  by (simp add: failRun_def bindE_def onDb_def db_def timeNow_def unheeded_def tell_def failE_def)

lemma failRun_Inr [simp]: "\<not> failRun re runID why s = (Inr x, t)"
  by (rule notI, drule arg_cong [where f = fst]) (simp add: failRun_result)

lemma orFail_Inr: "orFail re runID what m s = (Inr x, t) \<longleftrightarrow> m s = (Inr x, t)"
  by (simp add: orFail_def split: prod.split sum.split)

lemma refusedTool_Inr: "refusedTool re cx run e s = (Inr r, t) \<Longrightarrow> r = Halt"
  by (auto simp: refusedTool_def bindE_Inr split: option.splits)

lemma toolAction_run:
  assumes "toolAction re cx stepNum ls action s = (Inr r, t)"
  shows "r = Halt \<or> (\<exists>ls1. r = Continue ls1 \<and> ls_run ls1 = ls_run ls)"
proof -
  from assms obtain toolName input where "toolCall (rn_validJSON re) action = Inr (toolName, input)"
    by (auto simp: toolAction_def split: sum.splits)
  with assms obtain x s1 where rest: "(case x of Inl e \<Rightarrow> refusedTool re cx (ls_run ls) e | Inr step \<Rightarrow>
      bindE (sql (timeNow (rn_env re))) (\<lambda>now.
        let state = (countTool toolName (ls_state ls))\<lparr>rs_DurationMinutes := elapsedMinutes (cx_start cx) now\<rparr>
        in bindE (withinBudget re (cx_runID cx) (ar_TaskID (ls_run ls)) state) (\<lambda>_.
           retE (Continue (ls\<lparr>ls_state := state, ls_history := ls_history ls @ [step]\<rparr>))))) s1 = (Inr r, t)"
    by (auto simp: toolAction_def bindE_Inr)
  then show ?thesis
    by (cases x) (auto simp: bindE_Inr Let_def dest: refusedTool_Inr)
qed

lemma act_on_run:
  assumes "act_on re cx stepNum ls action s = (Inr r, t)"
  shows "r = Halt \<or> (\<exists>ls1. (r = Continue ls1 \<or> r = Stop ls1) \<and> ls_run ls1 = ls_run ls)"
proof -
  have "r = Halt" if "approvalAction re cx stepNum ls action s = (Inr r, t)"
    using that by (auto simp: approvalAction_def bindE_Inr Let_def)
  moreover have "\<exists>ls1. r = Stop ls1 \<and> ls_run ls1 = ls_run ls" if "finalAction re cx stepNum ls action s = (Inr r, t)"
    using that by (auto simp: finalAction_def bindE_Inr)
  moreover have "\<exists>ls1. r = Stop ls1 \<and> ls_run ls1 = ls_run ls" if "handoffAction re cx stepNum ls action s = (Inr r, t)"
    using that by (auto simp: handoffAction_def bindE_Inr Let_def split: if_splits)
  ultimately show ?thesis
    using assms toolAction_run [of re cx stepNum ls action s r t] by (auto simp: act_on_def split: if_splits)
qed

lemma loopStep_run:
  assumes "loopStep re cx stepNum ls s = (Inr r, t)"
  shows "r = Halt \<or> (\<exists>ls1. (r = Continue ls1 \<or> r = Stop ls1) \<and> ar_ID (ls_run ls1) = ar_ID (ls_run ls))"
proof -
  from assms obtain result action s1 where "act_on re cx stepNum (countModel result ls) action s1 = (Inr r, t)"
    by (auto simp: loopStep_def bindE_Inr Let_def)
  from act_on_run [OF this] show ?thesis by (auto simp: countModel_def Let_def)
qed

text \<open>Relations that the status of a run does not matter to.\<close>

locale runner_runs = runner_steps +
  assumes R_status: "R 0 0 s (s\<lparr>rw_db := (rw_db s)\<lparr>wk_runs := rs\<rparr>\<rparr>)"
    and ok_same: "ar_ID r1 = ar_ID r2 \<Longrightarrow> ok r2 \<Longrightarrow> ok r1"
begin

lemma graded_setRuns: "graded R 0 0 (sql (execute env what (updRuns p f)))"
proof (rule gradedI)
  fix s :: RunnerWorld
  let ?t = "s\<lparr>rw_db := (rw_db s)\<lparr>wk_runs := updRows p f (wk_runs (rw_db s))\<rparr>\<rparr>"
  have t: "R 0 0 s ?t" by (rule R_status)
  have "R 0 0 ?t (?t\<lparr>rw_db := count (rw_db ?t)\<rparr>)" by (rule R_db) (simp_all add: count_def statuses_def)
  from R_trans [OF t this] have "R 0 0 s (?t\<lparr>rw_db := count (rw_db ?t)\<rparr>)" by simp
  moreover have "R 0 0 s (s\<lparr>rw_db := count (rw_db s)\<rparr>)" by (rule R_db) (simp_all add: count_def statuses_def)
  ultimately show "R 0 0 s (snd (sql (execute env what (updRuns p f)) s))"
    by (simp add: onDb_def db_def execute_def updRuns_def)
qed

lemma graded_status: "graded R 0 0 (updateRunStatus re runID status)" "graded R 0 0 (failRun re runID why)"
  "graded R 0 0 (pauseRun re runID reason)" "graded R 0 0 (updateRunCompletion re runID status summary state)"
  by (auto intro!: graded_bind0 graded_reads graded_setRuns graded_pure graded_wrapped(1) graded_tell
      simp: updateRunStatus_def failRun_def pauseRun_def updateRunCompletion_def)

lemma R_failRun: "R 0 0 s (snd (failRun re runID why s))"
  by (rule graded_status(2) [unfolded graded_def, rule_format])

lemma graded_orFail:
  assumes "graded R a b m"
  shows "graded R a b (orFail re runID what m)"
proof (rule gradedI)
  fix s
  obtain r t where m: "m s = (r, t)" by fastforce
  note st = gradedD [OF assms m]
  from R_trans [OF st R_failRun] have "R a b s (snd (failRun re runID (While what e) t))" for e by simp
  with st m show "R a b s (snd (orFail re runID what m s))"
    by (cases r) (simp_all add: orFail_def)
qed

lemma graded_within: "graded R 0 0 (withinBudget re runID taskID state)"
  by (auto intro!: graded_bind0 graded_budget graded_pure graded_status simp: withinBudget_def)

lemma graded_recordStep: "graded R 0 0 (recordStep re cx stepNum kind content)"
  by (auto intro!: graded_bind0 graded_reads graded_wrapped(1) graded_steps graded_pure simp: recordStep_def Let_def)

lemma graded_refused: "graded R 0 0 (refusedTool re cx run e)"
  by (auto intro!: graded_bind0 graded_orFail graded_requests graded_status graded_pure simp: refusedTool_def split: option.split)

lemma graded_toolAction: "ok (ls_run ls) \<Longrightarrow> graded R 0 1 (toolAction re cx stepNum ls action)"
proof -
  assume run: "ok (ls_run ls)"
  have rest: "graded R 0 0 (case r of Inl e \<Rightarrow> refusedTool re cx (ls_run ls) e | Inr step \<Rightarrow> bindE (sql (timeNow (rn_env re))) (\<lambda>now.
      let state = f now in bindE (withinBudget re (cx_runID cx) (ar_TaskID (ls_run ls)) state) (\<lambda>_. retE (g state step))))"
    for r :: "runner_error + AgentStep" and f and g :: "RunState \<Rightarrow> AgentStep \<Rightarrow> loop_step"
    by (auto intro!: graded_bind0 graded_refused graded_reads graded_within graded_pure simp: Let_def split: sum.split)
  have "graded R 0 1 (bindE (tried (runToolStep re stepNum (ls_run ls) task ws path toolName input)) k)"
    if "\<And>r. graded R 0 0 (k r)" for task ws path toolName input and k :: "runner_error + AgentStep \<Rightarrow> loop_step rstep"
    using graded_bindE [OF graded_wrapped(3) [OF graded_toolStep [OF run]], of 0 0 k] that by simp
  note step = this [OF rest]
  show ?thesis
  proof (cases "toolCall (rn_validJSON re) action")
    case (Inl e)
    then show ?thesis by (simp add: toolAction_def graded_mono [OF graded_status(2)])
  next
    case (Inr c)
    then show ?thesis using step by (cases c) (simp add: toolAction_def)
  qed
qed

lemma graded_others: "graded R 0 0 (finalAction re cx stepNum ls action)" "graded R 0 0 (handoffAction re cx stepNum ls action)"
  "graded R 0 0 (approvalAction re cx stepNum ls action)"
  by (auto intro!: graded_bind0 graded_recordStep graded_orFail graded_message graded_requests graded_status graded_pure
      simp: finalAction_def handoffAction_def approvalAction_def Let_def)

lemma graded_act: "ok (ls_run ls) \<Longrightarrow> graded R 0 1 (act_on re cx stepNum ls action)"
  using graded_toolAction [of ls cx stepNum action]
  by (simp add: act_on_def graded_mono [OF graded_others(1)] graded_mono [OF graded_others(2)]
      graded_mono [OF graded_others(3)] graded_mono [OF graded_status(2)])

lemma graded_unless: "graded R 0 0 (unlessCancelled re runID)"
proof (rule gradedI)
  fix s :: RunnerWorld
  let ?t = "s\<lparr>rw_db := count (rw_db s)\<rparr>"
  have t: "R 0 0 s ?t" by (rule R_db) (simp_all add: count_def statuses_def)
  have "R (0 + 0) (0 + 0) s (snd (failRun re runID ContextCancelled ?t :: (runner_error + unit) \<times> RunnerWorld))"
    by (rule R_trans [OF t R_failRun])
  with t show "R 0 0 s (snd (unlessCancelled re runID s))" by (simp add: unlessCancelled_def Let_def)
qed

lemma graded_loopStep: "ok (ls_run ls) \<Longrightarrow> graded R 1 1 (loopStep re cx stepNum ls)"
proof -
  assume run: "ok (ls_run ls)"
  have run1: "ok (ls_run (countModel result ls))" for result
    by (rule ok_same [OF _ run]) (simp add: countModel_def Let_def)
  have "graded R 0 1 (bindE (unheeded (recordModelUsage re r task result)) (\<lambda>_.
      bindE (withinBudget re runID taskID state) (\<lambda>_. act_on re cx stepNum (countModel result ls) action)))"
    for r task result runID taskID state action
    by (intro graded_bind0 graded_wrapped(1) graded_usage graded_within graded_act run1)
  from graded_bindE [OF graded_orFail [OF graded_action] this]
  have "graded R 1 1 (bindE (orFail re runID what (nextModelAction re r task system mailbox history)) (\<lambda>(action, result).
      bindE (unheeded (recordModelUsage re (f result) task1 result)) (\<lambda>_.
      bindE (withinBudget re runID (g result) (h result)) (\<lambda>_. act_on re cx stepNum (countModel result ls) action))))"
    for runID what r task system mailbox history f task1 g h
    by (simp add: case_prod_beta')
  from this [of "cx_runID cx" "''model action''" "ls_run ls" "cx_task cx" "cx_system cx" "cx_mailbox cx" "ls_history ls"
      "\<lambda>result. ls_run (countModel result ls)" "cx_task cx" "\<lambda>result. ar_TaskID (ls_run (countModel result ls))"
      "\<lambda>result. ls_state (countModel result ls)"]
  show ?thesis unfolding loopStep_def Let_def by (rule graded_bind0 [OF graded_unless])
qed

lemma graded_loop: "ok (ls_run ls) \<Longrightarrow> graded R n n (agentLoop re cx n stepNum ls)"
proof (induction n arbitrary: stepNum ls)
  case 0
  then show ?case by (simp add: graded_pure)
next
  case (Suc n)
  show ?case
  proof (rule gradedI)
    fix s
    obtain r t where step: "loopStep re cx stepNum ls s = (r, t)" by fastforce
    note st = gradedD [OF graded_loopStep [OF Suc.prems] step]
    show "R (Suc n) (Suc n) s (snd (agentLoop re cx (Suc n) stepNum ls s))"
    proof (cases r)
      case (Inl e)
      with step R_mono [OF st] show ?thesis by (simp add: bindE_def)
    next
      case (Inr x)
      show ?thesis
      proof (cases x)
        case (Continue ls1)
        then have "ok (ls_run ls1)" using loopStep_run [OF step [unfolded Inr]] ok_same [OF _ Suc.prems] by auto
        from Suc.IH [OF this, of "stepNum + 1"] have "R n n t (snd (agentLoop re cx n (stepNum + 1) ls1 t))"
          by (simp add: graded_def)
        from R_trans [OF st this] step Inr Continue show ?thesis by (simp add: bindE_def)
      next
        case (Stop ls1)
        with step Inr R_mono [OF st] show ?thesis by (simp add: bindE_def retE_def)
      next
        case Halt
        with step Inr R_mono [OF st] show ?thesis by (simp add: bindE_def retE_def)
      qed
    qed
  qed
qed

lemma graded_loopRun:
  "agentLoop re cx n stepNum ls s = (Inr (Finished ls1), t) \<Longrightarrow> ar_ID (ls_run ls1) = ar_ID (ls_run ls)"
proof (induction n arbitrary: stepNum ls s)
  case (Suc n)
  then obtain r s1 where step: "loopStep re cx stepNum ls s = (Inr r, s1)"
    and rest: "(case r of Continue ls1 \<Rightarrow> agentLoop re cx n (stepNum + 1) ls1 | Stop ls1 \<Rightarrow> retE (Finished ls1) | Halt \<Rightarrow> retE Paused) s1
      = (Inr (Finished ls1), t)"
    by (auto simp: bindE_Inr)
  with loopStep_run [OF step] Suc.IH show ?case by (cases r) auto
qed simp

lemma graded_bindP:
  assumes "graded R a b m" "\<And>x s t. m s = (Inr x, t) \<Longrightarrow> graded R c d (k x)"
  shows "graded R (a + c) (b + d) (bindE m k)"
proof (rule gradedI)
  fix s
  obtain r t where m: "m s = (r, t)" by fastforce
  note st = gradedD [OF assms(1) m]
  show "R (a + c) (b + d) s (snd (bindE m k s))"
  proof (cases r)
    case (Inl e)
    with m R_mono [OF st] show ?thesis by (simp add: bindE_def)
  next
    case (Inr x)
    have "R c d t (snd (k x t))" using assms(2) m Inr by (simp add: graded_def)
    with st have "R (a + c) (b + d) s (snd (k x t))" by (rule R_trans)
    with m Inr show ?thesis by (simp add: bindE_def)
  qed
qed

lemma graded_finish: "ok (ls_run ls) \<Longrightarrow> graded R 0 2 (finishRun re cx ls)"
proof -
  assume run: "ok (ls_run ls)"
  have tool: "graded R 0 1 (tried (executeTool re (ls_run ls) task ws path toolName input))" for task ws path toolName input
    using R_tool [OF run] by (intro graded_wrapped(3)) (simp add: graded_def)
  have checks: "graded R 0 1 (runFinalChecks re (ls_run ls) task ws path)" for task ws path
  proof -
    have "graded R (0 + 0) (1 + 0) (bindE (tried (executeTool re (ls_run ls) task ws path ''run_tests'' ''{}'')) (\<lambda>r. retE (toolOutcome r)))"
      by (rule graded_bindE [OF tool graded_pure(1)])
    then show ?thesis by (simp add: runFinalChecks_def)
  qed
  have rest: "graded R 0 0 (bindE (unheeded (updateRunCompletion re i status summary state)) (\<lambda>_.
      bindE (tell re a p) (\<lambda>_. tell re b q)))" for i status summary state a p b q
    by (intro graded_bind0 graded_wrapped(1) graded_status graded_tell)
  have diff: "graded R 0 1 (bindE (tried (executeTool re (ls_run ls) task ws path toolName input)) k)"
    if "\<And>d. graded R 0 0 (k d)" for task ws path toolName input and k :: "runner_error + string \<Rightarrow> unit rstep"
    using graded_bindE [OF tool, of 0 0 k] that by simp
  have "graded R (0 + 0) (1 + 1) (bindE (runFinalChecks re (ls_run ls) task ws path) k)"
    if "\<And>x. graded R 0 1 (k x)" for task ws path and k :: "string \<times> runner_error option \<Rightarrow> unit rstep"
    by (rule graded_bindE [OF checks that])
  from this [OF diff [OF rest]] show ?thesis unfolding finishRun_def Let_def by (simp add: numeral_2_eq_2)
qed

lemma graded_runLoop: "ok run \<Longrightarrow> graded R maxSteps (maxSteps + 2) (runLoop re runID run task ws)"
proof -
  assume run: "ok run"
  have loop: "graded R (maxSteps + 0) (maxSteps + 2) (bindE (agentLoop re cx maxSteps n \<lparr>ls_run = run, ls_state = st, ls_history = h\<rparr>)
      (\<lambda>r. case r of Paused \<Rightarrow> retE () | Finished ls \<Rightarrow> finishRun re cx ls))" for cx n st h
  proof (rule graded_bindP)
    show "graded R maxSteps maxSteps (agentLoop re cx maxSteps n \<lparr>ls_run = run, ls_state = st, ls_history = h\<rparr>)"
      by (rule graded_loop) (simp add: run)
    fix x s t assume "agentLoop re cx maxSteps n \<lparr>ls_run = run, ls_state = st, ls_history = h\<rparr> s = (Inr x, t)"
    then show "graded R 0 2 (case x of Paused \<Rightarrow> retE () | Finished ls \<Rightarrow> finishRun re cx ls)"
      using graded_loopRun ok_same [OF _ run] graded_finish by (cases x) (auto simp: graded_pure)
  qed
  show ?thesis
    unfolding runLoop_def Let_def
    by (rule graded_bind0 [OF graded_steps(1)], rule graded_bind0 [OF graded_reads(1)], rule graded_bind0 [OF graded_loads(4)],
        rule loop [unfolded add_0_right])
qed

lemma graded_Run:
  assumes "\<And>run. ar_ID run = runID \<Longrightarrow> ok run"
  shows "graded R maxSteps (maxSteps + 2) (Run re runID)"
proof -
  have reach: "graded R 0 0 (reachable re ws)" for ws
    by (auto intro!: graded_bind0 graded_runtime graded_pure simp: reachable_def)
  have "graded R (0 + maxSteps) (0 + (maxSteps + 2)) (Run re runID)"
    unfolding Run_def
  proof (rule graded_bindP [OF graded_loads(1)])
    fix run s t assume "loadAgentRun re runID s = (Inr run, t)"
    then have "ar_ID run = runID"
      by (auto simp: loadAgentRun_def rowOr_def bindE_Inr onDb_def db_def query_def find_Some_iff split: if_splits option.splits prod.splits sum.splits)
    then have run: "ok run" by (rule assms)
    show "graded R maxSteps (maxSteps + 2) (bindE (orFail re runID ''load task'' (loadTask re (ar_TaskID run))) (\<lambda>task.
      bindE (orFail re runID ''load workspace'' (loadWorkspace re (ar_WorkspaceID run))) (\<lambda>ws.
      bindE (orFail re runID ''workspace runtime not accessible'' (reachable re ws)) (\<lambda>_.
      bindE (updateRunStatus re runID ''running'') (\<lambda>_.
      bindE (tell re (''runs.'' @ runID @ ''.started'') (startedPayload run runID)) (\<lambda>_.
      bindE (tell re ''agents.run.started'' (startedPayload run runID)) (\<lambda>_. runLoop re runID run task ws)))))))"
      by (intro graded_bind0 graded_orFail graded_loads reach graded_status graded_tell graded_runLoop run)
  qed
  then show ?thesis by simp
qed

end

section \<open>How long a run can be\<close>

text \<open>What executing a tool does to the state.\<close>

definition sameDb :: "Worker \<Rightarrow> Worker \<Rightarrow> bool" where
  "sameDb d e \<longleftrightarrow> wk_approvals e = wk_approvals d \<and> wk_runs e = wk_runs d"

lemma sameDb_simps [simp]: "sameDb d d" "sameDb d (count d)"
  by (simp_all add: sameDb_def count_def)

lemma runtime_effect:
  "rw_log (snd (runtimeProviderForWorkspace re ws s)) = rw_log s \<and> sameDb (rw_db s) (rw_db (snd (runtimeProviderForWorkspace re ws s)))"
proof -
  have find: "rw_log (snd (findRuntime re name s)) = rw_log s \<and> rw_db (snd (findRuntime re name s)) = rw_db s" for name and s :: RunnerWorld
    by (simp add: findRuntime_def split: option.split)
  have attach: "rw_log (snd (attachSession re name session i s)) = rw_log s \<and> sameDb (rw_db s) (rw_db (snd (attachSession re name session i s)))"
    for name session i and s :: RunnerWorld
    by (simp add: attachSession_def split: option.split)
  have both: "rw_log (snd (bindE (findRuntime re name) (\<lambda>_. attachSession re name session i) s)) = rw_log s \<and>
      sameDb (rw_db s) (rw_db (snd (bindE (findRuntime re name) (\<lambda>_. attachSession re name session i) s)))" for name session i
    using find [of name s] attach [of name session i "snd (findRuntime re name s)"]
    by (cases "findRuntime re name s"; cases "fst (findRuntime re name s)") (auto simp: bindE_def)
  then show ?thesis
    by (simp add: runtimeProviderForWorkspace_def Let_def retE_def failE_def split: option.split)
qed

definition toolEffect :: "string \<Rightarrow> string \<Rightarrow> Worker \<Rightarrow> RunnerWorld \<Rightarrow> RunnerWorld \<Rightarrow> bool" where
  "toolEffect toolName input d s t \<longleftrightarrow> sameDb d (rw_db t) \<and> (rw_log t = rw_log s \<or> rw_log t = rw_log s @ [ToolRan toolName input])"

lemma dispatch_effect: "toolEffect toolName input (rw_db s) s (snd (dispatch f toolName input s))"
  by (simp add: toolEffect_def dispatch_def bindE_def logged_def failE_def split: prod.split option.split)

lemma executeTool_effect:
  assumes "authorizeTool (rn_env re) (rn_json re) (rn_tools re) run (Some task) (Some ws) toolName input (rw_db s) = (a, d)"
  shows "toolEffect toolName input d s (snd (executeTool re run task ws path toolName input s))"
    and "a = Inl e \<Longrightarrow> rw_log (snd (executeTool re run task ws path toolName input s)) = rw_log s"
proof -
  let ?s = "s\<lparr>rw_db := d\<rparr>"
  obtain p s1 where prov: "runtimeProviderForWorkspace re (Some ws) ?s = (p, s1)" by fastforce
  from runtime_effect [of re "Some ws" ?s] prov have s1: "rw_log s1 = rw_log s" "sameDb d (rw_db s1)" by simp_all
  have disp: "toolEffect toolName input d s (snd (dispatch f toolName input s1))" for f
    using dispatch_effect [of toolName input s1 f] s1 by (auto simp: toolEffect_def sameDb_def)
  have none: "toolEffect toolName input d s s1" "toolEffect toolName input d s ?s"
    using s1 by (simp_all add: toolEffect_def)
  show "toolEffect toolName input d s (snd (executeTool re run task ws path toolName input s))"
    using assms prov disp none
    by (cases a; cases p) (auto simp: executeTool_def bindE_def onDb_def executeToolUnchecked_def executeRuntimeTool_def
        split: option.split)
  show "rw_log (snd (executeTool re run task ws path toolName input s)) = rw_log s" if "a = Inl e"
    using assms that by (simp add: executeTool_def bindE_def onDb_def)
qed

definition isAsked :: "RunnerAct \<Rightarrow> bool" where
  "isAsked a = (case a of Asked _ \<Rightarrow> True | ToolRan _ _ \<Rightarrow> False)"

definition isToolRan :: "RunnerAct \<Rightarrow> bool" where
  "isToolRan a = (case a of Asked _ \<Rightarrow> False | ToolRan _ _ \<Rightarrow> True)"

definition logGrows :: "nat \<Rightarrow> nat \<Rightarrow> RunnerWorld \<Rightarrow> RunnerWorld \<Rightarrow> bool" where
  "logGrows a b s t \<longleftrightarrow> (\<exists>new. rw_log t = rw_log s @ new \<and> length (filter isAsked new) \<le> a \<and> length (filter isToolRan new) \<le> b)"

interpretation logs: runner_runs logGrows re "\<lambda>_. True"
proof
  fix s t u :: RunnerWorld and a b c d
  assume "logGrows a b s t" "logGrows c d t u"
  then show "logGrows (a + c) (b + d) s u" unfolding logGrows_def
    by (elim exE conjE) (intro exI conjI, simp, simp_all)
next
  fix s :: RunnerWorld and req
  show "logGrows 1 0 s (s\<lparr>rw_log := rw_log s @ [Asked req]\<rparr>)"
    by (simp add: logGrows_def isAsked_def isToolRan_def)
next
  fix run task ws path toolName input and s :: RunnerWorld
  show "logGrows 0 1 s (snd (executeTool re run task ws path toolName input s))"
  proof -
    obtain a d where "authorizeTool (rn_env re) (rn_json re) (rn_tools re) run (Some task) (Some ws) toolName input (rw_db s) = (a, d)"
      by fastforce
    from executeTool_effect(1) [OF this, of path] show ?thesis
      by (auto simp: toolEffect_def logGrows_def isAsked_def isToolRan_def)
  qed
qed (auto simp: logGrows_def intro: order_trans)

text \<open>
  C9. A run ends: whatever the model, the tools and the data base do, one call of \<open>Run\<close> asks the router at most
  fifty times and runs at most fifty-two tools, two of which are the final checks.
\<close>

theorem Run_bounded:
  "\<exists>new. rw_log (snd (Run re runID s)) = rw_log s @ new \<and> length (filter isAsked new) \<le> 50 \<and>
     length (filter isToolRan new) \<le> 52"
proof -
  have "graded logGrows maxSteps (maxSteps + 2) (Run re runID)" by (rule logs.graded_Run) simp
  then show ?thesis by (simp add: graded_def logGrows_def maxSteps_def)
qed

section \<open>Tools that a run executes\<close>

text \<open>What must be so for a tool to run, seen in the tables afterwards.\<close>

definition toolGranted :: "RunnerEnv \<Rightarrow> string \<Rightarrow> Worker \<Rightarrow> Kernel \<Rightarrow> CapRequest \<Rightarrow> bool" where
  "toolGranted re runID d k req \<longleftrightarrow>
     (let (result, err) = fst (Kernel_Evaluate (te_ftext (rn_tools re)) k req) in
        err = None \<and>
        (if res_RequiredApproval result then \<exists>i. consumedIn (rn_json re) d (runID, i, requestGrant req)
         else sandboxed req (Evaluate (te_ftext (rn_tools re)) (k_policyEngine k) (policyRequest req) EffectAsk)
           \<notin> {EffectDeny, EffectAsk, EffectAdminOnly}))"

definition toolAllowed :: "RunnerEnv \<Rightarrow> string \<Rightarrow> Worker \<Rightarrow> string \<Rightarrow> string \<Rightarrow> bool" where
  "toolAllowed re runID d toolName input \<longleftrightarrow>
     (\<exists>k run task ws operation revision. te_kernel (rn_tools re) = Some k \<and> ar_ID run = runID \<and>
        toolOperation toolName = Some operation \<and>
        (toolRequiresWorkspaceRevision toolName \<longrightarrow> (\<exists>n. te_revision (rn_tools re) n = Inr revision)) \<and>
        toolGranted re runID d k (toolRequest (rn_tools re) run (Some task) (Some ws) toolName operation revision input))"

definition onlyAllowed :: "RunnerEnv \<Rightarrow> string \<Rightarrow> nat \<Rightarrow> nat \<Rightarrow> RunnerWorld \<Rightarrow> RunnerWorld \<Rightarrow> bool" where
  "onlyAllowed re runID a b s t \<longleftrightarrow>
     (marks (rn_json re) \<and> distinct (map ap_ID (wk_approvals (rw_db s))) \<longrightarrow>
        distinct (map ap_ID (wk_approvals (rw_db t))) \<and> laterRows (rn_json re) (rw_db s) (rw_db t) \<and>
        (\<exists>new. rw_log t = rw_log s @ new \<and>
           (\<forall>toolName input. ToolRan toolName input \<in> set new \<longrightarrow> toolAllowed re runID (rw_db t) toolName input)))"

lemma toolAllowed_later:
  assumes "toolAllowed re runID d toolName input" "laterRows (rn_json re) d d1"
  shows "toolAllowed re runID d1 toolName input"
proof -
  have "toolGranted re runID d k req \<Longrightarrow> toolGranted re runID d1 k req" for k req
    using later_consumedIn [OF _ assms(2)] unfolding toolGranted_def by (auto split: prod.splits if_splits)
  with assms(1) show ?thesis unfolding toolAllowed_def by blast
qed

lemma authorised_granted:
  assumes "authorised (rn_json re) (rn_tools re) runID req rows (wk_approvals d)" "marks (rn_json re)" "te_kernel (rn_tools re) = Some k"
  shows "toolGranted re runID d k req"
  using assms consumes_marked [OF _ assms(2), of runID "requestGrant req" rows d]
  by (auto simp: authorised_def toolGranted_def split: prod.splits if_splits)

lemma onlyAllowed_trans:
  assumes "onlyAllowed re runID a b s t" "onlyAllowed re runID c d t u"
  shows "onlyAllowed re runID (a + c) (b + d) s u"
  unfolding onlyAllowed_def
proof (rule impI)
  assume h: "marks (rn_json re) \<and> distinct (map ap_ID (wk_approvals (rw_db s)))"
  from assms(1) h obtain new1 where 1: "distinct (map ap_ID (wk_approvals (rw_db t)))" "laterRows (rn_json re) (rw_db s) (rw_db t)"
    "rw_log t = rw_log s @ new1" "\<And>x y. ToolRan x y \<in> set new1 \<Longrightarrow> toolAllowed re runID (rw_db t) x y"
    unfolding onlyAllowed_def by blast
  from assms(2) h 1(1) obtain new2 where 2: "distinct (map ap_ID (wk_approvals (rw_db u)))" "laterRows (rn_json re) (rw_db t) (rw_db u)"
    "rw_log u = rw_log t @ new2" "\<And>x y. ToolRan x y \<in> set new2 \<Longrightarrow> toolAllowed re runID (rw_db u) x y"
    unfolding onlyAllowed_def by blast
  have "rw_log u = rw_log s @ (new1 @ new2)" using 1(3) 2(3) by simp
  moreover have "toolAllowed re runID (rw_db u) x y" if "ToolRan x y \<in> set (new1 @ new2)" for x y
    using that 1(4) 2(4) toolAllowed_later [OF _ 2(2)] by auto
  ultimately show "distinct (map ap_ID (wk_approvals (rw_db u))) \<and> laterRows (rn_json re) (rw_db s) (rw_db u) \<and>
      (\<exists>new. rw_log u = rw_log s @ new \<and>
         (\<forall>toolName input. ToolRan toolName input \<in> set new \<longrightarrow> toolAllowed re runID (rw_db u) toolName input))"
    using 2(1) laterRows_trans [OF 1(2) 2(2)] by blast
qed

text \<open>A step that logs no tool.\<close>

lemma onlyAllowed_quiet:
  assumes "rw_log t = rw_log s @ new" "\<forall>x y. ToolRan x y \<notin> set new" "keptRows (rn_json re) (rw_db s) (rw_db t)"
  shows "onlyAllowed re runID a b s t"
  using assms unfolding onlyAllowed_def keptRows_def by blast

lemma keptRows_insert: "keptRows j d (snd (insertApproval env what p d))"
  by (auto simp: keptRows_def laterRows_def insertApproval_def count_def list_ex_iff)

lemma executeTool_allowed:
  assumes "ar_ID run = runID"
  shows "onlyAllowed re runID 0 1 s (snd (executeTool re run task ws path toolName input s))"
proof -
  let ?t = "snd (executeTool re run task ws path toolName input s)"
  obtain a d where auth: "authorizeTool (rn_env re) (rn_json re) (rn_tools re) run (Some task) (Some ws) toolName input (rw_db s) = (a, d)"
    by fastforce
  have kept: "keptRows (rn_json re) (rw_db s) d"
    using authorizeTool_kept [where s = "rw_db s" and env = "rn_env re" and j = "rn_json re" and te = "rn_tools re" and run = run
      and task = "Some task" and workspace = "Some ws" and toolName = toolName and input = input] auth by simp
  note eff = executeTool_effect(1) [OF auth, of path]
  then have same: "sameDb d (rw_db ?t)" by (simp add: toolEffect_def)
  then have kept2: "keptRows (rn_json re) (rw_db s) (rw_db ?t)"
    using kept.trans [OF kept keptRows_same] by (simp add: sameDb_def)
  show ?thesis
  proof (cases "rw_log ?t = rw_log s")
    case True
    then show ?thesis using onlyAllowed_quiet [of ?t s "[]"] kept2 by simp
  next
    case False
    with eff have log: "rw_log ?t = rw_log s @ [ToolRan toolName input]" by (simp add: toolEffect_def)
    obtain x where a: "a = Inr x" using False executeTool_effect(2) [OF auth] by (cases a) auto
    show ?thesis unfolding onlyAllowed_def
    proof (rule impI, elim conjE)
      assume marks: "marks (rn_json re)" and dis: "distinct (map ap_ID (wk_approvals (rw_db s)))"
      from a auth have "authorizeTool (rn_env re) (rn_json re) (rn_tools re) run (Some task) (Some ws) toolName input (rw_db s) = (Inr (), d)"
        by simp
      from authorizeTool_core [OF this dis] obtain operation revision where op: "toolOperation toolName = Some operation"
        and rev: "toolRequiresWorkspaceRevision toolName \<longrightarrow> te_revision (rn_tools re) (wk_n (rw_db s)) = Inr revision"
        and ok: "authorised (rn_json re) (rn_tools re) (ar_ID run)
          (toolRequest (rn_tools re) run (Some task) (Some ws) toolName operation revision input) (wk_approvals (rw_db s)) (wk_approvals d)"
        by blast
      have app: "wk_approvals d = wk_approvals (rw_db ?t)" using same by (simp add: sameDb_def)
      obtain k where k: "te_kernel (rn_tools re) = Some k" using ok by (auto simp: authorised_def)
      from authorised_granted [OF ok [unfolded app assms] marks k] op rev k assms
      have "toolAllowed re runID (rw_db ?t) toolName input" unfolding toolAllowed_def by blast
      with log kept2 dis show "distinct (map ap_ID (wk_approvals (rw_db ?t))) \<and> laterRows (rn_json re) (rw_db s) (rw_db ?t) \<and>
        (\<exists>new. rw_log ?t = rw_log s @ new \<and>
           (\<forall>toolName input. ToolRan toolName input \<in> set new \<longrightarrow> toolAllowed re runID (rw_db ?t) toolName input))"
        by (auto simp: keptRows_def)
    qed
  qed
qed

interpretation allowed: runner_runs "onlyAllowed re runID" re "\<lambda>run. ar_ID run = runID"
proof
  fix s t u :: RunnerWorld and a b c d
  assume "onlyAllowed re runID a b s t" "onlyAllowed re runID c d t u"
  then show "onlyAllowed re runID (a + c) (b + d) s u" by (rule onlyAllowed_trans)
next
  fix run :: AgentRun and task ws path toolName input and s :: RunnerWorld
  assume "ar_ID run = runID"
  then show "onlyAllowed re runID 0 1 s (snd (executeTool re run task ws path toolName input s))"
    by (rule executeTool_allowed)
next
  fix s t :: RunnerWorld and a b c d
  assume "onlyAllowed re runID a b s t"
  then show "onlyAllowed re runID c d s t" by (simp add: onlyAllowed_def)
next
  fix e :: Worker and s :: RunnerWorld
  assume "wk_approvals e = wk_approvals (rw_db s)"
  then show "onlyAllowed re runID 0 0 s (s\<lparr>rw_db := e\<rparr>)"
    using onlyAllowed_quiet [of "s\<lparr>rw_db := e\<rparr>" s "[]"] keptRows_same by simp
next
  fix s :: RunnerWorld and env what p
  show "onlyAllowed re runID 0 0 s (s\<lparr>rw_db := snd (insertApproval env what p (rw_db s))\<rparr>)"
    using onlyAllowed_quiet [of "s\<lparr>rw_db := snd (insertApproval env what p (rw_db s))\<rparr>" s "[]"] keptRows_insert by simp
next
  fix s :: RunnerWorld and req
  show "onlyAllowed re runID 1 0 s (s\<lparr>rw_log := rw_log s @ [Asked req]\<rparr>)"
    using onlyAllowed_quiet [of "s\<lparr>rw_log := rw_log s @ [Asked req]\<rparr>" s "[Asked req]"] kept.refl by simp
next
  fix s :: RunnerWorld and rs
  show "onlyAllowed re runID 0 0 s (s\<lparr>rw_db := (rw_db s)\<lparr>wk_runs := rs\<rparr>\<rparr>)"
    using onlyAllowed_quiet [of "s\<lparr>rw_db := (rw_db s)\<lparr>wk_runs := rs\<rparr>\<rparr>" s "[]"] keptRows_same by simp
next
  fix s :: RunnerWorld and steps used calls runtimes
  show "onlyAllowed re runID 0 0 s (s\<lparr>rw_steps := steps, rw_usage := used, rw_calls := calls, rw_runtimes := runtimes\<rparr>)"
    using onlyAllowed_quiet [of "s\<lparr>rw_steps := steps, rw_usage := used, rw_calls := calls, rw_runtimes := runtimes\<rparr>" s "[]"] kept.refl by simp
next
  fix s :: RunnerWorld
  show "onlyAllowed re runID 0 0 s s" using onlyAllowed_quiet [of s s "[]"] kept.refl by simp
qed simp


section \<open>How a run ends\<close>

text \<open>The rows of a run have a status.\<close>

definition isStatus :: "string \<Rightarrow> string \<Rightarrow> RunnerWorld \<Rightarrow> bool" where
  "isStatus runID status s \<longleftrightarrow> list_all (\<lambda>r. ar_ID r = runID \<longrightarrow> ar_Status r = status) (wk_runs (rw_db s))"

text \<open>A step that leaves the run failed when it fails.\<close>

definition ends :: "string \<Rightarrow> (RunnerWorld \<Rightarrow> bool) \<Rightarrow> 'a rstep \<Rightarrow> ('a \<Rightarrow> RunnerWorld \<Rightarrow> bool) \<Rightarrow> bool" where
  "ends runID pre m post \<longleftrightarrow> (\<forall>s. pre s \<longrightarrow> (case m s of (Inl e, t) \<Rightarrow> isStatus runID ''failed'' t | (Inr x, t) \<Rightarrow> post x t))"

abbreviation anyway :: "RunnerWorld \<Rightarrow> bool" where
  "anyway \<equiv> \<lambda>_. True"

lemma ends_bind:
  assumes "ends runID pre m mid" "\<And>x. ends runID (mid x) (k x) post"
  shows "ends runID pre (bindE m k) post"
  unfolding ends_def
proof (intro allI impI)
  fix s assume pre: "pre s"
  obtain r t where m: "m s = (r, t)" by fastforce
  with assms(1) pre have "case r of Inl e \<Rightarrow> isStatus runID ''failed'' t | Inr x \<Rightarrow> mid x t"
    unfolding ends_def by (auto split: sum.split)
  with m assms(2) show "case bindE m k s of (Inl e, t) \<Rightarrow> isStatus runID ''failed'' t | (Inr x, t) \<Rightarrow> post x t"
    by (cases r) (auto simp: bindE_def ends_def)
qed

lemmas ends_then = ends_bind [where mid = "\<lambda>_. anyway"]

lemma ends_pure: "(\<And>s. pre s \<Longrightarrow> post x s) \<Longrightarrow> ends runID pre (retE x) post"
  by (simp add: ends_def retE_def)

lemma endsD: "ends runID pre m post \<Longrightarrow> pre s \<Longrightarrow> m s = (Inl e, t) \<Longrightarrow> isStatus runID ''failed'' t"
  "ends runID pre m post \<Longrightarrow> pre s \<Longrightarrow> m s = (Inr x, t) \<Longrightarrow> post x t"
  unfolding ends_def by (force, force)

lemma endsI:
  assumes "\<And>s e t. pre s \<Longrightarrow> m s = (Inl e, t) \<Longrightarrow> isStatus runID ''failed'' t" "\<And>s x t. pre s \<Longrightarrow> m s = (Inr x, t) \<Longrightarrow> post x t"
  shows "ends runID pre m post"
  unfolding ends_def using assms by (auto split: prod.split sum.split)

lemma ends_post: "ends runID pre m mid \<Longrightarrow> (\<And>x t. mid x t \<Longrightarrow> post x t) \<Longrightarrow> ends runID pre m post"
  by (rule endsI) (auto dest: endsD)

lemma ends_pre: "ends runID anyway m post \<Longrightarrow> ends runID pre m post"
  by (simp add: ends_def)

text \<open>Steps that cannot fail.\<close>

definition total :: "'a rstep \<Rightarrow> bool" where
  "total m \<longleftrightarrow> (\<forall>s. \<exists>x. fst (m s) = Inr x)"

lemma ends_total:
  assumes "total m"
  shows "ends runID pre m (\<lambda>_. anyway)"
proof -
  have "\<exists>x t. m s = (Inr x, t)" for s using assms unfolding total_def by (metis prod.collapse)
  then show ?thesis unfolding ends_def by (metis (mono_tags, lifting) old.prod.case old.sum.simps(6))
qed

lemma total_steps: "total (tried m)" "total (unheeded m)" "total (orElseE x m)" "total (sql (timeNow env))" "total (sql (newUUID env))"
  "total (retE y)" "total (tell re subject payload)" "total (streamStep re step what)"
  by (simp_all add: total_def tried_def unheeded_def orElseE_def onDb_def db_def timeNow_def newUUID_def retE_def tell_def streamStep_def
      split: prod.split sum.split)

lemma total_bind: "total m \<Longrightarrow> (\<And>x. total (k x)) \<Longrightarrow> total (bindE m k)"
  unfolding total_def bindE_def
proof (intro allI)
  fix s assume m: "\<forall>s. \<exists>x. fst (m s) = Inr x" and k: "\<And>x. \<forall>s. \<exists>y. fst (k x s) = Inr y"
  obtain x t where "m s = (Inr x, t)" using m by (metis prod.collapse)
  with k [of x] show "\<exists>x. fst (case m s of (Inl e, s1) \<Rightarrow> (Inl e, s1) | (Inr x, s1) \<Rightarrow> k x s1) = Inr x" by simp
qed

text \<open>The steps that set the status of the run.\<close>

abbreviation works :: "RunnerEnv \<Rightarrow> bool" where
  "works re \<equiv> \<forall>n. \<not> en_sqlFails (rn_env re) n"

lemma isStatus_updRuns:
  assumes "\<And>r. ar_ID (f r) = ar_ID r \<and> ar_Status (f r) = status" "works re"
  shows "isStatus runID status (snd (unheeded (sql (execute (rn_env re) what (updRuns (\<lambda>r. ar_ID r = runID) f))) s))"
  using assms by (auto simp: isStatus_def unheeded_def onDb_def db_def execute_def updRuns_def updRows_def count_def list_all_iff)

lemma ends_updRuns:
  assumes "\<And>r. ar_ID (f r) = ar_ID r \<and> ar_Status (f r) = status" "works re"
  shows "ends runID anyway (unheeded (sql (execute (rn_env re) what (updRuns (\<lambda>r. ar_ID r = runID) f)))) (\<lambda>_. isStatus runID status)"
  using isStatus_updRuns [OF assms, of runID what]
  by (auto simp: ends_def unheeded_def split: prod.split sum.split)

lemma ends_tell: "ends runID (isStatus runID status) (tell re subject payload) (\<lambda>_. isStatus runID status)"
proof -
  have "isStatus runID status (snd (tell re subject payload s)) = isStatus runID status s" for s
    by (simp add: isStatus_def tell_def unheeded_def onDb_def publishEvent_def db_def publish_def count_def act_def retE_def)
  moreover have "\<exists>x. fst (tell re subject payload s) = Inr x" for s using total_steps(7) unfolding total_def by blast
  ultimately show ?thesis unfolding ends_def by (auto split: prod.split sum.split) (metis fst_conv snd_conv sum.distinct(1))+
qed

lemma ends_failRun: "works re \<Longrightarrow> ends runID anyway (failRun re runID why) post"
proof -
  assume w: "works re"
  have fail: "ends runID (isStatus runID ''failed'') (failE e) post" for e :: runner_error and post :: "'a \<Rightarrow> RunnerWorld \<Rightarrow> bool"
    by (simp add: ends_def failE_def)
  show ?thesis
    unfolding failRun_def
    by (rule ends_then [OF ends_total [OF total_steps(4)]], rule ends_bind [OF ends_updRuns [OF _ w, where status = "''failed''"]], simp,
        rule ends_bind [OF ends_tell], rule ends_bind [OF ends_tell], rule fail)
qed

lemma ends_orFail: "works re \<Longrightarrow> ends runID anyway (orFail re runID what m) (\<lambda>_. anyway)"
proof (rule endsI)
  fix s e t assume w: "works re" and "orFail re runID what m s = (Inl e, t)"
  then obtain e1 t1 where "failRun re runID (While what e1) t1 = ((Inl e, t) :: (runner_error + 'a) \<times> RunnerWorld)"
    by (auto simp: orFail_def split: prod.splits sum.splits)
  with endsD(1) [OF ends_failRun [OF w]] show "isStatus runID ''failed'' t" by blast
qed simp

lemma bindE_assoc: "bindE (bindE m k) h = bindE m (\<lambda>x. bindE (k x) h)"
  by (rule ext) (simp add: bindE_def split: prod.split sum.split)

lemma ends_paused: "works re \<Longrightarrow>
  ends runID anyway (bindE (pauseRun re runID reason) (\<lambda>_. retE x)) (\<lambda>r. isStatus runID ''paused'')"
  unfolding pauseRun_def bindE_assoc
  by (rule ends_then [OF ends_total [OF total_steps(4)]], rule ends_bind [OF ends_updRuns [where status = "''paused''"]], simp, assumption,
      rule ends_bind [OF ends_tell], rule ends_pure)

text \<open>The parts of the loop.\<close>

abbreviation halted :: "string \<Rightarrow> loop_step \<Rightarrow> RunnerWorld \<Rightarrow> bool" where
  "halted runID r \<equiv> \<lambda>t. r = Halt \<longrightarrow> isStatus runID ''paused'' t"

lemma ends_halt: "works re \<Longrightarrow> ends runID anyway (bindE (pauseRun re runID reason) (\<lambda>_. retE Halt)) (halted runID)"
  by (rule ends_post [OF ends_paused]) simp_all

lemma total_budget: "total (checkBudget re taskID state)"
  by (auto intro!: total_bind total_steps simp: checkBudget_def split: option.split)

lemma ends_within: "works re \<Longrightarrow> ends runID anyway (withinBudget re runID taskID state) (\<lambda>_. anyway)"
  unfolding withinBudget_def
  by (rule ends_then [OF ends_total [OF total_budget]]) (simp add: ends_failRun ends_pure)

lemma total_record: "total (recordStep re cx stepNum kind content)"
  by (auto intro!: total_bind total_steps simp: recordStep_def Let_def)

lemma ends_refused: "works re \<Longrightarrow> ends (cx_runID cx) anyway (refusedTool re cx run e) (halted (cx_runID cx))"
  by (auto simp: refusedTool_def ends_failRun split: option.split intro!: ends_then [OF ends_orFail] ends_halt)

lemma ends_tool: "works re \<Longrightarrow> ends (cx_runID cx) anyway (toolAction re cx stepNum ls action) (halted (cx_runID cx))"
proof (cases "toolCall (rn_validJSON re) action")
  case (Inr c)
  assume w: "works re"
  have rest: "ends (cx_runID cx) anyway (bindE (sql (timeNow (rn_env re))) (\<lambda>now. bindE (withinBudget re (cx_runID cx) task (f now))
      (\<lambda>_. retE (Continue (g now))))) (halted (cx_runID cx))" for f task g
    by (rule ends_then [OF ends_total [OF total_steps(4)]], rule ends_then [OF ends_within [OF w]], rule ends_pure) simp
  show ?thesis
    using Inr by (cases c) (auto simp: toolAction_def Let_def intro!: ends_then [OF ends_total [OF total_steps(1)]] ends_refused w rest
        split: sum.split)
qed (simp add: toolAction_def ends_failRun)

lemma ends_act: "works re \<Longrightarrow> ends (cx_runID cx) anyway (act_on re cx stepNum ls action) (halted (cx_runID cx))"
proof -
  assume w: "works re"
  have "ends (cx_runID cx) anyway (finalAction re cx stepNum ls action) (halted (cx_runID cx))"
    unfolding finalAction_def by (rule ends_then [OF ends_total [OF total_record]], rule ends_pure) simp
  moreover have "ends (cx_runID cx) anyway (handoffAction re cx stepNum ls action) (halted (cx_runID cx))"
    unfolding handoffAction_def Let_def
    by (simp add: ends_failRun w)
      (intro impI, rule ends_then [OF ends_orFail [OF w]], rule ends_then [OF ends_total [OF total_record]], rule ends_pure, simp)
  moreover have "ends (cx_runID cx) anyway (approvalAction re cx stepNum ls action) (halted (cx_runID cx))"
    unfolding approvalAction_def Let_def
    by (rule ends_then [OF ends_total [OF total_record]], rule ends_then [OF ends_orFail [OF w]], rule ends_halt [OF w])
  ultimately show ?thesis by (simp add: act_on_def ends_tool w ends_failRun)
qed

lemma ends_loopStep: "works re \<Longrightarrow> ends (cx_runID cx) anyway (loopStep re cx stepNum ls) (halted (cx_runID cx))"
proof -
  assume w: "works re"
  have "ends (cx_runID cx) anyway (unlessCancelled re (cx_runID cx)) (\<lambda>_. anyway)"
    using ends_failRun [OF w, of "cx_runID cx" ContextCancelled "\<lambda>_ :: unit. anyway"]
    by (auto simp: ends_def unlessCancelled_def Let_def)
  moreover have "ends (cx_runID cx) anyway (case x of (action, result) \<Rightarrow> bindE (unheeded (recordModelUsage re (f result) (cx_task cx) result))
      (\<lambda>_. bindE (withinBudget re (cx_runID cx) (g result) (h result)) (\<lambda>_. act_on re cx stepNum (l result) action))) (halted (cx_runID cx))"
    for x f g h l
    by (cases x) (auto intro!: ends_then [OF ends_total [OF total_steps(2)]] ends_then [OF ends_within [OF w]] ends_act w)
  ultimately show ?thesis
    unfolding loopStep_def Let_def by (intro ends_then [OF _ ends_then [OF ends_orFail [OF w]]])
qed

lemma ends_loop: "works re \<Longrightarrow>
  ends (cx_runID cx) anyway (agentLoop re cx n stepNum ls) (\<lambda>r t. r = Paused \<longrightarrow> isStatus (cx_runID cx) ''paused'' t)"
proof (induction n arbitrary: stepNum ls)
  case 0
  then show ?case by (simp add: ends_pure)
next
  case (Suc n)
  have "ends (cx_runID cx) (halted (cx_runID cx) r) (case r of Continue ls1 \<Rightarrow> agentLoop re cx n (stepNum + 1) ls1
      | Stop ls1 \<Rightarrow> retE (Finished ls1) | Halt \<Rightarrow> retE Paused) (\<lambda>r t. r = Paused \<longrightarrow> isStatus (cx_runID cx) ''paused'' t)" for r
  proof (cases r)
    case (Continue ls1)
    with ends_pre [OF Suc.IH [OF Suc.prems]] show ?thesis by simp
  qed (simp_all add: ends_pure)
  from ends_bind [OF ends_loopStep [OF Suc.prems] this] show ?case by simp
qed

text \<open>The end of a run.\<close>

definition settled :: "string \<Rightarrow> RunnerWorld \<Rightarrow> bool" where
  "settled runID t \<longleftrightarrow> isStatus runID ''completed'' t \<or> isStatus runID ''paused'' t"

lemma ends_finish: "works re \<Longrightarrow> ends (cx_runID cx) anyway (finishRun re cx ls) (\<lambda>_. isStatus (cx_runID cx) ''completed'')"
proof -
  assume w: "works re"
  have updated: "ends (cx_runID cx) anyway (unheeded (updateRunCompletion re (cx_runID cx) ''completed'' summary state))
      (\<lambda>_. isStatus (cx_runID cx) ''completed'')" for summary state
  proof -
    let ?f = "\<lambda>now r. r\<lparr>ar_Status := ''completed'', ar_Summary := Some summary, ar_TotalCost := rs_CostSoFar state,
      ar_CompletedAt := Some now, ar_UpdatedAt := now\<rparr>"
    have "isStatus (cx_runID cx) ''completed'' (snd (updateRunCompletion re (cx_runID cx) ''completed'' summary state s))" for s
      using w by (auto simp: updateRunCompletion_def isStatus_def bindE_def onDb_def db_def timeNow_def execute_def updRuns_def updRows_def
          count_def retE_def list_all_iff)
    then show ?thesis by (simp add: ends_def unheeded_def split: prod.split sum.split)
  qed
  have checks: "total (runFinalChecks re run task ws path)" for run task ws path
    by (auto intro!: total_bind total_steps simp: runFinalChecks_def)
  show ?thesis
    unfolding finishRun_def Let_def
    by (rule ends_then [OF ends_total [OF checks]], rule ends_then [OF ends_total [OF total_steps(1)]], rule ends_bind [OF updated],
        rule ends_bind [OF ends_tell], rule ends_tell)
qed

lemma ends_runLoop: "works re \<Longrightarrow> ends runID anyway (runLoop re runID run task ws) (\<lambda>_. settled runID)"
proof -
  assume w: "works re"
  have loop: "ends runID anyway (bindE (agentLoop re cx n stepNum ls) (\<lambda>r. case r of Paused \<Rightarrow> retE () | Finished ls \<Rightarrow> finishRun re cx ls))
      (\<lambda>_. settled runID)" if "cx_runID cx = runID" for cx n stepNum ls
  proof (rule ends_bind)
    show "ends runID anyway (agentLoop re cx n stepNum ls) (\<lambda>r t. r = Paused \<longrightarrow> isStatus runID ''paused'' t)"
      using ends_loop [OF w, of cx] that by simp
    have "ends runID anyway (finishRun re cx ls) (\<lambda>_. settled runID)" for ls
      by (rule ends_post [OF ends_finish [OF w, of cx ls, unfolded that]]) (simp add: settled_def)
    then show "ends runID (\<lambda>t. x = Paused \<longrightarrow> isStatus runID ''paused'' t) (case x of Paused \<Rightarrow> retE () | Finished ls \<Rightarrow> finishRun re cx ls)
        (\<lambda>_. settled runID)" for x
      by (cases x) (auto simp: settled_def intro: ends_pre ends_pure)
  qed
  have loads: "total (loadRunHistory re i)" "total (loadMailboxMessages re i role limit)" for i role limit
    by (auto intro: total_steps simp: loadRunHistory_def loadMailboxMessages_def Let_def)
  show ?thesis
    unfolding runLoop_def Let_def
    by (rule ends_then [OF ends_total [OF loads(1)]], rule ends_then [OF ends_total [OF total_steps(4)]],
        rule ends_then [OF ends_total [OF loads(2)]], rule loop) simp
qed

lemma ends_running: "works re \<Longrightarrow> ends runID anyway (updateRunStatus re runID status) (\<lambda>_. anyway)"
  by (rule endsI) (auto simp: updateRunStatus_def bindE_def onDb_def db_def timeNow_def execute_def updRuns_def count_def retE_def)

text \<open>A run that is not found has no row.\<close>

lemma ends_load: "works re \<Longrightarrow> ends runID anyway (loadAgentRun re runID) (\<lambda>_. anyway)"
proof (rule endsI)
  fix s e t assume w: "works re" and "loadAgentRun re runID s = (Inl e, t)"
  then have "find (\<lambda>r. ar_ID r = runID) (wk_runs (rw_db s)) = None \<and> wk_runs (rw_db t) = wk_runs (rw_db s)"
    by (auto simp: loadAgentRun_def rowOr_def bindE_def onDb_def db_def query_def count_def failE_def retE_def split: option.splits)
  then show "isStatus runID ''failed'' t" by (auto simp: isStatus_def find_None_iff list_all_iff)
qed simp


section \<open>Concrete runs\<close>

text \<open>A model that asks for one tool, or for the end of the run.\<close>

definition sampleAction :: "string \<Rightarrow> string \<Rightarrow> ModelAction" where
  "sampleAction action toolName =
     \<lparr>ma_Action = action, ma_ToolName = toolName, ma_ToolInput = ''{}'', ma_Content = [], ma_ToAgent = [], ma_MessageType = [],
      ma_Metadata = None\<rparr>"

definition sampleRouter :: Router where
  "sampleRouter = NewRouter None [exampleProvider ''openai'' True []]"

definition sampleRunner :: "ModelAction \<Rightarrow> RunnerEnv" where
  "sampleRunner action =
     \<lparr>rn_env = sampleEnv False False, rn_json = sampleJSON, rn_tools = sampleToolEnv, rn_bus = True, rn_router = Some sampleRouter,
      rn_sort = (\<lambda>_ scores. scores), rn_ufold = (\<lambda>_ _. False), rn_ulower = (\<lambda>x. x), rn_action = (\<lambda>_. Some action),
      rn_validJSON = (\<lambda>_. True), rn_metadata = (\<lambda>_. None), rn_diffFiles = (\<lambda>_. None), rn_systemPrompt = (\<lambda>_ _ _. []),
      rn_prompt = (\<lambda>_ _ _. []), rn_errorText = (\<lambda>_. ''error''), rn_budget = None, rn_stat = (\<lambda>_. True),
      rn_cancelled = (\<lambda>_. False), rn_docker = None, rn_attach = (\<lambda>_ _ _ _. None),
      rn_localTool = (\<lambda>_ _ _ _. (''FAIL'', Some ''exit status 1'')), rn_runtimeTool = (\<lambda>_ _ _ _ _. ([], None))\<rparr>"

definition sampleWorkspace :: Workspace where
  "sampleWorkspace =
     \<lparr>ws_ID = ''w1'', ws_RepositoryID = ''g1'', ws_TaskID = Some ''t1'', ws_Name = ''w'', ws_Branch = ''b'', ws_BaseBranch = ''main'',
      ws_WorktreePath = Some ''/w'', ws_RuntimeProvider = ''local'', ws_RuntimeSessionID = None, ws_Status = [],
      ws_PreviewURL = None, ws_Settings = [], ws_CreatedAt = 0, ws_UpdatedAt = 0, ws_DeletedAt = None\<rparr>"

definition sampleRunnerWorld :: RunnerWorld where
  "sampleRunnerWorld =
     \<lparr>rw_db = sampleWorker\<lparr>wk_runs := [(sampleRun ''r1'' ''queued'')\<lparr>ar_WorkspaceID := Some ''w1''\<rparr>],
        wk_workspaces := [sampleWorkspace]\<rparr>,
      rw_steps = [], rw_budgets = [], rw_usage = [], rw_calls = [], rw_log = [], rw_runtimes = []\<rparr>"

definition sampleContext :: RunContext where
  "sampleContext =
     \<lparr>cx_runID = ''r1'', cx_task = sampleAgentTask, cx_workspace = sampleWorkspace, cx_path = ''/w'', cx_system = [], cx_mailbox = [],
      cx_start = 1\<rparr>"

definition sampleLoopState :: LoopState where
  "sampleLoopState = \<lparr>ls_run = sampleAgent, ls_state = emptyRunState, ls_history = []\<rparr>"

text \<open>The final tests ran and failed, and the run is completed.\<close>

lemma failing_tests_completed:
  "fst (runFinalChecks (sampleRunner (sampleAction ''final_response'' [])) sampleAgent sampleAgentTask sampleWorkspace ''/w'' sampleRunnerWorld) =
     Inr (''FAIL'', Some (ToolError ''FAIL'' ''exit status 1'')) \<and>
   (let t = snd (finishRun (sampleRunner (sampleAction ''final_response'' [])) sampleContext sampleLoopState sampleRunnerWorld) in
    rw_log t = [ToolRan ''run_tests'' ''{}'', ToolRan ''get_git_diff'' ''{}''] \<and> isStatus ''r1'' ''completed'' t)"
proof
  show "fst (runFinalChecks (sampleRunner (sampleAction ''final_response'' [])) sampleAgent sampleAgentTask sampleWorkspace ''/w'' sampleRunnerWorld) =
     Inr (''FAIL'', Some (ToolError ''FAIL'' ''exit status 1''))" by code_simp
  show "let t = snd (finishRun (sampleRunner (sampleAction ''final_response'' [])) sampleContext sampleLoopState sampleRunnerWorld) in
    rw_log t = [ToolRan ''run_tests'' ''{}'', ToolRan ''get_git_diff'' ''{}''] \<and> isStatus ''r1'' ''completed'' t" by code_simp
qed

lemma sampleRunner_works: "\<forall>n. \<not> en_sqlFails (rn_env (sampleRunner action)) n" "rn_json (sampleRunner action) = sampleJSON"
  "distinct (map ap_ID (wk_approvals (rw_db sampleRunnerWorld)))"
  by (simp_all add: sampleRunner_def sample_environment sampleRunnerWorld_def)



end
