(* ===== verification/GoFiles.thy ===== *)
theory GoFiles
  imports RepoPath GoText GoStep
begin

text \<open>
  Files as the operating system keeps them, with symbolic links: what the code uses of \<open>os\<close> and
  \<open>path/filepath\<close> on Unix.

  A file system is the list of its entries by their location, the names from the root.  \<open>namei\<close> is how
  the kernel finds the place a path names, links followed; \<open>EvalSymlinks\<close> is how \<open>path/filepath\<close> finds
  the text of that place.
\<close>

section \<open>Entries\<close>

datatype entry = File string | Directory | Link string

type_synonym files = "(string list \<times> entry) list"

datatype os_error = NotExist | NotDirectory | IsDirectory | TooManyLinks | Exists

definition entryAt :: "files \<Rightarrow> string list \<Rightarrow> entry option" where
  "entryAt fs q = (if q = [] then Some Directory else map_of fs q)"

definition putEntry :: "string list \<Rightarrow> entry \<Rightarrow> files \<Rightarrow> files" where
  "putEntry q e fs = (q, e) # filter (\<lambda>(r, _). r \<noteq> q) fs"

lemma map_of_filter_key: "map_of (filter (\<lambda>(r, _). r \<noteq> q) fs) r = (if r = q then None else map_of fs r)"
  by (induction fs) auto

lemma entryAt_put: "q \<noteq> [] \<Longrightarrow> entryAt (putEntry q e fs) r = (if r = q then Some e else entryAt fs r)"
  by (simp add: entryAt_def putEntry_def map_of_filter_key)

section \<open>Paths\<close>

definition IsAbs :: "string \<Rightarrow> bool" where
  "IsAbs p = HasPrefix p slash"

text \<open>\<open>filepath.Join\<close> of two elements, of which empty ones are left out.\<close>

definition path_Join :: "string \<Rightarrow> string \<Rightarrow> string" where
  "path_Join a b =
     (if a = [] \<and> b = [] then [] else if a = [] then path_Clean b else if b = [] then path_Clean a
      else path_Clean (a @ slash @ b))"

definition path_Abs :: "string \<Rightarrow> string \<Rightarrow> string" where
  "path_Abs cwd p = (if IsAbs p then path_Clean p else path_Join cwd p)"

text \<open>A stack of components as a path, the top last.\<close>

definition stackPath :: "bool \<Rightarrow> string list \<Rightarrow> string" where
  "stackPath rooted st =
     (let out = join_with slash (rev st) in if rooted then slash @ out else if out = [] then ''.'' else out)"

lemma path_Clean_stack:
  "path_Clean p = stackPath (IsAbs p) (foldl (clean_step (IsAbs p)) [] (components p))"
  by (simp add: path_Clean_def stackPath_def IsAbs_def components_def Let_def)

section \<open>Finding the place of a path\<close>

definition plainName :: "string \<Rightarrow> bool" where
  "plainName c \<longleftrightarrow> c \<noteq> [] \<and> c \<noteq> ''.'' \<and> c \<noteq> ''..''"

text \<open>
  From the place \<open>cur\<close> along the components that are left; a link costs one of \<open>links\<close>.  With \<open>create\<close>
  the last component need not exist (\<open>O_CREAT\<close>).
\<close>

fun namei :: "bool \<Rightarrow> files \<Rightarrow> nat \<Rightarrow> string list \<Rightarrow> string list \<Rightarrow> os_error + string list" where
  "namei create fs links cur [] = Inr cur"
| "namei create fs links cur (c # cs) =
     (if c = [] \<or> c = ''.'' then namei create fs links cur cs
      else if c = ''..'' then namei create fs links (butlast cur) cs
      else (case entryAt fs (cur @ [c]) of
          None \<Rightarrow> if create \<and> cs = [] then Inr (cur @ [c]) else Inl NotExist
        | Some Directory \<Rightarrow> namei create fs links (cur @ [c]) cs
        | Some (File _) \<Rightarrow> if cs = [] then Inr (cur @ [c]) else Inl NotDirectory
        | Some (Link t) \<Rightarrow>
            (case links of 0 \<Rightarrow> Inl TooManyLinks
             | Suc n \<Rightarrow> namei create fs n (if IsAbs t then [] else cur) (components t @ cs))))"

definition kernelLinks :: nat where
  "kernelLinks = 40"

text \<open>The place of a path for the kernel; \<open>dir\<close> is the place of the working directory.\<close>

definition place :: "bool \<Rightarrow> files \<Rightarrow> string list \<Rightarrow> string \<Rightarrow> os_error + string list" where
  "place create fs dir p = namei create fs kernelLinks (if IsAbs p then [] else dir) (components p)"

section \<open>Links resolved by \<open>path/filepath\<close>\<close>

text \<open>
  \<open>EvalSymlinks\<close> walks over the components with the stack of those it keeps, as \<open>Clean\<close> does, and
  goes on with the target of a link in the place of the link.
\<close>

definition stackPlace :: "string list \<Rightarrow> bool \<Rightarrow> string list \<Rightarrow> string list" where
  "stackPlace dir rooted st = rev (foldl (clean_step True) (if rooted then [] else rev dir) (rev st))"

fun walkLinks :: "files \<Rightarrow> string list \<Rightarrow> nat \<Rightarrow> bool \<Rightarrow> string list \<Rightarrow> string list \<Rightarrow> os_error + bool \<times> string list" where
  "walkLinks fs dir links rooted st [] = Inr (rooted, st)"
| "walkLinks fs dir links rooted st (c # cs) =
     (if c = [] \<or> c = ''.'' \<or> c = ''..'' then walkLinks fs dir links rooted (clean_step rooted st c) cs
      else (case entryAt fs (stackPlace dir rooted (c # st)) of
          None \<Rightarrow> Inl NotExist
        | Some Directory \<Rightarrow> walkLinks fs dir links rooted (c # st) cs
        | Some (File _) \<Rightarrow> if cs = [] then Inr (rooted, c # st) else Inl NotDirectory
        | Some (Link t) \<Rightarrow>
            (case links of 0 \<Rightarrow> Inl TooManyLinks
             | Suc n \<Rightarrow> walkLinks fs dir n (rooted \<or> IsAbs t) (if IsAbs t then [] else st) (components t @ cs))))"

definition goLinks :: nat where
  "goLinks = 255"

definition EvalSymlinks :: "files \<Rightarrow> string list \<Rightarrow> string \<Rightarrow> os_error + string" where
  "EvalSymlinks fs dir p =
     map_sum id (\<lambda>(rooted, st). stackPath rooted st) (walkLinks fs dir goLinks (IsAbs p) [] (components p))"

section \<open>Calls of \<open>os\<close>\<close>

definition Stat :: "files \<Rightarrow> string list \<Rightarrow> string list \<Rightarrow> os_error + entry" where
  "Stat fs cur cs =
     (case namei False fs kernelLinks cur cs of Inl e \<Rightarrow> Inl e
      | Inr q \<Rightarrow> (case entryAt fs q of None \<Rightarrow> Inl NotExist | Some e \<Rightarrow> Inr e))"

definition ReadFileAt :: "files \<Rightarrow> string list \<Rightarrow> string \<Rightarrow> os_error + string" where
  "ReadFileAt fs dir p =
     (case place False fs dir p of Inl e \<Rightarrow> Inl e
      | Inr q \<Rightarrow> (case entryAt fs q of Some (File data) \<Rightarrow> Inr data | _ \<Rightarrow> Inl IsDirectory))"

definition Mkdir :: "string list \<Rightarrow> string list \<Rightarrow> files \<Rightarrow> os_error option \<times> files" where
  "Mkdir cur cs fs =
     (case namei False fs kernelLinks cur (butlast cs) of
        Inl e \<Rightarrow> (Some e, fs)
      | Inr q \<Rightarrow>
        (if entryAt fs q \<noteq> Some Directory then (Some NotDirectory, fs)
         else if \<not> plainName (last cs) \<or> entryAt fs (q @ [last cs]) \<noteq> None then (Some Exists, fs)
         else (None, putEntry (q @ [last cs]) Directory fs)))"

text \<open>\<open>os.MkdirAll\<close>: a directory that exists, or its parent first.\<close>

function MkdirAll :: "string list \<Rightarrow> string list \<Rightarrow> files \<Rightarrow> os_error option \<times> files" where
  "MkdirAll cur cs fs =
     (case Stat fs cur cs of
        Inr e \<Rightarrow> (if e = Directory then None else Some NotDirectory, fs)
      | Inl e \<Rightarrow>
        (if cs = [] then (Some e, fs)
         else (case MkdirAll cur (butlast cs) fs of
             (Some e, fs1) \<Rightarrow> (Some e, fs1)
           | (None, fs1) \<Rightarrow> Mkdir cur cs fs1)))"
  by pat_completeness auto
termination by (relation "measure (\<lambda>(cur, cs, fs). length cs)") auto

declare MkdirAll.simps [simp del]

definition WriteFileAt :: "string list \<Rightarrow> string \<Rightarrow> string \<Rightarrow> files \<Rightarrow> os_error option \<times> files" where
  "WriteFileAt dir p data fs =
     (case place True fs dir p of
        Inl e \<Rightarrow> (Some e, fs)
      | Inr q \<Rightarrow> if entryAt fs q = Some Directory then (Some IsDirectory, fs) else (None, putEntry q (File data) fs))"

text \<open>The directory of a path (\<open>filepath.Dir\<close>) and then the file.\<close>

definition startOf :: "string list \<Rightarrow> string \<Rightarrow> string list" where
  "startOf dir p = (if IsAbs p then [] else dir)"

definition writeWithParents :: "string list \<Rightarrow> string \<Rightarrow> string \<Rightarrow> files \<Rightarrow> os_error option \<times> files" where
  "writeWithParents dir p data fs =
     (case MkdirAll (startOf dir (path_Dir p)) (components (path_Dir p)) fs of
        (Some e, fs1) \<Rightarrow> (Some e, fs1)
      | (None, fs1) \<Rightarrow> WriteFileAt dir p data fs1)"

text \<open>The names in a directory, sorted (\<open>os.ReadDir\<close>).\<close>

definition ReadDirAt :: "files \<Rightarrow> string list \<Rightarrow> string \<Rightarrow> os_error + (string \<times> entry) list" where
  "ReadDirAt fs dir p =
     (case place False fs dir p of Inl e \<Rightarrow> Inl e
      | Inr q \<Rightarrow>
        if entryAt fs q \<noteq> Some Directory then Inl NotDirectory
        else Inr (sort_key fst (map (\<lambda>(r, e). (last r, e)) (filter (\<lambda>(r, e). r \<noteq> [] \<and> butlast r = q) fs))))"

section \<open>Induction along a path\<close>

lemma namei_name:
  "plainName c \<Longrightarrow> namei create fs links cur (c # cs) =
     (case entryAt fs (cur @ [c]) of
        None \<Rightarrow> if create \<and> cs = [] then Inr (cur @ [c]) else Inl NotExist
      | Some Directory \<Rightarrow> namei create fs links (cur @ [c]) cs
      | Some (File _) \<Rightarrow> if cs = [] then Inr (cur @ [c]) else Inl NotDirectory
      | Some (Link t) \<Rightarrow>
          (case links of 0 \<Rightarrow> Inl TooManyLinks
           | Suc n \<Rightarrow> namei create fs n (if IsAbs t then [] else cur) (components t @ cs)))"
  by (simp add: plainName_def)

lemma namei_link:
  assumes "plainName c" "entryAt fs (cur @ [c]) = Some (Link t)" "namei create fs links cur (c # cs) = Inr q"
  obtains n where "links = Suc n" "namei create fs n (if IsAbs t then [] else cur) (components t @ cs) = Inr q"
  using assms by (cases links) (simp_all add: namei_name del: namei.simps)

lemma namei_skip: "namei create fs links cur ([] # cs) = namei create fs links cur cs"
  "namei create fs links cur (''.'' # cs) = namei create fs links cur cs"
  "namei create fs links cur (''..'' # cs) = namei create fs links (butlast cur) cs"
  by simp_all

lemma path_induct [case_names Nil Skip Dot Up Name]:
  assumes "\<And>links cur. P links cur []"
    and "\<And>links cur cs. P links cur cs \<Longrightarrow> P links cur ([] # cs)"
    and "\<And>links cur cs. P links cur cs \<Longrightarrow> P links cur (''.'' # cs)"
    and "\<And>links cur cs. P links (butlast cur) cs \<Longrightarrow> P links cur (''..'' # cs)"
    and "\<And>links cur c cs. plainName c \<Longrightarrow> P links (cur @ [c]) cs \<Longrightarrow>
      (\<And>n cur1 t. links = Suc n \<Longrightarrow> P n cur1 (components t @ cs)) \<Longrightarrow> P links cur (c # cs)"
  shows "P links cur cs"
proof -
  have step: "P links cur cs" if "\<And>n cur cs. links = Suc n \<Longrightarrow> P n cur cs" for links cur cs
  proof (induction cs arbitrary: cur)
    case (Cons c cs)
    then show ?case using assms(2-5) that unfolding plainName_def by (cases "c = [] \<or> c = ''.'' \<or> c = ''..''") auto
  qed (rule assms(1))
  show ?thesis by (induction links arbitrary: cur cs) (auto intro: step)
qed

section \<open>Directories without links\<close>

text \<open>Two places on one path.\<close>

definition onPath :: "string list \<Rightarrow> string list \<Rightarrow> bool" where
  "onPath ws q \<longleftrightarrow> prefix ws q \<or> prefix q ws"

text \<open>A directory that exists and has no links on the way to it and below it.\<close>

definition plainDir :: "files \<Rightarrow> string list \<Rightarrow> bool" where
  "plainDir fs ws \<longleftrightarrow> (\<forall>q. prefix q ws \<longrightarrow> entryAt fs q = Some Directory) \<and>
     (\<forall>q t. prefix ws q \<longrightarrow> entryAt fs q \<noteq> Some (Link t))"

lemma plainDir_no_link: "plainDir fs ws \<Longrightarrow> onPath ws q \<Longrightarrow> entryAt fs q \<noteq> Some (Link t)"
  by (auto simp: plainDir_def onPath_def)

lemma onPath_prefix: "onPath ws q \<Longrightarrow> prefix r q \<Longrightarrow> onPath ws r"
  unfolding onPath_def by (meson prefix_order.trans prefix_same_cases)

lemma namei_plain:
  assumes "plainDir fs ws" "onPath ws (cur @ cs)" "\<forall>c \<in> set cs. plainName c" "namei create fs links cur cs = Inr q"
  shows "q = cur @ cs"
  using assms(2-4)
proof (induction cs arbitrary: cur)
  case (Cons c cs)
  have on: "onPath ws (cur @ [c])" using Cons.prems(1) by (rule onPath_prefix) simp
  from Cons.prems(2) have c: "c \<noteq> []" "c \<noteq> ''.''" "c \<noteq> ''..''" by (simp_all add: plainName_def)
  show ?case
  proof (cases "entryAt fs (cur @ [c])")
    case None
    with c Cons.prems(3) show ?thesis by (auto split: if_splits)
  next
    case (Some e)
    show ?thesis
    proof (cases e)
      case (File d)
      with Some c Cons.prems(3) show ?thesis by (auto split: if_splits)
    next
      case Directory
      with Some c Cons.prems Cons.IH [of "cur @ [c]"] show ?thesis by simp
    next
      case (Link t)
      with Some plainDir_no_link [OF assms(1) on] show ?thesis by simp
    qed
  qed
qed simp

text \<open>What changes is below the directory, which stays plain.\<close>

definition changesBelow :: "string list \<Rightarrow> files \<Rightarrow> files \<Rightarrow> bool" where
  "changesBelow ws fs fs1 \<longleftrightarrow> (plainDir fs ws \<longrightarrow> plainDir fs1 ws \<and> (\<forall>q. \<not> prefix ws q \<longrightarrow> entryAt fs1 q = entryAt fs q))"

interpretation below: preorder_steps "changesBelow ws"
  by standard (simp_all add: changesBelow_def)

lemma changesBelow_put:
  assumes "prefix ws q" "q \<noteq> []" "e \<noteq> Directory \<Longrightarrow> q \<noteq> ws" "\<And>t. e \<noteq> Link t"
  shows "changesBelow ws fs (putEntry q e fs)"
proof -
  have "entryAt (putEntry q e fs) r = Some Directory" if "plainDir fs ws" "prefix r ws" for r
    using that assms(1,3) prefix_order.antisym [of q ws] by (cases "e = Directory") (auto simp: entryAt_put [OF assms(2)] plainDir_def prefix_order.antisym)
  moreover have "entryAt (putEntry q e fs) r \<noteq> Some (Link t)" if "plainDir fs ws" "prefix ws r" for r t
    using that assms(4) by (auto simp: entryAt_put [OF assms(2)] plainDir_def)
  moreover have "entryAt (putEntry q e fs) r = entryAt fs r" if "\<not> prefix ws r" for r
    using that assms(1) by (auto simp: entryAt_put [OF assms(2)])
  ultimately show ?thesis unfolding changesBelow_def plainDir_def by blast
qed

lemma Mkdir_below:
  assumes "plainDir fs ws" "onPath ws (cur @ cs)" "\<forall>c \<in> set cs. plainName c" "cs \<noteq> []"
  shows "changesBelow ws fs (snd (Mkdir cur cs fs))"
proof (cases "namei False fs kernelLinks cur (butlast cs)")
  case (Inl e)
  then show ?thesis by (simp add: Mkdir_def below.refl)
next
  case (Inr q)
  have cs: "butlast cs @ [last cs] = cs" using assms(4) by simp
  have "onPath ws (cur @ butlast cs)" using assms(2) by (rule onPath_prefix) (simp add: cs prefixeq_butlast)
  moreover have "\<forall>c \<in> set (butlast cs). plainName c" using assms(3) by (auto dest: in_set_butlastD)
  ultimately have q: "q = cur @ butlast cs" using namei_plain [OF assms(1) _ _ Inr] by blast
  then have loc: "q @ [last cs] = cur @ cs" using cs by simp
  show ?thesis
  proof (cases "entryAt fs (cur @ cs) = None")
    case True
    then have "\<not> prefix (cur @ cs) ws" using assms(1) by (auto simp: plainDir_def)
    with assms(2) have "prefix ws (cur @ cs)" by (simp add: onPath_def)
    then have "changesBelow ws fs (putEntry (q @ [last cs]) Directory fs)" using changesBelow_put [of ws "q @ [last cs]" Directory] loc assms(4) by simp
    then show ?thesis using Inr by (simp add: Mkdir_def below.refl)
  next
    case False
    then show ?thesis using Inr loc by (simp add: Mkdir_def below.refl)
  qed
qed

lemma MkdirAll_below:
  assumes "plainDir fs ws" "onPath ws (cur @ cs)" "\<forall>c \<in> set cs. plainName c"
  shows "changesBelow ws fs (snd (MkdirAll cur cs fs))"
  using assms
proof (induction cur cs fs rule: MkdirAll.induct)
  case (1 cur cs fs)
  show ?case
  proof (cases "Stat fs cur cs")
    case (Inr e)
    then show ?thesis by (subst MkdirAll.simps) (simp add: below.refl)
  next
    case (Inl e)
    show ?thesis
    proof (cases "cs = []")
      case True
      with Inl show ?thesis by (subst MkdirAll.simps) (simp add: below.refl)
    next
      case False
      obtain r fs1 where m: "MkdirAll cur (butlast cs) fs = (r, fs1)" by fastforce
      have "onPath ws (cur @ butlast cs)" using "1.prems"(2) by (rule onPath_prefix) (simp add: prefixeq_butlast)
      moreover have "\<forall>c \<in> set (butlast cs). plainName c" using "1.prems"(3) by (auto dest: in_set_butlastD)
      ultimately have b: "changesBelow ws fs fs1" using "1.IH" [OF Inl False "1.prems"(1)] m by simp
      show ?thesis
      proof (cases r)
        case None
        from b "1.prems"(1) have "plainDir fs1 ws" by (simp add: changesBelow_def)
        from below.trans [OF b Mkdir_below [OF this "1.prems"(2,3) False]] show ?thesis
          using Inl False m None by (subst MkdirAll.simps) simp
      next
        case (Some e1)
        with Inl False m b show ?thesis by (subst MkdirAll.simps) simp
      qed
    qed
  qed
qed

section \<open>Absolute paths\<close>

definition namesOf :: "string \<Rightarrow> string list" where
  "namesOf p = filter (\<lambda>c. c \<noteq> []) (components p)"

definition placeName :: "string \<Rightarrow> bool" where
  "placeName c \<longleftrightarrow> plainName c \<and> CHR 0x2F \<notin> set c"

text \<open>A cleaned absolute path is the text of its names.\<close>

definition absPath :: "string \<Rightarrow> bool" where
  "absPath p \<longleftrightarrow> p = stackPath True (rev (namesOf p)) \<and> list_all placeName (namesOf p)"

lemma components_names: "list_all placeName ns \<Longrightarrow> components (stackPath True (rev ns)) = [] # (if ns = [] then [[]] else ns)"
proof -
  assume "list_all placeName ns"
  then have "split_on CHR 0x2F (join_with slash ns) = ns" if "ns \<noteq> []"
    using that split_join [of ns "CHR 0x2F"] by (simp add: list_all_iff placeName_def slash_def)
  then show ?thesis by (simp add: components_def stackPath_def slash_def)
qed

lemma namesOf_names: "list_all placeName ns \<Longrightarrow> namesOf (stackPath True (rev ns)) = ns"
proof -
  assume ns: "list_all placeName ns"
  then have "filter (\<lambda>c. c \<noteq> []) ns = ns" by (simp add: filter_id_conv list_all_iff placeName_def plainName_def)
  then show ?thesis using components_names [OF ns] by (simp add: namesOf_def)
qed

lemma absPath_names: "list_all placeName ns \<Longrightarrow> absPath (stackPath True (rev ns))"
  by (simp add: absPath_def namesOf_names)

lemma absPath_components: "absPath p \<Longrightarrow> components p = [] # (if namesOf p = [] then [[]] else namesOf p)"
  using components_names unfolding absPath_def by metis

lemma absPath_IsAbs: "absPath p \<Longrightarrow> IsAbs p"
  unfolding absPath_def by (metis IsAbs_def HasPrefix_append stackPath_def)

lemma clean_rooted:
  assumes "list_all placeName st" "CHR 0x2F \<notin> set c"
  shows "list_all placeName (clean_step True st c)"
  using assms by (auto simp: placeName_def plainName_def split: list.split)

lemma clean_rooted_fold:
  "list_all placeName st \<Longrightarrow> \<forall>c \<in> set cs. CHR 0x2F \<notin> set c \<Longrightarrow> list_all placeName (foldl (clean_step True) st cs)"
  by (induction cs arbitrary: st) (simp_all add: clean_rooted del: clean_step.simps)

lemma components_no_slash: "c \<in> set (components p) \<Longrightarrow> CHR 0x2F \<notin> set c"
  by (simp add: components_def split_on_words)

lemma absPath_Clean: "IsAbs p \<Longrightarrow> absPath (path_Clean p)"
proof -
  assume "IsAbs p"
  then have p: "path_Clean p = stackPath True (foldl (clean_step True) [] (components p))" by (simp add: path_Clean_stack)
  have "list_all placeName (foldl (clean_step True) [] (components p))"
    using components_no_slash by (intro clean_rooted_fold) auto
  then have "list_all placeName (rev (foldl (clean_step True) [] (components p)))" by (simp add: list_all_iff)
  from absPath_names [OF this] p show ?thesis by simp
qed

text \<open>A place is cleaned already.\<close>

lemma fold_names: "list_all placeName (rev cs) \<Longrightarrow> foldl (clean_step True) st cs = rev cs @ st"
  by (induction cs arbitrary: st) (auto simp: placeName_def plainName_def)

lemma Clean_absPath: "absPath p \<Longrightarrow> path_Clean p = p"
proof -
  assume p: "absPath p"
  have "foldl (clean_step True) [] (components p) = rev (namesOf p)"
    using absPath_components [OF p] p fold_names [of "namesOf p" "[]"] by (simp add: absPath_def list_all_iff)
  then show ?thesis using path_Clean_stack [of p] absPath_IsAbs [OF p] p by (metis absPath_def)
qed

lemma place_absPath: "absPath p \<Longrightarrow> place create fs dir p = namei create fs kernelLinks [] (namesOf p)"
  by (simp add: place_def absPath_IsAbs absPath_components)

lemma path_Dir_names:
  assumes "list_all placeName ns"
  shows "path_Dir (stackPath True (rev ns)) = stackPath True (rev (butlast ns))"
proof (cases ns rule: rev_cases)
  case Nil
  have "path_Dir (stackPath True []) = stackPath True []" by code_simp
  with Nil show ?thesis by simp
next
  case (snoc ms n)
  have n: "\<forall>c \<in> set n. c \<noteq> CHR ''/''" using assms snoc by (auto simp: placeName_def)
  have ms: "list_all placeName ms" using assms snoc by simp
  have "stackPath True (rev ns) = stackPath True (rev ms) @ (if ms = [] then [] else slash) @ n"
    using snoc by (simp add: stackPath_def slash_def join_with_append)
  then have "rev (dropWhile (\<lambda>c. c \<noteq> CHR ''/'') (rev (stackPath True (rev ns)))) = stackPath True (rev ms) @ (if ms = [] then [] else slash)"
    using n by (simp add: stackPath_def slash_def dropWhile_append)
  moreover have "path_Clean (stackPath True (rev ms) @ (if ms = [] then [] else slash)) = stackPath True (rev ms)"
  proof (cases "ms = []")
    case True
    have "path_Clean (stackPath True []) = stackPath True []" by code_simp
    with True show ?thesis by simp
  next
    case False
    have "components (stackPath True (rev ms) @ slash) = ([] # ms) @ [[]]"
      using components_names [OF ms] False by (simp add: components_def slash_def split_on_append_sep)
    moreover have "IsAbs (stackPath True (rev ms) @ slash)" by (simp add: IsAbs_def stackPath_def HasPrefix_prefix)
    ultimately show ?thesis using False ms fold_names [of ms "[]"] by (simp add: path_Clean_stack list_all_iff)
  qed
  ultimately show ?thesis using snoc by (simp add: path_Dir_def)
qed

section \<open>What links resolve to\<close>

text \<open>A place that exists, reached through directories only.\<close>

definition real :: "files \<Rightarrow> string list \<Rightarrow> bool" where
  "real fs q \<longleftrightarrow> (\<forall>r. strict_prefix r q \<longrightarrow> entryAt fs r = Some Directory) \<and>
     (\<exists>e. entryAt fs q = Some e \<and> (\<forall>t. e \<noteq> Link t))"

definition realDir :: "files \<Rightarrow> string list \<Rightarrow> bool" where
  "realDir fs q \<longleftrightarrow> (\<forall>r. prefix r q \<longrightarrow> entryAt fs r = Some Directory)"

lemma realDir_Nil [simp]: "realDir fs []"
  by (simp add: realDir_def entryAt_def)

lemma realDir_real: "realDir fs q \<Longrightarrow> real fs q"
  unfolding realDir_def real_def strict_prefix_def by simp

lemma realDir_butlast: "realDir fs q \<Longrightarrow> realDir fs (butlast q)"
  unfolding realDir_def by (meson prefix_order.trans prefixeq_butlast)

lemma realDir_snoc: "realDir fs q \<Longrightarrow> entryAt fs (q @ [c]) = Some Directory \<Longrightarrow> realDir fs (q @ [c])"
  by (auto simp: realDir_def)

lemma real_snoc: "realDir fs q \<Longrightarrow> entryAt fs (q @ [c]) = Some e \<Longrightarrow> \<forall>t. e \<noteq> Link t \<Longrightarrow> real fs (q @ [c])"
  by (auto simp: realDir_def real_def strict_prefix_def)

lemma namei_real:
  "realDir fs cur \<Longrightarrow> namei False fs links cur cs = Inr q \<Longrightarrow> real fs q"
proof (induction links cur cs rule: path_induct)
  case (Name links cur c cs)
  show ?case
  proof (cases "\<exists>t. entryAt fs (cur @ [c]) = Some (Link t)")
    case True
    then obtain t where t: "entryAt fs (cur @ [c]) = Some (Link t)" by blast
    obtain n where n: "links = Suc n" and r: "namei False fs n (if IsAbs t then [] else cur) (components t @ cs) = Inr q"
      by (rule namei_link [OF Name.hyps t Name.prems(2)])
    have d: "realDir fs (if IsAbs t then [] else cur)" using Name.prems(1) by simp
    show ?thesis by (rule Name.IH(2) [OF n d r])
  next
    case False
    with Name.prems Name.IH(1) show ?thesis
      by (auto simp: namei_name [OF Name.hyps] simp del: namei.simps split: if_splits option.splits entry.splits
          intro: realDir_snoc real_snoc)
  qed
qed (auto simp: realDir_real namei_skip realDir_butlast simp del: namei.simps(2))

lemma real_namei:
  "real fs (cur @ cs) \<Longrightarrow> list_all plainName cs \<Longrightarrow> namei create fs links cur cs = Inr (cur @ cs)"
proof (induction cs arbitrary: cur)
  case (Cons c cs)
  show ?case
  proof (cases "cs = []")
    case True
    with Cons.prems show ?thesis by (auto simp: real_def plainName_def split: entry.split)
  next
    case False
    then have "strict_prefix (cur @ [c]) (cur @ c # cs)" by (simp add: strict_prefix_def)
    with Cons.prems(1) have "entryAt fs (cur @ [c]) = Some Directory" by (simp add: real_def)
    with Cons show ?thesis by (simp add: plainName_def)
  qed
qed simp

lemma namei_names:
  "list_all placeName cur \<Longrightarrow> \<forall>c \<in> set cs. CHR 0x2F \<notin> set c \<Longrightarrow> namei create fs links cur cs = Inr q \<Longrightarrow> list_all placeName q"
proof (induction links cur cs rule: path_induct)
  case (Up links cur cs)
  have "list_all placeName (butlast cur)" using Up.prems(1) by (auto simp: list_all_iff dest: in_set_butlastD)
  with Up show ?case by (simp add: namei_skip del: namei.simps(2))
next
  case (Name links cur c cs)
  have "placeName c" using Name.hyps Name.prems(2) by (simp add: placeName_def)
  with Name.prems(1) have c: "list_all placeName (cur @ [c])" by simp
  have t: "\<forall>c \<in> set (components t @ cs). CHR 0x2F \<notin> set c" for t using Name.prems(2) components_no_slash by auto
  show ?case
  proof (cases "\<exists>t. entryAt fs (cur @ [c]) = Some (Link t)")
    case True
    then obtain t1 where t1: "entryAt fs (cur @ [c]) = Some (Link t1)" by blast
    obtain n where n: "links = Suc n" and r: "namei create fs n (if IsAbs t1 then [] else cur) (components t1 @ cs) = Inr q"
      by (rule namei_link [OF Name.hyps t1 Name.prems(3)])
    have d: "list_all placeName (if IsAbs t1 then [] else cur)" using Name.prems(1) by simp
    show ?thesis by (rule Name.IH(2) [OF n d t r])
  next
    case False
    with Name.prems(3) c Name.IH(1) Name.prems(2) show ?thesis
      by (auto simp: namei_name [OF Name.hyps] simp del: namei.simps split: if_splits option.splits entry.splits)
  qed
qed (auto simp: namei_skip simp del: namei.simps(2))

lemma namei_more: "namei create fs links cur cs = Inr q \<Longrightarrow> links \<le> more \<Longrightarrow> namei create fs more cur cs = Inr q"
proof (induction links cur cs arbitrary: more rule: path_induct)
  case (Name links cur c cs)
  show ?case
  proof (cases "\<exists>t. entryAt fs (cur @ [c]) = Some (Link t)")
    case True
    then obtain t where t: "entryAt fs (cur @ [c]) = Some (Link t)" by blast
    obtain n where n: "links = Suc n" and r: "namei create fs n (if IsAbs t then [] else cur) (components t @ cs) = Inr q"
      by (rule namei_link [OF Name.hyps t Name.prems(1)])
    obtain m where m: "more = Suc m" "n \<le> m" using Name.prems(2) n by (cases more) auto
    show ?thesis using Name.IH(2) [OF n r m(2)] m(1) t by (simp add: namei_name [OF Name.hyps] del: namei.simps)
  next
    case False
    with Name.prems Name.IH(1) show ?thesis
      by (auto simp: namei_name [OF Name.hyps] simp del: namei.simps split: if_splits option.splits entry.splits)
  qed
qed (simp_all add: namei_skip del: namei.simps(2))

text \<open>On absolute paths \<open>EvalSymlinks\<close> finds the place that the kernel does.\<close>

lemma stackPlace_plain: "list_all placeName st \<Longrightarrow> stackPlace dir True st = rev st"
  using fold_names [of "rev st" "[]"] by (simp add: stackPlace_def)

lemma walkLinks_name:
  "plainName c \<Longrightarrow> walkLinks fs dir links rooted st (c # cs) =
     (case entryAt fs (stackPlace dir rooted (c # st)) of
        None \<Rightarrow> Inl NotExist
      | Some Directory \<Rightarrow> walkLinks fs dir links rooted (c # st) cs
      | Some (File _) \<Rightarrow> if cs = [] then Inr (rooted, c # st) else Inl NotDirectory
      | Some (Link t) \<Rightarrow>
          (case links of 0 \<Rightarrow> Inl TooManyLinks
           | Suc n \<Rightarrow> walkLinks fs dir n (rooted \<or> IsAbs t) (if IsAbs t then [] else st) (components t @ cs)))"
  by (simp add: plainName_def)

lemma walkLinks_skip: "walkLinks fs dir links rooted st ([] # cs) = walkLinks fs dir links rooted st cs"
  "walkLinks fs dir links rooted st (''.'' # cs) = walkLinks fs dir links rooted st cs"
  "walkLinks fs dir links rooted st (''..'' # cs) = walkLinks fs dir links rooted (clean_step rooted st ''..'') cs"
  by simp_all

lemma walkLinks_namei:
  "list_all placeName cur \<Longrightarrow> \<forall>c \<in> set cs. CHR 0x2F \<notin> set c \<Longrightarrow>
   walkLinks fs dir links True (rev cur) cs = map_sum id (\<lambda>q. (True, rev q)) (namei False fs links cur cs)"
proof (induction links cur cs rule: path_induct)
  case (Up links cur cs)
  have b: "list_all placeName (butlast cur)" using Up.prems(1) by (auto simp: list_all_iff dest: in_set_butlastD)
  have "clean_step True (rev cur) ''..'' = rev (butlast cur)"
    using Up.prems(1) by (cases cur rule: rev_cases) (auto simp: placeName_def plainName_def)
  with Up b show ?case by (simp only: walkLinks_skip namei_skip) simp
next
  case (Name links cur c cs)
  have "placeName c" using Name.hyps Name.prems(2) by (simp add: placeName_def)
  with Name.prems(1) have c: "list_all placeName (cur @ [c])" by simp
  have t: "\<forall>c \<in> set (components t @ cs). CHR 0x2F \<notin> set c" for t using Name.prems(2) components_no_slash by auto
  have at: "stackPlace dir True (c # rev cur) = cur @ [c]" using stackPlace_plain [of "c # rev cur"] c by (simp add: list_all_iff)
  have tl: "\<forall>d \<in> set cs. CHR 0x2F \<notin> set d" using Name.prems(2) by simp
  have ih: "walkLinks fs dir links True (c # rev cur) cs = map_sum id (\<lambda>q. (True, rev q)) (namei False fs links (cur @ [c]) cs)"
    using Name.IH(1) [OF c tl] by (simp only: rev_append rev.simps append.simps)
  show ?case
  proof (cases "\<exists>t. entryAt fs (cur @ [c]) = Some (Link t)")
    case True
    then obtain t where l: "entryAt fs (cur @ [c]) = Some (Link t)" by blast
    show ?thesis
    proof (cases links)
      case 0
      with l show ?thesis by (simp add: namei_name [OF Name.hyps] walkLinks_name [OF Name.hyps] at del: namei.simps walkLinks.simps)
    next
      case (Suc n)
      have d: "list_all placeName (if IsAbs t then [] else cur)" using Name.prems(1) by simp
      have "rev (if IsAbs t then [] else cur) = (if IsAbs t then [] else rev cur)" by simp
      with Name.IH(2) [OF Suc d t] l Suc show ?thesis
        by (simp add: namei_name [OF Name.hyps] walkLinks_name [OF Name.hyps] at del: namei.simps walkLinks.simps)
    qed
  next
    case False
    show ?thesis
    proof (cases "entryAt fs (cur @ [c]) = Some Directory")
      case True
      then have "namei False fs links cur (c # cs) = namei False fs links (cur @ [c]) cs"
        "walkLinks fs dir links True (rev cur) (c # cs) = walkLinks fs dir links True (c # rev cur) cs"
        by (simp_all add: namei_name [OF Name.hyps] walkLinks_name [OF Name.hyps] at del: namei.simps walkLinks.simps)
      with ih show ?thesis by (simp only:)
    next
      case no_dir: False
      from False no_dir show ?thesis
        by (auto simp: namei_name [OF Name.hyps] walkLinks_name [OF Name.hyps] at simp del: namei.simps walkLinks.simps
            split: option.split entry.split)
    qed
  qed
qed (simp_all only: walkLinks_skip namei_skip, simp_all)

lemma EvalSymlinks_place:
  assumes "IsAbs p"
  shows "EvalSymlinks fs dir p = map_sum id (\<lambda>q. stackPath True (rev q)) (namei False fs goLinks [] (components p))"
proof -
  have "walkLinks fs dir goLinks True [] (components p) = map_sum id (\<lambda>q. (True, rev q)) (namei False fs goLinks [] (components p))"
    using walkLinks_namei [of "[]" "components p" fs dir goLinks] components_no_slash by auto
  then show ?thesis
    using assms by (cases "namei False fs goLinks [] (components p)") (auto simp: EvalSymlinks_def)
qed

lemma EvalSymlinks_real:
  assumes "IsAbs p" "EvalSymlinks fs dir p = Inr x"
  shows "absPath x" "real fs (namesOf x)" "place create fs dir1 x = Inr (namesOf x)"
proof -
  obtain q where q: "namei False fs goLinks [] (components p) = Inr q" and x: "x = stackPath True (rev q)"
    using assms EvalSymlinks_place [of p fs dir] by (cases "namei False fs goLinks [] (components p)") auto
  have ns: "list_all placeName q" using namei_names [OF _ _ q] components_no_slash by simp
  show "absPath x" using absPath_names [OF ns] x by simp
  have xq: "namesOf x = q" using namesOf_names [OF ns] x by simp
  show r: "real fs (namesOf x)" using namei_real [OF realDir_Nil q] xq by simp
  have "list_all plainName q" using ns by (simp add: list_all_iff placeName_def)
  with r xq real_namei [of fs "[]" q] show "place create fs dir1 x = Inr (namesOf x)"
    using place_absPath [OF \<open>absPath x\<close>] by simp
qed

lemma EvalSymlinks_complete:
  assumes "IsAbs p" "place False fs dir p = Inr q"
  shows "EvalSymlinks fs dir1 p = Inr (stackPath True (rev q))" "list_all placeName q"
proof -
  have k: "namei False fs kernelLinks [] (components p) = Inr q" using assms by (simp add: place_def)
  from namei_more [OF k, of goLinks] show "EvalSymlinks fs dir1 p = Inr (stackPath True (rev q))"
    using EvalSymlinks_place [OF assms(1)] by (simp add: kernelLinks_def goLinks_def)
  show "list_all placeName q" using namei_names [OF _ _ k] components_no_slash by simp
qed

section \<open>Paths that exist\<close>

lemma namei_append:
  "namei False fs links cur xs = Inr q \<Longrightarrow> xs = cs @ ds \<Longrightarrow>
   \<exists>r m. namei False fs links cur cs = Inr r \<and> m \<le> links \<and> namei False fs m r ds = Inr q"
proof (induction links cur xs arbitrary: cs rule: path_induct)
  case (Name links cur c xs)
  show ?case
  proof (cases cs)
    case Nil
    with Name.prems show ?thesis by auto
  next
    case (Cons c1 cs1)
    with Name.prems(2) have c1: "c1 = c" and xs: "xs = cs1 @ ds" by simp_all
    show ?thesis
    proof (cases "\<exists>t. entryAt fs (cur @ [c]) = Some (Link t)")
      case True
      then obtain t where t: "entryAt fs (cur @ [c]) = Some (Link t)" by blast
      obtain n where n: "links = Suc n" and r: "namei False fs n (if IsAbs t then [] else cur) (components t @ xs) = Inr q"
        by (rule namei_link [OF Name.hyps t Name.prems(1)])
      have split: "components t @ xs = (components t @ cs1) @ ds" using xs by simp
      obtain p m where "namei False fs n (if IsAbs t then [] else cur) (components t @ cs1) = Inr p" "m \<le> n"
        "namei False fs m p ds = Inr q"
        using Name.IH(2) [OF n r split] by blast
      then show ?thesis
        using n t Cons c1 by (intro exI [of _ p] exI [of _ m]) (simp add: namei_name [OF Name.hyps] del: namei.simps)
    next
      case False
      show ?thesis
      proof (cases "entryAt fs (cur @ [c]) = Some Directory")
        case True
        with Name.prems(1) have "namei False fs links (cur @ [c]) xs = Inr q"
          by (simp add: namei_name [OF Name.hyps] del: namei.simps)
        from Name.IH(1) [OF this xs] True Cons c1 show ?thesis
          by (simp add: namei_name [OF Name.hyps] del: namei.simps)
      next
        case no_dir: False
        with False Name.prems(1) have "xs = []" "q = cur @ [c]"
          by (auto simp: namei_name [OF Name.hyps] simp del: namei.simps split: if_splits option.splits entry.splits)
        with Name.prems(1) xs Cons c1 show ?thesis
          by (intro exI [of _ q] exI [of _ links]) (simp del: namei.simps(2))
      qed
    qed
  qed
qed (auto simp: Cons_eq_append_conv namei_skip simp del: namei.simps(2))

lemma namei_create: "namei False fs links cur cs = Inr q \<Longrightarrow> namei True fs links cur cs = Inr q"
proof (induction links cur cs rule: path_induct)
  case (Name links cur c cs)
  show ?case
  proof (cases "\<exists>t. entryAt fs (cur @ [c]) = Some (Link t)")
    case True
    then obtain t where t: "entryAt fs (cur @ [c]) = Some (Link t)" by blast
    obtain n where n: "links = Suc n" and r: "namei False fs n (if IsAbs t then [] else cur) (components t @ cs) = Inr q"
      by (rule namei_link [OF Name.hyps t Name.prems])
    show ?thesis using Name.IH(2) [OF n r] n t by (simp add: namei_name [OF Name.hyps] del: namei.simps)
  next
    case False
    with Name.prems Name.IH(1) show ?thesis
      by (auto simp: namei_name [OF Name.hyps] simp del: namei.simps split: if_splits option.splits entry.splits)
  qed
qed (simp_all add: namei_skip del: namei.simps(2))

text \<open>A directory that \<open>filepath.EvalSymlinks\<close> finds is not made.\<close>

lemma Mkdir_exists:
  assumes "namei False fs goLinks cur cs = Inr q" "cs \<noteq> []"
  shows "snd (Mkdir cur cs fs) = fs"
proof (cases "namei False fs kernelLinks cur (butlast cs)")
  case (Inr r)
  obtain r1 m where r1: "namei False fs goLinks cur (butlast cs) = Inr r1" and m: "namei False fs m r1 [last cs] = Inr q"
    using namei_append [OF assms(1), of "butlast cs" "[last cs]"] assms(2) by auto
  have "r1 = r" using namei_more [OF Inr, of goLinks] r1 by (simp add: kernelLinks_def goLinks_def)
  then have "plainName (last cs) \<Longrightarrow> entryAt fs (r @ [last cs]) \<noteq> None"
    using m namei_name [of "last cs" False fs m r "[]"] by (cases "entryAt fs (r @ [last cs])") simp_all
  then show ?thesis using Inr by (auto simp: Mkdir_def)
qed (simp add: Mkdir_def)

lemma MkdirAll_exists: "namei False fs goLinks cur cs = Inr q \<Longrightarrow> snd (MkdirAll cur cs fs) = fs"
proof (induction cur cs fs arbitrary: q rule: MkdirAll.induct)
  case (1 cur cs fs)
  show ?case
  proof (cases "cs = [] \<or> (\<exists>e. Stat fs cur cs = Inr e)")
    case True
    then show ?thesis by (subst MkdirAll.simps) (auto split: sum.split)
  next
    case False
    then obtain e where e: "Stat fs cur cs = Inl e" and cs: "cs \<noteq> []" by (cases "Stat fs cur cs") auto
    obtain r1 where "namei False fs goLinks cur (butlast cs) = Inr r1"
      using namei_append [OF "1.prems", of "butlast cs" "[last cs]"] cs by auto
    from "1.IH" [OF e cs this] have "snd (MkdirAll cur (butlast cs) fs) = fs" .
    then obtain r where m: "MkdirAll cur (butlast cs) fs = (r, fs)" by (cases "MkdirAll cur (butlast cs) fs") auto
    from Mkdir_exists [OF "1.prems" cs] e cs m show ?thesis
      by (subst MkdirAll.simps) (simp split: option.split)
  qed
qed

lemma place_found:
  assumes "absPath p" "namei False fs goLinks [] (namesOf p) = Inr q" "place create fs dir p = Inr r"
  shows "r = q"
proof -
  have "namei create fs goLinks [] (namesOf p) = Inr r"
    using namei_more [of create fs kernelLinks "[]" "namesOf p" r goLinks] assms(1,3) by (simp add: place_absPath kernelLinks_def goLinks_def)
  moreover have "namei create fs goLinks [] (namesOf p) = Inr q" using assms(2) namei_create by (cases create) auto
  ultimately show ?thesis by simp
qed

text \<open>What is written below a directory.\<close>

lemma WriteFileAt_below:
  assumes "plainDir fs ws" "\<And>q. place True fs dir p = Inr q \<Longrightarrow> prefix ws q"
  shows "changesBelow ws fs (snd (WriteFileAt dir p data fs))"
proof (cases "place True fs dir p")
  case (Inr q)
  show ?thesis
  proof (cases "entryAt fs q = Some Directory")
    case False
    then have "q \<noteq> []" by (auto simp: entryAt_def)
    moreover have "q \<noteq> ws" using False assms(1) by (auto simp: plainDir_def)
    ultimately have "changesBelow ws fs (putEntry q (File data) fs)" using changesBelow_put assms(2) [OF Inr] by simp
    with Inr False show ?thesis by (simp add: WriteFileAt_def)
  qed (simp add: WriteFileAt_def Inr below.refl)
qed (simp add: WriteFileAt_def below.refl)

lemma startOf_abs: "absPath p \<Longrightarrow> startOf dir p = []"
  by (simp add: startOf_def absPath_IsAbs)

lemma path_Dir_abs: "absPath p \<Longrightarrow> absPath (path_Dir p) \<and> namesOf (path_Dir p) = butlast (namesOf p)"
proof -
  assume p: "absPath p"
  then have ns: "list_all placeName (butlast (namesOf p))" by (auto simp: absPath_def list_all_iff dest: in_set_butlastD)
  have "path_Dir p = stackPath True (rev (butlast (namesOf p)))"
    using path_Dir_names [of "namesOf p"] p by (simp add: absPath_def)
  with absPath_names [OF ns] namesOf_names [OF ns] show ?thesis by simp
qed

text \<open>The empty components of a path do not count.\<close>

lemma Stat_root: "Stat fs cur ([] # cs) = Stat fs cur cs"
  by (simp add: Stat_def namei_skip del: namei.simps(2))

lemma Stat_Nil: "Stat fs [] [] = Inr Directory"
  by (simp add: Stat_def entryAt_def)

lemma Mkdir_root: "cs \<noteq> [] \<Longrightarrow> Mkdir cur ([] # cs) fs = Mkdir cur cs fs"
  by (cases "namei False fs kernelLinks cur (butlast cs)") (simp_all add: Mkdir_def namei_skip del: namei.simps(2))

lemma MkdirAll_root: "MkdirAll [] ([] # cs) fs = MkdirAll [] cs fs"
proof (induction cs arbitrary: fs rule: rev_induct)
  case Nil
  show ?case by (subst (1 2) MkdirAll.simps) (simp add: Stat_root Stat_Nil)
next
  case (snoc c cs)
  have "Stat fs [] ([] # cs @ [c]) = Stat fs [] (cs @ [c])" by (rule Stat_root)
  moreover have "Mkdir [] ([] # cs @ [c]) fs1 = Mkdir [] (cs @ [c]) fs1" for fs1 by (rule Mkdir_root) simp
  ultimately show ?case
    using snoc.IH [of fs] MkdirAll.simps [of "[]" "[] # cs @ [c]" fs] MkdirAll.simps [of "[]" "cs @ [c]" fs]
    by (cases "Stat fs [] (cs @ [c])"; cases "MkdirAll [] cs fs"; cases "fst (MkdirAll [] cs fs)")
      (simp_all add: butlast_append)
qed

lemma MkdirAll_abs: "absPath p \<Longrightarrow> MkdirAll [] (components p) fs = MkdirAll [] (namesOf p) fs"
  using MkdirAll_root [of "[[]]" fs] MkdirAll_root [of "[]" fs] by (simp add: absPath_components MkdirAll_root)

end
