(* ===== verification/WorkspacePaths.thy ===== *)
theory WorkspacePaths
  imports GoFiles
begin

text \<open>
  The paths that callers may name in a workspace: \<open>resolveWorkspacePath\<close> of the agents' tools
  (\<open>apps/api/internal/tools/workspace.go\<close>), \<open>validateWorkspacePath\<close> of the HTTP handlers
  (\<open>apps/api/internal/handlers/workspace_files.go\<close>), \<open>cleanRelativePath\<close> of the local and the Docker
  runtime (\<open>packages/runtimes\<close>).

  Each is a gate from what the caller asks to the path that is opened.  The locale \<open>path_gate\<close> is what
  all of them promise, \<open>link_gate\<close> what the two that look at links promise more; what reads and writes
  through a gate can reach is proved in the locales and read off for the four gates.
\<close>

section \<open>The gates\<close>

datatype path_error =
    AbsoluteNotAllowed string
  | Traversal string
  | FilePathRequired
  | OsError os_error

definition cwdText :: "string list \<Rightarrow> string" where
  "cwdText dir = stackPath True (rev dir)"

text \<open>Tools: \<open>dir\<close> is the place of the process's working directory.\<close>

definition resolveWorkspacePath :: "string list \<Rightarrow> files \<Rightarrow> string \<Rightarrow> string \<Rightarrow> path_error + string" where
  "resolveWorkspacePath dir fs workspacePath requestedPath =
     (if IsAbs requestedPath then Inl (AbsoluteNotAllowed requestedPath)
      else
        let cleanPath = (if path_Clean requestedPath = ''.'' \<or> path_Clean requestedPath = slash then []
                         else path_Clean requestedPath);
            fullPath = path_Join workspacePath cleanPath;
            resolvedPath = (case EvalSymlinks fs dir fullPath of Inl _ \<Rightarrow> fullPath | Inr p \<Rightarrow> p);
            workspaceAbs = path_Abs (cwdText dir) workspacePath;
            resolvedAbs = path_Abs (cwdText dir) resolvedPath
        in if \<not> HasPrefix resolvedAbs (workspaceAbs @ slash) \<and> resolvedAbs \<noteq> workspaceAbs
           then Inl (Traversal requestedPath) else Inr resolvedAbs)"

text \<open>Handlers: the check, and the path that is opened after it.\<close>

definition validateWorkspacePath :: "string list \<Rightarrow> files \<Rightarrow> string \<Rightarrow> string \<Rightarrow> path_error option" where
  "validateWorkspacePath dir fs workspacePath requestedPath =
     (if IsAbs requestedPath then Some (AbsoluteNotAllowed requestedPath)
      else
        let fullPath = path_Join workspacePath requestedPath in
        case (case EvalSymlinks fs dir fullPath of Inl NotExist \<Rightarrow> Inr fullPath | r \<Rightarrow> r) of
          Inl e \<Rightarrow> Some (OsError e)
        | Inr resolved \<Rightarrow>
          if \<not> HasPrefix (resolved @ slash) (path_Clean workspacePath @ slash) \<and> resolved \<noteq> path_Clean workspacePath
          then Some (Traversal requestedPath) else None)"

definition handlerTarget :: "string list \<Rightarrow> files \<Rightarrow> string \<Rightarrow> string \<Rightarrow> path_error + string" where
  "handlerTarget dir fs workspacePath requestedPath =
     (case validateWorkspacePath dir fs workspacePath requestedPath of
        Some e \<Rightarrow> Inl e | None \<Rightarrow> Inr (path_Join workspacePath requestedPath))"

text \<open>Runtimes.\<close>

definition cleanRelativePath :: "string \<Rightarrow> path_error + string" where
  "cleanRelativePath p =
     (if IsAbs p then Inl (AbsoluteNotAllowed p)
      else let clean = path_Clean p in
        if clean = ''..'' \<or> HasPrefix clean (''..'' @ slash) then Inl (Traversal p) else Inr clean)"

definition localTarget :: "files \<Rightarrow> string \<Rightarrow> string \<Rightarrow> path_error + string" where
  "localTarget fs worktreePath p = map_sum id (path_Join worktreePath) (cleanRelativePath p)"

definition workspaceDir :: string where
  "workspaceDir = ''/workspace''"

definition dockerWorkdir :: "string \<Rightarrow> path_error + string" where
  "dockerWorkdir p =
     (if p = [] then Inr workspaceDir
      else case cleanRelativePath p of Inl e \<Rightarrow> Inl e
        | Inr target \<Rightarrow> Inr (if target = ''.'' then workspaceDir else workspaceDir @ slash @ target))"

definition dockerWorkspacePath :: "string \<Rightarrow> path_error + string" where
  "dockerWorkspacePath p =
     (case cleanRelativePath p of Inl e \<Rightarrow> Inl e
      | Inr target \<Rightarrow> if target = ''.'' then Inl FilePathRequired else Inr (workspaceDir @ slash @ target))"

text \<open>\<open>pathDir\<close>: the text before the last slash, \<open>/workspace\<close> when there is none but a leading one.\<close>

definition pathDir :: "string \<Rightarrow> string" where
  "pathDir p =
     (let parent = butlast (rev (dropWhile (\<lambda>c. c \<noteq> CHR 0x2F) (rev p))) in if parent = [] then workspaceDir else parent)"

section \<open>Absolute paths as lists of names\<close>

lemma cwdText_absPath: "list_all placeName dir \<Longrightarrow> absPath (cwdText dir)"
  unfolding cwdText_def by (rule absPath_names)

text \<open>The texts below a directory's are those of the places below it.\<close>

lemma absPath_below:
  assumes "absPath w" "absPath p"
  shows "HasPrefix (p @ slash) (w @ slash) \<Longrightarrow> prefix (namesOf w) (namesOf p)"
    and "HasPrefix p (w @ slash) \<Longrightarrow> prefix (namesOf w) (namesOf p)"
proof -
  have *: "prefix (namesOf w) (namesOf p)" if "p @ r = w @ slash @ s" "r = [] \<or> r = slash" for r s
  proof -
    have "components (p @ r) = components w @ components s"
      using that(1) by (simp add: components_def slash_def split_on_append_sep)
    then have "namesOf (p @ r) = namesOf w @ namesOf s" by (simp add: namesOf_def)
    moreover have "components (p @ r) = components p @ (if r = [] then [] else [[]])"
      using that(2) by (auto simp: components_def slash_def split_on_append_sep)
    then have "namesOf (p @ r) = namesOf p" by (simp add: namesOf_def)
    ultimately show ?thesis by simp
  qed
  show "HasPrefix (p @ slash) (w @ slash) \<Longrightarrow> prefix (namesOf w) (namesOf p)"
    using * [of slash] unfolding HasPrefix_prefix prefix_def by (metis append_assoc)
  show "HasPrefix p (w @ slash) \<Longrightarrow> prefix (namesOf w) (namesOf p)"
    using * [of "[]"] unfolding HasPrefix_prefix prefix_def by (metis append_assoc append_Nil2)
qed

lemma path_Join_abs: "IsAbs a \<Longrightarrow> absPath (path_Join a b)"
proof -
  assume a: "IsAbs a"
  then have "a \<noteq> []" by (auto simp: IsAbs_def HasPrefix_prefix slash_def)
  moreover have "IsAbs (a @ slash @ b)" using a by (auto simp: IsAbs_def HasPrefix_prefix)
  ultimately show ?thesis using a absPath_Clean by (simp add: path_Join_def)
qed

lemma path_Abs_abs: "list_all placeName dir \<Longrightarrow> absPath (path_Abs (cwdText dir) p)"
  using absPath_Clean path_Join_abs absPath_IsAbs [OF cwdText_absPath] by (simp add: path_Abs_def)

lemma path_Abs_id: "absPath p \<Longrightarrow> path_Abs cwd p = p"
  by (simp add: path_Abs_def absPath_IsAbs Clean_absPath)

text \<open>\<open>EvalSymlinks\<close> on a cleaned absolute path.\<close>

lemma EvalSymlinks_names:
  "absPath p \<Longrightarrow> EvalSymlinks fs dir p = map_sum id (\<lambda>q. stackPath True (rev q)) (namei False fs goLinks [] (namesOf p))"
  using absPath_components [of p] by (simp add: EvalSymlinks_place absPath_IsAbs)

section \<open>What every gate promises\<close>

text \<open>A write through a gate, with the directories it needs.\<close>

definition gatedWrite ::
  "(files \<Rightarrow> string \<Rightarrow> string \<Rightarrow> path_error + string) \<Rightarrow> string list \<Rightarrow> string \<Rightarrow> string \<Rightarrow> string \<Rightarrow> files \<Rightarrow>
   path_error option \<times> files" where
  "gatedWrite gate dir ws req data fs =
     (case gate fs ws req of Inl e \<Rightarrow> (Some e, fs)
      | Inr p \<Rightarrow> map_prod (map_option OsError) id (writeWithParents dir p data fs))"

definition gatedRead ::
  "(files \<Rightarrow> string \<Rightarrow> string \<Rightarrow> path_error + string) \<Rightarrow> string list \<Rightarrow> string \<Rightarrow> string \<Rightarrow> files \<Rightarrow> path_error + string" where
  "gatedRead gate dir ws req fs =
     (case gate fs ws req of Inl e \<Rightarrow> Inl e | Inr p \<Rightarrow> map_sum OsError id (ReadFileAt fs dir p))"

lemma writeWithParents_below:
  assumes p: "absPath p"
    and w: "(\<exists>q. namei False fs goLinks [] (namesOf p) = Inr q \<and> prefix ws q) \<or> prefix ws (namesOf p)"
    and plain: "plainDir fs ws"
  shows "changesBelow ws fs (snd (writeWithParents dir p data fs))"
proof -
  define d where "d = path_Dir p"
  have d: "absPath d" "namesOf d = butlast (namesOf p)" using path_Dir_abs [OF p] by (simp_all add: d_def)
  obtain r fs1 where m: "MkdirAll [] (namesOf d) fs = (r, fs1)" by fastforce
  have wr: "writeWithParents dir p data fs = (case r of Some e \<Rightarrow> (Some e, fs1) | None \<Rightarrow> WriteFileAt dir p data fs1)"
    using m d(1) by (simp add: writeWithParents_def startOf_abs MkdirAll_abs flip: d_def)
  have names: "\<forall>c \<in> set (namesOf p). plainName c" using p by (simp add: absPath_def list_all_iff placeName_def)
  have "changesBelow ws fs fs1 \<and> (\<forall>q. place True fs1 dir p = Inr q \<longrightarrow> prefix ws q)"
  proof (cases "\<exists>q. namei False fs goLinks [] (namesOf p) = Inr q \<and> prefix ws q")
    case True
    then obtain q where q: "namei False fs goLinks [] (namesOf p) = Inr q" "prefix ws q" by blast
    obtain q1 where "namei False fs goLinks [] (namesOf d) = Inr q1"
    proof (cases "namesOf p = []")
      case False
      then show ?thesis using namei_append [OF q(1), of "butlast (namesOf p)" "[last (namesOf p)]"] d(2) that by auto
    qed (use d(2) that in simp)
    from MkdirAll_exists [OF this] m have "fs1 = fs" by simp
    then show ?thesis using place_found [OF p q(1)] q(2) by (auto simp: below.refl)
  next
    case False
    with w have lex: "prefix ws (namesOf p)" by blast
    then have on: "onPath ws ([] @ namesOf p)" by (simp add: onPath_def)
    have "onPath ws ([] @ namesOf d)" using on by (rule onPath_prefix) (simp add: d(2) prefixeq_butlast)
    moreover have "\<forall>c \<in> set (namesOf d). plainName c" using names d(2) by (auto dest: in_set_butlastD)
    ultimately have b: "changesBelow ws fs fs1" using MkdirAll_below [OF plain, of "[]" "namesOf d"] m by simp
    with plain have "plainDir fs1 ws" by (simp add: changesBelow_def)
    from namei_plain [OF this on names, of True kernelLinks] lex have "place True fs1 dir p = Inr q \<Longrightarrow> prefix ws q" for q
      using place_absPath [OF p, of True fs1 dir] by force
    with b show ?thesis by blast
  qed
  then have b: "changesBelow ws fs fs1" and at: "\<And>q. place True fs1 dir p = Inr q \<Longrightarrow> prefix ws q" by blast+
  from b plain have plain1: "plainDir fs1 ws" by (simp add: changesBelow_def)
  show ?thesis
  proof (cases r)
    case None
    with below.trans [OF b WriteFileAt_below [OF plain1 at]] show ?thesis by (simp add: wr)
  qed (simp add: wr b)
qed

locale path_gate =
  fixes gate :: "files \<Rightarrow> string \<Rightarrow> string \<Rightarrow> path_error + string" and root :: "string \<Rightarrow> string list" and ok :: "string \<Rightarrow> bool"
  assumes gate_abs: "ok ws \<Longrightarrow> gate fs ws req = Inr p \<Longrightarrow> absPath p"
    and gate_below: "ok ws \<Longrightarrow> gate fs ws req = Inr p \<Longrightarrow>
      (\<exists>q. namei False fs goLinks [] (namesOf p) = Inr q \<and> prefix (root ws) q) \<or> prefix (root ws) (namesOf p)"
begin

lemma write_below: "ok ws \<Longrightarrow> changesBelow (root ws) fs (snd (gatedWrite gate dir ws req data fs))"
proof -
  assume ok: "ok ws"
  show ?thesis
  proof (cases "gate fs ws req")
    case (Inr p)
    show ?thesis
    proof (cases "plainDir fs (root ws)")
      case True
      with writeWithParents_below [OF gate_abs [OF ok Inr] gate_below [OF ok Inr]] Inr show ?thesis
        by (simp add: gatedWrite_def)
    qed (simp add: changesBelow_def)
  qed (simp add: gatedWrite_def below.refl)
qed

text \<open>A session of writes, one after the other.\<close>

lemma writes_below:
  "ok ws \<Longrightarrow> changesBelow (root ws) fs (fold (\<lambda>(req, data) fs. snd (gatedWrite gate dir ws req data fs)) reqs fs)"
  by (induction reqs arbitrary: fs) (auto simp: below.refl intro: below.trans write_below)

end

locale link_gate = path_gate +
  assumes gate_follows: "ok ws \<Longrightarrow> gate fs ws req = Inr p \<Longrightarrow> namei False fs goLinks [] (namesOf p) = Inr q \<Longrightarrow> prefix (root ws) q"
begin

text \<open>Whatever links there are, what is found through the gate is below the workspace.\<close>

lemma found_below: "ok ws \<Longrightarrow> gate fs ws req = Inr p \<Longrightarrow> place False fs dir p = Inr q \<Longrightarrow> prefix (root ws) q"
  using gate_follows gate_abs namei_more [of False fs kernelLinks "[]" "namesOf p" q goLinks]
  by (simp add: place_absPath kernelLinks_def goLinks_def)

lemma read_below:
  assumes "ok ws" "gatedRead gate dir ws req fs = Inr data"
  obtains q where "prefix (root ws) q" "entryAt fs q = Some (File data)"
proof -
  obtain p where p: "gate fs ws req = Inr p" and r: "ReadFileAt fs dir p = Inr data"
    using assms(2) by (cases "gate fs ws req"; cases "ReadFileAt fs dir (projr (gate fs ws req))") (auto simp: gatedRead_def)
  from r obtain q where "place False fs dir p = Inr q" "entryAt fs q = Some (File data)"
    by (auto simp: ReadFileAt_def split: sum.splits option.splits entry.splits)
  with found_below [OF assms(1) p] that show ?thesis by blast
qed

end

section \<open>The four gates\<close>

text \<open>Lexically a joined path is below when the part that is joined does not go up.\<close>

lemma workspaceText: "IsAbs ws \<Longrightarrow> absPath (path_Clean ws)"
  by (rule absPath_Clean)

definition rootOf :: "string \<Rightarrow> string list" where
  "rootOf ws = namesOf (path_Clean ws)"

lemma found_text:
  assumes "absPath p" "EvalSymlinks fs dir p = Inr x"
  shows "absPath x" "namei False fs goLinks [] (namesOf p) = Inr (namesOf x)"
proof -
  show "absPath x" using EvalSymlinks_real(1) [OF absPath_IsAbs [OF assms(1)] assms(2)] .
  obtain q where q: "namei False fs goLinks [] (namesOf p) = Inr q" and x: "x = stackPath True (rev q)"
    using assms EvalSymlinks_names [of p fs dir] by (cases "namei False fs goLinks [] (namesOf p)") auto
  have "list_all placeName q" using namei_names [OF _ _ q] assms(1) by (auto simp: absPath_def list_all_iff placeName_def)
  then show "namei False fs goLinks [] (namesOf p) = Inr (namesOf x)" using q x namesOf_names by simp
qed

lemma not_found_text: "absPath p \<Longrightarrow> EvalSymlinks fs dir p = Inl e \<Longrightarrow> namei False fs goLinks [] (namesOf p) = Inl e"
  using EvalSymlinks_names [of p fs dir] by (cases "namei False fs goLinks [] (namesOf p)") simp_all

lemma found_again: "absPath p \<Longrightarrow> EvalSymlinks fs dir p = Inr x \<Longrightarrow> namei False fs goLinks [] (namesOf x) = Inr (namesOf x)"
proof -
  assume p: "absPath p" and e: "EvalSymlinks fs dir p = Inr x"
  have r: "real fs ([] @ namesOf x)" using EvalSymlinks_real(2) [OF absPath_IsAbs [OF p] e] by simp
  have "absPath x" by (rule found_text(1) [OF p e])
  then have "list_all plainName (namesOf x)" by (simp add: absPath_def list_all_iff placeName_def)
  from real_namei [OF r this] show ?thesis by simp
qed

text \<open>Tools.\<close>

lemma resolve_cases:
  assumes "list_all placeName dir" "IsAbs ws" "resolveWorkspacePath dir fs ws req = Inr p"
  shows "absPath p" "prefix (rootOf ws) (namesOf p)"
    and "namei False fs goLinks [] (namesOf p) = Inr q \<Longrightarrow> q = namesOf p"
proof -
  define full where "full = path_Join ws (if path_Clean req = ''.'' \<or> path_Clean req = slash then [] else path_Clean req)"
  define res where "res = (case EvalSymlinks fs dir full of Inl _ \<Rightarrow> full | Inr x \<Rightarrow> x)"
  have full: "absPath full" using path_Join_abs [OF assms(2)] by (simp add: full_def)
  have res: "absPath res" using full found_text(1) [OF full] by (auto simp: res_def split: sum.split)
  have wsAbs: "path_Abs (cwdText dir) ws = path_Clean ws" using assms(2) by (simp add: path_Abs_def)
  from assms(3) have p: "p = res" and b: "HasPrefix res (path_Clean ws @ slash) \<or> res = path_Clean ws"
    unfolding resolveWorkspacePath_def Let_def full_def [symmetric] res_def [symmetric] wsAbs path_Abs_id [OF res]
    by (auto split: if_splits)
  from p res show "absPath p" by simp
  show "prefix (rootOf ws) (namesOf p)"
    using b p absPath_below(2) [OF workspaceText [OF assms(2)] res] by (auto simp: rootOf_def)
  show "q = namesOf p" if q: "namei False fs goLinks [] (namesOf p) = Inr q"
  proof (cases "EvalSymlinks fs dir full")
    case (Inl e)
    with not_found_text [OF full Inl] q p show ?thesis by (simp add: res_def)
  next
    case (Inr x)
    with found_again [OF full Inr] q p show ?thesis by (simp add: res_def)
  qed
qed

interpretation toolPaths: link_gate "resolveWorkspacePath dir" rootOf "\<lambda>ws. IsAbs ws \<and> list_all placeName dir" for dir
  by standard (use resolve_cases in blast)+

text \<open>Handlers.\<close>

lemma handler_cases:
  assumes "IsAbs ws" "handlerTarget dir fs ws req = Inr p"
  shows "absPath p"
    and "namei False fs goLinks [] (namesOf p) = Inr q \<Longrightarrow> prefix (rootOf ws) q"
    and "namei False fs goLinks [] (namesOf p) = Inl e \<Longrightarrow> prefix (rootOf ws) (namesOf p)"
proof -
  have p: "p = path_Join ws req" and v: "validateWorkspacePath dir fs ws req = None"
    using assms(2) by (auto simp: handlerTarget_def split: option.splits)
  show abs: "absPath p" unfolding p by (rule path_Join_abs [OF assms(1)])
  have w: "absPath (path_Clean ws)" by (rule workspaceText [OF assms(1)])
  have below: "prefix (rootOf ws) (namesOf x)"
    if "absPath x" "\<not> (\<not> HasPrefix (x @ slash) (path_Clean ws @ slash) \<and> x \<noteq> path_Clean ws)" for x
    using that absPath_below(1) [OF w that(1)] by (auto simp: rootOf_def)
  show "prefix (rootOf ws) q" if q: "namei False fs goLinks [] (namesOf p) = Inr q"
  proof (cases "EvalSymlinks fs dir p")
    case (Inl e)
    with not_found_text [OF abs Inl] q show ?thesis by simp
  next
    case (Inr x)
    with v have "\<not> (\<not> HasPrefix (x @ slash) (path_Clean ws @ slash) \<and> x \<noteq> path_Clean ws)"
      by (simp add: validateWorkspacePath_def Let_def flip: p split: if_splits)
    from below [OF found_text(1) [OF abs Inr] this] found_text(2) [OF abs Inr] q show ?thesis by simp
  qed
  show "prefix (rootOf ws) (namesOf p)" if q: "namei False fs goLinks [] (namesOf p) = Inl e"
  proof (cases "EvalSymlinks fs dir p")
    case (Inl e1)
    with v have "\<not> (\<not> HasPrefix (p @ slash) (path_Clean ws @ slash) \<and> p \<noteq> path_Clean ws)"
      by (cases e1) (simp_all add: validateWorkspacePath_def Let_def flip: p split: if_splits)
    from below [OF abs this] show ?thesis .
  next
    case (Inr x)
    with found_text(2) [OF abs Inr] q show ?thesis by simp
  qed
qed

lemma handler_below:
  assumes "IsAbs ws" "handlerTarget dir fs ws req = Inr p"
  shows "(\<exists>q. namei False fs goLinks [] (namesOf p) = Inr q \<and> prefix (rootOf ws) q) \<or> prefix (rootOf ws) (namesOf p)"
  using handler_cases(2,3) [OF assms] by (cases "namei False fs goLinks [] (namesOf p)") blast+

interpretation handlerPaths: link_gate "handlerTarget dir" rootOf IsAbs for dir
  by standard (erule (1) handler_cases(1), erule (1) handler_below, erule (2) handler_cases(2))

text \<open>Runtimes.\<close>

lemma cleanRelativePath_names:
  assumes "cleanRelativePath p = Inr t"
  shows "t = ''.'' \<or> repo_path t"
proof -
  from assms have r: "\<not> HasPrefix p slash" and t: "path_Clean p = t"
    and up: "t \<noteq> ''..''" "\<not> HasPrefix t (''..'' @ slash)"
    by (simp_all add: cleanRelativePath_def IsAbs_def Let_def split: if_splits)
  have "repo_path t" if "t \<noteq> ''.''"
    using path_Clean_repo_path [of p, unfolded t, OF r that up(1)] up(2) by (simp add: slash_def)
  then show ?thesis by blast
qed

lemma repo_path_names: "repo_path t \<Longrightarrow> list_all placeName (components t)"
  using components_no_slash by (simp add: repo_path_def list_all_iff placeName_def plainName_def)

lemma path_Join_names:
  assumes "IsAbs ws" "t = ''.'' \<or> repo_path t"
  shows "namesOf (path_Join ws t) = rootOf ws @ (if t = ''.'' then [] else components t)"
proof -
  have t: "t \<noteq> []" using assms(2) repo_path_nonempty [of t] by blast
  have ws: "ws \<noteq> []" using assms(1) by (auto simp: IsAbs_def HasPrefix_prefix slash_def)
  define st where "st = foldl (clean_step True) [] (components ws)"
  have root: "rootOf ws = rev st"
  proof -
    have "list_all placeName st"
      unfolding st_def using components_no_slash by (intro clean_rooted_fold) auto
    then have "list_all placeName (rev st)" by (simp add: list_all_iff)
    from namesOf_names [OF this] show ?thesis using assms(1) by (simp add: rootOf_def path_Clean_stack st_def)
  qed
  have "IsAbs (ws @ slash @ t)" using assms(1) by (auto simp: IsAbs_def HasPrefix_prefix)
  moreover have "components (ws @ slash @ t) = components ws @ components t"
    by (simp add: components_def slash_def split_on_append_sep)
  ultimately have j: "path_Join ws t = stackPath True (foldl (clean_step True) st (components t))"
    using t ws by (simp add: path_Join_def path_Clean_stack st_def)
  have st: "list_all placeName (rev st)"
    unfolding st_def using components_no_slash clean_rooted_fold [of "[]" "components ws"] by (auto simp: list_all_iff)
  show ?thesis
  proof (cases "t = ''.''")
    case True
    then have "components t = [''.'']" by (simp add: components_def)
    with j root True show ?thesis using namesOf_names [OF st] by simp
  next
    case False
    with assms(2) have names: "list_all placeName (components t)" using repo_path_names by blast
    then have "foldl (clean_step True) st (components t) = rev (components t) @ st"
      using fold_names [of "components t" st] by (simp add: list_all_iff)
    with j root False show ?thesis
      using namesOf_names [of "rev st @ components t"] st names by simp
  qed
qed

lemma localTarget_names:
  assumes "IsAbs ws" "localTarget fs ws req = Inr p"
  shows "absPath p" "prefix (rootOf ws) (namesOf p)"
proof -
  obtain t where t: "cleanRelativePath req = Inr t" and p: "p = path_Join ws t"
    using assms(2) by (cases "cleanRelativePath req") (auto simp: localTarget_def)
  show "absPath p" unfolding p by (rule path_Join_abs [OF assms(1)])
  show "prefix (rootOf ws) (namesOf p)"
    unfolding p path_Join_names [OF assms(1) cleanRelativePath_names [OF t]] by simp
qed

interpretation localPaths: path_gate localTarget rootOf IsAbs
  by standard (erule (1) localTarget_names(1), rule disjI2, erule (1) localTarget_names(2))

lemma dockerWorkspacePath_names:
  assumes "dockerWorkspacePath req = Inr p"
  shows "absPath p" "prefix [''workspace''] (namesOf p)"
proof -
  obtain t where t: "repo_path t" and p: "p = workspaceDir @ slash @ t"
    using assms cleanRelativePath_names [of req]
    by (cases "cleanRelativePath req") (auto simp: dockerWorkspacePath_def split: if_splits)
  have names: "list_all placeName (''workspace'' # components t)" using repo_path_names [OF t] by (simp add: placeName_def plainName_def)
  have "join_with slash (components t) = t" unfolding components_def slash_def by (rule join_split)
  moreover have "components t \<noteq> []" by (simp add: components_def)
  ultimately have "stackPath True (rev (''workspace'' # components t)) = p"
    using join_with_append [of "[''workspace'']" "components t" slash] by (simp add: p stackPath_def workspaceDir_def slash_def)
  with absPath_names [OF names] namesOf_names [OF names] show "absPath p" "prefix [''workspace''] (namesOf p)" by simp_all
qed

interpretation dockerPaths: path_gate "\<lambda>fs ws. dockerWorkspacePath" "\<lambda>ws. [''workspace'']" "\<lambda>ws. True"
  by standard (erule dockerWorkspacePath_names(1), rule disjI2, erule dockerWorkspacePath_names(2))

text \<open>The directories that commands run in.\<close>

lemma dockerWorkdir_below: "dockerWorkdir req = Inr p \<Longrightarrow> absPath p \<and> prefix [''workspace''] (namesOf p)"
proof -
  assume d: "dockerWorkdir req = Inr p"
  have w: "absPath workspaceDir \<and> namesOf workspaceDir = [''workspace'']"
    using namesOf_names [of "[''workspace'']"] absPath_names [of "[''workspace'']"]
    by (simp add: placeName_def plainName_def stackPath_def workspaceDir_def slash_def)
  show ?thesis
  proof (cases "p = workspaceDir")
    case False
    with d have "dockerWorkspacePath req = Inr p"
      by (auto simp: dockerWorkdir_def dockerWorkspacePath_def split: if_splits sum.splits)
    from dockerWorkspacePath_names [OF this] show ?thesis by simp
  qed (use w in simp)
qed

section \<open>A link in the workspace\<close>

lemma namei_walk:
  "realDir fs (cur @ cs) \<Longrightarrow> list_all plainName cs \<Longrightarrow> namei create fs links cur (cs @ ds) = namei create fs links (cur @ cs) ds"
proof (induction cs arbitrary: cur)
  case (Cons c cs)
  have "entryAt fs (cur @ [c]) = Some Directory" using Cons.prems(1) by (simp add: realDir_def)
  with Cons show ?case by (simp add: plainName_def)
qed simp

text \<open>
  \<open>link/file\<close>, where the link leads to a directory that has no such file: the check sees no file there and
  keeps the path, the kernel goes through the link and makes the file behind it.
\<close>

definition linkedDir :: "files \<Rightarrow> string \<Rightarrow> string \<Rightarrow> string \<Rightarrow> string \<Rightarrow> bool" where
  "linkedDir fs ws l t n \<longleftrightarrow>
     absPath ws \<and> namesOf ws \<noteq> [] \<and> realDir fs (namesOf ws) \<and>
     placeName l \<and> entryAt fs (namesOf ws @ [l]) = Some (Link t) \<and>
     absPath t \<and> realDir fs (namesOf t) \<and> placeName n \<and> entryAt fs (namesOf t @ [n]) = None"

lemma linkedDir_parts:
  assumes "linkedDir fs ws l t n"
  shows "absPath ws" "namesOf ws \<noteq> []" "realDir fs (namesOf ws)" "placeName l"
    "entryAt fs (namesOf ws @ [l]) = Some (Link t)" "absPath t" "realDir fs (namesOf t)" "placeName n"
    "entryAt fs (namesOf t @ [n]) = None"
  using assms by (simp_all add: linkedDir_def)

definition joinTwo :: "string \<Rightarrow> string \<Rightarrow> string" where
  "joinTwo l n = l @ slash @ n"

lemma through_link:
  assumes "linkedDir fs ws l t n"
  shows "namei create fs (Suc k) [] (namesOf ws @ l # ds) = namei create fs k (namesOf t) ds"
proof -
  note parts = linkedDir_parts [OF assms]
  have w: "list_all plainName (namesOf ws)" and tn: "list_all plainName (namesOf t)"
    using parts(1,6) by (simp_all add: absPath_def list_all_iff placeName_def)
  have "namei create fs (Suc k) [] (namesOf ws @ l # ds) = namei create fs (Suc k) (namesOf ws) (l # ds)"
    using namei_walk [of fs "[]" "namesOf ws" create "Suc k" "l # ds"] parts(3) w by simp
  also have "\<dots> = namei create fs k [] (components t @ ds)"
    using parts(4,5) absPath_IsAbs [OF parts(6)] by (simp add: plainName_def placeName_def)
  also have "\<dots> = namei create fs k [] (namesOf t @ ds)"
    by (simp add: absPath_components [OF parts(6)])
  also have "\<dots> = namei create fs k (namesOf t) ds"
    using namei_walk [of fs "[]" "namesOf t" create k ds] parts(7) tn by simp
  finally show ?thesis .
qed

lemma new_behind_link:
  assumes "linkedDir fs ws l t n" "0 < links"
  shows "namei create fs links [] (namesOf ws @ [l, n]) = (if create then Inr (namesOf t @ [n]) else Inl NotExist)"
  using through_link [OF assms(1), of create "links - 1" "[n]"] linkedDir_parts(8,9) [OF assms(1)] assms(2)
  by (simp add: placeName_def plainName_def)

lemma joinTwo_components: "placeName l \<Longrightarrow> placeName n \<Longrightarrow> components (joinTwo l n) = [l, n]"
  by (simp add: joinTwo_def components_def slash_def split_on_append_sep split_on_no_sep placeName_def)

lemma joinTwo_repo: "placeName l \<Longrightarrow> placeName n \<Longrightarrow> repo_path (joinTwo l n)"
  unfolding repo_path_def joinTwo_components by (simp add: placeName_def plainName_def)

lemma joinTwo_rel:
  assumes "placeName l" "placeName n"
  shows "\<not> IsAbs (joinTwo l n)" "joinTwo l n \<noteq> ''.''" "joinTwo l n \<noteq> slash" "joinTwo l n \<noteq> ''..''"
    "\<not> HasPrefix (joinTwo l n) (''..'' @ slash)"
proof -
  note comps = joinTwo_components [OF assms]
  show abs: "\<not> IsAbs (joinTwo l n)" using repo_path_relative [OF joinTwo_repo [OF assms]] by (simp add: IsAbs_def)
  then show "joinTwo l n \<noteq> slash" by (auto simp: IsAbs_def HasPrefix_def)
  show "joinTwo l n \<noteq> ''.''" "joinTwo l n \<noteq> ''..''" using comps by (auto simp: components_def)
  show "\<not> HasPrefix (joinTwo l n) (''..'' @ slash)"
  proof
    assume "HasPrefix (joinTwo l n) (''..'' @ slash)"
    then obtain r where "joinTwo l n = ''..'' @ slash @ r" by (auto simp: HasPrefix_prefix prefix_def)
    then have "components (joinTwo l n) = ''..'' # components r" by (simp add: components_def slash_def split_on_append_sep)
    with comps assms(1) show False by (simp add: placeName_def plainName_def)
  qed
qed

lemma joinTwo_cleaned:
  assumes "placeName l" "placeName n"
  shows "path_Clean (joinTwo l n) = joinTwo l n"
proof -
  have "foldl (clean_step False) [] (components (joinTwo l n)) = [n, l]"
    using assms by (simp add: joinTwo_components placeName_def plainName_def)
  then show ?thesis using joinTwo_rel(1) [OF assms] by (simp add: path_Clean_stack stackPath_def joinTwo_def slash_def)
qed

lemma joined_names:
  assumes "absPath ws" "placeName l" "placeName n"
  shows "absPath (path_Join ws (joinTwo l n))" "namesOf (path_Join ws (joinTwo l n)) = namesOf ws @ [l, n]"
proof -
  show "absPath (path_Join ws (joinTwo l n))" by (rule path_Join_abs [OF absPath_IsAbs [OF assms(1)]])
  show "namesOf (path_Join ws (joinTwo l n)) = namesOf ws @ [l, n]"
    using path_Join_names [OF absPath_IsAbs [OF assms(1)], of "joinTwo l n"] joinTwo_repo [OF assms(2,3)]
      joinTwo_rel(2) [OF assms(2,3)] joinTwo_components [OF assms(2,3)]
    by (simp add: rootOf_def Clean_absPath [OF assms(1)])
qed

lemma joined_below:
  assumes "absPath ws" "placeName l" "placeName n" "namesOf ws \<noteq> []"
  shows "HasPrefix (path_Join ws (joinTwo l n)) (ws @ slash)"
proof -
  have "path_Join ws (joinTwo l n) = slash @ join_with slash (namesOf ws @ [l, n])"
    using joined_names [OF assms(1-3)] unfolding absPath_def stackPath_def by (simp add: Let_def)
  also have "\<dots> = (slash @ join_with slash (namesOf ws)) @ slash @ join_with slash [l, n]"
    using join_with_append [OF assms(4), of "[l, n]" slash] by simp
  also have "slash @ join_with slash (namesOf ws) = ws" using assms(1) unfolding absPath_def stackPath_def by (simp add: Let_def)
  finally show ?thesis by (simp add: HasPrefix_prefix)
qed

lemma link_unresolved:
  assumes "linkedDir fs ws l t n"
  shows "EvalSymlinks fs dir (path_Join ws (joinTwo l n)) = Inl NotExist"
  using EvalSymlinks_names [OF joined_names(1), of ws l n fs dir] new_behind_link [OF assms, of goLinks False]
    linkedDir_parts [OF assms] by (simp add: joined_names(2) goLinks_def)

lemma written_behind_link:
  assumes "linkedDir fs ws l t n"
  shows "writeWithParents dir (path_Join ws (joinTwo l n)) data fs = (None, putEntry (namesOf t @ [n]) (File data) fs)"
proof -
  note parts = linkedDir_parts [OF assms]
  define p where "p = path_Join ws (joinTwo l n)"
  have p: "absPath p" "namesOf p = namesOf ws @ [l, n]" using joined_names [OF parts(1,4,8)] by (simp_all add: p_def)
  have d: "absPath (path_Dir p)" "namesOf (path_Dir p) = namesOf ws @ [l]"
    using path_Dir_abs [OF p(1)] p(2) by (simp_all add: butlast_append)
  have "namei False fs kernelLinks [] (namesOf ws @ [l]) = Inr (namesOf t)"
    using through_link [OF assms, of False "kernelLinks - 1" "[]"] by (simp add: kernelLinks_def)
  then have "Stat fs [] (namesOf ws @ [l]) = Inr Directory" using parts(7) by (simp add: Stat_def realDir_def)
  then have "MkdirAll [] (namesOf ws @ [l]) fs = (None, fs)" by (subst MkdirAll.simps) simp
  then have m: "MkdirAll (startOf dir (path_Dir p)) (components (path_Dir p)) fs = (None, fs)"
    using d by (simp add: startOf_abs MkdirAll_abs)
  have "place True fs dir p = Inr (namesOf t @ [n])"
    using new_behind_link [OF assms, of kernelLinks True] place_absPath [OF p(1)] p(2) by (simp add: kernelLinks_def)
  then show ?thesis using m parts(9) by (simp add: writeWithParents_def WriteFileAt_def p_def)
qed

text \<open>Every gate on files of the host lets the path through.\<close>

lemma gates_open:
  assumes "linkedDir fs ws l t n"
  shows "resolveWorkspacePath dir fs ws (joinTwo l n) = Inr (path_Join ws (joinTwo l n))"
    and "handlerTarget dir fs ws (joinTwo l n) = Inr (path_Join ws (joinTwo l n))"
    and "localTarget fs ws (joinTwo l n) = Inr (path_Join ws (joinTwo l n))"
proof -
  note parts = linkedDir_parts [OF assms] and missing = link_unresolved [OF assms]
  note rel = joinTwo_rel [OF parts(4,8)] and clean = joinTwo_cleaned [OF parts(4,8)]
  define p where "p = path_Join ws (joinTwo l n)"
  have below: "HasPrefix p (ws @ slash)" unfolding p_def by (rule joined_below [OF parts(1,4,8,2)])
  then have hp: "HasPrefix (p @ slash) (ws @ slash)" by (auto simp: HasPrefix_prefix)
  have wc: "path_Clean ws = ws" by (rule Clean_absPath [OF parts(1)])
  have wa: "path_Abs (cwdText dir) ws = ws" by (rule path_Abs_id [OF parts(1)])
  have ta: "path_Abs (cwdText dir) p = p" unfolding p_def by (rule path_Abs_id [OF joined_names(1) [OF parts(1,4,8)]])
  have unresolved: "EvalSymlinks fs dir p = Inl NotExist" unfolding p_def by (rule missing)
  show "resolveWorkspacePath dir fs ws (joinTwo l n) = Inr (path_Join ws (joinTwo l n))"
    using rel below unresolved ta by (simp add: resolveWorkspacePath_def Let_def clean wa p_def)
  show "handlerTarget dir fs ws (joinTwo l n) = Inr (path_Join ws (joinTwo l n))"
    using rel hp unresolved by (simp add: handlerTarget_def validateWorkspacePath_def Let_def wc p_def)
  show "localTarget fs ws (joinTwo l n) = Inr (path_Join ws (joinTwo l n))"
    using rel by (simp add: localTarget_def cleanRelativePath_def Let_def clean)
qed

end
