(* ===== verification/GoLines.thy ===== *)
theory GoLines
  imports GoText GoHash
begin

text \<open>
  Lines, numbers and extensions: what the code uses of \<open>bufio.Scanner\<close>, \<open>strings.SplitN\<close>, \<open>strconv.Atoi\<close>
  and \<open>path/filepath\<close> on Unix.
\<close>

section \<open>Lines\<close>

definition NL :: char where
  "NL = CHR 0x0A"

definition TAB :: char where
  "TAB = CHR 0x09"

definition countChar :: "char \<Rightarrow> string \<Rightarrow> int" where
  "countChar c s = int (length (filter (\<lambda>d. d = c) s))"

text \<open>
  A \<open>bufio.Scanner\<close> gives the lines without their ends, \<open>\r\<close> included, and stops before a line that does not fit
  into its buffer of 64 KiB.
\<close>

definition maxScanLine :: int where
  "maxScanLine = 65535"

definition dropCR :: "string \<Rightarrow> string" where
  "dropCR s = TrimSuffix s [CHR 0x0D]"

definition scanLines :: "string \<Rightarrow> string list" where
  "scanLines s =
     (let ls = split_on NL s; body = (if last ls = [] then butlast ls else ls)
      in map dropCR (takeWhile (\<lambda>l. int (length l) \<le> maxScanLine) body))"

text \<open>\<open>strings.SplitN(s, sep, 3)\<close> for a separator of one byte.\<close>

definition splitAt3 :: "char \<Rightarrow> string \<Rightarrow> string list" where
  "splitAt3 c s =
     (case split_on c s of
        a # b # rest \<Rightarrow> if rest = [] then [a, b] else [a, b, join_with [c] rest]
      | parts \<Rightarrow> parts)"

section \<open>Numbers\<close>

definition isDigit :: "char \<Rightarrow> bool" where
  "isDigit c \<longleftrightarrow> (48::nat) \<le> of_char c \<and> of_char c \<le> (57::nat)"

text \<open>A sign and digits; None when there is anything else or the number does not fit into 64 bits.\<close>

definition Atoi :: "string \<Rightarrow> int option" where
  "Atoi s =
     (let neg = HasPrefix s ''-''; digits = (if neg \<or> HasPrefix s ''+'' then tl s else s);
          v = (if neg then - 1 else 1) * parse_uint 0 digits
      in if digits \<noteq> [] \<and> list_all isDigit digits \<and> is_i64 v then Some v else None)"

text \<open>The value of \<open>strconv.Atoi\<close> or \<open>ParseInt(s, 10, 64)\<close> when its error is ignored: the nearest number that fits.\<close>

definition AtoiValue :: "string \<Rightarrow> int" where
  "AtoiValue s =
     (let neg = HasPrefix s ''-''; digits = (if neg \<or> HasPrefix s ''+'' then tl s else s);
          v = (if neg then - 1 else 1) * parse_uint 0 digits
      in if digits = [] \<or> \<not> list_all isDigit digits then 0
         else if v > 2 ^ 63 - 1 then 2 ^ 63 - 1 else if v < - (2 ^ 63) then - (2 ^ 63) else v)"

text \<open>\<open>fmt.Sscanf(s, "%d", &n)\<close> of a number that is 0: the longest number at the front, 0 without one.\<close>

definition Sscan_d :: "string \<Rightarrow> int" where
  "Sscan_d s =
     (let t = dropWhile (\<lambda>c. c = CHR 0x20 \<or> c = TAB) s;
          sign = (if HasPrefix t ''-'' \<or> HasPrefix t ''+'' then take 1 t else []);
          digits = takeWhile isDigit (drop (length sign) t)
      in case Atoi (sign @ digits) of None \<Rightarrow> 0 | Some v \<Rightarrow> v)"

section \<open>Paths\<close>

text \<open>\<open>filepath.Ext\<close>: from the last dot of the last element.\<close>

definition path_Ext :: "string \<Rightarrow> string" where
  "path_Ext p =
     (let name = rev (takeWhile (\<lambda>c. c \<noteq> CHR 0x2F) (rev p)) in
      if CHR 0x2E \<in> set name then CHR 0x2E # rev (takeWhile (\<lambda>c. c \<noteq> CHR 0x2E) (rev name)) else [])"

text \<open>\<open>filepath.Rel\<close>; None is its error.\<close>

definition relParts :: "string \<Rightarrow> string list" where
  "relParts p = (if p = slash then [[]] else if p = [] then [] else components p)"

definition path_Rel :: "string \<Rightarrow> string \<Rightarrow> string option" where
  "path_Rel basepath targpath =
     (let base = path_Clean basepath; targ = path_Clean targpath in
      if targ = base then Some ''.''
      else
        let base = (if base = ''.'' then [] else base) in
        if HasPrefix base slash \<noteq> HasPrefix targ slash then None
        else
          let b = relParts base; t = relParts targ; common = length (longest_common_prefix b t);
              up = drop common b; down = drop common t
          in if up \<noteq> [] \<and> hd up = ''..'' then None
             else Some (join_with slash (replicate (length up) ''..'' @ down)))"

lemma scanLines_examples:
  "scanLines (''a'' @ [CHR 0x0D, NL] @ ''b'' @ [NL]) = [''a'', ''b'']" "scanLines [] = []" "scanLines [NL] = [[]]"
  by code_simp+

lemma splitAt3_examples:
  "splitAt3 CHR 0x3A ''a.go:3:x: y'' = [''a.go'', ''3'', ''x: y'']" "splitAt3 CHR 0x3A ''a:b'' = [''a'', ''b'']"
  by code_simp+

lemma number_examples:
  "Atoi ''-12'' = Some (- 12)" "Atoi ''1x'' = None" "Atoi [] = None" "Sscan_d ''42x'' = 42" "Sscan_d ''x'' = 0"
  by code_simp+

lemma path_Ext_examples: "path_Ext ''a.b/c.tar.gz'' = ''.gz''" "path_Ext ''a.b/c'' = []" "path_Ext ''.go'' = ''.go''"
  by code_simp+

lemma path_Rel_examples:
  "path_Rel ''/w'' ''/w/a/b.go'' = Some ''a/b.go''" "path_Rel ''/w/x'' ''/w/a'' = Some ''../a''"
  "path_Rel ''/w'' ''/w'' = Some ''.''" "path_Rel ''/w'' ''a'' = None" "path_Rel ''/'' ''/a'' = Some ''a''" "path_Rel ''.'' ''a'' = Some ''a''"
  by code_simp+

end
