(* ===== verification/WorkspaceTools.thy ===== *)
theory WorkspaceTools
  imports WorkspacePaths GoLines
begin

text \<open>
  The tools of the agents on a workspace's files (\<open>apps/api/internal/tools/workspace.go\<close>): reading, writing
  and listing, the search, the patch, the shell command with its denylist, the test run, the inspection of a
  repository.

  Files are the model's file system; \<open>rg\<close>, \<open>git\<close> and \<open>sh\<close> are parameters that give the output and exit code of
  a command.  Arguments of a tool come decoded; None stands for JSON that does not decode.
\<close>

section \<open>Files\<close>

datatype tool_error =
    BadInput
  | Refused path_error
  | OsFailed os_error
  | DangerousQuery string
  | ForbiddenPattern string
  | PipeToShell
  | SystemDirectory string
  | PatchEmpty
  | MessageRequired
  | ToolFailed string

datatype read_result = FileNotFound string | FileContent string int int

definition lineCount :: "string \<Rightarrow> int" where
  "lineCount content = countChar NL content + (if content \<noteq> [] \<and> \<not> HasSuffix content [NL] then 1 else 0)"

definition tools_ReadFile :: "string list \<Rightarrow> files \<Rightarrow> string \<Rightarrow> string option \<Rightarrow> tool_error + read_result" where
  "tools_ReadFile dir fs workspacePath input =
     (case input of None \<Rightarrow> Inl BadInput
      | Some path \<Rightarrow>
        (case resolveWorkspacePath dir fs workspacePath path of Inl e \<Rightarrow> Inl (Refused e)
         | Inr filePath \<Rightarrow>
           (case ReadFileAt fs dir filePath of
              Inl NotExist \<Rightarrow> Inr (FileNotFound path)
            | Inl e \<Rightarrow> Inl (OsFailed e)
            | Inr content \<Rightarrow> Inr (FileContent content (int (length content)) (lineCount content)))))"

definition tools_WriteFile ::
  "string list \<Rightarrow> string \<Rightarrow> (string \<times> string) option \<Rightarrow> files \<Rightarrow> (tool_error + int) \<times> files" where
  "tools_WriteFile dir workspacePath input fs =
     (case input of None \<Rightarrow> (Inl BadInput, fs)
      | Some (path, content) \<Rightarrow>
        (case resolveWorkspacePath dir fs workspacePath path of Inl e \<Rightarrow> (Inl (Refused e), fs)
         | Inr filePath \<Rightarrow>
           (case writeWithParents dir filePath content fs of
              (Some e, fs1) \<Rightarrow> (Inl (OsFailed e), fs1)
            | (None, fs1) \<Rightarrow> (Inr (int (length content)), fs1))))"

record DirEntry =
  de_Name :: string
  de_Type :: string
  de_Size :: int

text \<open>\<open>sz\<close> gives the size of an entry that is not a directory.\<close>

definition dirEntry :: "(entry \<Rightarrow> int) \<Rightarrow> string \<times> entry \<Rightarrow> DirEntry" where
  "dirEntry sz e =
     (if snd e = Directory then \<lparr>de_Name = fst e, de_Type = ''directory'', de_Size = 0\<rparr>
      else \<lparr>de_Name = fst e, de_Type = ''file'', de_Size = sz (snd e)\<rparr>)"

definition tools_ListDirectory ::
  "(entry \<Rightarrow> int) \<Rightarrow> string list \<Rightarrow> files \<Rightarrow> string \<Rightarrow> string option \<Rightarrow> tool_error + DirEntry list \<times> string \<times> int" where
  "tools_ListDirectory sz dir fs workspacePath input =
     (case input of None \<Rightarrow> Inl BadInput
      | Some path0 \<Rightarrow>
        let path = (if path0 = [] then ''.'' else path0) in
        case resolveWorkspacePath dir fs workspacePath path of Inl e \<Rightarrow> Inl (Refused e)
        | Inr dirPath \<Rightarrow>
          (case ReadDirAt fs dir dirPath of
             Inl e \<Rightarrow> Inl (OsFailed e)
           | Inr entries \<Rightarrow> Inr (map (dirEntry sz) entries, path, int (length entries))))"

section \<open>Search\<close>

definition isDangerousQuery :: "string \<Rightarrow> bool" where
  "isDangerousQuery query = ContainsChar query CHR 0x00"

definition isLiteralQuery :: "string \<Rightarrow> bool" where
  "isLiteralQuery query = (\<not> list_ex (\<lambda>c. Contains query [c]) (''.*+?^$()[]{}|'' @ [CHR 0x5C]))"

text \<open>The command line: \<open>rg\<close> when it is installed, else \<open>grep\<close>.\<close>

definition searchArgs :: "bool \<Rightarrow> string \<Rightarrow> string \<Rightarrow> string \<Rightarrow> string list" where
  "searchArgs ripgrep query glob searchPath =
     (if ripgrep then
        [''rg'', ''--line-number'', ''--no-heading'', ''--with-filename'', ''--color=never'']
        @ (if glob = [] then [] else [''--glob'', glob])
        @ (if isLiteralQuery query then [''--fixed-strings''] else [])
        @ [query, searchPath]
      else
        [''grep'', ''-r'', ''-n'', ''-H'', ''--color=never'']
        @ (if glob = [] then [] else [''--include'', glob])
        @ [query, searchPath])"

record SearchResult =
  sr_File :: string
  sr_Line :: int
  sr_Content :: string

definition searchLine :: "string \<Rightarrow> string \<Rightarrow> SearchResult option" where
  "searchLine workspacePath line =
     (case splitAt3 CHR 0x3A line of
        [f, n, content] \<Rightarrow>
          Some \<lparr>sr_File = (case path_Rel workspacePath f of Some r \<Rightarrow> if r = [] then f else r | None \<Rightarrow> f),
                sr_Line = Sscan_d n, sr_Content = content\<rparr>
      | _ \<Rightarrow> None)"

text \<open>How a command ended: its exit code, or that it could not be run.\<close>

datatype ended = Exit int | NotRun

definition tools_SearchFiles ::
  "(string list \<Rightarrow> string \<times> ended) \<Rightarrow> bool \<Rightarrow> string list \<Rightarrow> files \<Rightarrow> string \<Rightarrow> (string \<times> string \<times> string) option \<Rightarrow>
   tool_error + SearchResult list" where
  "tools_SearchFiles exec ripgrep dir fs workspacePath input =
     (case input of None \<Rightarrow> Inl BadInput
      | Some (query, path, glob) \<Rightarrow>
        (case resolveWorkspacePath dir fs workspacePath path of Inl e \<Rightarrow> Inl (Refused e)
         | Inr searchPath \<Rightarrow>
           if isDangerousQuery query then Inl (DangerousQuery query)
           else
             (case exec (searchArgs ripgrep query glob searchPath) of
                (out, Exit c) \<Rightarrow>
                  if c = 1 then Inr []
                  else if c \<noteq> 0 then Inl (ToolFailed out)
                  else Inr (List.map_filter (searchLine workspacePath) (scanLines out))
              | (out, NotRun) \<Rightarrow> Inl (ToolFailed out))))"

section \<open>Patches, differences and commits\<close>

definition patchFile :: "string \<Rightarrow> string option" where
  "patchFile line =
     (if HasPrefix line ''--- a/'' \<or> HasPrefix line ''+++ b/''
      then let f = TrimPrefix (TrimPrefix line ''--- a/'') ''+++ b/'' in if f = ''/dev/null'' then None else Some f
      else None)"

text \<open>Each file once, where it is seen first.\<close>

definition extractFilesFromPatch :: "string \<Rightarrow> string list" where
  "extractFilesFromPatch patch = fold (\<lambda>f files. if f \<in> set files then files else files @ [f])
     (List.map_filter patchFile (scanLines patch)) []"

definition statFile :: "string \<Rightarrow> string option" where
  "statFile line0 =
     (let line = TrimSpace line0 in
      if line = [] \<or> Contains line ''files changed'' then None
      else let f = TrimSpace (hd (split_on CHR 0x7C line)) in
        if f \<noteq> [] \<and> \<not> Contains f ''...'' then Some f else None)"

definition parseGitDiffStat :: "string \<Rightarrow> string list \<times> int \<times> int" where
  "parseGitDiffStat stat = (List.map_filter statFile (scanLines stat), 0, 0)"

datatype patch_result = PatchRejected string | PatchFailed string | Patched "string list" string

text \<open>\<open>git\<close> runs in the workspace; \<open>temp\<close> is the path of the temporary patch file.\<close>

definition tools_ApplyPatch ::
  "(string list \<Rightarrow> string \<times> ended) \<Rightarrow> (string \<Rightarrow> string \<Rightarrow> os_error option) \<Rightarrow> string \<Rightarrow> string \<Rightarrow> string option \<Rightarrow>
   tool_error + patch_result" where
  "tools_ApplyPatch exec save temp workspacePath input =
     (case input of None \<Rightarrow> Inl BadInput
      | Some patch \<Rightarrow>
        if TrimSpace patch = [] then Inl PatchEmpty
        else
          (case save temp patch of Some e \<Rightarrow> Inl (OsFailed e)
           | None \<Rightarrow>
             (case exec [''git'', ''-C'', workspacePath, ''apply'', ''--check'', temp] of
                (out, r) \<Rightarrow>
                  if r \<noteq> Exit 0 then Inr (PatchRejected out)
                  else
                    (case exec [''git'', ''-C'', workspacePath, ''apply'', temp] of
                       (out, r) \<Rightarrow>
                         if r \<noteq> Exit 0 then Inr (PatchFailed out)
                         else Inr (Patched (extractFilesFromPatch patch) (TrimSpace out))))))"

definition tools_GetGitDiff ::
  "(string list \<Rightarrow> string \<times> ended) \<Rightarrow> string \<Rightarrow> tool_error + string \<times> string list \<times> int \<times> int" where
  "tools_GetGitDiff exec workspacePath =
     (case exec [''git'', ''-C'', workspacePath, ''diff'', ''--stat''] of
        (stat, r) \<Rightarrow>
          if r \<noteq> Exit 0 then Inl (ToolFailed ''git diff --stat'')
          else
            (case exec [''git'', ''-C'', workspacePath, ''diff''] of
               (diff, r) \<Rightarrow>
                 if r \<noteq> Exit 0 then Inl (ToolFailed ''git diff'') else Inr (diff, parseGitDiffStat stat)))"

datatype commit_result = AddFailed string | CommitFailed string | Committed string string

definition tools_CreateCommit ::
  "(string list \<Rightarrow> string \<times> ended) \<Rightarrow> string \<Rightarrow> string option \<Rightarrow> tool_error + commit_result" where
  "tools_CreateCommit exec workspacePath input =
     (case input of None \<Rightarrow> Inl BadInput
      | Some message \<Rightarrow>
        if TrimSpace message = [] then Inl MessageRequired
        else
          (case exec [''git'', ''-C'', workspacePath, ''add'', ''-A''] of
             (out, r) \<Rightarrow>
               if r \<noteq> Exit 0 then Inr (AddFailed out)
               else
                 (case exec [''git'', ''-C'', workspacePath, ''commit'', ''-m'', message] of
                    (out, r) \<Rightarrow>
                      if r \<noteq> Exit 0 then Inr (CommitFailed out)
                      else
                        (case exec [''git'', ''-C'', workspacePath, ''rev-parse'', ''HEAD''] of
                           (commit, r) \<Rightarrow> Inr (Committed (if r = Exit 0 then TrimSpace commit else []) (TrimSpace out))))))"

section \<open>Commands\<close>

definition deniedPatterns :: "string list" where
  "deniedPatterns =
     [''rm -rf /'', ''rm -rf /*'', ''rm -rf ~'', ''dd if=/dev/zero'', ''mkfs'', ''mke2fs'', ''mkfs.ext'', ''mkfs.btrfs'',
      ''> /dev/sda'', ''> /dev/hda'', ''> /dev/nvme'', '':(){ :|:& };:'', ''sudo '', ''su -'', ''su root'', ''passwd'',
      ''ssh-keygen -f /etc/ssh'', ''curl | sh'', ''curl | bash'', ''wget | sh'', ''wget | bash'', ''curl.*|.*sh'',
      ''wget.*|.*bash'']"

definition systemDirectories :: "string list" where
  "systemDirectories =
     [''cd /etc'', ''cd /var'', ''cd /usr'', ''cd /home'', ''cd /root'', ''cd /sys'', ''cd /proc'', ''cd /dev'']"

definition matchesPipeToShell :: "string \<Rightarrow> bool" where
  "matchesPipeToShell cmd =
     ((Contains cmd ''curl'' \<or> Contains cmd ''wget'') \<and>
      (Contains cmd ''| sh'' \<or> Contains cmd ''| bash'' \<or> Contains cmd ''| /bin/sh''))"

definition isDangerousCommand :: "(string \<Rightarrow> string) \<Rightarrow> string \<Rightarrow> tool_error option" where
  "isDangerousCommand ulower cmd =
     (let low = ToLower ulower cmd in
      case find (\<lambda>p. Contains low (ToLower ulower p)) deniedPatterns of
        Some p \<Rightarrow> Some (ForbiddenPattern p)
      | None \<Rightarrow>
        if matchesPipeToShell low then Some PipeToShell
        else if Contains low ''cd /'' \<and> \<not> Contains low ''cd /workspace'' \<and> \<not> Contains low ''cd /app''
        then map_option SystemDirectory (find (Contains low) systemDirectories)
        else None)"

text \<open>Bytes, so a cut may fall inside a character.\<close>

definition truncateString :: "string \<Rightarrow> int \<Rightarrow> string" where
  "truncateString s maxLen =
     (if int (length s) \<le> maxLen then s else take (nat maxLen) s @ [NL] @ ''... [output truncated]'')"

definition commandTimeout :: "int \<Rightarrow> int \<Rightarrow> int" where
  "commandTimeout unset requested =
     (let t = (if requested \<le> 0 then unset else requested) in if t > 600 then 600 else t)"

definition toolOutputLimit :: int where
  "toolOutputLimit = 50000"

text \<open>
  What the shell gives for a directory, a command and a time limit in seconds: output, errors, how it ended, and
  the milliseconds it took; None when it cannot be started.
\<close>

type_synonym shell = "string \<Rightarrow> string \<Rightarrow> int \<Rightarrow> (string \<times> string \<times> ended \<times> int) option"

definition exitCode :: "ended \<Rightarrow> int" where
  "exitCode e = (case e of Exit c \<Rightarrow> c | NotRun \<Rightarrow> - 1)"

record CommandOutput =
  co_Stdout :: string
  co_Stderr :: string
  co_ExitCode :: int
  co_DurationMs :: int

definition tools_RunCommand ::
  "(string \<Rightarrow> string) \<Rightarrow> shell \<Rightarrow> string \<Rightarrow> (string \<times> int) option \<Rightarrow> tool_error + CommandOutput" where
  "tools_RunCommand ulower sh workspacePath input =
     (case input of None \<Rightarrow> Inl BadInput
      | Some (command, timeout) \<Rightarrow>
        (case isDangerousCommand ulower command of Some e \<Rightarrow> Inl e
         | None \<Rightarrow>
           (case sh workspacePath command (commandTimeout 120 timeout) of
              None \<Rightarrow> Inl (ToolFailed ''start command'')
            | Some (out, err, r, ms) \<Rightarrow>
              Inr \<lparr>co_Stdout = truncateString out toolOutputLimit, co_Stderr = truncateString err toolOutputLimit,
                   co_ExitCode = exitCode r, co_DurationMs = ms\<rparr>)))"

section \<open>What is in a repository\<close>

definition detectLanguage :: "(string \<Rightarrow> string) \<Rightarrow> string \<Rightarrow> string" where
  "detectLanguage ulower filename =
     (if filename = ''Gemfile'' then ''Ruby''
      else let ext = ToLower ulower (path_Ext filename) in
        if ext = ''.go'' then ''Go''
        else if ext \<in> {''.js'', ''.jsx''} then ''JavaScript''
        else if ext \<in> {''.ts'', ''.tsx''} then ''TypeScript''
        else if ext = ''.py'' then ''Python''
        else if ext = ''.java'' then ''Java''
        else if ext = ''.rb'' then ''Ruby''
        else if ext = ''.rs'' then ''Rust''
        else if ext \<in> {''.c'', ''.h''} then ''C''
        else if ext \<in> {''.cpp'', ''.cc'', ''.hpp''} then ''C++''
        else if ext = ''.cs'' then ''C#''
        else if ext = ''.php'' then ''PHP''
        else if ext = ''.swift'' then ''Swift''
        else if ext = ''.kt'' then ''Kotlin''
        else if ext = ''.scala'' then ''Scala''
        else if ext = ''.r'' then ''R''
        else if ext = ''.m'' then ''Objective-C''
        else if ext = ''.sh'' then ''Shell''
        else if ext = ''.sql'' then ''SQL''
        else if ext \<in> {''.html'', ''.htm''} then ''HTML''
        else if ext \<in> {''.css'', ''.scss'', ''.sass'', ''.less''} then ''CSS''
        else if ext = ''.json'' then ''JSON''
        else if ext \<in> {''.xml'', ''.yaml'', ''.yml'', ''.toml''} then ''Config''
        else if ext \<in> {''.md'', ''.markdown''} then ''Markdown''
        else if ext = ''.dockerfile'' then ''Dockerfile''
        else if HasSuffix filename ''Dockerfile'' then ''Dockerfile'' else [])"

text \<open>\<open>os.Stat\<close> and \<open>os.Lstat\<close> of a path.\<close>

definition fileExists :: "string list \<Rightarrow> files \<Rightarrow> string \<Rightarrow> bool" where
  "fileExists dir fs p = (case place False fs dir p of Inl _ \<Rightarrow> False | Inr q \<Rightarrow> entryAt fs q \<noteq> None)"

definition Lstat :: "string list \<Rightarrow> files \<Rightarrow> string \<Rightarrow> (string list \<times> entry) option" where
  "Lstat dir fs p =
     (let cs = components p in
      if \<not> plainName (last cs) then
        (case place False fs dir p of Inl _ \<Rightarrow> None | Inr q \<Rightarrow> map_option (Pair q) (entryAt fs q))
      else
        (case namei False fs kernelLinks (startOf dir p) (butlast cs) of Inl _ \<Rightarrow> None
         | Inr q \<Rightarrow> if entryAt fs q \<noteq> Some Directory then None else map_option (Pair (q @ [last cs])) (entryAt fs (q @ [last cs]))))"

definition inspectSkips :: "string \<Rightarrow> bool" where
  "inspectSkips name =
     ((HasPrefix name ''.'' \<and> name \<noteq> ''.'') \<or>
      name \<in> {''node_modules'', ''vendor'', ''dist'', ''build'', ''tmp'', ''bin''})"

text \<open>
  \<open>filepath.WalkDir\<close> from a directory at \<open>start\<close>: the places it comes to, those under a skipped directory left out.
\<close>

definition walked :: "files \<Rightarrow> string list \<Rightarrow> string list list" where
  "walked fs start =
     filter (\<lambda>q. strict_prefix start q \<and>
        list_all (\<lambda>r. strict_prefix start r \<longrightarrow> entryAt fs r = Some Directory \<and> \<not> inspectSkips (last r)) (butlast (prefixes q)))
       (remdups (map fst fs))"

definition countFileStats ::
  "(string \<Rightarrow> string) \<Rightarrow> string list \<Rightarrow> files \<Rightarrow> string \<Rightarrow> int \<times> int \<times> (string \<Rightarrow> int)" where
  "countFileStats ulower dir fs root =
     (let languages = (\<lambda>names lang. if lang = [] then 0 else int (length (filter (\<lambda>n. detectLanguage ulower n = lang) names))) in
      case Lstat dir fs root of
        None \<Rightarrow> (0, 0, languages [])
      | Some (start, Directory) \<Rightarrow>
          if inspectSkips (path_Base root) then (0, 0, languages [])
          else
            let reached = walked fs start;
                fileNames = map last (filter (\<lambda>q. entryAt fs q \<noteq> Some Directory) reached);
                openDirs = filter (\<lambda>q. entryAt fs q = Some Directory \<and> \<not> inspectSkips (last q)) reached
            in (int (length fileNames), 1 + int (length openDirs), languages fileNames)
      | Some (start, _) \<Rightarrow> (1, 0, languages [path_Base root]))"

text \<open>Go ranges over a map in any order; \<open>order\<close> is the one of the run.\<close>

definition packageFiles :: "(string \<times> string) list" where
  "packageFiles =
     [(''go.mod'', ''go''), (''package.json'', ''npm''), (''yarn.lock'', ''yarn''), (''pnpm-lock.yaml'', ''pnpm''),
      (''Cargo.toml'', ''cargo''), (''requirements.txt'', ''pip''), (''pyproject.toml'', ''poetry''), (''Pipfile'', ''pipenv''),
      (''Gemfile'', ''bundler''), (''pom.xml'', ''maven''), (''build.gradle'', ''gradle''), (''composer.json'', ''composer'')]"

definition detectPackageManager :: "(string \<times> string) list \<Rightarrow> string list \<Rightarrow> files \<Rightarrow> string \<Rightarrow> string" where
  "detectPackageManager order dir fs workspacePath =
     (case find (\<lambda>(f, _). fileExists dir fs (path_Join workspacePath f)) order of
        Some (_, manager) \<Rightarrow> manager | None \<Rightarrow> ''unknown'')"

definition firstNamed :: "(string \<times> string) list \<Rightarrow> string \<Rightarrow> string option" where
  "firstNamed names content = map_option snd (find (\<lambda>(n, _). Contains content n) names)"

definition detectFramework :: "string list \<Rightarrow> files \<Rightarrow> string \<Rightarrow> string" where
  "detectFramework dir fs workspacePath =
     (let named = (\<lambda>f names. case ReadFileAt fs dir (path_Join workspacePath f) of
            Inl _ \<Rightarrow> None | Inr content \<Rightarrow> firstNamed names content) in
      case named ''go.mod'' [(''chi'', ''chi''), (''echo'', ''echo''), (''gin'', ''gin''), (''fiber'', ''fiber''),
             (''gorilla'', ''gorilla/mux'')] of
        Some f \<Rightarrow> f
      | None \<Rightarrow>
        (case named ''package.json'' [(''next'', ''next''), (''react'', ''react''), (''vue'', ''vue''), (''svelte'', ''svelte''),
               (''angular'', ''angular''), (''express'', ''express'')] of
           Some f \<Rightarrow> f | None \<Rightarrow> []))"

definition keyFilePatterns :: "string list" where
  "keyFilePatterns = [''go.mod'', ''go.sum'', ''package.json'', ''Dockerfile'', ''docker-compose.yml'', ''Makefile'',
     ''README.md'', ''.gitignore'', ''.github/workflows'']"

text \<open>
  \<open>filepath.Glob\<close>: a pattern without special characters is the path itself; \<open>gl\<close> gives the matches of others (the
  path of the workspace may have such characters).
\<close>

definition path_Glob :: "(string \<Rightarrow> string list) \<Rightarrow> string list \<Rightarrow> files \<Rightarrow> string \<Rightarrow> string list" where
  "path_Glob gl dir fs pattern =
     (if list_ex (\<lambda>c. c \<in> set (''*?['' @ [CHR 0x5C])) pattern then gl pattern
      else if Lstat dir fs pattern \<noteq> None then [pattern] else [])"

definition findKeyFiles :: "(string \<Rightarrow> string list) \<Rightarrow> string list \<Rightarrow> files \<Rightarrow> string \<Rightarrow> string list" where
  "findKeyFiles gl dir fs workspacePath =
     concat (map (\<lambda>pattern. map (\<lambda>m. case path_Rel workspacePath m of Some r \<Rightarrow> r | None \<Rightarrow> [])
       (path_Glob gl dir fs (path_Join workspacePath pattern))) keyFilePatterns)"

record RepoInspection =
  ri_Root :: string
  ri_TotalFiles :: int
  ri_TotalDirs :: int
  ri_Languages :: "string \<Rightarrow> int"
  ri_PackageManager :: string
  ri_Framework :: string
  ri_KeyFiles :: "string list"

definition tools_InspectRepo ::
  "(string \<Rightarrow> string) \<Rightarrow> (string \<times> string) list \<Rightarrow> (string \<Rightarrow> string list) \<Rightarrow> string list \<Rightarrow> files \<Rightarrow> string \<Rightarrow> RepoInspection" where
  "tools_InspectRepo ulower order gl dir fs workspacePath =
     (let (nfiles, ndirs, languages) = countFileStats ulower dir fs workspacePath in
      \<lparr>ri_Root = workspacePath, ri_TotalFiles = nfiles, ri_TotalDirs = ndirs, ri_Languages = languages,
       ri_PackageManager = detectPackageManager order dir fs workspacePath,
       ri_Framework = detectFramework dir fs workspacePath, ri_KeyFiles = findKeyFiles gl dir fs workspacePath\<rparr>)"

section \<open>Tests\<close>

definition detectTestCommand :: "string list \<Rightarrow> files \<Rightarrow> string \<Rightarrow> string" where
  "detectTestCommand dir fs workspacePath =
     (case find (\<lambda>(f, _). fileExists dir fs (path_Join workspacePath f))
        [(''go.mod'', ''go test ./...''), (''package.json'', ''npm test''), (''Cargo.toml'', ''cargo test''),
         (''requirements.txt'', ''python -m pytest''), (''pyproject.toml'', ''pytest''), (''pom.xml'', ''mvn test''),
         (''build.gradle'', ''./gradlew test'')] of
        Some (_, c) \<Rightarrow> c | None \<Rightarrow> ''echo '' @ [CHR 0x27] @ ''No test command detected'' @ [CHR 0x27])"

definition countLine :: "(string \<Rightarrow> string) \<Rightarrow> string \<Rightarrow> int \<times> int \<times> int \<Rightarrow> int \<times> int \<times> int" where
  "countLine ulower line0 counts =
     (let line = ToLower ulower line0; (total, failed, skipped) = counts in
      (if HasPrefix line ''ok '' \<or> HasPrefix line ''fail '' then total + 1 else total,
       if Contains line ''--- fail:'' then failed + 1 else failed,
       if Contains line ''--- skip:'' then skipped + 1 else skipped))"

definition parseTestCounts :: "(string \<Rightarrow> string) \<Rightarrow> string \<Rightarrow> int \<times> int \<times> int" where
  "parseTestCounts ulower output = fold (countLine ulower) (split_on NL output) (0, 0, 0)"

record TestOutput =
  to_Passed :: bool
  to_Counts :: "int \<times> int \<times> int"
  to_Output :: string
  to_ExitCode :: int
  to_DurationMs :: int

text \<open>Output and errors come together here, and a command that cannot be started is a failed run.\<close>

definition tools_RunTests ::
  "(string \<Rightarrow> string) \<Rightarrow> (string \<Rightarrow> string \<Rightarrow> int \<Rightarrow> string \<times> ended \<times> int) \<Rightarrow> string list \<Rightarrow> files \<Rightarrow> string \<Rightarrow>
   (string \<times> int) option \<Rightarrow> tool_error + TestOutput" where
  "tools_RunTests ulower sh dir fs workspacePath input =
     (case input of None \<Rightarrow> Inl BadInput
      | Some (command, timeout) \<Rightarrow>
        let testCommand = (if command = [] then detectTestCommand dir fs workspacePath else command) in
        case isDangerousCommand ulower testCommand of Some e \<Rightarrow> Inl e
        | None \<Rightarrow>
          let (output, r, ms) = sh workspacePath testCommand (commandTimeout 300 timeout);
              outputStr = truncateString output toolOutputLimit
          in Inr \<lparr>to_Passed = (exitCode r = 0), to_Counts = parseTestCounts ulower outputStr, to_Output = outputStr,
                  to_ExitCode = exitCode r, to_DurationMs = ms\<rparr>)"

section \<open>Properties\<close>

lemma tools_WriteFile_gated:
  "snd (tools_WriteFile dir ws (Some (path, content)) fs) = snd (gatedWrite (resolveWorkspacePath dir) dir ws path content fs)"
  by (auto simp: tools_WriteFile_def gatedWrite_def split: sum.split option.split prod.split)

lemma tools_ReadFile_gated:
  "tools_ReadFile dir fs ws (Some path) = Inr (FileContent content n k) \<Longrightarrow>
   gatedRead (resolveWorkspacePath dir) dir ws path fs = Inr content"
  by (auto simp: tools_ReadFile_def gatedRead_def split: sum.splits os_error.splits)

definition sampleFiles :: files where
  "sampleFiles =
     [([''w''], Directory), ([''w'', ''a''], File ''x''), ([''w'', ''out''], Link ''/etc''), ([''etc''], Directory),
      ([''etc'', ''key''], File ''secret'')]"

text \<open>
  C33. Whatever links there are in the file system, what read_file gives an agent is the content of a file at a
  place below the workspace; a path through a link that leads out of it gives nothing.\<close>

theorem read_file_inside:
  assumes "IsAbs ws" "list_all placeName dir"
    and "tools_ReadFile dir fs ws (Some path) = Inr (FileContent content n k)"
  shows "\<exists>q. prefix (rootOf ws) q \<and> entryAt fs q = Some (File content)"
  using toolPaths.read_below [OF _ tools_ReadFile_gated [OF assms(3)]] assms(1,2) by blast

theorem read_file_inside_witness:
  "(\<exists>q. prefix (rootOf ''/w'') q \<and> entryAt sampleFiles q = Some (File ''x'')) \<and>
   tools_ReadFile [] sampleFiles ''/w'' (Some ''out/key'') = Inl (Refused (Traversal ''out/key''))"
proof
  show "\<exists>q. prefix (rootOf ''/w'') q \<and> entryAt sampleFiles q = Some (File ''x'')"
  proof (rule read_file_inside)
    show "IsAbs ''/w''" "list_all placeName []" by code_simp+
    show "tools_ReadFile [] sampleFiles ''/w'' (Some ''a'') = Inr (FileContent ''x'' 1 1)" by code_simp
  qed
  show "tools_ReadFile [] sampleFiles ''/w'' (Some ''out/key'') = Inl (Refused (Traversal ''out/key''))" by code_simp
qed

text \<open>
  C34. In a workspace without links, any sequence of write_file calls, whatever paths they name, leaves everything
  outside the workspace as it was and the workspace without links.\<close>

theorem write_file_inside:
  assumes "IsAbs ws" "list_all placeName dir" "plainDir fs (rootOf ws)"
    and "fs1 = fold (\<lambda>input fs. snd (tools_WriteFile dir ws (Some input) fs)) inputs fs" "\<not> prefix (rootOf ws) q"
  shows "entryAt fs1 q = entryAt fs q \<and> plainDir fs1 (rootOf ws)"
proof -
  have "fold (\<lambda>input fs. snd (tools_WriteFile dir ws (Some input) fs)) inputs fs =
      fold (\<lambda>(req, data) fs. snd (gatedWrite (resolveWorkspacePath dir) dir ws req data fs)) inputs fs"
    by (rule fold_cong) (auto simp: tools_WriteFile_gated)
  with toolPaths.writes_below [of ws dir fs dir inputs] assms show "entryAt fs1 q = entryAt fs q \<and> plainDir fs1 (rootOf ws)"
    by (simp_all add: changesBelow_def)
qed

lemma sample_plain: "plainDir [([''w''], Directory), ([''etc''], Directory)] (rootOf ''/w'')"
proof -
  have "rootOf ''/w'' = [''w'']" by code_simp
  then show ?thesis by (auto simp: plainDir_def entryAt_def prefix_Cons)
qed

theorem write_file_inside_witness:
  "entryAt (fold (\<lambda>input fs. snd (tools_WriteFile [] ''/w'' (Some input) fs)) [(''a/b'', ''x''), (''../etc/y'', ''z'')]
     [([''w''], Directory), ([''etc''], Directory)]) [''etc'', ''y''] = None"
proof -
  have "\<not> prefix (rootOf ''/w'') [''etc'', ''y'']" by code_simp
  moreover have "IsAbs ''/w''" "list_all placeName []" by code_simp+
  ultimately have "entryAt (fold (\<lambda>input fs. snd (tools_WriteFile [] ''/w'' (Some input) fs)) [(''a/b'', ''x''), (''../etc/y'', ''z'')]
      [([''w''], Directory), ([''etc''], Directory)]) [''etc'', ''y''] =
    entryAt [([''w''], Directory), ([''etc''], Directory)] [''etc'', ''y'']"
    using write_file_inside [OF _ _ sample_plain refl] by blast
  then show ?thesis by (simp add: entryAt_def)
qed

text \<open>
  The gap: where the workspace has a link to a directory outside, write_file of a new file behind the link is
  not refused, and the file is made outside.  The check cannot resolve a path that does not exist yet and
  compares its text instead (the comment says that it resolves the parent).\<close>

theorem write_file_through_link:
  assumes "linkedDir fs ws l t n" "list_all placeName dir"
  shows "tools_WriteFile dir ws (Some (joinTwo l n, content)) fs =
     (Inr (int (length content)), putEntry (namesOf t @ [n]) (File content) fs)"
  using gates_open(1) [OF assms(1), of dir] written_behind_link [OF assms(1), of dir content]
  by (simp add: tools_WriteFile_def)

lemma sample_linked: "linkedDir sampleFiles ''/w'' ''out'' ''/etc'' ''cron''"
proof -
  have names: "namesOf ''/w'' = [''w'']" "namesOf ''/etc'' = [''etc'']" by code_simp+
  have "realDir sampleFiles [''w'']" "realDir sampleFiles [''etc'']"
    by (auto simp: realDir_def entryAt_def sampleFiles_def prefix_Cons)
  moreover have "absPath ''/w''" "absPath ''/etc''" "placeName ''out''" "placeName ''cron''" by code_simp+
  ultimately show ?thesis by (simp add: linkedDir_def names entryAt_def sampleFiles_def)
qed

theorem write_file_through_link_witness:
  "entryAt (snd (tools_WriteFile [] ''/w'' (Some (''out/cron'', ''x'')) sampleFiles)) [''etc'', ''cron''] = Some (File ''x'')"
proof -
  have "namesOf ''/etc'' = [''etc'']" "joinTwo ''out'' ''cron'' = ''out/cron''" by code_simp+
  with write_file_through_link [OF sample_linked, of "[]" "''x''"] show ?thesis by (simp add: entryAt_put)
qed

lemma denied_found: "isDangerousCommand ulower cmd = None \<Longrightarrow> p \<in> set deniedPatterns \<Longrightarrow> \<not> Contains (ToLower ulower cmd) (ToLower ulower p)"
  by (auto simp: isDangerousCommand_def Let_def find_None_iff split: option.splits)

lemma truncateString_length: "0 \<le> m \<Longrightarrow> int (length (truncateString s m)) \<le> m + 24"
  by (auto simp: truncateString_def)

lemma commandTimeout_range: "0 < d \<Longrightarrow> d \<le> 600 \<Longrightarrow> 0 < commandTimeout d t \<and> commandTimeout d t \<le> 600"
  by (auto simp: commandTimeout_def Let_def)

text \<open>
  A command that is run has been through the denylist, its time is limited to ten minutes, and what an
  agent gets of its output is bounded.\<close>

theorem run_command_bounds:
  assumes "tools_RunCommand ulower sh ws (Some (cmd, timeout)) = Inr out"
  shows "0 < commandTimeout 120 timeout \<and> commandTimeout 120 timeout \<le> 600 \<and>
     sh ws cmd (commandTimeout 120 timeout) \<noteq> None \<and>
     list_all (\<lambda>p. \<not> Contains (ToLower ulower cmd) (ToLower ulower p)) deniedPatterns \<and>
     int (length (co_Stdout out)) \<le> 50024 \<and> int (length (co_Stderr out)) \<le> 50024"
proof -
  from assms have d: "isDangerousCommand ulower cmd = None"
    and r: "(case sh ws cmd (commandTimeout 120 timeout) of
              None \<Rightarrow> Inl (ToolFailed ''start command'')
            | Some (out, err, r, ms) \<Rightarrow>
              Inr \<lparr>co_Stdout = truncateString out toolOutputLimit, co_Stderr = truncateString err toolOutputLimit,
                   co_ExitCode = exitCode r, co_DurationMs = ms\<rparr>) = Inr out"
    by (auto simp: tools_RunCommand_def split: option.splits)
  obtain o1 e1 r1 ms where s: "sh ws cmd (commandTimeout 120 timeout) = Some (o1, e1, r1, ms)"
    using r by (cases "sh ws cmd (commandTimeout 120 timeout)") auto
  with r have out: "co_Stdout out = truncateString o1 toolOutputLimit" "co_Stderr out = truncateString e1 toolOutputLimit" by auto
  show ?thesis
    using commandTimeout_range [of 120 timeout] denied_found [OF d] s
      truncateString_length [of toolOutputLimit o1] truncateString_length [of toolOutputLimit e1]
    unfolding out list_all_iff toolOutputLimit_def by simp
qed

theorem run_command_bounds_witness:
  "list_all (\<lambda>p. \<not> Contains (ToLower (\<lambda>s. s) ''go vet'') (ToLower (\<lambda>s. s) p)) deniedPatterns"
proof -
  have "tools_RunCommand (\<lambda>s. s) (\<lambda>_ _ _. Some ([], [], Exit 0, 5)) ''/w'' (Some (''go vet'', 0)) =
      Inr \<lparr>co_Stdout = [], co_Stderr = [], co_ExitCode = 0, co_DurationMs = 5\<rparr>" by code_simp
  from run_command_bounds [OF this] show ?thesis by blast
qed

text \<open>
  Where the summaries of a tool differ from what the command said: a difference of one file lists the line
  with the total as a file; a failed package is not counted in the total of a test run; the denylist takes
  a directory below a workspace for the root, and lets a command into a system directory when it also names
  the workspace; the package manager depends on the order of a map.\<close>

theorem tool_summary_gaps:
  "parseGitDiffStat ('' a.go | 2 +-'' @ [NL] @ '' 1 file changed, 1 insertion(+)'' @ [NL]) =
     ([''a.go'', ''1 file changed, 1 insertion(+)''], 0, 0)"
  "parseTestCounts (\<lambda>s. s) (''--- FAIL: TestA (0.00s)'' @ [NL] @ ''FAIL'' @ [TAB] @ ''example.com/a'' @ [TAB] @ ''0.1s'') = (0, 1, 0)"
  "isDangerousCommand (\<lambda>s. s) ''rm -rf /workspace/build'' = Some (ForbiddenPattern ''rm -rf /'')"
  "isDangerousCommand (\<lambda>s. s) ''cd /workspace; cd /etc'' = None"
  "detectPackageManager packageFiles [] [([''package.json''], File []), ([''yarn.lock''], File [])] ''/'' = ''npm''"
  "detectPackageManager (rev packageFiles) [] [([''package.json''], File []), ([''yarn.lock''], File [])] ''/'' = ''yarn''"
  by code_simp+

end
