(* ===== verification/Runtimes.thy ===== *)
theory Runtimes
  imports WorkspacePaths GoLines GoFloat TaskHandlers Verifier
begin

text \<open>
  The runtimes of workspaces (\<open>packages/runtimes\<close>): which commands may run (\<open>command.go\<close>), the runtime on the
  host (\<open>local.go\<close>), the one in containers (\<open>docker.go\<close>), what a command is on its way to a remote runner
  (\<open>client.go\<close>).

  Programs that are run, \<open>git\<close>, \<open>docker\<close> and \<open>sh\<close>, are a parameter: what comes out of a command line.  Every
  command line is kept in a log, so that a property can speak of all that were run.
\<close>

section \<open>Commands\<close>

datatype cmd_error =
    ArgsEmpty
  | NotAllowed string
  | ArgMetacharacter string string
  | CommandMetacharacter string

definition allowedCommandNames :: "string list" where
  "allowedCommandNames =
     [''git'', ''go'', ''npm'', ''yarn'', ''pnpm'', ''node'', ''python'', ''python3'', ''pytest'', ''make'', ''cargo'',
      ''rustc'', ''rg'', ''grep'', ''cat'', ''ls'', ''pwd'', ''sleep'', ''find'', ''sed'', ''head'', ''tail'', ''wc'',
      ''echo'', ''test'', ''['']"

definition dangerousShellMetacharacters :: "string list" where
  "dangerousShellMetacharacters =
     ['';'', ''|'', ''&'', ''$'', [CHR 0x60], [CHR 0x5C], ''>'', ''<'', ''('', '')'', ''{'', ''}'', ''*'', ''?'']"

definition ValidateCommandArgs :: "string list \<Rightarrow> cmd_error option" where
  "ValidateCommandArgs args =
     (case args of
        [] \<Rightarrow> Some ArgsEmpty
      | name # rest \<Rightarrow>
        if name \<notin> set allowedCommandNames then Some (NotAllowed name)
        else first_err (\<lambda>arg. map_option (ArgMetacharacter arg) (find (Contains arg) dangerousShellMetacharacters)) rest)"

definition ParseCommandString :: "string \<Rightarrow> cmd_error + string list" where
  "ParseCommandString s =
     (case find (Contains s) dangerousShellMetacharacters of
        Some c \<Rightarrow> Inl (CommandMetacharacter c)
      | None \<Rightarrow>
        let args = Fields s in case ValidateCommandArgs args of Some e \<Rightarrow> Inl e | None \<Rightarrow> Inr args)"

text \<open>
  How a command is run: its arguments as they are, or a shell on its text.  The local and the Docker runtime make
  the same choice.
\<close>

datatype runtime_failure =
    SessionNotFound string
  | SessionNotReady string
  | CommandTimedOut duration
  | InvalidArgs cmd_error
  | InvalidCommand cmd_error
  | BadPath path_error
  | HostError os_error
  | RunFailed string string
  | CloneURLRequired
  | SnapshotRequired
  | SessionRequired
  | RunnerURLRequired
  | UnsupportedRuntime string

definition commandLine :: "Command \<Rightarrow> runtime_failure + string list" where
  "commandLine cmd =
     (if cd_Args cmd \<noteq> [] then
        (case ValidateCommandArgs (cd_Args cmd) of Some e \<Rightarrow> Inl (InvalidArgs e) | None \<Rightarrow> Inr (cd_Args cmd))
      else if cd_UnsafeShell cmd then Inr [''sh'', ''-c'', cd_Command cmd]
      else (case ParseCommandString (cd_Command cmd) of
          Inl e \<Rightarrow> Inl (InvalidCommand e) | Inr _ \<Rightarrow> Inr [''sh'', ''-c'', cd_Command cmd]))"

definition defaultCommandTimeout :: duration where
  "defaultCommandTimeout = 60000000000"

definition effectiveTimeout :: "Command \<Rightarrow> duration" where
  "effectiveTimeout cmd = (if cd_Timeout cmd = 0 then defaultCommandTimeout else cd_Timeout cmd)"

text \<open>
  What a program run gives: an exit status, -1 when a signal ended it, or an error without one.  \<open>rd_Late\<close> tells
  whether the time limit had passed at the end; a command that is killed for it has the status -1.
\<close>

datatype ran_end = Exited int | NotStarted string

record Ran =
  rd_Stdout :: string
  rd_Stderr :: string
  rd_End :: ran_end
  rd_Late :: bool
  rd_Duration :: duration

definition ranOK :: "Ran \<Rightarrow> bool" where
  "ranOK r = (rd_End r = Exited 0)"

record Snapshot =
  sn_ID :: string
  sn_SessionID :: string
  sn_GitCommit :: string
  sn_CreatedAt :: int

record SessionStatus =
  st_SessionID :: string
  st_Status :: string
  st_PID :: int
  st_CPUUsage :: f64
  st_MemoryUsage :: int
  st_DiskUsage :: int
  st_LastActive :: int

section \<open>The local runtime\<close>

record LocalSession =
  ls_id :: string
  ls_workspaceID :: string
  ls_worktreePath :: string
  ls_status :: string
  ls_createdAt :: int

text \<open>A program that was run on the host: its command line, directory and input.\<close>

record HostRun =
  hr_argv :: "string list"
  hr_dir :: string
  hr_env :: "(string \<times> string) list"
  hr_stdin :: string

record Host =
  ho_files :: files
  ho_baseDir :: string
  ho_sessions :: "string \<rightharpoonup> LocalSession"
  ho_log :: "HostRun list"
  ho_n :: nat

text \<open>
  \<open>ht_run\<close> may change the files; \<open>ht_env\<close> gives the variables of a command in the order of the run.  The number is
  that of the call.
\<close>

record HostEnv =
  ht_dir :: "string list"
  ht_run :: "nat \<Rightarrow> HostRun \<Rightarrow> files \<Rightarrow> Ran \<times> files"
  ht_now :: "nat \<Rightarrow> int"
  ht_env :: "(string \<rightharpoonup> string) \<Rightarrow> (string \<times> string) list"

type_synonym 'a hstep = "(Host, runtime_failure, 'a) gostep"

definition hostRun :: "HostEnv \<Rightarrow> HostRun \<Rightarrow> Ran hstep" where
  "hostRun he r s =
     (case ht_run he (ho_n s) r (ho_files s) of
        (out, fs1) \<Rightarrow> (Inr out, s\<lparr>ho_files := fs1, ho_log := ho_log s @ [r], ho_n := Suc (ho_n s)\<rparr>))"

definition hostNow :: "HostEnv \<Rightarrow> int hstep" where
  "hostNow he s = (Inr (ht_now he (ho_n s)), s\<lparr>ho_n := Suc (ho_n s)\<rparr>)"

text \<open>A command whose failure, of any kind, is the failure of the call.\<close>

definition hostMust :: "HostEnv \<Rightarrow> string \<Rightarrow> string list \<Rightarrow> string \<Rightarrow> unit hstep" where
  "hostMust he what argv input =
     bindE (hostRun he \<lparr>hr_argv = argv, hr_dir = [], hr_env = [], hr_stdin = input\<rparr>) (\<lambda>r.
       guardE (\<not> ranOK r) (RunFailed what (rd_Stdout r @ rd_Stderr r)))"

definition hostFiles :: "(files \<Rightarrow> os_error option \<times> files) \<Rightarrow> unit hstep" where
  "hostFiles f s =
     (case f (ho_files s) of
        (Some e, fs1) \<Rightarrow> (Inl (HostError e), s\<lparr>ho_files := fs1\<rparr>)
      | (None, fs1) \<Rightarrow> (Inr (), s\<lparr>ho_files := fs1\<rparr>))"

definition MkdirAllPath :: "string list \<Rightarrow> string \<Rightarrow> files \<Rightarrow> os_error option \<times> files" where
  "MkdirAllPath dir p fs = MkdirAll (startOf dir p) (components p) fs"

text \<open>\<open>os.RemoveAll\<close>: the last element of the path is not followed; what does not exist is no error.\<close>

definition RemoveAllPath :: "string list \<Rightarrow> string \<Rightarrow> files \<Rightarrow> os_error option \<times> files" where
  "RemoveAllPath dir p fs =
     (if \<not> plainName (last (components p)) then (Some Exists, fs)
      else (case namei False fs kernelLinks (startOf dir p) (butlast (components p)) of
          Inl NotExist \<Rightarrow> (None, fs)
        | Inl e \<Rightarrow> (Some e, fs)
        | Inr q \<Rightarrow> (None, filter (\<lambda>(r, _). \<not> prefix (q @ [last (components p)]) r) fs)))"

definition path_Join3 :: "string \<Rightarrow> string \<Rightarrow> string \<Rightarrow> string" where
  "path_Join3 a b c =
     (let parts = filter (\<lambda>x. x \<noteq> []) [a, b, c] in if parts = [] then [] else path_Clean (join_with slash parts))"

definition generateSessionID :: "int \<Rightarrow> string" where
  "generateSessionID now = ''local-'' @ FormatUint now"

definition localSession :: "string \<Rightarrow> LocalSession hstep" where
  "localSession sessionID s =
     (case ho_sessions s sessionID of None \<Rightarrow> (Inl (SessionNotFound sessionID), s) | Some x \<Rightarrow> (Inr x, s))"

definition Local_CreateWorkspace :: "HostEnv \<Rightarrow> CreateRequest \<Rightarrow> RuntimeSession hstep" where
  "Local_CreateWorkspace he req =
     bindE (hostNow he) (\<lambda>now0. \<lambda>s.
       let sessionID = generateSessionID now0;
           worktreePath = path_Join3 (ho_baseDir s) sessionID (cw_WorktreeName req);
           repoDir = path_Join3 (ho_baseDir s) sessionID ''repo''
       in bindE (hostFiles (MkdirAllPath (ht_dir he) worktreePath)) (\<lambda>_.
          bindE (hostMust he ''git clone'' [''git'', ''clone'', cw_CloneURL req, repoDir] []) (\<lambda>_.
          bindE (hostMust he ''git worktree add''
            [''git'', ''-C'', repoDir, ''worktree'', ''add'', ''-B'', cw_Branch req, worktreePath, cw_BaseBranch req] []) (\<lambda>_.
          bindE (hostNow he) (\<lambda>now1. \<lambda>t.
            (Inr \<lparr>rs_ID = sessionID, rs_WorkspaceID = cw_RepositoryID req, rs_Status = ''ready'', rs_PreviewURL = [],
                  rs_Provider = ''local'', rs_WorktreePath = worktreePath, rs_CreatedAt = now1\<rparr>,
             t\<lparr>ho_sessions := (ho_sessions t)(sessionID \<mapsto>
                \<lparr>ls_id = sessionID, ls_workspaceID = cw_RepositoryID req, ls_worktreePath = worktreePath,
                 ls_status = ''ready'', ls_createdAt = now1\<rparr>)\<rparr>))))) s)"

definition Local_DestroyWorkspace :: "HostEnv \<Rightarrow> string \<Rightarrow> unit hstep" where
  "Local_DestroyWorkspace he sessionID =
     bindE (localSession sessionID) (\<lambda>_ s.
       hostFiles (RemoveAllPath (ht_dir he) (path_Join (ho_baseDir s) sessionID))
         (s\<lparr>ho_sessions := (ho_sessions s)(sessionID := None)\<rparr>))"

definition setRunning :: "string \<Rightarrow> Host \<Rightarrow> Host" where
  "setRunning sessionID s =
     s\<lparr>ho_sessions := (ho_sessions s)(sessionID := map_option (ls_status_update (\<lambda>_. ''running'')) (ho_sessions s sessionID))\<rparr>"

definition Local_ExecuteCommand :: "HostEnv \<Rightarrow> string \<Rightarrow> Command \<Rightarrow> CommandResult hstep" where
  "Local_ExecuteCommand he sessionID cmd =
     bindE (localSession sessionID) (\<lambda>sess.
     bindE (guardE (ls_status sess \<noteq> ''ready'' \<and> ls_status sess \<noteq> ''running'') (SessionNotReady (ls_status sess))) (\<lambda>_.
       let dir = (if cd_Dir cmd \<noteq> [] then path_Join (ls_worktreePath sess) (cd_Dir cmd) else ls_worktreePath sess);
           timeout = effectiveTimeout cmd
       in case commandLine cmd of Inl e \<Rightarrow> failE e
       | Inr argv \<Rightarrow>
         bindE (hostRun he \<lparr>hr_argv = argv, hr_dir = dir, hr_env = ht_env he (cd_Env cmd), hr_stdin = []\<rparr>) (\<lambda>r.
           let exitCode = (case rd_End r of Exited c \<Rightarrow> c | NotStarted _ \<Rightarrow> 0) in
           if rd_Late r \<and> (case rd_End r of NotStarted _ \<Rightarrow> True | Exited _ \<Rightarrow> False) then failE (CommandTimedOut timeout)
           else (\<lambda>s. (Inr \<lparr>cs_Stdout = rd_Stdout r, cs_Stderr = rd_Stderr r, cs_ExitCode = exitCode,
                   cs_Duration = rd_Duration r\<rparr>, setRunning sessionID s)))))"

definition Local_ReadFile :: "HostEnv \<Rightarrow> string \<Rightarrow> string \<Rightarrow> string hstep" where
  "Local_ReadFile he sessionID p =
     bindE (localSession sessionID) (\<lambda>sess s.
       (case gatedRead localTarget (ht_dir he) (ls_worktreePath sess) p (ho_files s) of
          Inl e \<Rightarrow> Inl (BadPath e) | Inr data \<Rightarrow> Inr data, s))"

definition Local_WriteFile :: "HostEnv \<Rightarrow> string \<Rightarrow> string \<Rightarrow> string \<Rightarrow> unit hstep" where
  "Local_WriteFile he sessionID p data =
     bindE (localSession sessionID) (\<lambda>sess s.
       (case gatedWrite localTarget (ht_dir he) (ls_worktreePath sess) p data (ho_files s) of
          (Some e, fs1) \<Rightarrow> (Inl (BadPath e), s\<lparr>ho_files := fs1\<rparr>)
        | (None, fs1) \<Rightarrow> (Inr (), s\<lparr>ho_files := fs1\<rparr>)))"

definition Local_ApplyPatch :: "HostEnv \<Rightarrow> string \<Rightarrow> string \<Rightarrow> unit hstep" where
  "Local_ApplyPatch he sessionID patch =
     bindE (localSession sessionID) (\<lambda>sess.
       hostMust he ''git apply'' [''git'', ''-C'', ls_worktreePath sess, ''apply'', ''-''] patch)"

text \<open>A snapshot is named after the second it is taken in; that name is not a commit.\<close>

definition Local_Snapshot :: "HostEnv \<Rightarrow> string \<Rightarrow> Snapshot hstep" where
  "Local_Snapshot he sessionID =
     bindE (localSession sessionID) (\<lambda>sess.
     bindE (hostMust he ''git add'' [''git'', ''-C'', ls_worktreePath sess, ''add'', ''-A''] []) (\<lambda>_.
     bindE (hostNow he) (\<lambda>now.
       let commitHash = ''snapshot-'' @ FormatUint (now div 1000000000) in
     bindE (hostMust he ''git commit''
       [''git'', ''-C'', ls_worktreePath sess, ''commit'', ''-m'', ''snapshot: '' @ commitHash, ''--allow-empty''] []) (\<lambda>_.
     bindE (hostNow he) (\<lambda>now1.
       retE \<lparr>sn_ID = commitHash, sn_SessionID = sessionID, sn_GitCommit = commitHash, sn_CreatedAt = now1\<rparr>)))))"

definition Local_Restore :: "HostEnv \<Rightarrow> string \<Rightarrow> Snapshot \<Rightarrow> unit hstep" where
  "Local_Restore he sessionID snap =
     bindE (localSession sessionID) (\<lambda>sess.
       hostMust he ''git reset'' [''git'', ''-C'', ls_worktreePath sess, ''reset'', ''--hard'', sn_GitCommit snap] [])"

definition Local_GetStatus :: "HostEnv \<Rightarrow> string \<Rightarrow> SessionStatus hstep" where
  "Local_GetStatus he sessionID =
     bindE (localSession sessionID) (\<lambda>sess.
     bindE (hostNow he) (\<lambda>now.
       retE \<lparr>st_SessionID = sessionID, st_Status = ls_status sess, st_PID = 0, st_CPUUsage = f64_zero,
             st_MemoryUsage = 0, st_DiskUsage = 0, st_LastActive = now\<rparr>))"

section \<open>On the way to a remote runner\<close>

text \<open>The request of a command is its JSON, in which \<open>unsafe_shell\<close> has no field.\<close>

definition remoteCommand :: "Command \<Rightarrow> Command" where
  "remoteCommand cmd = cmd\<lparr>cd_UnsafeShell := False\<rparr>"

datatype provider_kind = LocalKind | DockerKind | RemoteKind string

definition NewProvider :: "(string \<Rightarrow> string) \<Rightarrow> string \<Rightarrow> string \<Rightarrow> runtime_failure + provider_kind \<times> string" where
  "NewProvider ulower name runnerURL =
     (let n = ToLower ulower name in
      if n = ''local'' then Inr (LocalKind, ''local'')
      else if n = ''docker'' then Inr (DockerKind, ''docker'')
      else if n = ''remote'' then if runnerURL = [] then Inl RunnerURLRequired else Inr (RemoteKind runnerURL, ''remote'')
      else Inl (UnsupportedRuntime name))"

section \<open>Properties\<close>

lemma localSession_Some: "ho_sessions s sid = Some x \<Longrightarrow> localSession sid s = (Inr x, s)"
  by (simp add: localSession_def)

lemma bindE_step: "m s = (Inr x, t) \<Longrightarrow> bindE m k s = k x t"
  by (simp add: bindE_def)

lemma ValidateCommandArgs_None:
  "ValidateCommandArgs args = None \<longleftrightarrow>
     (\<exists>name rest. args = name # rest \<and> name \<in> set allowedCommandNames \<and>
        (\<forall>arg \<in> set rest. \<forall>c \<in> set dangerousShellMetacharacters. \<not> Contains arg c))"
  by (cases args) (auto simp: ValidateCommandArgs_def first_err_None find_None_iff)

definition withoutMeta :: "string \<Rightarrow> bool" where
  "withoutMeta s = list_all (\<lambda>c. \<not> Contains s c) dangerousShellMetacharacters"

lemma ParseCommandString_Inr:
  "ParseCommandString s = Inr args \<Longrightarrow> withoutMeta s \<and> args = Fields s \<and> ValidateCommandArgs args = None"
  by (auto simp: ParseCommandString_def Let_def withoutMeta_def list_all_iff find_None_iff split: option.splits)

text \<open>
  C35. What a runtime runs for a caller that does not ask for a raw shell: a program of the allow-list with arguments
  free of shell metacharacters, or a shell on a text that is free of them and begins with such a program.\<close>

theorem command_line_checked:
  assumes "commandLine cmd = Inr argv" "\<not> cd_UnsafeShell cmd"
  shows "hd argv \<in> set allowedCommandNames \<and> list_all withoutMeta (tl argv) \<or>
     argv = [''sh'', ''-c'', cd_Command cmd] \<and> withoutMeta (cd_Command cmd) \<and>
       hd (Fields (cd_Command cmd)) \<in> set allowedCommandNames"
proof (cases "cd_Args cmd = []")
  case True
  with assms obtain args where a: "argv = [''sh'', ''-c'', cd_Command cmd]" "ParseCommandString (cd_Command cmd) = Inr args"
    by (auto simp: commandLine_def split: sum.splits)
  from ParseCommandString_Inr [OF this(2)] have "withoutMeta (cd_Command cmd)" "args = Fields (cd_Command cmd)"
    and "ValidateCommandArgs args = None" by auto
  with a(1) show ?thesis by (auto simp: ValidateCommandArgs_None)
next
  case False
  with assms have "argv = cd_Args cmd" "ValidateCommandArgs (cd_Args cmd) = None"
    by (auto simp: commandLine_def split: option.splits)
  then show ?thesis by (auto simp: ValidateCommandArgs_None withoutMeta_def list_all_iff)
qed

definition plainCommand :: "string \<Rightarrow> string list \<Rightarrow> string \<Rightarrow> Command" where
  "plainCommand text args dir =
     \<lparr>cd_Command = text, cd_Args = args, cd_Dir = dir, cd_Env = (\<lambda>_. None), cd_Timeout = 0, cd_UnsafeShell = False\<rparr>"

theorem command_line_checked_witness:
  "commandLine (plainCommand [] [''go'', ''vet''] []) = Inr [''go'', ''vet''] \<and> withoutMeta ''vet'' \<and>
   commandLine (plainCommand ''ls | sh'' [] []) = Inl (InvalidCommand (CommandMetacharacter ''|''))"
proof -
  have c: "commandLine (plainCommand [] [''go'', ''vet''] []) = Inr [''go'', ''vet'']"
    "commandLine (plainCommand ''ls | sh'' [] []) = Inl (InvalidCommand (CommandMetacharacter ''|''))" by code_simp+
  have "\<not> cd_UnsafeShell (plainCommand [] [''go'', ''vet''] [])" by (simp add: plainCommand_def)
  from command_line_checked [OF c(1) this] have "withoutMeta ''vet''" by simp
  with c show ?thesis by blast
qed

text \<open>
  The gaps of the check: a line break ends a command of the shell and is not a metacharacter, so a second
  command runs that no list allows; and a raw shell that a trusted caller asks for is lost on the way to a
  remote runner, which then rejects the command.\<close>

theorem command_check_gaps:
  "commandLine (plainCommand (''ls'' @ [NL] @ ''rm -r x'') [] []) = Inr [''sh'', ''-c'', ''ls'' @ [NL] @ ''rm -r x'']"
  "commandLine ((plainCommand ''go test && go vet'' [] [])\<lparr>cd_UnsafeShell := True\<rparr>) = Inr [''sh'', ''-c'', ''go test && go vet'']"
  "commandLine (remoteCommand ((plainCommand ''go test && go vet'' [] [])\<lparr>cd_UnsafeShell := True\<rparr>)) =
     Inl (InvalidCommand (CommandMetacharacter ''&''))"
  by code_simp+

text \<open>
  A command that the local runtime cannot start (its program is not installed, its directory is missing) is
  reported as a success with exit code 0, so a verification gate that runs it passes.\<close>

theorem unstarted_command_passes:
  assumes "ho_sessions s sid = Some sess" "ls_status sess = ''ready'' \<or> ls_status sess = ''running''"
    and "commandLine cmd = Inr argv"
    and "\<And>r. rd_End (fst (ht_run he (ho_n s) r (ho_files s))) = NotStarted e \<and> \<not> rd_Late (fst (ht_run he (ho_n s) r (ho_files s)))"
  shows "\<exists>out t. Local_ExecuteCommand he sid cmd s = (Inr out, t) \<and> cs_ExitCode out = 0 \<and> gatePassed (Some out, None)"
proof -
  define dir where "dir = (if cd_Dir cmd \<noteq> [] then path_Join (ls_worktreePath sess) (cd_Dir cmd) else ls_worktreePath sess)"
  define r where "r = \<lparr>hr_argv = argv, hr_dir = dir, hr_env = ht_env he (cd_Env cmd), hr_stdin = []\<rparr>"
  obtain out fs1 where run: "ht_run he (ho_n s) r (ho_files s) = (out, fs1)" by fastforce
  with assms(4) [of r] have out: "rd_End out = NotStarted e" "\<not> rd_Late out" by auto
  have guard: "guardE (ls_status sess \<noteq> ''ready'' \<and> ls_status sess \<noteq> ''running'') (SessionNotReady (ls_status sess)) s = (Inr (), s)"
    using assms(2) by (auto simp: guardE_def)
  obtain t where "hostRun he r s = (Inr out, t)" using run by (simp add: hostRun_def)
  then have "Local_ExecuteCommand he sid cmd s =
      (Inr \<lparr>cs_Stdout = rd_Stdout out, cs_Stderr = rd_Stderr out, cs_ExitCode = 0, cs_Duration = rd_Duration out\<rparr>, setRunning sid t)"
    using out assms(2)
    by (auto simp: Local_ExecuteCommand_def bindE_def localSession_def assms(1,3) guardE_def Let_def simp flip: dir_def r_def)
  then show ?thesis by (simp add: gatePassed_def)
qed

definition sampleHost :: Host where
  "sampleHost =
     \<lparr>ho_files = [([''w''], Directory)], ho_baseDir = ''/w'',
      ho_sessions = [''local-1'' \<mapsto> \<lparr>ls_id = ''local-1'', ls_workspaceID = ''r'', ls_worktreePath = ''/w'', ls_status = ''ready'',
        ls_createdAt = 1\<rparr>], ho_log = [], ho_n = 0\<rparr>"

definition sampleHostEnv :: "ran_end \<Rightarrow> HostEnv" where
  "sampleHostEnv e =
     \<lparr>ht_dir = [], ht_run = (\<lambda>_ _ fs. (\<lparr>rd_Stdout = [], rd_Stderr = [], rd_End = e, rd_Late = False, rd_Duration = 1\<rparr>, fs)),
      ht_now = (\<lambda>n. 1700000000000000000 + int n), ht_env = (\<lambda>_. [])\<rparr>"

theorem unstarted_command_passes_witness:
  "\<exists>out t. Local_ExecuteCommand (sampleHostEnv (NotStarted ''not found'')) ''local-1'' (plainCommand [] [''pytest''] []) sampleHost = (Inr out, t) \<and>
     cs_ExitCode out = 0 \<and> gatePassed (Some out, None)"
proof (rule unstarted_command_passes)
  show "ho_sessions sampleHost ''local-1'' = Some \<lparr>ls_id = ''local-1'', ls_workspaceID = ''r'', ls_worktreePath = ''/w'',
      ls_status = ''ready'', ls_createdAt = 1\<rparr>" by (simp add: sampleHost_def)
  show "ls_status \<lparr>ls_id = ''local-1'', ls_workspaceID = ''r'', ls_worktreePath = ''/w'', ls_status = ''ready'', ls_createdAt = 1\<rparr> = ''ready'' \<or>
      ls_status \<lparr>ls_id = ''local-1'', ls_workspaceID = ''r'', ls_worktreePath = ''/w'', ls_status = ''ready'', ls_createdAt = 1\<rparr> = ''running''" by simp
  show "commandLine (plainCommand [] [''pytest''] []) = Inr [''pytest'']" by code_simp
  show "rd_End (fst (ht_run (sampleHostEnv (NotStarted ''not found'')) (ho_n sampleHost) r (ho_files sampleHost))) = NotStarted ''not found'' \<and>
      \<not> rd_Late (fst (ht_run (sampleHostEnv (NotStarted ''not found'')) (ho_n sampleHost) r (ho_files sampleHost)))" for r
    by (simp add: sampleHostEnv_def)
qed

text \<open>What the local runtime writes and reads in a worktree without links stays in it.\<close>

lemma Local_WriteFile_inside:
  assumes "Local_WriteFile he sid p data s = (r, t)" "ho_sessions s sid = Some sess" "IsAbs (ls_worktreePath sess)"
  shows "changesBelow (rootOf (ls_worktreePath sess)) (ho_files s) (ho_files t)"
proof -
  obtain e fs1 where w: "gatedWrite localTarget (ht_dir he) (ls_worktreePath sess) p data (ho_files s) = (e, fs1)" by fastforce
  with assms(1) have "ho_files t = fs1"
    by (cases e) (auto simp: Local_WriteFile_def bindE_def localSession_def assms(2))
  with localPaths.write_below [OF assms(3), of "ho_files s" "ht_dir he" p data] w show ?thesis by simp
qed

text \<open>
  The text that a local snapshot gives as its commit is only in the message of the commit that was made: \<open>Restore\<close>
  resets to a name that no command has given to anything.
\<close>

lemma hostMust_Inr:
  assumes "hostMust he what argv input s = (Inr u, t)"
  shows "map hr_argv (ho_log t) = map hr_argv (ho_log s) @ [argv] \<and> ho_sessions t = ho_sessions s"
proof -
  obtain r s1 where r: "hostRun he \<lparr>hr_argv = argv, hr_dir = [], hr_env = [], hr_stdin = input\<rparr> s = (Inr r, s1)" and "s1 = t"
    using assms unfolding hostMust_def bindE_Inr by auto
  then show ?thesis by (auto simp: hostRun_def split: prod.splits)
qed

lemma hostNow_Inr: "hostNow he s = (Inr n, t) \<Longrightarrow> ho_log t = ho_log s \<and> ho_sessions t = ho_sessions s"
  by (auto simp: hostNow_def)

lemma localSession_Inr: "localSession sid s = (Inr x, t) \<longleftrightarrow> ho_sessions s sid = Some x \<and> t = s"
  by (auto simp: localSession_def split: option.splits)

lemma local_snapshot_commit:
  assumes "Local_Snapshot he sid s = (Inr snap, t)"
  shows "\<exists>k sess. ho_sessions s sid = Some sess \<and> sn_GitCommit snap = ''snapshot-'' @ FormatUint k \<and>
     map hr_argv (ho_log t) = map hr_argv (ho_log s) @
       [[''git'', ''-C'', ls_worktreePath sess, ''add'', ''-A''],
        [''git'', ''-C'', ls_worktreePath sess, ''commit'', ''-m'', ''snapshot: '' @ sn_GitCommit snap, ''--allow-empty'']]"
  using assms unfolding Local_Snapshot_def Let_def bindE_Inr localSession_Inr
  by (fastforce dest!: hostMust_Inr hostNow_Inr)

end
