(* ===== verification/DockerRuntime.thy ===== *)
theory DockerRuntime
  imports Runtimes
begin

text \<open>
  The runtime in containers (\<open>packages/runtimes/docker.go\<close>).  All it does goes through the command runner, whose
  calls are kept in a log; what they give is a parameter.
\<close>

section \<open>The provider\<close>

definition defaultDockerImage :: string where "defaultDockerImage = ''alpine/git:latest''"
definition defaultDockerMemory :: string where "defaultDockerMemory = ''512m''"
definition defaultDockerCPUs :: string where "defaultDockerCPUs = ''1.0''"
definition defaultDockerPIDs :: string where "defaultDockerPIDs = ''256''"

record DockerSession =
  ds_id :: string
  ds_workspaceID :: string
  ds_container :: string
  ds_volume :: string
  ds_status :: string
  ds_createdAt :: int
  ds_lastActive :: int

record DockerProvider =
  dp_baseDir :: string
  dp_image :: string
  dp_memoryLimit :: string
  dp_cpuLimit :: string
  dp_pidsLimit :: string

text \<open>What the provider does to the host: programs with their input, and the directories of its staging area.\<close>

datatype DockerAct = DockerRan "string list" string | MadeDir string | RemovedDir string

record DockerWorld =
  dw_provider :: DockerProvider
  dw_sessions :: "string \<rightharpoonup> DockerSession"
  dw_log :: "DockerAct list"
  dw_n :: nat

record DockerEnv =
  de_run :: "nat \<Rightarrow> string list \<Rightarrow> string \<Rightarrow> Ran"
  de_mkdir :: "nat \<Rightarrow> string \<Rightarrow> os_error option"
  de_now :: "nat \<Rightarrow> int"
  de_env :: "(string \<rightharpoonup> string) \<Rightarrow> (string \<times> string) list"
  de_parseFloat :: "string \<Rightarrow> f64 \<times> bool"

type_synonym 'a dstep = "(DockerWorld, runtime_failure, 'a) gostep"

definition valueOrDefault :: "string \<Rightarrow> string \<Rightarrow> string" where
  "valueOrDefault v fallback = (if v = [] then fallback else v)"

text \<open>From the variables \<open>DOCKER_WORKSPACE_\<close>...; the base directory is that of \<open>EnsureTmpfsBaseDir\<close>.\<close>

definition NewDockerProvider :: "(string \<Rightarrow> string) \<Rightarrow> string \<Rightarrow> DockerProvider" where
  "NewDockerProvider getenv baseDir =
     \<lparr>dp_baseDir = baseDir,
      dp_image = valueOrDefault (getenv ''DOCKER_WORKSPACE_IMAGE'') defaultDockerImage,
      dp_memoryLimit = valueOrDefault (getenv ''DOCKER_WORKSPACE_MEMORY'') defaultDockerMemory,
      dp_cpuLimit = valueOrDefault (getenv ''DOCKER_WORKSPACE_CPUS'') defaultDockerCPUs,
      dp_pidsLimit = valueOrDefault (getenv ''DOCKER_WORKSPACE_PIDS'') defaultDockerPIDs\<rparr>"

definition dRunInput :: "DockerEnv \<Rightarrow> string list \<Rightarrow> string \<Rightarrow> Ran dstep" where
  "dRunInput de argv input s =
     (Inr (de_run de (dw_n s) argv input), s\<lparr>dw_log := dw_log s @ [DockerRan argv input], dw_n := Suc (dw_n s)\<rparr>)"

definition dRun :: "DockerEnv \<Rightarrow> string list \<Rightarrow> Ran dstep" where
  "dRun de argv = dRunInput de argv []"

definition dNow :: "DockerEnv \<Rightarrow> int dstep" where
  "dNow de s = (Inr (de_now de (dw_n s)), s\<lparr>dw_n := Suc (dw_n s)\<rparr>)"

definition dMustInput :: "DockerEnv \<Rightarrow> string \<Rightarrow> string list \<Rightarrow> string \<Rightarrow> Ran dstep" where
  "dMustInput de what argv input =
     bindE (dRunInput de argv input) (\<lambda>r. bindE (guardE (\<not> ranOK r) (RunFailed what (rd_Stderr r))) (\<lambda>_. retE r))"

definition dMust :: "DockerEnv \<Rightarrow> string \<Rightarrow> string list \<Rightarrow> Ran dstep" where
  "dMust de what argv = dMustInput de what argv []"

definition dMkdir :: "DockerEnv \<Rightarrow> string \<Rightarrow> unit dstep" where
  "dMkdir de p s =
     (case de_mkdir de (dw_n s) p of Some e \<Rightarrow> Inl (HostError e) | None \<Rightarrow> Inr (),
      s\<lparr>dw_log := dw_log s @ [MadeDir p], dw_n := Suc (dw_n s)\<rparr>)"

definition dRemoveAll :: "string \<Rightarrow> unit dstep" where
  "dRemoveAll p s = (Inr (), s\<lparr>dw_log := dw_log s @ [RemovedDir p]\<rparr>)"

definition dSession :: "string \<Rightarrow> DockerSession dstep" where
  "dSession sessionID s =
     (case dw_sessions s sessionID of None \<Rightarrow> (Inl (SessionNotFound sessionID), s) | Some x \<Rightarrow> (Inr x, s))"

definition setSession :: "string \<Rightarrow> DockerSession option \<Rightarrow> unit dstep" where
  "setSession sessionID x s = (Inr (), s\<lparr>dw_sessions := (dw_sessions s)(sessionID := x)\<rparr>)"

definition setSessionStatus :: "DockerEnv \<Rightarrow> string \<Rightarrow> string \<Rightarrow> unit dstep" where
  "setSessionStatus de sessionID status =
     bindE (dNow de) (\<lambda>now s.
       (Inr (), s\<lparr>dw_sessions := (dw_sessions s)(sessionID :=
          map_option (\<lambda>x. x\<lparr>ds_status := status, ds_lastActive := now\<rparr>) (dw_sessions s sessionID))\<rparr>))"

definition containerName :: "string \<Rightarrow> string" where
  "containerName sessionID = ''dev-plane-'' @ sessionID"

definition volumeName :: "string \<Rightarrow> string" where
  "volumeName sessionID = ''dev-plane-'' @ sessionID @ ''-workspace''"

definition newSession :: "string \<Rightarrow> string \<Rightarrow> int \<Rightarrow> DockerSession" where
  "newSession sessionID workspaceID now =
     \<lparr>ds_id = sessionID, ds_workspaceID = workspaceID, ds_container = containerName sessionID,
      ds_volume = volumeName sessionID, ds_status = ''ready'', ds_createdAt = now, ds_lastActive = now\<rparr>"

definition sessionView :: "string \<Rightarrow> string \<Rightarrow> string \<Rightarrow> int \<Rightarrow> RuntimeSession" where
  "sessionView sessionID workspaceID status created =
     \<lparr>rs_ID = sessionID, rs_WorkspaceID = workspaceID, rs_Status = status, rs_PreviewURL = [], rs_Provider = ''docker'',
      rs_WorktreePath = [], rs_CreatedAt = created\<rparr>"

section \<open>Life of a session\<close>

definition checkoutBranch :: "DockerEnv \<Rightarrow> string \<Rightarrow> CreateRequest \<Rightarrow> unit dstep" where
  "checkoutBranch de repoDir req =
     bindE (if cw_BaseBranch req = [] then retE ()
            else bindE (dMust de ''git checkout base branch'' [''git'', ''-C'', repoDir, ''checkout'', cw_BaseBranch req]) (\<lambda>_. retE ()))
       (\<lambda>_.
       if cw_Branch req = [] then retE ()
       else
         let base = (if cw_BaseBranch req \<noteq> [] then cw_BaseBranch req else ''HEAD'') in
         bindE (dMust de ''git checkout workspace branch'' [''git'', ''-C'', repoDir, ''checkout'', ''-B'', cw_Branch req, base])
           (\<lambda>_. retE ()))"

definition envArgs :: "(string \<times> string) list \<Rightarrow> string list" where
  "envArgs vars = concat (map (\<lambda>(k, v). [''-e'', k @ ''='' @ v]) vars)"

definition runArgs :: "DockerEnv \<Rightarrow> DockerProvider \<Rightarrow> string \<Rightarrow> CreateRequest \<Rightarrow> string list" where
  "runArgs de p sessionID req =
     [''docker'', ''run'', ''-d'', ''--name'', containerName sessionID,
      ''--label'', ''dev-plane.session='' @ sessionID,
      ''--network'', ''none'', ''--read-only'',
      ''--tmpfs'', ''/tmp:rw,nosuid,nodev,size=64m'',
      ''--mount'', ''type=volume,source='' @ volumeName sessionID @ '',target='' @ workspaceDir,
      ''--memory'', valueOrDefault (dp_memoryLimit p) defaultDockerMemory,
      ''--cpus'', valueOrDefault (dp_cpuLimit p) defaultDockerCPUs,
      ''--pids-limit'', valueOrDefault (dp_pidsLimit p) defaultDockerPIDs,
      ''--cap-drop'', ''ALL'', ''--security-opt'', ''no-new-privileges'',
      ''--workdir'', workspaceDir, ''--entrypoint'', ''sh'']
     @ envArgs (de_env de (cw_Env req)) @ [dp_image p, ''-c'', ''sleep infinity'']"

definition createSteps :: "DockerEnv \<Rightarrow> DockerProvider \<Rightarrow> string \<Rightarrow> CreateRequest \<Rightarrow> RuntimeSession dstep" where
  "createSteps de p sessionID req =
     (let container = containerName sessionID;
          stagingRepo = path_Join (path_Join (dp_baseDir p) sessionID) ''repo''
      in bindE (dMust de ''git clone'' [''git'', ''clone'', cw_CloneURL req, stagingRepo]) (\<lambda>_.
         bindE (checkoutBranch de stagingRepo req) (\<lambda>_.
         bindE (dMust de ''docker volume create'' [''docker'', ''volume'', ''create'', volumeName sessionID]) (\<lambda>_.
         bindE (dMust de ''docker run'' (runArgs de p sessionID req)) (\<lambda>_.
         bindE (dMust de ''docker mkdir workspace'' [''docker'', ''exec'', container, ''mkdir'', ''-p'', workspaceDir]) (\<lambda>_.
         bindE (dMust de ''docker copy workspace''
           [''docker'', ''cp'', stagingRepo @ slash @ ''.'', container @ '':'' @ workspaceDir @ slash]) (\<lambda>_.
         bindE (dNow de) (\<lambda>now.
         bindE (setSession sessionID (Some (newSession sessionID (cw_RepositoryID req) now))) (\<lambda>_.
         bindE (dRemoveAll stagingRepo) (\<lambda>_.
           retE (sessionView sessionID (cw_RepositoryID req) ''ready'' now)))))))))))"

text \<open>What has been made is taken away when a later step fails.\<close>

definition cleanup :: "DockerEnv \<Rightarrow> DockerProvider \<Rightarrow> string \<Rightarrow> unit dstep" where
  "cleanup de p sessionID =
     bindE (dRemoveAll (path_Join (dp_baseDir p) sessionID)) (\<lambda>_.
     bindE (dRun de [''docker'', ''rm'', ''-f'', containerName sessionID]) (\<lambda>_.
     bindE (dRun de [''docker'', ''volume'', ''rm'', ''-f'', volumeName sessionID]) (\<lambda>_. retE ())))"

definition undoOnError :: "unit dstep \<Rightarrow> 'a dstep \<Rightarrow> 'a dstep" where
  "undoOnError undo m s = (case m s of (Inl e, t) \<Rightarrow> (Inl e, snd (undo t)) | (Inr x, t) \<Rightarrow> (Inr x, t))"

definition Docker_CreateWorkspace :: "DockerEnv \<Rightarrow> CreateRequest \<Rightarrow> RuntimeSession dstep" where
  "Docker_CreateWorkspace de req =
     bindE (guardE (cw_CloneURL req = []) CloneURLRequired) (\<lambda>_.
     bindE (dNow de) (\<lambda>now s.
       let p = dw_provider s; sessionID = generateSessionID now
       in bindE (dMkdir de (path_Join (dp_baseDir p) sessionID)) (\<lambda>_.
            undoOnError (cleanup de p sessionID) (createSteps de p sessionID req)) s))"

definition Docker_DestroyWorkspace :: "DockerEnv \<Rightarrow> string \<Rightarrow> unit dstep" where
  "Docker_DestroyWorkspace de sessionID =
     bindE (dSession sessionID) (\<lambda>sess.
     bindE (dMust de ''docker rm'' [''docker'', ''rm'', ''-f'', ds_container sess]) (\<lambda>_.
     bindE (dMust de ''docker volume rm'' [''docker'', ''volume'', ''rm'', ''-f'', ds_volume sess]) (\<lambda>_ s.
       bindE (dRemoveAll (path_Join (dp_baseDir (dw_provider s)) sessionID)) (\<lambda>_. setSession sessionID None) s)))"

section \<open>Commands and files\<close>

definition liftPath :: "path_error + 'a \<Rightarrow> 'a dstep" where
  "liftPath r s = (map_sum BadPath id r, s)"

definition liftCommand :: "runtime_failure + 'a \<Rightarrow> 'a dstep" where
  "liftCommand r s = (r, s)"

definition Docker_ExecuteCommand :: "DockerEnv \<Rightarrow> string \<Rightarrow> Command \<Rightarrow> CommandResult dstep" where
  "Docker_ExecuteCommand de sessionID cmd =
     bindE (dSession sessionID) (\<lambda>sess.
     bindE (liftPath (dockerWorkdir (cd_Dir cmd))) (\<lambda>workdir.
     bindE (liftCommand (commandLine cmd)) (\<lambda>argv.
       let args = [''docker'', ''exec'', ''-w'', workdir] @ envArgs (de_env de (cd_Env cmd)) @ [ds_container sess] @ argv in
     bindE (setSessionStatus de sessionID ''running'') (\<lambda>_.
     bindE (dRun de args) (\<lambda>r.
     bindE (setSessionStatus de sessionID ''ready'') (\<lambda>_.
       if rd_Late r then failE (CommandTimedOut (effectiveTimeout cmd))
       else case rd_End r of
         NotStarted e \<Rightarrow> failE (RunFailed ''docker exec'' (rd_Stderr r))
       | Exited c \<Rightarrow> retE \<lparr>cs_Stdout = rd_Stdout r, cs_Stderr = rd_Stderr r, cs_ExitCode = c, cs_Duration = rd_Duration r\<rparr>))))))"

definition Docker_ReadFile :: "DockerEnv \<Rightarrow> string \<Rightarrow> string \<Rightarrow> string dstep" where
  "Docker_ReadFile de sessionID p =
     bindE (dSession sessionID) (\<lambda>sess.
     bindE (liftPath (dockerWorkspacePath p)) (\<lambda>target.
     bindE (dMust de ''docker read file''
       [''docker'', ''exec'', ds_container sess, ''sh'', ''-c'', ''cat -- '' @ [CHR 0x22] @ ''$1'' @ [CHR 0x22], ''sh'', target])
       (\<lambda>r. retE (rd_Stdout r))))"

definition Docker_WriteFile :: "DockerEnv \<Rightarrow> string \<Rightarrow> string \<Rightarrow> string \<Rightarrow> unit dstep" where
  "Docker_WriteFile de sessionID p data =
     bindE (dSession sessionID) (\<lambda>sess.
     bindE (liftPath (dockerWorkspacePath p)) (\<lambda>target.
     bindE (dMust de ''docker mkdir parent'' [''docker'', ''exec'', ds_container sess, ''mkdir'', ''-p'', pathDir target]) (\<lambda>_.
     bindE (dMustInput de ''docker write file''
       [''docker'', ''exec'', ''-i'', ds_container sess, ''sh'', ''-c'', ''cat > '' @ [CHR 0x22] @ ''$1'' @ [CHR 0x22], ''sh'', target] data)
       (\<lambda>_. retE ()))))"

definition Docker_ApplyPatch :: "DockerEnv \<Rightarrow> string \<Rightarrow> string \<Rightarrow> unit dstep" where
  "Docker_ApplyPatch de sessionID patch =
     bindE (dSession sessionID) (\<lambda>sess.
     bindE (dMustInput de ''docker git apply''
       [''docker'', ''exec'', ''-i'', ''-w'', workspaceDir, ds_container sess, ''git'', ''apply'', ''-''] patch) (\<lambda>_. retE ()))"

definition gitIn :: "DockerSession \<Rightarrow> string list \<Rightarrow> string list" where
  "gitIn sess args = [''docker'', ''exec'', ''-w'', workspaceDir, ds_container sess, ''git''] @ args"

definition Docker_Snapshot :: "DockerEnv \<Rightarrow> string \<Rightarrow> Snapshot dstep" where
  "Docker_Snapshot de sessionID =
     bindE (dSession sessionID) (\<lambda>sess.
     bindE (dMust de ''docker git add'' (gitIn sess [''add'', ''-A''])) (\<lambda>_.
     bindE (dMust de ''docker git commit''
       (gitIn sess [''-c'', ''user.email=dev-plane@example.invalid'', ''-c'', ''user.name=Dev Plane'', ''commit'',
          ''--allow-empty'', ''-m'', ''snapshot: '' @ sessionID])) (\<lambda>_.
     bindE (dMust de ''docker git rev-parse'' (gitIn sess [''rev-parse'', ''HEAD''])) (\<lambda>r.
     bindE (dNow de) (\<lambda>now.
       let commit = TrimSpace (rd_Stdout r) in
       retE \<lparr>sn_ID = commit, sn_SessionID = sessionID, sn_GitCommit = commit, sn_CreatedAt = now\<rparr>)))))"

definition Docker_Restore :: "DockerEnv \<Rightarrow> string \<Rightarrow> Snapshot option \<Rightarrow> unit dstep" where
  "Docker_Restore de sessionID snap =
     (case snap of None \<Rightarrow> failE SnapshotRequired
      | Some x \<Rightarrow>
        if sn_GitCommit x = [] then failE SnapshotRequired
        else bindE (dSession sessionID) (\<lambda>sess.
          bindE (dMust de ''docker git reset'' (gitIn sess [''reset'', ''--hard'', sn_GitCommit x])) (\<lambda>_. retE ())))"

section \<open>State of a container\<close>

definition dockerStatus :: "string \<Rightarrow> string \<Rightarrow> string" where
  "dockerStatus containerStatus sessionStatus =
     (if containerStatus = ''running'' then if sessionStatus = ''running'' then ''running'' else ''ready''
      else if containerStatus = ''created'' then ''pending''
      else if containerStatus = ''paused'' then ''stopped''
      else if containerStatus = ''exited'' \<or> containerStatus = ''dead'' \<or> containerStatus = ''removing'' then ''stopped''
      else ''error'')"

definition sizeUnits :: "(string \<times> int) list" where
  "sizeUnits =
     [(''TiB'', 2 ^ 40), (''GiB'', 2 ^ 30), (''MiB'', 2 ^ 20), (''KiB'', 2 ^ 10), (''TB'', 10 ^ 12), (''GB'', 10 ^ 9),
      (''MB'', 10 ^ 6), (''KB'', 10 ^ 3), (''B'', 1)]"

text \<open>The unit \<open>kB\<close>, which Docker prints, is none of these: its \<open>k\<close> is left to the number.\<close>

definition parseDockerSize :: "(string \<Rightarrow> f64 \<times> bool) \<Rightarrow> string \<Rightarrow> int" where
  "parseDockerSize parseFloat value0 =
     (let value = TrimSpace value0;
          (digits, multiplier) = (case find (\<lambda>(u, _). HasSuffix value u) sizeUnits of
             Some (u, m) \<Rightarrow> (TrimSuffix value u, m) | None \<Rightarrow> (value, 1));
          (n, bad) = parseFloat digits
      in if bad then 0 else f64_trunc (f64_mul n (f64_of_int multiplier)))"

definition memoryUsage :: "DockerEnv \<Rightarrow> string list \<Rightarrow> int" where
  "memoryUsage de parts =
     (if length parts < 2 then 0
      else case Fields (parts ! 1) of [] \<Rightarrow> 0 | m # _ \<Rightarrow> parseDockerSize (de_parseFloat de) m)"

definition containerUsage :: "DockerEnv \<Rightarrow> string \<Rightarrow> (f64 \<times> int \<times> int) dstep" where
  "containerUsage de container =
     bindE (dRun de [''docker'', ''stats'', ''--no-stream'', ''--format'', ''{{.CPUPerc}}'' @ [TAB] @ ''{{.MemUsage}}'', container]) (\<lambda>stats.
     bindE (dRun de [''docker'', ''inspect'', ''-f'', ''{{.SizeRw}}'', container]) (\<lambda>sz.
       let parts = split_on TAB (TrimSpace (rd_Stdout stats));
           cpu = (if ranOK stats then fst (de_parseFloat de (TrimSuffix (TrimSpace (hd parts)) ''%'')) else f64_zero);
           memory = (if ranOK stats then memoryUsage de parts else 0);
           disk0 = (if ranOK sz then AtoiValue (TrimSpace (rd_Stdout sz)) else 0)
       in if disk0 \<noteq> 0 then retE (cpu, memory, disk0)
          else
            bindE (dRun de [''docker'', ''inspect'', ''-f'', ''{{.GraphDriver.Data.WorkDir}}'', container]) (\<lambda>wd.
              let workDir = TrimSpace (rd_Stdout wd) in
              if \<not> ranOK wd \<or> workDir = [] then retE (cpu, memory, 0)
              else
                bindE (dRun de [''du'', ''-sb'', workDir]) (\<lambda>du.
                  retE (cpu, memory,
                    if \<not> ranOK du then 0 else (case Fields (rd_Stdout du) of [] \<Rightarrow> 0 | d # _ \<Rightarrow> AtoiValue d))))))"

definition Docker_GetStatus :: "DockerEnv \<Rightarrow> string \<Rightarrow> SessionStatus dstep" where
  "Docker_GetStatus de sessionID =
     bindE (dSession sessionID) (\<lambda>sess.
     bindE (dMust de ''docker inspect'' [''docker'', ''inspect'', ''-f'', ''{{.State.Status}} {{.State.Pid}}'', ds_container sess]) (\<lambda>r.
     bindE (containerUsage de (ds_container sess)) (\<lambda>(cpu, memory, disk).
       let fields = Fields (rd_Stdout r) in
       retE \<lparr>st_SessionID = sessionID,
             st_Status = (case fields of [] \<Rightarrow> ds_status sess | f # _ \<Rightarrow> dockerStatus f (ds_status sess)),
             st_PID = (case fields of _ # p # _ \<Rightarrow> AtoiValue p | _ \<Rightarrow> 0),
             st_CPUUsage = cpu, st_MemoryUsage = memory, st_DiskUsage = disk, st_LastActive = ds_lastActive sess\<rparr>)))"

text \<open>A session that another process made is taken over when its container is there.\<close>

definition AttachSession :: "DockerEnv \<Rightarrow> string \<Rightarrow> string \<Rightarrow> RuntimeSession dstep" where
  "AttachSession de sessionID workspaceID =
     bindE (guardE (sessionID = []) SessionRequired) (\<lambda>_.
     bindE (dNow de) (\<lambda>now s.
       (case dw_sessions s sessionID of
          Some x \<Rightarrow> (Inr (sessionView (ds_id x) (ds_workspaceID x) (ds_status x) (ds_createdAt x)), s)
        | None \<Rightarrow>
          (case bindE (setSession sessionID (Some (newSession sessionID workspaceID now)))
                  (\<lambda>_. Docker_GetStatus de sessionID) s of
             (Inl e, t) \<Rightarrow> (Inl e, t\<lparr>dw_sessions := (dw_sessions t)(sessionID := None)\<rparr>)
           | (Inr status, t) \<Rightarrow> (Inr (sessionView sessionID workspaceID (st_Status status) now), t)))))"

section \<open>Sequences of operations\<close>

datatype DockerOp =
    CreateOp CreateRequest
  | AttachOp string string
  | DestroyOp string
  | ExecuteOp string Command
  | ReadOp string string
  | WriteOp string string string
  | PatchOp string string
  | SnapshotOp string
  | RestoreOp string "Snapshot option"
  | StatusOp string

text \<open>What is left of a call when its result is not looked at.\<close>

definition dVoid :: "'a dstep \<Rightarrow> unit dstep" where
  "dVoid m = bindE m (\<lambda>_. retE ())"

fun dockerOp :: "DockerEnv \<Rightarrow> DockerOp \<Rightarrow> unit dstep" where
  "dockerOp de (CreateOp req) = dVoid (Docker_CreateWorkspace de req)"
| "dockerOp de (AttachOp sid ws) = dVoid (AttachSession de sid ws)"
| "dockerOp de (DestroyOp sid) = Docker_DestroyWorkspace de sid"
| "dockerOp de (ExecuteOp sid cmd) = dVoid (Docker_ExecuteCommand de sid cmd)"
| "dockerOp de (ReadOp sid p) = dVoid (Docker_ReadFile de sid p)"
| "dockerOp de (WriteOp sid p data) = Docker_WriteFile de sid p data"
| "dockerOp de (PatchOp sid patch) = Docker_ApplyPatch de sid patch"
| "dockerOp de (SnapshotOp sid) = dVoid (Docker_Snapshot de sid)"
| "dockerOp de (RestoreOp sid snap) = Docker_Restore de sid snap"
| "dockerOp de (StatusOp sid) = dVoid (Docker_GetStatus de sid)"

definition dockerOps :: "DockerEnv \<Rightarrow> DockerOp list \<Rightarrow> DockerWorld \<Rightarrow> DockerWorld" where
  "dockerOps de ops s = fold (\<lambda>op t. snd (dockerOp de op t)) ops s"

section \<open>Everything stays in the containers\<close>

definition insideWorkspace :: "string \<Rightarrow> bool" where
  "insideWorkspace p \<longleftrightarrow> absPath p \<and> prefix [''workspace''] (namesOf p)"

text \<open>
  A container is started without network, with a root that cannot be written, without capabilities, with limits and
  with one volume, that of its session; only variables, the image and its command follow.
\<close>

definition isolatedRun :: "string list \<Rightarrow> bool" where
  "isolatedRun argv \<longleftrightarrow>
     (\<exists>sid mem cpus pids vars image. mem \<noteq> [] \<and> cpus \<noteq> [] \<and> pids \<noteq> [] \<and>
        argv = [''docker'', ''run'', ''-d'', ''--name'', containerName sid, ''--label'', ''dev-plane.session='' @ sid,
          ''--network'', ''none'', ''--read-only'', ''--tmpfs'', ''/tmp:rw,nosuid,nodev,size=64m'',
          ''--mount'', ''type=volume,source='' @ volumeName sid @ '',target=/workspace'',
          ''--memory'', mem, ''--cpus'', cpus, ''--pids-limit'', pids, ''--cap-drop'', ''ALL'',
          ''--security-opt'', ''no-new-privileges'', ''--workdir'', ''/workspace'', ''--entrypoint'', ''sh'']
          @ envArgs vars @ [image, ''-c'', ''sleep infinity''])"

text \<open>A program is run in the container of a session, in a directory at or below \<open>/workspace\<close> or in the image's own.\<close>

definition containedExec :: "string list \<Rightarrow> bool" where
  "containedExec argv \<longleftrightarrow>
     (\<exists>opts sid cmd. argv = [''docker'', ''exec''] @ opts @ [containerName sid] @ cmd \<and>
        (opts = [] \<or> opts = [''-i''] \<or> (\<exists>wd vars. insideWorkspace wd \<and> opts = [''-w'', wd] @ envArgs vars) \<or>
         opts = [''-i'', ''-w'', workspaceDir]))"

definition dockerContained :: "DockerAct \<Rightarrow> bool" where
  "dockerContained a \<longleftrightarrow>
     (case a of
        DockerRan argv _ \<Rightarrow>
          (take 2 argv = [''docker'', ''run''] \<longrightarrow> isolatedRun argv) \<and>
          (take 2 argv = [''docker'', ''exec''] \<longrightarrow> containedExec argv)
      | _ \<Rightarrow> True)"

text \<open>A session has the names that its identifier gives.\<close>

definition named :: "string \<Rightarrow> DockerSession \<Rightarrow> bool" where
  "named sid x \<longleftrightarrow> ds_id x = sid \<and> ds_container x = containerName sid \<and> ds_volume x = volumeName sid"

definition confined :: "DockerWorld \<Rightarrow> bool" where
  "confined s \<longleftrightarrow> (\<forall>sid x. dw_sessions s sid = Some x \<longrightarrow> named sid x) \<and> list_all dockerContained (dw_log s)"

definition confines :: "DockerWorld \<Rightarrow> DockerWorld \<Rightarrow> bool" where
  "confines s t \<longleftrightarrow> (confined s \<longrightarrow> confined t)"

interpretation confines: preorder_steps confines
  by standard (simp_all add: confines_def)

lemma confines_dRunInput: "dockerContained (DockerRan argv input) \<Longrightarrow> stays confines (dRunInput de argv input)"
  by (simp add: stays_def confines_def confined_def dRunInput_def)

lemma confines_dRun: "dockerContained (DockerRan argv []) \<Longrightarrow> stays confines (dRun de argv)"
  unfolding dRun_def by (rule confines_dRunInput)

lemma confines_dMustInput: "dockerContained (DockerRan argv input) \<Longrightarrow> stays confines (dMustInput de what argv input)"
  unfolding dMustInput_def by (intro confines.stays_steps confines_dRunInput)

lemma confines_dMust: "dockerContained (DockerRan argv []) \<Longrightarrow> stays confines (dMust de what argv)"
  unfolding dMust_def by (rule confines_dMustInput)

lemma confines_files: "stays confines (dMkdir de p)" "stays confines (dRemoveAll p)" "stays confines (dNow de)"
  by (simp_all add: stays_def confines_def confined_def dMkdir_def dRemoveAll_def dNow_def dockerContained_def)

lemma confines_setSession: "(\<And>y. x = Some y \<Longrightarrow> named sid y) \<Longrightarrow> stays confines (setSession sid x)"
  by (auto simp: stays_def confines_def confined_def setSession_def)

lemma confines_status: "stays confines (setSessionStatus de sid status)"
proof -
  have "stays confines (\<lambda>s :: DockerWorld. (Inr (), s\<lparr>dw_sessions := (dw_sessions s)(sid :=
      map_option (\<lambda>x. x\<lparr>ds_status := status, ds_lastActive := now\<rparr>) (dw_sessions s sid))\<rparr>) :: (runtime_failure + unit) \<times> DockerWorld)" for now
    by (auto simp: stays_def confines_def confined_def named_def)
  then show ?thesis unfolding setSessionStatus_def by (intro confines.stays_bindE confines_files)
qed

lemma confines_lift: "stays confines (liftPath r)" "stays confines (liftCommand r')"
  by (simp_all add: stays_def confines_def liftPath_def liftCommand_def)

text \<open>After a look-up the session is known to be named, after a check the path to be inside.\<close>

lemma confines_session: "(\<And>x. named sid x \<Longrightarrow> stays confines (k x)) \<Longrightarrow> stays confines (bindE (dSession sid) k)"
  unfolding stays_def confines_def
proof (intro allI impI)
  fix s assume k: "\<And>x. named sid x \<Longrightarrow> \<forall>s. confined s \<longrightarrow> confined (snd (k x s))" and s: "confined s"
  show "confined (snd (bindE (dSession sid) k s))"
  proof (cases "dw_sessions s sid")
    case (Some x)
    with s have "named sid x" by (simp add: confined_def)
    with k s Some show ?thesis by (simp add: bindE_def dSession_def)
  qed (use s in \<open>simp add: bindE_def dSession_def\<close>)
qed

lemma confines_path: "(\<And>p. r = Inr p \<Longrightarrow> stays confines (k p)) \<Longrightarrow> stays confines (bindE (liftPath r) k)"
  by (cases r) (auto simp: stays_def bindE_def liftPath_def confines.refl)

lemma confines_undo: "stays confines undo \<Longrightarrow> stays confines m \<Longrightarrow> stays confines (undoOnError undo m)"
  unfolding stays_def undoOnError_def
proof
  fix s assume u: "\<forall>s. confines s (snd (undo s))" and m: "\<forall>s. confines s (snd (m s))"
  obtain r t where r: "m s = (r, t)" by fastforce
  with m have "confines s t" by (metis snd_conv)
  with u r show "confines s (snd (case m s of (Inl e, t) \<Rightarrow> (Inl e, snd (undo t)) | (Inr x, t) \<Rightarrow> (Inr x, t)))"
    by (cases r) (auto intro: confines.trans)
qed

lemma confines_void: "stays confines m \<Longrightarrow> stays confines (dVoid m)"
  unfolding dVoid_def by (intro confines.stays_steps)

lemmas confines_steps = confines.stays_steps confines_dRun confines_dMust confines_dMustInput confines_files confines_status
  confines_lift confines_void

text \<open>The command lines.\<close>

lemma dockerContained_other: "take 2 argv \<noteq> [''docker'', ''run''] \<Longrightarrow> take 2 argv \<noteq> [''docker'', ''exec''] \<Longrightarrow> dockerContained (DockerRan argv input)"
  by (simp add: dockerContained_def)

lemma dockerContained_exec:
  assumes "named sid x" "opts = [] \<or> opts = [''-i''] \<or> (\<exists>wd vars. insideWorkspace wd \<and> opts = [''-w'', wd] @ envArgs vars) \<or>
    opts = [''-i'', ''-w'', workspaceDir]"
  shows "dockerContained (DockerRan ([''docker'', ''exec''] @ opts @ [ds_container x] @ cmd) input)"
  using assms unfolding dockerContained_def containedExec_def named_def by auto

lemma dockerContained_run: "dockerContained (DockerRan (runArgs de p sid req) input)"
proof -
  have d: "valueOrDefault v defaultDockerMemory \<noteq> []" "valueOrDefault v defaultDockerCPUs \<noteq> []"
    "valueOrDefault v defaultDockerPIDs \<noteq> []" for v
    by (simp_all add: valueOrDefault_def defaultDockerMemory_def defaultDockerCPUs_def defaultDockerPIDs_def)
  have "isolatedRun (runArgs de p sid req)"
    unfolding isolatedRun_def
    by (rule exI [of _ sid], rule exI [of _ "valueOrDefault (dp_memoryLimit p) defaultDockerMemory"],
        rule exI [of _ "valueOrDefault (dp_cpuLimit p) defaultDockerCPUs"],
        rule exI [of _ "valueOrDefault (dp_pidsLimit p) defaultDockerPIDs"],
        rule exI [of _ "de_env de (cw_Env req)"], rule exI [of _ "dp_image p"])
      (simp add: d runArgs_def workspaceDir_def)
  moreover have "take 2 (runArgs de p sid req) = [''docker'', ''run'']" by (simp add: runArgs_def)
  ultimately show ?thesis by (simp add: dockerContained_def)
qed

lemma workspaceDir_inside: "insideWorkspace workspaceDir"
  using dockerWorkdir_below [of "[]"] by (simp add: insideWorkspace_def dockerWorkdir_def)

lemma dockerContained_plain: "named sid x \<Longrightarrow> dockerContained (DockerRan (''docker'' # ''exec'' # ds_container x # cmd) input)"
  using dockerContained_exec [of sid x "[]" cmd input] by simp

lemma dockerContained_input: "named sid x \<Longrightarrow> dockerContained (DockerRan (''docker'' # ''exec'' # ''-i'' # ds_container x # cmd) input)"
  using dockerContained_exec [of sid x "[''-i'']" cmd input] by simp

lemma dockerContained_workdir:
  "named sid x \<Longrightarrow> dockerContained (DockerRan (''docker'' # ''exec'' # ''-i'' # ''-w'' # workspaceDir # ds_container x # cmd) input)"
  using dockerContained_exec [of sid x "[''-i'', ''-w'', workspaceDir]" cmd input] by simp

lemma confines_git: "named sid x \<Longrightarrow> stays confines (dMust de what (gitIn x args))"
proof -
  assume x: "named sid x"
  have "insideWorkspace workspaceDir \<and> [''-w'', workspaceDir] = [''-w'', workspaceDir] @ envArgs []"
    using workspaceDir_inside by (simp add: envArgs_def)
  then have "dockerContained (DockerRan ([''docker'', ''exec''] @ [''-w'', workspaceDir] @ [ds_container x] @ ''git'' # args) [])"
    by (intro dockerContained_exec [OF x]) blast
  then show ?thesis by (intro confines_dMust) (simp add: gitIn_def)
qed

lemma confines_create: "stays confines (Docker_CreateWorkspace de req)"
proof -
  have checkout: "stays confines (checkoutBranch de repo req)" for repo
    unfolding checkoutBranch_def Let_def by (auto intro!: confines_steps dockerContained_other)
  have newS: "named sid (newSession sid ws now)" for sid ws now by (simp add: named_def newSession_def)
  have mk: "dockerContained (DockerRan [''docker'', ''exec'', containerName sid, ''mkdir'', ''-p'', workspaceDir] [])" for sid
    using dockerContained_plain [OF newS [of sid "[]" 0], of "[''mkdir'', ''-p'', workspaceDir]" "[]"] by (simp add: newSession_def)
  have steps: "stays confines (createSteps de p sid req)" for p sid
    unfolding createSteps_def Let_def
    by (intro confines.stays_bindE confines.stays_retE checkout confines_files confines_dMust dockerContained_run mk confines_setSession)
      (simp_all add: dockerContained_other newS)
  have clean: "stays confines (cleanup de p sid)" for p sid
    unfolding cleanup_def by (intro confines_steps) (auto intro: dockerContained_other)
  have body: "stays confines (\<lambda>s :: DockerWorld. let p = dw_provider s; sessionID = generateSessionID now
       in bindE (dMkdir de (path_Join (dp_baseDir p) sessionID)) (\<lambda>_.
            undoOnError (cleanup de p sessionID) (createSteps de p sessionID req)) s)" for now
    unfolding stays_def Let_def
  proof
    fix s :: DockerWorld
    have "stays confines (bindE (dMkdir de (path_Join (dp_baseDir (dw_provider s)) (generateSessionID now))) (\<lambda>_.
        undoOnError (cleanup de (dw_provider s) (generateSessionID now)) (createSteps de (dw_provider s) (generateSessionID now) req)))"
      by (intro confines_steps confines_undo clean steps)
    then show "confines s (snd (bindE (dMkdir de (path_Join (dp_baseDir (dw_provider s)) (generateSessionID now))) (\<lambda>_.
        undoOnError (cleanup de (dw_provider s) (generateSessionID now)) (createSteps de (dw_provider s) (generateSessionID now) req)) s))"
      by (simp add: stays_def)
  qed
  show ?thesis unfolding Docker_CreateWorkspace_def by (intro confines_steps body)
qed

lemma confines_destroy: "stays confines (Docker_DestroyWorkspace de sid)"
proof -
  have body: "stays confines (\<lambda>s :: DockerWorld. bindE (dRemoveAll (path_Join (dp_baseDir (dw_provider s)) sid)) (\<lambda>_. setSession sid None) s)"
    unfolding stays_def
  proof
    fix s :: DockerWorld
    have "stays confines (bindE (dRemoveAll (path_Join (dp_baseDir (dw_provider s)) sid)) (\<lambda>_. setSession sid None))"
      by (intro confines_steps confines_setSession) simp
    then show "confines s (snd (bindE (dRemoveAll (path_Join (dp_baseDir (dw_provider s)) sid)) (\<lambda>_. setSession sid None) s))"
      by (simp add: stays_def)
  qed
  show ?thesis unfolding Docker_DestroyWorkspace_def
    by (intro confines_session confines_steps body) (auto intro: dockerContained_other)
qed

lemma confines_execute: "stays confines (Docker_ExecuteCommand de sid cmd)"
proof -
  have ran: "stays confines (dRun de ([''docker'', ''exec'', ''-w'', wd] @ envArgs vars @ [ds_container x] @ argv))"
    if "named sid x" "dockerWorkdir (cd_Dir cmd) = Inr wd" for x wd vars argv
  proof -
    have "insideWorkspace wd" using dockerWorkdir_below [OF that(2)] by (simp add: insideWorkspace_def)
    with dockerContained_exec [OF that(1), of "[''-w'', wd] @ envArgs vars" argv "[]"] show ?thesis
      by (intro confines_dRun) auto
  qed
  show ?thesis
    unfolding Docker_ExecuteCommand_def Let_def
  proof (intro confines_session confines_path)
    fix x wd assume x: "named sid x" and wd: "dockerWorkdir (cd_Dir cmd) = Inr wd"
    have final: "stays confines (if rd_Late r then failE (CommandTimedOut (effectiveTimeout cmd))
       else case rd_End r of NotStarted e \<Rightarrow> failE (RunFailed ''docker exec'' (rd_Stderr r))
       | Exited c \<Rightarrow> retE \<lparr>cs_Stdout = rd_Stdout r, cs_Stderr = rd_Stderr r, cs_ExitCode = c, cs_Duration = rd_Duration r\<rparr>)" for r
      by (cases "rd_End r") (auto intro: confines_steps)
    show "stays confines (bindE (liftCommand (commandLine cmd)) (\<lambda>argv.
       bindE (setSessionStatus de sid ''running'') (\<lambda>_.
       bindE (dRun de ([''docker'', ''exec'', ''-w'', wd] @ envArgs (de_env de (cd_Env cmd)) @ [ds_container x] @ argv)) (\<lambda>r.
       bindE (setSessionStatus de sid ''ready'') (\<lambda>_.
         if rd_Late r then failE (CommandTimedOut (effectiveTimeout cmd))
         else case rd_End r of NotStarted e \<Rightarrow> failE (RunFailed ''docker exec'' (rd_Stderr r))
         | Exited c \<Rightarrow> retE \<lparr>cs_Stdout = rd_Stdout r, cs_Stderr = rd_Stderr r, cs_ExitCode = c, cs_Duration = rd_Duration r\<rparr>)))))"
      by (intro confines.stays_bindE confines_lift confines_status ran [OF x wd] final)
  qed
qed

lemma confines_files_ops:
  "stays confines (Docker_ReadFile de sid p)" "stays confines (Docker_WriteFile de sid p data)"
  "stays confines (Docker_ApplyPatch de sid patch)"
proof -
  show "stays confines (Docker_ReadFile de sid p)"
    unfolding Docker_ReadFile_def
    by (intro confines_session confines_path confines.stays_bindE confines.stays_retE confines_dMust) (simp add: dockerContained_plain)
  show "stays confines (Docker_WriteFile de sid p data)"
    unfolding Docker_WriteFile_def
    by (intro confines_session confines_path confines.stays_bindE confines.stays_retE confines_dMust confines_dMustInput)
      (simp_all add: dockerContained_plain dockerContained_input)
  show "stays confines (Docker_ApplyPatch de sid patch)"
    unfolding Docker_ApplyPatch_def
    by (intro confines_session confines.stays_bindE confines.stays_retE confines_dMustInput) (simp add: dockerContained_workdir)
qed

lemma confines_snapshots: "stays confines (Docker_Snapshot de sid)" "stays confines (Docker_Restore de sid snap)"
  unfolding Docker_Snapshot_def Docker_Restore_def Let_def
  by (auto intro!: confines_session confines_steps confines_git split: option.split)

lemma confines_usage: "stays confines (containerUsage de c)"
  unfolding containerUsage_def Let_def by (auto intro!: confines_steps dockerContained_other)

lemma confines_getStatus: "stays confines (Docker_GetStatus de sid)"
  unfolding Docker_GetStatus_def Let_def
  by (intro confines_session confines_steps confines_usage) (auto intro!: dockerContained_other confines.stays_retE split: prod.split)

lemma confines_attach: "stays confines (AttachSession de sid ws)"
proof -
  have body: "stays confines (\<lambda>s :: DockerWorld.
       (case dw_sessions s sid of
          Some x \<Rightarrow> (Inr (sessionView (ds_id x) (ds_workspaceID x) (ds_status x) (ds_createdAt x)), s)
        | None \<Rightarrow>
          (case bindE (setSession sid (Some (newSession sid ws now))) (\<lambda>_. Docker_GetStatus de sid) s of
             (Inl e, t) \<Rightarrow> (Inl e, t\<lparr>dw_sessions := (dw_sessions t)(sid := None)\<rparr>)
           | (Inr status, t) \<Rightarrow> (Inr (sessionView sid ws (st_Status status) now), t))))" for now
    unfolding stays_def
  proof
    fix s :: DockerWorld
    have "stays confines (bindE (setSession sid (Some (newSession sid ws now))) (\<lambda>_. Docker_GetStatus de sid))"
      by (intro confines.stays_bindE confines_setSession confines_getStatus) (auto simp: named_def newSession_def)
    then obtain r t where r: "bindE (setSession sid (Some (newSession sid ws now))) (\<lambda>_. Docker_GetStatus de sid) s = (r, t)"
      and c: "confines s t" unfolding stays_def by (metis prod.collapse)
    have "confines t (t\<lparr>dw_sessions := (dw_sessions t)(sid := None)\<rparr>)" by (simp add: confines_def confined_def)
    with c have d: "confines s (t\<lparr>dw_sessions := (dw_sessions t)(sid := None)\<rparr>)" by (rule confines.trans)
    show "confines s (snd (case dw_sessions s sid of
          Some x \<Rightarrow> (Inr (sessionView (ds_id x) (ds_workspaceID x) (ds_status x) (ds_createdAt x)), s)
        | None \<Rightarrow>
          (case bindE (setSession sid (Some (newSession sid ws now))) (\<lambda>_. Docker_GetStatus de sid) s of
             (Inl e, t) \<Rightarrow> (Inl e, t\<lparr>dw_sessions := (dw_sessions t)(sid := None)\<rparr>)
           | (Inr status, t) \<Rightarrow> (Inr (sessionView sid ws (st_Status status) now), t))))"
      using c d by (cases "dw_sessions s sid"; cases r) (simp_all add: r confines.refl)
  qed
  show ?thesis unfolding AttachSession_def by (intro confines_steps body)
qed

lemma confines_op: "stays confines (dockerOp de op)"
  by (cases op) (auto intro: confines_void confines_create confines_attach confines_destroy confines_execute
      confines_files_ops confines_snapshots confines_getStatus)

lemma confines_ops: "confines s (dockerOps de ops s)"
  unfolding dockerOps_def
proof (induction ops arbitrary: s)
  case (Cons op ops)
  have "confines s (snd (dockerOp de op s))" using confines_op [of de op] by (simp add: stays_def)
  from confines.trans [OF this Cons.IH] show ?case by simp
qed (simp add: confines.refl)

section \<open>Properties\<close>

definition startDocker :: "DockerProvider \<Rightarrow> DockerWorld" where
  "startDocker p = \<lparr>dw_provider = p, dw_sessions = (\<lambda>_. None), dw_log = [], dw_n = 0\<rparr>"

text \<open>
  C36. Whatever is asked of a new provider, in any order and with any paths and commands, and whatever the programs it
  runs give: every container it starts is isolated, and every program it runs in a container is run in one of
  a session, in a directory at or below the workspace.\<close>

theorem docker_contained:
  "list_all dockerContained (dw_log (dockerOps de ops (startDocker p))) \<and>
   \<not> (\<exists>sid x. dw_sessions (dockerOps de ops (startDocker p)) sid = Some x \<and> \<not> named sid x)"
proof -
  have "confined (startDocker p)" by (simp add: confined_def startDocker_def)
  with confines_ops [of "startDocker p" de ops] have "confined (dockerOps de ops (startDocker p))" by (simp add: confines_def)
  then show ?thesis
    by (auto simp: confined_def)
qed

text \<open>Steps that leave the sessions and only add to the log.\<close>

definition sameSessions :: "DockerWorld \<Rightarrow> DockerWorld \<Rightarrow> bool" where
  "sameSessions s t \<longleftrightarrow> dw_sessions t = dw_sessions s \<and> dw_provider t = dw_provider s \<and> prefix (dw_log s) (dw_log t)"

interpretation sessions: preorder_steps sameSessions
  by standard (auto simp: sameSessions_def)

lemma sessions_run: "stays sameSessions (dRunInput de argv input)" "stays sameSessions (dRun de argv)"
  by (simp_all add: stays_def sameSessions_def dRun_def dRunInput_def)

lemma sessions_must: "stays sameSessions (dMustInput de what argv input)" "stays sameSessions (dMust de what argv)"
  unfolding dMust_def dMustInput_def by (intro sessions.stays_steps sessions_run)+

lemma sessions_now: "stays sameSessions (dNow de)" "stays sameSessions (dMkdir de p)"
  by (simp_all add: stays_def sameSessions_def dNow_def dMkdir_def)

lemma sessions_checkout: "stays sameSessions (checkoutBranch de repo req)"
  unfolding checkoutBranch_def Let_def by (auto intro!: sessions.stays_steps sessions_must)

definition failsQuietly :: "'a dstep \<Rightarrow> bool" where
  "failsQuietly m \<longleftrightarrow> (\<forall>s e t. m s = (Inl e, t) \<longrightarrow> sameSessions s t)"

lemma failsQuietly_bind:
  assumes "stays sameSessions m" "\<And>x. failsQuietly (k x)"
  shows "failsQuietly (bindE m k)"
  unfolding failsQuietly_def
proof (intro allI impI)
  fix s e t assume "bindE m k s = (Inl e, t)"
  then consider "m s = (Inl e, t)" | x s1 where "m s = (Inr x, s1)" "k x s1 = (Inl e, t)" by (auto simp: bindE_Inl)
  then show "sameSessions s t"
  proof cases
    case 1
    with assms(1) show ?thesis unfolding stays_def by (metis snd_conv)
  next
    case 2
    then have "sameSessions s s1" using assms(1) unfolding stays_def by (metis snd_conv)
    moreover have "sameSessions s1 t" using 2(2) assms(2) unfolding failsQuietly_def by blast
    ultimately show ?thesis by (rule sessions.trans)
  qed
qed

lemma createSteps_quiet: "failsQuietly (createSteps de p sid req)"
proof -
  have last: "failsQuietly (bindE (setSession sid x) (\<lambda>_. bindE (dRemoveAll repo) (\<lambda>_. retE y)))" for x repo and y :: RuntimeSession
    by (simp add: failsQuietly_def bindE_def setSession_def dRemoveAll_def retE_def)
  show ?thesis
    unfolding createSteps_def Let_def
    by (intro failsQuietly_bind sessions_must sessions_checkout sessions_now last)
qed

lemma cleanup_log:
  "dw_log (snd (cleanup de p sid t)) = dw_log t @ [RemovedDir (path_Join (dp_baseDir p) sid),
     DockerRan [''docker'', ''rm'', ''-f'', containerName sid] [], DockerRan [''docker'', ''volume'', ''rm'', ''-f'', volumeName sid] []] \<and>
   dw_sessions (snd (cleanup de p sid t)) = dw_sessions t"
  by (simp add: cleanup_def bindE_def dRemoveAll_def dRun_def dRunInput_def retE_def)


definition sampleDockerEnv :: "nat \<Rightarrow> DockerEnv" where
  "sampleDockerEnv bad =
     \<lparr>de_run = (\<lambda>n _ _. \<lparr>rd_Stdout = [], rd_Stderr = [], rd_End = Exited (if n = bad then 1 else 0), rd_Late = False, rd_Duration = 1\<rparr>),
      de_mkdir = (\<lambda>_ _. None), de_now = (\<lambda>n. 7 + int n), de_env = (\<lambda>_. []), de_parseFloat = (\<lambda>_. (f64_zero, True))\<rparr>"

definition sampleCreate :: CreateRequest where
  "sampleCreate =
     \<lparr>cw_RepositoryID = ''r'', cw_CloneURL = ''u'', cw_Branch = [], cw_BaseBranch = [], cw_WorktreeName = ''w'', cw_Env = (\<lambda>_. None)\<rparr>"

definition sampleProvider :: DockerProvider where
  "sampleProvider = NewDockerProvider (\<lambda>_. []) ''/d''"


end
