(* ===== verification/WorkspaceHandlers.thy ===== *)
theory WorkspaceHandlers
  imports Runtimes Authz Capability
begin

text \<open>
  The HTTP handlers of a workspace's files, commands and services
  (\<open>apps/api/internal/handlers/workspace_files.go\<close>, \<open>workspace_runtime.go\<close>): who may do what, which paths are opened,
  what is run on the host or passed to the workspace's runtime.

  A request is the claims of its user, if there are any, the identifier in its URL and its decoded body (None when
  it does not decode).  Programs on the host, the runtime and the clock are parameters; what is run, signalled
  and passed on is kept in a log.
\<close>

section \<open>Replies and state\<close>

record FileEntry =
  fe_Name :: string
  fe_Path :: string
  fe_IsDir :: bool
  fe_Size :: int

datatype reply_error =
    Text string
  | PathError path_error
  | FileError os_error
  | Denied Reason
  | CapabilityError cap_error
  | CommandError cmd_error
  | RuntimeError string
  | PidError string

datatype body =
    ErrorBody reply_error
  | FilesBody "FileEntry list"
  | ContentBody string string int
  | WrittenBody string
  | PatchedBody string
  | OutputBody string string int
  | RunningBody string int int string
  | StoppedBody string

type_synonym reply = "int \<times> body"

definition badReply :: "int \<Rightarrow> string \<Rightarrow> reply" where
  "badReply code msg = (code, ErrorBody (Text msg))"

datatype WsAct =
    HostCommand "string list" string string
  | ServiceStarted string string int
  | Signalled int
  | RuntimeRead string string
  | RuntimeWrite string string string
  | RuntimePatch string string
  | RuntimeCommand string Command

record WsWorld =
  ww_files :: files
  ww_log :: "WsAct list"
  ww_n :: nat

text \<open>
  \<open>hn_sz\<close> gives the size of an entry.  The runtime's functions have the number of the call, the session and their
  arguments; an error is its text, and for a command whether it is a timeout.
\<close>

record WsEnv =
  hn_dir :: "string list"
  hn_authz :: AuthzDB
  hn_rows :: "Workspace list"
  hn_dbFails :: bool
  hn_kernel :: Kernel
  hn_ftext :: "f64 \<Rightarrow> string"
  hn_ulower :: "string \<Rightarrow> string"
  hn_sz :: "entry \<Rightarrow> int"
  hn_now :: "nat \<Rightarrow> int"
  hn_baseDir :: string
  hn_exec :: "nat \<Rightarrow> string list \<Rightarrow> string \<Rightarrow> Ran"
  hn_start :: "nat \<Rightarrow> string \<Rightarrow> string \<Rightarrow> string + int"
  hn_signal :: "nat \<Rightarrow> int \<Rightarrow> string option"
  hn_provider :: "string \<Rightarrow> string option"
  hn_attach :: "nat \<Rightarrow> string \<Rightarrow> string \<Rightarrow> string option"
  hn_rtRead :: "nat \<Rightarrow> string \<Rightarrow> string \<Rightarrow> string + string"
  hn_rtWrite :: "nat \<Rightarrow> string \<Rightarrow> string \<Rightarrow> string \<Rightarrow> string option"
  hn_rtPatch :: "nat \<Rightarrow> string \<Rightarrow> string \<Rightarrow> string option"
  hn_rtRun :: "nat \<Rightarrow> string \<Rightarrow> Command \<Rightarrow> (bool \<times> string) + CommandResult"

type_synonym 'a wstep = "(WsWorld, reply, 'a) gostep"

definition wAct :: "WsAct \<Rightarrow> (nat \<Rightarrow> 'a) \<Rightarrow> 'a wstep" where
  "wAct a f s = (Inr (f (ww_n s)), s\<lparr>ww_log := ww_log s @ [a], ww_n := Suc (ww_n s)\<rparr>)"

definition wTick :: "(nat \<Rightarrow> 'a) \<Rightarrow> 'a wstep" where
  "wTick f s = (Inr (f (ww_n s)), s\<lparr>ww_n := Suc (ww_n s)\<rparr>)"

definition wFiles :: "(files \<Rightarrow> 'a) \<Rightarrow> 'a wstep" where
  "wFiles f s = (Inr (f (ww_files s)), s)"

definition wChange :: "(files \<Rightarrow> os_error option \<times> files) \<Rightarrow> os_error option wstep" where
  "wChange f s = (case f (ww_files s) of (e, fs1) \<Rightarrow> (Inr e, s\<lparr>ww_files := fs1\<rparr>))"

definition orReply :: "('e \<Rightarrow> reply) \<Rightarrow> 'e + 'a \<Rightarrow> 'a wstep" where
  "orReply code r = (case r of Inl e \<Rightarrow> failE (code e) | Inr x \<Rightarrow> retE x)"

definition noneOr :: "('e \<Rightarrow> reply) \<Rightarrow> 'e option \<Rightarrow> unit wstep" where
  "noneOr code r = (case r of Some e \<Rightarrow> failE (code e) | None \<Rightarrow> retE ())"

section \<open>Who may\<close>

definition workspaceNotFound :: reply where
  "workspaceNotFound = badReply 404 ''workspace not found''"

definition admitted :: "WsEnv \<Rightarrow> Claims option \<Rightarrow> string \<Rightarrow> Claims wstep" where
  "admitted he claims workspaceID =
     (case claims of None \<Rightarrow> failE (badReply 401 ''unauthorized'')
      | Some user \<Rightarrow>
        bindE (guardE (workspaceID = []) (badReply 400 ''workspace id is required'')) (\<lambda>_.
          if AuthorizeWorkspace (hn_authz he) user workspaceID \<noteq> None then failE workspaceNotFound else retE user))"

definition liveRow :: "WsEnv \<Rightarrow> string \<Rightarrow> Workspace option" where
  "liveRow he workspaceID = find (\<lambda>w. ws_ID w = workspaceID \<and> ws_DeletedAt w = None) (hn_rows he)"

definition rowOrReply :: "WsEnv \<Rightarrow> string \<Rightarrow> Workspace wstep" where
  "rowOrReply he workspaceID =
     (if hn_dbFails he then failE (badReply 500 ''query'')
      else case liveRow he workspaceID of None \<Rightarrow> failE workspaceNotFound | Some w \<Rightarrow> retE w)"

text \<open>The resolved path, the path as stored when it does not resolve, or none.\<close>

definition handler_getWorkspacePath :: "WsEnv \<Rightarrow> string \<Rightarrow> string wstep" where
  "handler_getWorkspacePath he workspaceID =
     bindE (rowOrReply he workspaceID) (\<lambda>w. wFiles (\<lambda>fs.
       case ws_WorktreePath w of None \<Rightarrow> []
       | Some p \<Rightarrow> if p = [] then [] else (case EvalSymlinks fs (hn_dir he) p of Inl _ \<Rightarrow> p | Inr r \<Rightarrow> r)))"

definition workspaceSandboxState :: "Workspace option \<Rightarrow> string" where
  "workspaceSandboxState workspace =
     (case workspace of None \<Rightarrow> ''unknown''
      | Some w \<Rightarrow>
        let p = ws_RuntimeProvider w in
        if p \<in> {''docker'', ''gvisor'', ''firecracker'', ''kubernetes''} then ''isolated''
        else if p = ''local'' then ''trusted_local'' else p)"

definition claimsUser :: "Claims \<Rightarrow> User" where
  "claimsUser c =
     \<lparr>u_ID = cl_UserID c, u_OrganizationID = cl_OrgID c, u_Email = cl_Email c, u_Name = None, u_AvatarURL = None,
      u_Role = cl_Role c, u_GitHubID = None, u_GitHubUsername = None, u_Settings = [], u_CreatedAt = 0, u_UpdatedAt = 0,
      u_DeletedAt = None\<rparr>"

definition workspaceRequest ::
  "Claims option \<Rightarrow> Workspace \<Rightarrow> string \<Rightarrow> string \<Rightarrow> (string \<rightharpoonup> gany) \<Rightarrow> CapRequest" where
  "workspaceRequest claims workspace operation resource details =
     \<lparr>q_ActorType = (if claims = None then ''anonymous'' else ''human''), q_User = map_option claimsUser claims,
      q_AgentRole = [], q_Organization = None, q_Project = None, q_Repository = None, q_Workspace = Some workspace,
      q_Task = None, q_AgentRun = None, q_Operation = operation, q_ResourceType = [], q_Resource = resource,
      q_Revision = [], q_Budget = None, q_SandboxState = workspaceSandboxState (Some workspace),
      q_Details = details(''workspace_id'' \<mapsto> AString (ws_ID workspace))\<rparr>"

definition authorizeWorkspaceOperationForWorkspace ::
  "WsEnv \<Rightarrow> Claims option \<Rightarrow> Workspace \<Rightarrow> string \<Rightarrow> string \<Rightarrow> (string \<rightharpoonup> gany) \<Rightarrow> unit wstep" where
  "authorizeWorkspaceOperationForWorkspace he claims workspace operation resource details =
     (let ((result, err), _) = Kernel_Evaluate (hn_ftext he) (hn_kernel he)
            (workspaceRequest claims workspace operation resource details) in
      case err of Some e \<Rightarrow> failE (500, ErrorBody (CapabilityError e))
      | None \<Rightarrow>
        if res_Effect result = EffectDeny then failE (403, ErrorBody (Denied (res_Reason result)))
        else if res_RequiredApproval result then failE (423, ErrorBody (Denied (res_Reason result)))
        else retE ())"

definition localWorkspace :: "string \<Rightarrow> string \<Rightarrow> Workspace" where
  "localWorkspace workspaceID workspacePath =
     \<lparr>ws_ID = workspaceID, ws_RepositoryID = [], ws_TaskID = None, ws_Name = [], ws_Branch = [], ws_BaseBranch = [],
      ws_WorktreePath = Some workspacePath, ws_RuntimeProvider = ''local'', ws_RuntimeSessionID = None,
      ws_Status = ''ready'', ws_PreviewURL = None, ws_Settings = [], ws_CreatedAt = 0, ws_UpdatedAt = 0, ws_DeletedAt = None\<rparr>"

definition authorizeWorkspaceOperation ::
  "WsEnv \<Rightarrow> Claims option \<Rightarrow> string \<Rightarrow> string \<Rightarrow> string \<Rightarrow> string \<Rightarrow> (string \<rightharpoonup> gany) \<Rightarrow> unit wstep" where
  "authorizeWorkspaceOperation he claims workspaceID workspacePath =
     authorizeWorkspaceOperationForWorkspace he claims (localWorkspace workspaceID workspacePath)"

section \<open>The runtime of a workspace\<close>

definition loadWorkspaceRuntimeMetadata :: "WsEnv \<Rightarrow> string \<Rightarrow> Workspace wstep" where
  "loadWorkspaceRuntimeMetadata he workspaceID =
     bindE (rowOrReply he workspaceID) (\<lambda>w.
       let present = (\<lambda>x. case x of None \<Rightarrow> None | Some s \<Rightarrow> if s = [] then None else Some s) in
       retE \<lparr>ws_ID = ws_ID w, ws_RepositoryID = ws_RepositoryID w, ws_TaskID = ws_TaskID w, ws_Name = [], ws_Branch = [],
             ws_BaseBranch = [], ws_WorktreePath = present (ws_WorktreePath w), ws_RuntimeProvider = ws_RuntimeProvider w,
             ws_RuntimeSessionID = present (ws_RuntimeSessionID w), ws_Status = ws_Status w, ws_PreviewURL = None,
             ws_Settings = [], ws_CreatedAt = 0, ws_UpdatedAt = 0, ws_DeletedAt = None\<rparr>)"

text \<open>\<open>hn_provider\<close> tells whether a runtime of a name can be had.\<close>

definition getRuntimeWorkspace :: "WsEnv \<Rightarrow> string \<Rightarrow> (Workspace \<times> string option) wstep" where
  "getRuntimeWorkspace he workspaceID =
     bindE (loadWorkspaceRuntimeMetadata he workspaceID) (\<lambda>w.
       let name = ToLower (hn_ulower he) (TrimSpace (ws_RuntimeProvider w)) in
       if name = [] \<or> name = ''local'' \<or> name = ''unprovisioned'' then retE (w, None)
       else (case ws_RuntimeSessionID w of
           None \<Rightarrow> failE (badReply 500 ''workspace runtime session id is missing'')
         | Some session \<Rightarrow>
           bindE (noneOr (\<lambda>e. (500, ErrorBody (RuntimeError e))) (hn_provider he name)) (\<lambda>_.
           bindE (wTick (\<lambda>n. hn_attach he n session (ws_ID w))) (\<lambda>r.
           bindE (noneOr (\<lambda>e. (500, ErrorBody (RuntimeError e))) r) (\<lambda>_. retE (w, Some session))))))"

definition runtimeSession :: "WsEnv \<Rightarrow> string \<Rightarrow> (Workspace \<times> string) wstep" where
  "runtimeSession he workspaceID =
     bindE (getRuntimeWorkspace he workspaceID) (\<lambda>(w, session).
       case session of None \<Rightarrow> failE (badReply 400 ''workspace has no worktree path or runtime session'')
       | Some x \<Rightarrow> retE (w, x))"

section \<open>Service names and texts for the shell\<close>

definition plainByte :: "char \<Rightarrow> bool" where
  "plainByte c \<longleftrightarrow>
     (let n = of_char c :: nat in
      (97 \<le> n \<and> n \<le> 122) \<or> (65 \<le> n \<and> n \<le> 90) \<or> (48 \<le> n \<and> n \<le> 57) \<or> n = 45 \<or> n = 95)"

definition validateStatePathComponent :: "string \<Rightarrow> string \<Rightarrow> string + string" where
  "validateStatePathComponent value0 field =
     (let value = TrimSpace value0 in
      if value = [] then Inl (field @ '' is required'')
      else if int (length value) > 120 then Inl (field @ '' is too long'')
      else if list_all plainByte value then Inr value
      else Inl (field @ '' may only contain letters, numbers, hyphens, and underscores''))"

definition validateServiceID :: "string \<Rightarrow> string + string" where
  "validateServiceID serviceID = validateStatePathComponent serviceID ''service_id''"

definition serviceIDFromRequest :: "int \<Rightarrow> string \<Rightarrow> string + string" where
  "serviceIDFromRequest now name =
     (if TrimSpace name \<noteq> [] then validateServiceID name else Inr (''svc-'' @ FormatUint now))"

definition path_Join4 :: "string \<Rightarrow> string \<Rightarrow> string \<Rightarrow> string \<Rightarrow> string" where
  "path_Join4 a b c d =
     (let parts = filter (\<lambda>x. x \<noteq> []) [a, b, c, d] in if parts = [] then [] else path_Clean (join_with slash parts))"

definition localWorkspaceServiceDir :: "string \<Rightarrow> string \<Rightarrow> string \<Rightarrow> string + string" where
  "localWorkspaceServiceDir baseDir workspaceID serviceID =
     (case validateStatePathComponent workspaceID ''workspace id'' of Inl e \<Rightarrow> Inl e
      | Inr w \<Rightarrow>
        (case validateStatePathComponent serviceID ''service_id'' of Inl e \<Rightarrow> Inl e
         | Inr x \<Rightarrow> Inr (path_Join4 baseDir ''local-services'' w x)))"

definition parseServicePID :: "string \<Rightarrow> string + int" where
  "parseServicePID raw =
     (case Fields raw of [] \<Rightarrow> Inl ''service pid is empty''
      | f # _ \<Rightarrow>
        (case Atoi f of None \<Rightarrow> Inl (''invalid service pid '' @ f)
         | Some pid \<Rightarrow> if pid \<le> 0 then Inl (''invalid service pid '' @ f) else Inr pid))"

definition quoteChar :: char where
  "quoteChar = CHR 0x27"

definition shellSingleQuote :: "string \<Rightarrow> string" where
  "shellSingleQuote v =
     [quoteChar] @ concat (map (\<lambda>c. if c = quoteChar then [quoteChar, CHR 0x5C, quoteChar, quoteChar] else [c]) v) @ [quoteChar]"

definition dq :: "string \<Rightarrow> string" where
  "dq s = [CHR 0x22] @ s @ [CHR 0x22]"

definition printLine :: "string \<Rightarrow> string" where
  "printLine v = ''printf '' @ [quoteChar] @ ''%s'' @ [CHR 0x5C] @ ''n'' @ [quoteChar] @ '' '' @ dq v"

definition startServiceScript :: "string \<Rightarrow> string \<Rightarrow> string" where
  "startServiceScript serviceID command =
     join_with [NL]
       [''set -eu'',
        ''dir='' @ dq (''.dev-plane/services/'' @ serviceID),
        ''mkdir -p '' @ dq ''$dir'',
        ''log='' @ dq ''$dir/service.log'',
        ''cmd='' @ shellSingleQuote command,
        ''nohup sh -c '' @ dq ''$cmd'' @ '' > '' @ dq ''$log'' @ '' 2>&1 &'',
        ''pid='' @ dq ''$!'',
        printLine ''$pid'' @ '' > '' @ dq ''$dir/pid'',
        printLine ''$cmd'' @ '' > '' @ dq ''$dir/command'',
        printLine ''$pid'']"

definition stopServiceScript :: "string \<Rightarrow> string" where
  "stopServiceScript serviceID =
     join_with [NL]
       [''set -eu'',
        ''dir='' @ dq (''.dev-plane/services/'' @ serviceID),
        ''pid_file='' @ dq ''$dir/pid'',
        ''if [ ! -f '' @ dq ''$pid_file'' @ '' ]; then'',
        ''  exit 44'',
        ''fi'',
        ''pid='' @ dq (''$(cat '' @ dq ''$pid_file'' @ '')''),
        ''if kill -TERM '' @ dq ''-$pid'' @ '' 2>/dev/null || kill -TERM '' @ dq ''$pid'' @ '' 2>/dev/null; then'',
        ''  rm -f '' @ dq ''$pid_file'',
        ''  printf '' @ [quoteChar] @ ''stopped'' @ [CHR 0x5C] @ ''n'' @ [quoteChar],
        ''else'',
        ''  rm -f '' @ dq ''$pid_file'',
        ''  exit 44'',
        ''fi'']"

definition listScript :: string where
  "listScript =
     (let row = [quoteChar] @ ''%s'' @ [CHR 0x5C] @ ''t%s'' @ [CHR 0x5C] @ ''t%s'' @ [CHR 0x5C] @ ''n'' @ [quoteChar] in
      join_with [NL]
       [''for p in ./*; do'',
        ''  [ -e '' @ dq ''$p'' @ '' ] || continue'',
        ''  name=${p#./}'',
        ''  case '' @ dq ''$name'' @ '' in .*) continue ;; esac'',
        ''  if [ -d '' @ dq ''$p'' @ '' ]; then'',
        ''    printf '' @ row @ '' '' @ dq ''$name'' @ '' dir 0'',
        ''  else'',
        ''    size=$(wc -c < '' @ dq ''$p'' @ '' 2>/dev/null | tr -d '' @ [quoteChar] @ '' '' @ [quoteChar] @ '')'',
        ''    printf '' @ row @ '' '' @ dq ''$name'' @ '' file '' @ dq ''${size:-0}'',
        ''  fi'',
        ''done''])"

definition runtimeFile :: "string \<Rightarrow> string \<Rightarrow> FileEntry option" where
  "runtimeFile parentPath line0 =
     (let line = TrimSpace line0; parts = split_on TAB line in
      if line = [] \<or> length parts < 3 then None
      else Some \<lparr>fe_Name = parts ! 0, fe_Path = path_Join parentPath (parts ! 0), fe_IsDir = (parts ! 1 = ''dir''),
                 fe_Size = Sscan_d (parts ! 2)\<rparr>)"

definition parseRuntimeFileList :: "string \<Rightarrow> string \<Rightarrow> FileEntry list" where
  "parseRuntimeFileList parentPath output = List.map_filter (runtimeFile parentPath) (split_on NL output)"

section \<open>Handlers for a runtime\<close>

definition systemCommand :: "string \<Rightarrow> string \<Rightarrow> duration \<Rightarrow> Command" where
  "systemCommand text dir timeout =
     \<lparr>cd_Command = text, cd_Args = [], cd_Dir = dir, cd_Env = (\<lambda>_. None), cd_Timeout = timeout, cd_UnsafeShell = False\<rparr>"

definition rtRun :: "WsEnv \<Rightarrow> string \<Rightarrow> Command \<Rightarrow> ((bool \<times> string) + CommandResult) wstep" where
  "rtRun he session cmd = wAct (RuntimeCommand session cmd) (\<lambda>n. hn_rtRun he n session cmd)"

definition rtMustRun :: "WsEnv \<Rightarrow> string \<Rightarrow> Command \<Rightarrow> CommandResult wstep" where
  "rtMustRun he session cmd = bindE (rtRun he session cmd) (orReply (\<lambda>(_, e). (500, ErrorBody (RuntimeError e))))"

definition listRuntimeWorkspaceFiles :: "WsEnv \<Rightarrow> string \<Rightarrow> string \<Rightarrow> reply wstep" where
  "listRuntimeWorkspaceFiles he workspaceID requestedPath =
     bindE (runtimeSession he workspaceID) (\<lambda>(_, session).
     bindE (rtMustRun he session (systemCommand listScript requestedPath 15000000000)) (\<lambda>r.
       retE (200, FilesBody (parseRuntimeFileList requestedPath (cs_Stdout r)))))"

definition readRuntimeWorkspaceFile :: "WsEnv \<Rightarrow> string \<Rightarrow> string \<Rightarrow> reply wstep" where
  "readRuntimeWorkspaceFile he workspaceID requestedPath =
     bindE (runtimeSession he workspaceID) (\<lambda>(_, session).
     bindE (guardE (requestedPath = []) (badReply 400 ''path query parameter is required'')) (\<lambda>_.
     bindE (wAct (RuntimeRead session requestedPath) (\<lambda>n. hn_rtRead he n session requestedPath)) (\<lambda>r.
     bindE (orReply (\<lambda>e. if Contains (ToLower (hn_ulower he) e) ''no such file'' then badReply 404 ''file not found''
          else (500, ErrorBody (RuntimeError e))) r) (\<lambda>content.
       retE (200, ContentBody requestedPath content (int (length content)))))))"

definition writeRuntimeWorkspaceFile :: "WsEnv \<Rightarrow> Claims option \<Rightarrow> string \<Rightarrow> string \<Rightarrow> string \<Rightarrow> reply wstep" where
  "writeRuntimeWorkspaceFile he claims workspaceID path content =
     bindE (runtimeSession he workspaceID) (\<lambda>(w, session).
     bindE (authorizeWorkspaceOperationForWorkspace he claims w ''write_file'' path (\<lambda>_. None)) (\<lambda>_.
     bindE (wAct (RuntimeWrite session path content) (\<lambda>n. hn_rtWrite he n session path content)) (\<lambda>r.
     bindE (noneOr (\<lambda>e. (500, ErrorBody (RuntimeError e))) r) (\<lambda>_. retE (200, WrittenBody path)))))"

definition applyRuntimeWorkspacePatch :: "WsEnv \<Rightarrow> Claims option \<Rightarrow> string \<Rightarrow> string \<Rightarrow> reply wstep" where
  "applyRuntimeWorkspacePatch he claims workspaceID patch =
     bindE (runtimeSession he workspaceID) (\<lambda>(w, session).
     bindE (authorizeWorkspaceOperationForWorkspace he claims w ''apply_patch'' ''workspace patch'' (\<lambda>_. None)) (\<lambda>_.
     bindE (wAct (RuntimePatch session patch) (\<lambda>n. hn_rtPatch he n session patch)) (\<lambda>r.
     bindE (noneOr (\<lambda>e. (500, ErrorBody (RuntimeError e))) r) (\<lambda>_. retE (200, PatchedBody [])))))"

definition secondsOr60 :: "int \<Rightarrow> int" where
  "secondsOr60 t = (if t \<le> 0 then 60 else t)"

definition execRuntimeWorkspaceCommand :: "WsEnv \<Rightarrow> Claims option \<Rightarrow> string \<Rightarrow> string \<Rightarrow> int \<Rightarrow> reply wstep" where
  "execRuntimeWorkspaceCommand he claims workspaceID command timeout =
     bindE (runtimeSession he workspaceID) (\<lambda>(w, session).
     bindE (authorizeWorkspaceOperationForWorkspace he claims w ''run_command'' command [''command'' \<mapsto> AString command]) (\<lambda>_.
     bindE (orReply (\<lambda>e. (400, ErrorBody (CommandError e))) (ParseCommandString command)) (\<lambda>args.
     bindE (rtRun he session (systemCommand [] [] (i64 (secondsOr60 timeout * 1000000000)) \<lparr>cd_Args := args\<rparr>)) (\<lambda>r.
     bindE (orReply (\<lambda>(late, e). if late then badReply 504 ''command timed out'' else (500, ErrorBody (RuntimeError e))) r) (\<lambda>out.
       retE (200, OutputBody command (cs_Stdout out @ cs_Stderr out) (cs_ExitCode out)))))))"

definition serviceDetails :: "string \<Rightarrow> int \<Rightarrow> string \<Rightarrow> (string \<rightharpoonup> gany)" where
  "serviceDetails command port serviceID =
     [''command'' \<mapsto> AString command, ''port'' \<mapsto> AInt port, ''service'' \<mapsto> AString serviceID]"

definition startRuntimeWorkspaceService ::
  "WsEnv \<Rightarrow> Claims option \<Rightarrow> string \<Rightarrow> string \<Rightarrow> int \<Rightarrow> string \<Rightarrow> reply wstep" where
  "startRuntimeWorkspaceService he claims workspaceID command port serviceID =
     bindE (runtimeSession he workspaceID) (\<lambda>(w, session).
     bindE (authorizeWorkspaceOperationForWorkspace he claims w ''run_command'' command (serviceDetails command port serviceID)) (\<lambda>_.
     bindE (rtMustRun he session (systemCommand (startServiceScript serviceID command) [] 10000000000)) (\<lambda>r.
     bindE (guardE (cs_ExitCode r \<noteq> 0) (500, ErrorBody (RuntimeError (cs_Stderr r)))) (\<lambda>_.
       let pid = (case parseServicePID (cs_Stdout r) of Inl _ \<Rightarrow> 0 | Inr pid \<Rightarrow> pid) in
       retE (202, RunningBody serviceID pid port (path_Join4 ''.dev-plane'' ''services'' serviceID ''service.log''))))))"

definition stopDetails :: "string \<Rightarrow> (string \<rightharpoonup> gany)" where
  "stopDetails serviceID = [''service'' \<mapsto> AString serviceID, ''action'' \<mapsto> AString ''stop'']"

definition stopRuntimeWorkspaceService :: "WsEnv \<Rightarrow> Claims option \<Rightarrow> string \<Rightarrow> string \<Rightarrow> reply wstep" where
  "stopRuntimeWorkspaceService he claims workspaceID serviceID =
     bindE (runtimeSession he workspaceID) (\<lambda>(w, session).
     bindE (authorizeWorkspaceOperationForWorkspace he claims w ''run_command'' (''stop service '' @ serviceID) (stopDetails serviceID)) (\<lambda>_.
     bindE (rtMustRun he session (systemCommand (stopServiceScript serviceID) [] 10000000000)) (\<lambda>r.
     bindE (guardE (cs_ExitCode r = 44) (badReply 404 ''service not found'')) (\<lambda>_.
     bindE (guardE (cs_ExitCode r \<noteq> 0) (500, ErrorBody (RuntimeError (cs_Stderr r)))) (\<lambda>_.
       retE (200, StoppedBody serviceID))))))"

section \<open>Handlers\<close>

text \<open>Hidden entries are left out.\<close>

definition listedEntry :: "(entry \<Rightarrow> int) \<Rightarrow> string \<Rightarrow> string \<times> entry \<Rightarrow> FileEntry option" where
  "listedEntry sz requestedPath e =
     (if HasPrefix (fst e) ''.'' then None
      else Some \<lparr>fe_Name = fst e, fe_Path = path_Join requestedPath (fst e), fe_IsDir = (snd e = Directory), fe_Size = sz (snd e)\<rparr>)"

definition ListWorkspaceFiles :: "WsEnv \<Rightarrow> Claims option \<Rightarrow> string \<Rightarrow> string \<Rightarrow> reply wstep" where
  "ListWorkspaceFiles he claims workspaceID requestedPath =
     bindE (admitted he claims workspaceID) (\<lambda>_.
     bindE (handler_getWorkspacePath he workspaceID) (\<lambda>workspacePath.
       if workspacePath = [] then listRuntimeWorkspaceFiles he workspaceID requestedPath
       else
         bindE (wFiles (\<lambda>fs. handlerTarget (hn_dir he) fs workspacePath requestedPath)) (\<lambda>r.
         bindE (orReply (\<lambda>e. (403, ErrorBody (PathError e))) r) (\<lambda>targetDir.
         bindE (wFiles (\<lambda>fs. ReadDirAt fs (hn_dir he) targetDir)) (\<lambda>d.
         bindE (orReply (\<lambda>e. (500, ErrorBody (FileError e))) d) (\<lambda>entries.
           retE (200, FilesBody (List.map_filter (listedEntry (hn_sz he) requestedPath) entries))))))))"

definition statOf :: "string list \<Rightarrow> string \<Rightarrow> files \<Rightarrow> os_error + entry" where
  "statOf dir p fs = Stat fs (startOf dir p) (components p)"

definition ReadWorkspaceFile :: "WsEnv \<Rightarrow> Claims option \<Rightarrow> string \<Rightarrow> string \<Rightarrow> reply wstep" where
  "ReadWorkspaceFile he claims workspaceID requestedPath =
     bindE (admitted he claims workspaceID) (\<lambda>_.
     bindE (handler_getWorkspacePath he workspaceID) (\<lambda>workspacePath.
       if workspacePath = [] then readRuntimeWorkspaceFile he workspaceID requestedPath
       else
         bindE (guardE (requestedPath = []) (badReply 400 ''path query parameter is required'')) (\<lambda>_.
         bindE (wFiles (\<lambda>fs. handlerTarget (hn_dir he) fs workspacePath requestedPath)) (\<lambda>r.
         bindE (orReply (\<lambda>e. (403, ErrorBody (PathError e))) r) (\<lambda>targetFile.
         bindE (wFiles (statOf (hn_dir he) targetFile)) (\<lambda>info.
         bindE (orReply (\<lambda>e. if e = NotExist then badReply 404 ''file not found'' else (500, ErrorBody (FileError e))) info) (\<lambda>e.
         bindE (guardE (e = Directory) (badReply 400 ''path is a directory, not a file'')) (\<lambda>_.
         bindE (wFiles (\<lambda>fs. ReadFileAt fs (hn_dir he) targetFile)) (\<lambda>d.
         bindE (orReply (\<lambda>e. (500, ErrorBody (FileError e))) d) (\<lambda>content.
           retE (200, ContentBody requestedPath content (int (length content)))))))))))))"

definition WriteWorkspaceFile :: "WsEnv \<Rightarrow> Claims option \<Rightarrow> string \<Rightarrow> (string \<times> string) option \<Rightarrow> reply wstep" where
  "WriteWorkspaceFile he claims workspaceID req =
     bindE (admitted he claims workspaceID) (\<lambda>_.
     bindE (handler_getWorkspacePath he workspaceID) (\<lambda>workspacePath.
       case req of None \<Rightarrow> failE (badReply 400 ''body'')
       | Some (path, content) \<Rightarrow>
         bindE (guardE (path = []) (badReply 400 ''path is required'')) (\<lambda>_.
           if workspacePath = [] then writeRuntimeWorkspaceFile he claims workspaceID path content
           else
             bindE (wFiles (\<lambda>fs. handlerTarget (hn_dir he) fs workspacePath path)) (\<lambda>r.
             bindE (orReply (\<lambda>e. (403, ErrorBody (PathError e))) r) (\<lambda>targetFile.
             bindE (authorizeWorkspaceOperation he claims workspaceID workspacePath ''write_file'' path (\<lambda>_. None)) (\<lambda>_.
             bindE (wChange (writeWithParents (hn_dir he) targetFile content)) (\<lambda>w.
             bindE (noneOr (\<lambda>e. (500, ErrorBody (FileError e))) w) (\<lambda>_. retE (200, WrittenBody path)))))))))"

definition removeFile :: "string list \<Rightarrow> string \<Rightarrow> files \<Rightarrow> os_error option \<times> files" where
  "removeFile dir p fs =
     (case namei False fs kernelLinks (startOf dir p) (butlast (components p)) of
        Inl e \<Rightarrow> (Some e, fs)
      | Inr q \<Rightarrow>
        if entryAt fs (q @ [last (components p)]) = None then (Some NotExist, fs)
        else (None, filter (\<lambda>(r, _). r \<noteq> q @ [last (components p)]) fs))"

text \<open>The patch file is removed when the handler returns.\<close>

definition ApplyWorkspacePatch :: "WsEnv \<Rightarrow> Claims option \<Rightarrow> string \<Rightarrow> string option \<Rightarrow> reply wstep" where
  "ApplyWorkspacePatch he claims workspaceID req =
     bindE (admitted he claims workspaceID) (\<lambda>_.
     bindE (handler_getWorkspacePath he workspaceID) (\<lambda>workspacePath.
       case req of None \<Rightarrow> failE (badReply 400 ''body'')
       | Some patch \<Rightarrow>
         bindE (guardE (patch = []) (badReply 400 ''patch is required'')) (\<lambda>_.
           if workspacePath = [] then applyRuntimeWorkspacePatch he claims workspaceID patch
           else
             let patchFile = path_Join workspacePath ''.tmp_patch'' in
             bindE (authorizeWorkspaceOperation he claims workspaceID workspacePath ''apply_patch'' ''workspace patch'' (\<lambda>_. None)) (\<lambda>_.
             bindE (wChange (WriteFileAt (hn_dir he) patchFile patch)) (\<lambda>w.
             bindE (noneOr (\<lambda>e. (500, ErrorBody (FileError e))) w) (\<lambda>_.
             bindE (wAct (HostCommand [''git'', ''-C'', workspacePath, ''apply'', ''--'', patchFile] [] patch)
               (\<lambda>n. hn_exec he n [''git'', ''-C'', workspacePath, ''apply'', ''--'', patchFile] [])) (\<lambda>r.
             bindE (wChange (removeFile (hn_dir he) patchFile)) (\<lambda>_.
             bindE (guardE (\<not> ranOK r) (badReply 500 ''patch failed'')) (\<lambda>_.
               retE (200, PatchedBody (TrimSpace (rd_Stdout r @ rd_Stderr r))))))))))))"

definition ExecWorkspaceCommand :: "WsEnv \<Rightarrow> Claims option \<Rightarrow> string \<Rightarrow> (string \<times> int) option \<Rightarrow> reply wstep" where
  "ExecWorkspaceCommand he claims workspaceID req =
     bindE (admitted he claims workspaceID) (\<lambda>_.
     bindE (handler_getWorkspacePath he workspaceID) (\<lambda>workspacePath.
       case req of None \<Rightarrow> failE (badReply 400 ''body'')
       | Some (command, timeout) \<Rightarrow>
         bindE (guardE (command = []) (badReply 400 ''command is required'')) (\<lambda>_.
           if workspacePath = [] then execRuntimeWorkspaceCommand he claims workspaceID command timeout
           else
             bindE (authorizeWorkspaceOperation he claims workspaceID workspacePath ''run_command'' command [''command'' \<mapsto> AString command]) (\<lambda>_.
             bindE (orReply (\<lambda>e. (400, ErrorBody (CommandError e))) (ParseCommandString command)) (\<lambda>args.
             bindE (wAct (HostCommand args workspacePath []) (\<lambda>n. hn_exec he n args workspacePath)) (\<lambda>r.
               if ranOK r then retE (200, OutputBody command (rd_Stdout r @ rd_Stderr r) 0)
               else if rd_Late r then failE (badReply 504 ''command timed out'')
               else (case rd_End r of
                   Exited c \<Rightarrow> retE (200, OutputBody command (rd_Stdout r @ rd_Stderr r) c)
                 | NotStarted e \<Rightarrow> failE (badReply 500 ''command failed''))))))))"

text \<open>A log is opened for appending.\<close>

definition openAppend :: "string list \<Rightarrow> string \<Rightarrow> files \<Rightarrow> os_error option \<times> files" where
  "openAppend dir p fs =
     (case place True fs dir p of Inl e \<Rightarrow> (Some e, fs)
      | Inr q \<Rightarrow>
        (case entryAt fs q of None \<Rightarrow> (None, putEntry q (File []) fs)
         | Some Directory \<Rightarrow> (Some IsDirectory, fs) | Some _ \<Rightarrow> (None, fs)))"

definition StartWorkspaceService :: "WsEnv \<Rightarrow> Claims option \<Rightarrow> string \<Rightarrow> (string \<times> int \<times> string) option \<Rightarrow> reply wstep" where
  "StartWorkspaceService he claims workspaceID req =
     bindE (admitted he claims workspaceID) (\<lambda>_.
       case req of None \<Rightarrow> failE (badReply 400 ''body'')
       | Some (command, port, name) \<Rightarrow>
         bindE (guardE (TrimSpace command = []) (badReply 400 ''command is required'')) (\<lambda>_.
         bindE (guardE (port < 0 \<or> port > 65535) (badReply 400 ''port must be between 0 and 65535'')) (\<lambda>_.
         bindE (wTick (\<lambda>n. serviceIDFromRequest (hn_now he n) name)) (\<lambda>sid.
         bindE (orReply (badReply 400) sid) (\<lambda>serviceID.
         bindE (handler_getWorkspacePath he workspaceID) (\<lambda>workspacePath.
           if workspacePath = [] then startRuntimeWorkspaceService he claims workspaceID command port serviceID
           else
             bindE (authorizeWorkspaceOperation he claims workspaceID workspacePath ''run_command'' command (serviceDetails command port serviceID)) (\<lambda>_.
             bindE (wFiles (\<lambda>fs. validateWorkspacePath (hn_dir he) fs workspacePath ''.'')) (\<lambda>v.
             bindE (noneOr (\<lambda>e. (403, ErrorBody (PathError e))) v) (\<lambda>_.
             bindE (orReply (badReply 400) (localWorkspaceServiceDir (hn_baseDir he) workspaceID serviceID)) (\<lambda>serviceDir.
             bindE (wChange (MkdirAllPath (hn_dir he) serviceDir)) (\<lambda>m.
             bindE (noneOr (\<lambda>e. (500, ErrorBody (FileError e))) m) (\<lambda>_.
             bindE (wChange (openAppend (hn_dir he) (path_Join serviceDir ''service.log''))) (\<lambda>l.
             bindE (noneOr (\<lambda>e. (500, ErrorBody (FileError e))) l) (\<lambda>_.
             bindE (wTick (\<lambda>n. hn_start he n command workspacePath)) (\<lambda>started.
             bindE (orReply (\<lambda>e. badReply 500 ''start service'') started) (\<lambda>pid.
             bindE (wAct (ServiceStarted command workspacePath pid) (\<lambda>_. ())) (\<lambda>_.
             bindE (wChange (WriteFileAt (hn_dir he) (path_Join serviceDir ''pid'') (FormatUint pid @ [NL]))) (\<lambda>p.
               case p of
                 Some e \<Rightarrow>
                   bindE (wAct (Signalled (- pid)) (\<lambda>_. ())) (\<lambda>_. failE (500, ErrorBody (FileError e)))
               | None \<Rightarrow>
                   bindE (wChange (WriteFileAt (hn_dir he) (path_Join serviceDir ''command'') (command @ [NL]))) (\<lambda>_.
                     retE (202, RunningBody serviceID pid port (path_Join serviceDir ''service.log'')))))))))))))))))))))"

definition StopWorkspaceService :: "WsEnv \<Rightarrow> Claims option \<Rightarrow> string \<Rightarrow> string option \<Rightarrow> reply wstep" where
  "StopWorkspaceService he claims workspaceID req =
     bindE (admitted he claims workspaceID) (\<lambda>_.
       case req of None \<Rightarrow> failE (badReply 400 ''body'')
       | Some rawID \<Rightarrow>
         bindE (orReply (badReply 400) (validateServiceID rawID)) (\<lambda>serviceID.
         bindE (handler_getWorkspacePath he workspaceID) (\<lambda>workspacePath.
           if workspacePath = [] then stopRuntimeWorkspaceService he claims workspaceID serviceID
           else
             bindE (authorizeWorkspaceOperation he claims workspaceID workspacePath ''run_command'' (''stop service '' @ serviceID) (stopDetails serviceID)) (\<lambda>_.
             bindE (orReply (badReply 400) (localWorkspaceServiceDir (hn_baseDir he) workspaceID serviceID)) (\<lambda>serviceDir.
             let pidPath = path_Join serviceDir ''pid'' in
             bindE (wFiles (\<lambda>fs. ReadFileAt fs (hn_dir he) pidPath)) (\<lambda>d.
             bindE (orReply (\<lambda>e. if e = NotExist then badReply 404 ''service not found'' else (500, ErrorBody (FileError e))) d) (\<lambda>data.
             bindE (orReply (\<lambda>e. (500, ErrorBody (PidError e))) (parseServicePID data)) (\<lambda>pid.
             bindE (wAct (Signalled (- pid)) (\<lambda>n. hn_signal he n (- pid))) (\<lambda>k.
             bindE (guardE (k \<noteq> None \<and> k \<noteq> Some ''ESRCH'') (badReply 500 ''stop service'')) (\<lambda>_.
             bindE (wChange (removeFile (hn_dir he) pidPath)) (\<lambda>_.
               retE (200, StoppedBody serviceID))))))))))))"

section \<open>Requests\<close>

datatype WsRequest =
    ListReq string
  | ReadReq string
  | WriteReq "(string \<times> string) option"
  | PatchReq "string option"
  | ExecReq "(string \<times> int) option"
  | StartReq "(string \<times> int \<times> string) option"
  | StopReq "string option"

fun serve :: "WsEnv \<Rightarrow> Claims option \<Rightarrow> string \<Rightarrow> WsRequest \<Rightarrow> reply wstep" where
  "serve he claims i (ListReq p) = ListWorkspaceFiles he claims i p"
| "serve he claims i (ReadReq p) = ReadWorkspaceFile he claims i p"
| "serve he claims i (WriteReq r) = WriteWorkspaceFile he claims i r"
| "serve he claims i (PatchReq r) = ApplyWorkspacePatch he claims i r"
| "serve he claims i (ExecReq r) = ExecWorkspaceCommand he claims i r"
| "serve he claims i (StartReq r) = StartWorkspaceService he claims i r"
| "serve he claims i (StopReq r) = StopWorkspaceService he claims i r"

text \<open>The operation that the capability kernel has to allow; reading and listing have none.\<close>

fun requestOperation :: "WsRequest \<Rightarrow> string option" where
  "requestOperation (ListReq p) = None"
| "requestOperation (ReadReq p) = None"
| "requestOperation (WriteReq r) = Some ''write_file''"
| "requestOperation (PatchReq r) = Some ''apply_patch''"
| "requestOperation (ExecReq r) = Some ''run_command''"
| "requestOperation (StartReq r) = Some ''run_command''"
| "requestOperation (StopReq r) = Some ''run_command''"

definition granted :: "WsEnv \<Rightarrow> Claims option \<Rightarrow> Workspace \<Rightarrow> string \<Rightarrow> string \<Rightarrow> (string \<rightharpoonup> gany) \<Rightarrow> bool" where
  "granted he claims w op res details \<longleftrightarrow>
     (let ((result, err), _) = Kernel_Evaluate (hn_ftext he) (hn_kernel he) (workspaceRequest claims w op res details) in
      err = None \<and> res_Effect result \<noteq> EffectDeny \<and> \<not> res_RequiredApproval result)"

definition member :: "WsEnv \<Rightarrow> Claims option \<Rightarrow> string \<Rightarrow> bool" where
  "member he claims i \<longleftrightarrow> (\<exists>user. claims = Some user \<and> AuthorizeWorkspace (hn_authz he) user i = None)"

definition mayDo :: "WsEnv \<Rightarrow> Claims option \<Rightarrow> string \<Rightarrow> string \<Rightarrow> bool" where
  "mayDo he claims i op \<longleftrightarrow> member he claims i \<and> (\<exists>w res details. granted he claims w op res details)"

section \<open>Effects need a grant\<close>

definition untouched :: "WsWorld \<Rightarrow> WsWorld \<Rightarrow> bool" where
  "untouched s t \<longleftrightarrow> ww_files t = ww_files s \<and> ww_log t = ww_log s"

interpretation untouched: preorder_steps untouched
  by standard (simp_all add: untouched_def)

text \<open>A step that changes something only when \<open>P\<close> holds.\<close>

definition needs :: "bool \<Rightarrow> 'a wstep \<Rightarrow> bool" where
  "needs P m \<longleftrightarrow> (\<forall>s. P \<or> untouched s (snd (m s)))"

lemma needs_true: "P \<Longrightarrow> needs P m"
  by (simp add: needs_def)

lemma needs_quiet: "stays untouched m \<Longrightarrow> needs P m"
  by (simp add: needs_def stays_def)

lemma needs_bind:
  assumes "stays untouched m" "\<And>x s t. m s = (Inr x, t) \<Longrightarrow> needs P (k x)"
  shows "needs P (bindE m k)"
  unfolding needs_def
proof
  fix s
  obtain r t where m: "m s = (r, t)" by fastforce
  with assms(1) have st: "untouched s t" unfolding stays_def by (metis snd_conv)
  show "P \<or> untouched s (snd (bindE m k s))"
  proof (cases r)
    case (Inl e)
    with m st show ?thesis by (simp add: bindE_def)
  next
    case (Inr x)
    with m assms(2) have "needs P (k x)" by blast
    then have "P \<or> untouched t (snd (k x t))" unfolding needs_def by blast
    with m Inr st untouched.trans show ?thesis by (auto simp: bindE_def)
  qed
qed

lemma needs_then: "stays untouched m \<Longrightarrow> (\<And>x. needs P (k x)) \<Longrightarrow> needs P (bindE m k)"
  by (rule needs_bind)

lemma untouched_small: "stays untouched (wFiles f)" "stays untouched (wTick g)" "stays untouched (orReply code r)"
  "stays untouched (noneOr code e)"
  by (simp_all add: stays_def untouched_def wFiles_def wTick_def orReply_def noneOr_def failE_def retE_def split: sum.split option.split)

lemma untouched_admitted: "stays untouched (admitted he claims i)"
  unfolding admitted_def by (auto intro!: untouched.stays_steps split: option.split)

lemma untouched_row: "stays untouched (rowOrReply he i)"
  unfolding rowOrReply_def by (auto intro!: untouched.stays_steps split: option.split)

lemma untouched_path: "stays untouched (handler_getWorkspacePath he i)"
  unfolding handler_getWorkspacePath_def by (intro untouched.stays_bindE untouched_row untouched_small)

lemma untouched_session: "stays untouched (runtimeSession he i)"
proof -
  have "stays untouched (getRuntimeWorkspace he i)"
    unfolding getRuntimeWorkspace_def loadWorkspaceRuntimeMetadata_def Let_def
    by (auto intro!: untouched.stays_steps untouched_row untouched_small split: option.split)
  then show ?thesis
    unfolding runtimeSession_def by (auto intro!: untouched.stays_steps split: option.split)
qed

lemma untouched_authorize: "stays untouched (authorizeWorkspaceOperationForWorkspace he claims w op res d)"
  "stays untouched (authorizeWorkspaceOperation he claims i p op res d)"
  unfolding authorizeWorkspaceOperation_def authorizeWorkspaceOperationForWorkspace_def Let_def
  by (auto intro!: untouched.stays_steps split: option.split prod.split)

lemma admitted_member: "admitted he claims i s = (Inr u, t) \<Longrightarrow> member he claims i"
  by (auto simp: admitted_def member_def bindE_Inr split: option.splits if_splits)

lemma authorize_granted:
  "authorizeWorkspaceOperationForWorkspace he claims w op res d s = (Inr u, t) \<Longrightarrow> granted he claims w op res d"
  "authorizeWorkspaceOperation he claims i p op res d s = (Inr u, t) \<Longrightarrow> granted he claims (localWorkspace i p) op res d"
  unfolding authorizeWorkspaceOperation_def authorizeWorkspaceOperationForWorkspace_def granted_def Let_def
  by (auto split: prod.splits option.splits if_splits)

text \<open>After the kernel has allowed the operation anything may follow.\<close>

lemma needs_authorized:
  assumes "member he claims i"
  shows "needs (mayDo he claims i op) (bindE (authorizeWorkspaceOperationForWorkspace he claims w op res d) k)"
    and "needs (mayDo he claims i op) (bindE (authorizeWorkspaceOperation he claims j p op res d) k)"
proof -
  show "needs (mayDo he claims i op) (bindE (authorizeWorkspaceOperationForWorkspace he claims w op res d) k)"
  proof (rule needs_bind [OF untouched_authorize(1)], rule needs_true)
    fix x s t assume "authorizeWorkspaceOperationForWorkspace he claims w op res d s = (Inr x, t)"
    from authorize_granted(1) [OF this] assms show "mayDo he claims i op" unfolding mayDo_def by blast
  qed
  show "needs (mayDo he claims i op) (bindE (authorizeWorkspaceOperation he claims j p op res d) k)"
  proof (rule needs_bind [OF untouched_authorize(2)], rule needs_true)
    fix x s t assume "authorizeWorkspaceOperation he claims j p op res d s = (Inr x, t)"
    from authorize_granted(2) [OF this] assms show "mayDo he claims i op" unfolding mayDo_def by blast
  qed
qed

lemma needs_session:
  assumes "member he claims i"
  shows "needs (mayDo he claims i ''write_file'') (writeRuntimeWorkspaceFile he claims i p c)"
    and "needs (mayDo he claims i ''apply_patch'') (applyRuntimeWorkspacePatch he claims i patch)"
    and "needs (mayDo he claims i ''run_command'') (execRuntimeWorkspaceCommand he claims i cmd timeout)"
    and "needs (mayDo he claims i ''run_command'') (startRuntimeWorkspaceService he claims i cmd port sid)"
    and "needs (mayDo he claims i ''run_command'') (stopRuntimeWorkspaceService he claims i sid)"
  unfolding writeRuntimeWorkspaceFile_def applyRuntimeWorkspacePatch_def execRuntimeWorkspaceCommand_def
    startRuntimeWorkspaceService_def stopRuntimeWorkspaceService_def
  by (intro needs_then untouched_session, simp add: split_beta, rule needs_authorized(1) [OF assms])+

lemma needs_admitted:
  assumes "\<And>u. member he claims i \<Longrightarrow> needs P (k u)"
  shows "needs P (bindE (admitted he claims i) k)"
  using assms admitted_member by (blast intro: needs_bind untouched_admitted)

lemma needs_fail: "needs P (failE e)"
  by (intro needs_quiet untouched.stays_steps)

lemmas needs_steps = needs_then untouched_path untouched_small untouched.stays_guardE

lemma serve_needs: "requestOperation req = Some op \<Longrightarrow> needs (mayDo he claims i op) (serve he claims i req)"
proof (cases req)
  case (WriteReq r)
  assume "requestOperation req = Some op"
  with WriteReq have op: "op = ''write_file''" by simp
  show ?thesis
    unfolding WriteReq serve.simps WriteWorkspaceFile_def op
    by (intro needs_admitted needs_then untouched_path; cases r)
      (auto intro!: needs_fail needs_steps needs_session needs_authorized)
next
  case (PatchReq r)
  assume "requestOperation req = Some op"
  with PatchReq have op: "op = ''apply_patch''" by simp
  show ?thesis
    unfolding PatchReq serve.simps ApplyWorkspacePatch_def op Let_def
    by (intro needs_admitted needs_then untouched_path; cases r)
      (auto intro!: needs_fail needs_steps needs_session needs_authorized)
next
  case (ExecReq r)
  assume "requestOperation req = Some op"
  with ExecReq have op: "op = ''run_command''" by simp
  show ?thesis
    unfolding ExecReq serve.simps ExecWorkspaceCommand_def op
    by (intro needs_admitted needs_then untouched_path; cases r)
      (auto intro!: needs_fail needs_steps needs_session needs_authorized)
next
  case (StartReq r)
  assume "requestOperation req = Some op"
  with StartReq have op: "op = ''run_command''" by simp
  show ?thesis
    unfolding StartReq serve.simps StartWorkspaceService_def op
    by (intro needs_admitted; cases r)
      (auto intro!: needs_fail needs_steps needs_session needs_authorized)
next
  case (StopReq r)
  assume "requestOperation req = Some op"
  with StopReq have op: "op = ''run_command''" by simp
  show ?thesis
    unfolding StopReq serve.simps StopWorkspaceService_def op
    by (intro needs_admitted; cases r)
      (auto intro!: needs_fail needs_steps needs_session needs_authorized)
qed simp_all

section \<open>Properties\<close>


definition sampleRow :: Workspace where
  "sampleRow = (localWorkspace ''w1'' ''/w'') \<lparr>ws_RepositoryID := ''r1''\<rparr>"

definition sampleWs :: "Kernel \<Rightarrow> WsEnv" where
  "sampleWs kern =
     \<lparr>hn_dir = [],
      hn_authz = \<lparr>az_fails = False, az_users = [], az_projects = [\<lparr>ow_ID = ''p1'', ow_OrganizationID = ''o1'', ow_Deleted = False\<rparr>],
        az_owned = (\<lambda>_. None), az_repositories = [\<lparr>ch_ID = ''r1'', ch_Parent = ''p1'', ch_Deleted = False\<rparr>], az_tasks = [],
        az_workspaces = [\<lparr>ch_ID = ''w1'', ch_Parent = ''r1'', ch_Deleted = False\<rparr>], az_agent_runs = [], az_approvals = [],
        az_pull_requests = []\<rparr>,
      hn_rows = [sampleRow], hn_dbFails = False, hn_kernel = kern, hn_ftext = (\<lambda>_. []), hn_ulower = (\<lambda>x. x), hn_sz = (\<lambda>_. 0),
      hn_now = (\<lambda>n. int n), hn_baseDir = ''/rt'',
      hn_exec = (\<lambda>_ _ _. \<lparr>rd_Stdout = [], rd_Stderr = [], rd_End = Exited 0, rd_Late = False, rd_Duration = 1\<rparr>),
      hn_start = (\<lambda>_ _ _. Inr 4711), hn_signal = (\<lambda>_ _. None), hn_provider = (\<lambda>_. None), hn_attach = (\<lambda>_ _ _. None),
      hn_rtRead = (\<lambda>_ _ _. Inr []), hn_rtWrite = (\<lambda>_ _ _ _. None), hn_rtPatch = (\<lambda>_ _ _. None),
      hn_rtRun = (\<lambda>_ _ _. Inl (False, []))\<rparr>"

definition sampleWsWorld :: WsWorld where
  "sampleWsWorld = \<lparr>ww_files = [([''w''], Directory), ([''w'', ''a''], File ''x'')], ww_log = [], ww_n = 0\<rparr>"

definition sampleClaims :: "string \<Rightarrow> string \<Rightarrow> Claims" where
  "sampleClaims org role = \<lparr>cl_UserID = ''u1'', cl_OrgID = org, cl_Email = ''e'', cl_Role = role\<rparr>"


lemma wFiles_Inr: "wFiles f s = (Inr x, t) \<longleftrightarrow> x = f (ww_files s) \<and> t = s"
  by (auto simp: wFiles_def)

lemma orReply_Inr: "orReply code r s = (Inr x, t) \<longleftrightarrow> r = Inr x \<and> t = s"
  by (cases r) (auto simp: orReply_def)

lemma admitted_same: "admitted he claims i s = (Inr u, t) \<Longrightarrow> t = s"
  by (auto simp: admitted_def bindE_Inr split: option.splits if_splits)

lemma path_same: "handler_getWorkspacePath he i s = (Inr p, t) \<Longrightarrow> t = s"
  by (auto simp: handler_getWorkspacePath_def bindE_Inr wFiles_Inr rowOrReply_def split: option.splits if_splits)

lemma ReadWorkspaceFile_inside:
  assumes "ReadWorkspaceFile he claims i p s = (Inr (200, ContentBody q content n), t)"
    and wp: "handler_getWorkspacePath he i s = (Inr wp, s)" "IsAbs wp"
  obtains place where "prefix (rootOf wp) place" "entryAt (ww_files s) place = Some (File content)"
proof -
  have "wp \<noteq> []" using wp(2) by (auto simp: IsAbs_def HasPrefix_prefix slash_def)
  moreover obtain u where u: "admitted he claims i s = (Inr u, s)"
    using assms(1) admitted_same unfolding ReadWorkspaceFile_def bindE_Inr by blast
  ultimately obtain target where "handlerTarget (hn_dir he) (ww_files s) wp p = Inr target"
    "ReadFileAt (ww_files s) (hn_dir he) target = Inr content"
    using assms(1) wp(1) unfolding ReadWorkspaceFile_def
    by (auto simp: bindE_def [of "admitted he claims i"] bindE_def [of "handler_getWorkspacePath he i"] bindE_Inr wFiles_Inr orReply_Inr)
  then have "gatedRead (handlerTarget (hn_dir he)) (hn_dir he) wp p (ww_files s) = Inr content" by (simp add: gatedRead_def)
  from handlerPaths.read_below [OF wp(2) this] that show ?thesis by blast
qed



text \<open>How a POSIX shell reads one word that has quotes and backslashes in it.\<close>

fun shWord :: "bool \<Rightarrow> string \<Rightarrow> string \<Rightarrow> (string \<times> string) option" where
  "shWord quoted acc [] = (if quoted then None else Some (acc, []))"
| "shWord True acc (c # cs) = (if c = quoteChar then shWord False acc cs else shWord True (acc @ [c]) cs)"
| "shWord False acc (c # cs) =
     (if c = quoteChar then shWord True acc cs
      else if c = CHR 0x5C then (case cs of [] \<Rightarrow> None | d # ds \<Rightarrow> shWord False (acc @ [d]) ds)
      else if c \<in> {CHR 0x20, TAB, NL, CHR 0x3B, CHR 0x26, CHR 0x7C, CHR 0x3C, CHR 0x3E, CHR 0x28, CHR 0x29}
      then Some (acc, c # cs)
      else shWord False (acc @ [c]) cs)"

lemma shWord_quoted: "shWord True acc (concat (map (\<lambda>c. if c = quoteChar then [quoteChar, CHR 0x5C, quoteChar, quoteChar] else [c]) v) @ quoteChar # rest) =
  shWord False (acc @ v) rest"
  by (induction v arbitrary: acc) (simp_all add: quoteChar_def)


lemma HasPrefix_char: "HasPrefix s [c] \<longleftrightarrow> s \<noteq> [] \<and> hd s = c"
  by (cases s) (auto simp: HasPrefix_def)

lemma Contains_char: "Contains s [c] \<longleftrightarrow> c \<in> set s"
proof
  assume "Contains s [c]"
  then obtain k where "drop k s \<noteq> []" "hd (drop k s) = c" unfolding Contains_def HasPrefix_char by blast
  then have "c \<in> set (drop k s)" by (metis list.set_sel(1))
  then show "c \<in> set s" by (rule in_set_dropD)
next
  assume "c \<in> set s"
  then obtain k where k: "k < length s" "s ! k = c" by (auto simp: in_set_conv_nth)
  then have "HasPrefix (drop k s) [c]" by (simp add: HasPrefix_char hd_drop_conv_nth)
  with k(1) show "Contains s [c]" by (auto simp: Contains_def)
qed

lemma set_join_with: "w \<in> set ws \<Longrightarrow> set w \<subseteq> set (join_with sep ws)"
  by (induction sep ws rule: join_with.induct) auto

lemma meta_rejected:
  assumes "CHR 0x24 \<in> set text" "\<not> cd_UnsafeShell cmd" "cd_Args cmd = []" "cd_Command cmd = text"
  shows "\<exists>c. commandLine cmd = Inl (InvalidCommand (CommandMetacharacter c))"
proof -
  have "Contains text [CHR 0x24]" using assms(1) by (simp add: Contains_char)
  moreover have "[CHR 0x24] \<in> set dangerousShellMetacharacters" by (simp add: dangerousShellMetacharacters_def)
  ultimately obtain c where "find (Contains text) dangerousShellMetacharacters = Some c"
    by (metis find_None_iff option.exhaust)
  then show ?thesis using assms(2-4) by (simp add: commandLine_def ParseCommandString_def)
qed

text \<open>
  The gap: the scripts that the handlers send to a runtime to list files and to start and stop a service do not ask for
  a raw shell and hold shell metacharacters, so the runtime refuses them, whatever the request: in a workspace
  with a runtime these three never work.\<close>

theorem runtime_scripts_refused:
  "\<exists>c. commandLine (systemCommand listScript dir timeout) = Inl (InvalidCommand (CommandMetacharacter c))"
  "\<exists>c. commandLine (systemCommand (startServiceScript serviceID command) dir timeout) = Inl (InvalidCommand (CommandMetacharacter c))"
  "\<exists>c. commandLine (systemCommand (stopServiceScript serviceID) dir timeout) = Inl (InvalidCommand (CommandMetacharacter c))"
proof -
  have l: "CHR 0x24 \<in> set listScript" by code_simp
  have "CHR 0x24 \<in> set (''mkdir -p '' @ dq ''$dir'')" by code_simp
  then have s: "CHR 0x24 \<in> set (startServiceScript serviceID command)"
    unfolding startServiceScript_def by (rule subsetD [OF set_join_with, rotated]) simp
  have "CHR 0x24 \<in> set (''pid_file='' @ dq ''$dir/pid'')" by code_simp
  then have p: "CHR 0x24 \<in> set (stopServiceScript serviceID)"
    unfolding stopServiceScript_def by (rule subsetD [OF set_join_with, rotated]) simp
  show "\<exists>c. commandLine (systemCommand listScript dir timeout) = Inl (InvalidCommand (CommandMetacharacter c))"
    by (rule meta_rejected [OF l]) (simp_all add: systemCommand_def)
  show "\<exists>c. commandLine (systemCommand (startServiceScript serviceID command) dir timeout) = Inl (InvalidCommand (CommandMetacharacter c))"
    by (rule meta_rejected [OF s]) (simp_all add: systemCommand_def)
  show "\<exists>c. commandLine (systemCommand (stopServiceScript serviceID) dir timeout) = Inl (InvalidCommand (CommandMetacharacter c))"
    by (rule meta_rejected [OF p]) (simp_all add: systemCommand_def)
qed

text \<open>The state of a service is kept in a directory of its own, exactly three names below the base directory.\<close>

lemma validated_name: "validateStatePathComponent v f = Inr w \<Longrightarrow> placeName w \<and> length w \<le> 120 \<and> list_all plainByte w"
proof -
  assume "validateStatePathComponent v f = Inr w"
  then have w: "w \<noteq> []" "length w \<le> 120" "list_all plainByte w"
    by (auto simp: validateStatePathComponent_def Let_def split: if_splits)
  have "\<not> plainByte CHR 0x2E" "\<not> plainByte CHR 0x2F" by code_simp+
  with w have "w \<noteq> ''.''" "w \<noteq> ''..''" "CHR 0x2F \<notin> set w" by (auto simp: list_all_iff)
  with w show ?thesis by (simp add: placeName_def plainName_def)
qed

lemma localWorkspaceServiceDir_below:
  assumes "localWorkspaceServiceDir base wid sid = Inr p" "IsAbs base"
  shows "\<exists>a b. absPath p \<and> namesOf p = rootOf base @ [''local-services'', a, b] \<and> list_all plainByte a \<and> list_all plainByte b"
proof -
  obtain a b where a: "validateStatePathComponent wid ''workspace id'' = Inr a"
    and b: "validateStatePathComponent sid ''service_id'' = Inr b" and p: "p = path_Join4 base ''local-services'' a b"
    using assms(1) by (auto simp: localWorkspaceServiceDir_def split: sum.splits)
  have base: "base \<noteq> []" using assms(2) by (auto simp: IsAbs_def HasPrefix_prefix slash_def)
  define rel where "rel = join_with slash [''local-services'', a, b]"
  have names: "list_all placeName [''local-services'', a, b]"
    using validated_name [OF a] validated_name [OF b] by (simp add: placeName_def plainName_def)
  have comps: "components rel = [''local-services'', a, b]"
    unfolding rel_def components_def slash_def using names by (intro split_join) (auto simp: placeName_def)
  then have repo: "repo_path rel" using names by (auto simp: repo_path_def placeName_def plainName_def)
  have nonempty: "a \<noteq> []" "b \<noteq> []" using names by (auto simp: placeName_def plainName_def)
  have j: "p = path_Join base rel"
    using base nonempty by (simp add: p path_Join4_def path_Join_def rel_def)
  have "rel \<noteq> ''.''" using comps by (auto simp: components_def)
  with path_Join_names [OF assms(2), of rel] repo comps j have "namesOf p = rootOf base @ [''local-services'', a, b]" by simp
  moreover have "absPath p" unfolding j by (rule path_Join_abs [OF assms(2)])
  ultimately show ?thesis using validated_name [OF a] validated_name [OF b] by blast
qed

end
