(* ===== verification/Reviewer.thy ===== *)
theory Reviewer
  imports GoLines GoFloat GoStep Models
begin

text \<open>
  The review of an agent's changes (\<open>packages/reviewer/reviewer.go\<close>): the statistics of a difference, the risk and the
  verdict, the findings of the security scanners, and the report that is stored and read.

  \<open>git\<close>, the scanners and the text of a percentage are parameters.
\<close>

section \<open>Reports\<close>

record Finding =
  fi_Severity :: string
  fi_File :: string
  fi_Line :: int
  fi_Message :: string
  fi_Category :: string
  fi_Suggestion :: string

record FileChange =
  fc_Path :: string
  fc_Status :: string
  fc_Insertions :: int
  fc_Deletions :: int
  fc_IsTest :: bool
  fc_IsConfig :: bool
  fc_IsMigration :: bool

record DiffSummary =
  dif_FilesChanged :: int
  dif_Insertions :: int
  dif_Deletions :: int
  dif_Files :: "FileChange list"

record ReviewReport =
  rr_RunID :: string
  rr_Summary :: string
  rr_Findings :: "Finding list"
  rr_RiskLevel :: string
  rr_Approvable :: bool
  rr_Suggestions :: "string list"
  rr_TestCoverage :: string
  rr_SecurityNotes :: string
  rr_DiffSummary :: DiffSummary
  rr_CreatedAt :: int

record TestResults =
  tr_TestsPassed :: bool
  tr_TestsTotal :: int
  tr_TestsFailed :: int
  tr_LintPassed :: bool
  tr_TypecheckPassed :: bool
  tr_CoveragePercent :: f64

text \<open>A number as \<open>%d\<close> prints it.\<close>

definition dec :: "int \<Rightarrow> string" where
  "dec n = (if n < 0 then ''-'' @ FormatUint (- n) else FormatUint n)"

section \<open>Statistics of a difference\<close>

definition blankByte :: "char \<Rightarrow> bool" where
  "blankByte c \<longleftrightarrow> c \<in> {CHR 0x20, TAB, NL, CHR 0x0C, CHR 0x0D}"

text \<open>
  The expression \<open>diff --git a/(\S+) b/(\S+)\<close>, which may match anywhere in a line; the second group is the path.
  \<open>\S+\<close> takes all up to the next blank.
\<close>

definition gitHeaderAt :: "string \<Rightarrow> string option" where
  "gitHeaderAt s =
     (if \<not> HasPrefix s ''diff --git a/'' then None
      else
        let rest = drop 13 s; a = takeWhile (\<lambda>c. \<not> blankByte c) rest; rest1 = drop (length a) rest in
        if a = [] \<or> \<not> HasPrefix rest1 '' b/'' then None
        else let b = takeWhile (\<lambda>c. \<not> blankByte c) (drop 3 rest1) in if b = [] then None else Some b)"

fun gitHeader :: "string \<Rightarrow> string option" where
  "gitHeader [] = None"
| "gitHeader (c # cs) = (case gitHeaderAt (c # cs) of Some p \<Rightarrow> Some p | None \<Rightarrow> gitHeader cs)"

definition anyContains :: "string \<Rightarrow> string list \<Rightarrow> bool" where
  "anyContains s ps = list_ex (Contains s) ps"

definition anySuffix :: "string \<Rightarrow> string list \<Rightarrow> bool" where
  "anySuffix s ps = list_ex (HasSuffix s) ps"

text \<open>\<open>^\d+_.*\.sql$\<close> and \<open>V\d+__.*\.sql$\<close>.\<close>

definition numberedSQL :: "string \<Rightarrow> string \<Rightarrow> bool" where
  "numberedSQL sep s =
     (let digits = takeWhile isDigit s; rest = drop (length digits) s in
      digits \<noteq> [] \<and> HasPrefix rest sep \<and> HasSuffix (drop (length sep) rest) ''.sql'')"

definition classifyFile :: "(string \<Rightarrow> string) \<Rightarrow> string \<Rightarrow> bool \<times> bool \<times> bool" where
  "classifyFile ulower path =
     (let low = ToLower ulower path in
      (anyContains low [''_test.'', ''.test.''] \<or> HasSuffix low ''_tests.go'' \<or> HasPrefix low ''test/'' \<or> HasPrefix low ''tests/'',
       anySuffix low [''.json'', ''.yaml'', ''.yml'', ''.toml'', ''.ini'', ''.env'', ''.config.js'', ''.config.ts''] \<or>
         anyContains low [''dockerfile'', ''docker-compose'', ''.github/'', ''.gitlab-''],
       anyContains low [''migration'', ''migrat'', ''/migrations/'', ''/migrate/''] \<or> numberedSQL ''_'' path \<or>
         list_ex (\<lambda>k. HasPrefix (drop k path) ''V'' \<and> numberedSQL ''__'' (drop (Suc k) path)) [0..<length path]))"

definition newFileChange :: "(string \<Rightarrow> string) \<Rightarrow> string \<Rightarrow> FileChange" where
  "newFileChange ulower path =
     (let (isTest, isConfig, isMigration) = classifyFile ulower path in
      \<lparr>fc_Path = path, fc_Status = ''modified'', fc_Insertions = 0, fc_Deletions = 0, fc_IsTest = isTest,
       fc_IsConfig = isConfig, fc_IsMigration = isMigration\<rparr>)"

definition emptySummary :: DiffSummary where
  "emptySummary = \<lparr>dif_FilesChanged = 0, dif_Insertions = 0, dif_Deletions = 0, dif_Files = []\<rparr>"

text \<open>A line that is not a header, for the summary and for the file it belongs to.\<close>

definition insertedLine :: "string \<Rightarrow> int" where
  "insertedLine line = (if HasPrefix line ''+'' \<and> \<not> HasPrefix line ''+++'' then 1 else 0)"

definition deletedLine :: "string \<Rightarrow> int" where
  "deletedLine line = (if HasPrefix line ''-'' \<and> \<not> HasPrefix line ''---'' then 1 else 0)"

definition markFile :: "string \<Rightarrow> FileChange \<Rightarrow> FileChange" where
  "markFile line f =
     (let f1 = (if Contains line ''--- /dev/null'' then f\<lparr>fc_Status := ''added''\<rparr> else f);
          f2 = (if Contains line ''+++ /dev/null'' then f1\<lparr>fc_Status := ''deleted''\<rparr> else f1)
      in f2\<lparr>fc_Insertions := fc_Insertions f2 + insertedLine line, fc_Deletions := fc_Deletions f2 + deletedLine line\<rparr>)"

definition closeFile :: "FileChange option \<Rightarrow> DiffSummary \<Rightarrow> DiffSummary" where
  "closeFile current summary = (case current of None \<Rightarrow> summary | Some f \<Rightarrow> summary\<lparr>dif_Files := dif_Files summary @ [f]\<rparr>)"

fun parseLines :: "(string \<Rightarrow> string) \<Rightarrow> FileChange option \<Rightarrow> DiffSummary \<Rightarrow> string list \<Rightarrow> DiffSummary" where
  "parseLines ulower current summary [] = summary"
| "parseLines ulower current summary (line # rest) =
     (case gitHeader line of
        Some path \<Rightarrow>
          parseLines ulower (Some (newFileChange ulower path))
            ((closeFile current summary)\<lparr>dif_FilesChanged := dif_FilesChanged summary + 1\<rparr>) rest
      | None \<Rightarrow>
          let current1 = map_option (markFile line) current;
              summary1 = summary\<lparr>dif_Insertions := dif_Insertions summary + insertedLine line,
                dif_Deletions := dif_Deletions summary + deletedLine line\<rparr>
          in parseLines ulower current1 (if rest = [] then closeFile current1 summary1 else summary1) rest)"

definition parseDiffStats :: "(string \<Rightarrow> string) \<Rightarrow> string \<Rightarrow> DiffSummary" where
  "parseDiffStats ulower diff = (if diff = [] then emptySummary else parseLines ulower None emptySummary (split_on NL diff))"

section \<open>The verdict\<close>

definition starFinding :: "string \<Rightarrow> string \<Rightarrow> string \<Rightarrow> string \<Rightarrow> Finding" where
  "starFinding severity message category suggestion =
     \<lparr>fi_Severity = severity, fi_File = ''*'', fi_Line = 0, fi_Message = message, fi_Category = category, fi_Suggestion = suggestion\<rparr>"

text \<open>Each check adds to the score of the risk and to the findings.\<close>

definition sizeChecks :: "DiffSummary \<Rightarrow> int \<times> Finding list" where
  "sizeChecks d =
     (let lines = dif_Insertions d + dif_Deletions d in
      ((if dif_FilesChanged d > 20 then 2 else 0) + (if lines > 500 then 2 else 0),
       (if dif_FilesChanged d > 20
        then [starFinding ''medium'' (''Large change set: '' @ dec (dif_FilesChanged d) @ '' files modified'') ''correctness''
                ''Consider breaking this into smaller, focused changes.''] else []) @
       (if lines > 500
        then [starFinding ''medium'' (''Large diff: '' @ dec lines @ '' lines changed'') ''correctness''
                ''Large diffs are harder to review. Consider splitting into multiple PRs.''] else [])))"

definition fileFindings :: "FileChange \<Rightarrow> Finding list" where
  "fileFindings f =
     (if fc_IsMigration f
      then [\<lparr>fi_Severity = ''high'', fi_File = fc_Path f, fi_Line = 0, fi_Message = ''Database migration detected'',
             fi_Category = ''correctness'',
             fi_Suggestion = ''Verify migration is reversible and has been tested on a copy of production data.''\<rparr>] else []) @
     (if fc_IsConfig f
      then [\<lparr>fi_Severity = ''info'', fi_File = fc_Path f, fi_Line = 0, fi_Message = ''Configuration file changed'',
             fi_Category = ''correctness'',
             fi_Suggestion = ''Verify configuration changes are intentional and documented.''\<rparr>] else [])"

definition fileChecks :: "DiffSummary \<Rightarrow> int \<times> Finding list" where
  "fileChecks d =
     (2 * int (length (filter fc_IsMigration (dif_Files d))), concat (map fileFindings (dif_Files d)))"

definition coverageCheck :: "(f64 \<Rightarrow> string) \<Rightarrow> DiffSummary \<Rightarrow> TestResults option \<Rightarrow> int \<times> string \<times> Finding list" where
  "coverageCheck percent d results =
     (case results of
        Some r \<Rightarrow> (0, percent (tr_CoveragePercent r) @ ''% coverage'', [])
      | None \<Rightarrow>
        if list_ex fc_IsTest (dif_Files d) then (0, ''Tests included'', [])
        else (1, ''No tests detected'',
          [starFinding ''medium'' ''No test files detected in this change'' ''testing''
             ''Consider adding unit tests for new or modified code.'']))"

definition resultChecks :: "TestResults option \<Rightarrow> int \<times> bool \<times> Finding list" where
  "resultChecks results =
     (case results of None \<Rightarrow> (0, True, [])
      | Some r \<Rightarrow>
        ((if tr_TestsPassed r then 0 else 3) + (if tr_LintPassed r then 0 else 1) + (if tr_TypecheckPassed r then 0 else 2),
         tr_TestsPassed r \<and> tr_TypecheckPassed r,
         (if tr_TestsPassed r then []
          else [starFinding ''critical'' (''Tests failing: '' @ dec (tr_TestsFailed r) @ ''/'' @ dec (tr_TestsTotal r) @ '' failed'')
                  ''testing'' ''Fix failing tests before merging.'']) @
         (if tr_LintPassed r then []
          else [starFinding ''low'' ''Lint errors detected'' ''style'' ''Fix lint errors to maintain code quality.'']) @
         (if tr_TypecheckPassed r then []
          else [starFinding ''high'' ''Type check errors detected'' ''correctness'' ''Fix type errors before merging.''])))"

definition sensitiveNotes :: "(string \<Rightarrow> string) \<Rightarrow> FileChange \<Rightarrow> string list" where
  "sensitiveNotes ulower f =
     (let low = ToLower ulower (fc_Path f); quoted = [CHR 0x27] @ fc_Path f @ [CHR 0x27] in
      (if anyContains low [''password'', ''secret'', ''token'', ''key'']
       then [''File '' @ quoted @ '' may contain sensitive data - verify no secrets are exposed''] else []) @
      (if anySuffix low [''.env'', ''.env.local'', ''.env.production'']
       then [''Environment file '' @ quoted @ '' changed - verify no secrets committed''] else []))"

definition checkSecurity :: "(string \<Rightarrow> string) \<Rightarrow> DiffSummary \<Rightarrow> string" where
  "checkSecurity ulower d =
     (let notes = concat (map (sensitiveNotes ulower) (dif_Files d)) in
      if notes = [] then ''No obvious security concerns detected in changed files.'' else join_with ''; '' notes)"

definition riskOf :: "int \<Rightarrow> string" where
  "riskOf score = (if score \<ge> 5 then ''critical'' else if score \<ge> 3 then ''high'' else if score \<ge> 1 then ''medium'' else ''low'')"

definition generateReview ::
  "(string \<Rightarrow> string) \<Rightarrow> (f64 \<Rightarrow> string) \<Rightarrow> string \<Rightarrow> int \<Rightarrow> string \<Rightarrow> TestResults option \<Rightarrow> ReviewReport" where
  "generateReview ulower percent uuid now diff results =
     (let d = parseDiffStats ulower diff;
          (s1, f1) = sizeChecks d; (s2, f2) = fileChecks d;
          (s3, coverage, f3) = coverageCheck percent d results; (s4, passed, f4) = resultChecks results;
          score = s1 + s2 + s3 + s4
      in \<lparr>rr_RunID = uuid,
          rr_Summary = ''Automated review of '' @ dec (dif_FilesChanged d) @ '' files changed ('' @ dec (dif_Insertions d) @
            '' insertions, '' @ dec (dif_Deletions d) @ '' deletions).'',
          rr_Findings = f1 @ f2 @ f3 @ f4, rr_RiskLevel = riskOf score, rr_Approvable = (passed \<and> score < 3),
          rr_Suggestions = [''Review all modified files for correctness.'', ''Ensure error handling is adequate.'',
            ''Verify no sensitive data is exposed in the diff.''],
          rr_TestCoverage = coverage, rr_SecurityNotes = checkSecurity ulower d, rr_DiffSummary = d, rr_CreatedAt = now\<rparr>)"

section \<open>Security scanners\<close>

record ScanFinding =
  sf_Severity :: string
  sf_Rule :: string
  sf_Message :: string
  sf_File :: string
  sf_Line :: int
  sf_Fix :: string

record ScanResult =
  sr_ScannerName :: string
  sr_Findings :: "ScanFinding list"
  sr_Total :: int

definition normalizeReviewSeverity :: "(string \<Rightarrow> string) \<Rightarrow> string \<Rightarrow> string" where
  "normalizeReviewSeverity ulower severity =
     (let s = ToLower ulower (TrimSpace severity) in
      if s \<in> {''critical'', ''high'', ''medium'', ''low''} then s else ''info'')"

definition firstNonEmpty :: "string list \<Rightarrow> string" where
  "firstNonEmpty values = (case find (\<lambda>v. TrimSpace v \<noteq> []) values of None \<Rightarrow> [] | Some v \<Rightarrow> v)"

text \<open>\<open>quote\<close> is \<open>%q\<close>.\<close>

definition reviewerFindingFromScan :: "(string \<Rightarrow> string) \<Rightarrow> (string \<Rightarrow> string) \<Rightarrow> string \<Rightarrow> ScanFinding \<Rightarrow> Finding" where
  "reviewerFindingFromScan ulower quote scanner f =
     \<lparr>fi_Severity = normalizeReviewSeverity ulower (sf_Severity f), fi_File = firstNonEmpty [sf_File f, ''*''], fi_Line = sf_Line f,
      fi_Message = scanner @ '': '' @ firstNonEmpty [sf_Message f, sf_Rule f, ''security finding''], fi_Category = ''security'',
      fi_Suggestion = firstNonEmpty [sf_Fix f, ''Review '' @ scanner @ '' finding '' @ quote (sf_Rule f) @ ''.'']\<rparr>"

definition changedFilePaths :: "DiffSummary \<Rightarrow> string list" where
  "changedFilePaths d = filter (\<lambda>p. p \<noteq> []) (map fc_Path (dif_Files d))"

definition appendSecurityNote :: "string \<Rightarrow> string \<Rightarrow> string" where
  "appendSecurityNote existing noted = (if TrimSpace existing = [] then noted else existing @ '' '' @ noted)"

definition addSecurityFinding :: "Finding \<Rightarrow> ReviewReport \<Rightarrow> ReviewReport" where
  "addSecurityFinding f r0 =
     (let r = r0\<lparr>rr_Findings := rr_Findings r0 @ [f]\<rparr> in
      if fi_Severity f = ''critical'' then r\<lparr>rr_RiskLevel := ''critical'', rr_Approvable := False\<rparr>
      else if fi_Severity f = ''high''
      then r\<lparr>rr_RiskLevel := (if rr_RiskLevel r = ''critical'' then ''critical'' else ''high''), rr_Approvable := False\<rparr>
      else if fi_Severity f = ''medium''
      then r\<lparr>rr_RiskLevel := (if rr_RiskLevel r = ''low'' then ''medium'' else rr_RiskLevel r)\<rparr>
      else r)"

definition addNote :: "string \<Rightarrow> ReviewReport \<Rightarrow> ReviewReport" where
  "addNote noted r = r\<lparr>rr_SecurityNotes := appendSecurityNote (rr_SecurityNotes r) noted\<rparr>"

text \<open>The scanner gives an error or results, of which some may be missing.\<close>

type_synonym scanner = "string \<Rightarrow> string list \<Rightarrow> string + ScanResult option list"

definition applySecurityScan ::
  "(string \<Rightarrow> string) \<Rightarrow> (string \<Rightarrow> string) \<Rightarrow> scanner option \<Rightarrow> string \<Rightarrow> ReviewReport \<Rightarrow> ReviewReport" where
  "applySecurityScan ulower quote scan workspacePath r =
     (if workspacePath = [] then
        addNote ''Automated security scan skipped: no local worktree path.''
          (addSecurityFinding (starFinding ''medium''
             ''Automated security scan skipped because the workspace has no local worktree path'' ''security''
             ''Run review in a workspace with a readable local worktree or add runtime-backed scanner support.'') r)
      else case scan of
        None \<Rightarrow> addNote ''Automated security scan skipped: scanner is not configured.'' r
      | Some scanAll \<Rightarrow>
        (case scanAll workspacePath (changedFilePaths (rr_DiffSummary r)) of
           Inl e \<Rightarrow>
             addNote (''Automated security scan unavailable: '' @ e)
               (addSecurityFinding (starFinding ''medium'' ''Automated security scan did not complete'' ''security'' e) r)
         | Inr results0 \<Rightarrow>
             let results = List.map_filter (\<lambda>x. x) results0;
                 found = concat (map (\<lambda>x. map (reviewerFindingFromScan ulower quote (sr_ScannerName x)) (sr_Findings x)) results);
                 r1 = fold addSecurityFinding found r
             in if results = [] then addNote ''Automated security scan ran but no scanner results were returned.'' r1
                else addNote (''Automated security scan completed: '' @
                  join_with '', '' (map (\<lambda>x. sr_ScannerName x @ ''='' @ dec (sr_Total x)) results) @ ''; '' @
                  dec (sum_list (map sr_Total results)) @ '' finding(s).'') r1))"

section \<open>Reviewing a run\<close>

datatype review_error = RunNotFound | NoWorkspace | SaveFailed | ReportNotFound

record ReviewDB =
  rv_runs :: "AgentRun list"
  rv_workspaces :: "Workspace list"
  rv_reports :: "ReviewReport list"

text \<open>
  What a review uses of the outside: whether queries fail, \<open>git diff\<close> (None when it fails), the scanners, a new
  identifier and the time.
\<close>

record ReviewEnv =
  re_runFails :: bool
  re_pathFails :: bool
  re_saveFails :: bool
  re_diff :: "string \<Rightarrow> string option"
  re_scan :: "scanner option"
  re_uuid :: string
  re_now :: int
  re_ulower :: "string \<Rightarrow> string"
  re_quote :: "string \<Rightarrow> string"
  re_percent :: "f64 \<Rightarrow> string"

definition reviewer_getWorkspacePath :: "ReviewEnv \<Rightarrow> ReviewDB \<Rightarrow> string \<Rightarrow> string option" where
  "reviewer_getWorkspacePath re db workspaceID =
     (if re_pathFails re then None
      else case find (\<lambda>w. ws_ID w = workspaceID) (rv_workspaces db) of None \<Rightarrow> None
      | Some w \<Rightarrow> (case ws_WorktreePath w of None \<Rightarrow> None | Some p \<Rightarrow> if p = [] then None else Some p))"

text \<open>One report for each run: a later one takes the place of the earlier.\<close>

definition SaveReport :: "ReviewEnv \<Rightarrow> ReviewReport \<Rightarrow> (ReviewDB, review_error, unit) gostep" where
  "SaveReport re report db =
     (if re_saveFails re then (Inl SaveFailed, db)
      else (Inr (), db\<lparr>rv_reports := filter (\<lambda>x. rr_RunID x \<noteq> rr_RunID report) (rv_reports db) @ [report]\<rparr>))"

definition GetReport :: "ReviewDB \<Rightarrow> string \<Rightarrow> review_error + ReviewReport" where
  "GetReport db runID = (case find (\<lambda>x. rr_RunID x = runID) (rv_reports db) of None \<Rightarrow> Inl ReportNotFound | Some x \<Rightarrow> Inr x)"

text \<open>The report of a review before it is saved; test results are never given, and the steps of the run are not used.\<close>

definition reviewReport :: "ReviewEnv \<Rightarrow> string \<Rightarrow> string \<Rightarrow> ReviewReport" where
  "reviewReport re runID worktreePath =
     (let diff = (if worktreePath = [] then [] else case re_diff re worktreePath of None \<Rightarrow> [] | Some d \<Rightarrow> d);
          report = generateReview (re_ulower re) (re_percent re) (re_uuid re) (re_now re) diff None
      in applySecurityScan (re_ulower re) (re_quote re) (re_scan re) worktreePath (report\<lparr>rr_RunID := runID\<rparr>))"

definition Review :: "ReviewEnv \<Rightarrow> string \<Rightarrow> (ReviewDB, review_error, ReviewReport) gostep" where
  "Review re runID db =
     (case (if re_runFails re then None else find (\<lambda>x. ar_ID x = runID) (rv_runs db)) of
        None \<Rightarrow> (Inl RunNotFound, db)
      | Some run \<Rightarrow>
        (case ar_WorkspaceID run of None \<Rightarrow> (Inl NoWorkspace, db)
         | Some workspaceID \<Rightarrow>
           let report = reviewReport re runID (case reviewer_getWorkspacePath re db workspaceID of None \<Rightarrow> [] | Some p \<Rightarrow> p)
           in bindE (SaveReport re report) (\<lambda>_. retE report) db))"

section \<open>What a verdict says\<close>

text \<open>
  The verdict of a report is sound when its risk is one of four, it is approvable exactly at the two lower ones, and then
  none of its findings is critical and the only findings that are high are the notices of a migration.
\<close>

definition tolerable :: "Finding \<Rightarrow> bool" where
  "tolerable f \<longleftrightarrow> fi_Severity f \<noteq> ''critical'' \<and> (fi_Severity f = ''high'' \<longrightarrow> fi_Message f = ''Database migration detected'')"

definition soundVerdict :: "ReviewReport \<Rightarrow> bool" where
  "soundVerdict r \<longleftrightarrow>
     rr_RiskLevel r \<in> {''low'', ''medium'', ''high'', ''critical''} \<and>
     (rr_Approvable r \<longleftrightarrow> rr_RiskLevel r \<in> {''low'', ''medium''}) \<and>
     (rr_Approvable r \<longrightarrow> list_all tolerable (rr_Findings r))"

lemma soundVerdict_addSecurityFinding [intro]:
  assumes "soundVerdict r"
  shows "soundVerdict (addSecurityFinding f r)"
proof -
  consider "fi_Severity f = ''critical''" | "fi_Severity f = ''high''"
    | "fi_Severity f = ''medium''" | "fi_Severity f \<notin> {''critical'', ''high'', ''medium''}" by blast
  then show ?thesis
    by cases (use assms in \<open>auto simp: soundVerdict_def addSecurityFinding_def Let_def tolerable_def\<close>)
qed

lemma soundVerdict_fold: "soundVerdict r \<Longrightarrow> soundVerdict (fold addSecurityFinding fs r)"
  by (induction fs arbitrary: r) auto

lemma soundVerdict_addNote [simp]: "soundVerdict (addNote m r) = soundVerdict r"
  by (simp add: soundVerdict_def addNote_def)

lemma soundVerdict_RunID [simp]: "soundVerdict (r\<lparr>rr_RunID := x\<rparr>) = soundVerdict r"
  by (simp add: soundVerdict_def)

lemma soundVerdict_applySecurityScan:
  assumes "soundVerdict r"
  shows "soundVerdict (applySecurityScan ulower quote scan path r)"
  using assms
  by (auto simp: applySecurityScan_def Let_def intro: soundVerdict_fold split: option.split sum.split)

lemma tolerable_fileFindings: "list_all tolerable (fileFindings f)"
  by (simp add: fileFindings_def tolerable_def)

lemma list_all_concat_map: "(\<And>x. list_all P (g x)) \<Longrightarrow> list_all P (concat (map g xs))"
  by (induction xs) auto

lemma tolerable_sizeChecks: "list_all tolerable (snd (sizeChecks d))"
  by (simp add: sizeChecks_def Let_def tolerable_def starFinding_def)

lemma tolerable_fileChecks: "list_all tolerable (snd (fileChecks d))"
  by (simp add: fileChecks_def list_all_concat_map tolerable_fileFindings)

lemma tolerable_coverageCheck: "list_all tolerable (snd (snd (coverageCheck percent d results)))"
  by (simp add: coverageCheck_def tolerable_def starFinding_def split: option.split)

lemma soundVerdict_generateReview: "soundVerdict (generateReview ulower percent uuid now diff None)"
proof -
  let ?d = "parseDiffStats ulower diff"
  obtain s1 f1 where 1: "sizeChecks ?d = (s1, f1)" by fastforce
  obtain s2 f2 where 2: "fileChecks ?d = (s2, f2)" by fastforce
  obtain s3 c f3 where 3: "coverageCheck percent ?d None = (s3, c, f3)" by (metis prod_cases3)
  have fs: "list_all tolerable (f1 @ f2 @ f3)"
    using tolerable_sizeChecks [of ?d] tolerable_fileChecks [of ?d] tolerable_coverageCheck [of percent ?d None]
    by (simp add: 1 2 3)
  have "rr_Findings (generateReview ulower percent uuid now diff None) = f1 @ f2 @ f3"
    "rr_RiskLevel (generateReview ulower percent uuid now diff None) = riskOf (s1 + s2 + s3)"
    "rr_Approvable (generateReview ulower percent uuid now diff None) = (s1 + s2 + s3 < 3)"
    by (simp_all add: generateReview_def Let_def 1 2 3 resultChecks_def)
  then show ?thesis
    using fs by (auto simp: soundVerdict_def riskOf_def)
qed

lemma soundVerdict_reviewReport: "soundVerdict (reviewReport re runID path)"
  by (simp add: reviewReport_def Let_def soundVerdict_applySecurityScan soundVerdict_generateReview)

lemma rr_RunID_addSecurityFinding [simp]: "rr_RunID (addSecurityFinding f r) = rr_RunID r"
  by (simp add: addSecurityFinding_def Let_def)

lemma rr_RunID_fold [simp]: "rr_RunID (fold addSecurityFinding fs r) = rr_RunID r"
  by (induction fs arbitrary: r) simp_all

lemma rr_RunID_addNote [simp]: "rr_RunID (addNote m r) = rr_RunID r"
  by (simp add: addNote_def)

lemma rr_RunID_reviewReport [simp]: "rr_RunID (reviewReport re runID path) = runID"
  by (simp add: reviewReport_def applySecurityScan_def Let_def split: option.split sum.split)

lemma Review_cases:
  assumes "Review re runID db = (Inr r, db')"
  obtains run workspaceID path where "find (\<lambda>x. ar_ID x = runID) (rv_runs db) = Some run" "ar_WorkspaceID run = Some workspaceID"
    "r = reviewReport re runID path"
    "db' = db\<lparr>rv_reports := filter (\<lambda>x. rr_RunID x \<noteq> runID) (rv_reports db) @ [r]\<rparr>"
proof -
  obtain run where run: "(if re_runFails re then None else find (\<lambda>x. ar_ID x = runID) (rv_runs db)) = Some run"
    using assms by (fastforce simp: Review_def split: option.splits)
  then obtain workspaceID where ws: "ar_WorkspaceID run = Some workspaceID"
    using assms by (fastforce simp: Review_def split: option.splits)
  let ?path = "case reviewer_getWorkspacePath re db workspaceID of None \<Rightarrow> [] | Some p \<Rightarrow> p"
  have "bindE (SaveReport re (reviewReport re runID ?path)) (\<lambda>_. retE (reviewReport re runID ?path)) db = (Inr r, db')"
    using assms run ws by (simp add: Review_def Let_def)
  then have "r = reviewReport re runID ?path"
    "db' = db\<lparr>rv_reports := filter (\<lambda>x. rr_RunID x \<noteq> runID) (rv_reports db) @ [r]\<rparr>"
    by (auto simp: bindE_def retE_def SaveReport_def split: if_splits)
  with run ws show thesis
    by (auto intro: that split: if_splits)
qed

lemma find_filter_other: "x \<noteq> y \<Longrightarrow> find (\<lambda>z. f z = y) (filter (\<lambda>z. f z \<noteq> x) zs) = find (\<lambda>z. f z = y) zs"
  by (induction zs) auto

lemma find_append: "find P (xs @ ys) = (case find P xs of None \<Rightarrow> find P ys | Some x \<Rightarrow> Some x)"
  by (induction xs) auto

lemma find_filtered_out: "find (\<lambda>z. f z = x) (filter (\<lambda>z. f z \<noteq> x) zs) = None"
  by (simp add: find_None_iff)

section \<open>The sums of a difference\<close>

text \<open>The files add up to the summary, with the file that is still open.\<close>

definition allFiles :: "FileChange option \<Rightarrow> DiffSummary \<Rightarrow> FileChange list" where
  "allFiles current summary = dif_Files summary @ (case current of None \<Rightarrow> [] | Some f \<Rightarrow> [f])"

definition addsUp :: "FileChange list \<Rightarrow> DiffSummary \<Rightarrow> bool" where
  "addsUp files summary \<longleftrightarrow>
     dif_FilesChanged summary = int (length files) \<and>
     dif_Insertions summary = sum_list (map fc_Insertions files) \<and>
     dif_Deletions summary = sum_list (map fc_Deletions files)"

lemma markFile_counts [simp]:
  "fc_Insertions (markFile line f) = fc_Insertions f + insertedLine line"
  "fc_Deletions (markFile line f) = fc_Deletions f + deletedLine line"
  by (simp_all add: markFile_def Let_def)

lemma newFileChange_counts [simp]:
  "fc_Insertions (newFileChange ulower path) = 0" "fc_Deletions (newFileChange ulower path) = 0"
  by (simp_all add: newFileChange_def Let_def split: prod.split)

lemma parseLines_addsUp:
  assumes "addsUp (allFiles (Some f) summary) summary" "lines \<noteq> []" "gitHeader (last lines) = None"
  shows "addsUp (dif_Files (parseLines ulower (Some f) summary lines)) (parseLines ulower (Some f) summary lines)"
  using assms
proof (induction lines arbitrary: f summary)
  case (Cons line rest)
  show ?case
  proof (cases "gitHeader line")
    case None
    let ?f = "markFile line f"
    let ?s = "summary\<lparr>dif_Insertions := dif_Insertions summary + insertedLine line,
      dif_Deletions := dif_Deletions summary + deletedLine line\<rparr>"
    have step: "addsUp (allFiles (Some ?f) ?s) ?s"
      using Cons.prems(1) by (simp add: addsUp_def allFiles_def)
    show ?thesis
    proof (cases "rest = []")
      case True
      then show ?thesis using step None by (simp add: Let_def closeFile_def addsUp_def allFiles_def)
    next
      case False
      then show ?thesis using Cons.IH [OF step False] Cons.prems(3) None by (simp add: Let_def)
    qed
  next
    case (Some path)
    then have rest: "rest \<noteq> []" using Cons.prems(3) by auto
    let ?s = "(closeFile (Some f) summary)\<lparr>dif_FilesChanged := dif_FilesChanged summary + 1\<rparr>"
    have step: "addsUp (allFiles (Some (newFileChange ulower path)) ?s) ?s"
      using Cons.prems(1) by (simp add: addsUp_def allFiles_def closeFile_def)
    show ?thesis using Cons.IH [OF step rest] Cons.prems(3) Some rest by simp
  qed
qed simp

section \<open>What a review promises\<close>

text \<open>
  C39. The report of a review is approvable exactly when its risk is low or medium, and an approvable report has no critical
  finding, and no high one that is not the notice of a migration: in particular no finding of a security scanner that is
  critical or high can be in a report that says it may be merged.
\<close>

theorem review_verdict:
  assumes "Review re runID db = (Inr r, db')"
  shows "rr_RiskLevel r \<in> {''low'', ''medium'', ''high'', ''critical''} \<and>
    (rr_Approvable r \<longleftrightarrow> rr_RiskLevel r \<in> {''low'', ''medium''}) \<and>
    (rr_Approvable r \<longrightarrow> (\<forall>f \<in> set (rr_Findings r).
       fi_Severity f \<noteq> ''critical'' \<and> (fi_Severity f = ''high'' \<longrightarrow> fi_Message f = ''Database migration detected'')))"
proof -
  obtain path where "r = reviewReport re runID path"
    using assms by (rule Review_cases)
  then have "soundVerdict r"
    by (simp add: soundVerdict_reviewReport)
  then show ?thesis
    by (auto simp: soundVerdict_def list_all_iff tolerable_def)
qed

definition reviewed_run :: AgentRun where
  "reviewed_run = (NullAgentRun None None (Some ''w1'') None None None None None None None None None None None None None None)
     \<lparr>ar_ID := ''r1''\<rparr>"

definition review_db :: ReviewDB where
  "review_db = \<lparr>rv_runs = [reviewed_run],
     rv_workspaces = [(NullWorkspace None None None None None None None None None None None None None None None)
       \<lparr>ws_ID := ''w1'', ws_WorktreePath := Some ''/work/w1''\<rparr>], rv_reports = []\<rparr>"

text \<open>One changed file, its test, and a scanner that reports one secret.\<close>

definition review_diff :: string where
  "review_diff = join_with [NL] [''diff --git a/a.go b/a.go'', ''+x'', ''diff --git a/a_test.go b/a_test.go'', ''+y'', ''-z'', []]"

definition review_env :: ReviewEnv where
  "review_env = \<lparr>re_runFails = False, re_pathFails = False, re_saveFails = False, re_diff = (\<lambda>_. Some review_diff),
     re_scan = Some (\<lambda>_ _. Inr [Some \<lparr>sr_ScannerName = ''gitleaks'',
       sr_Findings = [\<lparr>sf_Severity = ''HIGH'', sf_Rule = ''key'', sf_Message = [], sf_File = ''a.go'', sf_Line = 1, sf_Fix = []\<rparr>],
       sr_Total = 1\<rparr>]),
     re_uuid = ''u'', re_now = 7, re_ulower = (\<lambda>s. s), re_quote = (\<lambda>s. s), re_percent = (\<lambda>_. ''0'')\<rparr>"

theorem review_verdict_witness:
  "let (res, db) = Review review_env ''r1'' review_db in
   case res of Inl e \<Rightarrow> False
   | Inr r \<Rightarrow> rr_RiskLevel r = ''high'' \<and> \<not> rr_Approvable r \<and> length (rr_Findings r) = 1"
proof -
  obtain r db' where run: "Review review_env ''r1'' review_db = (Inr r, db')"
    and "rr_RiskLevel r = ''high''" "length (rr_Findings r) = 1"
  proof -
    have "case Review review_env ''r1'' review_db of (res, db) \<Rightarrow>
        (case res of Inl e \<Rightarrow> False | Inr r \<Rightarrow> rr_RiskLevel r = ''high'' \<and> length (rr_Findings r) = 1)"
      by code_simp
    then show thesis using that by (auto split: prod.splits sum.splits)
  qed
  moreover from this(2) have "\<not> rr_Approvable r"
    using review_verdict [OF run] by simp
  ultimately show ?thesis by simp
qed

text \<open>
  The report a review returns is the one that is read for that run from then on, and the reports of the other runs are as
  they were.
\<close>

theorem review_stored:
  assumes "Review re runID db = (Inr r, db')"
  shows "GetReport db' runID = Inr r \<and> (other = runID \<or> GetReport db' other = GetReport db other)"
proof -
  obtain path where r: "r = reviewReport re runID path"
    and db': "db' = db\<lparr>rv_reports := filter (\<lambda>x. rr_RunID x \<noteq> runID) (rv_reports db) @ [r]\<rparr>"
    using assms by (rule Review_cases)
  have own: "rr_RunID r = runID" by (simp add: r)
  have "GetReport db' runID = Inr r"
    by (simp add: GetReport_def db' own find_append find_filtered_out)
  moreover have "GetReport db' other = GetReport db other" if "other \<noteq> runID"
    using that own find_filter_other [of runID other rr_RunID "rv_reports db"]
    by (auto simp: GetReport_def db' find_append split: option.split)
  ultimately show ?thesis by blast
qed

theorem review_stored_witness:
  "\<exists>r db'. Review review_env ''r1'' review_db = (Inr r, db') \<and> GetReport db' ''r1'' = Inr r \<and> GetReport db' ''r2'' = Inl ReportNotFound"
proof -
  obtain r db' where run: "Review review_env ''r1'' review_db = (Inr r, db')"
  proof -
    have "case Review review_env ''r1'' review_db of (res, db) \<Rightarrow> (case res of Inl e \<Rightarrow> False | Inr r \<Rightarrow> True)"
      by code_simp
    then show thesis using that by (auto split: prod.splits sum.splits)
  qed
  show ?thesis
    using run review_stored [OF run, of "''r2''"] by (simp add: GetReport_def review_db_def)
qed



text \<open>
  Where the statistics and the verdict fall short: an inserted line that quotes a header is taken for another file; a path
  with a blank is no file at all; a header on the last line is counted but gives no file; and a migration, whose finding is
  high, is approvable.
\<close>

theorem review_gaps:
  "map fc_Path (dif_Files (parseDiffStats (\<lambda>s. s)
      (join_with [NL] [''diff --git a/x b/x'', ''+see diff --git a/y b/y'', []]))) = [''x'', ''y''] \<and>
   dif_Files (parseDiffStats (\<lambda>s. s) (join_with [NL] [''diff --git a/my file b/my file'', ''+1'', []])) = [] \<and>
   parseDiffStats (\<lambda>s. s) ''diff --git a/x b/x'' = emptySummary\<lparr>dif_FilesChanged := 1\<rparr> \<and>
   (let r = generateReview (\<lambda>s. s) (\<lambda>_. []) [] 0
      (join_with [NL] [''diff --git a/db/migrations/1.sql b/db/migrations/1.sql'', ''+x'', ''diff --git a/tests/t b/tests/t'', ''+y'', []]) None
    in rr_Approvable r \<and> rr_RiskLevel r = ''medium'' \<and> map fi_Severity (rr_Findings r) = [''high''])"
  by (intro conjI; code_simp)

end
