(* ===== verification/Spec2Isabelle.thy ===== *)
theory Spec2Isabelle
  imports SchedulerPlan WorkAdapter Capability AgentManager Admission ModelRouter Nulang Authz Approvals
    ApprovalHandlers TaskHandlers Verifier AgentRunner WorkspaceTools DockerRuntime WorkspaceHandlers Reviewer
begin

text \<open>
  A verification development of the Dev Plane, a control plane that schedules the work of coding
  agents on repositories, decides what they may do, and keeps their effects recoverable.

  \<^bold>\<open>The program.\<close>  Work items of a repository (\<open>packages/repoprotocol\<close>) are claimed under a lease and
  landed on evidence.  The scheduler (\<open>packages/scheduler\<close>) picks the items that can start, by their
  dependencies, owned paths, resources and cost.  A running agent asks the capability kernel
  (\<open>apps/api/internal/capability\<close>) for every dangerous operation; the kernel asks the roles and the
  policy engine (\<open>packages/policies\<close>) and the budget engine (\<open>apps/api/internal/budget\<close>) and binds
  its decision to a grant of \<open>packages/execution\<close>, which also gives effects an identity, fences
  stale owners by epochs and recovers effects from receipts.  The entities are the rows of
  \<open>packages/models\<close>, which requests reach under the organisation of their user (\<open>apps/api/internal/authz\<close>),
  and people answer requests for approval (\<open>apps/api/internal/approvals\<close>).  A worker
  (\<open>apps/worker/internal/handlers\<close>) turns the events of tasks, runs and approvals into runs, reviews and
  pull requests, and admits the runs of tasks, against each other and the scheduler.  An agent runs as threads, turns and items of the provider-neutral
  protocol of \<open>packages/agent-runtime\<close>, kept by \<open>packages/db\<close>, and its model calls go through the router of
  \<open>apps/api/internal/modelrouter\<close>.  The runner (\<open>apps/api/internal/agentrunner\<close>) drives an agent of its
  own: it asks the model for actions, runs the tools the kernel or an approval lets it, and keeps the
  status of the run.  The tools of an agent (\<open>apps/api/internal/tools\<close>), the handlers of a workspace's files,
  commands and services (\<open>apps/api/internal/handlers\<close>) and the runtimes on the host and in Docker
  (\<open>packages/runtimes\<close>) do the work in a workspace, and the reviewer (\<open>packages/reviewer\<close>) says whether the
  changes may be merged.  The verifier (\<open>packages/verifier\<close>) runs the gates of a work item and stores the
  evidence it lands on.  \<open>packages/readiness\<close> tells whether a repository or a task is fit for
  such work.

  \<^bold>\<open>The theories.\<close>
  \<^item> \<open>GoPrelude\<close>, \<open>GoStrings\<close>, \<open>GoText\<close>, \<open>GoFloat\<close>, \<open>GoFloatOrder\<close>, \<open>GoHash\<close>, \<open>GoSort\<close>:
    what the code uses of Go and its standard library.
    Errors are sums and options, strings are byte strings with \<open>strings.TrimSpace\<close>, \<open>path.Clean\<close> and
    the like defined; \<open>float64\<close> is IEEE 754 binary64 with the operations the code performs; SHA-256 and
    the decimal and hexadecimal texts are defined, so no hash is assumed to be free of collisions;
    a function that sorts is known by the promise of \<open>sort.Slice\<close> only, which is not stable.
  \<^item> \<open>RepoPath\<close>: paths inside a repository as lists of components, the files a path covers, and the
    locale \<open>path_normaliser\<close> of a normalisation whose results are repository paths; its client lemmas
    turn clashes of texts into shared files.  It is interpreted on the normalisations of the
    repository protocol and of the scheduler.
  \<^item> \<open>RepoProtocol\<close>: \<open>protocol.go\<close> and \<open>claim.go\<close>: validation of a configuration, the gates of a
    change, evidence for a head, work items and their lease.
  \<^item> \<open>Scheduler\<close>: \<open>scheduler.go\<close>: validation with its depth-first cycle search, ownership conflicts
    and the next decision.  The search carries the depth of recursion as fuel, the number of tasks
    plus two; it is proved never to run out.
  \<^item> \<open>SchedulerPlan\<close>: the plan of waves is a schedule, by an invariant of its loop.
  \<^item> \<open>WorkAdapter\<close>: \<open>work_adapter.go\<close>: the refinement of the scheduling of work items to that of tasks.
  \<^item> \<open>Execution\<close>: \<open>execution.go\<close>: activations, operation identities, canonical manifests of grants,
    delegation, intents and receipts.  The locale \<open>write_once\<close> is the contract of a record that is
    written once; it is interpreted on the merging of intents and of receipts.
  \<^item> \<open>Models\<close>: the entities of \<open>packages/models\<close>, their validation and the decoding of rows.
  \<^item> \<open>Policies\<close>: \<open>policy.go\<close> and \<open>rbac.go\<close>.  The locale \<open>preference\<close> is the strict weak order by which
    a loop keeps the best value; it is interpreted on the restrictiveness of effects.
  \<^item> \<open>Budgets\<close>: the checks of \<open>engine.go\<close>, over the three queries of the data base as parameters.
  \<^item> \<open>Capability\<close>: \<open>kernel.go\<close> and \<open>operations.go\<close>: the decision of the kernel from its parts, and the
    records it sends to the audit log.
  \<^item> \<open>AgentProtocol\<close>, \<open>AgentStore\<close>, \<open>AgentManager\<close>: \<open>protocol.go\<close>, \<open>registry.go\<close>, \<open>agent_runtime_store.go\<close>,
    \<open>manager.go\<close> and \<open>approval_manager.go\<close>: the entities of the protocol and their validation, the
    registry, the three tables, the recording of the events of a run and the answering of approvals.
    What the manager does to its store and to the consumer of the events is a trace, on which the
    properties are stated.
  \<^item> \<open>Readiness\<close>: \<open>readiness.go\<close> and \<open>task.go\<close>: the checks of a repository and of a task.
  \<^item> \<open>Admission\<close>: \<open>scheduler_admission.go\<close>: claims of runs over the tables, the decision by the scheduler,
    and the step relation of workers that admit runs concurrently, with its invariant.
  \<^item> \<open>WorkerBase\<close>, \<open>RunHandlers\<close>, \<open>ApprovalHandlers\<close>, \<open>TaskHandlers\<close>: \<open>run_handlers.go\<close>, \<open>approval_handlers.go\<close>
    and \<open>task_handlers.go\<close>: the handlers as steps on the tables that may fail at every statement,
    publication and acknowledgement.  The locale \<open>step_relation\<close> is a preorder on states that every
    handler stays within; it is interpreted on the relations that say the tables are unchanged, that
    handoffs and runs are paired, and that runs come with workspaces.
  \<^item> \<open>Approvals\<close>, \<open>Authz\<close>: \<open>service.go\<close> and \<open>authz.go\<close>: requests and answers of approvals, and the
    organisations of resources.
  \<^item> \<open>ModelRouter\<close>: \<open>router.go\<close>: scores, selection, calls and fallback.
  \<^item> \<open>WorkStore\<close>, \<open>Verifier\<close>: \<open>work_store.go\<close> and \<open>verifier.go\<close>: the tables of work items and evidence,
    and the verification of an item at a head; the runtime is a function of its calls.
  \<^item> \<open>GoStep\<close>: steps on a state that can fail, and the locale \<open>preorder_steps\<close> of the relations that
    steps stay within.
  \<^item> \<open>RunnerAuthority\<close>, \<open>AgentRunner\<close>: the agent runner.  The first holds the authorisation of tools,
    the consumption of approvals and the step relation of runners that consume them while people
    answer; the second the loop of a run, whose bound of fifty steps is that of the code, with the tables
    it keeps.  The locales \<open>runner_steps\<close> and \<open>runner_runs\<close> are the relations between the states before and
    after a part of a run that are counted by questions and tools; \<open>runner_runs\<close> is interpreted on the
    growth of the log and on the tools that were allowed.
  \<^item> \<open>GoFiles\<close>, \<open>GoLines\<close>: a file system with symbolic links (\<open>os\<close>, \<open>filepath.EvalSymlinks\<close>), whose places are
    lists of names and whose resolution of links takes fuel, the 255 links Go follows; lines, numbers and
    extensions.
  \<^item> \<open>WorkspacePaths\<close>: the four checks that keep a path inside a workspace, of the tools, the handlers, the
    local and the Docker runtime.  The locales \<open>path_gate\<close> and \<open>link_gate\<close> are what a check promises of the text
    and of the place it lets through; each check is an interpretation, and what is read and written
    below a workspace is proved once in them.
  \<^item> \<open>WorkspaceTools\<close>: \<open>tools/workspace.go\<close>: the tools, their checks of commands and the summaries they give.
  \<^item> \<open>Runtimes\<close>, \<open>DockerRuntime\<close>: \<open>command.go\<close>, \<open>factory.go\<close>, \<open>local.go\<close> and \<open>docker.go\<close>: the check of commands,
    sessions and operations on a host whose programs are a parameter and whose calls are logged; the
    invariant that containers stay isolated is an interpretation of \<open>preorder_steps\<close>.
  \<^item> \<open>WorkspaceHandlers\<close>: \<open>workspace_files.go\<close> and \<open>workspace_runtime.go\<close>: the handlers as steps that end in a
    reply, over the authorisation, the capability kernel and the runtimes.
  \<^item> \<open>Reviewer\<close>: \<open>reviewer.go\<close>: the statistics of a difference, the risk and the verdict, the findings of scanners
    and the stored report.
  \<^item> \<open>Nulang\<close>: \<open>ast.go\<close>, \<open>eval.go\<close> and \<open>compile.go\<close> of the expression language of the mock harness, with a
    type system under which evaluation does not go wrong.

  \<^bold>\<open>Conventions.\<close>  A definition has the name of the code it models, with the receiver's type before
  a method that would clash (\<open>WorkItem_Validate\<close>).  A named string type is a datatype with its
  declared constants and one constructor for any other string; a time is its number of nanoseconds
  since Go's zero time; a clock reading is an argument.  A map the code ranges over is the list of its
  entries in the order of one iteration.  \<open>int\<close> is unbounded except where a sum can leave 64 bits,
  where it is wrapped by \<open>i64\<close>.

  \<^bold>\<open>Outside the model.\<close>  The SQL queries of the budget engine are parameters (\<open>BudgetDB\<close>), those
  of the agent store and of admission are functions on lists of rows; the shortest decimal text of a float
  is a parameter of the policy conditions; the texts of errors and reasons are constructors that hold
  the printed values.  Providers of agents and of models are records of functions.  What programs do
  (\<open>git\<close>, \<open>docker\<close>, shells, the scanners) is a parameter; the streams of logs and the process runner of the runtimes,
  the other HTTP handlers, process supervision, message buses and the notifications and callbacks of
  the worker are not modelled.
\<close>

end
